(* ===== verification/Prelude.thy ===== *)
theory Prelude
  imports Complex_Main "HOL-Library.Sublist"
begin

section \<open>Shared types, integer conventions and generic lemmas\<close>

text \<open>
  What every component of the development shares.

  \<^item> \<^bold>\<open>Time.\<close> An \<open>Instant\<close> of Rust's monotonic clock and a \<open>Duration\<close> are natural numbers
    of nanoseconds (\<open>instant\<close>, \<open>duration\<close>). Rust's \<open>a.elapsed()\<close> and
    \<open>saturating_duration_since\<close> stop at zero, as subtraction on \<open>nat\<close> does. An operation that
    reads the clock takes its reading as the argument \<open>now\<close>; readings made inside one
    critical section are one value.
  \<^item> \<^bold>\<open>Integers.\<close> Unsigned integers are \<open>nat\<close> with the width written out where the code
    saturates, casts or can overflow (\<open>sat_add_u32\<close>, \<open>as_i64\<close>); signed timestamps are \<open>int\<close>.
  \<^item> \<^bold>\<open>Floats.\<close> The fractions the code compares with a threshold are quotients of two counts;
    they are rationals here (\<open>ratio_ge\<close>, \<open>ratio_gt\<close>), with the IEEE results for a zero
    denominator written out, and a threshold is the decimal the source writes. Rounding is
    monotone and the quotients have small denominators, so the comparison of the rounded
    values agrees with the comparison of the exact ones.
  \<^item> \<^bold>\<open>Machines.\<close> \<open>run_ops\<close> runs a list of operations; the locale \<open>machine\<close> is the
    contract of a component whose every operation keeps an invariant, and its lemmas lift
    one-step facts to runs.
\<close>

subsection \<open>Rule collections\<close>

named_theorems op_simps \<open>unfolding rules of the model's operations\<close>
named_theorems inv_intros \<open>introduction rules for component invariants\<close>

subsection \<open>Time\<close>

type_synonym instant = nat
type_synonym duration = nat

abbreviation nanos_per_sec :: nat where
  "nanos_per_sec \<equiv> 1000000000"

definition from_secs :: "nat \<Rightarrow> duration" where
  "from_secs n = n * nanos_per_sec"

definition from_millis :: "nat \<Rightarrow> duration" where
  "from_millis n = n * 1000000"

definition as_secs :: "duration \<Rightarrow> nat" where
  "as_secs d = d div nanos_per_sec"

definition as_millis :: "duration \<Rightarrow> nat" where
  "as_millis d = d div 1000000"

text \<open>\<open>Duration::MAX\<close>: \<open>u64::MAX\<close> seconds and 999999999 nanoseconds.\<close>

definition duration_max :: duration where
  "duration_max = 2 ^ 64 * nanos_per_sec - 1"

text \<open>\<open>Duration::saturating_mul\<close>.\<close>

definition saturating_mul :: "duration \<Rightarrow> nat \<Rightarrow> duration" where
  "saturating_mul d m = min (d * m) duration_max"

text \<open>\<open>Instant::elapsed\<close> and \<open>saturating_duration_since\<close>.\<close>

definition since :: "instant \<Rightarrow> instant \<Rightarrow> duration" where
  "since now t = now - t"

lemma since_less_iff: "d < since now t \<longleftrightarrow> t + d < now"
  by (auto simp: since_def)

lemma since_ge_iff: "0 < d \<Longrightarrow> d \<le> since now t \<longleftrightarrow> t + d \<le> now"
  by (auto simp: since_def)

lemma as_secs_mono: "d \<le> e \<Longrightarrow> as_secs d \<le> as_secs e"
  by (simp add: as_secs_def div_le_mono)

subsection \<open>Integers\<close>

definition u32_max :: nat where
  "u32_max = 2 ^ 32 - 1"

definition u64_max :: nat where
  "u64_max = 2 ^ 64 - 1"

text \<open>\<open>u32::saturating_add\<close>.\<close>

definition sat_add_u32 :: "nat \<Rightarrow> nat \<Rightarrow> nat" where
  "sat_add_u32 a b = min (a + b) u32_max"

lemma sat_add_u32_le [simp]: "sat_add_u32 a b \<le> u32_max"
  by (simp add: sat_add_u32_def)

lemma sat_add_u32_mono: "a \<le> u32_max \<Longrightarrow> a \<le> sat_add_u32 a b"
  by (simp add: sat_add_u32_def)

text \<open>The cast \<open>n as i64\<close> of a \<open>u64\<close>: the upper half of the range becomes negative.\<close>

definition as_i64 :: "nat \<Rightarrow> int" where
  "as_i64 n = (if n mod 2 ^ 64 < 2 ^ 63 then int (n mod 2 ^ 64) else int (n mod 2 ^ 64) - 2 ^ 64)"

lemma as_i64_small: "n < 2 ^ 63 \<Longrightarrow> as_i64 n = int n"
  by (simp add: as_i64_def)

lemma as_i64_big: "2 ^ 63 \<le> n \<Longrightarrow> n < 2 ^ 64 \<Longrightarrow> as_i64 n < 0"
  by (simp add: as_i64_def)

subsection \<open>Quotients of counts against a threshold\<close>

text \<open>
  \<open>a as f64 / b as f64 >= t\<close> and \<open>> t\<close> for counts \<open>a\<close>, \<open>b\<close> and a finite \<open>t\<close>. With \<open>b = 0\<close> the
  quotient is NaN for \<open>a = 0\<close>, where every comparison is false, and infinity otherwise.
\<close>

definition ratio_ge :: "nat \<Rightarrow> nat \<Rightarrow> rat \<Rightarrow> bool" where
  "ratio_ge a b t = (if b = 0 then 0 < a else t * of_nat b \<le> of_nat a)"

definition ratio_gt :: "nat \<Rightarrow> nat \<Rightarrow> rat \<Rightarrow> bool" where
  "ratio_gt a b t = (if b = 0 then 0 < a else t * of_nat b < of_nat a)"

lemma ratio_ge_quotient: "0 < b \<Longrightarrow> ratio_ge a b t \<longleftrightarrow> t \<le> of_nat a / of_nat b"
  by (simp add: ratio_ge_def pos_le_divide_eq)

lemma ratio_gt_quotient: "0 < b \<Longrightarrow> ratio_gt a b t \<longleftrightarrow> t < of_nat a / of_nat b"
  by (simp add: ratio_gt_def pos_less_divide_eq)

lemma ratio_ge_mono: "ratio_ge a b t \<Longrightarrow> a \<le> a' \<Longrightarrow> ratio_ge a' b t"
proof (cases "b = 0")
  case False
  assume "ratio_ge a b t" and le: "a \<le> a'"
  then have "t * of_nat b \<le> of_nat a" using False by (simp add: ratio_ge_def)
  also have "(of_nat a :: rat) \<le> of_nat a'" using le by simp
  finally show ?thesis using False by (simp add: ratio_ge_def)
qed (auto simp: ratio_ge_def)

subsection \<open>Lists\<close>

lemma length_filter_update:
  assumes "i < length xs"
  shows "length (filter P (xs[i := x])) + (if P (xs ! i) then 1 else 0)
    = length (filter P xs) + (if P x then 1 else 0)"
  using assms
proof (induction xs arbitrary: i)
  case Nil
  then show ?case by simp
next
  case (Cons y ys)
  then show ?case by (cases i) auto
qed

lemma filter_replicate_none [simp]: "\<not> P x \<Longrightarrow> filter P (replicate n x) = []"
  by (induction n) auto

lemma last_n_snoc:
  assumes "0 < n"
  shows "drop (length (xs @ [x]) - n) (xs @ [x]) =
    (if length xs < n then xs @ [x] else tl (drop (length xs - n) xs) @ [x])"
proof (cases "length xs < n")
  case False
  then have "Suc (length xs) - n = Suc (length xs - n)" by simp
  then show ?thesis using False assms by (simp add: drop_Suc tl_drop)
qed simp

lemma replicate_numeral: "replicate (numeral k) x = x # replicate (pred_numeral k) x"
  by (simp add: numeral_eq_Suc)

lemma sorted_dropWhile: "sorted_wrt R xs \<Longrightarrow> sorted_wrt R (dropWhile P xs)"
  by (induction xs) auto

lemma subseq_set: "subseq xs ys \<Longrightarrow> set xs \<subseteq> set ys"
  by (induction rule: list_emb.induct) auto

lemma subseq_distinct': "subseq xs ys \<Longrightarrow> distinct ys \<Longrightarrow> distinct xs"
  by (induction rule: list_emb.induct) (auto dest: subseq_set)

lemma set_drop_mono: "x \<in> set (drop n xs) \<Longrightarrow> x \<in> set xs"
  by (rule in_set_dropD)

lemma sorted_wrt_drop': "sorted_wrt R xs \<Longrightarrow> sorted_wrt R (drop n xs)"
  by (simp add: sorted_wrt_drop)

subsection \<open>Machines: operations that keep an invariant\<close>

definition run_ops :: "('op \<Rightarrow> 's \<Rightarrow> 's) \<Rightarrow> 'op list \<Rightarrow> 's \<Rightarrow> 's" where
  "run_ops step ops s = fold step ops s"

lemma run_ops_Nil [simp]: "run_ops step [] s = s"
  by (simp add: run_ops_def)

lemma run_ops_Cons [simp]: "run_ops step (x # xs) s = run_ops step xs (step x s)"
  by (simp add: run_ops_def)

lemma run_ops_append: "run_ops step (xs @ ys) s = run_ops step ys (run_ops step xs s)"
  by (simp add: run_ops_def)

locale machine =
  fixes step :: "'op \<Rightarrow> 's \<Rightarrow> 's"
    and inv :: "'s \<Rightarrow> bool"
  assumes step_inv: "inv s \<Longrightarrow> inv (step x s)"
begin

lemma run_inv: "inv s \<Longrightarrow> inv (run_ops step xs s)"
  by (induction xs arbitrary: s) (auto intro: step_inv)

lemma run_frame:
  assumes "\<And>x s. inv s \<Longrightarrow> f (step x s) = f s" and "inv s"
  shows "f (run_ops step xs s) = f s"
  using assms(2) by (induction xs arbitrary: s) (auto simp: assms(1) step_inv)

lemma run_stays:
  assumes "\<And>x s. inv s \<Longrightarrow> x \<in> X \<Longrightarrow> P s \<Longrightarrow> P (step x s)" and "inv s" and "P s" and "set xs \<subseteq> X"
  shows "P (run_ops step xs s)"
  using assms(2-4) by (induction xs arbitrary: s) (auto simp: assms(1) step_inv)

end

end
