(* ===== verification/Rust_Str.thy ===== *)
theory Rust_Str
  imports Prelude
begin

section \<open>Rust strings\<close>

text \<open>
  A Rust \<open>&str\<close> is its sequence of UTF-8 bytes, a \<open>string\<close> whose characters are bytes.
  \<open>str::len\<close> is therefore \<open>length\<close>, slicing is \<open>take\<close> and \<open>drop\<close>, \<open>starts_with\<close> is
  \<open>prefix\<close>, and \<open>chars().count()\<close> counts the bytes that do not continue a code point
  (\<open>char_count\<close>). \<open>trim\<close>, \<open>trim_end\<close> and \<open>split_whitespace\<close> know the UTF-8 encodings of
  every code point with the Unicode property White\_Space. Only the standard library's
  operations the program uses are here.
\<close>

subsection \<open>Bytes\<close>

definition byte :: "char \<Rightarrow> nat" where
  "byte c = of_char c"

definition chr_of :: "nat \<Rightarrow> char" where
  "chr_of n = char_of n"

definition is_ascii_digit :: "char \<Rightarrow> bool" where
  "is_ascii_digit c = (48 \<le> byte c \<and> byte c \<le> 57)"

definition ascii_lower :: "char \<Rightarrow> char" where
  "ascii_lower c = (if 65 \<le> byte c \<and> byte c \<le> 90 then chr_of (byte c + 32) else c)"

definition to_ascii_lowercase :: "string \<Rightarrow> string" where
  "to_ascii_lowercase s = map ascii_lower s"

definition eq_ignore_ascii_case :: "string \<Rightarrow> string \<Rightarrow> bool" where
  "eq_ignore_ascii_case a b = (to_ascii_lowercase a = to_ascii_lowercase b)"

lemma byte_chr_of: "n < 256 \<Longrightarrow> byte (chr_of n) = n"
  by (simp add: byte_def chr_of_def)

lemma ascii_lower_idem [simp]: "ascii_lower (ascii_lower c) = ascii_lower c"
  by (simp add: ascii_lower_def byte_chr_of)

lemma to_ascii_lowercase_idem [simp]:
  "to_ascii_lowercase (to_ascii_lowercase s) = to_ascii_lowercase s"
  by (simp add: to_ascii_lowercase_def)

lemma to_ascii_lowercase_Nil [simp]: "to_ascii_lowercase [] = []"
  by (simp add: to_ascii_lowercase_def)

lemma length_to_ascii_lowercase [simp]: "length (to_ascii_lowercase s) = length s"
  by (simp add: to_ascii_lowercase_def)

lemma to_ascii_lowercase_append:
  "to_ascii_lowercase (a @ b) = to_ascii_lowercase a @ to_ascii_lowercase b"
  by (simp add: to_ascii_lowercase_def)

text \<open>\<open>s.chars().count()\<close>: bytes 128 to 191 continue a code point.\<close>

definition is_char_start :: "char \<Rightarrow> bool" where
  "is_char_start c = (byte c < 128 \<or> 192 \<le> byte c)"

definition char_count :: "string \<Rightarrow> nat" where
  "char_count s = length (filter is_char_start s)"

lemma char_count_append: "char_count (a @ b) = char_count a + char_count b"
  by (simp add: char_count_def)

lemma char_count_le: "char_count s \<le> length s"
  by (simp add: char_count_def)

subsection \<open>Whitespace\<close>

definition ws_encodings :: "string list" where
  "ws_encodings =
    [[CHR 0x09], [CHR 0x0A], [CHR 0x0B], [CHR 0x0C], [CHR 0x0D], [CHR 0x20],
     [CHR 0xC2, CHR 0x85], [CHR 0xC2, CHR 0xA0], [CHR 0xE1, CHR 0x9A, CHR 0x80],
     [CHR 0xE2, CHR 0x80, CHR 0x80], [CHR 0xE2, CHR 0x80, CHR 0x81],
     [CHR 0xE2, CHR 0x80, CHR 0x82], [CHR 0xE2, CHR 0x80, CHR 0x83],
     [CHR 0xE2, CHR 0x80, CHR 0x84], [CHR 0xE2, CHR 0x80, CHR 0x85],
     [CHR 0xE2, CHR 0x80, CHR 0x86], [CHR 0xE2, CHR 0x80, CHR 0x87],
     [CHR 0xE2, CHR 0x80, CHR 0x88], [CHR 0xE2, CHR 0x80, CHR 0x89],
     [CHR 0xE2, CHR 0x80, CHR 0x8A], [CHR 0xE2, CHR 0x80, CHR 0xA8],
     [CHR 0xE2, CHR 0x80, CHR 0xA9], [CHR 0xE2, CHR 0x80, CHR 0xAF],
     [CHR 0xE2, CHR 0x81, CHR 0x9F], [CHR 0xE3, CHR 0x80, CHR 0x80]]"

text \<open>The length of the encoding of \<open>es\<close> that starts \<open>s\<close>, 0 if there is none.\<close>

fun lead_len :: "string list \<Rightarrow> string \<Rightarrow> nat" where
  "lead_len [] s = 0"
| "lead_len (e # es) s = (if e \<noteq> [] \<and> prefix e s then length e else lead_len es s)"

lemma lead_len_Nil [simp]: "lead_len es [] = 0"
  by (induction es) auto

lemma lead_len_le: "lead_len es s \<le> length s"
  by (induction es) (auto dest: prefix_length_le)

function strip_front :: "string list \<Rightarrow> string \<Rightarrow> string" where
  "strip_front es s =
    (if lead_len es s = 0 then s else strip_front es (drop (lead_len es s) s))"
  by pat_completeness auto
termination
proof (relation "measure (\<lambda>(es, s). length s)")
  fix es and s :: string
  assume "lead_len es s \<noteq> 0"
  then show "((es, drop (lead_len es s) s), (es, s)) \<in> measure (\<lambda>(es, s). length s)"
    using lead_len_le [of es s] by auto
qed simp

declare strip_front.simps [simp del]

definition trim_start :: "string \<Rightarrow> string" where
  "trim_start s = strip_front ws_encodings s"

definition trim_end :: "string \<Rightarrow> string" where
  "trim_end s = rev (strip_front (map rev ws_encodings) (rev s))"

definition trim :: "string \<Rightarrow> string" where
  "trim s = trim_end (trim_start s)"

lemma strip_front_Nil [simp]: "strip_front es [] = []"
  by (subst strip_front.simps) simp

lemma strip_front_idem [simp]: "strip_front es (strip_front es s) = strip_front es s"
proof (induction es s rule: strip_front.induct)
  case (1 es s)
  show ?case
  proof (cases "lead_len es s = 0")
    case True
    then have "strip_front es s = s" by (subst strip_front.simps) simp
    then show ?thesis by simp
  next
    case False
    then have "strip_front es s = strip_front es (drop (lead_len es s) s)"
      by (subst strip_front.simps) simp
    with 1 False show ?thesis by simp
  qed
qed

lemma strip_front_suffix: "suffix (strip_front es s) s"
proof (induction es s rule: strip_front.induct)
  case (1 es s)
  show ?case
  proof (cases "lead_len es s = 0")
    case True
    then show ?thesis by (subst strip_front.simps) simp
  next
    case False
    with 1 have "suffix (strip_front es (drop (lead_len es s) s)) (drop (lead_len es s) s)" by simp
    also have "suffix (drop (lead_len es s) s) s" by (rule suffix_drop)
    finally show ?thesis using False by (subst strip_front.simps) simp
  qed
qed

lemma trim_start_Nil [simp]: "trim_start [] = []"
  by (simp add: trim_start_def)

lemma trim_end_Nil [simp]: "trim_end [] = []"
  by (simp add: trim_end_def)

lemma trim_end_idem [simp]: "trim_end (trim_end s) = trim_end s"
  by (simp add: trim_end_def)

lemma trim_end_prefix: "prefix (trim_end s) s"
  using strip_front_suffix [of "map rev ws_encodings" "rev s"]
  by (simp add: trim_end_def suffix_to_prefix)

lemma set_trim_end: "set (trim_end s) \<subseteq> set s"
  using trim_end_prefix by (rule set_mono_prefix)

subsection \<open>Splitting and searching\<close>

fun split_char :: "char \<Rightarrow> string \<Rightarrow> string list" where
  "split_char c [] = [[]]"
| "split_char c (x # xs) =
    (if x = c then [] # split_char c xs
     else (case split_char c xs of [] \<Rightarrow> [[x]] | p # ps \<Rightarrow> (x # p) # ps))"

fun join_with :: "string \<Rightarrow> string list \<Rightarrow> string" where
  "join_with sep [] = []"
| "join_with sep [x] = x"
| "join_with sep (x # y # ys) = x @ sep @ join_with sep (y # ys)"

lemma split_char_nonempty [simp]: "split_char c s \<noteq> []"
  by (induction s) (auto split: list.splits)

lemma join_split_char: "join_with [c] (split_char c s) = s"
proof (induction s)
  case (Cons x xs)
  obtain p ps where p: "split_char c xs = p # ps"
    using split_char_nonempty by (meson list.exhaust)
  with Cons show ?case by (cases ps) auto
qed simp

lemma split_char_parts: "p \<in> set (split_char c s) \<Longrightarrow> c \<notin> set p"
  by (induction s arbitrary: p) (auto split: if_splits list.splits)

lemma set_split_char: "p \<in> set (split_char c s) \<Longrightarrow> set p \<subseteq> set s"
  by (induction s arbitrary: p) (auto split: if_splits list.splits, blast+)

lemma split_char_notin: "c \<notin> set s \<Longrightarrow> split_char c s = [s]"
  by (induction s) auto

lemma split_char_append:
  "c \<notin> set a \<Longrightarrow> split_char c (a @ c # b) = a # split_char c b"
  by (induction a) auto

lemma split_join_char:
  "ps \<noteq> [] \<Longrightarrow> \<forall>p \<in> set ps. c \<notin> set p \<Longrightarrow> split_char c (join_with [c] ps) = ps"
proof (induction ps rule: induct_list012)
  case (2 x)
  then show ?case by (simp add: split_char_notin)
next
  case (3 x y ys)
  then show ?case by (simp add: split_char_append)
qed simp

text \<open>\<open>str::find\<close> with a string pattern: the first index at which it occurs.\<close>

fun find_sub :: "string \<Rightarrow> string \<Rightarrow> nat option" where
  "find_sub pat [] = (if pat = [] then Some 0 else None)"
| "find_sub pat (x # xs) =
    (if prefix pat (x # xs) then Some 0 else map_option Suc (find_sub pat xs))"

definition contains_str :: "string \<Rightarrow> string \<Rightarrow> bool" where
  "contains_str s pat = (find_sub pat s \<noteq> None)"

lemma find_sub_Some:
  "find_sub pat s = Some i \<Longrightarrow> i + length pat \<le> length s \<and> prefix pat (drop i s)"
  by (induction s arbitrary: i) (auto split: if_splits dest: prefix_length_le)

lemma find_sub_least:
  "find_sub pat s = Some i \<Longrightarrow> j < i \<Longrightarrow> \<not> prefix pat (drop j s)"
proof (induction s arbitrary: i j)
  case (Cons x xs)
  then show ?case by (cases j) (auto split: if_splits)
qed (auto split: if_splits)

lemma find_sub_None: "find_sub pat s = None \<Longrightarrow> \<not> prefix pat (drop j s)"
proof (induction s arbitrary: j)
  case (Cons x xs)
  then show ?case by (cases j) (auto split: if_splits)
qed (auto split: if_splits)

text \<open>\<open>find\<close>, \<open>rfind\<close>, \<open>split_once\<close>, \<open>rsplit_once\<close> with a one-byte pattern.\<close>

fun find_char :: "(char \<Rightarrow> bool) \<Rightarrow> string \<Rightarrow> nat option" where
  "find_char P [] = None"
| "find_char P (x # xs) = (if P x then Some 0 else map_option Suc (find_char P xs))"

definition rfind_char :: "(char \<Rightarrow> bool) \<Rightarrow> string \<Rightarrow> nat option" where
  "rfind_char P s = map_option (\<lambda>i. length s - 1 - i) (find_char P (rev s))"

definition split_once :: "char \<Rightarrow> string \<Rightarrow> (string \<times> string) option" where
  "split_once c s = map_option (\<lambda>i. (take i s, drop (Suc i) s)) (find_char (\<lambda>x. x = c) s)"

definition strip_prefix :: "string \<Rightarrow> string \<Rightarrow> string option" where
  "strip_prefix pre s = (if prefix pre s then Some (drop (length pre) s) else None)"

definition strip_suffix :: "string \<Rightarrow> string \<Rightarrow> string option" where
  "strip_suffix suf s = (if suffix suf s then Some (take (length s - length suf) s) else None)"

definition trim_start_char :: "char \<Rightarrow> string \<Rightarrow> string" where
  "trim_start_char c s = dropWhile (\<lambda>x. x = c) s"

definition trim_end_char :: "char \<Rightarrow> string \<Rightarrow> string" where
  "trim_end_char c s = rev (dropWhile (\<lambda>x. x = c) (rev s))"

lemma find_char_Some: "find_char P s = Some i \<Longrightarrow> i < length s \<and> P (s ! i) \<and> (\<forall>j < i. \<not> P (s ! j))"
proof (induction s arbitrary: i)
  case (Cons x xs)
  then show ?case by (auto split: if_splits simp: nth_Cons less_Suc_eq_0_disj)
qed simp

lemma find_char_None: "find_char P s = None \<longleftrightarrow> (\<forall>x \<in> set s. \<not> P x)"
  by (induction s) auto

text \<open>
  \<open>str::lines\<close>: a line ends with a line feed, optionally preceded by a carriage return; a
  carriage return at the end of the last, unterminated line stays.
\<close>

definition strip_cr :: "string \<Rightarrow> string" where
  "strip_cr s = (if s \<noteq> [] \<and> last s = CHR 0x0D then butlast s else s)"

definition lines :: "string \<Rightarrow> string list" where
  "lines s =
    (let ps = split_char (CHR 0x0A) s
     in map strip_cr (butlast ps) @ (if last ps = [] then [] else [last ps]))"

text \<open>\<open>str::split_whitespace\<close>.\<close>

function split_ws :: "string \<Rightarrow> string \<Rightarrow> string list" where
  "split_ws acc [] = (if acc = [] then [] else [acc])"
| "split_ws acc (x # xs) =
    (let n = lead_len ws_encodings (x # xs)
     in if n = 0 then split_ws (acc @ [x]) xs
        else (if acc = [] then [] else [acc]) @ split_ws [] (drop n (x # xs)))"
  by pat_completeness auto
termination
proof (relation "measure (\<lambda>(acc, s). length s)")
  fix acc x xs and n :: nat
  assume "n = lead_len ws_encodings (x # xs)" and "n \<noteq> 0"
  then show "(([], drop n (x # xs)), (acc, x # xs)) \<in> measure (\<lambda>(acc, s). length s)"
    by simp
qed auto

definition split_whitespace :: "string \<Rightarrow> string list" where
  "split_whitespace s = split_ws [] s"

subsection \<open>Numbers\<close>

text \<open>\<open>to_string\<close> of an unsigned integer.\<close>

fun dec_digits :: "nat \<Rightarrow> string" where
  "dec_digits n = (if n < 10 then [chr_of (48 + n)] else dec_digits (n div 10) @ [chr_of (48 + n mod 10)])"

declare dec_digits.simps [simp del]

definition digits_val :: "nat \<Rightarrow> string \<Rightarrow> nat" where
  "digits_val acc s = fold (\<lambda>c v. v * 10 + (byte c - 48)) s acc"

text \<open>
  \<open>str::parse\<close> to an unsigned type with the given greatest value: an optional plus sign, then
  at least one ASCII digit and nothing else; a value past the maximum is an error.
\<close>

definition parse_unsigned :: "nat \<Rightarrow> string \<Rightarrow> nat option" where
  "parse_unsigned maxv s =
    (let ds = (case s of x # y # ys \<Rightarrow> if x = CHR ''+'' then y # ys else s | _ \<Rightarrow> s)
     in if ds \<noteq> [] \<and> list_all is_ascii_digit ds \<and> digits_val 0 ds \<le> maxv
        then Some (digits_val 0 ds) else None)"

lemma digits_val_append: "digits_val v (a @ b) = digits_val (digits_val v a) b"
  by (simp add: digits_val_def)

lemma dec_digits_all: "list_all is_ascii_digit (dec_digits n)"
proof (induction n rule: dec_digits.induct)
  case (1 n)
  show ?case
  proof (cases "n < 10")
    case True
    then show ?thesis by (subst dec_digits.simps) (simp add: is_ascii_digit_def byte_chr_of)
  next
    case False
    have "is_ascii_digit (chr_of (48 + n mod 10))"
      using pos_mod_bound [of 10 "int n"] by (simp add: is_ascii_digit_def byte_chr_of)
    with 1 False show ?thesis by (subst dec_digits.simps) simp
  qed
qed

lemma dec_digits_nonempty [simp]: "dec_digits n \<noteq> []"
  by (subst dec_digits.simps) simp

lemma dec_digits_val: "digits_val 0 (dec_digits n) = n"
proof (induction n rule: dec_digits.induct)
  case (1 n)
  show ?case
  proof (cases "n < 10")
    case True
    then show ?thesis by (subst dec_digits.simps) (simp add: digits_val_def byte_chr_of)
  next
    case False
    with 1 have "digits_val 0 (dec_digits (n div 10)) = n div 10" by simp
    with False show ?thesis
      by (subst dec_digits.simps) (simp add: digits_val_append, simp add: digits_val_def byte_chr_of)
  qed
qed

lemma dec_digits_inj: "dec_digits a = dec_digits b \<Longrightarrow> a = b"
  by (metis dec_digits_val)

lemma parse_dec_digits: "n \<le> maxv \<Longrightarrow> parse_unsigned maxv (dec_digits n) = Some n"
proof -
  assume le: "n \<le> maxv"
  have hd: "\<And>x y ys. dec_digits n = x # y # ys \<Longrightarrow> x \<noteq> CHR ''+''"
    using dec_digits_all [of n] by (auto simp: is_ascii_digit_def byte_def)
  then have "(case dec_digits n of x # y # ys \<Rightarrow> if x = CHR ''+'' then y # ys else dec_digits n | _ \<Rightarrow> dec_digits n) = dec_digits n"
    by (auto split: list.splits)
  then show ?thesis
    using le dec_digits_all [of n] by (simp add: parse_unsigned_def Let_def dec_digits_val)
qed

end
