(* ===== verification/Breaker.thy ===== *)
theory Breaker
  imports Rust_Str
begin

section \<open>The circuit breaker\<close>

text \<open>
  \<open>crates/crw-renderer/src/breaker.rs\<close>, the single breaker: its configuration, the outcome
  classifier, the fixed-size sliding window of outcomes, the three-state machine with lazy
  evaluation, probes and linear back-off, and every operation of \<open>CircuitBreaker\<close>.
  The mutex makes each operation atomic, so an execution of the breaker is a sequence of
  operations at non-decreasing clock readings (\<open>reachable_breaker\<close>).
\<close>

subsection \<open>Configuration and outcomes\<close>

record breaker_config =
  window_size :: nat
  min_calls :: nat
  failure_rate_threshold :: rat
  base_cooldown :: duration
  max_cooldown :: duration
  max_probes :: nat
  half_open_success_rate :: rat
  eval_timeout :: duration
  ejection_reset_after_closed :: duration
  count_truncated_as_failure :: bool

definition breaker_config_default :: breaker_config where
  "breaker_config_default =
    \<lparr> window_size = 100, min_calls = 50, failure_rate_threshold = 80 / 100,
      base_cooldown = from_secs 5, max_cooldown = from_secs 60, max_probes = 5,
      half_open_success_rate = 60 / 100, eval_timeout = from_secs 30,
      ejection_reset_after_closed = from_secs 120, count_truncated_as_failure = False \<rparr>"

datatype breaker_outcome =
    Success
  | Truncated
  | DeadlineClamped
  | TierTimeout
  | ConnectionError
  | RenderError
  | SiteBlocked

fun is_failure :: "breaker_outcome \<Rightarrow> bool \<Rightarrow> bool" where
  "is_failure Success count_truncated = False"
| "is_failure Truncated count_truncated = count_truncated"
| "is_failure DeadlineClamped count_truncated = False"
| "is_failure SiteBlocked count_truncated = False"
| "is_failure TierTimeout count_truncated = True"
| "is_failure ConnectionError count_truncated = True"
| "is_failure RenderError count_truncated = True"

fun advances_window :: "breaker_outcome \<Rightarrow> bool \<Rightarrow> bool" where
  "advances_window DeadlineClamped count_truncated = False"
| "advances_window SiteBlocked count_truncated = False"
| "advances_window Truncated count_truncated = count_truncated"
| "advances_window _ count_truncated = True"

fun ignored_reason :: "breaker_outcome \<Rightarrow> string option" where
  "ignored_reason DeadlineClamped = Some ''deadline_clamped''"
| "ignored_reason SiteBlocked = Some ''site_blocked''"
| "ignored_reason Truncated = Some ''truncated''"
| "ignored_reason _ = None"

record attempt_context =
  remaining_at_start :: duration
  tier_budget :: duration
  was_clamped_by_deadline :: bool

definition attempt_capture :: "duration \<Rightarrow> duration \<Rightarrow> attempt_context" where
  "attempt_capture remaining budget =
    \<lparr> remaining_at_start = remaining, tier_budget = budget,
      was_clamped_by_deadline = (remaining < budget) \<rparr>"

definition classify_outcome ::
    "bool \<Rightarrow> bool \<Rightarrow> bool \<Rightarrow> bool \<Rightarrow> attempt_context \<Rightarrow> breaker_outcome" where
  "classify_outcome success is_truncated error_was_timeout site_blocked ctx =
    (if \<not> success \<and> site_blocked then SiteBlocked
     else if success then (if is_truncated then Truncated else Success)
     else if error_was_timeout then
       (if was_clamped_by_deadline ctx then DeadlineClamped else TierTimeout)
     else RenderError)"

subsection \<open>The sliding window\<close>

datatype window_slot = SlotEmpty | SlotSuccess | SlotFailure

record window =
  ring :: "window_slot list"
  cursor :: nat

definition window_new :: "nat \<Rightarrow> window" where
  "window_new sz = \<lparr> ring = replicate (max sz 1) SlotEmpty, cursor = 0 \<rparr>"

definition window_push :: "window_slot \<Rightarrow> window \<Rightarrow> window" where
  "window_push slot w =
    w\<lparr> ring := (ring w)[cursor w := slot], cursor := (cursor w + 1) mod length (ring w) \<rparr>"

definition call_count :: "window \<Rightarrow> nat" where
  "call_count w = length (filter (\<lambda>s. s \<noteq> SlotEmpty) (ring w))"

definition failure_count :: "window \<Rightarrow> nat" where
  "failure_count w = length (filter (\<lambda>s. s = SlotFailure) (ring w))"

definition failure_rate :: "window \<Rightarrow> rat" where
  "failure_rate w =
    (let calls = call_count w
     in if calls = 0 then 0 else of_nat (failure_count w) / of_nat calls)"

definition window_clear :: "window \<Rightarrow> window" where
  "window_clear w = w\<lparr> ring := map (\<lambda>_. SlotEmpty) (ring w), cursor := 0 \<rparr>"

subsection \<open>The breaker's state\<close>

datatype breaker_state =
    Closed (closed_since: instant)
  | Open (open_until: instant)
  | HalfOpen (admitted: nat) (succeeded: nat) (failed: nat) (opened_at: instant)

record breaker_inner =
  bstate :: breaker_state
  bwindow :: window
  ejection_count :: nat

datatype permit = Allowed | Probe | Rejected

record circuit_breaker =
  cb_config :: breaker_config
  cb_inner :: breaker_inner

definition inner_new :: "breaker_config \<Rightarrow> instant \<Rightarrow> breaker_inner" where
  "inner_new cfg now =
    \<lparr> bstate = Closed now, bwindow = window_new (window_size cfg), ejection_count = 0 \<rparr>"

definition breaker_new :: "breaker_config \<Rightarrow> instant \<Rightarrow> circuit_breaker" where
  "breaker_new cfg now = \<lparr> cb_config = cfg, cb_inner = inner_new cfg now \<rparr>"

definition current_cooldown :: "breaker_config \<Rightarrow> nat \<Rightarrow> duration" where
  "current_cooldown cfg ejections =
    min (saturating_mul (base_cooldown cfg) (max ejections 1)) (max_cooldown cfg)"

text \<open>Opening the breaker: the ejection count grows and the cooldown follows it.\<close>

definition trip :: "breaker_config \<Rightarrow> instant \<Rightarrow> breaker_inner \<Rightarrow> breaker_inner" where
  "trip cfg now s =
    (let e = sat_add_u32 (ejection_count s) 1
     in s\<lparr> ejection_count := e, bstate := Open (now + current_cooldown cfg e) \<rparr>)"

definition lazy_evaluate :: "breaker_config \<Rightarrow> instant \<Rightarrow> breaker_inner \<Rightarrow> breaker_inner" where
  "lazy_evaluate cfg now s =
    (case bstate s of
       Open until \<Rightarrow> if until \<le> now then s\<lparr> bstate := HalfOpen 0 0 0 now \<rparr> else s
     | HalfOpen adm suc fai opened \<Rightarrow>
         if eval_timeout cfg < since now opened \<and> suc + fai < max adm (max_probes cfg) then
           (if suc = 0 then trip cfg now s
            else s\<lparr> bstate := Closed now, bwindow := window_clear (bwindow s) \<rparr>)
         else s
     | Closed began \<Rightarrow>
         if 0 < ejection_count s \<and> ejection_reset_after_closed cfg \<le> since now began
         then s\<lparr> ejection_count := 0 \<rparr> else s)"

subsection \<open>Operations on the guarded state\<close>

definition inner_try_acquire ::
    "breaker_config \<Rightarrow> instant \<Rightarrow> breaker_inner \<Rightarrow> permit \<times> breaker_inner" where
  "inner_try_acquire cfg now s0 =
    (let s = lazy_evaluate cfg now s0
     in case bstate s of
          Closed _ \<Rightarrow> (Allowed, s)
        | Open _ \<Rightarrow> (Rejected, s)
        | HalfOpen adm suc fai opened \<Rightarrow>
            if adm < max_probes cfg
            then (Probe, s\<lparr> bstate := HalfOpen (adm + 1) suc fai opened \<rparr>)
            else (Rejected, s))"

definition record_half_open ::
    "breaker_config \<Rightarrow> instant \<Rightarrow> breaker_outcome \<Rightarrow> nat \<Rightarrow> nat \<Rightarrow> nat \<Rightarrow> instant \<Rightarrow>
     breaker_inner \<Rightarrow> bool \<times> breaker_inner" where
  "record_half_open cfg now outcome adm suc fai opened s =
    (if \<not> advances_window outcome (count_truncated_as_failure cfg)
     then (False, s\<lparr> bstate := HalfOpen (adm - 1) suc fai opened \<rparr>)
     else
       (let bad = is_failure outcome (count_truncated_as_failure cfg);
            suc' = (if bad then suc else suc + 1);
            fai' = (if bad then fai + 1 else fai);
            cap = max_probes cfg
        in if cap \<le> suc' + fai' then
             (if ratio_ge suc' cap (half_open_success_rate cfg)
              then (False, s\<lparr> bstate := Closed now, bwindow := window_clear (bwindow s) \<rparr>)
              else (True, trip cfg now s))
           else (False, s\<lparr> bstate := HalfOpen adm suc' fai' opened \<rparr>)))"

definition record_closed ::
    "breaker_config \<Rightarrow> instant \<Rightarrow> breaker_outcome \<Rightarrow> breaker_inner \<Rightarrow> bool \<times> breaker_inner" where
  "record_closed cfg now outcome s =
    (if \<not> advances_window outcome (count_truncated_as_failure cfg) then (False, s)
     else
       (let slot = (if is_failure outcome (count_truncated_as_failure cfg)
                    then SlotFailure else SlotSuccess);
            s' = s\<lparr> bwindow := window_push slot (bwindow s) \<rparr>
        in if min_calls cfg \<le> call_count (bwindow s')
              \<and> failure_rate_threshold cfg \<le> failure_rate (bwindow s')
           then (True, (trip cfg now s')\<lparr> bwindow := window_clear (bwindow s') \<rparr>)
           else (False, s')))"

definition inner_record_outcome ::
    "breaker_config \<Rightarrow> instant \<Rightarrow> breaker_outcome \<Rightarrow> breaker_inner \<Rightarrow> bool \<times> breaker_inner" where
  "inner_record_outcome cfg now outcome s0 =
    (let s = lazy_evaluate cfg now s0
     in case bstate s of
          HalfOpen adm suc fai opened \<Rightarrow> record_half_open cfg now outcome adm suc fai opened s
        | Closed _ \<Rightarrow> record_closed cfg now outcome s
        | Open _ \<Rightarrow> (False, s))"

definition inner_cancel_probe :: "breaker_inner \<Rightarrow> breaker_inner" where
  "inner_cancel_probe s =
    (case bstate s of
       HalfOpen adm suc fai opened \<Rightarrow> s\<lparr> bstate := HalfOpen (adm - 1) suc fai opened \<rparr>
     | _ \<Rightarrow> s)"

definition inner_is_open ::
    "breaker_config \<Rightarrow> instant \<Rightarrow> breaker_inner \<Rightarrow> bool \<times> breaker_inner" where
  "inner_is_open cfg now s0 =
    (let s = lazy_evaluate cfg now s0
     in (case bstate s of Open _ \<Rightarrow> True | _ \<Rightarrow> False, s))"

record breaker_snapshot =
  snap_state :: string
  opens_in_seconds :: "nat option"
  snap_ejection_count :: nat
  window_call_count :: nat
  window_failure_rate :: rat

definition inner_snapshot ::
    "breaker_config \<Rightarrow> instant \<Rightarrow> breaker_inner \<Rightarrow> breaker_snapshot \<times> breaker_inner" where
  "inner_snapshot cfg now s0 =
    (let s = lazy_evaluate cfg now s0;
         (label, opens_in) =
           (case bstate s of
              Closed _ \<Rightarrow> (''closed'', None)
            | HalfOpen _ _ _ _ \<Rightarrow> (''half_open'', None)
            | Open until \<Rightarrow> (''open'', Some (as_secs (since until now))))
     in (\<lparr> snap_state = label, opens_in_seconds = opens_in,
           snap_ejection_count = ejection_count s,
           window_call_count = call_count (bwindow s) mod 2 ^ 32,
           window_failure_rate = failure_rate (bwindow s) \<rparr>, s))"

definition inner_reset :: "instant \<Rightarrow> breaker_inner \<Rightarrow> breaker_inner" where
  "inner_reset now s =
    s\<lparr> bstate := Closed now, bwindow := window_clear (bwindow s), ejection_count := 0 \<rparr>"


subsection \<open>The window as a bounded history\<close>

text \<open>
  What the window promises its user: \<open>view\<close> lists its slots from the oldest to the newest, and
  a push drops the oldest slot and appends the new one. Every sequence of pushes then leaves
  the last slots pushed, after whatever blanks remain.
\<close>

locale bounded_history =
  fixes push :: "'s \<Rightarrow> 'w \<Rightarrow> 'w"
    and view :: "'w \<Rightarrow> 's list"
    and wf :: "'w \<Rightarrow> bool"
  assumes view_nonempty: "wf w \<Longrightarrow> view w \<noteq> []"
    and push_view: "wf w \<Longrightarrow> view (push x w) = tl (view w) @ [x]"
    and push_wf: "wf w \<Longrightarrow> wf (push x w)"
begin

lemma pushes_wf: "wf w \<Longrightarrow> wf (fold push xs w)"
  by (induction xs arbitrary: w) (auto intro: push_wf)

lemma pushes_view: "wf w \<Longrightarrow> view (fold push xs w) = drop (length xs) (view w @ xs)"
proof (induction xs arbitrary: w)
  case (Cons x xs)
  obtain y ys where y: "view w = y # ys"
    using view_nonempty [OF Cons.prems] by (cases "view w") auto
  have "view (fold push (x # xs) w) = drop (length xs) (view (push x w) @ xs)"
    using Cons.IH [OF push_wf [OF Cons.prems]] by simp
  also have "\<dots> = drop (length (x # xs)) (view w @ x # xs)"
    using y by (simp add: push_view [OF Cons.prems])
  finally show ?case .
qed simp

lemma pushes_length: "wf w \<Longrightarrow> length (view (fold push xs w)) = length (view w)"
  by (simp add: pushes_view)

end

definition window_wf :: "window \<Rightarrow> bool" where
  "window_wf w \<longleftrightarrow> cursor w < length (ring w)"

definition window_view :: "window \<Rightarrow> window_slot list" where
  "window_view w = rotate (cursor w) (ring w)"

lemma rotate_Suc_update:
  assumes "i < length xs"
  shows "rotate (Suc i mod length xs) (xs[i := x]) = tl (rotate i xs) @ [x]"
proof -
  have "rotate (Suc i mod length xs) (xs[i := x]) = rotate (Suc i) (xs[i := x])"
    using rotate_conv_mod [of "Suc i" "xs[i := x]"] by simp
  also have "\<dots> = rotate1 (rotate i (xs[i := x]))" by simp
  also have "rotate i (xs[i := x]) = x # drop (Suc i) xs @ take i xs"
    using assms by (simp add: rotate_drop_take drop_update_swap upd_conv_take_nth_drop)
  also have "rotate1 \<dots> = tl (rotate i xs) @ [x]"
    using assms by (simp add: rotate_drop_take Cons_nth_drop_Suc [symmetric])
  finally show ?thesis .
qed

interpretation window: bounded_history window_push window_view window_wf
proof (unfold_locales, goal_cases)
  case (1 w)
  then show ?case by (auto simp: window_view_def window_wf_def)
next
  case (2 w x)
  then show ?case by (simp add: window_view_def window_wf_def window_push_def rotate_Suc_update)
next
  case (3 w x)
  then have "0 < length (ring w)" unfolding window_wf_def by linarith
  then show ?case unfolding window_wf_def window_push_def by simp
qed

lemma window_new_wf [simp]: "window_wf (window_new n)"
  by (simp add: window_new_def window_wf_def)

lemma window_new_view [simp]: "window_view (window_new n) = replicate (max n 1) SlotEmpty"
  by (simp add: window_new_def window_view_def)

lemma length_ring_push [simp]: "length (ring (window_push x w)) = length (ring w)"
  by (simp add: window_push_def)

lemma length_ring_clear [simp]: "length (ring (window_clear w)) = length (ring w)"
  by (simp add: window_clear_def)

lemma length_ring_new [simp]: "length (ring (window_new n)) = max n 1"
  by (simp add: window_new_def)

lemma length_window_view [simp]: "length (window_view w) = length (ring w)"
  by (simp add: window_view_def)

lemma filter_view_length:
  "length (filter P (window_view w)) = length (filter P (ring w))"
proof -
  let ?m = "cursor w mod length (ring w)"
  have "length (filter P (window_view w)) = length (filter P (take ?m (ring w) @ drop ?m (ring w)))"
    unfolding window_view_def rotate_drop_take filter_append length_append by simp
  then show ?thesis by simp
qed

lemma call_count_view: "call_count w = length (filter (\<lambda>s. s \<noteq> SlotEmpty) (window_view w))"
  by (simp add: call_count_def filter_view_length)

lemma failure_count_view: "failure_count w = length (filter (\<lambda>s. s = SlotFailure) (window_view w))"
  by (simp add: failure_count_def filter_view_length)

lemma failure_count_le_call_count: "failure_count w \<le> call_count w"
proof -
  have "filter (\<lambda>s. s = SlotFailure) xs = filter (\<lambda>s. s = SlotFailure) (filter (\<lambda>s. s \<noteq> SlotEmpty) xs)" for xs
    by (induction xs) auto
  then show ?thesis unfolding call_count_def failure_count_def by (metis length_filter_le)
qed

lemma call_count_le: "call_count w \<le> length (ring w)"
  by (simp add: call_count_def)

lemma window_clear_counts [simp]: "call_count (window_clear w) = 0" "failure_count (window_clear w) = 0"
  by (auto simp: call_count_def failure_count_def window_clear_def filter_empty_conv)

lemma window_clear_view [simp]: "window_view (window_clear w) = replicate (length (ring w)) SlotEmpty"
  by (simp add: window_view_def window_clear_def map_replicate_const)

text \<open>The last \<open>n\<close> elements of a history.\<close>

definition recent :: "nat \<Rightarrow> 'a list \<Rightarrow> 'a list" where
  "recent n xs = drop (length xs - n) xs"

lemma length_recent [simp]: "length (recent n xs) = min n (length xs)"
  by (auto simp: recent_def)

lemma view_after_pushes:
  assumes "window_wf w" and "window_view w = replicate n SlotEmpty"
  shows "window_view (fold window_push xs w)
    = replicate (n - length xs) SlotEmpty @ recent n xs"
  using window.pushes_view [OF assms(1), of xs] assms(2)
  by (simp add: recent_def)


subsection \<open>Executions and the invariant\<close>

datatype breaker_op =
    OpAcquire
  | OpRecord breaker_outcome
  | OpCancel
  | OpIsOpen
  | OpSnapshot
  | OpReset

text \<open>What an operation returns, and the state it leaves.\<close>

datatype breaker_reply = GotPermit permit | Tripped bool | NoReply

fun breaker_exec ::
    "breaker_config \<Rightarrow> instant \<times> breaker_op \<Rightarrow> breaker_inner \<Rightarrow> breaker_reply \<times> breaker_inner" where
  "breaker_exec cfg (now, OpAcquire) s = (let (p, s') = inner_try_acquire cfg now s in (GotPermit p, s'))"
| "breaker_exec cfg (now, OpRecord out) s = (let (b, s') = inner_record_outcome cfg now out s in (Tripped b, s'))"
| "breaker_exec cfg (now, OpCancel) s = (NoReply, inner_cancel_probe s)"
| "breaker_exec cfg (now, OpIsOpen) s = (NoReply, snd (inner_is_open cfg now s))"
| "breaker_exec cfg (now, OpSnapshot) s = (NoReply, snd (inner_snapshot cfg now s))"
| "breaker_exec cfg (now, OpReset) s = (NoReply, inner_reset now s)"

definition breaker_step :: "breaker_config \<Rightarrow> instant \<times> breaker_op \<Rightarrow> breaker_inner \<Rightarrow> breaker_inner" where
  "breaker_step cfg ev s = snd (breaker_exec cfg ev s)"

definition breaker_reply_of :: "breaker_config \<Rightarrow> instant \<times> breaker_op \<Rightarrow> breaker_inner \<Rightarrow> breaker_reply" where
  "breaker_reply_of cfg ev s = fst (breaker_exec cfg ev s)"

text \<open>The replies of a run, one per operation.\<close>

fun breaker_replies ::
    "breaker_config \<Rightarrow> (instant \<times> breaker_op) list \<Rightarrow> breaker_inner \<Rightarrow> breaker_reply list" where
  "breaker_replies cfg [] s = []"
| "breaker_replies cfg (ev # evs) s =
     breaker_reply_of cfg ev s # breaker_replies cfg evs (breaker_step cfg ev s)"

definition probes_bounded :: "breaker_config \<Rightarrow> breaker_state \<Rightarrow> bool" where
  "probes_bounded cfg st \<longleftrightarrow>
    (case st of
       HalfOpen adm suc fai opened \<Rightarrow>
         adm \<le> max_probes cfg \<and> (suc + fai < max_probes cfg \<or> suc = 0 \<and> fai = 0)
     | _ \<Rightarrow> True)"

definition inner_inv :: "breaker_config \<Rightarrow> breaker_inner \<Rightarrow> bool" where
  "inner_inv cfg s \<longleftrightarrow>
     length (ring (bwindow s)) = max (window_size cfg) 1 \<and> window_wf (bwindow s)
     \<and> ejection_count s \<le> u32_max \<and> probes_bounded cfg (bstate s)"

lemma probes_bounded_simps [simp]:
  "probes_bounded cfg (Closed t)"
  "probes_bounded cfg (Open t)"
  "probes_bounded cfg (HalfOpen adm suc fai opened) \<longleftrightarrow>
     adm \<le> max_probes cfg \<and> (suc + fai < max_probes cfg \<or> suc = 0 \<and> fai = 0)"
  by (simp_all add: probes_bounded_def)

lemma window_wf_clear [simp]: "window_wf w \<Longrightarrow> window_wf (window_clear w)"
  by (auto simp: window_wf_def window_clear_def)

lemma trip_inv [inv_intros]: "inner_inv cfg s \<Longrightarrow> inner_inv cfg (trip cfg now s)"
  by (simp add: inner_inv_def trip_def Let_def)

lemma trip_simps [simp]:
  "bwindow (trip cfg now s) = bwindow s"
  "bstate (trip cfg now s) = Open (now + current_cooldown cfg (sat_add_u32 (ejection_count s) 1))"
  "ejection_count (trip cfg now s) = sat_add_u32 (ejection_count s) 1"
  by (simp_all add: trip_def Let_def)

lemma lazy_evaluate_inv [inv_intros]: "inner_inv cfg s \<Longrightarrow> inner_inv cfg (lazy_evaluate cfg now s)"
  unfolding lazy_evaluate_def
  by (cases "bstate s") (auto simp: inner_inv_def)

lemma try_acquire_inv [inv_intros]:
  "inner_inv cfg s \<Longrightarrow> inner_inv cfg (snd (inner_try_acquire cfg now s))"
  using lazy_evaluate_inv [of cfg s now]
  by (auto simp: inner_try_acquire_def Let_def inner_inv_def split: breaker_state.splits)

lemma record_half_open_inv:
  assumes "inner_inv cfg s" and "bstate s = HalfOpen adm suc fai opened"
  shows "inner_inv cfg (snd (record_half_open cfg now out adm suc fai opened s))"
  using assms by (auto simp: record_half_open_def Let_def inner_inv_def)

lemma record_closed_inv:
  assumes "inner_inv cfg s" and "bstate s = Closed t"
  shows "inner_inv cfg (snd (record_closed cfg now out s))"
  using assms window.push_wf
  by (auto simp: record_closed_def Let_def inner_inv_def)

lemma record_outcome_inv [inv_intros]:
  "inner_inv cfg s \<Longrightarrow> inner_inv cfg (snd (inner_record_outcome cfg now out s))"
  using lazy_evaluate_inv [of cfg s now] record_half_open_inv record_closed_inv
  by (auto simp: inner_record_outcome_def Let_def split: breaker_state.splits)

lemma cancel_probe_inv [inv_intros]: "inner_inv cfg s \<Longrightarrow> inner_inv cfg (inner_cancel_probe s)"
  by (auto simp: inner_cancel_probe_def inner_inv_def split: breaker_state.splits)

lemma reset_inv [inv_intros]: "inner_inv cfg s \<Longrightarrow> inner_inv cfg (inner_reset now s)"
  by (simp add: inner_reset_def inner_inv_def)

lemma is_open_inv [inv_intros]: "inner_inv cfg s \<Longrightarrow> inner_inv cfg (snd (inner_is_open cfg now s))"
  by (simp add: inner_is_open_def Let_def lazy_evaluate_inv)

lemma snd_inner_snapshot [simp]: "snd (inner_snapshot cfg now s) = lazy_evaluate cfg now s"
  by (simp add: inner_snapshot_def Let_def split: breaker_state.splits prod.splits)

lemma inner_new_inv [inv_intros]: "inner_inv cfg (inner_new cfg now)"
  by (simp add: inner_inv_def inner_new_def)

lemma breaker_step_inv: "inner_inv cfg s \<Longrightarrow> inner_inv cfg (breaker_step cfg ev s)"
proof (cases ev)
  case (Pair now x)
  assume "inner_inv cfg s"
  with Pair show ?thesis
    by (cases x) (auto simp: breaker_step_def Let_def split_beta intro: inv_intros)
qed

interpretation breaker: machine "breaker_step cfg" "inner_inv cfg" for cfg
  by unfold_locales (rule breaker_step_inv)

text \<open>The states a breaker can be in at clock reading \<open>t\<close>.\<close>

inductive reachable_breaker :: "breaker_config \<Rightarrow> instant \<Rightarrow> breaker_inner \<Rightarrow> bool" for cfg where
  reach_new: "reachable_breaker cfg t (inner_new cfg t)"
| reach_step: "reachable_breaker cfg t s \<Longrightarrow> t \<le> now \<Longrightarrow>
     reachable_breaker cfg now (breaker_step cfg (now, x) s)"

text \<open>What the clock adds to the invariant.\<close>

definition timely :: "breaker_config \<Rightarrow> instant \<Rightarrow> breaker_state \<Rightarrow> bool" where
  "timely cfg t st \<longleftrightarrow>
    (case st of
       Closed began \<Rightarrow> began \<le> t
     | Open until \<Rightarrow> until \<le> t + max_cooldown cfg
     | HalfOpen adm suc fai opened \<Rightarrow> opened \<le> t)"

lemma timely_simps [simp]:
  "timely cfg t (Closed b) \<longleftrightarrow> b \<le> t"
  "timely cfg t (Open u) \<longleftrightarrow> u \<le> t + max_cooldown cfg"
  "timely cfg t (HalfOpen adm suc fai opened) \<longleftrightarrow> opened \<le> t"
  by (simp_all add: timely_def)

lemma timely_mono: "timely cfg t st \<Longrightarrow> t \<le> t' \<Longrightarrow> timely cfg t' st"
  by (cases st) auto

lemma cooldown_le [simp]: "current_cooldown cfg n \<le> max_cooldown cfg"
  by (simp add: current_cooldown_def)

lemma lazy_evaluate_timely:
  "timely cfg t (bstate s) \<Longrightarrow> t \<le> now \<Longrightarrow> timely cfg now (bstate (lazy_evaluate cfg now s))"
  unfolding lazy_evaluate_def
  by (cases "bstate s") auto

lemma breaker_step_timely:
  assumes "timely cfg t (bstate s)" and "t \<le> now"
  shows "timely cfg now (bstate (breaker_step cfg (now, x) s))"
proof -
  have le: "timely cfg now (bstate (lazy_evaluate cfg now s))"
    using assms by (rule lazy_evaluate_timely)
  have "timely cfg now (bstate s)"
    using assms by (rule timely_mono)
  with le show ?thesis
    by (cases x)
      (auto simp: breaker_step_def Let_def split_beta inner_try_acquire_def inner_record_outcome_def
        record_half_open_def record_closed_def inner_cancel_probe_def inner_is_open_def
        inner_reset_def split: breaker_state.splits)
qed

lemma reachable_inv: "reachable_breaker cfg t s \<Longrightarrow> inner_inv cfg s \<and> timely cfg t (bstate s)"
proof (induction rule: reachable_breaker.induct)
  case (reach_new t)
  then show ?case by (simp add: inner_new_inv) (simp add: inner_new_def)
next
  case (reach_step t s now x)
  then show ?case by (blast intro: breaker_step_inv breaker_step_timely)
qed

end
