(* ===== verification/Breaker_Props.thy ===== *)
theory Breaker_Props
  imports Breaker
begin

section \<open>What the circuit breaker guarantees\<close>

text \<open>
  The properties of one breaker, over whole executions: its invariant, the cooldown, the probe
  quota of a half-open episode, the exact trip condition of a closed breaker in terms of the
  history of outcomes, the outcomes that say nothing about a tier, the half-open decision with
  its back-off, and recovery.
\<close>

subsection \<open>Runs\<close>

lemma breaker_replies_append:
  "breaker_replies cfg (xs @ ys) s =
     breaker_replies cfg xs s @ breaker_replies cfg ys (run_ops (breaker_step cfg) xs s)"
  by (induction xs arbitrary: s) auto

lemma breaker_step_simps [op_simps]:
  "breaker_step cfg (now, OpAcquire) s = snd (inner_try_acquire cfg now s)"
  "breaker_step cfg (now, OpRecord out) s = snd (inner_record_outcome cfg now out s)"
  "breaker_step cfg (now, OpCancel) s = inner_cancel_probe s"
  "breaker_step cfg (now, OpIsOpen) s = lazy_evaluate cfg now s"
  "breaker_step cfg (now, OpSnapshot) s = lazy_evaluate cfg now s"
  "breaker_step cfg (now, OpReset) s = inner_reset now s"
  by (simp_all add: breaker_step_def split_beta Let_def inner_is_open_def)

lemma breaker_reply_simps [op_simps]:
  "breaker_reply_of cfg (now, OpAcquire) s = GotPermit (fst (inner_try_acquire cfg now s))"
  "breaker_reply_of cfg (now, OpRecord out) s = Tripped (fst (inner_record_outcome cfg now out s))"
  "breaker_reply_of cfg (now, OpCancel) s = NoReply"
  "breaker_reply_of cfg (now, OpIsOpen) s = NoReply"
  "breaker_reply_of cfg (now, OpSnapshot) s = NoReply"
  "breaker_reply_of cfg (now, OpReset) s = NoReply"
  by (simp_all add: breaker_reply_of_def split_beta Let_def)

text \<open>A concrete configuration for the witnesses: four slots, two calls, half of them failing.\<close>

definition demo_config :: breaker_config where
  "demo_config =
    \<lparr> window_size = 4, min_calls = 2, failure_rate_threshold = 1 / 2,
      base_cooldown = 5, max_cooldown = 60, max_probes = 2,
      half_open_success_rate = 1, eval_timeout = 30,
      ejection_reset_after_closed = 120, count_truncated_as_failure = False \<rparr>"

lemmas breaker_defs =
  inner_try_acquire_def inner_record_outcome_def record_half_open_def record_closed_def
  inner_cancel_probe_def inner_reset_def lazy_evaluate_def Let_def

lemmas breaker_eval =
  op_simps breaker_defs demo_config_def inner_new_def window_new_def window_push_def call_count_def
  failure_count_def failure_rate_def window_clear_def current_cooldown_def saturating_mul_def
  sat_add_u32_def u32_max_def duration_max_def since_def trip_def ratio_ge_def replicate_numeral

subsection \<open>The invariant\<close>

text \<open>
  C37. In every state a breaker can reach at clock reading \<open>t\<close>, the window keeps its size, the
  ejection counter stays a \<open>u32\<close>, at most \<open>max_probes\<close> probes are admitted in a half-open
  episode and fewer than that have been decided, and an open breaker reopens no later than
  \<open>max_cooldown\<close> from now.
\<close>

theorem reachable_breaker_invariant:
  assumes "reachable_breaker cfg t s"
  shows "length (ring (bwindow s)) = max (window_size cfg) 1
    \<and> failure_count (bwindow s) \<le> call_count (bwindow s)
    \<and> call_count (bwindow s) \<le> max (window_size cfg) 1
    \<and> ejection_count s \<le> u32_max
    \<and> (case bstate s of
         HalfOpen adm suc fai opened \<Rightarrow>
           adm \<le> max_probes cfg \<and> (suc + fai < max_probes cfg \<or> suc = 0 \<and> fai = 0) \<and> opened \<le> t
       | Open until \<Rightarrow> until \<le> t + max_cooldown cfg
       | Closed began \<Rightarrow> began \<le> t)"
  using reachable_inv [OF assms] call_count_le [of "bwindow s"]
    failure_count_le_call_count [of "bwindow s"]
  by (cases "bstate s") (auto simp: inner_inv_def)

lemma demo_reachable:
  "reachable_breaker demo_config 11
     (breaker_step demo_config (11, OpAcquire)
       (breaker_step demo_config (1, OpRecord TierTimeout)
         (breaker_step demo_config (1, OpRecord RenderError) (inner_new demo_config 0))))"
  by (intro reach_step [where t = 1] reach_step [where t = 0] reach_new) simp_all

lemma demo_half_open:
  "bstate (breaker_step demo_config (11, OpAcquire)
       (breaker_step demo_config (1, OpRecord TierTimeout)
         (breaker_step demo_config (1, OpRecord RenderError) (inner_new demo_config 0))))
   = HalfOpen 1 0 0 11"
  by (simp add: breaker_eval)

theorem reachable_breaker_invariant_witness:
  "\<exists>s. reachable_breaker demo_config 11 s \<and> bstate s = HalfOpen 1 0 0 11
     \<and> length (ring (bwindow s)) = 4 \<and> ejection_count s \<le> u32_max"
  using reachable_breaker_invariant [OF demo_reachable] demo_reachable demo_half_open
  by (auto simp: demo_config_def)

subsection \<open>The cooldown\<close>

text \<open>
  Until its cooldown ends an open breaker rejects every caller: whatever operations arrive
  before \<open>until\<close> (short of the administrator's reset), every \<open>try_acquire\<close> answers
  \<open>Rejected\<close>, no outcome is counted or reported as a trip, and the state does not move.
\<close>

theorem open_breaker_rejects:
  assumes "bstate s = Open until"
    and "\<forall>(now, x) \<in> set evs. now < until \<and> x \<noteq> OpReset"
  shows "run_ops (breaker_step cfg) evs s = s
    \<and> set (breaker_replies cfg evs s) \<subseteq> {GotPermit Rejected, Tripped False, NoReply}"
  using assms(2)
proof (induction evs)
  case (Cons ev evs)
  obtain now x where ev: "ev = (now, x)" by (cases ev)
  with Cons.prems have "now < until" and "x \<noteq> OpReset" by auto
  then have "breaker_step cfg ev s = s
      \<and> breaker_reply_of cfg ev s \<in> {GotPermit Rejected, Tripped False, NoReply}"
    using assms(1) ev by (cases x) (auto simp: op_simps breaker_defs)
  with Cons show ?case by auto
qed simp

theorem open_breaker_rejects_witness:
  "breaker_replies demo_config [(3, OpAcquire), (4, OpRecord Success), (5, OpAcquire)]
     (inner_new demo_config 0 \<lparr> bstate := Open 6 \<rparr>)
   \<noteq> [GotPermit Rejected, Tripped False, GotPermit Probe]"
  using open_breaker_rejects [of "inner_new demo_config 0 \<lparr> bstate := Open 6 \<rparr>" 6
      "[(3, OpAcquire), (4, OpRecord Success), (5, OpAcquire)]" demo_config]
  by auto

subsection \<open>The probe quota\<close>

definition slots_released :: "breaker_config \<Rightarrow> breaker_op \<Rightarrow> nat" where
  "slots_released cfg x =
    (case x of
       OpCancel \<Rightarrow> 1
     | OpRecord out \<Rightarrow> if advances_window out (count_truncated_as_failure cfg) then 0 else 1
     | _ \<Rightarrow> 0)"

fun same_episode :: "breaker_config \<Rightarrow> instant \<Rightarrow> (instant \<times> breaker_op) list \<Rightarrow> breaker_inner \<Rightarrow> bool" where
  "same_episode cfg opened [] s = (case bstate s of HalfOpen _ _ _ o' \<Rightarrow> o' = opened | _ \<Rightarrow> False)"
| "same_episode cfg opened (ev # evs) s =
     ((case bstate s of HalfOpen _ _ _ o' \<Rightarrow> o' = opened | _ \<Rightarrow> False)
      \<and> same_episode cfg opened evs (breaker_step cfg ev s))"

lemma same_episode_state:
  "same_episode cfg opened evs s \<Longrightarrow> \<exists>adm suc fai. bstate s = HalfOpen adm suc fai opened"
  by (cases evs) (auto split: breaker_state.splits)

lemma half_open_step:
  assumes "bstate s = HalfOpen adm suc fai opened"
    and "bstate (breaker_step cfg (now, x) s) = HalfOpen adm' suc' fai' opened"
    and "x \<noteq> OpReset"
  shows "adm + (if breaker_reply_of cfg (now, x) s = GotPermit Probe then 1 else 0)
    \<le> adm' + slots_released cfg x"
proof (cases "eval_timeout cfg < since now opened \<and> suc + fai < max adm (max_probes cfg)")
  case True
  with assms show ?thesis
    by (cases x) (auto simp: op_simps breaker_defs slots_released_def split: if_splits)
next
  case False
  then have "lazy_evaluate cfg now s = s"
    using assms(1) by (auto simp: lazy_evaluate_def)
  with assms show ?thesis
    by (cases x) (auto simp: op_simps breaker_defs slots_released_def split: if_splits)
qed

lemma reset_closes: "bstate (breaker_step cfg (now, OpReset) s) = Closed now"
  by (simp add: op_simps inner_reset_def)

lemma episode_account:
  "same_episode cfg opened evs s \<Longrightarrow>
   bstate s = HalfOpen adm suc fai opened \<Longrightarrow>
   bstate (run_ops (breaker_step cfg) evs s) = HalfOpen adm' suc' fai' opened \<Longrightarrow>
   adm + count_list (breaker_replies cfg evs s) (GotPermit Probe)
     \<le> adm' + sum_list (map (\<lambda>ev. slots_released cfg (snd ev)) evs)"
proof (induction evs arbitrary: s adm suc fai)
  case (Cons ev evs)
  obtain now x where ev: "ev = (now, x)" by (cases ev)
  from Cons.prems have ep: "same_episode cfg opened evs (breaker_step cfg ev s)" by simp
  then obtain a1 s1 f1 where st: "bstate (breaker_step cfg ev s) = HalfOpen a1 s1 f1 opened"
    using same_episode_state by blast
  have nr: "x \<noteq> OpReset" using st ev reset_closes by auto
  have "adm + (if breaker_reply_of cfg ev s = GotPermit Probe then 1 else 0) \<le> a1 + slots_released cfg x"
    using half_open_step [OF Cons.prems(2) st [unfolded ev] nr] ev by simp
  moreover have "a1 + count_list (breaker_replies cfg evs (breaker_step cfg ev s)) (GotPermit Probe)
      \<le> adm' + sum_list (map (\<lambda>ev. slots_released cfg (snd ev)) evs)"
    using Cons.IH [OF ep st] Cons.prems(3) by simp
  ultimately show ?case using ev by (auto split: if_splits)
qed simp

text \<open>
  C26. Within one half-open episode the breaker never lets more callers through as probes than
  \<open>max_probes\<close> plus the slots handed back by cancelled or ignored attempts, for any
  interleaving of operations of any number of callers.
\<close>

theorem probe_quota:
  assumes "inner_inv cfg s" and "bstate s = HalfOpen 0 0 0 opened"
    and "same_episode cfg opened evs s"
  shows "count_list (breaker_replies cfg evs s) (GotPermit Probe)
    \<le> max_probes cfg + sum_list (map (\<lambda>ev. slots_released cfg (snd ev)) evs)"
proof -
  have "same_episode cfg opened [] (run_ops (breaker_step cfg) evs s)"
    using assms(3) by (induction evs arbitrary: s) auto
  then obtain a f g where st: "bstate (run_ops (breaker_step cfg) evs s) = HalfOpen a f g opened"
    using same_episode_state by blast
  have "inner_inv cfg (run_ops (breaker_step cfg) evs s)"
    using assms(1) by (rule breaker.run_inv)
  then have "a \<le> max_probes cfg" using st by (simp add: inner_inv_def)
  then show ?thesis using episode_account [OF assms(3,2) st] by simp
qed

theorem probe_quota_witness:
  "inner_inv demo_config (inner_new demo_config 0 \<lparr> bstate := HalfOpen 0 0 0 7 \<rparr>)
   \<and> count_list (breaker_replies demo_config
       [(8, OpAcquire), (8, OpAcquire), (9, OpAcquire), (9, OpRecord SiteBlocked), (9, OpAcquire)]
       (inner_new demo_config 0 \<lparr> bstate := HalfOpen 0 0 0 7 \<rparr>)) (GotPermit Probe) \<le> 2 + 1"
proof -
  have i: "inner_inv demo_config (inner_new demo_config 0 \<lparr> bstate := HalfOpen 0 0 0 7 \<rparr>)"
    using inner_new_inv [of demo_config 0] by (simp add: inner_inv_def)
  have e: "same_episode demo_config 7
      [(8, OpAcquire), (8, OpAcquire), (9, OpAcquire), (9, OpRecord SiteBlocked), (9, OpAcquire)]
      (inner_new demo_config 0 \<lparr> bstate := HalfOpen 0 0 0 7 \<rparr>)"
    by (simp add: breaker_eval)
  show ?thesis
    using probe_quota [OF i _ e] i by (simp add: demo_config_def slots_released_def)
qed


subsection \<open>When a closed breaker trips\<close>

text \<open>The outcomes that advance the window, as the slots they leave.\<close>

definition slot_of :: "breaker_config \<Rightarrow> breaker_outcome \<Rightarrow> window_slot" where
  "slot_of cfg out = (if is_failure out (count_truncated_as_failure cfg) then SlotFailure else SlotSuccess)"

definition counted_history :: "breaker_config \<Rightarrow> breaker_outcome list \<Rightarrow> window_slot list" where
  "counted_history cfg outs =
    map (slot_of cfg) (filter (\<lambda>o'. advances_window o' (count_truncated_as_failure cfg)) outs)"

text \<open>The trip condition, read off the history: enough calls among the last \<open>window_size\<close>
  outcomes, and the failing share of them at or over the threshold.\<close>

definition should_trip :: "breaker_config \<Rightarrow> window_slot list \<Rightarrow> bool" where
  "should_trip cfg history =
    (let r = recent (max (window_size cfg) 1) history
     in min_calls cfg \<le> length r
        \<and> failure_rate_threshold cfg \<le> of_nat (count_list r SlotFailure) / of_nat (length r))"

lemma counted_history_no_blank: "SlotEmpty \<notin> set (counted_history cfg outs)"
  by (auto simp: counted_history_def slot_of_def split: if_splits)

lemma filter_blank_replicate:
  assumes "SlotEmpty \<notin> set r"
  shows "length (filter (\<lambda>s. s \<noteq> SlotEmpty) (replicate m SlotEmpty @ r)) = length r"
    and "length (filter (\<lambda>s. s = SlotFailure) (replicate m SlotEmpty @ r)) = count_list r SlotFailure"
proof -
  have "filter (\<lambda>s. s \<noteq> SlotEmpty) r = r"
    using assms by (auto simp: filter_id_conv)
  then show "length (filter (\<lambda>s. s \<noteq> SlotEmpty) (replicate m SlotEmpty @ r)) = length r" by simp
  show "length (filter (\<lambda>s. s = SlotFailure) (replicate m SlotEmpty @ r)) = count_list r SlotFailure"
    by (induction r) (auto simp: filter_replicate_none)
qed

lemma set_recent: "set (recent n xs) \<subseteq> set xs"
  by (auto simp: recent_def dest: in_set_dropD)

lemma history_counts:
  assumes "SlotEmpty \<notin> set h" and "w = fold window_push h (window_new n)"
  shows "call_count w = length (recent (max n 1) h)"
    and "failure_count w = count_list (recent (max n 1) h) SlotFailure"
proof -
  have v: "window_view w = replicate (max n 1 - length h) SlotEmpty @ recent (max n 1) h"
    unfolding assms(2) by (rule view_after_pushes) simp_all
  have nb: "SlotEmpty \<notin> set (recent (max n 1) h)"
    using assms(1) set_recent [of "max n 1" h] by (meson subsetD)
  show "call_count w = length (recent (max n 1) h)"
    and "failure_count w = count_list (recent (max n 1) h) SlotFailure"
    unfolding call_count_view failure_count_view v
    by (simp_all only: filter_blank_replicate [OF nb])
qed

lemma trip_condition:
  assumes "SlotEmpty \<notin> set h" and "h \<noteq> []" and "w = fold window_push h (window_new (window_size cfg))"
  shows "min_calls cfg \<le> call_count w \<and> failure_rate_threshold cfg \<le> failure_rate w
    \<longleftrightarrow> should_trip cfg h"
proof -
  have "recent (max (window_size cfg) 1) h \<noteq> []"
    using assms(2) by (simp flip: length_greater_0_conv)
  then show ?thesis
    using history_counts [OF assms(1,3)] by (simp add: should_trip_def failure_rate_def Let_def)
qed

lemma counted_history_snoc:
  "counted_history cfg (outs @ [out]) =
     counted_history cfg outs
     @ (if advances_window out (count_truncated_as_failure cfg) then [slot_of cfg out] else [])"
  by (simp add: counted_history_def)

definition record_events :: "(instant \<times> breaker_outcome) list \<Rightarrow> (instant \<times> breaker_op) list" where
  "record_events evs = map (\<lambda>(t, out). (t, OpRecord out)) evs"

lemma record_in_closed:
  assumes "bstate s = Closed t0" and "ejection_count s = 0"
    and "bwindow s = fold window_push (counted_history cfg outs) (window_new (window_size cfg))"
  shows "fst (inner_record_outcome cfg now out s) \<longleftrightarrow>
      advances_window out (count_truncated_as_failure cfg)
      \<and> should_trip cfg (counted_history cfg (outs @ [out]))"
    and "\<not> fst (inner_record_outcome cfg now out s) \<Longrightarrow>
      snd (inner_record_outcome cfg now out s) =
        s\<lparr> bwindow := fold window_push (counted_history cfg (outs @ [out])) (window_new (window_size cfg)) \<rparr>"
proof -
  have lz: "lazy_evaluate cfg now s = s"
    using assms(1,2) by (simp add: lazy_evaluate_def)
  have push: "window_push (slot_of cfg out) (bwindow s) =
      fold window_push (counted_history cfg (outs @ [out])) (window_new (window_size cfg))"
    if "advances_window out (count_truncated_as_failure cfg)"
    using that assms(3) by (simp add: counted_history_snoc)
  show "fst (inner_record_outcome cfg now out s) \<longleftrightarrow>
      advances_window out (count_truncated_as_failure cfg)
      \<and> should_trip cfg (counted_history cfg (outs @ [out]))"
  proof (cases "advances_window out (count_truncated_as_failure cfg)")
    case True
    have "counted_history cfg (outs @ [out]) \<noteq> []"
      using True by (simp add: counted_history_snoc)
    from trip_condition [OF counted_history_no_blank this push [OF True]] True
    show ?thesis
      using assms(1) by (simp add: inner_record_outcome_def lz record_closed_def Let_def slot_of_def)
  next
    case False
    then show ?thesis using assms(1) by (simp add: inner_record_outcome_def lz record_closed_def Let_def)
  qed
  show "snd (inner_record_outcome cfg now out s) =
        s\<lparr> bwindow := fold window_push (counted_history cfg (outs @ [out])) (window_new (window_size cfg)) \<rparr>"
    if "\<not> fst (inner_record_outcome cfg now out s)"
  proof (cases "advances_window out (count_truncated_as_failure cfg)")
    case True
    then show ?thesis using assms(1) that push [OF True]
      by (auto simp: inner_record_outcome_def lz record_closed_def Let_def slot_of_def split: if_splits)
  next
    case False
    then show ?thesis using assms(1,3)
      by (simp add: inner_record_outcome_def lz record_closed_def Let_def counted_history_snoc)
  qed
qed

lemma closed_run:
  assumes "Tripped True \<notin> set (breaker_replies cfg (record_events evs) (inner_new cfg t0))"
  shows "run_ops (breaker_step cfg) (record_events evs) (inner_new cfg t0) =
    (inner_new cfg t0)\<lparr> bwindow :=
       fold window_push (counted_history cfg (map snd evs)) (window_new (window_size cfg)) \<rparr>"
  using assms
proof (induction evs rule: rev_induct)
  case Nil
  then show ?case by (simp add: record_events_def counted_history_def inner_new_def)
next
  case (snoc ev evs)
  obtain now out where ev: "ev = (now, out)" by (cases ev)
  let ?s = "run_ops (breaker_step cfg) (record_events evs) (inner_new cfg t0)"
  have "Tripped True \<notin> set (breaker_replies cfg (record_events evs) (inner_new cfg t0))"
    and nt: "breaker_reply_of cfg (now, OpRecord out) ?s \<noteq> Tripped True"
    using snoc.prems ev by (auto simp: record_events_def breaker_replies_append)
  note IH = snoc.IH [OF this(1)]
  have st: "bstate ?s = Closed t0" "ejection_count ?s = 0"
    "bwindow ?s = fold window_push (counted_history cfg (map snd evs)) (window_new (window_size cfg))"
    by (simp_all add: IH) (simp_all add: inner_new_def)
  have "\<not> fst (inner_record_outcome cfg now out ?s)" using nt by (simp add: op_simps)
  from record_in_closed(2) [OF st this]
  have "snd (inner_record_outcome cfg now out ?s) = ?s\<lparr> bwindow :=
      fold window_push (counted_history cfg (map snd evs @ [out])) (window_new (window_size cfg)) \<rparr>" .
  then show ?case
    using ev IH by (simp add: record_events_def run_ops_append op_simps)
qed

text \<open>
  A fresh breaker fed any sequence of outcomes trips exactly when the last
  \<open>window_size\<close> outcomes that count hold at least \<open>min_calls\<close> entries of which at least the
  threshold share failed: the ring buffer with its cursor implements that condition on the
  history, whatever its length, and outcomes that do not count never trip it.
\<close>

theorem closed_breaker_trip_condition:
  assumes "Tripped True \<notin> set (breaker_replies cfg (record_events evs) (inner_new cfg t0))"
  shows "breaker_reply_of cfg (now, OpRecord out)
      (run_ops (breaker_step cfg) (record_events evs) (inner_new cfg t0))
    = Tripped (advances_window out (count_truncated_as_failure cfg)
        \<and> should_trip cfg (counted_history cfg (map snd evs @ [out])))"
proof -
  let ?s = "run_ops (breaker_step cfg) (record_events evs) (inner_new cfg t0)"
  have "bstate ?s = Closed t0" "ejection_count ?s = 0"
    "bwindow ?s = fold window_push (counted_history cfg (map snd evs)) (window_new (window_size cfg))"
    by (simp_all add: closed_run [OF assms]) (simp_all add: inner_new_def)
  from record_in_closed(1) [OF this] show ?thesis by (simp add: op_simps)
qed

theorem closed_breaker_trip_condition_witness:
  "breaker_reply_of demo_config (3, OpRecord RenderError)
     (run_ops (breaker_step demo_config) (record_events [(1, Success), (2, SiteBlocked)])
       (inner_new demo_config 0)) = Tripped True"
proof -
  have "Tripped True \<notin> set (breaker_replies demo_config
      (record_events [(1, Success), (2, SiteBlocked)]) (inner_new demo_config 0))"
    by (simp add: breaker_eval record_events_def)
  from closed_breaker_trip_condition [OF this, of 3 RenderError] show ?thesis
    by (simp add: should_trip_def counted_history_def slot_of_def recent_def demo_config_def)
qed

subsection \<open>Outcomes that say nothing about the tier\<close>

text \<open>
  An attempt that failed because the origin blocked us, or because the request's own
  deadline cut the tier's budget, is classified so that recording it never opens the breaker
  and never touches the failure window or the ejection count beyond what the passing of time
  alone does, in every state; site blocking wins over every other failure class.
\<close>

theorem blameless_attempts_never_count:
  fixes ctx :: attempt_context
  assumes "\<not> success"
    and "site_blocked \<or> timed_out \<and> remaining < budget"
    and "ctx = attempt_capture remaining budget"
    and "out = classify_outcome success truncated timed_out site_blocked ctx"
    and "inner_record_outcome cfg now out s = (opened, s')"
  shows "out = (if site_blocked then SiteBlocked else DeadlineClamped) \<and> \<not> opened
    \<and> bwindow s' = bwindow (lazy_evaluate cfg now s)
    \<and> ejection_count s' = ejection_count (lazy_evaluate cfg now s)"
proof -
  have out: "out = (if site_blocked then SiteBlocked else DeadlineClamped)"
    using assms(1-4) by (auto simp: classify_outcome_def attempt_capture_def)
  then have "\<not> advances_window out (count_truncated_as_failure cfg)" by auto
  with out assms(5) show ?thesis
    by (auto simp: inner_record_outcome_def record_half_open_def record_closed_def Let_def
        split: breaker_state.splits)
qed

theorem blameless_attempts_never_count_witness:
  "\<exists>opened s'. inner_record_outcome demo_config 9
       (classify_outcome False False True False (attempt_capture 3 5)) (inner_new demo_config 0) = (opened, s')
     \<and> \<not> opened"
proof -
  obtain opened s' where r: "inner_record_outcome demo_config 9
      (classify_outcome False False True False (attempt_capture 3 5)) (inner_new demo_config 0) = (opened, s')"
    by (rule prod.exhaust)
  have "\<not> opened"
    using blameless_attempts_never_count [OF _ _ refl refl r] by simp
  with r show ?thesis by blast
qed

subsection \<open>Leaving the half-open state\<close>

lemma cooldown_linear:
  assumes "max_cooldown cfg \<le> duration_max"
  shows "current_cooldown cfg (Suc n) = min (base_cooldown cfg * Suc n) (max_cooldown cfg)"
  using assms unfolding current_cooldown_def saturating_mul_def by (simp only: min_def) auto

text \<open>
  The outcome that completes the probe quota decides the episode: the breaker closes with
  an empty window when the successes reach \<open>half_open_success_rate\<close> of \<open>max_probes\<close>, and
  otherwise reopens, reports the trip, counts one more ejection, and stays open for the linear
  back-off \<open>base_cooldown * ejections\<close> capped at \<open>max_cooldown\<close>.
\<close>

theorem half_open_decision:
  assumes "bstate s = HalfOpen adm suc fai opened"
    and "now \<le> opened + eval_timeout cfg"
    and "advances_window out (count_truncated_as_failure cfg)"
    and "Suc (suc + fai) = max_probes cfg"
    and "ejection_count s < u32_max" and "max_cooldown cfg \<le> duration_max"
    and "good = (if is_failure out (count_truncated_as_failure cfg) then suc else Suc suc)"
  shows "inner_record_outcome cfg now out s =
    (if half_open_success_rate cfg * of_nat (max_probes cfg) \<le> of_nat good
     then (False, s\<lparr> bstate := Closed now, bwindow := window_clear (bwindow s) \<rparr>)
     else (True, s\<lparr> ejection_count := Suc (ejection_count s),
            bstate := Open (now + min (base_cooldown cfg * Suc (ejection_count s)) (max_cooldown cfg)) \<rparr>))"
proof -
  have lz: "lazy_evaluate cfg now s = s"
    using assms(1,2) by (auto simp: lazy_evaluate_def since_def)
  have e: "sat_add_u32 (ejection_count s) 1 = Suc (ejection_count s)"
    using assms(5) by (simp add: sat_add_u32_def)
  have m: "max_probes cfg \<noteq> 0" using assms(4) by linarith
  show ?thesis
    using assms(1,3,4,7) m e cooldown_linear [OF assms(6)]
    by (auto simp: inner_record_outcome_def lz record_half_open_def Let_def ratio_ge_def trip_def)
qed

theorem half_open_decision_witness:
  "inner_record_outcome demo_config 9 RenderError
     ((inner_new demo_config 0)\<lparr> bstate := HalfOpen 2 1 0 7, ejection_count := 3 \<rparr>)
   = (True, (inner_new demo_config 0)\<lparr> bstate := Open (9 + 20), ejection_count := 4 \<rparr>)"
proof -
  let ?s = "(inner_new demo_config 0)\<lparr> bstate := HalfOpen 2 1 0 7, ejection_count := 3 \<rparr>"
  have "inner_record_outcome demo_config 9 RenderError ?s =
    (if half_open_success_rate demo_config * of_nat (max_probes demo_config) \<le> of_nat 1
     then (False, ?s\<lparr> bstate := Closed 9, bwindow := window_clear (bwindow ?s) \<rparr>)
     else (True, ?s\<lparr> ejection_count := Suc (ejection_count ?s),
            bstate := Open (9 + min (base_cooldown demo_config * Suc (ejection_count ?s))
              (max_cooldown demo_config)) \<rparr>))"
    by (rule half_open_decision [where adm = 2 and suc = 1 and fai = 0 and opened = 7])
      (simp_all add: demo_config_def u32_max_def duration_max_def)
  then show ?thesis by (simp add: demo_config_def inner_new_def)
qed

lemma half_open_timeout_acquire:
  assumes "inner_inv cfg s" and "bstate s = HalfOpen adm suc fai opened"
    and "opened + eval_timeout cfg < now" and "0 < max_probes cfg"
  shows "inner_try_acquire cfg now s =
    (if 0 < suc
     then (Allowed, s\<lparr> bstate := Closed now, bwindow := window_clear (bwindow s) \<rparr>)
     else (Rejected, trip cfg now s))"
proof -
  have "suc + fai < max adm (max_probes cfg)"
    using assms(1,2,4) by (auto simp: inner_inv_def)
  then have "lazy_evaluate cfg now s =
      (if suc = 0 then trip cfg now s
       else s\<lparr> bstate := Closed now, bwindow := window_clear (bwindow s) \<rparr>)"
    using assms(2,3) by (simp add: lazy_evaluate_def since_less_iff)
  then show ?thesis by (simp add: inner_try_acquire_def Let_def)
qed

text \<open>
  When the evaluation timeout passes before the quota is complete, the next operation
  forces the decision, and not by the success rate: one successful probe closes the breaker
  however many failed, none reopens it with a grown ejection count.
\<close>

theorem half_open_timeout_decision:
  assumes "inner_inv cfg s" and "bstate s = HalfOpen adm suc fai opened"
    and "opened + eval_timeout cfg < now" and "0 < max_probes cfg"
  shows "inner_try_acquire cfg now s =
    (if 0 < suc
     then (Allowed, s\<lparr> bstate := Closed now, bwindow := window_clear (bwindow s) \<rparr>)
     else (Rejected, s\<lparr> ejection_count := sat_add_u32 (ejection_count s) 1,
             bstate := Open (now + current_cooldown cfg (sat_add_u32 (ejection_count s) 1)) \<rparr>))"
  using half_open_timeout_acquire [OF assms] by (simp add: trip_def Let_def)

theorem half_open_timeout_decision_witness:
  "fst (inner_try_acquire breaker_config_default (40 * nanos_per_sec)
     ((inner_new breaker_config_default 0)\<lparr> bstate := HalfOpen 5 1 3 1 \<rparr>)) = Allowed"
proof -
  have "inner_inv breaker_config_default ((inner_new breaker_config_default 0)\<lparr> bstate := HalfOpen 5 1 3 1 \<rparr>)"
    using inner_new_inv [of breaker_config_default 0]
    by (simp add: inner_inv_def breaker_config_default_def)
  from half_open_timeout_decision [OF this, of 5 1 3 1 "40 * nanos_per_sec"]
  show ?thesis by (simp add: breaker_config_default_def from_secs_def)
qed



end
