(* ===== verification/Core_Types.thy ===== *)
theory Core_Types
  imports Rust_Str "HOL-Library.List_Lexorder" "HOL-Library.Char_ord" "HOL-Library.Product_Lexorder"
begin

section \<open>Shared vocabulary of the renderer\<close>

text \<open>
  \<open>crates/crw-core/src/types.rs\<close>: the renderer tiers and the failure taxonomy. Tiers are
  ordered by their wire names, which is how the breaker snapshot sorts them.
\<close>

datatype renderer_kind =
    Http
  | Lightpanda
  | Chrome
  | ChromeProxy
  | Camofox
  | Byparr
  | ImpersonatedHttp

fun kind_str :: "renderer_kind \<Rightarrow> string" where
  "kind_str Http = ''http''"
| "kind_str Lightpanda = ''lightpanda''"
| "kind_str Chrome = ''chrome''"
| "kind_str ChromeProxy = ''chrome_proxy''"
| "kind_str Camofox = ''camofox''"
| "kind_str Byparr = ''byparr''"
| "kind_str ImpersonatedHttp = ''impersonated-http''"

lemma kind_str_inj [simp]: "kind_str a = kind_str b \<longleftrightarrow> a = b"
  by (cases a; cases b) simp_all

instantiation renderer_kind :: linorder
begin

definition less_eq_renderer_kind :: "renderer_kind \<Rightarrow> renderer_kind \<Rightarrow> bool" where
  "less_eq_renderer_kind a b \<longleftrightarrow> kind_str a \<le> kind_str b"

definition less_renderer_kind :: "renderer_kind \<Rightarrow> renderer_kind \<Rightarrow> bool" where
  "less_renderer_kind a b \<longleftrightarrow> kind_str a < kind_str b"

instance
proof
  fix a b c :: renderer_kind
  show "a < b \<longleftrightarrow> a \<le> b \<and> \<not> b \<le> a"
    unfolding less_eq_renderer_kind_def less_renderer_kind_def by (rule less_le_not_le)
  show "a \<le> a" unfolding less_eq_renderer_kind_def by simp
  show "a \<le> b \<Longrightarrow> b \<le> c \<Longrightarrow> a \<le> c"
    unfolding less_eq_renderer_kind_def by (rule order_trans)
  show "a \<le> b \<Longrightarrow> b \<le> a \<Longrightarrow> a = b"
    unfolding less_eq_renderer_kind_def by (metis antisym kind_str_inj)
  show "a \<le> b \<or> b \<le> a" unfolding less_eq_renderer_kind_def by (rule linear)
qed

end

datatype failover_error_kind =
    NextJsClientError
  | EmptyNextRoot
  | LightpandaTimeout
  | LightpandaCrash
  | CloudflareChallenge
  | PlaceholderContent
  | VendorBlock
  | StatusBlocked
  | AntibotBlock
  | NetworkError
  | OtherFailure

definition counts_for_promotion :: "failover_error_kind \<Rightarrow> bool" where
  "counts_for_promotion k =
    (k \<in> {NextJsClientError, EmptyNextRoot, LightpandaTimeout, LightpandaCrash,
           PlaceholderContent, AntibotBlock})"

end
