(* ===== verification/Net_Addr.thy ===== *)
theory Net_Addr
  imports Rust_Str "HOL-Library.Word"
begin

section \<open>Internet addresses and their textual form\<close>

text \<open>
  \<open>std::net::IpAddr\<close> and its \<open>FromStr\<close> parser, as the standard library defines them: four
  decimal octets of one to three digits without a leading zero, or up to eight groups of one to
  four hexadecimal digits with at most one \<open>::\<close> and an optional dotted IPv4 tail. An IPv6
  address is the list of its eight 16-bit segments.
\<close>

datatype ip_addr =
    V4 "8 word" "8 word" "8 word" "8 word"
  | V6 "16 word list"

definition hex_digit :: "char \<Rightarrow> nat option" where
  "hex_digit c =
    (let b = byte c
     in if 48 \<le> b \<and> b \<le> 57 then Some (b - 48)
        else if 97 \<le> b \<and> b \<le> 102 then Some (b - 87)
        else if 65 \<le> b \<and> b \<le> 70 then Some (b - 55)
        else None)"

definition digit_in :: "nat \<Rightarrow> char \<Rightarrow> nat option" where
  "digit_in radix c =
    (case hex_digit c of Some d \<Rightarrow> if d < radix then Some d else None | None \<Rightarrow> None)"

text \<open>The digits read, as their count and value, and the rest of the input.\<close>

fun read_digits :: "nat \<Rightarrow> nat \<Rightarrow> nat \<Rightarrow> string \<Rightarrow> nat \<times> nat \<times> string" where
  "read_digits radix n v [] = (n, v, [])"
| "read_digits radix n v (c # cs) =
    (case digit_in radix c of
       Some d \<Rightarrow> read_digits radix (Suc n) (v * radix + d) cs
     | None \<Rightarrow> (n, v, c # cs))"

definition read_number ::
    "nat \<Rightarrow> nat \<Rightarrow> bool \<Rightarrow> nat \<Rightarrow> string \<Rightarrow> (nat \<times> string) option" where
  "read_number radix max_digits allow_zero_prefix maxv s =
    (let (n, v, rest) = read_digits radix 0 0 s
     in if n = 0 \<or> max_digits < n \<or> maxv < v
           \<or> \<not> allow_zero_prefix \<and> prefix ''0'' s \<and> 1 < n
        then None else Some (v, rest))"

definition read_sep :: "char \<Rightarrow> nat \<Rightarrow> string \<Rightarrow> string option" where
  "read_sep sep i s =
    (if i = 0 then Some s
     else (case s of c # cs \<Rightarrow> if c = sep then Some cs else None | [] \<Rightarrow> None))"

definition read_octet :: "nat \<Rightarrow> string \<Rightarrow> (nat \<times> string) option" where
  "read_octet i s = Option.bind (read_sep (CHR ''.'') i s) (read_number 10 3 False 255)"

definition read_ipv4 :: "string \<Rightarrow> (nat list \<times> string) option" where
  "read_ipv4 s =
    Option.bind (read_octet 0 s) (\<lambda>(a, s1).
    Option.bind (read_octet 1 s1) (\<lambda>(b, s2).
    Option.bind (read_octet 2 s2) (\<lambda>(c, s3).
    Option.bind (read_octet 3 s3) (\<lambda>(d, s4). Some ([a, b, c, d], s4)))))"

text \<open>
  Up to \<open>left\<close> further groups, the next having index \<open>i\<close>: the groups read, whether an
  embedded IPv4 address ended them, and the rest of the input.
\<close>

fun read_groups :: "nat \<Rightarrow> nat \<Rightarrow> string \<Rightarrow> nat list \<times> bool \<times> string" where
  "read_groups 0 i s = ([], False, s)"
| "read_groups (Suc left) i s =
    (case (if 0 < left then Option.bind (read_sep (CHR '':'') i s) read_ipv4 else None) of
       Some (os, rest) \<Rightarrow>
         ([os ! 0 * 256 + os ! 1, os ! 2 * 256 + os ! 3], True, rest)
     | None \<Rightarrow>
         (case Option.bind (read_sep (CHR '':'') i s) (read_number 16 4 True 65535) of
            Some (g, rest) \<Rightarrow>
              (let (gs, v4, rest') = read_groups left (Suc i) rest in (g # gs, v4, rest'))
          | None \<Rightarrow> ([], False, s)))"

definition read_ipv6 :: "string \<Rightarrow> (nat list \<times> string) option" where
  "read_ipv6 s =
    (let (head, head_v4, rest) = read_groups 8 0 s
     in if length head = 8 then Some (head, rest)
        else if head_v4 then None
        else (case strip_prefix ''::'' rest of
                None \<Rightarrow> None
              | Some rest1 \<Rightarrow>
                  (let (tail, _, rest2) = read_groups (8 - (length head + 1)) 0 rest1
                   in Some (head @ replicate (8 - length head - length tail) 0 @ tail, rest2))))"

definition parse_ip_addr :: "string \<Rightarrow> ip_addr option" where
  "parse_ip_addr s =
    (case read_ipv4 s of
       Some (os, rest) \<Rightarrow>
         (if rest = []
          then Some (V4 (of_nat (os ! 0)) (of_nat (os ! 1)) (of_nat (os ! 2)) (of_nat (os ! 3)))
          else None)
     | None \<Rightarrow>
         (case read_ipv6 s of
            Some (gs, rest) \<Rightarrow> if rest = [] then Some (V6 (map of_nat gs)) else None
          | None \<Rightarrow> None))"

lemma length_read_groups: "read_groups n i s = (gs, v4, rest) \<Longrightarrow> length gs \<le> n"
  by (induction n i s arbitrary: gs v4 rest rule: read_groups.induct)
    (auto split: option.splits prod.splits if_splits)

text \<open>A parsed IPv6 address always has eight segments.\<close>

lemma parse_ip_addr_V6: "parse_ip_addr s = Some (V6 ws) \<Longrightarrow> length ws = 8"
  unfolding parse_ip_addr_def read_ipv6_def
  by (auto simp: Let_def split: option.splits prod.splits if_splits dest!: length_read_groups)


text \<open>Evaluation of the parser on a literal.\<close>

lemmas read_groups_numeral =
  read_groups.simps(2) [of "pred_numeral k" for k, folded numeral_eq_Suc]

lemmas parse_eval =
  parse_ip_addr_def read_ipv4_def read_ipv6_def read_octet_def read_number_def digit_in_def
  hex_digit_def read_sep_def byte_def strip_prefix_def replicate_numeral read_groups_numeral

end
