(* ===== verification/Host_Key.thy ===== *)
theory Host_Key
  imports Net_Addr
begin

section \<open>Host normalisation\<close>

text \<open>
  \<open>normalize_host\<close> of \<open>crates/crw-renderer/src/preference.rs\<close>, the key under which breakers,
  preferences, limiters and clearances are shared between the subdomains of a site. The public
  suffix list (the \<open>publicsuffix\<close> crate with its embedded data) is the parameter \<open>psl\<close>: the
  registrable domain of a host, if it has one.
\<close>

definition normalize_host :: "(string \<Rightarrow> string option) \<Rightarrow> string \<Rightarrow> string" where
  "normalize_host psl input =
    (let lower = to_ascii_lowercase (trim_end_char (CHR ''.'') (trim input));
         trimmed = (case strip_prefix ''www.'' lower of Some r \<Rightarrow> r | None \<Rightarrow> lower);
         bracketed = Option.bind (strip_prefix ''['' trimmed) (strip_suffix '']'')
     in if parse_ip_addr trimmed \<noteq> None then trimmed
        else (case bracketed of
                Some stripped \<Rightarrow>
                  if parse_ip_addr stripped \<noteq> None then stripped
                  else (case psl trimmed of Some d \<Rightarrow> d | None \<Rightarrow> trimmed)
              | None \<Rightarrow> (case psl trimmed of Some d \<Rightarrow> d | None \<Rightarrow> trimmed)))"

end
