(* ===== verification/Breaker_Registry.thy ===== *)
theory Breaker_Registry
  imports Breaker_Props Core_Types Host_Key "HOL-Library.Monad_Syntax"
begin

section \<open>The breaker registry\<close>

text \<open>
  \<open>BreakerRegistry\<close> and \<open>ProbeGuard\<close> of \<open>crates/crw-renderer/src/breaker.rs\<close>: one global
  breaker per renderer tier and one per (registrable host, tier), consulted together.

  Breakers are shared by \<open>Arc\<close>, and a guard keeps its own pointers, so the registry is
  modelled with an explicit heap of breakers: an \<open>Arc<CircuitBreaker>\<close> is an index into
  \<open>reg_heap\<close>, the global table and the host cache map keys to indices, and a guard holds
  indices. The host cache is the \<open>moka\<close> crate's: an association list here (its iteration
  order is not specified by the crate), whose \<open>get_with\<close> inserts what is missing and which may
  drop entries at any time (\<open>reg_evict\<close>, the crate's expiry and capacity bound). The
  counters and the log line of an opening breaker are the list \<open>reg_metrics\<close>.
\<close>

type_synonym addr = nat

datatype metric_scope = GlobalScope | HostScope

datatype metric =
    BreakerIgnored renderer_kind string
  | BreakerOpened renderer_kind metric_scope string

record breaker_registry =
  reg_config :: breaker_config
  reg_global :: "(renderer_kind \<times> addr) list"
  reg_host :: "((string \<times> renderer_kind) \<times> addr) list"
  reg_heap :: "circuit_breaker list"
  reg_metrics :: "metric list"

definition all_kinds :: "renderer_kind list" where
  "all_kinds = [Http, Lightpanda, Chrome, ChromeProxy, Camofox, Byparr, ImpersonatedHttp]"

definition registry_new :: "breaker_config \<Rightarrow> instant \<Rightarrow> breaker_registry" where
  "registry_new cfg now =
    \<lparr> reg_config = cfg,
      reg_global = zip all_kinds [0..<length all_kinds],
      reg_host = [],
      reg_heap = replicate (length all_kinds) (breaker_new cfg now),
      reg_metrics = [] \<rparr>"

text \<open>The lookup loop; \<open>None\<close> is its \<open>unreachable!\<close>.\<close>

definition global_for :: "renderer_kind \<Rightarrow> breaker_registry \<Rightarrow> addr option" where
  "global_for renderer reg = map_of (reg_global reg) renderer"

definition host_for ::
    "(string \<Rightarrow> string option) \<Rightarrow> instant \<Rightarrow> string \<Rightarrow> renderer_kind \<Rightarrow> breaker_registry \<Rightarrow>
     addr \<times> breaker_registry" where
  "host_for psl now host renderer reg =
    (let key = (normalize_host psl host, renderer)
     in case map_of (reg_host reg) key of
          Some a \<Rightarrow> (a, reg)
        | None \<Rightarrow>
            (length (reg_heap reg),
             reg\<lparr> reg_host := (key, length (reg_heap reg)) # reg_host reg,
                  reg_heap := reg_heap reg @ [breaker_new (reg_config reg) now] \<rparr>))"

text \<open>An operation on the breaker behind a pointer.\<close>

definition on_breaker ::
    "addr \<Rightarrow> (breaker_config \<Rightarrow> breaker_inner \<Rightarrow> 'r \<times> breaker_inner) \<Rightarrow> breaker_registry \<Rightarrow>
     'r \<times> breaker_registry" where
  "on_breaker a f reg =
    (let b = reg_heap reg ! a;
         (r, s) = f (cb_config b) (cb_inner b)
     in (r, reg\<lparr> reg_heap := (reg_heap reg)[a := b\<lparr> cb_inner := s \<rparr>] \<rparr>))"

definition try_acquire_at :: "instant \<Rightarrow> addr \<Rightarrow> breaker_registry \<Rightarrow> permit \<times> breaker_registry" where
  "try_acquire_at now a = on_breaker a (\<lambda>cfg. inner_try_acquire cfg now)"

definition record_outcome_at ::
    "instant \<Rightarrow> breaker_outcome \<Rightarrow> addr \<Rightarrow> breaker_registry \<Rightarrow> bool \<times> breaker_registry" where
  "record_outcome_at now out a = on_breaker a (\<lambda>cfg. inner_record_outcome cfg now out)"

definition cancel_probe_at :: "addr \<Rightarrow> breaker_registry \<Rightarrow> breaker_registry" where
  "cancel_probe_at a reg = snd (on_breaker a (\<lambda>cfg s. ((), inner_cancel_probe s)) reg)"

definition registry_try_acquire_host_only ::
    "(string \<Rightarrow> string option) \<Rightarrow> instant \<Rightarrow> string \<Rightarrow> renderer_kind \<Rightarrow> breaker_registry \<Rightarrow>
     permit \<times> breaker_registry" where
  "registry_try_acquire_host_only psl now host renderer reg =
    (let (h, reg1) = host_for psl now host renderer reg in try_acquire_at now h reg1)"

definition registry_try_acquire ::
    "(string \<Rightarrow> string option) \<Rightarrow> instant \<Rightarrow> string \<Rightarrow> renderer_kind \<Rightarrow> breaker_registry \<Rightarrow>
     (permit \<times> breaker_registry) option" where
  "registry_try_acquire psl now host renderer reg =
    do {
      g \<leftarrow> global_for renderer reg;
      let (h, reg1) = host_for psl now host renderer reg;
      let (pg, reg2) = try_acquire_at now g reg1;
      if pg = Rejected then Some (Rejected, reg2)
      else do {
        let (ph, reg3) = try_acquire_at now h reg2;
        if ph = Rejected then
          (if pg = Probe then Some (Rejected, cancel_probe_at g reg3) else Some (Rejected, reg3))
        else if pg = Probe \<or> ph = Probe then Some (Probe, reg3)
        else Some (Allowed, reg3)
      }
    }"

definition emit_metric :: "metric \<Rightarrow> breaker_registry \<Rightarrow> breaker_registry" where
  "emit_metric m reg = reg\<lparr> reg_metrics := reg_metrics reg @ [m] \<rparr>"

definition emit_ignored :: "renderer_kind \<Rightarrow> string option \<Rightarrow> breaker_registry \<Rightarrow> breaker_registry" where
  "emit_ignored renderer reason reg =
    (case reason of Some r \<Rightarrow> emit_metric (BreakerIgnored renderer r) reg | None \<Rightarrow> reg)"

definition emit_breaker_opened ::
    "bool \<Rightarrow> renderer_kind \<Rightarrow> metric_scope \<Rightarrow> string \<Rightarrow> breaker_registry \<Rightarrow> breaker_registry" where
  "emit_breaker_opened tripped renderer scope host reg =
    (if tripped then emit_metric (BreakerOpened renderer scope host) reg else reg)"

definition registry_record_outcome ::
    "(string \<Rightarrow> string option) \<Rightarrow> instant \<Rightarrow> string \<Rightarrow> renderer_kind \<Rightarrow> breaker_outcome \<Rightarrow>
     breaker_registry \<Rightarrow> breaker_registry option" where
  "registry_record_outcome psl now host renderer out reg =
    do {
      let reg0 = emit_ignored renderer (ignored_reason out) reg;
      g \<leftarrow> global_for renderer reg0;
      let (g_tripped, reg1) = record_outcome_at now out g reg0;
      let (h, reg2) = host_for psl now host renderer reg1;
      let (h_tripped, reg3) = record_outcome_at now out h reg2;
      let reg4 = emit_breaker_opened g_tripped renderer GlobalScope host reg3;
      Some (emit_breaker_opened h_tripped renderer HostScope host reg4)
    }"

definition registry_record_scoped_outcome ::
    "(string \<Rightarrow> string option) \<Rightarrow> instant \<Rightarrow> string \<Rightarrow> renderer_kind \<Rightarrow>
     breaker_outcome option \<Rightarrow> breaker_outcome option \<Rightarrow> breaker_registry \<Rightarrow> breaker_registry option" where
  "registry_record_scoped_outcome psl now host renderer global_outcome host_outcome reg =
    do {
      let seen = (case global_outcome of Some out \<Rightarrow> Some out | None \<Rightarrow> host_outcome);
      let reg0 = emit_ignored renderer (Option.bind seen ignored_reason) reg;
      g \<leftarrow> global_for renderer reg0;
      let reg1 =
        (case global_outcome of
           Some out \<Rightarrow>
             (let (tripped, r) = record_outcome_at now out g reg0
              in emit_breaker_opened tripped renderer GlobalScope host r)
         | None \<Rightarrow> cancel_probe_at g reg0);
      let (h, reg2) = host_for psl now host renderer reg1;
      Some (case host_outcome of
              Some out \<Rightarrow>
                (let (tripped, r) = record_outcome_at now out h reg2
                 in emit_breaker_opened tripped renderer HostScope host r)
            | None \<Rightarrow> cancel_probe_at h reg2)
    }"

definition registry_record_result ::
    "(string \<Rightarrow> string option) \<Rightarrow> instant \<Rightarrow> string \<Rightarrow> renderer_kind \<Rightarrow> bool \<Rightarrow>
     breaker_registry \<Rightarrow> breaker_registry option" where
  "registry_record_result psl now host renderer success reg =
    registry_record_outcome psl now host renderer (if success then Success else RenderError) reg"

definition registry_cancel_probe ::
    "(string \<Rightarrow> string option) \<Rightarrow> instant \<Rightarrow> string \<Rightarrow> renderer_kind \<Rightarrow>
     breaker_registry \<Rightarrow> breaker_registry option" where
  "registry_cancel_probe psl now host renderer reg =
    do {
      g \<leftarrow> global_for renderer reg;
      let (h, reg1) = host_for psl now host renderer (cancel_probe_at g reg);
      Some (cancel_probe_at h reg1)
    }"

definition reset_at :: "instant \<Rightarrow> addr \<Rightarrow> breaker_registry \<Rightarrow> breaker_registry" where
  "reset_at now a reg = snd (on_breaker a (\<lambda>cfg s. ((), inner_reset now s)) reg)"

definition registry_reset_all :: "instant \<Rightarrow> breaker_registry \<Rightarrow> nat \<times> breaker_registry" where
  "registry_reset_all now reg =
    (let reg1 = fold (\<lambda>(_, a). reset_at now a) (reg_global reg) reg
     in (length (reg_host reg1), reg1\<lparr> reg_host := [] \<rparr>))"

text \<open>The cache crate drops the entries \<open>gone\<close>; the breakers behind them live on for as long
  as a guard points to them.\<close>

definition reg_evict :: "(string \<times> renderer_kind) set \<Rightarrow> breaker_registry \<Rightarrow> breaker_registry" where
  "reg_evict gone reg = reg\<lparr> reg_host := filter (\<lambda>(key, _). key \<notin> gone) (reg_host reg) \<rparr>"

record breaker_status =
  status_host :: string
  status_renderer :: string
  status_snapshot :: breaker_snapshot

definition snapshot_at :: "instant \<Rightarrow> addr \<Rightarrow> breaker_registry \<Rightarrow> breaker_snapshot \<times> breaker_registry" where
  "snapshot_at now a = on_breaker a (\<lambda>cfg. inner_snapshot cfg now)"

fun snapshot_entries ::
    "instant \<Rightarrow> ((string \<times> renderer_kind) \<times> addr) list \<Rightarrow> breaker_registry \<Rightarrow>
     breaker_status list \<times> breaker_registry" where
  "snapshot_entries now [] reg = ([], reg)"
| "snapshot_entries now (((host, kind), a) # es) reg =
    (let (snap, reg1) = snapshot_at now a reg;
         (rest, reg2) = snapshot_entries now es reg1
     in (\<lparr> status_host = host, status_renderer = kind_str kind, status_snapshot = snap \<rparr> # rest, reg2))"

definition registry_snapshot ::
    "instant \<Rightarrow> breaker_registry \<Rightarrow>
     (breaker_status list \<times> breaker_status list) \<times> breaker_registry" where
  "registry_snapshot now reg =
    (let (global, reg1) = snapshot_entries now (map (\<lambda>(k, a). (([], k), a)) (reg_global reg)) reg;
         (per_host, reg2) = snapshot_entries now (reg_host reg1) reg1
     in ((global, sort_key (\<lambda>st. (status_host st, status_renderer st)) per_host), reg2))"

subsection \<open>The probe guard\<close>

record probe_guard =
  guard_global :: "addr option"
  guard_host :: "addr option"
  guard_armed :: bool

definition guard_disarm :: "probe_guard \<Rightarrow> probe_guard" where
  "guard_disarm gd = gd\<lparr> guard_armed := False \<rparr>"

definition guard_drop :: "probe_guard \<Rightarrow> breaker_registry \<Rightarrow> breaker_registry" where
  "guard_drop gd reg =
    (if \<not> guard_armed gd then reg
     else
       (let reg1 = (case guard_global gd of Some g \<Rightarrow> cancel_probe_at g reg | None \<Rightarrow> reg)
        in case guard_host gd of Some h \<Rightarrow> cancel_probe_at h reg1 | None \<Rightarrow> reg1))"

definition acquire_with_guard ::
    "(string \<Rightarrow> string option) \<Rightarrow> instant \<Rightarrow> string \<Rightarrow> renderer_kind \<Rightarrow> breaker_registry \<Rightarrow>
     ((permit \<times> probe_guard) \<times> breaker_registry) option" where
  "acquire_with_guard psl now host renderer reg =
    do {
      (p, reg1) \<leftarrow> registry_try_acquire psl now host renderer reg;
      if p = Probe then do {
        g \<leftarrow> global_for renderer reg1;
        let (h, reg2) = host_for psl now host renderer reg1;
        Some ((p, \<lparr> guard_global = Some g, guard_host = Some h, guard_armed = True \<rparr>), reg2)
      }
      else Some ((p, \<lparr> guard_global = None, guard_host = None, guard_armed = False \<rparr>), reg1)
    }"

end
