(* ===== verification/Breaker_Registry_Props.thy ===== *)
theory Breaker_Registry_Props
  imports Breaker_Registry
begin

section \<open>What the registry guarantees\<close>

text \<open>
  Well-formedness of the pointer structure and its preservation, isolation of hosts and tiers
  from each other, and the conservation of probe slots by guards; and the one path that does
  not conserve them.
\<close>

subsection \<open>Well-formed registries\<close>

definition inner_at :: "breaker_registry \<Rightarrow> addr \<Rightarrow> breaker_inner" where
  "inner_at reg a = cb_inner (reg_heap reg ! a)"

definition live_addrs :: "breaker_registry \<Rightarrow> addr list" where
  "live_addrs reg = map snd (reg_global reg) @ map snd (reg_host reg)"

definition registry_wf :: "breaker_registry \<Rightarrow> bool" where
  "registry_wf reg \<longleftrightarrow>
     map fst (reg_global reg) = all_kinds
     \<and> distinct (live_addrs reg) \<and> distinct (map fst (reg_host reg))
     \<and> (\<forall>a \<in> set (live_addrs reg). a < length (reg_heap reg))
     \<and> (\<forall>b \<in> set (reg_heap reg). cb_config b = reg_config reg \<and> inner_inv (reg_config reg) (cb_inner b))"

lemma all_kinds_complete: "k \<in> set all_kinds"
  by (cases k) (simp_all add: all_kinds_def)

lemma registry_new_wf: "registry_wf (registry_new cfg now)"
  by (simp add: registry_wf_def registry_new_def live_addrs_def all_kinds_def upt_rec
      breaker_new_def inner_new_inv)

lemma global_for_total: "registry_wf reg \<Longrightarrow> \<exists>g. global_for k reg = Some g"
  using all_kinds_complete [of k] unfolding registry_wf_def global_for_def
  by (metis dom_map_of_conv_image_fst domD list.set_map)

lemma global_for_live: "global_for k reg = Some g \<Longrightarrow> g \<in> snd ` set (reg_global reg)"
  by (force simp: global_for_def dest: map_of_SomeD)

lemma global_for_bound: "registry_wf reg \<Longrightarrow> global_for k reg = Some g \<Longrightarrow> g < length (reg_heap reg)"
  using global_for_live by (fastforce simp: registry_wf_def live_addrs_def)

text \<open>What an operation may do to a registry: change breakers at \<open>A\<close>, add host entries.\<close>

definition frame :: "addr set \<Rightarrow> breaker_registry \<Rightarrow> breaker_registry \<Rightarrow> bool" where
  "frame A reg reg' \<longleftrightarrow>
     reg_config reg' = reg_config reg \<and> reg_global reg' = reg_global reg
     \<and> length (reg_heap reg) \<le> length (reg_heap reg')
     \<and> (\<forall>key a. map_of (reg_host reg) key = Some a \<longrightarrow> map_of (reg_host reg') key = Some a)
     \<and> (\<forall>a < length (reg_heap reg). a \<notin> A \<longrightarrow> inner_at reg' a = inner_at reg a)"

lemma frame_refl [simp]: "frame A reg reg"
  by (simp add: frame_def)

lemma frame_trans: "frame A r1 r2 \<Longrightarrow> frame B r2 r3 \<Longrightarrow> frame (A \<union> B) r1 r3"
  unfolding frame_def by (auto dest: order_trans)

lemma frame_mono: "frame A r1 r2 \<Longrightarrow> A \<subseteq> B \<Longrightarrow> frame B r1 r2"
  unfolding frame_def by blast

lemma frame_global_for: "frame A r1 r2 \<Longrightarrow> global_for k r2 = global_for k r1"
  by (simp add: frame_def global_for_def)

lemma on_breaker_fields [simp]:
  "reg_config (snd (on_breaker a f reg)) = reg_config reg"
  "reg_global (snd (on_breaker a f reg)) = reg_global reg"
  "reg_host (snd (on_breaker a f reg)) = reg_host reg"
  "reg_metrics (snd (on_breaker a f reg)) = reg_metrics reg"
  "length (reg_heap (snd (on_breaker a f reg))) = length (reg_heap reg)"
  by (simp_all add: on_breaker_def Let_def split_beta)

lemma fst_on_breaker: "fst (on_breaker a f reg) = fst (f (cb_config (reg_heap reg ! a)) (inner_at reg a))"
  by (simp add: on_breaker_def Let_def split_beta inner_at_def)

lemma inner_at_on_breaker:
  "a < length (reg_heap reg) \<Longrightarrow> inner_at (snd (on_breaker a f reg)) b =
     (if b = a then snd (f (cb_config (reg_heap reg ! a)) (inner_at reg a)) else inner_at reg b)"
  by (simp add: on_breaker_def Let_def split_beta inner_at_def)

lemma on_breaker_frame: "frame {a} reg (snd (on_breaker a f reg))"
  by (auto simp: frame_def) (simp add: on_breaker_def Let_def split_beta inner_at_def)

lemma config_at:
  "registry_wf reg \<Longrightarrow> a < length (reg_heap reg) \<Longrightarrow> cb_config (reg_heap reg ! a) = reg_config reg"
  by (simp add: registry_wf_def)

lemma inner_inv_at:
  "registry_wf reg \<Longrightarrow> a < length (reg_heap reg) \<Longrightarrow> inner_inv (reg_config reg) (inner_at reg a)"
  by (simp add: registry_wf_def inner_at_def)

lemma on_breaker_wf:
  assumes "registry_wf reg" and "a < length (reg_heap reg)"
    and "\<And>s. inner_inv (reg_config reg) s \<Longrightarrow> inner_inv (reg_config reg) (snd (f (reg_config reg) s))"
  shows "registry_wf (snd (on_breaker a f reg))"
proof -
  let ?b = "reg_heap reg ! a"
  have heap: "reg_heap (snd (on_breaker a f reg)) =
      (reg_heap reg)[a := ?b\<lparr> cb_inner := snd (f (cb_config ?b) (cb_inner ?b)) \<rparr>]"
    by (simp add: on_breaker_def Let_def split_beta)
  have "cb_config b = reg_config reg \<and> inner_inv (reg_config reg) (cb_inner b)"
    if "b \<in> set (reg_heap (snd (on_breaker a f reg)))" for b
  proof -
    from that have "b = ?b\<lparr> cb_inner := snd (f (cb_config ?b) (cb_inner ?b)) \<rparr> \<or> b \<in> set (reg_heap reg)"
      unfolding heap using set_update_subset_insert by fastforce
    then show ?thesis
      using assms config_at [OF assms(1,2)] inner_inv_at [OF assms(1,2)]
      by (auto simp: registry_wf_def inner_at_def)
  qed
  then show ?thesis
    using assms(1) by (simp add: registry_wf_def live_addrs_def)
qed

lemma host_for_spec:
  assumes "registry_wf reg" and "host_for psl now host k reg = (h, reg')"
  shows "registry_wf reg' \<and> frame {} reg reg' \<and> h < length (reg_heap reg')
    \<and> map_of (reg_host reg') (normalize_host psl host, k) = Some h
    \<and> h \<notin> snd ` set (reg_global reg') \<and> reg_metrics reg' = reg_metrics reg"
proof (cases "map_of (reg_host reg) (normalize_host psl host, k)")
  case (Some a)
  then have "a \<in> snd ` set (reg_host reg)" by (force dest: map_of_SomeD)
  moreover have "h = a" "reg' = reg" using assms(2) Some by (auto simp: host_for_def Let_def)
  ultimately show ?thesis
    using assms(1) Some by (auto simp: registry_wf_def live_addrs_def)
next
  case None
  then have r: "h = length (reg_heap reg)"
    "reg' = reg\<lparr> reg_host := ((normalize_host psl host, k), length (reg_heap reg)) # reg_host reg,
               reg_heap := reg_heap reg @ [breaker_new (reg_config reg) now] \<rparr>"
    using assms(2) by (auto simp: host_for_def Let_def)
  have fresh: "length (reg_heap reg) \<notin> set (live_addrs reg)"
    using assms(1) by (auto simp: registry_wf_def)
  have key: "(normalize_host psl host, k) \<notin> set (map fst (reg_host reg))"
    using None by (simp add: map_of_eq_None_iff)
  have "registry_wf reg'"
    using assms(1) fresh key unfolding registry_wf_def r live_addrs_def
    by (auto simp: breaker_new_def inner_new_inv less_Suc_eq)
  moreover have "frame {} reg reg'"
    using None unfolding frame_def r by (auto simp: inner_at_def nth_append)
  ultimately show ?thesis
    using fresh by (auto simp: r live_addrs_def)
qed

lemma host_for_frame: "registry_wf reg \<Longrightarrow> frame {} reg (snd (host_for psl now host k reg))"
  using host_for_spec [of reg psl now host k] by (metis prod.collapse)

lemma emit_frame [simp]:
  "frame A reg (emit_metric m reg)" "frame A reg (emit_ignored k r reg)"
  "frame A reg (emit_breaker_opened t k sc h reg)"
  by (auto simp: frame_def emit_metric_def emit_ignored_def emit_breaker_opened_def inner_at_def
      split: option.splits)

lemma emit_wf [simp]:
  "registry_wf (emit_metric m reg) = registry_wf reg"
  "registry_wf (emit_ignored k r reg) = registry_wf reg"
  "registry_wf (emit_breaker_opened t k sc h reg) = registry_wf reg"
  by (auto simp: registry_wf_def live_addrs_def emit_metric_def emit_ignored_def
      emit_breaker_opened_def split: option.splits)

lemma emit_access [simp]:
  "reg_heap (emit_metric m reg) = reg_heap reg" "reg_heap (emit_ignored k r reg) = reg_heap reg"
  "reg_heap (emit_breaker_opened t k sc h reg) = reg_heap reg"
  "reg_config (emit_ignored k r reg) = reg_config reg"
  "inner_at (emit_ignored k r reg) a = inner_at reg a"
  "inner_at (emit_breaker_opened t k sc h reg) a = inner_at reg a"
  "global_for k' (emit_ignored k r reg) = global_for k' reg"
  by (auto simp: emit_metric_def emit_ignored_def emit_breaker_opened_def inner_at_def global_for_def
      split: option.splits)

subsection \<open>Every operation keeps the structure and touches two breakers\<close>

lemma try_acquire_at_ok:
  assumes "registry_wf reg" and "a < length (reg_heap reg)"
  shows "registry_wf (snd (try_acquire_at now a reg)) \<and> frame {a} reg (snd (try_acquire_at now a reg))"
  unfolding try_acquire_at_def using assms
  by (auto intro!: on_breaker_wf on_breaker_frame inv_intros)

lemma record_outcome_at_ok:
  assumes "registry_wf reg" and "a < length (reg_heap reg)"
  shows "registry_wf (snd (record_outcome_at now out a reg))
    \<and> frame {a} reg (snd (record_outcome_at now out a reg))"
  unfolding record_outcome_at_def using assms
  by (auto intro!: on_breaker_wf on_breaker_frame inv_intros)

lemma cancel_probe_at_ok:
  assumes "registry_wf reg" and "a < length (reg_heap reg)"
  shows "registry_wf (cancel_probe_at a reg) \<and> frame {a} reg (cancel_probe_at a reg)"
  unfolding cancel_probe_at_def using assms
  by (auto intro!: on_breaker_wf on_breaker_frame inv_intros)

lemma reset_at_ok:
  assumes "registry_wf reg" and "a < length (reg_heap reg)"
  shows "registry_wf (reset_at now a reg) \<and> frame {a} reg (reset_at now a reg)"
  unfolding reset_at_def using assms
  by (auto intro!: on_breaker_wf on_breaker_frame inv_intros)

lemma snapshot_at_ok:
  assumes "registry_wf reg" and "a < length (reg_heap reg)"
  shows "registry_wf (snd (snapshot_at now a reg)) \<and> frame {a} reg (snd (snapshot_at now a reg))"
  unfolding snapshot_at_def using assms
  by (auto intro!: on_breaker_wf on_breaker_frame simp: lazy_evaluate_inv)

lemma frame_length: "frame A reg reg' \<Longrightarrow> a < length (reg_heap reg) \<Longrightarrow> a < length (reg_heap reg')"
  by (auto simp: frame_def)

lemma frame_host: "frame A reg reg' \<Longrightarrow> map_of (reg_host reg) key = Some a \<Longrightarrow> map_of (reg_host reg') key = Some a"
  unfolding frame_def by blast

lemma emit_frame_iff [simp]:
  "frame A (emit_ignored k r reg) reg' \<longleftrightarrow> frame A reg reg'"
  "frame A reg (emit_breaker_opened t k sc h reg') \<longleftrightarrow> frame A reg reg'"
  by (auto simp: frame_def emit_metric_def emit_ignored_def emit_breaker_opened_def inner_at_def
      split: option.splits)

text \<open>\<open>reg'\<close> comes from \<open>reg\<close> by changes to the two breakers of one key.\<close>

definition touches ::
    "(string \<Rightarrow> string option) \<Rightarrow> string \<Rightarrow> renderer_kind \<Rightarrow> breaker_registry \<Rightarrow> breaker_registry \<Rightarrow> bool" where
  "touches psl host k reg reg' \<longleftrightarrow> registry_wf reg' \<and>
     (\<exists>g h. global_for k reg = Some g \<and> map_of (reg_host reg') (normalize_host psl host, k) = Some h
        \<and> frame {g, h} reg reg')"

lemma host_for_mid:
  assumes "registry_wf reg" and "global_for k reg = Some g" and "frame A reg r1" and "registry_wf r1"
    and "host_for psl now host k r1 = (h, r2)"
  shows "registry_wf r2 \<and> g < length (reg_heap r2) \<and> h < length (reg_heap r2) \<and> g \<noteq> h \<and> frame A reg r2"
proof -
  note h = host_for_spec [OF assms(4,5)]
  have "frame A reg r2" using frame_trans [OF assms(3), of "{}" r2] h by simp
  moreover from this have "g < length (reg_heap r2)"
    using global_for_bound [OF assms(1,2)] frame_length by blast
  moreover have "g \<in> snd ` set (reg_global r2)"
    using \<open>frame A reg r2\<close> assms(2) global_for_live by (metis frame_global_for)
  ultimately show ?thesis using h by auto
qed

lemma touchesI:
  assumes "registry_wf reg" and "global_for k reg = Some g" and "frame {g} reg r1" and "registry_wf r1"
    and "host_for psl now host k r1 = (h, r2)" and "registry_wf reg'" and "frame {g, h} r2 reg'"
  shows "touches psl host k reg reg'"
proof -
  have "frame {g} reg r2" using host_for_mid [OF assms(1-5)] by simp
  from frame_trans [OF this assms(7)] have "frame {g, h} reg reg'" by (simp add: insert_commute)
  moreover have "map_of (reg_host reg') (normalize_host psl host, k) = Some h"
    using frame_host [OF assms(7)] host_for_spec [OF assms(4,5)] by blast
  ultimately show ?thesis unfolding touches_def using assms(2,6) by blast
qed

lemma registry_try_acquire_touches:
  assumes "registry_wf reg"
  shows "\<exists>p reg'. registry_try_acquire psl now host k reg = Some (p, reg') \<and> touches psl host k reg reg'"
proof -
  obtain g where g: "global_for k reg = Some g" using global_for_total [OF assms] by blast
  obtain h r1 where h: "host_for psl now host k reg = (h, r1)" by (metis prod.collapse)
  note mid = host_for_mid [OF assms g frame_refl assms h]
  obtain pg r2 where r2: "try_acquire_at now g r1 = (pg, r2)" by (metis prod.collapse)
  then have ok2: "registry_wf r2" "frame {g} r1 r2" using try_acquire_at_ok [of r1 g now] mid by auto
  obtain ph r3 where r3: "try_acquire_at now h r2 = (ph, r3)" by (metis prod.collapse)
  have h2: "h < length (reg_heap r2)" using mid frame_length [OF ok2(2)] by blast
  then have ok3: "registry_wf r3" "frame {h} r2 r3"
    using try_acquire_at_ok [of r2 h now] ok2 r3 by auto
  have f3: "frame {g, h} r1 r3" using frame_trans [OF ok2(2) ok3(2)] by (simp add: insert_commute)
  then have "g < length (reg_heap r3)" using mid frame_length by blast
  then have ok4: "registry_wf (cancel_probe_at g r3)" "frame {g, h} r1 (cancel_probe_at g r3)"
    using cancel_probe_at_ok [of r3 g] ok3 frame_trans [OF f3, of "{g}"] by auto
  note t = touchesI [OF assms g frame_refl assms h]
  have "touches psl host k reg r2" "touches psl host k reg r3" "touches psl host k reg (cancel_probe_at g r3)"
    using t [OF ok2(1) frame_mono [OF ok2(2)]] t [OF ok3(1) f3] t [OF ok4] by auto
  then show ?thesis
    using g h r2 r3 unfolding registry_try_acquire_def by (simp add: Let_def)
qed

lemma registry_try_acquire_host_only_ok:
  assumes "registry_wf reg"
  shows "touches psl host k reg (snd (registry_try_acquire_host_only psl now host k reg))"
proof -
  obtain g where g: "global_for k reg = Some g" using global_for_total [OF assms] by blast
  obtain h r1 where h: "host_for psl now host k reg = (h, r1)" by (metis prod.collapse)
  note mid = host_for_mid [OF assms g frame_refl assms h]
  then have ok: "registry_wf (snd (try_acquire_at now h r1))" "frame {h} r1 (snd (try_acquire_at now h r1))"
    using try_acquire_at_ok by auto
  show ?thesis
    using touchesI [OF assms g frame_refl assms h ok(1) frame_mono [OF ok(2)]] h
    by (simp add: registry_try_acquire_host_only_def)
qed

lemma registry_record_outcome_touches:
  assumes "registry_wf reg"
  shows "\<exists>reg'. registry_record_outcome psl now host k out reg = Some reg' \<and> touches psl host k reg reg'"
proof -
  let ?r0 = "emit_ignored k (ignored_reason out) reg"
  obtain g where g: "global_for k reg = Some g" using global_for_total [OF assms] by blast
  obtain t1 r1 where r1: "record_outcome_at now out g ?r0 = (t1, r1)" by (metis prod.collapse)
  have ok1: "registry_wf r1" "frame {g} ?r0 r1"
    using record_outcome_at_ok [of ?r0 g now out] assms global_for_bound [OF assms g] r1 by auto
  then have f1: "frame {g} reg r1"
    by simp
  obtain h r2 where h: "host_for psl now host k r1 = (h, r2)" by (metis prod.collapse)
  note mid = host_for_mid [OF assms g f1 ok1(1) h]
  obtain t2 r3 where r3: "record_outcome_at now out h r2 = (t2, r3)" by (metis prod.collapse)
  then have ok3: "registry_wf r3" "frame {h} r2 r3"
    using record_outcome_at_ok [of r2 h now out] mid by auto
  let ?r4 = "emit_breaker_opened t2 k HostScope host (emit_breaker_opened t1 k GlobalScope host r3)"
  have "frame {g, h} r2 ?r4"
    using frame_mono [OF ok3(2)] by simp
  then have "touches psl host k reg ?r4"
    using touchesI [OF assms g f1 ok1(1) h] ok3 by simp
  then show ?thesis
    using g h r1 r3 unfolding registry_record_outcome_def by (simp add: Let_def)
qed

lemma registry_record_scoped_touches:
  assumes "registry_wf reg"
  shows "\<exists>reg'. registry_record_scoped_outcome psl now host k go ho reg = Some reg'
    \<and> touches psl host k reg reg'"
proof -
  let ?r0 = "emit_ignored k (Option.bind (case go of Some out \<Rightarrow> Some out | None \<Rightarrow> ho) ignored_reason) reg"
  let ?f = "\<lambda>go sc a r. case go of
      Some out \<Rightarrow> (let (t, r') = record_outcome_at now out a r in emit_breaker_opened t k sc host r')
    | None \<Rightarrow> cancel_probe_at a r"
  have f: "registry_wf (?f go sc a r) \<and> frame {a} r (?f go sc a r)"
    if "registry_wf r" "a < length (reg_heap r)" for r a go sc
    using record_outcome_at_ok [OF that] cancel_probe_at_ok [OF that]
    by (cases go) (auto simp: Let_def split_beta)
  obtain g where g: "global_for k reg = Some g" using global_for_total [OF assms] by blast
  have ok1: "registry_wf (?f go GlobalScope g ?r0)" "frame {g} reg (?f go GlobalScope g ?r0)"
    using f [of ?r0 g GlobalScope go] assms global_for_bound [OF assms g] by simp_all
  obtain h r2 where h: "host_for psl now host k (?f go GlobalScope g ?r0) = (h, r2)" by (metis prod.collapse)
  note mid = host_for_mid [OF assms g ok1(2,1) h]
  have ok3: "registry_wf (?f ho HostScope h r2)" "frame {h} r2 (?f ho HostScope h r2)"
    using f [of r2 h HostScope ho] mid by auto
  have "touches psl host k reg (?f ho HostScope h r2)"
    using touchesI [OF assms g ok1(2,1) h ok3(1) frame_mono [OF ok3(2)]] by simp
  moreover have "registry_record_scoped_outcome psl now host k go ho reg = Some (?f ho HostScope h r2)"
    using g h unfolding registry_record_scoped_outcome_def by (simp add: Let_def cong: option.case_cong)
  ultimately show ?thesis by blast
qed

lemma registry_cancel_probe_touches:
  assumes "registry_wf reg"
  shows "\<exists>reg'. registry_cancel_probe psl now host k reg = Some reg' \<and> touches psl host k reg reg'"
proof -
  obtain g where g: "global_for k reg = Some g" using global_for_total [OF assms] by blast
  have ok1: "registry_wf (cancel_probe_at g reg)" "frame {g} reg (cancel_probe_at g reg)"
    using cancel_probe_at_ok [of reg g] assms global_for_bound [OF assms g] by auto
  obtain h r2 where h: "host_for psl now host k (cancel_probe_at g reg) = (h, r2)" by (metis prod.collapse)
  note mid = host_for_mid [OF assms g ok1(2,1) h]
  then have ok3: "registry_wf (cancel_probe_at h r2)" "frame {h} r2 (cancel_probe_at h r2)"
    using cancel_probe_at_ok [of r2 h] by auto
  have "touches psl host k reg (cancel_probe_at h r2)"
    using touchesI [OF assms g ok1(2,1) h ok3(1) frame_mono [OF ok3(2)]] by simp
  then show ?thesis using g h unfolding registry_cancel_probe_def by (simp add: Let_def)
qed

lemma snapshot_entries_wf:
  assumes "registry_wf reg" and "\<And>key a. (key, a) \<in> set es \<Longrightarrow> a < length (reg_heap reg)"
  shows "registry_wf (snd (snapshot_entries now es reg))
    \<and> length (reg_heap reg) = length (reg_heap (snd (snapshot_entries now es reg)))
    \<and> reg_host (snd (snapshot_entries now es reg)) = reg_host reg"
  using assms
proof (induction now es reg rule: snapshot_entries.induct)
  case (2 now host kind a es reg)
  obtain snap r1 where r1: "snapshot_at now a reg = (snap, r1)" by (metis prod.collapse)
  have "registry_wf r1" using snapshot_at_ok [OF 2(2), of a now] 2(3) r1 by auto
  moreover have "length (reg_heap r1) = length (reg_heap reg)" "reg_host r1 = reg_host reg"
    using r1 unfolding snapshot_at_def by (metis on_breaker_fields(5) snd_conv, metis on_breaker_fields(3) snd_conv)
  ultimately show ?case
    using 2(1) [OF r1 [symmetric] refl] 2(3) r1 by (auto simp: Let_def split_beta)
qed simp

lemma live_bound:
  assumes "registry_wf reg"
  shows "(key, a) \<in> set (reg_host reg) \<Longrightarrow> a < length (reg_heap reg)"
    and "(k, a) \<in> set (reg_global reg) \<Longrightarrow> a < length (reg_heap reg)"
proof -
  from assms have b: "a \<in> set (live_addrs reg) \<Longrightarrow> a < length (reg_heap reg)" for a
    by (simp add: registry_wf_def)
  show "(key, a) \<in> set (reg_host reg) \<Longrightarrow> a < length (reg_heap reg)"
    by (rule b) (auto simp: live_addrs_def intro: rev_image_eqI)
  show "(k, a) \<in> set (reg_global reg) \<Longrightarrow> a < length (reg_heap reg)"
    by (rule b) (auto simp: live_addrs_def intro: rev_image_eqI)
qed

lemma registry_snapshot_wf: "registry_wf reg \<Longrightarrow> registry_wf (snd (registry_snapshot now reg))"
proof -
  assume wf: "registry_wf reg"
  let ?es = "map (\<lambda>(k, a). (([], k), a)) (reg_global reg)"
  let ?r1 = "snd (snapshot_entries now ?es reg)"
  have "a < length (reg_heap reg)" if "(key, a) \<in> set ?es" for key a
    using that live_bound(2) [OF wf] by auto
  then have r1: "registry_wf ?r1" using snapshot_entries_wf [OF wf, of ?es now] by blast
  then have "registry_wf (snd (snapshot_entries now (reg_host ?r1) ?r1))"
    using snapshot_entries_wf live_bound(1) by blast
  then show ?thesis by (simp add: registry_snapshot_def Let_def split_beta)
qed

lemma registry_reset_all_wf: "registry_wf reg \<Longrightarrow> registry_wf (snd (registry_reset_all now reg))"
proof -
  have *: "registry_wf (fold (\<lambda>(_, a). reset_at now a) es r)"
    if "registry_wf r" "\<And>k a. (k, a) \<in> set es \<Longrightarrow> a < length (reg_heap r)"
    for es :: "(renderer_kind \<times> addr) list" and r
    using that
  proof (induction es arbitrary: r)
    case (Cons e es)
    then show ?case
      using reset_at_ok [of r "snd e" now] frame_length [of "{snd e}" r "reset_at now (snd e) r"]
      by (cases e) (auto simp: subset_iff)
  qed simp
  assume wf: "registry_wf reg"
  then have "registry_wf (fold (\<lambda>(_, a). reset_at now a) (reg_global reg) reg)"
    using * live_bound(2) by blast
  then show ?thesis
    by (auto simp: registry_reset_all_def Let_def registry_wf_def live_addrs_def)
qed

lemma reg_evict_wf: "registry_wf reg \<Longrightarrow> registry_wf (reg_evict gone reg)"
proof -
  let ?P = "\<lambda>(key, a). key \<notin> gone"
  assume wf: "registry_wf reg"
  have "set (filter ?P (reg_host reg)) \<subseteq> set (reg_host reg)" by auto
  moreover have "distinct (map snd (filter ?P (reg_host reg)))" "distinct (map fst (filter ?P (reg_host reg)))"
    using wf by (auto simp: registry_wf_def live_addrs_def intro: distinct_map_filter)
  ultimately show ?thesis
    using wf unfolding registry_wf_def live_addrs_def reg_evict_def by (auto 4 4)
qed

subsection \<open>Executions\<close>

datatype registry_op =
    RegAcquire string renderer_kind
  | RegAcquireHostOnly string renderer_kind
  | RegRecord string renderer_kind breaker_outcome
  | RegRecordScoped string renderer_kind "breaker_outcome option" "breaker_outcome option"
  | RegResult string renderer_kind bool
  | RegCancel string renderer_kind
  | RegReset
  | RegSnapshot
  | RegEvict "(string \<times> renderer_kind) set"

fun registry_exec ::
    "(string \<Rightarrow> string option) \<Rightarrow> instant \<times> registry_op \<Rightarrow> breaker_registry \<Rightarrow> breaker_registry option" where
  "registry_exec psl (now, RegAcquire host k) reg = map_option snd (registry_try_acquire psl now host k reg)"
| "registry_exec psl (now, RegAcquireHostOnly host k) reg =
     Some (snd (registry_try_acquire_host_only psl now host k reg))"
| "registry_exec psl (now, RegRecord host k out) reg = registry_record_outcome psl now host k out reg"
| "registry_exec psl (now, RegRecordScoped host k go ho) reg =
     registry_record_scoped_outcome psl now host k go ho reg"
| "registry_exec psl (now, RegResult host k ok) reg = registry_record_result psl now host k ok reg"
| "registry_exec psl (now, RegCancel host k) reg = registry_cancel_probe psl now host k reg"
| "registry_exec psl (now, RegReset) reg = Some (snd (registry_reset_all now reg))"
| "registry_exec psl (now, RegSnapshot) reg = Some (snd (registry_snapshot now reg))"
| "registry_exec psl (now, RegEvict gone) reg = Some (reg_evict gone reg)"

fun op_target :: "registry_op \<Rightarrow> (string \<times> renderer_kind) option" where
  "op_target (RegAcquire host k) = Some (host, k)"
| "op_target (RegAcquireHostOnly host k) = Some (host, k)"
| "op_target (RegRecord host k out) = Some (host, k)"
| "op_target (RegRecordScoped host k go ho) = Some (host, k)"
| "op_target (RegResult host k ok) = Some (host, k)"
| "op_target (RegCancel host k) = Some (host, k)"
| "op_target RegReset = None"
| "op_target RegSnapshot = None"
| "op_target (RegEvict gone) = None"

lemma registry_exec_touches:
  assumes "registry_wf reg" and "op_target x = Some (host, k)"
  shows "\<exists>reg'. registry_exec psl (now, x) reg = Some reg' \<and> touches psl host k reg reg'"
proof (cases x)
  case (RegAcquire host' k')
  then show ?thesis using assms registry_try_acquire_touches [OF assms(1), of psl now host k] by auto
next
  case (RegAcquireHostOnly host' k')
  then show ?thesis using assms registry_try_acquire_host_only_ok [OF assms(1), of psl host k now] by simp
next
  case (RegRecord host' k' out)
  then show ?thesis using assms registry_record_outcome_touches [OF assms(1), of psl now host k out] by simp
next
  case (RegRecordScoped host' k' go ho)
  then show ?thesis using assms registry_record_scoped_touches [OF assms(1), of psl now host k go ho] by simp
next
  case (RegResult host' k' ok)
  then show ?thesis
    using assms registry_record_outcome_touches [OF assms(1), of psl now host k]
    by (simp add: registry_record_result_def)
next
  case (RegCancel host' k')
  then show ?thesis using assms registry_cancel_probe_touches [OF assms(1), of psl now host k] by simp
qed (use assms in simp_all)

lemma registry_exec_ok:
  assumes "registry_wf reg"
  shows "\<exists>reg'. registry_exec psl (now, x) reg = Some reg' \<and> registry_wf reg'"
proof (cases "op_target x")
  case None
  then show ?thesis
    using registry_reset_all_wf [OF assms] registry_snapshot_wf [OF assms] reg_evict_wf [OF assms]
    by (cases x) auto
next
  case (Some key)
  then show ?thesis
    using registry_exec_touches [OF assms, of x "fst key" "snd key" psl now]
    by (auto simp: touches_def)
qed

text \<open>A run of the registry; \<open>None\<close> once an operation panics.\<close>

fun registry_run ::
    "(string \<Rightarrow> string option) \<Rightarrow> (instant \<times> registry_op) list \<Rightarrow> breaker_registry \<Rightarrow>
     breaker_registry option" where
  "registry_run psl [] reg = Some reg"
| "registry_run psl (ev # evs) reg = Option.bind (registry_exec psl ev reg) (registry_run psl evs)"

definition registry_step ::
    "(string \<Rightarrow> string option) \<Rightarrow> instant \<times> registry_op \<Rightarrow> breaker_registry \<Rightarrow> breaker_registry" where
  "registry_step psl ev reg = (case registry_exec psl ev reg of Some reg' \<Rightarrow> reg' | None \<Rightarrow> reg)"

interpretation registry: machine "registry_step psl" registry_wf for psl
proof (unfold_locales, goal_cases)
  case (1 reg ev)
  then show ?case
    using registry_exec_ok [OF 1, of psl "fst ev" "snd ev"] by (auto simp: registry_step_def)
qed

lemma registry_run_ops:
  "registry_wf reg \<Longrightarrow> registry_run psl evs reg = Some (run_ops (registry_step psl) evs reg)"
proof (induction evs arbitrary: reg)
  case (Cons ev evs)
  obtain reg' where "registry_exec psl ev reg = Some reg'" "registry_wf reg'"
    using registry_exec_ok [OF Cons.prems, of psl "fst ev" "snd ev"] by auto
  then show ?case using Cons.IH [of reg'] by (simp add: registry_step_def)
qed simp

subsection \<open>No operation panics, and the structure is kept\<close>

text \<open>
  However the operations interleave, and whatever the cache crate evicts in between, a run
  from a fresh registry never reaches the \<open>unreachable!\<close> of \<open>global_for\<close>; every tier keeps a
  global breaker of its own, no two live keys share a breaker, and every breaker, dropped ones
  included, satisfies the breaker invariant.
\<close>

theorem registry_never_panics:
  "case registry_run psl evs (registry_new cfg t) of
     None \<Rightarrow> False
   | Some reg \<Rightarrow>
       (\<forall>k. global_for k reg \<noteq> None) \<and> distinct (live_addrs reg)
       \<and> list_all (\<lambda>b. inner_inv (reg_config reg) (cb_inner b)) (reg_heap reg)"
proof -
  let ?r = "run_ops (registry_step psl) evs (registry_new cfg t)"
  have "registry_wf ?r" by (rule registry.run_inv) (rule registry_new_wf)
  then show ?thesis
    using registry_run_ops [OF registry_new_wf, of psl evs cfg t] global_for_total [of ?r]
    by (simp add: registry_wf_def list_all_iff)
qed

subsection \<open>Isolation\<close>

lemma map_of_live: "map_of (reg_host reg) key = Some a \<Longrightarrow> a \<in> snd ` set (reg_host reg)"
  by (force dest: map_of_SomeD)

lemma distinct_keys_addrs:
  assumes "distinct (map snd xs)" and "map_of xs k1 = Some a" and "map_of xs k2 = Some a"
  shows "k1 = k2"
  using assms map_of_SomeD [OF assms(2)] map_of_SomeD [OF assms(3)]
  by (metis distinct_map fst_conv inj_onD snd_conv)

lemma addrs_apart:
  assumes "registry_wf reg"
  shows "map_of (reg_host reg) key = Some a \<Longrightarrow> map_of (reg_host reg) key' = Some a \<Longrightarrow> key = key'"
    and "global_for k reg = Some g \<Longrightarrow> global_for k' reg = Some g \<Longrightarrow> k = k'"
    and "global_for k reg = Some g \<Longrightarrow> map_of (reg_host reg) key = Some a \<Longrightarrow> g \<noteq> a"
proof -
  have d: "distinct (map snd (reg_global reg))" "distinct (map snd (reg_host reg))"
    "snd ` set (reg_global reg) \<inter> snd ` set (reg_host reg) = {}"
    using assms by (auto simp: registry_wf_def live_addrs_def)
  show "map_of (reg_host reg) key = Some a \<Longrightarrow> map_of (reg_host reg) key' = Some a \<Longrightarrow> key = key'"
    using distinct_keys_addrs [OF d(2)] .
  show "global_for k reg = Some g \<Longrightarrow> global_for k' reg = Some g \<Longrightarrow> k = k'"
    using distinct_keys_addrs [OF d(1)] unfolding global_for_def .
  show "global_for k reg = Some g \<Longrightarrow> map_of (reg_host reg) key = Some a \<Longrightarrow> g \<noteq> a"
    using d(3) global_for_live map_of_live by (metis disjoint_iff)
qed

text \<open>
  An operation on one host and tier changes no other breaker: the global breakers of the
  other tiers and the breakers of every other (registrable host, tier) pair stay as they are.
\<close>

theorem registry_isolation:
  assumes "registry_wf reg" and "op_target x = Some (host, k)"
    and "registry_exec psl (now, x) reg = Some reg'"
  shows "(k' \<noteq> k \<and> global_for k' reg = Some g \<longrightarrow>
            global_for k' reg' = Some g \<and> inner_at reg' g = inner_at reg g)
    \<and> (key \<noteq> (normalize_host psl host, k) \<and> map_of (reg_host reg) key = Some a \<longrightarrow>
            map_of (reg_host reg') key = Some a \<and> inner_at reg' a = inner_at reg a)"
proof -
  obtain g0 h0 where t: "registry_wf reg'" "global_for k reg = Some g0"
      "map_of (reg_host reg') (normalize_host psl host, k) = Some h0" "frame {g0, h0} reg reg'"
    using registry_exec_touches [OF assms(1,2), of psl now] assms(3) by (auto simp: touches_def)
  have same: "inner_at reg' b = inner_at reg b" if "b < length (reg_heap reg)" "b \<noteq> g0" "b \<noteq> h0" for b
    using t(4) that by (simp add: frame_def)
  note gf = frame_global_for [OF t(4)] and ap = addrs_apart [OF t(1)]
  have glob: "global_for k' reg' = Some g \<and> inner_at reg' g = inner_at reg g"
    if "k' \<noteq> k" "global_for k' reg = Some g"
  proof -
    have "g \<noteq> g0" "g \<noteq> h0" using that t(2,3) gf ap by metis+
    then show ?thesis using same global_for_bound [OF assms(1) that(2)] that gf by metis
  qed
  have host: "map_of (reg_host reg') key = Some a \<and> inner_at reg' a = inner_at reg a"
    if "key \<noteq> (normalize_host psl host, k)" "map_of (reg_host reg) key = Some a"
  proof -
    have "map_of (reg_host reg') key = Some a" using frame_host [OF t(4) that(2)] .
    moreover from this have "a \<noteq> g0" "a \<noteq> h0" using that t(2,3) gf ap by metis+
    moreover have "a < length (reg_heap reg)"
      using live_bound(1) [OF assms(1)] map_of_SomeD [OF that(2)] by blast
    ultimately show ?thesis using same by metis
  qed
  show ?thesis using glob host by blast
qed

theorem registry_isolation_witness:
  "let reg = registry_new demo_config 0;
       reg' = snd (registry_try_acquire_host_only (\<lambda>_. None) 1 ''10.0.0.1'' Http reg)
   in global_for Chrome reg' = Some 2 \<and> inner_at reg' 2 = inner_at reg 2"
proof -
  let ?reg = "registry_new demo_config 0"
  have g: "global_for Chrome ?reg = Some 2"
    by (simp add: global_for_def registry_new_def all_kinds_def upt_rec)
  show ?thesis
    using registry_isolation [OF registry_new_wf, of "RegAcquireHostOnly ''10.0.0.1'' Http"
        "''10.0.0.1''" Http "\<lambda>_. None" 1 demo_config 0 _ Chrome 2] g
    by (simp add: Let_def)
qed

subsection \<open>Guards give back the probe slots they hold\<close>

lemma acquire_cases:
  obtains (allowed) "inner_try_acquire cfg now s = (Allowed, lazy_evaluate cfg now s)"
      "inner_cancel_probe (lazy_evaluate cfg now s) = lazy_evaluate cfg now s"
  | (rejected) "inner_try_acquire cfg now s = (Rejected, lazy_evaluate cfg now s)"
  | (probe) s' where "inner_try_acquire cfg now s = (Probe, s')"
      "inner_cancel_probe s' = lazy_evaluate cfg now s"
proof (cases "bstate (lazy_evaluate cfg now s)")
  case (HalfOpen adm suc fai opened)
  then show ?thesis
    using rejected probe by (cases "adm < max_probes cfg") (auto simp: inner_try_acquire_def inner_cancel_probe_def Let_def)
qed (use allowed rejected in \<open>auto simp: inner_try_acquire_def inner_cancel_probe_def Let_def\<close>)

lemma try_acquire_at_eqs:
  assumes "registry_wf reg" and "a < length (reg_heap reg)" and "try_acquire_at now a reg = (p, reg')"
  shows "p = fst (inner_try_acquire (reg_config reg) now (inner_at reg a))
    \<and> inner_at reg' = (inner_at reg)(a := snd (inner_try_acquire (reg_config reg) now (inner_at reg a)))
    \<and> length (reg_heap reg') = length (reg_heap reg) \<and> reg_config reg' = reg_config reg
    \<and> reg_host reg' = reg_host reg \<and> reg_global reg' = reg_global reg"
proof -
  have "p = fst (try_acquire_at now a reg)" "reg' = snd (try_acquire_at now a reg)" using assms(3) by auto
  then show ?thesis
    using config_at [OF assms(1,2)]
    by (auto simp: try_acquire_at_def fst_on_breaker fun_eq_iff inner_at_on_breaker [OF assms(2)])
qed

lemma inner_at_cancel:
  "a < length (reg_heap reg) \<Longrightarrow>
    inner_at (cancel_probe_at a reg) = (inner_at reg)(a := inner_cancel_probe (inner_at reg a))
    \<and> length (reg_heap (cancel_probe_at a reg)) = length (reg_heap reg)"
  by (auto simp: cancel_probe_at_def inner_at_on_breaker fun_eq_iff)

text \<open>Nothing but the expired timers of the breakers consulted has moved.\<close>

definition only_timers :: "instant \<Rightarrow> breaker_registry \<Rightarrow> breaker_registry \<Rightarrow> bool" where
  "only_timers now reg reg' \<longleftrightarrow>
     (\<forall>a < length (reg_heap reg).
        inner_at reg' a = inner_at reg a
        \<or> inner_at reg' a = lazy_evaluate (reg_config reg) now (inner_at reg a))"

text \<open>The two consultations and the two releases, on the functions from pointers to states.\<close>

lemma consult_and_release:
  assumes "registry_wf reg" and "g < length (reg_heap reg)" and "h < length (reg_heap reg)" and "g \<noteq> h"
    and "try_acquire_at now g reg = (pg, r2)" and "try_acquire_at now h r2 = (ph, r3)"
  shows "pg = Rejected \<longrightarrow> only_timers now reg r2"
    and "pg \<noteq> Rejected \<and> ph = Rejected \<longrightarrow> only_timers now reg (if pg = Probe then cancel_probe_at g r3 else r3)"
    and "pg = Allowed \<and> ph = Allowed \<longrightarrow> only_timers now reg r3"
    and "pg \<noteq> Rejected \<and> ph \<noteq> Rejected \<longrightarrow> only_timers now reg (cancel_probe_at h (cancel_probe_at g r3))"
proof -
  let ?cfg = "reg_config reg" and ?sg = "inner_at reg g" and ?sh = "inner_at reg h"
  have wf2: "registry_wf r2" using try_acquire_at_ok [OF assms(1,2), of now] assms(5) by simp
  note e2 = try_acquire_at_eqs [OF assms(1,2,5)]
  then have h2: "h < length (reg_heap r2)" using assms(3) by simp
  note e3 = try_acquire_at_eqs [OF wf2 h2 assms(6)]
  have cg: "inner_at (cancel_probe_at g r3) = (inner_at r3)(g := inner_cancel_probe (inner_at r3 g))"
    and lg: "length (reg_heap (cancel_probe_at g r3)) = length (reg_heap reg)"
    using inner_at_cancel [of g r3] e2 e3 assms(2) by auto
  have ch: "inner_at (cancel_probe_at h (cancel_probe_at g r3)) =
      (inner_at (cancel_probe_at g r3))(h := inner_cancel_probe (inner_at (cancel_probe_at g r3) h))"
    using inner_at_cancel [of h "cancel_probe_at g r3"] lg assms(3) by auto
  note defs = only_timers_def cg ch e2 e3 assms(4)
  show "pg = Rejected \<longrightarrow> only_timers now reg r2"
    using e2 by (cases rule: acquire_cases [of ?cfg now ?sg]) (auto simp: only_timers_def)
  show "pg \<noteq> Rejected \<and> ph = Rejected \<longrightarrow> only_timers now reg (if pg = Probe then cancel_probe_at g r3 else r3)"
    using e2 e3 assms(4)
    by (cases rule: acquire_cases [of ?cfg now ?sg]; cases rule: acquire_cases [of ?cfg now ?sh])
      (auto simp: only_timers_def cg)
  show "pg = Allowed \<and> ph = Allowed \<longrightarrow> only_timers now reg r3"
    using e2 e3 assms(4)
    by (cases rule: acquire_cases [of ?cfg now ?sg]; cases rule: acquire_cases [of ?cfg now ?sh])
      (auto simp: only_timers_def)
  show "pg \<noteq> Rejected \<and> ph \<noteq> Rejected \<longrightarrow> only_timers now reg (cancel_probe_at h (cancel_probe_at g r3))"
    using e2 e3 assms(4)
    by (cases rule: acquire_cases [of ?cfg now ?sg]; cases rule: acquire_cases [of ?cfg now ?sh])
      (auto simp: only_timers_def cg ch)
qed

lemma host_for_found:
  "map_of (reg_host reg) (normalize_host psl host, k) = Some h \<Longrightarrow> host_for psl now host k reg = (h, reg)"
  by (simp add: host_for_def Let_def)

lemma only_timers_frame:
  "frame {} reg r1 \<Longrightarrow> only_timers now r1 r2 \<Longrightarrow> only_timers now reg r2"
  by (auto simp: only_timers_def frame_def dest: order.strict_trans2)

text \<open>
  A guard that is dropped gives back exactly what its acquisition took: after
  \<open>acquire_with_guard\<close> and the drop of the guard, whatever the permit was, every breaker that
  existed before is as it was, up to a timer that had already expired when it was consulted. A
  guard is armed exactly for a probe, and a disarmed one changes nothing when dropped.
\<close>

theorem probe_guard_conserves:
  assumes "registry_wf reg" and "a < length (reg_heap reg)"
    and "acquire_with_guard psl now host k reg = Some ((p, gd), reg')"
  shows "(inner_at (guard_drop gd reg') a = inner_at reg a
      \<or> inner_at (guard_drop gd reg') a = lazy_evaluate (reg_config reg) now (inner_at reg a))
    \<and> (guard_armed gd \<longleftrightarrow> p = Probe) \<and> guard_drop (guard_disarm gd) reg' = reg'"
proof -
  obtain g where g: "global_for k reg = Some g" using global_for_total [OF assms(1)] by blast
  obtain h r1 where h: "host_for psl now host k reg = (h, r1)" by (metis prod.collapse)
  note mid = host_for_mid [OF assms(1) g frame_refl assms(1) h]
  obtain pg r2 where r2: "try_acquire_at now g r1 = (pg, r2)" by (metis prod.collapse)
  obtain ph r3 where r3: "try_acquire_at now h r2 = (ph, r3)" by (metis prod.collapse)
  have m: "registry_wf r1" "g < length (reg_heap r1)" "h < length (reg_heap r1)" "g \<noteq> h"
    using mid by auto
  have key: "map_of (reg_host r3) (normalize_host psl host, k) = Some h" "global_for k r3 = Some g"
    using host_for_spec [OF assms(1) h] g frame_global_for [of "{}" reg r1 k]
      on_breaker_fields(2,3) [of g _ r1] on_breaker_fields(2,3) [of h _ r2] r2 r3
    unfolding try_acquire_at_def global_for_def by (metis snd_conv)+
  note cr = consult_and_release [OF m r2 r3]
  have "only_timers now r1 (guard_drop gd reg') \<and> (guard_armed gd \<longleftrightarrow> p = Probe)"
    using assms(3) cr g h r2 r3 host_for_found [OF key(1), of now] key(2)
    by (cases pg; cases ph)
      (auto simp: acquire_with_guard_def registry_try_acquire_def Let_def guard_drop_def split: if_splits)
  then show ?thesis
    using only_timers_frame [of reg r1 now "guard_drop gd reg'"] host_for_spec [OF assms(1) h] assms(2)
    by (auto simp: only_timers_def guard_drop_def guard_disarm_def)
qed

text \<open>A registry whose global plain-HTTP breaker is half-open with one probe out.\<close>

definition demo_registry :: breaker_registry where
  "demo_registry =
    \<lparr> reg_config = demo_config,
      reg_global = zip all_kinds [0..<length all_kinds],
      reg_host = [],
      reg_heap = (replicate (length all_kinds) (breaker_new demo_config 0))
        [0 := (breaker_new demo_config 0)\<lparr> cb_inner := (inner_new demo_config 0)\<lparr> bstate := HalfOpen 1 0 0 0 \<rparr> \<rparr>],
      reg_metrics = [] \<rparr>"

lemma demo_registry_wf: "registry_wf demo_registry"
  by (auto simp: registry_wf_def demo_registry_def live_addrs_def all_kinds_def upt_rec replicate_numeral
      breaker_new_def inner_new_inv inner_inv_def inner_new_def demo_config_def)

lemmas registry_eval =
  Let_def global_for_def host_for_def all_kinds_def upt_rec try_acquire_at_def on_breaker_def
  record_outcome_at_def cancel_probe_at_def breaker_new_def replicate_numeral inner_at_def

lemma demo_acquire:
  "\<exists>gd reg'. acquire_with_guard psl 1 host Http demo_registry = Some ((Probe, gd), reg')"
  by (simp add: acquire_with_guard_def registry_try_acquire_def registry_eval demo_registry_def
      breaker_eval)

theorem probe_guard_conserves_witness:
  "\<exists>gd reg'. acquire_with_guard (\<lambda>_. None) 1 ''example.org'' Http demo_registry = Some ((Probe, gd), reg')
     \<and> guard_armed gd
     \<and> bstate (inner_at (guard_drop gd reg') 0) = HalfOpen 1 0 0 0"
proof -
  obtain gd reg' where r: "acquire_with_guard (\<lambda>_. None) 1 ''example.org'' Http demo_registry
      = Some ((Probe, gd), reg')"
    using demo_acquire by blast
  have "0 < length (reg_heap demo_registry)" by (simp add: demo_registry_def all_kinds_def)
  note c = probe_guard_conserves [OF demo_registry_wf this r]
  have "bstate (inner_at demo_registry 0) = HalfOpen 1 0 0 0"
    "bstate (lazy_evaluate (reg_config demo_registry) 1 (inner_at demo_registry 0)) = HalfOpen 1 0 0 0"
    by (simp_all add: demo_registry_def registry_eval breaker_eval)
  with c r show ?thesis by metis
qed

subsection \<open>A release without an acquisition\<close>

lemma host_only_global_unchanged:
  assumes "registry_wf reg" and "global_for k reg = Some g"
    and "registry_try_acquire_host_only psl now host k reg = (p, r1)"
  shows "registry_wf r1 \<and> global_for k r1 = Some g \<and> inner_at r1 g = inner_at reg g"
proof -
  obtain h r0 where h: "host_for psl now host k reg = (h, r0)" by (metis prod.collapse)
  note mid = host_for_mid [OF assms(1,2) frame_refl [of "{}"] assms(1) h]
  have r1: "r1 = snd (try_acquire_at now h r0)"
    using assms(3) h by (simp add: registry_try_acquire_host_only_def)
  then have ok: "registry_wf r1" "frame {h} r0 r1" using try_acquire_at_ok [of r0 h now] mid by auto
  moreover have "frame {h} reg r1" using frame_trans [OF _ ok(2), of "{}" reg] mid by simp
  moreover have "g < length (reg_heap reg)" using global_for_bound [OF assms(1,2)] .
  ultimately show ?thesis
    using mid assms(2) frame_global_for [of "{h}" reg r1] unfolding frame_def by auto
qed

text \<open>
  The path that retries past an open global breaker asks the host breaker only
  (\<open>try_acquire_host_only\<close>) and then records with no global outcome
  (\<open>record_scoped_outcome(.., None, Some(..))\<close>). If the global breaker has become half-open by
  then, that recording takes one of its admitted probes away although the path never took a
  global slot: the probe belongs to another caller that is still running, and the next caller
  is admitted in its place, so more than \<open>max_probes\<close> probes of an episode can be in flight.
\<close>

theorem leak_path_releases_foreign_probe:
  assumes "registry_wf reg" and "global_for k reg = Some g"
    and "bstate (inner_at reg g) = HalfOpen (Suc adm) suc fai opened"
    and "registry_try_acquire_host_only psl now host k reg = (p, r1)"
    and "registry_record_scoped_outcome psl later host k None (Some out) r1 = Some r2"
  shows "bstate (inner_at r2 g) = HalfOpen adm suc fai opened"
proof -
  have r1: "registry_wf r1" "global_for k r1 = Some g" "inner_at r1 g = inner_at reg g"
    using host_only_global_unchanged [OF assms(1,2,4)] by auto
  let ?r0 = "emit_ignored k (ignored_reason out) r1"
  have b: "g < length (reg_heap ?r0)" using global_for_bound [OF r1(1,2)] by simp
  have wfc: "registry_wf (cancel_probe_at g ?r0)"
    using cancel_probe_at_ok [of ?r0 g] b r1(1) by simp
  obtain h r3 where h: "host_for psl later host k (cancel_probe_at g ?r0) = (h, r3)" by (metis prod.collapse)
  have "frame {g} ?r0 (cancel_probe_at g ?r0)" using cancel_probe_at_ok [of ?r0 g] b r1(1) by simp
  then have f: "frame {g} r1 (cancel_probe_at g ?r0)" by simp
  note mid = host_for_mid [OF r1(1,2) f wfc h]
  have fh: "frame {} (cancel_probe_at g ?r0) r3" using host_for_spec [OF wfc h] by blast
  have r2: "r2 = emit_breaker_opened (fst (record_outcome_at later out h r3)) k HostScope host
      (snd (record_outcome_at later out h r3))"
    using assms(5) r1(2) h by (simp add: registry_record_scoped_outcome_def Let_def split_beta)
  have "inner_at r2 g = inner_at (snd (record_outcome_at later out h r3)) g" using r2 by simp
  also have "\<dots> = inner_at r3 g"
    using mid by (simp add: record_outcome_at_def inner_at_on_breaker)
  also have "\<dots> = inner_at (cancel_probe_at g ?r0) g"
    using fh b inner_at_cancel [OF b] by (simp add: frame_def)
  also have "\<dots> = inner_cancel_probe (inner_at reg g)"
    using inner_at_cancel [OF b] r1(3) by simp
  finally show ?thesis using assms(3) by (simp add: inner_cancel_probe_def)
qed

theorem leak_path_releases_foreign_probe_witness:
  "\<exists>p r1 r2. registry_try_acquire_host_only (\<lambda>_. None) 1 ''example.org'' Http demo_registry = (p, r1)
     \<and> registry_record_scoped_outcome (\<lambda>_. None) 2 ''example.org'' Http None (Some Success) r1 = Some r2
     \<and> bstate (inner_at r2 0) = HalfOpen 0 0 0 0"
proof -
  let ?ps = "\<lambda>_. None" and ?h = "''example.org''"
  obtain p r1 where r1: "registry_try_acquire_host_only ?ps 1 ?h Http demo_registry = (p, r1)"
    by (metis prod.collapse)
  have g: "global_for Http demo_registry = Some 0"
    by (simp add: demo_registry_def registry_eval)
  have "registry_wf r1" using host_only_global_unchanged [OF demo_registry_wf g r1] by blast
  from registry_record_scoped_touches [OF this] obtain r2 where
    r2: "registry_record_scoped_outcome ?ps 2 ?h Http None (Some Success) r1 = Some r2" by blast
  have s: "bstate (inner_at demo_registry 0) = HalfOpen (Suc 0) 0 0 0"
    by (simp add: demo_registry_def registry_eval)
  show ?thesis using leak_path_releases_foreign_probe [OF demo_registry_wf g s r1 r2] r1 r2 by blast
qed

end
