(* ===== verification/Keyed_Cache.thy ===== *)
theory Keyed_Cache
  imports Prelude
begin

section \<open>Keyed caches\<close>

text \<open>
  The interface the components rely on when they keep values in a \<open>moka\<close> cache. The crate
  promises that a lookup finds the value inserted last unless the entry has been dropped, and
  that it may drop entries at any time (capacity, time to live, time to idle). The locale
  \<open>keyed_map\<close> states the contract of lookup and insertion, which the ordered maps of the JSON
  crate have too; \<open>keyed_cache\<close> adds the loss of entries. The locales prove once what
  their clients need: a property of all cached values that survives insertion of good values
  survives every history of the cache. The model of a cache is a partial map with the loss of
  entries as an explicit operation.
\<close>

locale keyed_map =
  fixes get :: "'c \<Rightarrow> 'k \<Rightarrow> 'v option"
    and ins :: "'k \<Rightarrow> 'v \<Rightarrow> 'c \<Rightarrow> 'c"
  assumes get_ins: "get (ins k v c) k' = (if k' = k then Some v else get c k')"
begin

text \<open>A sequence of insertions: a key is bound when it was bound or inserted, to a value
  inserted for it if there is one.\<close>

definition ins_all :: "('k \<times> 'v) list \<Rightarrow> 'c \<Rightarrow> 'c" where
  "ins_all kvs c = fold (\<lambda>(k, v). ins k v) kvs c"

lemma get_ins_all: "get (ins_all kvs c) k = (case map_of (rev kvs) k of Some v \<Rightarrow> Some v | None \<Rightarrow> get c k)"
  unfolding ins_all_def by (induction kvs arbitrary: c) (auto simp: get_ins map_add_def split: option.splits)

end

locale keyed_cache = keyed_map get ins
  for get :: "'c \<Rightarrow> 'k \<Rightarrow> 'v option" and ins :: "'k \<Rightarrow> 'v \<Rightarrow> 'c \<Rightarrow> 'c" +
  fixes lose :: "'k set \<Rightarrow> 'c \<Rightarrow> 'c"
  assumes get_lose: "get (lose ks c) k' = (if k' \<in> ks then None else get c k')"
begin

definition all_cached :: "('k \<Rightarrow> 'v \<Rightarrow> bool) \<Rightarrow> 'c \<Rightarrow> bool" where
  "all_cached P c \<longleftrightarrow> (\<forall>k v. get c k = Some v \<longrightarrow> P k v)"

lemma all_cached_ins: "all_cached P c \<Longrightarrow> P k v \<Longrightarrow> all_cached P (ins k v c)"
  by (auto simp: all_cached_def get_ins)

lemma all_cached_lose: "all_cached P c \<Longrightarrow> all_cached P (lose ks c)"
  by (auto simp: all_cached_def get_lose)

lemma all_cached_get: "all_cached P c \<Longrightarrow> get c k = Some v \<Longrightarrow> P k v"
  by (auto simp: all_cached_def)

lemma ins_other: "k' \<noteq> k \<Longrightarrow> get (ins k v c) k' = get c k'"
  by (simp add: get_ins)

text \<open>Read, fall back to a default, change and write back: the other keys do not move.\<close>

definition modify :: "'v \<Rightarrow> ('v \<Rightarrow> 'v) \<Rightarrow> 'k \<Rightarrow> 'c \<Rightarrow> 'c" where
  "modify d f k c = ins k (f (case get c k of Some v \<Rightarrow> v | None \<Rightarrow> d)) c"

lemma get_modify:
  "get (modify d f k c) k' =
    (if k' = k then Some (f (case get c k of Some v \<Rightarrow> v | None \<Rightarrow> d)) else get c k')"
  by (simp add: modify_def get_ins)

lemma all_cached_modify:
  assumes "all_cached P c" and "P k d" and "\<And>v. P k v \<Longrightarrow> P k (f v)"
  shows "all_cached P (modify d f k c)"
  using assms by (auto simp: modify_def all_cached_def get_ins split: option.splits)

end

type_synonym ('k, 'v) cache = "'k \<rightharpoonup> 'v"

definition cache_get :: "('k, 'v) cache \<Rightarrow> 'k \<Rightarrow> 'v option" where
  "cache_get c k = c k"

definition cache_insert :: "'k \<Rightarrow> 'v \<Rightarrow> ('k, 'v) cache \<Rightarrow> ('k, 'v) cache" where
  "cache_insert k v c = c(k \<mapsto> v)"

definition cache_lose :: "'k set \<Rightarrow> ('k, 'v) cache \<Rightarrow> ('k, 'v) cache" where
  "cache_lose ks c = (\<lambda>k. if k \<in> ks then None else c k)"

definition cache_new :: "('k, 'v) cache" where
  "cache_new = Map.empty"

interpretation moka: keyed_cache cache_get cache_insert cache_lose
  by unfold_locales (simp_all add: cache_get_def cache_insert_def cache_lose_def)

lemma cache_get_new [simp]: "cache_get cache_new k = None"
  by (simp add: cache_get_def cache_new_def)

lemma all_cached_new [simp]: "moka.all_cached P cache_new"
  by (simp add: moka.all_cached_def)

end
