(* ===== verification/Preference.thy ===== *)
theory Preference
  imports Keyed_Cache Core_Types Host_Key
begin

section \<open>Renderer preferences per host\<close>

text \<open>
  \<open>RendererStats\<close> and \<open>HostPreferences\<close> of \<open>crates/crw-renderer/src/preference.rs\<close>: a
  sliding window of render failures per registrable host that latches a promotion to Chrome.
  Each host's statistics are behind one mutex, so an operation on them is one step; its clock
  reading is \<open>now\<close>.
\<close>

definition window_cap :: nat where
  "window_cap = 32"

definition window_duration :: duration where
  "window_duration = from_secs (15 * 60)"

definition promotion_threshold :: nat where
  "promotion_threshold = 3"

record window_entry =
  entry_at :: instant
  entry_counts :: bool

record renderer_stats =
  stat_failures :: "window_entry list"
  stat_promoted :: bool

definition stats_new :: renderer_stats where
  "stats_new = \<lparr> stat_failures = [], stat_promoted = False \<rparr>"

definition stats_record_failure ::
    "instant \<Rightarrow> failover_error_kind \<Rightarrow> renderer_stats \<Rightarrow> bool \<times> renderer_stats" where
  "stats_record_failure now kind s =
    (let live = dropWhile (\<lambda>e. window_duration < since now (entry_at e)) (stat_failures s);
         room = (if window_cap \<le> length live then tl live else live);
         fs = room @ [\<lparr> entry_at = now, entry_counts = counts_for_promotion kind \<rparr>]
     in if stat_promoted s then (False, s\<lparr> stat_failures := fs \<rparr>)
        else if promotion_threshold \<le> length (filter entry_counts fs)
        then (True, s\<lparr> stat_failures := fs, stat_promoted := True \<rparr>)
        else (False, s\<lparr> stat_failures := fs \<rparr>))"

definition stats_record_success :: "renderer_stats \<Rightarrow> renderer_stats" where
  "stats_record_success s =
    s\<lparr> stat_promoted := False,
       stat_failures := drop (length (stat_failures s) div 2) (stat_failures s) \<rparr>"

definition is_promoted :: "renderer_stats \<Rightarrow> bool" where
  "is_promoted s = stat_promoted s"

type_synonym host_preferences = "(string, renderer_stats) cache"

definition stats_for :: "string \<Rightarrow> host_preferences \<Rightarrow> renderer_stats" where
  "stats_for host c = (case cache_get c host of Some s \<Rightarrow> s | None \<Rightarrow> stats_new)"

definition prefs_record_failure ::
    "(string \<Rightarrow> string option) \<Rightarrow> instant \<Rightarrow> string \<Rightarrow> failover_error_kind \<Rightarrow> host_preferences \<Rightarrow>
     renderer_kind option \<times> host_preferences" where
  "prefs_record_failure psl now host kind c =
    (let normalized = normalize_host psl host;
         (promoted, s) = stats_record_failure now kind (stats_for normalized c)
     in (if promoted then Some Chrome else None, cache_insert normalized s c))"

definition prefs_record_success ::
    "(string \<Rightarrow> string option) \<Rightarrow> string \<Rightarrow> host_preferences \<Rightarrow> host_preferences" where
  "prefs_record_success psl host c =
    (let normalized = normalize_host psl host
     in cache_insert normalized (stats_record_success (stats_for normalized c)) c)"

definition prefs_preferred ::
    "(string \<Rightarrow> string option) \<Rightarrow> string \<Rightarrow> host_preferences \<Rightarrow> renderer_kind option" where
  "prefs_preferred psl host c =
    (case cache_get c (normalize_host psl host) of
       None \<Rightarrow> None
     | Some s \<Rightarrow> if is_promoted s then Some Chrome else None)"

definition prefs_reset_all :: "host_preferences \<Rightarrow> host_preferences" where
  "prefs_reset_all c = cache_lose UNIV c"

definition prefs_reset_host ::
    "(string \<Rightarrow> string option) \<Rightarrow> string \<Rightarrow> host_preferences \<Rightarrow> host_preferences" where
  "prefs_reset_host psl host c = cache_lose {normalize_host psl host} c"

subsection \<open>The window against its specification\<close>

text \<open>
  The specification keeps the whole history of failures; the code's queue is the newest
  \<open>window_cap\<close> of those younger than \<open>window_duration\<close>.
\<close>

definition recent_live :: "instant \<Rightarrow> window_entry list \<Rightarrow> window_entry list" where
  "recent_live now h =
    (let live = filter (\<lambda>e. since now (entry_at e) \<le> window_duration) h
     in drop (length live - window_cap) live)"

definition chronological :: "window_entry list \<Rightarrow> bool" where
  "chronological h \<longleftrightarrow> sorted_wrt (\<lambda>a b. entry_at a \<le> entry_at b) h"

lemma chronological_dropWhile:
  assumes "chronological h"
  shows "dropWhile (\<lambda>e. window_duration < since now (entry_at e)) h
    = filter (\<lambda>e. since now (entry_at e) \<le> window_duration) h"
  using assms
proof (induction h)
  case (Cons e h)
  then have "\<forall>x \<in> set h. entry_at e \<le> entry_at x" and ch: "chronological h"
    by (auto simp: chronological_def)
  then have "filter (\<lambda>e. since now (entry_at e) \<le> window_duration) h = h"
    if "since now (entry_at e) \<le> window_duration"
    using that by (force simp: since_def intro: filter_True)
  then show ?case using Cons.IH [OF ch] by auto
qed simp

lemma dropWhile_newest:
  assumes "\<forall>x \<in> set (dropWhile D h). \<not> D x"
  shows "dropWhile D (drop (length h - n) h)
    = drop (length (dropWhile D h) - n) (dropWhile D h)"
proof -
  let ?pre = "takeWhile D h" and ?b = "dropWhile D h"
  have h: "h = ?pre @ ?b" by simp
  have d: "drop (length h - n) h = drop (length h - n) ?pre @ drop (length h - n - length ?pre) ?b"
    by (metis drop_append h)
  have len: "length h = length ?pre + length ?b" by (metis h length_append)
  have sub: "\<not> D x" if "x \<in> set (drop m ?b)" for x m using assms that in_set_dropD by metis
  have id: "dropWhile D (drop m ?b) = drop m ?b" for m
    using sub [of _ m] by (cases "drop m ?b") auto
  have "dropWhile D (drop (length h - n) ?pre @ xs) = dropWhile D xs" for xs
    by (rule dropWhile_append2) (metis in_set_dropD set_takeWhileD)
  then show ?thesis unfolding d using id len by simp
qed

lemma recent_live_step:
  assumes "chronological h" and "t \<le> entry_at e"
  shows "(let live = dropWhile (\<lambda>x. window_duration < since (entry_at e) (entry_at x)) (recent_live t h)
      in (if window_cap \<le> length live then tl live else live) @ [e])
    = recent_live (entry_at e) (h @ [e])"
proof -
  let ?now = "entry_at e"
  let ?D = "\<lambda>x. window_duration < since ?now (entry_at x)"
  let ?live = "\<lambda>now. filter (\<lambda>x. since now (entry_at x) \<le> window_duration) h"
  have sub: "?live ?now = filter (\<lambda>x. since ?now (entry_at x) \<le> window_duration) (?live t)"
    using assms(2) by (auto simp: since_def intro!: filter_cong)
  have "chronological (?live t)" using assms(1) by (simp add: chronological_def sorted_wrt_filter)
  then have dw: "dropWhile ?D (?live t) = ?live ?now"
    using chronological_dropWhile sub by simp
  then have r: "dropWhile ?D (recent_live t h) = drop (length (?live ?now) - window_cap) (?live ?now)"
    unfolding recent_live_def Let_def
    using dropWhile_newest [of ?D "?live t" window_cap] by auto
  have "recent_live ?now (h @ [e])
      = drop (length (?live ?now @ [e]) - window_cap) (?live ?now @ [e])"
    by (simp add: recent_live_def Let_def since_def)
  also have "\<dots> = (if length (?live ?now) < window_cap then ?live ?now @ [e]
      else tl (drop (length (?live ?now) - window_cap) (?live ?now)) @ [e])"
    by (rule last_n_snoc) (simp add: window_cap_def)
  finally show ?thesis unfolding r Let_def by (simp add: not_less)
qed

subsection \<open>Runs of failures\<close>

definition failure_entry :: "instant \<times> failover_error_kind \<Rightarrow> window_entry" where
  "failure_entry ev = \<lparr> entry_at = fst ev, entry_counts = counts_for_promotion (snd ev) \<rparr>"

definition stats_after :: "(instant \<times> failover_error_kind) list \<Rightarrow> renderer_stats" where
  "stats_after evs = fold (\<lambda>(now, kind) s. snd (stats_record_failure now kind s)) evs stats_new"

text \<open>What the newest failure of \<open>evs\<close> sees, itself included.\<close>

definition seen_at_last :: "(instant \<times> failover_error_kind) list \<Rightarrow> window_entry list" where
  "seen_at_last evs = (if evs = [] then [] else recent_live (fst (last evs)) (map failure_entry evs))"

definition enough_failures :: "window_entry list \<Rightarrow> bool" where
  "enough_failures w \<longleftrightarrow> promotion_threshold \<le> length (filter entry_counts w)"

lemma stats_after_snoc:
  assumes "sorted (map fst (evs @ [(now, kind)]))" and "stat_failures (stats_after evs) = seen_at_last evs"
  shows "stat_failures (stats_after (evs @ [(now, kind)])) = seen_at_last (evs @ [(now, kind)])
    \<and> fst (stats_record_failure now kind (stats_after evs)) =
        (\<not> stat_promoted (stats_after evs) \<and> enough_failures (seen_at_last (evs @ [(now, kind)])))
    \<and> stat_promoted (stats_after (evs @ [(now, kind)])) =
        (stat_promoted (stats_after evs) \<or> enough_failures (seen_at_last (evs @ [(now, kind)])))"
proof -
  let ?e = "failure_entry (now, kind)" and ?h = "map failure_entry evs"
  let ?t = "if evs = [] then now else fst (last evs)"
  have "chronological ?h"
    using assms(1) by (simp add: chronological_def sorted_wrt_map failure_entry_def sorted_append)
  moreover have "?t \<le> now" using assms(1) by (auto simp: sorted_append)
  moreover have "stat_failures (stats_after evs) = recent_live ?t ?h"
    using assms(2) by (simp add: seen_at_last_def recent_live_def)
  moreover have "entry_at ?e = now" by (simp add: failure_entry_def)
  ultimately have "(let live = dropWhile (\<lambda>x. window_duration < since now (entry_at x))
        (stat_failures (stats_after evs))
      in (if window_cap \<le> length live then tl live else live) @ [?e])
    = seen_at_last (evs @ [(now, kind)])"
    using recent_live_step [of ?h ?t ?e] by (simp add: seen_at_last_def)
  then show ?thesis
    by (simp add: stats_after_def stats_record_failure_def Let_def failure_entry_def enough_failures_def)
qed

lemma stats_after_window:
  "sorted (map fst evs) \<Longrightarrow> stat_failures (stats_after evs) = seen_at_last evs"
proof (induction evs rule: rev_induct)
  case Nil
  then show ?case by (simp add: stats_after_def stats_new_def seen_at_last_def)
next
  case (snoc ev evs)
  moreover from snoc.prems have "sorted (map fst evs)" by (simp add: sorted_append)
  ultimately show ?case using stats_after_snoc by (cases ev) blast
qed

text \<open>
  Promotion follows the recent window: failures recorded on a fresh host at non-decreasing
  times leave it promoted exactly when at some failure, among the newest 32 failures of the
  last 15 minutes (that failure included), at least three were of a kind that counts. Kinds
  that do not count occupy the window all the same.
\<close>

theorem promotion_by_recent_failures:
  assumes "sorted (map fst evs)"
  shows "is_promoted (stats_after evs) \<longleftrightarrow>
      (\<exists>past. prefix past evs \<and> 3 \<le> length (filter entry_counts (seen_at_last past)))"
  using assms
proof (induction evs rule: rev_induct)
  case Nil
  then show ?case by (simp add: is_promoted_def stats_after_def stats_new_def seen_at_last_def)
next
  case (snoc ev evs)
  have "sorted (map fst evs)" using snoc.prems by (simp add: sorted_append)
  then have "is_promoted (stats_after (evs @ [ev])) \<longleftrightarrow>
      is_promoted (stats_after evs) \<or> enough_failures (seen_at_last (evs @ [ev]))"
    using stats_after_snoc [of evs "fst ev" "snd ev"] stats_after_window [of evs] snoc.prems
    by (simp add: is_promoted_def)
  then show ?case
    using snoc.IH [OF \<open>sorted (map fst evs)\<close>]
    by (auto simp: enough_failures_def promotion_threshold_def)
qed

theorem promotion_by_recent_failures_witness:
  "is_promoted (stats_after [(1, EmptyNextRoot), (2, NetworkError), (3, LightpandaCrash), (4, AntibotBlock)])"
proof -
  let ?evs = "[(1 :: nat, EmptyNextRoot), (2, NetworkError), (3, LightpandaCrash), (4, AntibotBlock)]"
  have "3 \<le> length (filter entry_counts (seen_at_last ?evs))"
    by (simp add: seen_at_last_def recent_live_def failure_entry_def counts_for_promotion_def
        window_duration_def from_secs_def since_def window_cap_def Let_def)
  moreover have "sorted (map fst ?evs)" by simp
  ultimately show ?thesis using promotion_by_recent_failures by blast
qed

subsection \<open>Hosts are independent\<close>

datatype prefs_op =
    PrefFailure instant string failover_error_kind
  | PrefSuccess string

fun prefs_step :: "(string \<Rightarrow> string option) \<Rightarrow> prefs_op \<Rightarrow> host_preferences \<Rightarrow> host_preferences" where
  "prefs_step psl (PrefFailure now host kind) c = snd (prefs_record_failure psl now host kind c)"
| "prefs_step psl (PrefSuccess host) c = prefs_record_success psl host c"

fun stats_step :: "prefs_op \<Rightarrow> renderer_stats \<Rightarrow> renderer_stats" where
  "stats_step (PrefFailure now host kind) s = snd (stats_record_failure now kind s)"
| "stats_step (PrefSuccess host) s = stats_record_success s"

fun prefs_host :: "prefs_op \<Rightarrow> string" where
  "prefs_host (PrefFailure now host kind) = host"
| "prefs_host (PrefSuccess host) = host"

definition stats_inv :: "renderer_stats \<Rightarrow> bool" where
  "stats_inv s \<longleftrightarrow> length (stat_failures s) \<le> window_cap"

lemma stats_step_inv: "stats_inv s \<Longrightarrow> stats_inv (stats_step x s)"
proof (cases x)
  case (PrefFailure now host kind)
  assume "stats_inv s"
  moreover have "length (dropWhile (\<lambda>e. window_duration < since now (entry_at e)) (stat_failures s))
      \<le> length (stat_failures s)"
    by (rule length_dropWhile_le)
  ultimately show ?thesis
    using PrefFailure by (auto simp: stats_record_failure_def Let_def stats_inv_def window_cap_def)
qed (auto simp: stats_record_success_def stats_inv_def)

interpretation stats: machine stats_step stats_inv
  by unfold_locales (rule stats_step_inv)

lemma prefs_step_modify:
  "prefs_step psl x c = moka.modify stats_new (stats_step x) (normalize_host psl (prefs_host x)) c"
  by (cases x) (simp_all add: prefs_record_failure_def prefs_record_success_def moka.modify_def
      stats_for_def Let_def split_beta)

lemma prefs_run:
  "stats_for key (run_ops (prefs_step psl) ops c) =
    run_ops stats_step (filter (\<lambda>x. normalize_host psl (prefs_host x) = key) ops) (stats_for key c)"
proof (induction ops arbitrary: c)
  case (Cons x ops)
  have "stats_for key (prefs_step psl x c) =
      (if normalize_host psl (prefs_host x) = key then stats_step x (stats_for key c) else stats_for key c)"
    by (simp add: prefs_step_modify stats_for_def moka.get_modify)
  then show ?case by (simp add: Cons.IH)
qed simp

text \<open>
  What is preferred for a host is decided by the history of its own registrable domain
  alone: after any operations on any hosts, \<open>preferred\<close> answers Chrome exactly when replaying
  the operations on hosts with the same key, on fresh statistics, leaves them promoted; and no
  host's window holds more than 32 entries.
\<close>

theorem preferences_are_per_host:
  "let c = run_ops (prefs_step psl) ops cache_new;
       own = filter (\<lambda>x. normalize_host psl (prefs_host x) = normalize_host psl host) ops;
       s = run_ops stats_step own stats_new
   in prefs_preferred psl host c = (if is_promoted s then Some Chrome else None)
      \<and> length (stat_failures s) \<le> 32 \<and> stats_for (normalize_host psl host) c = s"
proof -
  let ?key = "normalize_host psl host"
  let ?c = "run_ops (prefs_step psl) ops cache_new"
  let ?s = "run_ops stats_step (filter (\<lambda>x. normalize_host psl (prefs_host x) = ?key) ops) stats_new"
  have s: "stats_for ?key ?c = ?s"
    using prefs_run [of ?key psl ops cache_new] by (simp add: stats_for_def)
  have "stats_inv ?s" by (rule stats.run_inv) (simp add: stats_inv_def stats_new_def)
  moreover have "prefs_preferred psl host ?c = (if is_promoted (stats_for ?key ?c) then Some Chrome else None)"
    by (auto simp: prefs_preferred_def stats_for_def is_promoted_def stats_new_def split: option.splits)
  ultimately show ?thesis using s by (simp add: stats_inv_def window_cap_def Let_def)
qed

end
