(* ===== verification/Url_Safety.thy ===== *)
theory Url_Safety
  imports Net_Addr
begin

section \<open>Which destinations may be fetched\<close>

text \<open>
  \<open>crates/crw-core/src/url_safety.rs\<close>: the checks every URL passes before a request is sent.
  A parsed URL (the \<open>url\<close> crate's type) is the record of what the checks read of it; its host
  is ASCII (the crate lower-cases and punycodes the hosts of web URLs), so lower-casing it is
  ASCII lower-casing. DNS is a parameter: what a lookup of a name and port gives. The
  environment variable that switches the destination checks off for tests is the argument
  \<open>test_allow\<close>.
\<close>

unbundle bit_operations_syntax

record url =
  url_text :: string
  url_scheme :: string
  url_host :: "string option"
  url_port :: "nat option"

datatype dns_result = DnsTimedOut | DnsFailed | DnsAnswer "ip_addr list"

type_synonym resolver = "string \<Rightarrow> nat \<Rightarrow> dns_result"

datatype url_error =
    UrlTooLong
  | NullBytes
  | BadScheme
  | NoHost
  | HostDenied
  | AddressDenied ip_addr
  | NoPort
  | ResolveTimedOut
  | ResolveFailed
  | NoAddresses

type_synonym verdict = "url_error + unit"

abbreviation Accepted :: verdict where
  "Accepted \<equiv> Inr ()"

subsection \<open>Address ranges\<close>

definition is_blocked_ipv4 :: "8 word \<Rightarrow> 8 word \<Rightarrow> 8 word \<Rightarrow> 8 word \<Rightarrow> bool" where
  "is_blocked_ipv4 a b c d \<longleftrightarrow>
     a = 127
     \<or> (a = 10 \<or> a = 172 \<and> 16 \<le> b \<and> b \<le> 31 \<or> a = 192 \<and> b = 168)
     \<or> a = 169 \<and> b = 254
     \<or> a = 0 \<and> b = 0 \<and> c = 0 \<and> d = 0
     \<or> a = 255 \<and> b = 255 \<and> c = 255 \<and> d = 255
     \<or> a = 100 \<and> 64 \<le> b \<and> b \<le> 127
     \<or> a = 0
     \<or> 224 \<le> a
     \<or> a = 192 \<and> b = 0 \<and> (c = 0 \<or> c = 2)
     \<or> a = 198 \<and> (b = 18 \<or> b = 19)
     \<or> a = 198 \<and> b = 51 \<and> c = 100
     \<or> a = 203 \<and> b = 0 \<and> c = 113"

text \<open>\<open>Ipv4Addr::from(u32)\<close> followed by the octet tests.\<close>

definition blocked_u32 :: "32 word \<Rightarrow> bool" where
  "blocked_u32 w =
    is_blocked_ipv4 (ucast (drop_bit 24 w)) (ucast (drop_bit 16 w)) (ucast (drop_bit 8 w)) (ucast w)"

definition join_segments :: "16 word \<Rightarrow> 16 word \<Rightarrow> 32 word" where
  "join_segments hi lo = push_bit 16 (ucast hi) OR ucast lo"

text \<open>\<open>Ipv6Addr::to_ipv4\<close>: IPv4-mapped and IPv4-compatible addresses.\<close>

definition to_ipv4 :: "16 word list \<Rightarrow> 32 word option" where
  "to_ipv4 s =
    (if take 5 s = [0, 0, 0, 0, 0] \<and> (s ! 5 = 0 \<or> s ! 5 = 0xffff)
     then Some (join_segments (s ! 6) (s ! 7)) else None)"

definition embedded_ipv4 :: "16 word list \<Rightarrow> 32 word option" where
  "embedded_ipv4 s =
    (if s ! 0 = 0x0064 \<and> s ! 1 = 0xff9b \<and> s ! 2 = 0 \<and> s ! 3 = 0 \<and> s ! 4 = 0 \<and> s ! 5 = 0
     then Some (join_segments (s ! 6) (s ! 7))
     else if s ! 0 = 0x2002 then Some (join_segments (s ! 1) (s ! 2))
     else None)"

fun is_blocked_ip :: "ip_addr \<Rightarrow> bool" where
  "is_blocked_ip (V4 a b c d) = is_blocked_ipv4 a b c d"
| "is_blocked_ip (V6 s) =
    (s = [0, 0, 0, 0, 0, 0, 0, 1]
     \<or> s = [0, 0, 0, 0, 0, 0, 0, 0]
     \<or> (case to_ipv4 s of Some w \<Rightarrow> blocked_u32 w | None \<Rightarrow> False)
     \<or> (case embedded_ipv4 s of Some w \<Rightarrow> blocked_u32 w | None \<Rightarrow> False)
     \<or> s ! 0 = 0x0064 \<and> s ! 1 = 0xff9b \<and> s ! 2 = 0x0001
     \<or> s ! 0 AND 0xffc0 = 0xfe80
     \<or> s ! 0 AND 0xffc0 = 0xfec0
     \<or> s ! 0 AND 0xfe00 = 0xfc00
     \<or> s ! 0 AND 0xff00 = 0xff00
     \<or> s ! 0 AND 0xff00 = 0x0200)"

definition is_blocked_host_name :: "string \<Rightarrow> bool" where
  "is_blocked_host_name host =
    (let host_lower = trim_end_char (CHR ''.'') (to_ascii_lowercase host)
     in host_lower = ''localhost'' \<or> host_lower = ''metadata.google.internal''
        \<or> list_ex (\<lambda>sfx. suffix sfx host_lower)
            [''.localhost'', ''.localtest.me'', ''.lvh.me'', ''.nip.io'', ''.xip.io'', ''.sslip.io''])"

subsection \<open>Checks on URLs\<close>

definition strip_brackets :: "string \<Rightarrow> string" where
  "strip_brackets host = trim_end_char (CHR '']'') (trim_start_char (CHR ''['') host)"

definition validate_safe_host :: "bool \<Rightarrow> url \<Rightarrow> verdict" where
  "validate_safe_host test_allow u =
    (case url_host u of
       None \<Rightarrow> Inl NoHost
     | Some host \<Rightarrow>
         if \<not> test_allow \<and> is_blocked_host_name host then Inl HostDenied
         else
           let literal = (\<lambda>text. if test_allow then None
                 else (case parse_ip_addr text of
                         Some ip \<Rightarrow> if is_blocked_ip ip then Some ip else None
                       | None \<Rightarrow> None))
           in (case literal host of
                 Some ip \<Rightarrow> Inl (AddressDenied ip)
               | None \<Rightarrow>
                   (case literal (strip_brackets host) of
                      Some ip \<Rightarrow> Inl (AddressDenied ip)
                    | None \<Rightarrow> Accepted)))"

definition max_url_length :: nat where
  "max_url_length = 2048"

definition validate_safe_url :: "bool \<Rightarrow> url \<Rightarrow> verdict" where
  "validate_safe_url test_allow u =
    (if max_url_length < length (url_text u) then Inl UrlTooLong
     else if contains_str (url_text u) ''%00'' \<or> CHR 0x00 \<in> set (url_text u) then Inl NullBytes
     else if url_scheme u \<notin> {''http'', ''https''} then Inl BadScheme
     else validate_safe_host test_allow u)"

fun validate_resolved_ips :: "ip_addr list \<Rightarrow> verdict" where
  "validate_resolved_ips [] = Inl NoAddresses"
| "validate_resolved_ips (ip # ips) =
    (if is_blocked_ip ip then Inl (AddressDenied ip)
     else if ips = [] then Accepted
     else validate_resolved_ips ips)"

definition resolve_and_validate :: "resolver \<Rightarrow> bool \<Rightarrow> url \<Rightarrow> verdict" where
  "resolve_and_validate dns test_allow u =
    (if test_allow then Accepted
     else
       (case url_host u of
          None \<Rightarrow> Inl NoHost
        | Some host \<Rightarrow>
            if parse_ip_addr (strip_brackets host) \<noteq> None then Accepted
            else
              (case url_port u of
                 None \<Rightarrow> Inl NoPort
               | Some port \<Rightarrow>
                   (case dns (strip_brackets host) port of
                      DnsTimedOut \<Rightarrow> Inl ResolveTimedOut
                    | DnsFailed \<Rightarrow> Inl ResolveFailed
                    | DnsAnswer ips \<Rightarrow> validate_resolved_ips ips))))"

definition validate_safe_url_resolved :: "resolver \<Rightarrow> bool \<Rightarrow> url \<Rightarrow> verdict" where
  "validate_safe_url_resolved dns test_allow u =
    (case validate_safe_url test_allow u of
       Inl e \<Rightarrow> Inl e
     | Inr _ \<Rightarrow> resolve_and_validate dns test_allow u)"

definition validate_safe_host_resolved :: "resolver \<Rightarrow> bool \<Rightarrow> url \<Rightarrow> verdict" where
  "validate_safe_host_resolved dns test_allow u =
    (case validate_safe_host test_allow u of
       Inl e \<Rightarrow> Inl e
     | Inr _ \<Rightarrow> resolve_and_validate dns test_allow u)"

datatype llm_url_error = InvalidBaseUrl | Unsafe url_error

definition validate_llm_base_url ::
    "(string \<Rightarrow> url option) \<Rightarrow> resolver \<Rightarrow> bool \<Rightarrow> string \<Rightarrow> llm_url_error + unit" where
  "validate_llm_base_url url_parse dns test_allow raw =
    (case url_parse raw of
       None \<Rightarrow> Inl InvalidBaseUrl
     | Some u \<Rightarrow>
         (case validate_safe_url_resolved dns test_allow u of
            Inl e \<Rightarrow> Inl (Unsafe e)
          | Inr _ \<Rightarrow> Inr ()))"

datatype host_rejection = Policy url_error | Unresolved url_error

definition classify_safe_host_resolved :: "resolver \<Rightarrow> bool \<Rightarrow> url \<Rightarrow> host_rejection + unit" where
  "classify_safe_host_resolved dns test_allow u =
    (case validate_safe_host test_allow u of
       Inl e \<Rightarrow> Inl (Policy e)
     | Inr _ \<Rightarrow>
         if test_allow then Inr ()
         else
           (case url_host u of
              None \<Rightarrow> Inl (Policy NoHost)
            | Some host \<Rightarrow>
                if parse_ip_addr (strip_brackets host) \<noteq> None then Inr ()
                else
                  (case url_port u of
                     None \<Rightarrow> Inl (Unresolved NoPort)
                   | Some port \<Rightarrow>
                       (case dns (strip_brackets host) port of
                          DnsTimedOut \<Rightarrow> Inl (Unresolved ResolveTimedOut)
                        | DnsFailed \<Rightarrow> Inl (Unresolved ResolveFailed)
                        | DnsAnswer ips \<Rightarrow>
                            if ips = [] then Inl (Unresolved NoAddresses)
                            else (case validate_resolved_ips ips of
                                    Inl e \<Rightarrow> Inl (Policy e)
                                  | Inr _ \<Rightarrow> Inr ())))))"

text \<open>The blocking variant has no timeout: a lookup that never ends is not a result.\<close>

definition validate_safe_url_blocking_resolved :: "resolver \<Rightarrow> bool \<Rightarrow> url \<Rightarrow> verdict" where
  "validate_safe_url_blocking_resolved lookup test_allow u =
    (case validate_safe_url test_allow u of
       Inl e \<Rightarrow> Inl e
     | Inr _ \<Rightarrow>
         if test_allow then Accepted
         else
           (case url_host u of
              None \<Rightarrow> Inl NoHost
            | Some host \<Rightarrow>
                if parse_ip_addr (strip_brackets host) \<noteq> None then Accepted
                else
                  (case url_port u of
                     None \<Rightarrow> Inl NoPort
                   | Some port \<Rightarrow>
                       (case lookup (strip_brackets host) port of
                          DnsAnswer ips \<Rightarrow> validate_resolved_ips ips
                        | _ \<Rightarrow> Inl ResolveFailed))))"

datatype redirect_action = TooManyRedirects | RedirectBlocked url_error | Follow

definition safe_redirect_policy :: "resolver \<Rightarrow> bool \<Rightarrow> nat \<Rightarrow> url \<Rightarrow> redirect_action" where
  "safe_redirect_policy lookup test_allow previous u =
    (if 10 \<le> previous then TooManyRedirects
     else (case validate_safe_url_blocking_resolved lookup test_allow u of
             Inl e \<Rightarrow> RedirectBlocked e
           | Inr _ \<Rightarrow> Follow))"

end
