(* ===== verification/Url_Safety_Props.thy ===== *)
theory Url_Safety_Props
  imports Url_Safety
begin

section \<open>What the destination checks guarantee\<close>

text \<open>
  The blocked IPv4 addresses as a list of address blocks, the treatment of IPv4 addresses
  embedded in IPv6 ones, and the guarantee of an accepted URL: every address it can lead to is
  outside the blocked ranges.
\<close>

subsection \<open>The IPv4 blocks\<close>

definition v4_value :: "nat \<times> nat \<times> nat \<times> nat \<Rightarrow> nat" where
  "v4_value = (\<lambda>(a, b, c, d). a * 2 ^ 24 + b * 2 ^ 16 + c * 2 ^ 8 + d)"

definition in_block :: "(nat \<times> nat \<times> nat \<times> nat) \<times> nat \<Rightarrow> nat \<Rightarrow> bool" where
  "in_block = (\<lambda>(net, len) v. v div 2 ^ (32 - len) = v4_value net div 2 ^ (32 - len))"

definition blocked_blocks :: "((nat \<times> nat \<times> nat \<times> nat) \<times> nat) list" where
  "blocked_blocks =
    [((0, 0, 0, 0), 8), ((10, 0, 0, 0), 8), ((100, 64, 0, 0), 10), ((127, 0, 0, 0), 8),
     ((169, 254, 0, 0), 16), ((172, 16, 0, 0), 12), ((192, 0, 0, 0), 24), ((192, 0, 2, 0), 24),
     ((192, 168, 0, 0), 16), ((198, 18, 0, 0), 15), ((198, 51, 100, 0), 24),
     ((203, 0, 113, 0), 24), ((224, 0, 0, 0), 3)]"

lemma v4_div:
  assumes "b < 256" and "c < 256" and "d < (256 :: nat)"
  shows "(a * 16777216 + b * 65536 + c * 256 + d) div 16777216 = a"
    and "(a * 16777216 + b * 65536 + c * 256 + d) div 65536 = a * 256 + b"
    and "(a * 16777216 + b * 65536 + c * 256 + d) div 256 = a * 65536 + b * 256 + c"
    and "(a * 16777216 + b * 65536 + c * 256 + d) div 4194304 = a * 4 + b div 64"
    and "(a * 16777216 + b * 65536 + c * 256 + d) div 1048576 = a * 16 + b div 16"
    and "(a * 16777216 + b * 65536 + c * 256 + d) div 131072 = a * 128 + b div 2"
    and "(a * 16777216 + b * 65536 + c * 256 + d) div 536870912 = a div 32"
  using assms by linarith+

lemma digit_eq: "r < k \<Longrightarrow> a * k + r = m \<longleftrightarrow> a = m div k \<and> r = m mod (k :: nat)"
  by auto

lemma octet_facts:
  fixes a b c :: nat
  assumes "a < 256" and "b < 256" and "c < 256"
  shows "a * 4 + b div 64 = 401 \<longleftrightarrow> a = 100 \<and> 64 \<le> b \<and> b \<le> 127"
    and "a * 256 + b = 43518 \<longleftrightarrow> a = 169 \<and> b = 254"
    and "a * 16 + b div 16 = 2753 \<longleftrightarrow> a = 172 \<and> 16 \<le> b \<and> b \<le> 31"
    and "a * 65536 + b * 256 + c = 12582912 \<longleftrightarrow> a = 192 \<and> b = 0 \<and> c = 0"
    and "a * 65536 + b * 256 + c = 12582914 \<longleftrightarrow> a = 192 \<and> b = 0 \<and> c = 2"
    and "a * 256 + b = 49320 \<longleftrightarrow> a = 192 \<and> b = 168"
    and "a * 128 + b div 2 = 25353 \<longleftrightarrow> a = 198 \<and> (b = 18 \<or> b = 19)"
    and "a * 65536 + b * 256 + c = 12989284 \<longleftrightarrow> a = 198 \<and> b = 51 \<and> c = 100"
    and "a * 65536 + b * 256 + c = 13303921 \<longleftrightarrow> a = 203 \<and> b = 0 \<and> c = 113"
    and "a div 32 = 7 \<longleftrightarrow> 224 \<le> a"
proof -
  have three: "a * 65536 + b * 256 + c = m \<longleftrightarrow>
      a = m div 65536 \<and> b = m mod 65536 div 256 \<and> c = m mod 65536 mod 256" for m
  proof -
    have "b * 256 + c < 65536" using assms by linarith
    from digit_eq [OF this, of a m] digit_eq [of c 256 b "m mod 65536"] assms(3)
    show ?thesis by (simp add: add.assoc)
  qed
  show "a * 65536 + b * 256 + c = 12582912 \<longleftrightarrow> a = 192 \<and> b = 0 \<and> c = 0"
    "a * 65536 + b * 256 + c = 12582914 \<longleftrightarrow> a = 192 \<and> b = 0 \<and> c = 2"
    "a * 65536 + b * 256 + c = 12989284 \<longleftrightarrow> a = 198 \<and> b = 51 \<and> c = 100"
    "a * 65536 + b * 256 + c = 13303921 \<longleftrightarrow> a = 203 \<and> b = 0 \<and> c = 113"
    unfolding three by simp_all
  show "a * 256 + b = 43518 \<longleftrightarrow> a = 169 \<and> b = 254" "a * 256 + b = 49320 \<longleftrightarrow> a = 192 \<and> b = 168"
    using digit_eq [OF assms(2), of a] by simp_all
  have "b div 64 = 1 \<longleftrightarrow> 64 \<le> b \<and> b \<le> 127" "b div 16 = 1 \<longleftrightarrow> 16 \<le> b \<and> b \<le> 31"
    "b div 2 = 9 \<longleftrightarrow> b = 18 \<or> b = 19"
    by linarith+
  moreover have "b div 64 < 4" "b div 16 < 16" "b div 2 < 128" using assms(2) by linarith+
  ultimately show "a * 4 + b div 64 = 401 \<longleftrightarrow> a = 100 \<and> 64 \<le> b \<and> b \<le> 127"
    "a * 16 + b div 16 = 2753 \<longleftrightarrow> a = 172 \<and> 16 \<le> b \<and> b \<le> 31"
    "a * 128 + b div 2 = 25353 \<longleftrightarrow> a = 198 \<and> (b = 18 \<or> b = 19)"
    using digit_eq [of "b div 64" 4 a 401] digit_eq [of "b div 16" 16 a 2753]
      digit_eq [of "b div 2" 128 a 25353] by simp_all
  show "a div 32 = 7 \<longleftrightarrow> 224 \<le> a" using assms(1) by linarith
qed

lemma octet_eq: "(x :: 8 word) = y \<longleftrightarrow> unat x = unat y"
  by (rule word_unat_eq_iff)

lemma blocked_ipv4_nat:
  "is_blocked_ipv4 a b c d \<longleftrightarrow>
    (let a = unat a; b = unat b; c = unat c
     in a = 127 \<or> a = 10 \<or> a = 172 \<and> 16 \<le> b \<and> b \<le> 31 \<or> a = 192 \<and> b = 168
        \<or> a = 169 \<and> b = 254 \<or> a = 100 \<and> 64 \<le> b \<and> b \<le> 127 \<or> a = 0 \<or> 224 \<le> a
        \<or> a = 192 \<and> b = 0 \<and> (c = 0 \<or> c = 2) \<or> a = 198 \<and> (b = 18 \<or> b = 19)
        \<or> a = 198 \<and> b = 51 \<and> c = 100 \<or> a = 203 \<and> b = 0 \<and> c = 113)"
proof -
  have e: "a = 0 \<and> b = 0 \<and> c = 0 \<and> d = 0 \<or> a = 255 \<and> b = 255 \<and> c = 255 \<and> d = 255 \<or> P \<or> a = 0 \<or> 224 \<le> a \<or> Q
      \<longleftrightarrow> P \<or> a = 0 \<or> 224 \<le> a \<or> Q" for P Q
    by auto
  show ?thesis
    unfolding is_blocked_ipv4_def e unfolding octet_eq word_le_nat_alt Let_def by simp
qed

lemma in_block_octets:
  assumes "a < 256" and "b < 256" and "c < 256" and "d < (256 :: nat)"
  shows "list_ex (\<lambda>blk. in_block blk (v4_value (a, b, c, d))) blocked_blocks \<longleftrightarrow>
    a = 0 \<or> a = 10 \<or> a = 100 \<and> 64 \<le> b \<and> b \<le> 127 \<or> a = 127 \<or> a = 169 \<and> b = 254
    \<or> a = 172 \<and> 16 \<le> b \<and> b \<le> 31 \<or> a = 192 \<and> b = 0 \<and> c = 0 \<or> a = 192 \<and> b = 0 \<and> c = 2
    \<or> a = 192 \<and> b = 168 \<or> a = 198 \<and> (b = 18 \<or> b = 19) \<or> a = 198 \<and> b = 51 \<and> c = 100
    \<or> a = 203 \<and> b = 0 \<and> c = 113 \<or> 224 \<le> a"
  by (simp add: blocked_blocks_def in_block_def v4_value_def v4_div [OF assms(2-4)]
      octet_facts [OF assms(1-3)])

text \<open>
  The octet tests block exactly the union of thirteen address blocks: the loopback,
  private, link-local, shared, benchmarking, documentation and reserved ranges, and no address
  outside them.
\<close>

theorem blocked_ipv4_is_block_list:
  "is_blocked_ipv4 a b c d \<longleftrightarrow>
     list_ex (\<lambda>blk. in_block blk (v4_value (unat a, unat b, unat c, unat d))) blocked_blocks"
proof -
  have lt: "unat x < 256" for x :: "8 word"
    using unsigned_less [of x] by simp
  show ?thesis
    unfolding blocked_ipv4_nat in_block_octets [OF lt lt lt lt] Let_def by blast
qed

subsection \<open>IPv4 addresses inside IPv6 addresses\<close>

definition segment :: "8 word \<Rightarrow> 8 word \<Rightarrow> 16 word" where
  "segment hi lo = push_bit 8 (ucast hi) OR ucast lo"

lemma segment_hi: "ucast (drop_bit 8 (segment a b)) = a"
  by (rule bit_word_eqI) (auto simp: segment_def bit_simps dest: bit_imp_le_length)

lemma segment_eq_0: "segment a b = 0 \<Longrightarrow> a = 0"
  using segment_hi [of a b] by simp

lemma joined_octets:
  "ucast (drop_bit 24 (join_segments (segment a b) (segment c d))) = a"
  "ucast (drop_bit 16 (join_segments (segment a b) (segment c d))) = b"
  "ucast (drop_bit 8 (join_segments (segment a b) (segment c d))) = c"
  "ucast (join_segments (segment a b) (segment c d)) = d"
  by (rule bit_word_eqI; auto simp: join_segments_def segment_def bit_simps dest: bit_imp_le_length)+

lemma blocked_joined [simp]:
  "blocked_u32 (join_segments (segment a b) (segment c d)) = is_blocked_ipv4 a b c d"
  by (simp add: blocked_u32_def joined_octets)

lemma blocked_zero_net: "is_blocked_ipv4 0 b c d"
  by (simp add: is_blocked_ipv4_def)

text \<open>
  An IPv6 address that carries an IPv4 address is blocked exactly when that address is:
  the IPv4-mapped and IPv4-compatible forms, the NAT64 well-known prefix and 6to4 (whatever
  its lower 80 bits). Public IPv4 destinations stay reachable through a translation prefix.
\<close>

theorem embedded_ipv4_blocked_alike:
  "let x = segment a b; y = segment c d; blocked = is_blocked_ip (V4 a b c d)
   in is_blocked_ip (V6 [0, 0, 0, 0, 0, 0xffff, x, y]) = blocked
    \<and> is_blocked_ip (V6 [0, 0, 0, 0, 0, 0, x, y]) = blocked
    \<and> is_blocked_ip (V6 [0x64, 0xff9b, 0, 0, 0, 0, x, y]) = blocked
    \<and> is_blocked_ip (V6 [0x2002, x, y, p, q, r, s, t]) = blocked"
proof -
  have "segment a b = 0 \<Longrightarrow> is_blocked_ipv4 a b c d"
    using segment_eq_0 blocked_zero_net by blast
  then show ?thesis
    by (auto simp: Let_def to_ipv4_def embedded_ipv4_def)
qed

subsection \<open>Accepted URLs\<close>

text \<open>The addresses a URL leads to: its literal address, or what DNS answers.\<close>

definition destinations :: "resolver \<Rightarrow> url \<Rightarrow> ip_addr list" where
  "destinations dns u =
    (case url_host u of
       None \<Rightarrow> []
     | Some host \<Rightarrow>
         (case parse_ip_addr (strip_brackets host) of
            Some ip \<Rightarrow> [ip]
          | None \<Rightarrow>
              (case url_port u of
                 None \<Rightarrow> []
               | Some port \<Rightarrow>
                   (case dns (strip_brackets host) port of DnsAnswer ips \<Rightarrow> ips | _ \<Rightarrow> []))))"

lemma validate_resolved_ips_ok:
  "validate_resolved_ips ips = Accepted \<longleftrightarrow> ips \<noteq> [] \<and> list_all (\<lambda>ip. \<not> is_blocked_ip ip) ips"
  by (induction ips) auto

lemma resolve_and_validate_ok:
  "resolve_and_validate dns False u = Accepted \<Longrightarrow>
    destinations dns u \<noteq> [] \<and>
    (list_all (\<lambda>ip. \<not> is_blocked_ip ip) (destinations dns u)
     \<or> (\<exists>host ip. url_host u = Some host \<and> parse_ip_addr (strip_brackets host) = Some ip
          \<and> destinations dns u = [ip]))"
  by (auto simp: resolve_and_validate_def destinations_def validate_resolved_ips_ok
      split: option.splits dns_result.splits if_splits)

lemma validate_safe_host_ok:
  assumes "validate_safe_host False u = Accepted"
  shows "\<exists>host. url_host u = Some host \<and> \<not> is_blocked_host_name host
    \<and> (\<forall>ip. parse_ip_addr (strip_brackets host) = Some ip \<longrightarrow> \<not> is_blocked_ip ip)"
  using assms by (auto simp: validate_safe_host_def Let_def split: option.splits if_splits)

lemma accepted_shape:
  assumes "validate_safe_url_resolved dns ta u = Accepted"
  shows "validate_safe_host ta u = Accepted \<and> url_scheme u \<in> {''http'', ''https''}
    \<and> length (url_text u) \<le> 2048 \<and> resolve_and_validate dns ta u = Accepted"
  using assms by (auto simp: validate_safe_url_resolved_def validate_safe_url_def max_url_length_def
      split: sum.splits if_splits)

lemma accepted_destinations:
  assumes "validate_safe_url_resolved dns False u = Accepted"
  shows "destinations dns u \<noteq> [] \<and> list_all (\<lambda>ip. \<not> is_blocked_ip ip) (destinations dns u)"
  using accepted_shape [OF assms] validate_safe_host_ok [of u] resolve_and_validate_ok [of dns u]
  by auto

text \<open>
  C13. When a URL is accepted, it is a web URL of at most 2048 bytes, its host name is not on
  the deny list, it leads to at least one address, and every address it leads to - the
  literal one or each of the resolver's answers - is outside the blocked ranges.
\<close>

theorem accepted_url_is_public:
  assumes "validate_safe_url_resolved dns False u = Accepted"
  shows "destinations dns u \<noteq> [] \<and> list_all (\<lambda>ip. \<not> is_blocked_ip ip) (destinations dns u)
    \<and> url_scheme u \<in> {''http'', ''https''} \<and> length (url_text u) \<le> 2048
    \<and> (\<exists>host. url_host u = Some host \<and> \<not> is_blocked_host_name host)"
  using accepted_destinations [OF assms] accepted_shape [OF assms] validate_safe_host_ok [of u]
  by auto

definition demo_url :: url where
  "demo_url = \<lparr> url_text = ''http://h/'', url_scheme = ''http'', url_host = Some ''h'', url_port = Some 80 \<rparr>"

lemma demo_url_accepted:
  "validate_safe_url_resolved (\<lambda>_ _. DnsAnswer [V4 8 8 8 8, V6 [0x2001, 0xdb8, 0, 0, 0, 0, 0, 1]]) False demo_url
    = Accepted"
  by (simp add: validate_safe_url_resolved_def validate_safe_url_def demo_url_def max_url_length_def
      contains_str_def validate_safe_host_def is_blocked_host_name_def Let_def to_ascii_lowercase_def
      ascii_lower_def trim_end_char_def strip_brackets_def trim_start_char_def parse_eval
      suffix_def resolve_and_validate_def is_blocked_ipv4_def to_ipv4_def embedded_ipv4_def)

theorem accepted_url_is_public_witness:
  "\<exists>host. url_host demo_url = Some host \<and> \<not> is_blocked_host_name host"
  using accepted_url_is_public [OF demo_url_accepted] by blast

subsection \<open>The variants agree\<close>

fun unresolved_error :: "url_error \<Rightarrow> bool" where
  "unresolved_error e = (e \<in> {NoPort, ResolveTimedOut, ResolveFailed, NoAddresses})"

lemma validate_resolved_ips_error:
  "validate_resolved_ips ips = Inl e \<Longrightarrow> ips \<noteq> [] \<Longrightarrow> \<not> unresolved_error e"
  by (induction ips) (auto split: if_splits)

lemma classify_variant:
  "classify_safe_host_resolved dns ta u
     = map_sum (\<lambda>e. if unresolved_error e then Unresolved e else Policy e) id
         (validate_safe_host_resolved dns ta u)"
proof -
  have "\<not> unresolved_error e" if "validate_safe_host ta u = Inl e" for e
    using that by (auto simp: validate_safe_host_def Let_def split: option.splits if_splits)
  then show ?thesis
    using validate_resolved_ips_error
    by (auto simp: classify_safe_host_resolved_def validate_safe_host_resolved_def
        resolve_and_validate_def split: sum.splits option.splits dns_result.splits)
qed

lemma blocking_variant:
  "validate_safe_url_blocking_resolved dns ta u
     = map_sum (\<lambda>e. if e = ResolveTimedOut then ResolveFailed else e) id
         (validate_safe_url_resolved dns ta u)"
proof (cases "validate_safe_url ta u")
  case (Inl e)
  then have "e \<noteq> ResolveTimedOut"
    by (auto simp: validate_safe_url_def validate_safe_host_def Let_def split: option.splits if_splits)
  then show ?thesis
    using Inl by (simp add: validate_safe_url_blocking_resolved_def validate_safe_url_resolved_def)
next
  case (Inr x)
  have ips: "validate_resolved_ips ips \<noteq> Inl ResolveTimedOut" for ips
    by (induction ips) auto
  have "map_sum (\<lambda>e. if e = ResolveTimedOut then ResolveFailed else e) id (validate_resolved_ips ips)
      = validate_resolved_ips ips" for ips
    using ips [of ips] by (cases "validate_resolved_ips ips") auto
  then show ?thesis
    using Inr
    by (simp add: validate_safe_url_blocking_resolved_def validate_safe_url_resolved_def
        resolve_and_validate_def split: option.split dns_result.split)
qed

text \<open>
  The three ways to ask are one policy. \<open>classify_safe_host_resolved\<close> refuses what
  \<open>validate_safe_host_resolved\<close> refuses, and calls a refusal \<open>Unresolved\<close> exactly when the
  destination could not be established (no port, a failed or timed-out lookup, an empty
  answer); the blocking check differs from the asynchronous one only in reporting a timeout
  as a failed lookup.
\<close>

theorem safety_variants_agree:
  "classify_safe_host_resolved dns ta u
     = map_sum (\<lambda>e. if unresolved_error e then Unresolved e else Policy e) id
         (validate_safe_host_resolved dns ta u)
   \<and> validate_safe_url_blocking_resolved dns ta u
     = map_sum (\<lambda>e. if e = ResolveTimedOut then ResolveFailed else e) id
         (validate_safe_url_resolved dns ta u)"
  using classify_variant blocking_variant by blast

subsection \<open>Redirect chains\<close>

text \<open>
  The targets of a chain of redirects that the policy lets through; the HTTP client counts the
  requests made so far (\<open>previous\<close>), the original one included.
\<close>

fun redirects_followed :: "resolver \<Rightarrow> nat \<Rightarrow> url list \<Rightarrow> url list" where
  "redirects_followed lookup previous [] = []"
| "redirects_followed lookup previous (u # us) =
    (case safe_redirect_policy lookup False previous u of
       Follow \<Rightarrow> u # redirects_followed lookup (Suc previous) us
     | _ \<Rightarrow> [])"

lemma follow_accepted:
  assumes "safe_redirect_policy lookup False n u = Follow"
  shows "n < 10 \<and> list_all (\<lambda>ip. \<not> is_blocked_ip ip) (destinations lookup u)"
proof -
  have "n < 10" and "validate_safe_url_blocking_resolved lookup False u = Inr ()"
    using assms by (auto simp: safe_redirect_policy_def split: if_splits sum.splits)
  moreover from this have "validate_safe_url_resolved lookup False u = Accepted"
    using blocking_variant [of lookup False u]
    by (cases "validate_safe_url_resolved lookup False u") auto
  ultimately show ?thesis using accepted_destinations by blast
qed

text \<open>
  However long a chain of redirects a server serves, at most nine are followed, and every
  one followed leads to public addresses only.
\<close>

theorem redirect_chain_is_public:
  "length (redirects_followed lookup 1 us) \<le> 9
   \<and> list_all (\<lambda>u. list_all (\<lambda>ip. \<not> is_blocked_ip ip) (destinations lookup u))
       (redirects_followed lookup 1 us)"
proof -
  have "length (redirects_followed lookup n us) \<le> 10 - n
    \<and> list_all (\<lambda>u. list_all (\<lambda>ip. \<not> is_blocked_ip ip) (destinations lookup u))
       (redirects_followed lookup n us)" for n
  proof (induction us arbitrary: n)
    case (Cons u us)
    show ?case
    proof (cases "safe_redirect_policy lookup False n u")
      case Follow
      then show ?thesis using follow_accepted [OF Follow] Cons.IH [of "Suc n"] by auto
    qed simp_all
  qed simp
  from this [of 1] show ?thesis by simp
qed

end
