(* ===== verification/Robots.thy ===== *)
theory Robots
  imports Rust_Str
begin

section \<open>robots.txt\<close>

text \<open>
  \<open>crates/crw-crawl/src/robots.rs\<close>: fetching, parsing and consulting an origin's
  \<open>robots.txt\<close>, and the bounded body reader \<open>crates/crw-core/src/body.rs\<close> it uses. The HTTP
  client is a parameter: what a request for a URL gives, with its body as the sequence of
  chunks the stream yields. \<open>String::from_utf8_lossy\<close> is the parameter \<open>lossy\<close>.

  Rust's \<open>find\<close> and \<open>starts_with\<close> compare UTF-8 bytes, so positions are byte positions.
\<close>

record robots_rule =
  rule_pattern :: string
  rule_allow :: bool

record robots_txt =
  robots_rules :: "robots_rule list"
  robots_sitemaps :: "string list"

definition robots_empty :: robots_txt where
  "robots_empty = \<lparr> robots_rules = [], robots_sitemaps = [] \<rparr>"

definition robots_product_token :: string where
  "robots_product_token = ''crw''"

definition max_robots_bytes :: nat where
  "max_robots_bytes = 500 * 1024"

subsection \<open>Reading a bounded body\<close>

text \<open>A stream yields chunks and may fail; the outcome is the bytes kept and whether there
  were more.\<close>

fun read_capped_loop :: "nat \<Rightarrow> string \<Rightarrow> ('e + string) list \<Rightarrow> 'e + (string \<times> bool)" where
  "read_capped_loop maxn buf [] = Inr (buf, False)"
| "read_capped_loop maxn buf (Inl e # rest) = Inl e"
| "read_capped_loop maxn buf (Inr chunk # rest) =
    (if maxn - length buf < length chunk
     then Inr (buf @ take (maxn - length buf) chunk, True)
     else read_capped_loop maxn (buf @ chunk) rest)"

definition read_capped :: "nat \<Rightarrow> ('e + string) list \<Rightarrow> 'e + (string \<times> bool)" where
  "read_capped maxn stream = read_capped_loop maxn [] stream"

subsection \<open>Parsing\<close>

definition directive_value :: "string \<Rightarrow> string \<Rightarrow> string option" where
  "directive_value line pre =
    (if length line < length pre then None
     else if \<not> eq_ignore_ascii_case (take (length pre) line) pre then None
     else Some (trim (hd (split_char (CHR ''#'') (trim (drop (length pre) line))))))"

record parse_state =
  p_exact :: "robots_rule list"
  p_wildcard :: "robots_rule list"
  p_sitemaps :: "string list"
  p_group_exact :: bool
  p_group_wildcard :: bool
  p_saw_exact :: bool
  p_agent_run :: bool

definition parse_start :: parse_state where
  "parse_start =
    \<lparr> p_exact = [], p_wildcard = [], p_sitemaps = [], p_group_exact = False,
      p_group_wildcard = False, p_saw_exact = False, p_agent_run = False \<rparr>"

definition parse_agent :: "string \<Rightarrow> parse_state \<Rightarrow> parse_state" where
  "parse_agent agent st0 =
    (let st = (if p_agent_run st0 then st0
               else st0\<lparr> p_group_exact := False, p_group_wildcard := False, p_agent_run := True \<rparr>)
     in if eq_ignore_ascii_case agent robots_product_token
        then st\<lparr> p_group_exact := True, p_saw_exact := True \<rparr>
        else if agent = ''*'' then st\<lparr> p_group_wildcard := True \<rparr>
        else st)"

definition parse_rule :: "robots_rule \<Rightarrow> parse_state \<Rightarrow> parse_state" where
  "parse_rule rule st =
    (if rule_pattern rule = [] then st
     else if p_group_exact st then st\<lparr> p_exact := p_exact st @ [rule] \<rparr>
     else if p_group_wildcard st then st\<lparr> p_wildcard := p_wildcard st @ [rule] \<rparr>
     else st)"

definition parse_line :: "string \<Rightarrow> parse_state \<Rightarrow> parse_state" where
  "parse_line raw st =
    (let line = trim raw
     in if line = [] \<or> prefix ''#'' line then st
        else
          (case directive_value line ''user-agent:'' of
             Some agent \<Rightarrow> parse_agent agent st
           | None \<Rightarrow>
               (case directive_value line ''sitemap:'' of
                  Some url \<Rightarrow> if url = [] then st else st\<lparr> p_sitemaps := p_sitemaps st @ [url] \<rparr>
                | None \<Rightarrow>
                    (let st1 = st\<lparr> p_agent_run := False \<rparr>
                     in case directive_value line ''disallow:'' of
                          Some p \<Rightarrow> parse_rule \<lparr> rule_pattern = p, rule_allow = False \<rparr> st1
                        | None \<Rightarrow>
                            (case directive_value line ''allow:'' of
                               Some p \<Rightarrow> parse_rule \<lparr> rule_pattern = p, rule_allow = True \<rparr> st1
                             | None \<Rightarrow> st1)))))"

definition robots_parse :: "string \<Rightarrow> robots_txt" where
  "robots_parse text =
    (let st = fold parse_line (lines text) parse_start
     in \<lparr> robots_rules = (if p_saw_exact st then p_exact st else p_wildcard st),
          robots_sitemaps = p_sitemaps st \<rparr>)"

subsection \<open>Matching\<close>

definition effective_pattern_len :: "string \<Rightarrow> nat" where
  "effective_pattern_len pattern =
    char_count (filter (\<lambda>c. c \<noteq> CHR ''*'' \<and> c \<noteq> CHR ''$'') pattern)"

text \<open>The segments of a pattern after the first, each looked for after the end of the one before.\<close>

fun match_rest :: "string list \<Rightarrow> string \<Rightarrow> nat \<Rightarrow> nat option" where
  "match_rest [] path pos = Some pos"
| "match_rest (seg # segs) path pos =
    (if seg = [] then match_rest segs path pos
     else (case find_sub seg (drop pos path) of
             Some idx \<Rightarrow> match_rest segs path (pos + idx + length seg)
           | None \<Rightarrow> None))"

definition match_segments :: "string list \<Rightarrow> string \<Rightarrow> nat option" where
  "match_segments segs path =
    (case segs of
       [] \<Rightarrow> Some 0
     | seg # rest \<Rightarrow>
         (if seg = [] then match_rest rest path 0
          else if prefix seg path then match_rest rest path (length seg)
          else None))"

definition matches_pattern :: "string \<Rightarrow> string \<Rightarrow> bool" where
  "matches_pattern path pattern0 =
    (let anchored = suffix ''$'' pattern0;
         pattern = (if anchored then butlast pattern0 else pattern0)
     in if CHR ''*'' \<notin> set pattern then (if anchored then path = pattern else prefix pattern path)
        else (case match_segments (split_char (CHR ''*'') pattern) path of
                None \<Rightarrow> False
              | Some pos \<Rightarrow> if anchored then pos = length path else True))"

text \<open>The loop that keeps the best match: the rule and its length.\<close>

definition consider_rule ::
    "string \<Rightarrow> robots_rule \<Rightarrow> robots_rule option \<times> nat \<Rightarrow> robots_rule option \<times> nat" where
  "consider_rule path rule best =
    (if matches_pattern path (rule_pattern rule)
     then (let len = effective_pattern_len (rule_pattern rule)
           in if snd best < len \<or> len = snd best \<and> rule_allow rule then (Some rule, len) else best)
     else best)"

definition is_allowed :: "robots_rule list \<Rightarrow> string \<Rightarrow> bool" where
  "is_allowed rules path =
    (case fst (fold (consider_rule path) rules (None, 0)) of
       Some rule \<Rightarrow> rule_allow rule
     | None \<Rightarrow> True)"

definition is_url_allowed :: "robots_rule list \<Rightarrow> string \<Rightarrow> string option \<Rightarrow> bool" where
  "is_url_allowed rules path query =
    (case query of
       Some q \<Rightarrow> is_allowed rules (path @ ''?'' @ q)
     | None \<Rightarrow> is_allowed rules path)"

subsection \<open>Fetching\<close>

datatype robots_error = RequestFailed string | BadStatus nat | BodyFailed string

datatype http_reply = SendFailed string | Reply nat "(string + string) list"

definition robots_fetch ::
    "(string \<Rightarrow> http_reply) \<Rightarrow> (string \<Rightarrow> string) \<Rightarrow> string \<Rightarrow> robots_error + robots_txt" where
  "robots_fetch client lossy base_url =
    (case client (trim_end_char (CHR ''/'') base_url @ ''/robots.txt'') of
       SendFailed e \<Rightarrow> Inl (RequestFailed e)
     | Reply status body \<Rightarrow>
         if 400 \<le> status \<and> status < 500 then Inr robots_empty
         else if \<not> (200 \<le> status \<and> status < 300) then Inl (BadStatus status)
         else
           (case read_capped max_robots_bytes body of
              Inl e \<Rightarrow> Inl (BodyFailed e)
            | Inr (bytes, truncated) \<Rightarrow>
                (let kept = (if truncated
                             then take (case rfind_char (\<lambda>c. c = CHR 0x0A) bytes of
                                          Some i \<Rightarrow> i + 1 | None \<Rightarrow> 0) bytes
                             else bytes)
                 in Inr (robots_parse (lossy kept)))))"

end
