(* ===== verification/Robots_Props.thy ===== *)
theory Robots_Props
  imports Robots
begin

section \<open>What the robots.txt rules decide\<close>

text \<open>
  The decision of \<open>is_allowed\<close> as a statement about the set of rules, the pattern language
  against its declarative reading, and what the parser takes from a well-formed file.
\<close>

subsection \<open>The longest match decides\<close>

definition rule_applies :: "string \<Rightarrow> bool \<Rightarrow> nat \<Rightarrow> robots_rule \<Rightarrow> bool" where
  "rule_applies path allow len r \<longleftrightarrow>
     matches_pattern path (rule_pattern r) \<and> rule_allow r = allow
     \<and> len \<le> effective_pattern_len (rule_pattern r)"

text \<open>A disallow rule that has a length and that no allow rule outweighs.\<close>

definition vetoed :: "robots_rule list \<Rightarrow> string \<Rightarrow> robots_rule \<Rightarrow> bool" where
  "vetoed rules path r \<longleftrightarrow>
     rule_applies path False 1 r
     \<and> \<not> list_ex (rule_applies path True (effective_pattern_len (rule_pattern r))) rules"

definition best_so_far :: "string \<Rightarrow> robots_rule list \<Rightarrow> robots_rule option \<times> nat \<Rightarrow> bool" where
  "best_so_far path rules best \<longleftrightarrow>
     (\<forall>r \<in> set rules. matches_pattern path (rule_pattern r) \<longrightarrow>
        effective_pattern_len (rule_pattern r) \<le> snd best)
     \<and> (case fst best of
          None \<Rightarrow> snd best = 0 \<and> \<not> list_ex (rule_applies path True 0) rules
        | Some b \<Rightarrow> b \<in> set rules \<and> matches_pattern path (rule_pattern b)
            \<and> snd best = effective_pattern_len (rule_pattern b)
            \<and> (rule_allow b \<or> 0 < snd best \<and> \<not> list_ex (rule_applies path True (snd best)) rules))"

lemma consider_rule_best:
  assumes "best_so_far path rules best"
  shows "best_so_far path (rules @ [r]) (consider_rule path r best)"
  using assms
  by (cases "fst best") (auto simp: best_so_far_def consider_rule_def rule_applies_def Let_def list_ex_iff)

lemma fold_best: "best_so_far path rules (fold (consider_rule path) rules (None, 0))"
proof (induction rules rule: rev_induct)
  case Nil
  then show ?case by (simp add: best_so_far_def)
next
  case (snoc r rules)
  then show ?case using consider_rule_best by simp
qed

text \<open>
  C30. A path is forbidden exactly when some matching \<open>Disallow\<close> rule of positive effective
  length is not outweighed by a matching \<open>Allow\<close> rule at least as long. The order of the
  rules in the file plays no part.
\<close>

theorem longest_match_decides:
  "is_allowed rules path = (\<not> list_ex (vetoed rules path) rules)"
proof -
  let ?best = "fold (consider_rule path) rules (None, 0)"
  have inv: "best_so_far path rules ?best" by (rule fold_best)
  show ?thesis
  proof (cases "fst ?best")
    case None
    then show ?thesis using inv
      by (fastforce simp: is_allowed_def best_so_far_def vetoed_def rule_applies_def list_ex_iff)
  next
    case (Some b)
    then show ?thesis using inv
      by (fastforce simp: is_allowed_def best_so_far_def vetoed_def rule_applies_def list_ex_iff)
  qed
qed

subsection \<open>The pattern language\<close>

text \<open>
  The declarative reading of a pattern without its final \<open>$\<close>: a star stands for any bytes,
  any other byte for itself; \<open>whole\<close> says that nothing may be left over.
\<close>

fun glob :: "bool \<Rightarrow> string \<Rightarrow> string \<Rightarrow> bool" where
  "glob whole [] s = (\<not> whole \<or> s = [])"
| "glob whole (p # ps) s =
    (if p = CHR ''*'' then (\<exists>k \<le> length s. glob whole ps (drop k s))
     else (case s of [] \<Rightarrow> False | x # xs \<Rightarrow> x = p \<and> glob whole ps xs))"

lemma glob_literal_prefix: "CHR ''*'' \<notin> set p \<Longrightarrow> glob False p s \<longleftrightarrow> prefix p s"
  by (induction p arbitrary: s) (auto split: list.splits)

lemma glob_literal_whole: "CHR ''*'' \<notin> set p \<Longrightarrow> glob True p s \<longleftrightarrow> s = p"
  by (induction p arbitrary: s) (auto split: list.splits)

lemma glob_literal_append:
  "CHR ''*'' \<notin> set p \<Longrightarrow> glob w (p @ q) s \<longleftrightarrow> prefix p s \<and> glob w q (drop (length p) s)"
  by (induction p arbitrary: s) (auto split: list.splits)

text \<open>A pattern is its first segment followed by a star before each further one.\<close>

definition starred :: "string list \<Rightarrow> string" where
  "starred segs = concat (map (\<lambda>seg. CHR ''*'' # seg) segs)"

lemma join_starred: "join_with ''*'' (seg # segs) = seg @ starred segs"
  by (induction segs arbitrary: seg) (auto simp: starred_def)

lemma glob_anywhere: "glob False (starred segs) (drop k s) \<Longrightarrow> k \<le> length s \<Longrightarrow>
    segs \<noteq> [] \<Longrightarrow> glob False (starred segs) s"
proof (cases segs)
  case (Cons seg rest)
  assume "glob False (starred segs) (drop k s)" "k \<le> length s"
  then obtain j where "j \<le> length s - k" "glob False (seg @ starred rest) (drop (k + j) s)"
    using Cons by (auto simp: starred_def add.commute)
  then show ?thesis
    using Cons \<open>k \<le> length s\<close> by (auto simp: starred_def intro!: exI [of _ "k + j"])
qed simp

text \<open>Looking for each segment at its first occurrence loses nothing, because what follows may
  start anywhere later.\<close>

lemma glob_later:
  assumes "glob False (starred segs) (drop j s)" and "i \<le> j" and "j \<le> length s"
  shows "glob False (starred segs) (drop i s)"
proof (cases "segs = []")
  case True
  then show ?thesis by (simp add: starred_def)
next
  case False
  have "drop j s = drop (j - i) (drop i s)" using assms(2) by simp
  then show ?thesis
    using glob_anywhere [of segs "j - i" "drop i s"] assms False by simp
qed

lemma match_rest_glob:
  assumes "list_all (\<lambda>seg. CHR ''*'' \<notin> set seg) segs" and "pos \<le> length path"
  shows "match_rest segs path pos \<noteq> None \<longleftrightarrow> glob False (starred segs) (drop pos path)"
  using assms
proof (induction segs arbitrary: pos)
  case (Cons seg segs)
  have here: "glob False (starred (seg # segs)) (drop pos path) \<longleftrightarrow>
      (\<exists>k. pos \<le> k \<and> k \<le> length path \<and> prefix seg (drop k path)
         \<and> glob False (starred segs) (drop (k + length seg) path))" (is "?L \<longleftrightarrow> ?R")
  proof -
    have "?L \<longleftrightarrow> (\<exists>k \<le> length path - pos. glob False (seg @ starred segs) (drop (k + pos) path))"
      by (simp add: starred_def)
    also have "\<dots> \<longleftrightarrow> (\<exists>k \<le> length path - pos. prefix seg (drop (k + pos) path)
        \<and> glob False (starred segs) (drop (k + pos + length seg) path))"
      using Cons.prems(1) by (simp add: glob_literal_append add.commute add.left_commute)
    also have "\<dots> \<longleftrightarrow> ?R"
    proof
      assume ?R
      then obtain k where "pos \<le> k" "k \<le> length path" "prefix seg (drop k path)"
        "glob False (starred segs) (drop (k + length seg) path)" by blast
      then show "\<exists>k \<le> length path - pos. prefix seg (drop (k + pos) path)
          \<and> glob False (starred segs) (drop (k + pos + length seg) path)"
        by (intro exI [of _ "k - pos"]) auto
    next
      assume "\<exists>k \<le> length path - pos. prefix seg (drop (k + pos) path)
          \<and> glob False (starred segs) (drop (k + pos + length seg) path)"
      then obtain k where "k \<le> length path - pos" "prefix seg (drop (k + pos) path)"
        "glob False (starred segs) (drop (k + pos + length seg) path)" by blast
      then show ?R using Cons.prems(2) by (intro exI [of _ "k + pos"]) simp
    qed
    finally show ?thesis .
  qed
  show ?case
  proof (cases "seg = []")
    case True
    have "glob False (starred (seg # segs)) (drop pos path) \<longleftrightarrow>
        (\<exists>k. pos \<le> k \<and> k \<le> length path \<and> glob False (starred segs) (drop k path))"
      using here True by simp
    also have "\<dots> \<longleftrightarrow> glob False (starred segs) (drop pos path)"
      using glob_later [of segs _ path pos] Cons.prems(2) by blast
    finally show ?thesis using Cons True by simp
  next
    case False
    show ?thesis
    proof (cases "find_sub seg (drop pos path)")
      case None
      have "\<not> prefix seg (drop k path)" if "pos \<le> k" for k
        using find_sub_None [OF None, of "k - pos"] that by simp
      then show ?thesis using here False None by auto
    next
      case (Some i)
      note at = find_sub_Some [OF Some] and least = find_sub_least [OF Some]
      have e: "pos + i + length seg \<le> length path" using at Cons.prems(2) by auto
      have first: "pos + i \<le> k" if "pos \<le> k" "prefix seg (drop k path)" for k
        using least [of "k - pos"] that by (cases "k - pos < i") auto
      have bound: "k + length seg \<le> length path" if "prefix seg (drop k path)" "k \<le> length path" for k
        using prefix_length_le [OF that(1)] that(2) by simp
      have "(\<exists>k. pos \<le> k \<and> k \<le> length path \<and> prefix seg (drop k path)
         \<and> glob False (starred segs) (drop (k + length seg) path)) \<longleftrightarrow>
        glob False (starred segs) (drop (pos + i + length seg) path)"
      proof
        assume "glob False (starred segs) (drop (pos + i + length seg) path)"
        then show "\<exists>k. pos \<le> k \<and> k \<le> length path \<and> prefix seg (drop k path)
            \<and> glob False (starred segs) (drop (k + length seg) path)"
          using at e by (intro exI [of _ "pos + i"]) (simp add: add.commute)
      qed (use first bound glob_later in \<open>metis add_le_mono1\<close>)
      then show ?thesis using here False Some Cons e by simp
    qed
  qed
qed (simp add: starred_def)

text \<open>
  Without an end anchor, the greedy matcher decides the declarative reading of the
  pattern: taking each segment at its first occurrence never misses a match.
\<close>

theorem unanchored_match_is_glob:
  assumes "\<not> suffix ''$'' pattern"
  shows "matches_pattern path pattern = glob False pattern path"
proof (cases "CHR ''*'' \<in> set pattern")
  case False
  then show ?thesis using assms by (simp add: matches_pattern_def Let_def glob_literal_prefix)
next
  case True
  obtain seg segs where s: "split_char (CHR ''*'') pattern = seg # segs"
    using split_char_nonempty by (meson list.exhaust)
  have clean: "CHR ''*'' \<notin> set seg" "list_all (\<lambda>seg. CHR ''*'' \<notin> set seg) segs"
    using split_char_parts [of _ "CHR ''*''" pattern] s by (auto simp: list_all_iff)
  have p: "pattern = seg @ starred segs"
    using join_split_char [of "CHR ''*''" pattern] join_starred [of seg segs] s by simp
  have "matches_pattern path pattern \<longleftrightarrow> match_segments (seg # segs) path \<noteq> None"
    using assms True s by (auto simp: matches_pattern_def Let_def split: option.splits)
  also have "\<dots> \<longleftrightarrow> prefix seg path \<and> glob False (starred segs) (drop (length seg) path)"
    using match_rest_glob [OF clean(2), of "length seg" path] match_rest_glob [OF clean(2), of 0 path]
    by (auto simp: match_segments_def dest: prefix_length_le)
  also have "\<dots> \<longleftrightarrow> glob False pattern path"
    using glob_literal_append [OF clean(1)] p by simp
  finally show ?thesis .
qed

theorem unanchored_match_is_glob_witness:
  "matches_pattern ''/a/b.php?x'' ''/*.php'' = glob False ''/*.php'' ''/a/b.php?x''"
  by (rule unanchored_match_is_glob) (simp add: suffix_def)



subsection \<open>End anchors\<close>

lemma match_rest_sound:
  assumes "list_all (\<lambda>seg. CHR ''*'' \<notin> set seg) segs"
    and "match_rest segs path pos = Some (length path)" and "pos \<le> length path"
  shows "glob True (starred segs) (drop pos path)"
  using assms
proof (induction segs arbitrary: pos)
  case (Cons seg segs)
  have star: "glob True (starred (seg # segs)) (drop pos path) \<longleftrightarrow>
      (\<exists>k \<le> length path - pos. prefix seg (drop (k + pos) path)
         \<and> glob True (starred segs) (drop (k + pos + length seg) path))"
    using Cons.prems(1)
    by (simp add: starred_def glob_literal_append add.commute add.left_commute)
  show ?case
  proof (cases "seg = []")
    case True
    then have "glob True (starred segs) (drop pos path)" using Cons by simp
    then show ?thesis unfolding star using True by (intro exI [of _ 0]) simp
  next
    case False
    then obtain i where i: "find_sub seg (drop pos path) = Some i"
      and m: "match_rest segs path (pos + i + length seg) = Some (length path)"
      using Cons.prems(2) by (auto split: option.splits)
    note at = find_sub_Some [OF i]
    have "pos + i + length seg \<le> length path" using at Cons.prems(3) by auto
    then have "glob True (starred segs) (drop (i + pos + length seg) path)"
      using Cons.IH [OF _ m] Cons.prems(1) by (simp add: add.commute)
    then show ?thesis unfolding star using at by (intro exI [of _ i]) (simp add: add.commute)
  qed
qed (simp add: starred_def)

text \<open>
  An anchored pattern only matches paths that its declarative reading matches in full, so
  an anchored rule never applies to a path it does not describe.
\<close>

theorem anchored_match_is_sound:
  assumes "matches_pattern path (pattern @ ''$'')"
  shows "glob True pattern path"
proof (cases "CHR ''*'' \<in> set pattern")
  case False
  then show ?thesis using assms by (simp add: matches_pattern_def Let_def glob_literal_whole)
next
  case True
  obtain seg segs where s: "split_char (CHR ''*'') pattern = seg # segs"
    using split_char_nonempty by (meson list.exhaust)
  have clean: "CHR ''*'' \<notin> set seg" "list_all (\<lambda>seg. CHR ''*'' \<notin> set seg) segs"
    using split_char_parts [of _ "CHR ''*''" pattern] s by (auto simp: list_all_iff)
  have p: "pattern = seg @ starred segs"
    using join_split_char [of "CHR ''*''" pattern] join_starred [of seg segs] s by simp
  have "match_segments (seg # segs) path = Some (length path)"
    using assms True s by (simp add: matches_pattern_def Let_def split: option.splits)
  then have pre: "prefix seg path" and "match_rest segs path (length seg) = Some (length path)"
    by (auto simp: match_segments_def split: if_splits)
  then have "glob True (starred segs) (drop (length seg) path)"
    using match_rest_sound [OF clean(2)] prefix_length_le [OF pre] by blast
  then show ?thesis using glob_literal_append [OF clean(1)] p pre by simp
qed

lemma suffix_code: "suffix xs ys = (length xs \<le> length ys \<and> drop (length ys - length xs) ys = xs)"
  by (auto simp: suffix_def) (metis append_take_drop_id)

theorem anchored_match_is_sound_witness: "glob True ''/*.php'' ''/x/a.php''"
  by (rule anchored_match_is_sound)
    (simp add: matches_pattern_def match_segments_def Let_def suffix_code)

text \<open>
  The converse fails: the greedy matcher stops at the first occurrence of the last segment
  and then asks for the end of the path, so an anchored rule is not applied to some paths it
  describes. \<open>Disallow: /*.php$\<close> lets \<open>/a.php.php\<close> through, and \<open>Disallow: /a*$\<close>, which
  should forbid everything below \<open>/a\<close>, forbids \<open>/a\<close> alone.
\<close>

lemma anchored_match_is_incomplete:
  "glob True ''/*.php'' ''/a.php.php''
   \<and> is_allowed [\<lparr> rule_pattern = ''/*.php$'', rule_allow = False \<rparr>] ''/a.php.php''
   \<and> glob True ''/a*'' ''/ab''
   \<and> is_allowed [\<lparr> rule_pattern = ''/a*$'', rule_allow = False \<rparr>] ''/ab''"
proof (intro conjI)
  show "glob True ''/*.php'' ''/a.php.php''"
    by (simp) (rule exI [of _ 5], simp)
  show "glob True ''/a*'' ''/ab''"
    by (simp) (rule exI [of _ 1], simp)
  show "is_allowed [\<lparr> rule_pattern = ''/*.php$'', rule_allow = False \<rparr>] ''/a.php.php''"
    by (simp add: is_allowed_def consider_rule_def matches_pattern_def match_segments_def Let_def suffix_code)
  show "is_allowed [\<lparr> rule_pattern = ''/a*$'', rule_allow = False \<rparr>] ''/ab''"
    by (simp add: is_allowed_def consider_rule_def matches_pattern_def match_segments_def Let_def suffix_code)
qed

subsection \<open>What the parser takes from a file\<close>

text \<open>A well-formed file: groups of agent lines followed by rule lines, of printable tokens.\<close>

definition printable :: "char \<Rightarrow> bool" where
  "printable c \<longleftrightarrow> 33 \<le> byte c \<and> byte c \<le> 126 \<and> c \<noteq> CHR ''#''"

definition token :: "string \<Rightarrow> bool" where
  "token s \<longleftrightarrow> s \<noteq> [] \<and> list_all printable s"

record robots_group =
  group_agents :: "string list"
  group_rules :: "robots_rule list"

definition well_formed_group :: "robots_group \<Rightarrow> bool" where
  "well_formed_group g \<longleftrightarrow>
     group_agents g \<noteq> [] \<and> list_all token (group_agents g)
     \<and> group_rules g \<noteq> [] \<and> list_all (\<lambda>r. token (rule_pattern r)) (group_rules g)"

definition agent_line :: "string \<Rightarrow> string" where
  "agent_line a = ''User-agent: '' @ a"

definition rule_line :: "robots_rule \<Rightarrow> string" where
  "rule_line r = (if rule_allow r then ''Allow: '' else ''Disallow: '') @ rule_pattern r"

definition group_lines :: "robots_group \<Rightarrow> string list" where
  "group_lines g = map agent_line (group_agents g) @ map rule_line (group_rules g)"

definition render_robots :: "robots_group list \<Rightarrow> string" where
  "render_robots gs = concat (map (\<lambda>l. l @ [CHR 0x0A]) (concat (map group_lines gs)))"

definition names_us :: "robots_group \<Rightarrow> bool" where
  "names_us g = list_ex (\<lambda>a. eq_ignore_ascii_case a robots_product_token) (group_agents g)"

definition names_all :: "robots_group \<Rightarrow> bool" where
  "names_all g = list_ex (\<lambda>a. a = ''*'') (group_agents g)"

lemma lead_len_first: "list_all (\<lambda>e. e \<noteq> [] \<and> hd e \<noteq> c) es \<Longrightarrow> lead_len es (c # s) = 0"
proof (induction es)
  case (Cons e es)
  then show ?case by (cases e) auto
qed simp

lemma ws_not_printable:
  "list_all (\<lambda>e. e \<noteq> [] \<and> \<not> printable (hd e) \<and> \<not> printable (last e)) ws_encodings"
  by (simp add: ws_encodings_def printable_def byte_def)

lemma lead_len_printable:
  assumes "printable c"
  shows "lead_len ws_encodings (c # s) = 0" and "lead_len (map rev ws_encodings) (c # s) = 0"
  using ws_not_printable assms
  by (auto intro!: lead_len_first simp: list_all_iff hd_rev)

lemma trim_start_printable: "printable c \<Longrightarrow> trim_start (c # s) = c # s"
  by (simp add: trim_start_def strip_front.simps lead_len_printable)

lemma trim_end_printable: "printable c \<Longrightarrow> trim_end (s @ [c]) = s @ [c]"
  by (simp add: trim_end_def strip_front.simps lead_len_printable)

lemma trim_printable:
  assumes "s \<noteq> []" and "printable (hd s)" and "printable (last s)"
  shows "trim s = s"
proof -
  have "trim_start s = s" using assms(1,2) trim_start_printable [of "hd s" "tl s"] by simp
  moreover have "trim_end s = s" using assms(1,3) trim_end_printable [of "last s" "butlast s"] by simp
  ultimately show ?thesis by (simp add: trim_def)
qed

lemma token_trim: "token s \<Longrightarrow> trim s = s"
  by (rule trim_printable) (auto simp: token_def list_all_iff)

lemma trim_space: "trim (CHR 0x20 # s) = trim s"
proof -
  have "lead_len ws_encodings (CHR 0x20 # s) = 1" by (simp add: ws_encodings_def)
  then show ?thesis by (simp add: trim_def trim_start_def strip_front.simps [of _ "CHR 0x20 # s"])
qed

lemma token_no_hash: "token s \<Longrightarrow> split_char (CHR ''#'') s = [s]"
  by (rule split_char_notin) (auto simp: token_def printable_def list_all_iff)

lemma directive_value_line:
  assumes "token v" and "length pre = length name" and "eq_ignore_ascii_case name pre"
  shows "directive_value (name @ CHR 0x20 # v) pre = Some v"
  using assms by (simp add: directive_value_def trim_space token_trim token_no_hash)

lemma directive_value_other:
  "\<not> eq_ignore_ascii_case (take (length pre) line) pre \<Longrightarrow> directive_value line pre = None"
  by (simp add: directive_value_def)

lemma trim_line: "token v \<Longrightarrow> printable c \<Longrightarrow> trim (c # name @ CHR 0x20 # v) = c # name @ CHR 0x20 # v"
  by (rule trim_printable) (auto simp: token_def list_all_iff)

lemmas ascii_eval = char_of_def bit_0 eq_ignore_ascii_case_def to_ascii_lowercase_def ascii_lower_def byte_def chr_of_def

lemma parse_agent_line: "token a \<Longrightarrow> parse_line (agent_line a) st = parse_agent a st"
  using trim_line [of a "CHR ''U''" "''ser-agent:''"]
    directive_value_line [of a "''user-agent:''" "''User-agent:''"]
  by (simp add: parse_line_def agent_line_def printable_def ascii_eval)

lemma parse_rule_line:
  assumes "token (rule_pattern r)"
  shows "parse_line (rule_line r) st = parse_rule r (st\<lparr> p_agent_run := False \<rparr>)"
proof (cases "rule_allow r")
  case True
  then show ?thesis
    using trim_line [of "rule_pattern r" "CHR ''A''" "''llow:''"] assms
      directive_value_line [of "rule_pattern r" "''allow:''" "''Allow:''"]
      directive_value_other [of "''user-agent:''" "''Allow: '' @ rule_pattern r"]
      directive_value_other [of "''sitemap:''" "''Allow: '' @ rule_pattern r"]
      directive_value_other [of "''disallow:''" "''Allow: '' @ rule_pattern r"]
    by (cases r) (simp add: parse_line_def rule_line_def printable_def ascii_eval)
next
  case False
  then show ?thesis
    using trim_line [of "rule_pattern r" "CHR ''D''" "''isallow:''"] assms
      directive_value_line [of "rule_pattern r" "''disallow:''" "''Disallow:''"]
      directive_value_other [of "''user-agent:''" "''Disallow: '' @ rule_pattern r"]
      directive_value_other [of "''sitemap:''" "''Disallow: '' @ rule_pattern r"]
    by (cases r) (simp add: parse_line_def rule_line_def printable_def ascii_eval)
qed

lemma lines_render:
  assumes "list_all (\<lambda>l. CHR 0x0A \<notin> set l \<and> l \<noteq> [] \<and> last l \<noteq> CHR 0x0D) ls"
  shows "lines (concat (map (\<lambda>l. l @ [CHR 0x0A]) ls)) = ls"
proof -
  have sp: "split_char (CHR 0x0A) (concat (map (\<lambda>l. l @ [CHR 0x0A]) ls)) = ls @ [[]]"
    using assms by (induction ls) (auto simp: split_char_append)
  have "map strip_cr ls = ls"
    using assms by (induction ls) (auto simp: strip_cr_def)
  then show ?thesis by (simp add: lines_def sp)
qed

lemma token_chars: "token s \<Longrightarrow> CHR 0x0A \<notin> set s \<and> s \<noteq> [] \<and> last s \<noteq> CHR 0x0D"
proof -
  assume t: "token s"
  then have p: "printable c" if "c \<in> set s" for c using that by (simp add: token_def list_all_iff)
  have "\<not> printable (CHR 0x0A)" "\<not> printable (CHR 0x0D)" by (simp_all add: printable_def byte_def)
  moreover have ne: "s \<noteq> []" using t by (simp add: token_def)
  ultimately show ?thesis using p [of "CHR 0x0A"] p [of "last s"] last_in_set [OF ne] by auto
qed

lemma group_lines_clean:
  assumes "well_formed_group g" and "l \<in> set (group_lines g)"
  shows "CHR 0x0A \<notin> set l \<and> l \<noteq> [] \<and> last l \<noteq> CHR 0x0D"
  using assms token_chars
  by (auto simp: well_formed_group_def group_lines_def agent_line_def rule_line_def list_all_iff
      split: if_splits)

lemma parse_agents:
  "list_all token as \<Longrightarrow> as \<noteq> [] \<Longrightarrow> \<not> p_agent_run st \<Longrightarrow>
   fold parse_line (map agent_line as) st =
     st\<lparr> p_agent_run := True,
         p_group_exact := list_ex (\<lambda>a. eq_ignore_ascii_case a robots_product_token) as,
         p_group_wildcard := list_ex (\<lambda>a. a = ''*'') as,
         p_saw_exact := p_saw_exact st \<or> list_ex (\<lambda>a. eq_ignore_ascii_case a robots_product_token) as \<rparr>"
proof (induction as rule: rev_induct)
  case (snoc a as)
  have star: "\<not> eq_ignore_ascii_case ''*'' robots_product_token"
    by (simp add: robots_product_token_def ascii_eval)
  show ?case
  proof (cases "as = []")
    case True
    then show ?thesis using snoc.prems star
      by (auto simp: parse_agent_line parse_agent_def Let_def)
  next
    case False
    then show ?thesis using snoc star
      by (auto simp: parse_agent_line parse_agent_def Let_def)
  qed
qed simp

lemma parse_rules:
  "list_all (\<lambda>r. token (rule_pattern r)) rs \<Longrightarrow> rs \<noteq> [] \<Longrightarrow>
   fold parse_line (map rule_line rs) st =
     st\<lparr> p_agent_run := False,
         p_exact := p_exact st @ (if p_group_exact st then rs else []),
         p_wildcard := p_wildcard st @ (if \<not> p_group_exact st \<and> p_group_wildcard st then rs else []) \<rparr>"
proof (induction rs arbitrary: st)
  case (Cons r rs)
  then have "rule_pattern r \<noteq> []" by (auto simp: token_def)
  then show ?case
    using Cons by (cases "rs = []") (auto simp: parse_rule_line parse_rule_def)
qed simp

definition rules_for_us :: "robots_group list \<Rightarrow> robots_rule list" where
  "rules_for_us gs = concat (map group_rules (filter names_us gs))"

definition rules_for_all :: "robots_group list \<Rightarrow> robots_rule list" where
  "rules_for_all gs = concat (map group_rules (filter (\<lambda>g. \<not> names_us g \<and> names_all g) gs))"

lemma parse_groups:
  assumes "list_all well_formed_group gs" and "\<not> p_agent_run st"
  shows "let st' = fold parse_line (concat (map group_lines gs)) st
    in p_exact st' = p_exact st @ rules_for_us gs \<and> p_wildcard st' = p_wildcard st @ rules_for_all gs
      \<and> p_saw_exact st' = (p_saw_exact st \<or> list_ex names_us gs) \<and> p_sitemaps st' = p_sitemaps st
      \<and> \<not> p_agent_run st'"
  using assms
proof (induction gs arbitrary: st)
  case Nil
  then show ?case by (simp add: rules_for_us_def rules_for_all_def)
next
  case (Cons g gs)
  then have wf: "well_formed_group g" and "list_all well_formed_group gs" by auto
  let ?st = "fold parse_line (group_lines g) st"
  have "?st = st\<lparr> p_agent_run := False, p_group_exact := names_us g, p_group_wildcard := names_all g,
      p_saw_exact := p_saw_exact st \<or> names_us g,
      p_exact := p_exact st @ (if names_us g then group_rules g else []),
      p_wildcard := p_wildcard st @ (if \<not> names_us g \<and> names_all g then group_rules g else []) \<rparr>"
    using wf Cons.prems(2)
    by (simp add: group_lines_def parse_agents parse_rules well_formed_group_def names_us_def names_all_def)
  then show ?case
    using Cons.IH [of ?st] \<open>list_all well_formed_group gs\<close>
    by (auto simp: Let_def rules_for_us_def rules_for_all_def)
qed

text \<open>
  Parsing a well-formed file gives back the rules that bind this crawler: if any group
  names its product token (in any case), the rules of exactly those groups in file order, else
  the rules of the groups for \<open>*\<close>; a group with several agents counts for each of them, and
  every other group is ignored.
\<close>

theorem parse_selects_our_groups:
  assumes "list_all well_formed_group gs"
  shows "robots_rules (robots_parse (render_robots gs))
    = (if list_ex names_us gs then rules_for_us gs else rules_for_all gs)"
proof -
  have "lines (render_robots gs) = concat (map group_lines gs)"
    unfolding render_robots_def
    by (rule lines_render) (use assms group_lines_clean in \<open>fastforce simp: list_all_iff\<close>)
  then show ?thesis
    using parse_groups [OF assms, of parse_start] by (simp add: robots_parse_def parse_start_def Let_def)
qed

theorem parse_selects_our_groups_witness:
  "robots_rules (robots_parse (render_robots
     [\<lparr> group_agents = [''*''], group_rules = [\<lparr> rule_pattern = ''/'', rule_allow = False \<rparr>] \<rparr>,
      \<lparr> group_agents = [''Bot'', ''CRW''], group_rules = [\<lparr> rule_pattern = ''/x'', rule_allow = False \<rparr>] \<rparr>]))
   = [\<lparr> rule_pattern = ''/x'', rule_allow = False \<rparr>]"
proof -
  let ?gs = "[\<lparr> group_agents = [''*''], group_rules = [\<lparr> rule_pattern = ''/'', rule_allow = False \<rparr>] \<rparr>,
      \<lparr> group_agents = [''Bot'', ''CRW''], group_rules = [\<lparr> rule_pattern = ''/x'', rule_allow = False \<rparr>] \<rparr>]"
  have "list_all well_formed_group ?gs"
    by (simp add: well_formed_group_def token_def printable_def byte_def)
  note p = parse_selects_our_groups [OF this]
  have "names_us (?gs ! 1)" "\<not> names_us (?gs ! 0)"
    by (simp_all add: names_us_def robots_product_token_def ascii_eval)
  then show ?thesis using p by (simp add: rules_for_us_def)
qed

subsection \<open>The bounded body\<close>

lemma read_capped_loop_spec:
  "length buf \<le> maxn \<Longrightarrow> read_capped_loop maxn buf (map Inr chunks) =
     Inr (take maxn (buf @ concat chunks), maxn < length (buf @ concat chunks))"
  by (induction chunks arbitrary: buf) auto

lemma read_capped_spec:
  "read_capped maxn (map Inr chunks) = Inr (take maxn (concat chunks), maxn < length (concat chunks))"
  by (simp add: read_capped_def read_capped_loop_spec)

end
