(* ===== verification/Scrape_Data.thy ===== *)
theory Scrape_Data
  imports Prelude Rust_Str
begin

section \<open>Scraped documents\<close>

text \<open>
  \<open>ScrapeData\<close>, \<open>BlockOutcome\<close> and the crawl progress types of
  \<open>crates/crw-core/src/types.rs\<close>, with the methods that decide what a document is: whether it
  has a body, whether it is an origin error page, whether anything that was asked for was
  delivered. Serialisation attributes and fields no method reads (timings, debug traces,
  billing) are left out; the token usage of model calls is the type parameter.
\<close>

datatype output_format =
    FmtMarkdown | FmtHtml | FmtRawHtml | FmtPlainText | FmtLinks | FmtImages | FmtJson | FmtSummary
  | FmtChangeTracking

definition parse_loose :: "string \<Rightarrow> output_format option" where
  "parse_loose s =
    (if s = ''markdown'' then Some FmtMarkdown
     else if s = ''html'' then Some FmtHtml
     else if s = ''rawHtml'' then Some FmtRawHtml
     else if s = ''plainText'' then Some FmtPlainText
     else if s = ''links'' then Some FmtLinks
     else if s = ''images'' then Some FmtImages
     else if s \<in> {''json'', ''extract'', ''llm-extract''} then Some FmtJson
     else if s = ''summary'' then Some FmtSummary
     else if s \<in> {''changeTracking'', ''change-tracking''} then Some FmtChangeTracking
     else None)"

text \<open>Values of the JSON crate; an object is the list of its members in the crate's order.\<close>

datatype json =
    JNull
  | JBool bool
  | JInt int
  | JFloat rat
  | JString string
  | JArray "json list"
  | JObject "(string \<times> json) list"

record block_outcome =
  block_vendor :: string
  block_reason :: string

definition structural_failure_vendor :: string where
  "structural_failure_vendor = ''structural_failure''"

definition http_error_vendor :: string where
  "http_error_vendor = ''http_error''"

definition parked_domain_vendor :: string where
  "parked_domain_vendor = ''parked_domain''"

definition is_wall :: "block_outcome \<Rightarrow> bool" where
  "is_wall b = (block_vendor b \<noteq> structural_failure_vendor \<and> block_vendor b \<noteq> parked_domain_vendor)"

definition block_message :: "block_outcome \<Rightarrow> string" where
  "block_message b =
    (if block_vendor b = structural_failure_vendor \<or> block_vendor b = parked_domain_vendor
     then ''No usable content could be extracted ('' @ block_reason b @ '')''
     else ''Blocked by anti-bot ('' @ block_vendor b @ ''): '' @ block_reason b)"

text \<open>\<open>FetchResult\<close>; its routing metadata (\<open>render_decision\<close>) is the type parameter.\<close>

record captured_response =
  cap_url :: string
  cap_request_id :: string
  cap_status :: nat
  cap_mime_type :: "string option"
  cap_body :: "string option"
  cap_body_size :: nat

record 'm fetch_result =
  fr_url :: string
  fr_final_url :: "string option"
  fr_status :: nat
  fr_html :: string
  fr_content_type :: "string option"
  fr_raw_bytes :: "string option"
  fr_rendered_with :: "string option"
  fr_elapsed_ms :: nat
  fr_warning :: "string option"
  fr_credit_cost :: nat
  fr_warnings :: "string list"
  fr_truncated :: bool
  fr_deadline_exceeded :: bool
  fr_captured :: "captured_response list"
  fr_wall :: "block_outcome option"
  fr_meta :: 'm

record scraped_image =
  img_url :: string
  img_alt :: "string option"

record chunk_result =
  chunk_content :: string
  chunk_score :: "rat option"
  chunk_index :: nat

record 'u scrape_data =
  sd_markdown :: "string option"
  sd_html :: "string option"
  sd_raw_html :: "string option"
  sd_plain_text :: "string option"
  sd_links :: "string list option"
  sd_images :: "scraped_image list option"
  sd_json :: "json option"
  sd_summary :: "string option"
  sd_llm_usage :: "'u option"
  sd_chunks :: "chunk_result list option"
  sd_warning :: "string option"
  sd_warnings :: "string list"
  sd_source_url :: string
  sd_status :: nat
  sd_content_type :: "string option"
  sd_change_tracking :: bool
  sd_block :: "block_outcome option"

definition scrape_data_default :: "'u scrape_data" where
  "scrape_data_default =
    \<lparr> sd_markdown = None, sd_html = None, sd_raw_html = None, sd_plain_text = None, sd_links = None,
      sd_images = None, sd_json = None, sd_summary = None, sd_llm_usage = None, sd_chunks = None,
      sd_warning = None, sd_warnings = [], sd_source_url = [], sd_status = 0, sd_content_type = None,
      sd_change_tracking = False, sd_block = None \<rparr>"

definition error_page_max_text :: nat where
  "error_page_max_text = 2500"

definition has_body :: "'u scrape_data \<Rightarrow> bool" where
  "has_body d =
    (sd_markdown d \<noteq> None \<or> sd_html d \<noteq> None \<or> sd_raw_html d \<noteq> None \<or> sd_plain_text d \<noteq> None
     \<or> sd_links d \<noteq> None \<or> sd_images d \<noteq> None \<or> sd_json d \<noteq> None \<or> sd_summary d \<noteq> None
     \<or> sd_chunks d \<noteq> None)"

text \<open>The greatest length of the present texts, if any is present.\<close>

definition max_len :: "string option \<Rightarrow> string option \<Rightarrow> nat option" where
  "max_len a b =
    (case a of
       None \<Rightarrow> map_option length b
     | Some x \<Rightarrow> Some (case b of None \<Rightarrow> length x | Some y \<Rightarrow> max (length x) (length y)))"

definition rendered_text_len :: "'u scrape_data \<Rightarrow> nat option" where
  "rendered_text_len d =
    (case max_len (sd_markdown d) (sd_plain_text d) of
       Some n \<Rightarrow> Some n
     | None \<Rightarrow> max_len (sd_html d) (sd_raw_html d))"

definition is_error_page_sized :: "'u scrape_data \<Rightarrow> bool" where
  "is_error_page_sized d =
    (case rendered_text_len d of Some n \<Rightarrow> n < error_page_max_text | None \<Rightarrow> False)"

definition http_error :: "'u scrape_data \<Rightarrow> string option" where
  "http_error d =
    (if (case sd_block d of Some b \<Rightarrow> block_vendor b \<noteq> structural_failure_vendor | None \<Rightarrow> False) then None
     else if sd_status d < 400 then None
     else
       (case rendered_text_len d of
          None \<Rightarrow> None
        | Some n \<Rightarrow>
            if error_page_max_text \<le> n then None
            else (case sd_warning d of
                    Some w \<Rightarrow> Some w
                  | None \<Rightarrow> Some (''Target returned HTTP '' @ dec_digits (sd_status d)))))"

definition selector_matched_nothing :: "'u scrape_data \<Rightarrow> bool" where
  "selector_matched_nothing d = (''selector_no_match'' \<in> set (sd_warnings d))"

definition filled :: "string option \<Rightarrow> bool" where
  "filled s = (case s of Some t \<Rightarrow> trim t \<noteq> [] | None \<Rightarrow> False)"

fun json_delivered :: "json \<Rightarrow> bool" where
  "json_delivered JNull = False"
| "json_delivered (JObject m) = (m \<noteq> [])"
| "json_delivered (JArray a) = (a \<noteq> [])"
| "json_delivered (JString s) = (trim s \<noteq> [])"
| "json_delivered (JInt i) = True"
| "json_delivered (JFloat r) = True"
| "json_delivered (JBool b) = True"

fun format_delivered :: "'u scrape_data \<Rightarrow> output_format \<Rightarrow> bool" where
  "format_delivered d FmtMarkdown = filled (sd_markdown d)"
| "format_delivered d FmtHtml = filled (sd_html d)"
| "format_delivered d FmtRawHtml = filled (sd_raw_html d)"
| "format_delivered d FmtPlainText = filled (sd_plain_text d)"
| "format_delivered d FmtSummary = filled (sd_summary d)"
| "format_delivered d FmtLinks = (sd_links d \<noteq> None)"
| "format_delivered d FmtImages = (sd_images d \<noteq> None)"
| "format_delivered d FmtJson = (case sd_json d of Some v \<Rightarrow> json_delivered v | None \<Rightarrow> False)"
| "format_delivered d FmtChangeTracking = sd_change_tracking d"

definition has_no_content :: "'u scrape_data \<Rightarrow> output_format list \<Rightarrow> bool" where
  "has_no_content d formats =
    (if selector_matched_nothing d then False
     else if formats = [] then False
     else \<not> list_ex (format_delivered d) formats)"

definition clear_body :: "'u scrape_data \<Rightarrow> 'u scrape_data" where
  "clear_body d =
    d\<lparr> sd_markdown := None, sd_html := None, sd_raw_html := None, sd_plain_text := None,
       sd_links := None, sd_images := None, sd_json := None, sd_summary := None, sd_chunks := None \<rparr>"

subsection \<open>Crawl progress\<close>

datatype crawl_status = InProgress | Completed | Failed | Cancelled

record 'u crawl_state =
  cs_success :: bool
  cs_status :: crawl_status
  cs_total :: nat
  cs_completed :: nat
  cs_blocked :: nat
  cs_data :: "'u scrape_data list"
  cs_error :: "string option"

lemma clear_body_has_no_body [simp]: "\<not> has_body (clear_body d)"
  by (simp add: has_body_def clear_body_def)

lemma rendered_text_len_None_iff:
  "rendered_text_len d = None \<longleftrightarrow>
     sd_markdown d = None \<and> sd_plain_text d = None \<and> sd_html d = None \<and> sd_raw_html d = None"
  by (auto simp: rendered_text_len_def max_len_def split: option.splits)

lemma http_error_needs_status: "http_error d \<noteq> None \<Longrightarrow> 400 \<le> sd_status d \<and> is_error_page_sized d"
  by (auto simp: http_error_def is_error_page_sized_def split: option.splits if_splits)

end
