(* ===== verification/Page_Cache.thy ===== *)
theory Page_Cache
  imports Keyed_Cache Scrape_Data
begin

section \<open>The page cache\<close>

text \<open>
  \<open>crates/crw-crawl/src/page_cache.rs\<close>: fetched pages kept for a while, so that a second
  request for the same page skips the network. The cache is the \<open>moka\<close> cache of
  \<open>Keyed_Cache\<close>; the settings, installed once per process, are an argument where they are
  read.
\<close>

definition default_max_age :: duration where
  "default_max_age = from_secs (60 * 60)"

definition max_age_ceiling :: duration where
  "max_age_ceiling = from_secs (24 * 60 * 60)"

definition max_entry_bytes :: nat where
  "max_entry_bytes = 8 * 1024 * 1024"

record page_cache_config =
  pc_enabled :: bool
  pc_capacity_mb :: nat
  pc_default_max_age_ms :: nat

definition page_cache_config_default :: page_cache_config where
  "page_cache_config_default =
    \<lparr> pc_enabled = True, pc_capacity_mb = 256, pc_default_max_age_ms = 60 * 60 * 1000 \<rparr>"

record page_settings =
  ps_enabled :: bool
  ps_capacity_bytes :: nat
  ps_default_max_age :: duration

definition settings_from_config :: "page_cache_config \<Rightarrow> page_settings" where
  "settings_from_config cfg =
    \<lparr> ps_enabled = pc_enabled cfg,
      ps_capacity_bytes = min (max (pc_capacity_mb cfg) 1 * (1024 * 1024)) u64_max,
      ps_default_max_age = min (from_millis (pc_default_max_age_ms cfg)) max_age_ceiling \<rparr>"

text \<open>The process-wide cell that is set at most once.\<close>

definition configure :: "page_cache_config \<Rightarrow> page_settings option \<Rightarrow> page_settings option" where
  "configure cfg cell =
    (case cell of None \<Rightarrow> Some (settings_from_config cfg) | Some s \<Rightarrow> Some s)"

definition settings :: "page_settings option \<Rightarrow> page_settings \<times> page_settings option" where
  "settings cell =
    (case cell of
       Some s \<Rightarrow> (s, cell)
     | None \<Rightarrow>
         (let s = settings_from_config page_cache_config_default in (s, Some s)))"

record 'm cached_page =
  cp_fetched_at :: instant
  cp_budget_bucket :: nat
  cp_result :: "'m fetch_result"

definition budget_bucket :: "nat \<Rightarrow> nat" where
  "budget_bucket remaining_ms =
    (if remaining_ms \<le> 1999 then 0
     else if remaining_ms \<le> 4999 then 1
     else if remaining_ms \<le> 14999 then 2
     else if remaining_ms \<le> 59999 then 3
     else 4)"

record key_inputs =
  ki_url :: string
  ki_render_js :: "bool option"
  ki_wait_for :: "nat option"
  ki_renderer_pin :: "string option"
  ki_user_agent :: string
  ki_may_escalate :: bool

definition key_part :: "string \<Rightarrow> string" where
  "key_part s = dec_digits (length s) @ '':'' @ s @ ''|''"

definition key_values :: "key_inputs \<Rightarrow> string list" where
  "key_values i =
    [ki_url i,
     (case ki_render_js i of Some True \<Rightarrow> ''js=1'' | Some False \<Rightarrow> ''js=0'' | None \<Rightarrow> ''js=auto''),
     (case ki_wait_for i of Some w \<Rightarrow> dec_digits w | None \<Rightarrow> ''''),
     (case ki_renderer_pin i of Some p \<Rightarrow> p | None \<Rightarrow> ''''),
     ki_user_agent i,
     (if ki_may_escalate i then ''esc=1'' else ''esc=0'')]"

definition build_key :: "key_inputs \<Rightarrow> string" where
  "build_key i = concat (map key_part (key_values i))"

definition effective_max_age :: "page_settings \<Rightarrow> nat option \<Rightarrow> duration" where
  "effective_max_age s max_age_ms =
    (if \<not> ps_enabled s then 0
     else (case max_age_ms of
             None \<Rightarrow> ps_default_max_age s
           | Some ms \<Rightarrow> if ms = 0 then 0 else min (from_millis ms) max_age_ceiling))"

definition opt_len :: "string option \<Rightarrow> nat" where
  "opt_len x = (case x of Some s \<Rightarrow> length s | None \<Rightarrow> 0)"

definition entry_bytes :: "string \<Rightarrow> 'm fetch_result \<Rightarrow> nat" where
  "entry_bytes key r =
    length key + length (fr_html r) + opt_len (fr_raw_bytes r)
    + sum_list (map (\<lambda>c. opt_len (cap_body c) + length (cap_url c) + length (cap_request_id c)
        + opt_len (cap_mime_type c)) (fr_captured r))
    + opt_len (fr_final_url r) + opt_len (fr_warning r)
    + sum_list (map length (fr_warnings r))"

type_synonym 'm page_cache = "(string, 'm cached_page) cache"

text \<open>\<open>now\<close> is the clock at the age test, \<open>replay_ms\<close> the time the lookup itself took.\<close>

definition page_lookup ::
    "instant \<Rightarrow> nat \<Rightarrow> string \<Rightarrow> duration \<Rightarrow> nat \<Rightarrow> 'm page_cache \<Rightarrow> 'm fetch_result option" where
  "page_lookup now replay_ms key max_age reader_bucket c =
    (if max_age = 0 then None
     else (case cache_get c key of
             None \<Rightarrow> None
           | Some entry \<Rightarrow>
               if max_age < since now (cp_fetched_at entry) then None
               else if cp_budget_bucket entry < reader_bucket then None
               else Some ((cp_result entry)\<lparr> fr_elapsed_ms := replay_ms \<rparr>)))"

definition page_store ::
    "string \<Rightarrow> 'm fetch_result \<Rightarrow> nat \<Rightarrow> instant \<Rightarrow> 'm page_cache \<Rightarrow> 'm page_cache" where
  "page_store key result bucket fetched_at c =
    (if fr_html result = [] \<and> (case fr_raw_bytes result of None \<Rightarrow> True | Some b \<Rightarrow> b = []) then c
     else if max_entry_bytes < entry_bytes key result then c
     else cache_insert key
            \<lparr> cp_fetched_at = fetched_at, cp_budget_bucket = bucket, cp_result = result \<rparr> c)"

subsection \<open>Keys\<close>

lemma dec_digits_no_colon: "CHR '':'' \<notin> set (dec_digits n)"
proof
  assume "CHR '':'' \<in> set (dec_digits n)"
  then have "is_ascii_digit (CHR '':'')" using dec_digits_all [of n] by (simp add: list_all_iff)
  then show False by (simp add: is_ascii_digit_def byte_def)
qed

lemma first_marker_eq:
  "c \<notin> set a \<Longrightarrow> c \<notin> set b \<Longrightarrow> a @ c # u = b @ c # v \<Longrightarrow> a = b \<and> u = v"
proof (induction a arbitrary: b)
  case Nil
  then show ?case by (cases b) auto
next
  case (Cons x a)
  then show ?case by (cases b) auto
qed

lemma key_part_eq: "key_part s @ u = key_part t @ v \<Longrightarrow> s = t \<and> u = v"
proof -
  assume "key_part s @ u = key_part t @ v"
  then have "dec_digits (length s) @ CHR '':'' # s @ CHR ''|'' # u
      = dec_digits (length t) @ CHR '':'' # t @ CHR ''|'' # v"
    by (simp add: key_part_def)
  from first_marker_eq [OF dec_digits_no_colon dec_digits_no_colon this]
  have "length s = length t" "s @ CHR ''|'' # u = t @ CHR ''|'' # v"
    using dec_digits_inj by auto
  then show ?thesis by simp
qed

lemma key_parts_inj:
  "length xs = length ys \<Longrightarrow> concat (map key_part xs) = concat (map key_part ys) \<Longrightarrow> xs = ys"
proof (induction xs ys rule: list_induct2)
  case (Cons x xs y ys)
  then show ?case using key_part_eq [of x _ y] by auto
qed simp

text \<open>
  Two requests share a cache entry only if they agree in everything that changes what the
  network returns: equal keys mean equal URL, JavaScript mode, wait time, user agent and
  escalation, and equal renderer pins (an absent pin and an empty one being the same). No
  value can be crafted to collide with another field.
\<close>

theorem key_determines_request:
  "build_key i = build_key j \<longleftrightarrow>
     ki_url i = ki_url j \<and> ki_render_js i = ki_render_js j \<and> ki_wait_for i = ki_wait_for j
     \<and> case_option [] id (ki_renderer_pin i) = case_option [] id (ki_renderer_pin j)
     \<and> ki_user_agent i = ki_user_agent j \<and> ki_may_escalate i = ki_may_escalate j"
proof -
  have js: "(case a of Some True \<Rightarrow> ''js=1'' | Some False \<Rightarrow> ''js=0'' | None \<Rightarrow> ''js=auto'')
      = (case b of Some True \<Rightarrow> ''js=1'' | Some False \<Rightarrow> ''js=0'' | None \<Rightarrow> ''js=auto'') \<longleftrightarrow> a = b"
    for a b :: "bool option"
    by (auto split: option.splits bool.splits)
  have wait: "(case a of Some w \<Rightarrow> dec_digits w | None \<Rightarrow> '''') = (case b of Some w \<Rightarrow> dec_digits w | None \<Rightarrow> '''')
      \<longleftrightarrow> a = b" for a b
    by (auto split: option.splits dest: dec_digits_inj) (metis dec_digits_nonempty)
  have pin: "(case a of Some p \<Rightarrow> p | None \<Rightarrow> '''') = case_option [] id a" for a :: "string option"
    by (simp split: option.splits)
  have "build_key i = build_key j \<longleftrightarrow> key_values i = key_values j"
    unfolding build_key_def using key_parts_inj [of "key_values i" "key_values j"]
    by (auto simp: key_values_def)
  then show ?thesis by (simp add: key_values_def js wait pin)
qed

subsection \<open>Ages\<close>

lemma effective_max_age_bound:
  "effective_max_age (settings_from_config cfg) req \<le> max_age_ceiling"
  by (auto simp: effective_max_age_def settings_from_config_def split: option.splits)

lemma effective_max_age_zero:
  "effective_max_age (settings_from_config cfg) req = 0 \<longleftrightarrow>
     \<not> pc_enabled cfg \<or> req = Some 0 \<or> req = None \<and> pc_default_max_age_ms cfg = 0"
  by (auto simp: effective_max_age_def settings_from_config_def from_millis_def max_age_ceiling_def
      from_secs_def min_def split: option.splits)

subsection \<open>What a hit is\<close>

datatype 'm page_op =
    PageStore string "'m fetch_result" nat instant
  | PageLose "string set"

fun page_step :: "'m page_op \<Rightarrow> 'm page_cache \<Rightarrow> 'm page_cache" where
  "page_step (PageStore key r b t) c = page_store key r b t c"
| "page_step (PageLose ks) c = cache_lose ks c"

definition worth_keeping :: "string \<Rightarrow> 'm fetch_result \<Rightarrow> bool" where
  "worth_keeping key r \<longleftrightarrow>
     \<not> (fr_html r = [] \<and> (case fr_raw_bytes r of None \<Rightarrow> True | Some b \<Rightarrow> b = []))
     \<and> entry_bytes key r \<le> max_entry_bytes"

fun keeps :: "string \<Rightarrow> 'm page_op \<Rightarrow> bool" where
  "keeps key (PageStore k r b t) = (k = key \<and> worth_keeping k r)"
| "keeps key (PageLose ks) = False"

lemma page_store_get:
  "cache_get (page_store k r b t c) key =
    (if keeps key (PageStore k r b t)
     then Some \<lparr> cp_fetched_at = t, cp_budget_bucket = b, cp_result = r \<rparr> else cache_get c key)"
  by (auto simp: page_store_def worth_keeping_def moka.get_ins)

lemma run_get:
  "cache_get (run_ops page_step ops cache_new) key = Some e \<Longrightarrow>
   \<exists>past later. ops = past @ PageStore key (cp_result e) (cp_budget_bucket e) (cp_fetched_at e) # later
     \<and> worth_keeping key (cp_result e) \<and> \<not> list_ex (keeps key) later"
proof (induction ops rule: rev_induct)
  case (snoc x ops)
  show ?case
  proof (cases "keeps key x")
    case True
    then obtain r b t where x: "x = PageStore key r b t" "worth_keeping key r"
      by (cases x) auto
    then have "e = \<lparr> cp_fetched_at = t, cp_budget_bucket = b, cp_result = r \<rparr>"
      using snoc.prems by (simp add: run_ops_append page_store_get)
    then show ?thesis using x by (intro exI [of _ ops] exI [of _ "[]"]) simp
  next
    case False
    then have "cache_get (run_ops page_step ops cache_new) key = Some e"
      using snoc.prems
      by (cases x) (auto simp: run_ops_append page_store_get moka.get_lose split: if_splits)
    then obtain past later where
      "ops = past @ PageStore key (cp_result e) (cp_budget_bucket e) (cp_fetched_at e) # later"
      "worth_keeping key (cp_result e)" "\<not> list_ex (keeps key) later"
      using snoc.IH by blast
    then show ?thesis
      using False by (intro exI [of _ past] exI [of _ "later @ [x]"]) simp
  qed
qed simp

text \<open>
  Freshness is per reader. Whatever was stored and dropped before, a hit returns the page
  stored last under the key (with its own replay time), that page has content and at most
  8 MiB, it was fetched no longer ago than the reader's own limit and never more than 24 hours
  ago, and under a time budget at least as large as the reader's.
\<close>

theorem hit_is_fresh_enough:
  assumes "page_lookup now replay_ms key (effective_max_age (settings_from_config cfg) req) reader
      (run_ops page_step ops cache_new) = Some hit"
  shows "\<exists>r b t past later. ops = past @ PageStore key r b t # later
    \<and> \<not> list_ex (keeps key) later \<and> worth_keeping key r
    \<and> hit = r\<lparr> fr_elapsed_ms := replay_ms \<rparr> \<and> reader \<le> b
    \<and> since now t \<le> effective_max_age (settings_from_config cfg) req \<and> since now t \<le> from_secs (24 * 60 * 60)
    \<and> pc_enabled cfg \<and> req \<noteq> Some 0"
proof -
  let ?age = "effective_max_age (settings_from_config cfg) req"
  obtain e where e: "cache_get (run_ops page_step ops cache_new) key = Some e" "?age \<noteq> 0"
      "since now (cp_fetched_at e) \<le> ?age" "reader \<le> cp_budget_bucket e"
      "hit = (cp_result e)\<lparr> fr_elapsed_ms := replay_ms \<rparr>"
    using assms by (auto simp: page_lookup_def not_less split: option.splits if_splits)
  have "since now (cp_fetched_at e) \<le> from_secs (24 * 60 * 60)"
    using e(3) effective_max_age_bound [of cfg req] by (simp add: max_age_ceiling_def)
  moreover have "pc_enabled cfg \<and> req \<noteq> Some 0" using e(2) effective_max_age_zero [of cfg req] by auto
  ultimately show ?thesis using run_get [OF e(1)] e(3-5) by blast
qed

definition demo_page :: "unit fetch_result" where
  "demo_page = \<lparr> fr_url = ''u'', fr_final_url = None, fr_status = 200, fr_html = ''<p>'',
     fr_content_type = None, fr_raw_bytes = None, fr_rendered_with = None, fr_elapsed_ms = 900,
     fr_warning = None, fr_credit_cost = 1, fr_warnings = [], fr_truncated = False,
     fr_deadline_exceeded = False, fr_captured = [], fr_wall = None, fr_meta = () \<rparr>"

theorem hit_is_fresh_enough_witness:
  "\<exists>hit. page_lookup (from_secs 50) 1 ''k''
       (effective_max_age (settings_from_config page_cache_config_default) (Some 60000)) 2
       (run_ops page_step [PageStore ''k'' demo_page 3 (from_secs 10)] cache_new) = Some hit
     \<and> since (from_secs 50) (from_secs 10) \<le> from_secs 60"
proof -
  have e: "effective_max_age (settings_from_config page_cache_config_default) (Some 60000) = from_secs 60"
    by (simp add: effective_max_age_def settings_from_config_def page_cache_config_default_def
        from_millis_def from_secs_def max_age_ceiling_def)
  have "page_lookup (from_secs 50) 1 ''k''
       (effective_max_age (settings_from_config page_cache_config_default) (Some 60000)) 2
       (run_ops page_step [PageStore ''k'' demo_page 3 (from_secs 10)] cache_new)
     = Some (demo_page\<lparr> fr_elapsed_ms := 1 \<rparr>)"
    unfolding e
    by (simp add: page_lookup_def page_store_get worth_keeping_def demo_page_def entry_bytes_def
        opt_len_def max_entry_bytes_def since_def from_secs_def)
  from hit_is_fresh_enough [OF this] this show ?thesis
    unfolding e by (force simp: Cons_eq_append_conv)
qed

end
