(* ===== verification/Url_Key.thy ===== *)
theory Url_Key
  imports Rust_Str
begin

section \<open>Deduplication keys of URLs\<close>

text \<open>
  \<open>normalize_url\<close> of \<open>crates/crw-crawl/src/url_filter.rs\<close>: the key under which a URL is
  remembered. Scheme and host are lower-cased, the fragment and trailing slashes go, everything
  else stays byte-exact. \<open>str::to_lowercase\<close> (Unicode) is the parameter \<open>lower\<close>.
\<close>

definition normalize_url :: "(string \<Rightarrow> string) \<Rightarrow> string \<Rightarrow> string" where
  "normalize_url lower url =
    (let without_fragment = hd (split_char (CHR ''#'') url);
         trimmed = trim_end_char (CHR ''/'') without_fragment
     in case find_sub ''://'' trimmed of
          None \<Rightarrow> trimmed
        | Some sep \<Rightarrow>
            (let start = sep + 3;
                 stop = (case find_char (\<lambda>c. c = CHR ''/'' \<or> c = CHR ''?'') (drop start trimmed) of
                           Some i \<Rightarrow> start + i | None \<Rightarrow> length trimmed);
                 authority = take (stop - start) (drop start trimmed);
                 host_start = (case rfind_char (\<lambda>c. c = CHR ''@'') authority of
                                 Some i \<Rightarrow> i + 1 | None \<Rightarrow> 0);
                 host_and_port = drop host_start authority;
                 host_len = (if prefix ''['' host_and_port
                             then (case find_char (\<lambda>c. c = CHR '']'') host_and_port of
                                     Some i \<Rightarrow> i + 1 | None \<Rightarrow> length host_and_port)
                             else (case rfind_char (\<lambda>c. c = CHR '':'') host_and_port of
                                     Some i \<Rightarrow> i | None \<Rightarrow> length host_and_port))
             in to_ascii_lowercase (take sep trimmed) @ ''://'' @ take host_start authority
                @ lower (take host_len host_and_port) @ drop host_len host_and_port
                @ drop stop trimmed))"

end
