(* ===== verification/Crawl.thy ===== *)
theory Crawl
  imports Url_Safety Robots Scrape_Data Url_Key
begin

section \<open>The crawl loop\<close>

text \<open>
  \<open>run_crawl\<close> of \<open>crates/crw-crawl/src/crawl.rs\<close>: a breadth-first crawl from a seed URL,
  publishing its progress. What the loop calls in other crates is in the record
  \<open>crawl_env\<close>: the URL parser, DNS, the HTTP client of \<open>robots.txt\<close>, the renderer (its n-th
  fetch of a URL), link extraction, document conversion, the block classifiers and the model
  that extracts structured data. The loop is sequential; its semaphore is taken and given back
  within one iteration, the deadline, the rate limits and the client's construction belong to
  the renderer, and log lines are left out.

  A \<open>HashSet\<close> of visited keys is a list without duplicates (\<open>cj_visited\<close>), \<open>cj_sent\<close> is what
  has been published on the state channel, and \<open>cj_fetched\<close> records the renderer calls, which
  the code does not keep.
\<close>

record web_url = url +
  wu_origin :: string
  wu_path :: string
  wu_query :: "string option"
  wu_no_fragment :: string

record ('m, 'u) crawl_env =
  ce_parse :: "string \<Rightarrow> web_url option"
  ce_parse_error :: "string \<Rightarrow> string"
  ce_error_text :: "url_error \<Rightarrow> string"
  ce_lower :: "string \<Rightarrow> string"
  ce_test_allow :: bool
  ce_dns :: resolver
  ce_robots_client :: "string \<Rightarrow> http_reply"
  ce_lossy :: "string \<Rightarrow> string"
  ce_fetch :: "nat \<Rightarrow> string \<Rightarrow> string + 'm fetch_result"
  ce_generic_wall :: "string \<Rightarrow> bool"
  ce_links :: "string \<Rightarrow> string \<Rightarrow> string list"
  ce_warning :: "'m fetch_result \<Rightarrow> string option"
  ce_pdf :: "string \<Rightarrow> 'm fetch_result \<Rightarrow> string + 'u scrape_data"
  ce_extract :: "'m fetch_result \<Rightarrow> string + 'u scrape_data"
  ce_classify :: "'m fetch_result \<Rightarrow> string option \<Rightarrow> block_outcome option"
  ce_error_wall :: "nat \<Rightarrow> string \<Rightarrow> block_outcome option"
  ce_llm :: "(string \<Rightarrow> (json \<times> 'u option) option) option"
  ce_accumulate :: "'u option \<Rightarrow> 'u option \<Rightarrow> 'u option"

record crawl_request =
  cr_url :: string
  cr_max_depth :: "nat option"
  cr_max_pages :: "nat option"
  cr_respect_robots :: bool

record 'u crawl_job =
  cj_visited :: "string list"
  cj_queue :: "(string \<times> nat) list"
  cj_results :: "'u scrape_data list"
  cj_blocked :: nat
  cj_sent :: "'u crawl_state list"
  cj_fetched :: "(string \<times> nat) list"

definition asset_extensions :: "string list" where
  "asset_extensions =
    [''jpg'', ''jpeg'', ''png'', ''gif'', ''webp'', ''avif'', ''svg'', ''ico'', ''bmp'', ''tif'',
     ''tiff'', ''heic'', ''mp4'', ''webm'', ''mov'', ''avi'', ''mkv'', ''m4v'', ''mp3'', ''wav'',
     ''ogg'', ''m4a'', ''flac'', ''zip'', ''gz'', ''tgz'', ''tar'', ''rar'', ''7z'', ''bz2'', ''xz'',
     ''woff'', ''woff2'', ''ttf'', ''otf'', ''eot'', ''exe'', ''dmg'', ''msi'', ''apk'', ''iso'',
     ''flv'', ''deb'', ''rpm'', ''jar'']"

text \<open>\<open>Url::path_segments\<close> is absent for a path that does not start with a slash.\<close>

definition is_static_asset :: "web_url \<Rightarrow> bool" where
  "is_static_asset u =
    (case wu_path u of
       [] \<Rightarrow> False
     | c # rest \<Rightarrow>
         if c \<noteq> CHR ''/'' then False
         else
           (let name = last (split_char (CHR ''/'') rest)
            in case rfind_char (\<lambda>x. x = CHR ''.'') name of
                 None \<Rightarrow> False
               | Some i \<Rightarrow>
                   list_ex (\<lambda>asset. eq_ignore_ascii_case (drop (Suc i) name) asset) asset_extensions))"

definition is_safe_url :: "('m, 'u) crawl_env \<Rightarrow> web_url \<Rightarrow> bool" where
  "is_safe_url env u = (validate_safe_url (ce_test_allow env) (url.truncate u) = Accepted)"

definition send_failed :: "string \<Rightarrow> 'u crawl_state" where
  "send_failed error =
    \<lparr> cs_success = False, cs_status = Failed, cs_total = 0, cs_completed = 0, cs_blocked = 0,
      cs_data = [], cs_error = Some error \<rparr>"

text \<open>One link of the discovery loop.\<close>

definition enqueue_link ::
    "('m, 'u) crawl_env \<Rightarrow> string \<Rightarrow> nat \<Rightarrow> nat \<Rightarrow> string \<Rightarrow> 'u crawl_job \<Rightarrow> 'u crawl_job" where
  "enqueue_link env origin max_pages depth link job =
    (case ce_parse env link of
       None \<Rightarrow> job
     | Some link_url \<Rightarrow>
         if \<not> is_safe_url env link_url then job
         else if wu_origin link_url \<noteq> origin then job
         else if is_static_asset link_url then job
         else
           (let key = normalize_url (ce_lower env) link
            in if key \<notin> set (cj_visited job) \<and> length (cj_visited job) < max_pages
               then job\<lparr> cj_visited := key # cj_visited job,
                         cj_queue := cj_queue job @ [(wu_no_fragment link_url, depth + 1)] \<rparr>
               else job))"

definition enqueue_discovered_links ::
    "('m, 'u) crawl_env \<Rightarrow> string \<Rightarrow> string \<Rightarrow> string \<Rightarrow> nat \<Rightarrow> nat \<Rightarrow> 'u crawl_job \<Rightarrow> 'u crawl_job" where
  "enqueue_discovered_links env html page_url origin max_pages depth job =
    fold (enqueue_link env origin max_pages depth) (ce_links env html page_url) job"

definition failed_page :: "string \<Rightarrow> nat \<Rightarrow> string \<Rightarrow> 'u scrape_data" where
  "failed_page url status_code reason =
    scrape_data_default\<lparr> sd_source_url := url, sd_status := status_code,
      sd_block := Some \<lparr> block_vendor = http_error_vendor, block_reason = reason \<rparr> \<rparr>"

definition progress :: "'u crawl_job \<Rightarrow> 'u crawl_state" where
  "progress job =
    \<lparr> cs_success = True, cs_status = InProgress, cs_total = length (cj_visited job),
      cs_completed = length (cj_results job), cs_blocked = cj_blocked job, cs_data = [],
      cs_error = None \<rparr>"

definition publish :: "'u crawl_job \<Rightarrow> 'u crawl_job" where
  "publish job = job\<lparr> cj_sent := cj_sent job @ [progress job] \<rparr>"

definition push_failed_page :: "'u scrape_data \<Rightarrow> 'u crawl_job \<Rightarrow> 'u crawl_job" where
  "push_failed_page data job =
    publish (job\<lparr> cj_results := cj_results job @ [data], cj_blocked := cj_blocked job + 1 \<rparr>)"

definition is_unclearable_wall :: "('m, 'u) crawl_env \<Rightarrow> 'm fetch_result \<Rightarrow> bool" where
  "is_unclearable_wall env r = (fr_wall r \<noteq> None \<and> ce_generic_wall env (fr_html r))"

definition is_cdn_origin_error :: "nat \<Rightarrow> bool" where
  "is_cdn_origin_error status = (520 \<le> status \<and> status \<le> 527)"

text \<open>The document of a fetched page: PDF conversion or HTML extraction.\<close>

definition convert_page :: "('m, 'u) crawl_env \<Rightarrow> 'm fetch_result \<Rightarrow> string + 'u scrape_data" where
  "convert_page env r =
    (case (if fr_content_type r = Some ''application/pdf'' then fr_raw_bytes r else None) of
       Some bytes \<Rightarrow>
         (case ce_pdf env bytes r of
            Inl err \<Rightarrow> Inl (''PDF conversion failed: '' @ err)
          | Inr d \<Rightarrow> Inr d)
     | None \<Rightarrow>
         (case ce_extract env r of
            Inl err \<Rightarrow> Inl (''extraction failed: '' @ err)
          | Inr d \<Rightarrow> Inr d))"

text \<open>The verdict stamped on a document, and the body it loses to a wall.\<close>

definition judge_page :: "('m, 'u) crawl_env \<Rightarrow> 'm fetch_result \<Rightarrow> 'u scrape_data \<Rightarrow> 'u scrape_data" where
  "judge_page env r d0 =
    (let d = d0\<lparr> sd_warning := ce_warning env r, sd_content_type := fr_content_type r \<rparr>;
         verdict = (case ce_classify env r (sd_markdown d) of
                      Some b \<Rightarrow> if block_vendor b \<noteq> structural_failure_vendor then Some b else None
                    | None \<Rightarrow> None);
         d1 = d\<lparr> sd_block := verdict \<rparr>;
         d2 = (if sd_block d1 = None \<and> http_error d1 \<noteq> None
               then d1\<lparr> sd_block := ce_error_wall env (fr_status r) (fr_html r) \<rparr> else d1);
         d3 = (if sd_block d2 = None \<and> is_error_page_sized d2
               then d2\<lparr> sd_block := fr_wall r \<rparr> else d2);
         wall = (sd_block d3 \<noteq> None);
         d4 = (if \<not> wall
               then (case http_error d3 of
                       Some reason \<Rightarrow>
                         d3\<lparr> sd_block := Some \<lparr> block_vendor = http_error_vendor, block_reason = reason \<rparr> \<rparr>
                     | None \<Rightarrow> d3)
               else d3)
     in if sd_block d4 \<noteq> None \<and> wall then clear_body d4 else d4)"

definition extract_structured :: "('m, 'u) crawl_env \<Rightarrow> 'u scrape_data \<Rightarrow> 'u scrape_data" where
  "extract_structured env d =
    (case ce_llm env of
       None \<Rightarrow> d
     | Some llm \<Rightarrow>
         if sd_block d \<noteq> None then d
         else
           (case sd_markdown d of
              None \<Rightarrow> d
            | Some md \<Rightarrow>
                (case llm md of
                   None \<Rightarrow> d
                 | Some (v, usage) \<Rightarrow>
                     d\<lparr> sd_json := Some v, sd_llm_usage := ce_accumulate env (sd_llm_usage d) usage \<rparr>)))"

text \<open>The body of the loop for a URL taken from the queue.\<close>

definition crawl_page ::
    "('m, 'u) crawl_env \<Rightarrow> robots_txt \<Rightarrow> string \<Rightarrow> nat \<Rightarrow> nat \<Rightarrow> string \<Rightarrow> nat \<Rightarrow> 'u crawl_job \<Rightarrow> 'u crawl_job" where
  "crawl_page env robots origin max_depth max_pages url depth job0 =
    (if (case ce_parse env url of
           Some p \<Rightarrow> \<not> is_url_allowed (robots_rules robots) (wu_path p) (wu_query p)
         | None \<Rightarrow> False) then job0
     else
       (let job = job0\<lparr> cj_fetched := cj_fetched job0 @ [(url, depth)] \<rparr>
        in case ce_fetch env (length (cj_fetched job0)) url of
             Inl err \<Rightarrow> push_failed_page (failed_page url 0 err) job
           | Inr r \<Rightarrow>
               (case (if is_unclearable_wall env r then fr_wall r else None) of
                  Some verdict \<Rightarrow>
                    push_failed_page
                      ((failed_page url (fr_status r) (block_reason verdict))\<lparr> sd_block := Some verdict \<rparr>) job
                | None \<Rightarrow>
                    if is_cdn_origin_error (fr_status r)
                    then push_failed_page (failed_page url (fr_status r) ''CDN could not reach origin'') job
                    else
                      (let job1 = (if depth < max_depth
                                   then enqueue_discovered_links env (fr_html r) url origin max_pages depth job
                                   else job)
                       in case convert_page env r of
                            Inl err \<Rightarrow> push_failed_page (failed_page url (fr_status r) err) job1
                          | Inr d0 \<Rightarrow>
                              (let d = judge_page env r d0
                               in publish
                                    (job1\<lparr> cj_blocked := cj_blocked job1 + (if sd_block d \<noteq> None then 1 else 0),
                                           cj_results := cj_results job1 @ [extract_structured env d] \<rparr>))))))"

subsection \<open>Termination\<close>

text \<open>Every URL that enters the queue takes one of the \<open>max_pages\<close> visited slots.\<close>

definition work_left :: "nat \<Rightarrow> 'u crawl_job \<Rightarrow> nat" where
  "work_left max_pages job = (max_pages - length (cj_visited job)) + length (cj_queue job)"

lemma enqueue_link_work: "work_left n (enqueue_link env origin n depth link job) \<le> work_left n job"
  by (auto simp: enqueue_link_def work_left_def Let_def split: option.splits)

lemma enqueue_links_work:
  "work_left n (enqueue_discovered_links env html page origin n depth job) \<le> work_left n job"
proof -
  have "work_left n (fold (enqueue_link env origin n depth) ls job) \<le> work_left n job" for ls
    by (induction ls arbitrary: job) (auto intro: order_trans enqueue_link_work)
  then show ?thesis by (simp add: enqueue_discovered_links_def)
qed

lemma publish_fields [simp]:
  "cj_visited (publish job) = cj_visited job" "cj_queue (publish job) = cj_queue job"
  "cj_results (publish job) = cj_results job" "cj_blocked (publish job) = cj_blocked job"
  "cj_fetched (publish job) = cj_fetched job"
  by (simp_all add: publish_def)

lemma push_failed_page_fields [simp]:
  "cj_visited (push_failed_page d job) = cj_visited job" "cj_queue (push_failed_page d job) = cj_queue job"
  "cj_results (push_failed_page d job) = cj_results job @ [d]"
  "cj_blocked (push_failed_page d job) = cj_blocked job + 1"
  "cj_fetched (push_failed_page d job) = cj_fetched job"
  by (simp_all add: push_failed_page_def)

lemma work_left_cong:
  "cj_visited a = cj_visited b \<Longrightarrow> cj_queue a = cj_queue b \<Longrightarrow> work_left n a = work_left n b"
  by (simp add: work_left_def)

lemma crawl_page_work:
  "work_left n (crawl_page env robots origin max_depth n url depth job) \<le> work_left n job"
proof -
  let ?job = "job\<lparr> cj_fetched := cj_fetched job @ [(url, depth)] \<rparr>"
  have "work_left n (enqueue_discovered_links env html page origin n depth ?job) \<le> work_left n job" for html page
    using enqueue_links_work [of n env html page origin depth ?job] work_left_cong [of ?job job n] by simp
  then show ?thesis
    by (auto simp: crawl_page_def Let_def work_left_def split: option.splits sum.splits)
qed

lemma crawl_page_shrinks:
  assumes "cj_queue job = e # rest"
  shows "work_left n (crawl_page env robots origin max_depth n url depth (job\<lparr> cj_queue := rest \<rparr>))
    < work_left n job"
proof -
  have "work_left n (job\<lparr> cj_queue := rest \<rparr>) < work_left n job"
    using assms by (simp add: work_left_def)
  then show ?thesis using le_less_trans [OF crawl_page_work] by blast
qed

function crawl_loop ::
    "('m, 'u) crawl_env \<Rightarrow> robots_txt \<Rightarrow> string \<Rightarrow> nat \<Rightarrow> nat \<Rightarrow> 'u crawl_job \<Rightarrow> 'u crawl_job" where
  "crawl_loop env robots origin max_depth max_pages job =
    (case cj_queue job of
       [] \<Rightarrow> job
     | (url, depth) # rest \<Rightarrow>
         if max_pages \<le> length (cj_results job) then job\<lparr> cj_queue := rest \<rparr>
         else crawl_loop env robots origin max_depth max_pages
                (crawl_page env robots origin max_depth max_pages url depth (job\<lparr> cj_queue := rest \<rparr>)))"
  by pat_completeness auto
termination
  by (relation "measure (\<lambda>(env, robots, origin, max_depth, max_pages, job). work_left max_pages job)")
    (auto intro: crawl_page_shrinks)

declare crawl_loop.simps [simp del]

definition crawl_max_depth :: "crawl_request \<Rightarrow> nat" where
  "crawl_max_depth req = min (case cr_max_depth req of Some d \<Rightarrow> d | None \<Rightarrow> 2) 10"

definition crawl_max_pages :: "crawl_request \<Rightarrow> nat" where
  "crawl_max_pages req = min (case cr_max_pages req of Some n \<Rightarrow> n | None \<Rightarrow> 100) 1000"

text \<open>An unreadable \<open>robots.txt\<close> means no rules.\<close>

definition crawl_robots :: "('m, 'u) crawl_env \<Rightarrow> crawl_request \<Rightarrow> string \<Rightarrow> robots_txt" where
  "crawl_robots env req origin =
    (if cr_respect_robots req
     then (case robots_fetch (ce_robots_client env) (ce_lossy env) origin of
             Inr robots \<Rightarrow> robots | Inl _ \<Rightarrow> robots_empty)
     else robots_empty)"

definition crawl_start :: "('m, 'u) crawl_env \<Rightarrow> crawl_request \<Rightarrow> 'u crawl_job" where
  "crawl_start env req =
    \<lparr> cj_visited = [normalize_url (ce_lower env) (cr_url req)], cj_queue = [(cr_url req, 0)],
      cj_results = [], cj_blocked = 0, cj_sent = [], cj_fetched = [] \<rparr>"

definition completed_state :: "'u crawl_job \<Rightarrow> 'u crawl_state" where
  "completed_state job =
    \<lparr> cs_success = True, cs_status = Completed, cs_total = length (cj_visited job),
      cs_completed = length (cj_results job), cs_blocked = cj_blocked job, cs_data = cj_results job,
      cs_error = None \<rparr>"

text \<open>The states published and the renderer calls made.\<close>

definition run_crawl ::
    "('m, 'u) crawl_env \<Rightarrow> crawl_request \<Rightarrow> 'u crawl_state list \<times> (string \<times> nat) list" where
  "run_crawl env req =
    (case ce_parse env (cr_url req) of
       None \<Rightarrow> ([send_failed (''Invalid URL: '' @ ce_parse_error env (cr_url req))], [])
     | Some base \<Rightarrow>
         (case validate_safe_url_resolved (ce_dns env) (ce_test_allow env) (url.truncate base) of
            Inl e \<Rightarrow> ([send_failed (ce_error_text env e)], [])
          | Inr _ \<Rightarrow>
         if url_host base = None then ([send_failed ''URL has no host''], [])
         else
           (let origin = wu_origin base;
                job = crawl_loop env (crawl_robots env req origin) origin (crawl_max_depth req)
                        (crawl_max_pages req) (crawl_start env req)
            in (cj_sent job @ [completed_state job], cj_fetched job))))"

end
