(* ===== verification/Crawl_Props.thy ===== *)
theory Crawl_Props
  imports Crawl
begin

section \<open>What a crawl does\<close>

text \<open>
  The invariant of the crawl loop, and what follows for a whole crawl: it ends, its progress
  adds up, and it only fetches what it may.
\<close>

text \<open>Facts about the loop by its steps.\<close>

lemma crawl_loop_invariant:
  assumes step: "\<And>job url depth rest. I job \<Longrightarrow> cj_queue job = (url, depth) # rest \<Longrightarrow>
      length (cj_results job) < max_pages \<Longrightarrow>
      I (crawl_page env robots origin max_depth max_pages url depth (job\<lparr> cj_queue := rest \<rparr>))"
    and stop: "\<And>job url depth rest. I job \<Longrightarrow> cj_queue job = (url, depth) # rest \<Longrightarrow>
      I (job\<lparr> cj_queue := rest \<rparr>)"
    and start: "I job"
  shows "I (crawl_loop env robots origin max_depth max_pages job)"
proof -
  have "I job \<Longrightarrow> I (crawl_loop env robots origin max_depth max_pages job)" for job
  proof (induction "work_left max_pages job" arbitrary: job rule: less_induct)
    case less
    show ?case
    proof (cases "cj_queue job")
      case Nil
      then show ?thesis using less.prems by (subst crawl_loop.simps) simp
    next
      case (Cons e rest)
      obtain url depth where e: "e = (url, depth)" by (cases e)
      let ?next = "crawl_page env robots origin max_depth max_pages url depth (job\<lparr> cj_queue := rest \<rparr>)"
      show ?thesis
      proof (cases "max_pages \<le> length (cj_results job)")
        case True
        then show ?thesis using less.prems Cons e stop by (subst crawl_loop.simps) simp
      next
        case False
        have "I (crawl_loop env robots origin max_depth max_pages ?next)"
          using less.hyps [OF crawl_page_shrinks [OF Cons]] step [OF less.prems] Cons e False by simp
        then show ?thesis using Cons e False by (subst crawl_loop.simps) simp
      qed
    qed
  qed
  then show ?thesis using start by blast
qed

subsection \<open>The invariant\<close>

text \<open>A link the crawl may follow from a page: where a fetched or queued URL comes from.\<close>

definition in_scope :: "('m, 'u) crawl_env \<Rightarrow> string \<Rightarrow> string \<Rightarrow> nat \<Rightarrow> string \<times> nat \<Rightarrow> bool" where
  "in_scope env origin seed max_depth e \<longleftrightarrow>
     e = (seed, 0)
     \<or> 0 < snd e \<and> snd e \<le> max_depth
       \<and> (\<exists>link u. ce_parse env link = Some u \<and> is_safe_url env u \<and> wu_origin u = origin
            \<and> \<not> is_static_asset u \<and> fst e = wu_no_fragment u)"

definition robots_let :: "('m, 'u) crawl_env \<Rightarrow> robots_txt \<Rightarrow> string \<Rightarrow> bool" where
  "robots_let env robots url =
    (case ce_parse env url of
       Some p \<Rightarrow> is_url_allowed (robots_rules robots) (wu_path p) (wu_query p)
     | None \<Rightarrow> True)"

definition blocked_pages :: "'u scrape_data list \<Rightarrow> nat" where
  "blocked_pages ds = length (filter (\<lambda>d. sd_block d \<noteq> None) ds)"

text \<open>The progress report after page number \<open>k\<close>, counted from 0.\<close>

definition progress_report :: "nat \<Rightarrow> nat \<Rightarrow> 'u crawl_state \<Rightarrow> bool" where
  "progress_report cap k st \<longleftrightarrow>
     cs_status st = InProgress \<and> cs_success st \<and> cs_completed st = Suc k \<and> cs_blocked st \<le> Suc k
     \<and> cs_total st \<le> cap \<and> cs_data st = [] \<and> cs_error st = None"

definition crawl_inv ::
    "('m, 'u) crawl_env \<Rightarrow> robots_txt \<Rightarrow> string \<Rightarrow> string \<Rightarrow> nat \<Rightarrow> nat \<Rightarrow> 'u crawl_job \<Rightarrow> bool" where
  "crawl_inv env robots origin seed max_depth max_pages job \<longleftrightarrow>
     distinct (cj_visited job) \<and> length (cj_visited job) \<le> max max_pages 1
     \<and> length (cj_fetched job) + length (cj_queue job) \<le> length (cj_visited job)
     \<and> length (cj_results job) = length (cj_fetched job) \<and> length (cj_results job) \<le> max_pages
     \<and> cj_blocked job = blocked_pages (cj_results job)
     \<and> list_all2 (progress_report (max max_pages 1)) [0..<length (cj_results job)] (cj_sent job)
     \<and> list_all (in_scope env origin seed max_depth) (cj_fetched job @ cj_queue job)
     \<and> list_all (\<lambda>e. robots_let env robots (fst e)) (cj_fetched job)"

text \<open>What discovery may change: it only adds slots and queue entries.\<close>

definition discovers ::
    "('m, 'u) crawl_env \<Rightarrow> string \<Rightarrow> nat \<Rightarrow> nat \<Rightarrow> 'u crawl_job \<Rightarrow> 'u crawl_job \<Rightarrow> bool" where
  "discovers env origin max_pages depth job job' \<longleftrightarrow>
     (\<exists>keys new. job' = job\<lparr> cj_visited := keys @ cj_visited job, cj_queue := cj_queue job @ new \<rparr>
        \<and> length keys = length new \<and> (distinct (cj_visited job) \<longrightarrow> distinct (keys @ cj_visited job))
        \<and> length (keys @ cj_visited job) \<le> max max_pages (length (cj_visited job))
        \<and> list_all (\<lambda>(u, d). d = depth + 1 \<and> (\<exists>link lu. ce_parse env link = Some lu \<and> is_safe_url env lu
            \<and> wu_origin lu = origin \<and> \<not> is_static_asset lu \<and> u = wu_no_fragment lu)) new)"

lemma discovers_refl: "discovers env origin n depth job job"
  unfolding discovers_def by (intro exI [of _ "[]"]) simp

lemma enqueue_link_discovers:
  assumes "discovers env origin n depth job0 job"
  shows "discovers env origin n depth job0 (enqueue_link env origin n depth link job)"
proof -
  obtain keys new where k: "job = job0\<lparr> cj_visited := keys @ cj_visited job0, cj_queue := cj_queue job0 @ new \<rparr>"
    "length keys = length new" "distinct (cj_visited job0) \<longrightarrow> distinct (keys @ cj_visited job0)"
    "length (keys @ cj_visited job0) \<le> max n (length (cj_visited job0))"
    "list_all (\<lambda>(u, d). d = depth + 1 \<and> (\<exists>link lu. ce_parse env link = Some lu \<and> is_safe_url env lu
            \<and> wu_origin lu = origin \<and> \<not> is_static_asset lu \<and> u = wu_no_fragment lu)) new"
    using assms unfolding discovers_def by blast
  show ?thesis
  proof (cases "enqueue_link env origin n depth link job = job")
    case True
    then show ?thesis using assms by simp
  next
    case False
    let ?key = "normalize_url (ce_lower env) link"
    obtain u where u: "ce_parse env link = Some u" "is_safe_url env u" "wu_origin u = origin"
        "\<not> is_static_asset u" "?key \<notin> set (cj_visited job)" "length (cj_visited job) < n"
        "enqueue_link env origin n depth link job = job\<lparr> cj_visited := ?key # cj_visited job,
           cj_queue := cj_queue job @ [(wu_no_fragment u, depth + 1)] \<rparr>"
      using False by (auto simp: enqueue_link_def Let_def split: option.splits if_splits)
    then show ?thesis
      unfolding discovers_def using k
      by (intro exI [of _ "?key # keys"] exI [of _ "new @ [(wu_no_fragment u, depth + 1)]"]) auto
  qed
qed

lemma enqueue_links_discovers:
  "discovers env origin n depth job (enqueue_discovered_links env html page origin n depth job)"
proof -
  have "discovers env origin n depth job (fold (enqueue_link env origin n depth) ls job')"
    if "discovers env origin n depth job job'" for ls job'
    using that by (induction ls arbitrary: job') (auto intro: enqueue_link_discovers)
  then show ?thesis by (simp add: enqueue_discovered_links_def discovers_refl)
qed

lemma extract_structured_block [simp]: "sd_block (extract_structured env d) = sd_block d"
  by (auto simp: extract_structured_def split: option.splits)

lemma blocked_pages_snoc [simp]:
  "blocked_pages (ds @ [d]) = blocked_pages ds + (if sd_block d \<noteq> None then 1 else 0)"
  by (simp add: blocked_pages_def)

lemma blocked_pages_le: "blocked_pages ds \<le> length ds"
  by (simp add: blocked_pages_def)

text \<open>Recording a page: one more result, its block counted, its report sent.\<close>

definition record_page :: "'u scrape_data \<Rightarrow> 'u crawl_job \<Rightarrow> 'u crawl_job" where
  "record_page d job =
    publish (job\<lparr> cj_blocked := cj_blocked job + (if sd_block d \<noteq> None then 1 else 0),
                  cj_results := cj_results job @ [d] \<rparr>)"

lemma push_failed_is_record: "sd_block d \<noteq> None \<Longrightarrow> push_failed_page d job = record_page d job"
  by (cases job) (simp add: push_failed_page_def record_page_def)

lemma failed_page_block [simp]: "sd_block (failed_page u s r) \<noteq> None"
  by (simp add: failed_page_def)

text \<open>Every way through the loop body either skips the URL or fetches it, may discover links,
  and records one page.\<close>

lemma crawl_page_cases:
  obtains (skipped) "\<not> robots_let env robots url"
      "crawl_page env robots origin max_depth max_pages url depth job = job"
  | (fetched) job' d where "robots_let env robots url"
      "discovers env origin max_pages depth (job\<lparr> cj_fetched := cj_fetched job @ [(url, depth)] \<rparr>) job'"
      "job' = job\<lparr> cj_fetched := cj_fetched job @ [(url, depth)] \<rparr> \<or> depth < max_depth"
      "crawl_page env robots origin max_depth max_pages url depth job = record_page d job'"
proof (cases "robots_let env robots url")
  case False
  then show ?thesis
    using skipped by (auto simp: robots_let_def crawl_page_def split: option.splits)
next
  case True
  let ?job = "job\<lparr> cj_fetched := cj_fetched job @ [(url, depth)] \<rparr>"
  let ?page = "crawl_page env robots origin max_depth max_pages url depth job"
  have go: "\<not> (case ce_parse env url of
           Some p \<Rightarrow> \<not> is_url_allowed (robots_rules robots) (wu_path p) (wu_query p)
         | None \<Rightarrow> False)"
    using True by (auto simp: robots_let_def split: option.splits)
  have "\<exists>job' d. discovers env origin max_pages depth ?job job' \<and> (job' = ?job \<or> depth < max_depth)
      \<and> ?page = record_page d job'"
  proof (cases "ce_fetch env (length (cj_fetched job)) url")
    case (Inl err)
    then show ?thesis
      using go discovers_refl [of env origin max_pages depth ?job]
      by (auto simp: crawl_page_def Let_def push_failed_is_record intro!: exI)
  next
    case (Inr r)
    let ?found = "if depth < max_depth
      then enqueue_discovered_links env (fr_html r) url origin max_pages depth ?job else ?job"
    have d: "discovers env origin max_pages depth ?job ?found" "?found = ?job \<or> depth < max_depth"
      using enqueue_links_discovers discovers_refl by auto
    show ?thesis
    proof (cases "if is_unclearable_wall env r then fr_wall r else None")
      case (Some verdict)
      then show ?thesis
        using go Inr discovers_refl [of env origin max_pages depth ?job]
        by (auto simp: crawl_page_def Let_def push_failed_is_record intro!: exI)
    next
      case None
      show ?thesis
      proof (cases "is_cdn_origin_error (fr_status r)")
        case True
        then show ?thesis
          using go Inr None discovers_refl [of env origin max_pages depth ?job]
          by (auto simp: crawl_page_def Let_def push_failed_is_record intro!: exI)
      next
        case False
        have "\<exists>d. ?page = record_page d ?found"
        proof (cases "convert_page env r")
          case (Inl err)
          then have "?page = push_failed_page (failed_page url (fr_status r) err) ?found"
            unfolding crawl_page_def Let_def using go Inr None False by simp
          then show ?thesis using push_failed_is_record failed_page_block by metis
        next
          case (Inr d0)
          then have "?page = record_page (extract_structured env (judge_page env r d0)) ?found"
            unfolding crawl_page_def Let_def record_page_def
            using go \<open>ce_fetch env _ url = Inr r\<close> None False by simp
          then show ?thesis by blast
        qed
        then show ?thesis using d by blast
      qed
    qed
  qed
  then show ?thesis using fetched True by blast
qed

lemma discovers_inv:
  assumes d: "discovers env origin max_pages depth job job'" and deep: "job' = job \<or> depth < max_depth"
    and vis: "distinct (cj_visited job)" "length (cj_visited job) \<le> max max_pages 1"
    and count: "length (cj_fetched job) + length (cj_queue job) \<le> length (cj_visited job)"
    and scope: "list_all (in_scope env origin seed max_depth) (cj_fetched job @ cj_queue job)"
  shows "distinct (cj_visited job') \<and> length (cj_visited job') \<le> max max_pages 1
    \<and> length (cj_fetched job') + length (cj_queue job') \<le> length (cj_visited job')
    \<and> list_all (in_scope env origin seed max_depth) (cj_fetched job' @ cj_queue job')
    \<and> cj_fetched job' = cj_fetched job \<and> cj_results job' = cj_results job
    \<and> cj_blocked job' = cj_blocked job \<and> cj_sent job' = cj_sent job"
proof (cases "job' = job")
  case True
  then show ?thesis using vis count scope by simp
next
  case False
  obtain keys new where k: "job' = job\<lparr> cj_visited := keys @ cj_visited job, cj_queue := cj_queue job @ new \<rparr>"
    "length keys = length new" "distinct (keys @ cj_visited job)"
    "length (keys @ cj_visited job) \<le> max max_pages (length (cj_visited job))"
    "list_all (\<lambda>(u, d). d = depth + 1 \<and> (\<exists>link lu. ce_parse env link = Some lu \<and> is_safe_url env lu
            \<and> wu_origin lu = origin \<and> \<not> is_static_asset lu \<and> u = wu_no_fragment lu)) new"
    using d vis(1) unfolding discovers_def by blast
  have "list_all (in_scope env origin seed max_depth) new"
    using k(5) deep False by (auto simp: list_all_iff in_scope_def)
  moreover have "length (keys @ cj_visited job) \<le> max max_pages 1"
    using k(4) vis(2) by linarith
  ultimately show ?thesis using k count scope by simp
qed

lemma list_all2_snoc:
  "list_all2 P (xs @ [x]) (ys @ [y]) \<longleftrightarrow> list_all2 P xs ys \<and> P x y"
  by (cases "length xs = length ys") (auto simp: list_all2_append dest: list_all2_lengthD)

lemma crawl_inv_page:
  assumes inv: "crawl_inv env robots origin seed max_depth max_pages job"
    and q: "cj_queue job = (url, depth) # rest" and room: "length (cj_results job) < max_pages"
  shows "crawl_inv env robots origin seed max_depth max_pages
    (crawl_page env robots origin max_depth max_pages url depth (job\<lparr> cj_queue := rest \<rparr>))"
proof (cases rule: crawl_page_cases [of env robots url origin max_depth max_pages depth "job\<lparr> cj_queue := rest \<rparr>"])
  case skipped
  then show ?thesis using inv q by (auto simp: crawl_inv_def)
next
  case (fetched job' d)
  let ?job = "job\<lparr> cj_queue := rest, cj_fetched := cj_fetched job @ [(url, depth)] \<rparr>"
  have disc: "discovers env origin max_pages depth ?job job'" "job' = ?job \<or> depth < max_depth"
    using fetched(2,3) by simp_all
  have pre: "distinct (cj_visited ?job)" "length (cj_visited ?job) \<le> max max_pages 1"
    "length (cj_fetched ?job) + length (cj_queue ?job) \<le> length (cj_visited ?job)"
    "list_all (in_scope env origin seed max_depth) (cj_fetched ?job @ cj_queue ?job)"
    using inv q by (auto simp: crawl_inv_def)
  note j = discovers_inv [OF disc pre]
  have old: "length (cj_results job) = length (cj_fetched job)" "cj_blocked job = blocked_pages (cj_results job)"
    "list_all2 (progress_report (max max_pages 1)) [0..<length (cj_results job)] (cj_sent job)"
    "list_all (\<lambda>e. robots_let env robots (fst e)) (cj_fetched job)"
    using inv by (auto simp: crawl_inv_def)
  let ?next = "record_page d job'"
  have "progress_report (max max_pages 1) (length (cj_results job))
      (progress (job'\<lparr> cj_blocked := cj_blocked job' + (if sd_block d \<noteq> None then 1 else 0),
                  cj_results := cj_results job' @ [d] \<rparr>))"
    using j old(2) blocked_pages_le [of "cj_results job"] by (simp add: progress_report_def progress_def)
  then have sent: "list_all2 (progress_report (max max_pages 1)) [0..<length (cj_results ?next)] (cj_sent ?next)"
    using j old(3) by (simp add: record_page_def publish_def list_all2_snoc)
  show ?thesis
    unfolding fetched(4) crawl_inv_def
    using j old sent fetched(1) room by (auto simp: record_page_def publish_def)
qed

lemma crawl_loop_inv:
  assumes "crawl_inv env robots origin seed max_depth max_pages job"
  shows "crawl_inv env robots origin seed max_depth max_pages
    (crawl_loop env robots origin max_depth max_pages job)"
proof (rule crawl_loop_invariant [where I = "crawl_inv env robots origin seed max_depth max_pages"])
  fix job url depth rest
  assume "crawl_inv env robots origin seed max_depth max_pages job" "cj_queue job = (url, depth) # rest"
  then show "crawl_inv env robots origin seed max_depth max_pages (job\<lparr> cj_queue := rest \<rparr>)"
    by (auto simp: crawl_inv_def)
qed (use assms in \<open>auto intro: crawl_inv_page\<close>)

lemma crawl_start_inv: "crawl_inv env robots origin (cr_url req) max_depth max_pages (crawl_start env req)"
  by (simp add: crawl_inv_def crawl_start_def blocked_pages_def in_scope_def)

text \<open>A crawl that gets past the seed checks is its loop; any other reports a failure at once.\<close>

lemma run_crawl_cases:
  obtains (refused) e where "run_crawl env req = ([send_failed e], [])"
  | (ran) base job where "ce_parse env (cr_url req) = Some base"
      "crawl_inv env (crawl_robots env req (wu_origin base)) (wu_origin base) (cr_url req)
         (crawl_max_depth req) (crawl_max_pages req) job"
      "run_crawl env req = (cj_sent job @ [completed_state job], cj_fetched job)"
      "validate_safe_url_resolved (ce_dns env) (ce_test_allow env) (url.truncate base) = Accepted"
proof (cases "ce_parse env (cr_url req)")
  case None
  then show ?thesis using refused by (simp add: run_crawl_def)
next
  case (Some base)
  show ?thesis
  proof (cases "validate_safe_url_resolved (ce_dns env) (ce_test_allow env) (url.truncate base)")
    case (Inl e)
    then show ?thesis using refused Some by (simp add: run_crawl_def)
  next
    case (Inr x)
    then show ?thesis
      using refused ran [OF Some crawl_loop_inv [OF crawl_start_inv]] Some
      by (cases "url_host base") (auto simp: run_crawl_def Let_def)
  qed
qed

text \<open>
  C29. Every crawl ends, whatever the site, the renderer and the classifiers answer, and its
  states add up: it reports either one failure, or \<open>n\<close> progress states that count the pages
  up to \<open>n\<close> with never more blocked than completed, and then one completed state whose data
  are those \<open>n\<close> documents, of which exactly \<open>blocked\<close> carry a block. At most
  \<open>min max_pages 1000\<close> pages are fetched, one per document, and \<open>total\<close> never exceeds that
  number (or 1).
\<close>

theorem crawl_adds_up:
  "case run_crawl env req of (states, fetched) \<Rightarrow>
     (\<exists>e. states = [send_failed e] \<and> fetched = [])
     \<or> (\<exists>reports final. states = reports @ [final]
          \<and> list_all2 (progress_report (max (crawl_max_pages req) 1)) [0..<length fetched] reports
          \<and> cs_status final = Completed \<and> cs_success final
          \<and> cs_completed final = length fetched \<and> length (cs_data final) = length fetched
          \<and> cs_blocked final = length (filter (\<lambda>d. sd_block d \<noteq> None) (cs_data final))
          \<and> length fetched \<le> crawl_max_pages req \<and> crawl_max_pages req \<le> 1000
          \<and> cs_total final \<le> max (crawl_max_pages req) 1)"
proof (cases rule: run_crawl_cases [of env req])
  case (refused e)
  then show ?thesis by (simp only: prod.case) blast
next
  case (ran base job)
  have "crawl_max_pages req \<le> 1000" by (simp add: crawl_max_pages_def)
  then show ?thesis
    using ran(2) unfolding ran(3) crawl_inv_def
    by (auto simp: completed_state_def blocked_pages_def intro!: exI [of _ "cj_sent job"])
qed

text \<open>
  C14. A crawl only fetches what it may: every URL handed to the renderer is one that the
  site's \<open>robots.txt\<close> lets through (when it is respected), and is either the seed at depth 0 or,
  at a depth of at most \<open>min max_depth 10\<close>, the fragment-free form of a link that passed the
  URL safety check, has exactly the seed's origin (port included) and does not name a static
  asset.
\<close>

theorem crawl_stays_in_scope:
  assumes "run_crawl env req = (states, fetched)" and "(url, depth) \<in> set fetched"
  shows "\<exists>base. ce_parse env (cr_url req) = Some base
    \<and> robots_let env (crawl_robots env req (wu_origin base)) url
    \<and> depth \<le> 10 \<and> in_scope env (wu_origin base) (cr_url req) (crawl_max_depth req) (url, depth)"
proof (cases rule: run_crawl_cases [of env req])
  case (refused e)
  then show ?thesis using assms by simp
next
  case (ran base job)
  then have "(url, depth) \<in> set (cj_fetched job)" using assms by simp
  then have "robots_let env (crawl_robots env req (wu_origin base)) url"
      "in_scope env (wu_origin base) (cr_url req) (crawl_max_depth req) (url, depth)"
    using ran(2) by (auto simp: crawl_inv_def list_all_iff)
  moreover from this(2) have "depth \<le> 10" by (auto simp: in_scope_def crawl_max_depth_def)
  ultimately show ?thesis using ran(1) by blast
qed

subsection \<open>A small site\<close>

text \<open>Two pages: the front page links to the second one and to a picture.\<close>

definition demo_web :: "string \<Rightarrow> web_url option" where
  "demo_web s =
    (if prefix ''http://a/'' s
     then Some \<lparr> url_text = s, url_scheme = ''http'', url_host = Some ''a'', url_port = Some 80,
                 wu_origin = ''http://a'', wu_path = drop 8 s, wu_query = None, wu_no_fragment = s \<rparr>
     else None)"

definition demo_fetch :: "string \<Rightarrow> unit fetch_result" where
  "demo_fetch u = \<lparr> fr_url = u, fr_final_url = None, fr_status = 200, fr_html = ''<p>'',
     fr_content_type = None, fr_raw_bytes = None, fr_rendered_with = None, fr_elapsed_ms = 9,
     fr_warning = None, fr_credit_cost = 1, fr_warnings = [], fr_truncated = False,
     fr_deadline_exceeded = False, fr_captured = [], fr_wall = None, fr_meta = () \<rparr>"

definition demo_env :: "(unit, unit) crawl_env" where
  "demo_env =
    \<lparr> ce_parse = demo_web, ce_parse_error = (\<lambda>_. ''bad''), ce_error_text = (\<lambda>_. ''refused''),
      ce_lower = to_ascii_lowercase, ce_test_allow = False, ce_dns = (\<lambda>_ _. DnsAnswer [V4 8 8 8 8]),
      ce_robots_client = (\<lambda>_. Reply 404 []), ce_lossy = id, ce_fetch = (\<lambda>n u. Inr (demo_fetch u)),
      ce_generic_wall = (\<lambda>_. False), ce_links = (\<lambda>html page. [''http://a/p'', ''http://a/i.PNG'']),
      ce_warning = (\<lambda>_. None), ce_pdf = (\<lambda>_ _. Inl ''bad''),
      ce_extract = (\<lambda>r. Inr (scrape_data_default\<lparr> sd_markdown := Some ''text'' \<rparr>)),
      ce_classify = (\<lambda>_ _. None), ce_error_wall = (\<lambda>_ _. None), ce_llm = None,
      ce_accumulate = (\<lambda>a b. a) \<rparr>"

definition demo_request :: crawl_request where
  "demo_request = \<lparr> cr_url = ''http://a/'', cr_max_depth = Some 1, cr_max_pages = Some 5, cr_respect_robots = True \<rparr>"

lemmas crawl_eval =
  run_crawl_def demo_env_def demo_request_def demo_web_def demo_fetch_def Let_def
  url.truncate_def validate_safe_url_resolved_def validate_safe_url_def validate_safe_host_def
  max_url_length_def contains_str_def is_blocked_host_name_def to_ascii_lowercase_def ascii_lower_def
  byte_def trim_end_char_def strip_brackets_def trim_start_char_def suffix_def resolve_and_validate_def
  is_blocked_ipv4_def crawl_start_def crawl_max_pages_def crawl_max_depth_def crawl_robots_def
  robots_fetch_def robots_empty_def crawl_page_def is_url_allowed_def is_allowed_def
  is_unclearable_wall_def is_cdn_origin_error_def enqueue_discovered_links_def enqueue_link_def
  is_safe_url_def is_static_asset_def asset_extensions_def eq_ignore_ascii_case_def rfind_char_def
  normalize_url_def convert_page_def judge_page_def http_error_def is_error_page_sized_def
  rendered_text_len_def max_len_def scrape_data_default_def error_page_max_text_def
  extract_structured_def publish_def progress_def chr_of_def char_of_def bit_0

lemma demo_links: "enqueue_discovered_links demo_env html page ''http://a'' 5 0 job =
   (if ''http://a/p'' \<in> set (cj_visited job) \<or> 5 \<le> length (cj_visited job) then job
    else job\<lparr> cj_visited := ''http://a/p'' # cj_visited job, cj_queue := cj_queue job @ [(''http://a/p'', 1)] \<rparr>)"
  by (simp add: crawl_eval parse_eval)

lemma demo_page:
  assumes "url \<in> {''http://a/'', ''http://a/p''}"
  shows "crawl_page demo_env robots_empty ''http://a'' (Suc 0) 5 url depth job =
    record_page (scrape_data_default\<lparr> sd_markdown := Some ''text'' \<rparr>)
      (if depth < Suc 0 then enqueue_discovered_links demo_env ''<p>'' url ''http://a'' 5 depth
                          (job\<lparr> cj_fetched := cj_fetched job @ [(url, depth)] \<rparr>)
       else job\<lparr> cj_fetched := cj_fetched job @ [(url, depth)] \<rparr>)"
  using assms
  by (auto simp: crawl_page_def demo_env_def demo_fetch_def Let_def record_page_def robots_empty_def
      is_url_allowed_def is_allowed_def is_unclearable_wall_def is_cdn_origin_error_def
      convert_page_def judge_page_def extract_structured_def scrape_data_default_def http_error_def
      rendered_text_len_def max_len_def is_error_page_sized_def error_page_max_text_def
      demo_web_def split: option.splits)

lemma demo_seed_ok: "validate_safe_url_resolved (ce_dns demo_env) False
    \<lparr> url_text = ''http://a/'', url_scheme = ''http'', url_host = Some ''a'', url_port = Some 80 \<rparr> = Accepted"
  by (simp add: crawl_eval parse_eval)

lemma demo_run: "snd (run_crawl demo_env demo_request) = [(''http://a/'', 0), (''http://a/p'', 1)]"
proof -
  let ?loop = "crawl_loop demo_env robots_empty ''http://a'' 1 5"
  have seed: "crawl_start demo_env demo_request = \<lparr> cj_visited = [''http://a''],
      cj_queue = [(''http://a/'', 0)], cj_results = [], cj_blocked = 0, cj_sent = [], cj_fetched = [] \<rparr>"
    by (simp add: crawl_eval)
  have "cj_fetched (?loop (crawl_start demo_env demo_request)) = [(''http://a/'', 0), (''http://a/p'', 1)]"
    unfolding seed
    by (simp add: crawl_loop.simps [of _ _ _ _ _ "_\<lparr> cj_queue := _ \<rparr>"] crawl_loop.simps demo_page
        demo_links record_page_def publish_def)
  moreover have "ce_parse demo_env (cr_url demo_request) = Some \<lparr> url_text = ''http://a/'',
      url_scheme = ''http'', url_host = Some ''a'', url_port = Some 80, wu_origin = ''http://a'',
      wu_path = ''/'', wu_query = None, wu_no_fragment = ''http://a/'' \<rparr>"
    by (simp add: demo_env_def demo_request_def demo_web_def)
  moreover have "crawl_robots demo_env demo_request ''http://a'' = robots_empty"
    by (simp add: crawl_robots_def demo_env_def demo_request_def robots_fetch_def)
  moreover have "ce_test_allow demo_env = False" by (simp add: demo_env_def)
  ultimately show ?thesis
    using demo_seed_ok
    by (simp add: run_crawl_def url.truncate_def Let_def crawl_max_depth_def crawl_max_pages_def
        demo_request_def [THEN arg_cong, of cr_max_depth] demo_request_def [THEN arg_cong, of cr_max_pages])
qed

theorem crawl_stays_in_scope_witness:
  "\<exists>base link u. ce_parse demo_env ''http://a/'' = Some base \<and> ce_parse demo_env link = Some u
     \<and> is_safe_url demo_env u \<and> wu_origin u = wu_origin base \<and> wu_no_fragment u = ''http://a/p''"
proof -
  obtain states where r: "run_crawl demo_env demo_request = (states, [(''http://a/'', 0), (''http://a/p'', 1)])"
    using demo_run by (metis prod.collapse)
  have "(''http://a/p'', 1) \<in> set [(''http://a/'', 0), (''http://a/p'', 1 :: nat)]" by simp
  from crawl_stays_in_scope [OF r this] obtain base where b: "ce_parse demo_env ''http://a/'' = Some base"
    and sc: "in_scope demo_env (wu_origin base) ''http://a/'' (crawl_max_depth demo_request) (''http://a/p'', 1)"
    by (auto simp: demo_request_def)
  from sc obtain link u where "ce_parse demo_env link = Some u" "is_safe_url demo_env u"
    "wu_origin u = wu_origin base" "''http://a/p'' = wu_no_fragment u"
    unfolding in_scope_def by auto
  then show ?thesis using b by metis
qed

subsection \<open>No page is fetched twice\<close>

definition page_key :: "('m, 'u) crawl_env \<Rightarrow> string \<times> nat \<Rightarrow> string" where
  "page_key env e = normalize_url (ce_lower env) (fst e)"

definition keys_once :: "('m, 'u) crawl_env \<Rightarrow> 'u crawl_job \<Rightarrow> bool" where
  "keys_once env job \<longleftrightarrow>
     distinct (map (page_key env) (cj_fetched job @ cj_queue job))
     \<and> set (map (page_key env) (cj_fetched job @ cj_queue job)) \<subseteq> set (cj_visited job)"

text \<open>Link extraction serialises what it finds with the URL crate, so that dropping the
  fragment does not change the key.\<close>

definition canonical_links :: "('m, 'u) crawl_env \<Rightarrow> bool" where
  "canonical_links env \<longleftrightarrow>
     (\<forall>html page link u. link \<in> set (ce_links env html page) \<longrightarrow> ce_parse env link = Some u \<longrightarrow>
        normalize_url (ce_lower env) (wu_no_fragment u) = normalize_url (ce_lower env) link)"

lemma enqueue_links_once:
  assumes "canonical_links env" and "keys_once env job"
  shows "keys_once env (enqueue_discovered_links env html page origin n depth job)"
proof -
  have "keys_once env (fold (enqueue_link env origin n depth) ls job)"
    if "set ls \<subseteq> set (ce_links env html page)" "keys_once env job" for ls job
    using that
  proof (induction ls arbitrary: job)
    case (Cons link ls)
    have "keys_once env (enqueue_link env origin n depth link job)"
    proof (cases "ce_parse env link")
      case (Some u)
      then have "normalize_url (ce_lower env) (wu_no_fragment u) = normalize_url (ce_lower env) link"
        using assms(1) Cons.prems(1) unfolding canonical_links_def by auto
      then show ?thesis
        using Cons.prems(2) Some by (auto simp: enqueue_link_def Let_def keys_once_def page_key_def)
    qed (use Cons.prems(2) in \<open>simp add: enqueue_link_def\<close>)
    then show ?case using Cons by simp
  qed simp
  then show ?thesis using assms(2) by (simp add: enqueue_discovered_links_def)
qed

lemma crawl_page_once:
  assumes "canonical_links env" and "keys_once env job" and "cj_queue job = (url, depth) # rest"
  shows "keys_once env (crawl_page env robots origin max_depth n url depth (job\<lparr> cj_queue := rest \<rparr>))"
proof -
  let ?job = "job\<lparr> cj_queue := rest, cj_fetched := cj_fetched job @ [(url, depth)] \<rparr>"
  have k: "keys_once env (job\<lparr> cj_queue := rest \<rparr>)" "keys_once env ?job"
    using assms(2,3) by (auto simp: keys_once_def page_key_def)
  have p: "keys_once env (publish j) = keys_once env j" "keys_once env (push_failed_page d j) = keys_once env j"
    "keys_once env (j\<lparr> cj_blocked := b, cj_results := ds \<rparr>) = keys_once env j" for j d b ds
    by (simp_all add: keys_once_def)
  show ?thesis
    using k enqueue_links_once [OF assms(1) k(2)]
    by (auto simp: crawl_page_def Let_def p split: option.splits sum.splits)
qed

text \<open>
  No page is requested twice: when link extraction yields canonical links, the URLs handed
  to the renderer during a crawl have pairwise different deduplication keys.
\<close>

theorem crawl_fetches_once:
  fixes env :: "('m, 'u) crawl_env"
  assumes "canonical_links env"
  shows "distinct (map (page_key env) (snd (run_crawl env req)))"
proof -
  have "keys_once env (crawl_loop env robots origin max_depth max_pages (crawl_start env req))"
    for robots origin max_depth max_pages
  proof (rule crawl_loop_invariant [where I = "keys_once env"])
    show "keys_once env (crawl_start env req)" by (simp add: keys_once_def crawl_start_def page_key_def)
  next
    fix job :: "'u crawl_job" and url depth rest
    assume k: "keys_once env job" "cj_queue job = (url, depth) # rest"
    show "keys_once env (crawl_page env robots origin max_depth max_pages url depth (job\<lparr> cj_queue := rest \<rparr>))"
      using crawl_page_once [OF assms k] .
    show "keys_once env (job\<lparr> cj_queue := rest \<rparr>)"
      using k by (auto simp: keys_once_def)
  qed
  then show ?thesis
    by (auto simp: run_crawl_def Let_def keys_once_def split: option.splits sum.splits)
qed

theorem crawl_fetches_once_witness:
  "distinct (map (page_key demo_env) (snd (run_crawl demo_env demo_request)))
   \<and> length (snd (run_crawl demo_env demo_request)) = 2"
proof -
  have "canonical_links demo_env"
    by (auto simp: canonical_links_def demo_env_def demo_web_def split: if_splits)
  note once = crawl_fetches_once [OF this, of demo_request]
  show ?thesis using once demo_run by (metis length_Cons list.size(3) numeral_2_eq_2)
qed

end
