(* ===== verification/Schedule.thy ===== *)
theory Schedule
  imports Prelude Rust_Str
begin

section \<open>Monitor schedules\<close>

text \<open>
  \<open>crates/crw-monitor/src/schedule.rs\<close>: fixed intervals and five-field cron expressions, in
  UTC. Unix times are \<open>int\<close> (an \<open>i64\<close> in the code; the additions below stay far from its
  bounds for the times a clock gives), a \<open>u32\<close> addition that can overflow wraps, as in a
  release build. \<open>FieldSet::allowed\<close> is a list of flags indexed from 0.
\<close>

datatype schedule_error =
    InvalidInterval string
  | ZeroInterval
  | CronFieldCount nat
  | BadStep string
  | ZeroStep string
  | BadRange string
  | BadValue string
  | FieldOutOfRange string nat nat

record field_set =
  fs_allowed :: "bool list"
  fs_base :: nat
  fs_wildcard :: bool

record cron_expr =
  cron_minute :: field_set
  cron_hour :: field_set
  cron_dom :: field_set
  cron_month :: field_set
  cron_dow :: field_set

datatype schedule = Interval nat | Cron cron_expr

definition parse_interval :: "string \<Rightarrow> schedule_error + nat" where
  "parse_interval s =
    (let digits = (case strip_suffix ''s'' s of Some d \<Rightarrow> d | None \<Rightarrow> s)
     in case parse_unsigned u64_max digits of
          None \<Rightarrow> Inl (InvalidInterval s)
        | Some n \<Rightarrow> if n = 0 then Inl ZeroInterval else Inr n)"

subsection \<open>Fields\<close>

text \<open>
  The marking loop. Its index moves in one direction until it passes \<open>hi\<close> (upwards, or
  downwards when a step close to \<open>2 ^ 32\<close> wraps), so \<open>hi + 1\<close> rounds are enough; the fuel is
  that number.
\<close>

fun mark_steps :: "nat \<Rightarrow> nat \<Rightarrow> nat \<Rightarrow> nat \<Rightarrow> bool list \<Rightarrow> bool list" where
  "mark_steps 0 v hi step allowed = allowed"
| "mark_steps (Suc fuel) v hi step allowed =
    (if hi < v then allowed
     else mark_steps fuel ((v + step) mod 2 ^ 32) hi step (allowed[v := True]))"

definition token_step :: "string \<Rightarrow> schedule_error + (string \<times> nat)" where
  "token_step token =
    (case split_once (CHR ''/'') token of
       Some (r, s) \<Rightarrow>
         (case parse_unsigned u32_max s of
            None \<Rightarrow> Inl (BadStep token)
          | Some step \<Rightarrow> if step = 0 then Inl (ZeroStep token) else Inr (r, step))
     | None \<Rightarrow> Inr (token, 1))"

definition token_range :: "string \<Rightarrow> nat \<Rightarrow> nat \<Rightarrow> string \<Rightarrow> schedule_error + (nat \<times> nat)" where
  "token_range token minv maxv range_part =
    (if range_part = ''*'' then Inr (minv, maxv)
     else
       (case split_once (CHR ''-'') range_part of
          Some (a, b) \<Rightarrow>
            (case parse_unsigned u32_max a of
               None \<Rightarrow> Inl (BadRange token)
             | Some lo \<Rightarrow>
                 (case parse_unsigned u32_max b of
                    None \<Rightarrow> Inl (BadRange token)
                  | Some hi \<Rightarrow> Inr (lo, hi)))
        | None \<Rightarrow>
            (case parse_unsigned u32_max range_part of
               None \<Rightarrow> Inl (BadValue token)
             | Some v \<Rightarrow> Inr (v, v))))"

text \<open>What a token of a field denotes: its bounds and its step.\<close>

definition parse_token :: "nat \<Rightarrow> nat \<Rightarrow> string \<Rightarrow> schedule_error + (nat \<times> nat \<times> nat)" where
  "parse_token minv maxv token =
    (case token_step token of
       Inl e \<Rightarrow> Inl e
     | Inr (range_part, step) \<Rightarrow>
         (case token_range token minv maxv range_part of
            Inl e \<Rightarrow> Inl e
          | Inr (lo, hi) \<Rightarrow>
              if lo < minv \<or> maxv < hi \<or> hi < lo then Inl (FieldOutOfRange token minv maxv)
              else Inr (lo, hi, step)))"

fun parse_tokens :: "nat \<Rightarrow> nat \<Rightarrow> string list \<Rightarrow> bool list \<Rightarrow> schedule_error + bool list" where
  "parse_tokens minv maxv [] allowed = Inr allowed"
| "parse_tokens minv maxv (token # tokens) allowed =
    (case parse_token minv maxv token of
       Inl e \<Rightarrow> Inl e
     | Inr (lo, hi, step) \<Rightarrow>
         parse_tokens minv maxv tokens (mark_steps (Suc hi) lo hi step allowed))"

definition field_parse :: "string \<Rightarrow> nat \<Rightarrow> nat \<Rightarrow> schedule_error + field_set" where
  "field_parse spec minv maxv =
    (case parse_tokens minv maxv (split_char (CHR '','') spec) (replicate (maxv + 1) False) of
       Inl e \<Rightarrow> Inl e
     | Inr allowed \<Rightarrow>
         Inr \<lparr> fs_allowed = allowed, fs_base = minv,
               fs_wildcard = (spec = ''*'' \<or> prefix ''*/'' spec) \<rparr>)"

definition field_contains :: "field_set \<Rightarrow> nat \<Rightarrow> bool" where
  "field_contains f v = (v < length (fs_allowed f) \<and> fs_allowed f ! v)"

definition cron_parse :: "string \<Rightarrow> schedule_error + cron_expr" where
  "cron_parse s =
    (case split_whitespace s of
       [a, b, c, d, e] \<Rightarrow>
         (case field_parse a 0 59 of Inl err \<Rightarrow> Inl err | Inr minute \<Rightarrow>
         (case field_parse b 0 23 of Inl err \<Rightarrow> Inl err | Inr hour \<Rightarrow>
         (case field_parse c 1 31 of Inl err \<Rightarrow> Inl err | Inr day \<Rightarrow>
         (case field_parse d 1 12 of Inl err \<Rightarrow> Inl err | Inr month \<Rightarrow>
         (case field_parse e 0 6 of Inl err \<Rightarrow> Inl err | Inr dow \<Rightarrow>
            Inr \<lparr> cron_minute = minute, cron_hour = hour, cron_dom = day, cron_month = month,
                  cron_dow = dow \<rparr>)))))
     | parts \<Rightarrow> Inl (CronFieldCount (length parts)))"

definition schedule_parse :: "string \<Rightarrow> schedule_error + schedule" where
  "schedule_parse s0 =
    (let s = trim s0
     in case strip_prefix ''@every'' s of
          Some rest \<Rightarrow> map_sum id Interval (parse_interval (trim rest))
        | None \<Rightarrow>
            if (case s of c # _ \<Rightarrow> is_ascii_digit c | [] \<Rightarrow> False) \<and> length (split_whitespace s) = 1
            then map_sum id Interval (parse_interval s)
            else map_sum id Cron (cron_parse s))"

subsection \<open>Civil time\<close>

record civil =
  civ_month :: nat
  civ_day :: nat
  civ_hour :: nat
  civ_minute :: nat
  civ_weekday :: nat

text \<open>\<open>div\<close> and \<open>mod\<close> of HOL are Rust's \<open>div_euclid\<close> and \<open>rem_euclid\<close> for positive divisors; the
  other divisions below have operands that are not negative.\<close>

definition civil_from_unix :: "int \<Rightarrow> civil" where
  "civil_from_unix secs =
    (let days = secs div 86400;
         secs_of_day = secs mod 86400;
         z = days + 719468;
         era = z div 146097;
         doe = z - era * 146097;
         yoe = (doe - doe div 1460 + doe div 36524 - doe div 146096) div 365;
         doy = doe - (365 * yoe + yoe div 4 - yoe div 100);
         mp = (5 * doy + 2) div 153
     in \<lparr> civ_month = nat (if mp < 10 then mp + 3 else mp - 9),
          civ_day = nat (doy - (153 * mp + 2) div 5 + 1),
          civ_hour = nat (secs_of_day div 3600),
          civ_minute = nat ((secs_of_day mod 3600) div 60),
          civ_weekday = nat ((days mod 7 + 4) mod 7) \<rparr>)"

subsection \<open>The next run\<close>

definition cron_day_ok :: "cron_expr \<Rightarrow> civil \<Rightarrow> bool" where
  "cron_day_ok c dt =
    (let dow_match = field_contains (cron_dow c) (civ_weekday dt);
         dom_match = field_contains (cron_dom c) (civ_day dt)
     in if fs_wildcard (cron_dom c) \<and> fs_wildcard (cron_dow c) then True
        else if \<not> fs_wildcard (cron_dom c) \<and> \<not> fs_wildcard (cron_dow c) then dom_match \<or> dow_match
        else if fs_wildcard (cron_dom c) then dow_match
        else dom_match)"

definition cron_matches :: "cron_expr \<Rightarrow> int \<Rightarrow> bool" where
  "cron_matches c t =
    (let dt = civil_from_unix t
     in field_contains (cron_minute c) (civ_minute dt) \<and> field_contains (cron_hour c) (civ_hour dt)
        \<and> field_contains (cron_month c) (civ_month dt) \<and> cron_day_ok c dt)"

text \<open>The bounded search: \<open>None\<close> when the loop runs out.\<close>

fun cron_search :: "nat \<Rightarrow> cron_expr \<Rightarrow> int \<Rightarrow> int option" where
  "cron_search 0 c t = None"
| "cron_search (Suc n) c t = (if cron_matches c t then Some t else cron_search n c (t + 60))"

definition cron_horizon :: nat where
  "cron_horizon = 366 * 4 * 24 * 60"

text \<open>\<open>i64\<close> division truncates.\<close>

definition trunc_div :: "int \<Rightarrow> int \<Rightarrow> int" where
  "trunc_div a b = (if a < 0 then - ((- a) div b) else a div b)"

definition cron_next_after :: "cron_expr \<Rightarrow> int \<Rightarrow> int" where
  "cron_next_after c from =
    (case cron_search cron_horizon c ((trunc_div from 60 + 1) * 60) of
       Some t \<Rightarrow> t
     | None \<Rightarrow> from + 60 * 60 * 24 * 365)"

definition schedule_next_after :: "schedule \<Rightarrow> int \<Rightarrow> int" where
  "schedule_next_after s from =
    (case s of
       Interval secs \<Rightarrow> from + as_i64 secs
     | Cron c \<Rightarrow> cron_next_after c from)"

subsection \<open>The search\<close>

lemma cron_search_Some:
  "cron_search n c t = Some r \<Longrightarrow>
     \<exists>k. r = t + 60 * int k \<and> k < n \<and> cron_matches c r \<and> (\<forall>j < k. \<not> cron_matches c (t + 60 * int j))"
proof (induction n arbitrary: t)
  case (Suc n)
  show ?case
  proof (cases "cron_matches c t")
    case True
    then show ?thesis using Suc.prems by (intro exI [of _ 0]) simp
  next
    case False
    then obtain k where k: "r = t + 60 + 60 * int k" "k < n" "cron_matches c r"
        "\<forall>j < k. \<not> cron_matches c (t + 60 + 60 * int j)"
      using Suc.IH [of "t + 60"] Suc.prems by auto
    have "\<not> cron_matches c (t + 60 * int j)" if "j < Suc k" for j
      using that False k(4) by (cases j) (auto simp: algebra_simps)
    then show ?thesis using k by (intro exI [of _ "Suc k"]) (auto simp: algebra_simps)
  qed
qed simp

lemma cron_search_None:
  "cron_search n c t = None \<Longrightarrow> k < n \<Longrightarrow> \<not> cron_matches c (t + 60 * int k)"
proof (induction n arbitrary: t k)
  case (Suc n)
  then have "\<not> cron_matches c t" "cron_search n c (t + 60) = None" by (auto split: if_splits)
  then show ?case
    using Suc.IH [of "t + 60" "k - 1"] Suc.prems(2) by (cases k) (auto simp: algebra_simps)
qed simp

lemma cron_next_after_later:
  assumes "0 \<le> from"
  shows "from < cron_next_after c from"
proof -
  have start: "(trunc_div from 60 + 1) * 60 = (from div 60 + 1) * 60" using assms by (simp add: trunc_div_def)
  show ?thesis
  proof (cases "cron_search cron_horizon c ((from div 60 + 1) * 60)")
    case (Some r)
    then obtain k where "r = (from div 60 + 1) * 60 + 60 * int k" using cron_search_Some [OF Some] by blast
    then show ?thesis unfolding cron_next_after_def start using Some by simp
  qed (unfold cron_next_after_def start, simp)
qed


subsection \<open>What a field denotes\<close>

definition token_covers :: "nat \<Rightarrow> nat \<Rightarrow> nat \<Rightarrow> string \<Rightarrow> bool" where
  "token_covers minv maxv v token =
    (case parse_token minv maxv token of
       Inl _ \<Rightarrow> False
     | Inr (lo, hi, step) \<Rightarrow> lo \<le> v \<and> v \<le> hi \<and> step dvd (v - lo))"

definition small_step :: "nat \<Rightarrow> nat \<Rightarrow> string \<Rightarrow> bool" where
  "small_step minv maxv token =
    (case parse_token minv maxv token of Inl _ \<Rightarrow> True | Inr (lo, hi, step) \<Rightarrow> step \<le> 2 ^ 31)"

lemma length_mark_steps [simp]: "length (mark_steps n v hi step allowed) = length allowed"
  by (induction n v hi step allowed rule: mark_steps.induct) simp_all

lemma mark_steps_nth:
  assumes "0 < step" and "step \<le> 2 ^ 31" and "hi < 2 ^ 31" and "hi < v + n" and "i < length allowed"
    and "hi < length allowed"
  shows "mark_steps n v hi step allowed ! i \<longleftrightarrow> allowed ! i \<or> v \<le> i \<and> i \<le> hi \<and> step dvd (i - v)"
  using assms(4-6)
proof (induction n arbitrary: v allowed)
  case (Suc n)
  show ?case
  proof (cases "hi < v")
    case False
    then have w: "(v + step) mod 2 ^ 32 = v + step" using assms(1-3) by simp
    have dvd: "v \<le> i \<and> i \<le> hi \<and> step dvd (i - v) \<longleftrightarrow>
        i = v \<or> v + step \<le> i \<and> i \<le> hi \<and> step dvd (i - (v + step))"
    proof
      assume a: "v \<le> i \<and> i \<le> hi \<and> step dvd (i - v)"
      show "i = v \<or> v + step \<le> i \<and> i \<le> hi \<and> step dvd (i - (v + step))"
      proof (cases "i = v")
        case False
        then have "step \<le> i - v" using a by (simp add: dvd_imp_le)
        have le: "v + step \<le> i" using \<open>step \<le> i - v\<close> a by (simp add: le_diff_conv2 add.commute)
        have "step dvd (i - v) - step" using a dvd_diff_nat [of step "i - v" step] by simp
        then have "step dvd i - (v + step)" by simp
        then show ?thesis using le a by simp
      qed simp
    next
      assume "i = v \<or> v + step \<le> i \<and> i \<le> hi \<and> step dvd (i - (v + step))"
      then show "v \<le> i \<and> i \<le> hi \<and> step dvd (i - v)"
      proof
        assume a: "v + step \<le> i \<and> i \<le> hi \<and> step dvd (i - (v + step))"
        then have "i - v = (i - (v + step)) + step" by simp
        then show ?thesis using a by (metis add_leD1 dvd_add dvd_refl)
      qed (use False in simp)
    qed
    have "mark_steps n (v + step) hi step (allowed[v := True]) ! i \<longleftrightarrow>
        allowed[v := True] ! i \<or> v + step \<le> i \<and> i \<le> hi \<and> step dvd (i - (v + step))"
      using Suc.IH [of "v + step" "allowed[v := True]"] Suc.prems assms(1) by simp
    also have "allowed[v := True] ! i \<longleftrightarrow> allowed ! i \<or> i = v"
      using Suc.prems(2) False by (cases "i = v") auto
    finally show ?thesis using False w dvd by auto
  qed auto
qed auto

lemma parse_token_bounds:
  "parse_token minv maxv token = Inr (lo, hi, step) \<Longrightarrow> lo \<le> hi \<and> hi \<le> maxv \<and> 0 < step"
  by (auto simp: parse_token_def token_step_def split: sum.splits prod.splits option.splits if_splits)

lemma parse_tokens_nth:
  assumes "parse_tokens minv maxv tokens allowed = Inr allowed'" and "list_all (small_step minv maxv) tokens"
    and "maxv < 2 ^ 31" and "length allowed = maxv + 1"
  shows "length allowed' = maxv + 1
    \<and> (\<forall>v \<le> maxv. allowed' ! v \<longleftrightarrow> allowed ! v \<or> list_ex (token_covers minv maxv v) tokens)"
  using assms
proof (induction minv maxv tokens allowed rule: parse_tokens.induct)
  case (2 minv maxv token tokens allowed)
  obtain lo hi step where t: "parse_token minv maxv token = Inr (lo, hi, step)"
    and rest: "parse_tokens minv maxv tokens (mark_steps (Suc hi) lo hi step allowed) = Inr allowed'"
    using 2(2) by (auto split: sum.splits)
  note b = parse_token_bounds [OF t]
  have s: "step \<le> 2 ^ 31" using 2(3) t by (simp add: small_step_def)
  have "mark_steps (Suc hi) lo hi step allowed ! v \<longleftrightarrow> allowed ! v \<or> token_covers minv maxv v token"
    if "v \<le> maxv" for v
    using mark_steps_nth [of step hi lo "Suc hi" v allowed] b s that 2(4,5) t
    by (simp add: token_covers_def)
  then show ?case
    using 2(1) [OF t refl refl rest] 2(3,4,5) by auto
qed simp

text \<open>
  A parsed field holds exactly the values its tokens denote: \<open>v\<close> is in it when some token
  has bounds around \<open>v\<close> and \<open>v\<close> lies a multiple of its step above its lower bound, for steps
  that do not wrap around (up to \<open>2 ^ 31\<close>).
\<close>

theorem field_holds_its_tokens:
  assumes "field_parse spec minv maxv = Inr f" and "maxv < 2 ^ 31"
    and "list_all (small_step minv maxv) (split_char (CHR '','') spec)"
  shows "field_contains f v \<longleftrightarrow> list_ex (token_covers minv maxv v) (split_char (CHR '','') spec)"
proof -
  obtain allowed where a: "parse_tokens minv maxv (split_char (CHR '','') spec) (replicate (maxv + 1) False)
      = Inr allowed" "fs_allowed f = allowed"
    using assms(1) by (auto simp: field_parse_def split: sum.splits)
  note n = parse_tokens_nth [OF a(1) assms(3,2)]
  have "\<not> token_covers minv maxv v token" if "maxv < v" for token
    using that parse_token_bounds [of minv maxv token]
    by (fastforce simp: token_covers_def split: sum.splits)
  then show ?thesis
    using n a(2)
    by (cases "v \<le> maxv") (auto simp: field_contains_def list_ex_iff simp del: replicate_Suc)
qed

lemmas token_eval =
  parse_token_def token_step_def token_range_def split_once_def parse_unsigned_def is_ascii_digit_def
  byte_def digits_val_def u32_max_def

theorem field_holds_its_tokens_witness:
  "\<exists>f. field_parse ''1-5/2,9'' 0 59 = Inr f \<and> field_contains f 3 \<and> \<not> field_contains f 4"
proof -
  have sp: "split_char (CHR '','') ''1-5/2,9'' = [''1-5/2'', ''9'']" by simp
  have t: "parse_token 0 59 ''1-5/2'' = Inr (1, 5, 2)" "parse_token 0 59 ''9'' = Inr (9, 9, 1)"
    by (simp_all add: token_eval)
  then obtain f where f: "field_parse ''1-5/2,9'' 0 59 = Inr f"
    by (simp add: field_parse_def)
  have s: "list_all (small_step 0 59) (split_char (CHR '','') ''1-5/2,9'')"
    unfolding sp by (simp add: small_step_def t)
  note m = field_holds_its_tokens [OF f _ s, unfolded sp]
  have "field_contains f 3" "\<not> field_contains f 4"
    unfolding m [of 3, simplified] m [of 4, simplified] by (simp_all add: token_covers_def t)
  then show ?thesis using f by blast
qed

subsection \<open>A step on the day of the month\<close>

lemma token_star: "l \<le> m \<Longrightarrow> parse_token l m ''*'' = Inr (l, m, 1)"
  by (simp add: token_eval)

lemma field_parse_star:
  assumes "l \<le> v" and "v \<le> m" and "m < 2 ^ 31"
  shows "\<exists>f. field_parse ''*'' l m = Inr f \<and> field_contains f v"
proof -
  have lm: "l \<le> m" using assms by simp
  obtain allowed where p: "parse_tokens l m [''*''] (replicate (m + 1) False) = Inr allowed"
    by (simp add: token_star [OF lm] del: mark_steps.simps)
  have "list_all (small_step l m) [''*'']" by (simp add: small_step_def token_star [OF lm])
  from parse_tokens_nth [OF p this assms(3)] have "v < length allowed" "allowed ! v"
    using assms by (simp_all add: token_covers_def token_star [OF lm])
  then show ?thesis using p by (simp add: field_parse_def field_contains_def del: mark_steps.simps)
qed


text \<open>
  A stepped day of month restricts nothing: \<open>0 0 */2 * *\<close> runs at every midnight, exactly as
  \<open>0 0 * * *\<close> does, although its day field does not hold the 2nd. The parser counts a stepped
  star as a wildcard and the matcher ignores the field of a wildcard.
\<close>

lemma cron_day_step_ignored:
  "\<exists>c c'. cron_parse ''0 0 */2 * *'' = Inr c \<and> cron_parse ''0 0 * * *'' = Inr c'
     \<and> cron_next_after c = cron_next_after c' \<and> \<not> field_contains (cron_dom c) 2"
proof -
  have ws: "split_whitespace ''0 0 */2 * *'' = [''0'', ''0'', ''*/2'', ''*'', ''*'']"
    "split_whitespace ''0 0 * * *'' = [''0'', ''0'', ''*'', ''*'', ''*'']"
    by (simp_all add: split_whitespace_def ws_encodings_def)
  have tok: "parse_token 0 m ''0'' = Inr (0, 0, 1)" "parse_token 1 31 ''*/2'' = Inr (1, 31, 2)"
    "l \<le> m \<Longrightarrow> parse_token l m ''*'' = Inr (l, m, 1)" for l m
    by (simp_all add: token_eval)
  have tok2: "parse_token (Suc 0) 31 ''*/2'' = Inr (Suc 0, 31, 2)" using tok(2) by simp
  obtain a b d e s s' where f: "field_parse ''0'' 0 59 = Inr a" "field_parse ''0'' 0 23 = Inr b"
      "field_parse ''*'' 1 12 = Inr d" "field_parse ''*'' 0 6 = Inr e"
      "field_parse ''*/2'' 1 31 = Inr s" "field_parse ''*'' 1 31 = Inr s'"
    by (simp add: field_parse_def tok tok2 del: mark_steps.simps)
  have w: "fs_wildcard s" "fs_wildcard s'" "fs_wildcard e"
    using f(4-6) by (auto simp: field_parse_def split: sum.splits)
  let ?c = "\<lparr> cron_minute = a, cron_hour = b, cron_dom = s, cron_month = d, cron_dow = e \<rparr>"
  let ?c' = "\<lparr> cron_minute = a, cron_hour = b, cron_dom = s', cron_month = d, cron_dow = e \<rparr>"
  have "cron_matches ?c = cron_matches ?c'"
    by (simp add: fun_eq_iff cron_matches_def cron_day_ok_def Let_def w)
  then have "cron_search n ?c t = cron_search n ?c' t" for n t
    by (induction n arbitrary: t) simp_all
  then have "cron_next_after ?c = cron_next_after ?c'" by (simp add: fun_eq_iff cron_next_after_def)
  moreover have "\<not> field_contains s 2"
  proof -
    have allowed: "parse_tokens 1 31 [''*/2''] (replicate 32 False) = Inr (fs_allowed s)"
      using f(5) by (auto simp: field_parse_def split: sum.splits)
    have "list_all (small_step 1 31) [''*/2'']" by (simp add: small_step_def tok2)
    from parse_tokens_nth [OF allowed this] show ?thesis
      by (simp add: field_contains_def token_covers_def tok2)
  qed
  ultimately show ?thesis using f ws by (simp add: cron_parse_def)
qed

end
