(* ===== verification/Json_Map.thy ===== *)
theory Json_Map
  imports Scrape_Data Keyed_Cache "HOL-Library.List_Lexorder" "HOL-Library.Char_ord"
begin

section \<open>JSON objects\<close>

text \<open>
  \<open>serde_json::Map\<close>, which the build uses as a \<open>BTreeMap\<close>: its members are kept in the order of
  their keys, compared byte by byte, each key once. \<open>json_wf\<close> is that invariant for all the
  objects inside a value; for such values equality of the members as lists is the crate's
  equality of objects.
\<close>

type_synonym members = "(string \<times> json) list"

fun btree_insert :: "'k::linorder \<Rightarrow> 'v \<Rightarrow> ('k \<times> 'v) list \<Rightarrow> ('k \<times> 'v) list" where
  "btree_insert k v [] = [(k, v)]"
| "btree_insert k v ((k', v') # m) =
    (if k < k' then (k, v) # (k', v') # m
     else if k = k' then (k, v) # m
     else (k', v') # btree_insert k v m)"

interpretation btree: keyed_map "map_of :: ('k::linorder \<times> 'v) list \<Rightarrow> 'k \<Rightarrow> 'v option" btree_insert
proof
  fix k k' :: 'k and v :: 'v and m
  show "map_of (btree_insert k v m) k' = (if k' = k then Some v else map_of m k')"
    by (induction k v m rule: btree_insert.induct) auto
qed

definition ordered :: "('k::linorder \<times> 'v) list \<Rightarrow> bool" where
  "ordered m = sorted_wrt (<) (map fst m)"

primrec json_wf :: "json \<Rightarrow> bool" where
  "json_wf JNull = True"
| "json_wf (JBool b) = True"
| "json_wf (JInt i) = True"
| "json_wf (JFloat r) = True"
| "json_wf (JString s) = True"
| "json_wf (JArray xs) = list_all id (map json_wf xs)"
| "json_wf (JObject m) = (ordered m \<and> list_all snd (map (map_prod id json_wf) m))"

text \<open>An object literal: its members inserted one after the other.\<close>

definition json_object :: "members \<Rightarrow> json" where
  "json_object kvs = JObject (btree.ins_all kvs [])"

lemma json_wf_JArray [simp]: "json_wf (JArray xs) \<longleftrightarrow> (\<forall>x \<in> set xs. json_wf x)"
  by (auto simp: list_all_iff)

lemma json_wf_JObject [simp]: "json_wf (JObject m) \<longleftrightarrow> ordered m \<and> (\<forall>x \<in> set m. json_wf (snd x))"
  by (auto simp: list_all_iff)

declare json_wf.simps(6,7) [simp del]

lemma fst_btree_insert: "fst ` set (btree_insert k v m) = insert k (fst ` set m)"
  by (induction k v m rule: btree_insert.induct) auto

lemma ordered_Nil [simp]: "ordered []"
  by (simp add: ordered_def)

lemma ordered_Cons: "ordered (x # m) \<longleftrightarrow> (\<forall>y \<in> set m. fst x < fst y) \<and> ordered m"
  by (auto simp: ordered_def)

lemma ordered_btree_insert: "ordered m \<Longrightarrow> ordered (btree_insert k v m)"
proof (induction k v m rule: btree_insert.induct)
  case (2 k v k' v' m)
  have "k' < fst y" if "\<not> k < k'" "k \<noteq> k'" "y \<in> set (btree_insert k v m)" for y
  proof -
    have "fst y = k \<or> fst y \<in> fst ` set m"
      using imageI [OF that(3), of fst] by (simp add: fst_btree_insert)
    then show ?thesis using that(1,2) 2(2) by (auto simp: ordered_Cons)
  qed
  then show ?case using 2 by (auto simp: ordered_Cons)
qed (simp add: ordered_Cons)

lemma btree_insert_nonempty [simp]: "btree_insert k v m \<noteq> []"
  by (cases "(k, v, m)" rule: btree_insert.cases) auto

lemma ordered_ins_all: "ordered m \<Longrightarrow> ordered (btree.ins_all kvs m)"
  unfolding btree.ins_all_def by (induction kvs arbitrary: m) (auto intro: ordered_btree_insert)

lemma btree_ins_all_Nil_iff: "btree.ins_all kvs [] = [] \<longleftrightarrow> kvs = []"
proof (cases kvs rule: rev_cases)
  case (snoc ys y)
  then show ?thesis by (cases y) (simp add: btree.ins_all_def)
qed (simp add: btree.ins_all_def)

lemma ordered_distinct: "ordered m \<Longrightarrow> distinct (map fst m)"
  by (simp add: ordered_def strict_sorted_iff)

text \<open>An ordered map is determined by its lookups.\<close>

lemma ordered_ext:
  assumes "ordered m" and "ordered m'" and "map_of m = map_of m'"
  shows "m = m'"
proof -
  have "dom (map_of m) = dom (map_of m')" using assms(3) by simp
  then have keys: "map fst m = map fst m'"
    using assms(1,2) by (intro strict_sorted_equal) (auto simp: ordered_def dom_map_of_conv_image_fst)
  have "m = map (\<lambda>k. (k, the (map_of m k))) (map fst m)" if "ordered m" for m :: "('a \<times> 'b) list"
    using ordered_distinct [OF that] by (auto intro!: map_idI [symmetric] simp: comp_def)
  from this [OF assms(1)] this [OF assms(2)] show ?thesis using keys assms(3) by metis
qed

end
