(* ===== verification/Diff.thy ===== *)
theory Diff
  imports Json_Map
begin

section \<open>Change tracking\<close>

text \<open>
  The crate \<open>crates/crw-diff\<close>: \<open>snapshot.rs\<close> (the normal form of a page's markdown and the
  hashes), \<open>json_diff.rs\<close> (the per-field difference of two extractions), \<open>git_diff.rs\<close> (the
  syntax tree of a line diff) and \<open>lib.rs\<close> (the comparison of a page with its previous
  snapshot), with the types of \<open>crates/crw-core/src/types.rs\<close> they exchange. The SHA-256
  digest, the JSON printer and the line diff are third-party code and components of
  \<open>diff_env\<close>.
\<close>

subsection \<open>Types\<close>

datatype change_tracking_mode = GitDiff | Json

definition parse_mode :: "string \<Rightarrow> change_tracking_mode option" where
  "parse_mode s =
    (if s = ''gitDiff'' \<or> s = ''git-diff'' then Some GitDiff
     else if s = ''json'' then Some Json
     else None)"

record change_tracking_snapshot =
  snap_markdown :: "string option"
  snap_json :: "json option"
  snap_content_hash :: string
  snap_captured_at :: "string option"

record change_tracking_options =
  cto_modes :: "change_tracking_mode list"
  cto_schema :: "json option"
  cto_prompt :: "string option"
  cto_previous :: "change_tracking_snapshot option"
  cto_tag :: "string option"
  cto_content_type :: "string option"

datatype change_status = Same | Changed

datatype change_confidence = Low | Medium | High

record meaningful_change =
  mc_type :: string
  mc_before :: "string option"
  mc_after :: "string option"
  mc_reason :: string

text \<open>The token usage of the judge is left out.\<close>

record change_judgment =
  chj_meaningful :: bool
  chj_confidence :: change_confidence
  chj_reason :: string
  chj_meaningful_changes :: "meaningful_change list"

record diff_change =
  dc_type :: string
  dc_content :: string
  dc_ln :: "nat option"
  dc_ln1 :: "nat option"
  dc_ln2 :: "nat option"

record diff_chunk =
  dk_content :: string
  dk_changes :: "diff_change list"
  dk_old_start :: nat
  dk_old_lines :: nat
  dk_new_start :: nat
  dk_new_lines :: nat

record diff_file =
  df_from :: string
  df_to :: string
  df_additions :: nat
  df_deletions :: nat
  df_chunks :: "diff_chunk list"

record diff_ast =
  da_files :: "diff_file list"
  da_additions :: nat
  da_deletions :: nat
  da_truncated :: bool

record change_diff =
  cd_text :: "string option"
  cd_json :: "json option"

record change_tracking_result =
  ctr_status :: change_status
  ctr_first_observation :: bool
  ctr_content_hash :: string
  ctr_snapshot :: "change_tracking_snapshot option"
  ctr_diff :: "change_diff option"
  ctr_judgment :: "change_judgment option"
  ctr_tag :: "string option"
  ctr_truncated :: bool

subsection \<open>The line diff crate\<close>

text \<open>
  What the code reads of \<open>similar\<close>: the operations of a diff, grouped into hunks with a number
  of context lines, each with the half-open line ranges it covers and the changes it iterates
  over; and the unified text.
\<close>

datatype change_tag = Delete | Insert | Equal

record line_change =
  lc_tag :: change_tag
  lc_value :: string
  lc_old_index :: "nat option"
  lc_new_index :: "nat option"

record diff_op =
  op_old_start :: nat
  op_old_end :: nat
  op_new_start :: nat
  op_new_end :: nat
  op_changes :: "line_change list"

record diff_env =
  de_sha256_hex :: "string \<Rightarrow> string"
  de_json_string :: "json \<Rightarrow> string"
  de_unified :: "nat \<Rightarrow> string \<Rightarrow> string \<Rightarrow> string"
  de_grouped_ops :: "nat \<Rightarrow> string \<Rightarrow> string \<Rightarrow> diff_op list list"

subsection \<open>Snapshots\<close>

text \<open>\<open>replace\<close> with the pattern of a carriage return and a line feed, then with the former.\<close>

fun replace_crlf :: "string \<Rightarrow> string" where
  "replace_crlf [] = []"
| "replace_crlf [c] = [c]"
| "replace_crlf (c # d # s) =
    (if c = CHR 0x0D \<and> d = CHR 0x0A then CHR 0x0A # replace_crlf s else c # replace_crlf (d # s))"

definition unify_newlines :: "string \<Rightarrow> string" where
  "unify_newlines s = map (\<lambda>c. if c = CHR 0x0D then CHR 0x0A else c) (replace_crlf s)"

text \<open>The lines pushed by the loop, from the length of the current run of blank lines on.\<close>

fun collapse_blank :: "nat \<Rightarrow> string list \<Rightarrow> string list" where
  "collapse_blank blank_run [] = []"
| "collapse_blank blank_run (raw # rest) =
    (let line = trim_end raw
     in if line = [] then
          (if blank_run + 1 \<le> 1 then [] # collapse_blank (blank_run + 1) rest
           else collapse_blank (blank_run + 1) rest)
        else line # collapse_blank 0 rest)"

definition trim_blank_lines :: "string list \<Rightarrow> string list" where
  "trim_blank_lines ls = rev (dropWhile (\<lambda>l. l = []) (rev (dropWhile (\<lambda>l. l = []) ls)))"

definition normalize_markdown :: "string \<Rightarrow> string" where
  "normalize_markdown input =
    join_with [CHR 0x0A]
      (trim_blank_lines (collapse_blank 0 (split_char (CHR 0x0A) (unify_newlines input))))"

definition hash_str :: "diff_env \<Rightarrow> string \<Rightarrow> string" where
  "hash_str env s = de_sha256_hex env s"

definition hash_markdown :: "diff_env \<Rightarrow> string \<Rightarrow> string" where
  "hash_markdown env markdown = hash_str env (normalize_markdown markdown)"

primrec canonicalize :: "json \<Rightarrow> json" where
  "canonicalize JNull = JNull"
| "canonicalize (JBool b) = JBool b"
| "canonicalize (JInt i) = JInt i"
| "canonicalize (JFloat r) = JFloat r"
| "canonicalize (JString s) = JString s"
| "canonicalize (JArray items) = JArray (map canonicalize items)"
| "canonicalize (JObject m) =
    (let children = map (map_prod id canonicalize) m
     in JObject (fold (\<lambda>k out. btree_insert k (the (map_of children k)) out) (sort (map fst m)) []))"

definition canonical_json_string :: "diff_env \<Rightarrow> json \<Rightarrow> string" where
  "canonical_json_string env value = de_json_string env (canonicalize value)"

definition hash_json :: "diff_env \<Rightarrow> json \<Rightarrow> string" where
  "hash_json env value = hash_str env (canonical_json_string env value)"

subsection \<open>The per-field difference\<close>

definition record_change :: "string \<Rightarrow> json \<Rightarrow> json \<Rightarrow> members \<Rightarrow> members" where
  "record_change path previous current out =
    btree_insert path (json_object [(''previous'', previous), (''current'', current)]) out"

definition object_keys :: "members \<Rightarrow> members \<Rightarrow> string list" where
  "object_keys pm cm = remdups_adj (sort (map fst pm @ map fst cm))"

definition child_key :: "string \<Rightarrow> string \<Rightarrow> string" where
  "child_key path k = (if path = [] then k else path @ ''.'' @ k)"

definition child_index :: "string \<Rightarrow> nat \<Rightarrow> string" where
  "child_index path i = path @ ''['' @ dec_digits i @ '']''"

definition nth_opt :: "'a list \<Rightarrow> nat \<Rightarrow> 'a option" where
  "nth_opt xs i = (if i < length xs then Some (xs ! i) else None)"

lemma nth_opt_mem: "nth_opt xs i = Some x \<Longrightarrow> x \<in> set xs"
  by (auto simp: nth_opt_def split: if_splits)

lemma size_member_less: "map_of m k = Some v \<Longrightarrow> size v < size (JObject m)"
  by (drule map_of_SomeD) (auto dest: size_list_estimation' [where f = "size_prod (\<lambda>_. 0) size", OF _ order_refl])

lemma size_item_less: "nth_opt xs i = Some v \<Longrightarrow> size v < size (JArray xs)"
  by (drule nth_opt_mem) (auto dest: size_list_estimation' [where f = size, OF _ order_refl])

function walk :: "string \<Rightarrow> json \<Rightarrow> json \<Rightarrow> members \<Rightarrow> members" where
  "walk path prev cur out =
    (case (prev, cur) of
       (JObject pm, JObject cm) \<Rightarrow>
         fold (\<lambda>k out.
             case (map_of pm k, map_of cm k) of
               (Some pv, Some cv) \<Rightarrow> walk (child_key path k) pv cv out
             | (Some pv, None) \<Rightarrow> record_change (child_key path k) pv JNull out
             | (None, Some cv) \<Rightarrow> record_change (child_key path k) JNull cv out
             | (None, None) \<Rightarrow> out)
           (object_keys pm cm) out
     | (JArray pa, JArray ca) \<Rightarrow>
         fold (\<lambda>i out.
             case (nth_opt pa i, nth_opt ca i) of
               (Some pv, Some cv) \<Rightarrow> walk (child_index path i) pv cv out
             | (Some pv, None) \<Rightarrow> record_change (child_index path i) pv JNull out
             | (None, Some cv) \<Rightarrow> record_change (child_index path i) JNull cv out
             | (None, None) \<Rightarrow> out)
           [0..<max (length pa) (length ca)] out
     | _ \<Rightarrow> if prev \<noteq> cur then record_change path prev cur out else out)"
  by pat_completeness auto
termination
  by (relation "measure (\<lambda>(path, prev, cur, out). size prev)")
    (auto simp del: json.size dest: size_member_less [OF sym] size_item_less [OF sym])

declare walk.simps [simp del]

definition json_compute :: "json \<Rightarrow> json \<Rightarrow> json" where
  "json_compute previous current = JObject (walk [] previous current [])"

definition json_changed :: "json \<Rightarrow> json \<Rightarrow> bool" where
  "json_changed previous current = (walk [] previous current [] \<noteq> [])"

subsection \<open>The syntax tree of a line diff\<close>

definition context_radius :: nat where
  "context_radius = 3"

record ast_state =
  as_additions :: nat
  as_deletions :: nat
  as_emitted :: nat
  as_truncated :: bool

definition to_diff_change :: "line_change \<Rightarrow> diff_change" where
  "to_diff_change c =
    (let content = trim_end_char (CHR 0x0A) (lc_value c)
     in case lc_tag c of
          Delete \<Rightarrow> \<lparr> dc_type = ''del'', dc_content = content,
            dc_ln = map_option Suc (lc_old_index c), dc_ln1 = None, dc_ln2 = None \<rparr>
        | Insert \<Rightarrow> \<lparr> dc_type = ''add'', dc_content = content,
            dc_ln = map_option Suc (lc_new_index c), dc_ln1 = None, dc_ln2 = None \<rparr>
        | Equal \<Rightarrow> \<lparr> dc_type = ''normal'', dc_content = content, dc_ln = None,
            dc_ln1 = map_option Suc (lc_old_index c), dc_ln2 = map_option Suc (lc_new_index c) \<rparr>)"

definition count_change :: "line_change \<Rightarrow> ast_state \<Rightarrow> ast_state" where
  "count_change c st =
    (let st' = (case lc_tag c of
                  Delete \<Rightarrow> st\<lparr> as_deletions := as_deletions st + 1 \<rparr>
                | Insert \<Rightarrow> st\<lparr> as_additions := as_additions st + 1 \<rparr>
                | Equal \<Rightarrow> st)
     in st'\<lparr> as_emitted := as_emitted st + 1 \<rparr>)"

text \<open>The two inner loops, over the operations of a hunk and their changes.\<close>

fun scan_changes ::
    "nat \<Rightarrow> line_change list \<Rightarrow> diff_change list \<Rightarrow> ast_state \<Rightarrow> diff_change list \<times> ast_state" where
  "scan_changes max_changes [] changes st = (changes, st)"
| "scan_changes max_changes (c # cs) changes st =
    (if max_changes \<le> as_emitted st then (changes, st\<lparr> as_truncated := True \<rparr>)
     else scan_changes max_changes cs (changes @ [to_diff_change c]) (count_change c st))"

definition chunk_header :: "nat \<Rightarrow> nat \<Rightarrow> nat \<Rightarrow> nat \<Rightarrow> string" where
  "chunk_header old_start old_lines new_start new_lines =
    ''@@ -'' @ dec_digits (old_start + 1) @ '','' @ dec_digits old_lines @ '' +''
      @ dec_digits (new_start + 1) @ '','' @ dec_digits new_lines @ '' @@''"

text \<open>
  A hunk spans the lines from the start of its first operation to the end of its last. The
  ranges of a diff ascend, so the subtractions do not underflow.
\<close>

definition make_chunk :: "diff_op list \<Rightarrow> diff_change list \<Rightarrow> diff_chunk" where
  "make_chunk ops changes =
    (let old_start = op_old_start (hd ops); new_start = op_new_start (hd ops);
         old_lines = op_old_end (last ops) - old_start; new_lines = op_new_end (last ops) - new_start
     in \<lparr> dk_content = chunk_header old_start old_lines new_start new_lines, dk_changes = changes,
          dk_old_start = old_start + 1, dk_old_lines = old_lines,
          dk_new_start = new_start + 1, dk_new_lines = new_lines \<rparr>)"

fun scan_groups ::
    "nat \<Rightarrow> diff_op list list \<Rightarrow> diff_chunk list \<Rightarrow> ast_state \<Rightarrow> diff_chunk list \<times> ast_state" where
  "scan_groups max_changes [] chunks st = (chunks, st)"
| "scan_groups max_changes (g # gs) chunks st =
    (if g = [] then scan_groups max_changes gs chunks st
     else
       (let (changes, st') = scan_changes max_changes (concat (map op_changes g)) [] st
        in if as_truncated st' then (chunks, st')
           else scan_groups max_changes gs (chunks @ [make_chunk g changes]) st'))"

definition git_ast :: "nat \<Rightarrow> diff_op list list \<Rightarrow> diff_ast" where
  "git_ast max_changes groups =
    (let (chunks, st) = scan_groups max_changes groups []
           \<lparr> as_additions = 0, as_deletions = 0, as_emitted = 0, as_truncated = False \<rparr>;
         f = \<lparr> df_from = ''previous'', df_to = ''current'', df_additions = as_additions st,
               df_deletions = as_deletions st, df_chunks = chunks \<rparr>
     in \<lparr> da_files = [f], da_additions = as_additions st, da_deletions = as_deletions st,
          da_truncated = as_truncated st \<rparr>)"

record git_diff =
  gd_text :: string
  gd_ast :: diff_ast

definition git_compute :: "diff_env \<Rightarrow> string \<Rightarrow> string \<Rightarrow> nat \<Rightarrow> git_diff" where
  "git_compute env previous current max_changes =
    \<lparr> gd_text = de_unified env context_radius previous current,
      gd_ast = git_ast max_changes (de_grouped_ops env context_radius previous current) \<rparr>"

text \<open>\<open>serde_json::to_value\<close> of the tree: the derived serialisers of the four structs.\<close>

definition json_nat :: "nat \<Rightarrow> json" where
  "json_nat n = JInt (int n)"

definition json_opt :: "string \<Rightarrow> nat option \<Rightarrow> members" where
  "json_opt k v = (case v of Some n \<Rightarrow> [(k, json_nat n)] | None \<Rightarrow> [])"

definition change_to_json :: "diff_change \<Rightarrow> json" where
  "change_to_json c =
    json_object ([(''type'', JString (dc_type c)), (''content'', JString (dc_content c))]
      @ json_opt ''ln'' (dc_ln c) @ json_opt ''ln1'' (dc_ln1 c) @ json_opt ''ln2'' (dc_ln2 c))"

definition chunk_to_json :: "diff_chunk \<Rightarrow> json" where
  "chunk_to_json k =
    json_object
      [(''content'', JString (dk_content k)), (''changes'', JArray (map change_to_json (dk_changes k))),
       (''oldStart'', json_nat (dk_old_start k)), (''oldLines'', json_nat (dk_old_lines k)),
       (''newStart'', json_nat (dk_new_start k)), (''newLines'', json_nat (dk_new_lines k))]"

definition file_to_json :: "diff_file \<Rightarrow> json" where
  "file_to_json f =
    json_object
      [(''from'', JString (df_from f)), (''to'', JString (df_to f)),
       (''additions'', json_nat (df_additions f)), (''deletions'', json_nat (df_deletions f)),
       (''chunks'', JArray (map chunk_to_json (df_chunks f)))]"

definition ast_to_json :: "diff_ast \<Rightarrow> json" where
  "ast_to_json a =
    json_object
      ([(''files'', JArray (map file_to_json (da_files a))),
        (''additions'', json_nat (da_additions a)), (''deletions'', json_nat (da_deletions a))]
       @ (if da_truncated a then [(''truncated'', JBool True)] else []))"

subsection \<open>Comparing a page with its previous snapshot\<close>

definition default_max_diff_changes :: nat where
  "default_max_diff_changes = 5000"

definition is_text :: "string option \<Rightarrow> bool" where
  "is_text content_type =
    (case content_type of
       None \<Rightarrow> True
     | Some ct0 \<Rightarrow>
         (let ct = to_ascii_lowercase ct0
          in prefix ''text/'' ct
             \<or> list_ex (contains_str ct)
                 [''json'', ''xml'', ''html'', ''markdown'', ''javascript'', ''csv'', ''yaml'']))"

definition binary_result :: "diff_env \<Rightarrow> change_tracking_options \<Rightarrow> string \<Rightarrow> change_tracking_result" where
  "binary_result env opts current_text =
    (let content_hash = hash_str env current_text;
         snapshot = \<lparr> snap_markdown = None, snap_json = None, snap_content_hash = content_hash,
                      snap_captured_at = None \<rparr>
     in case cto_previous opts of
          None \<Rightarrow>
            \<lparr> ctr_status = Changed, ctr_first_observation = True, ctr_content_hash = content_hash,
              ctr_snapshot = Some snapshot, ctr_diff = None, ctr_judgment = None,
              ctr_tag = cto_tag opts, ctr_truncated = False \<rparr>
        | Some prev \<Rightarrow>
            \<lparr> ctr_status = (if snap_content_hash prev = content_hash then Same else Changed),
              ctr_first_observation = False, ctr_content_hash = content_hash,
              ctr_snapshot = Some snapshot, ctr_diff = None, ctr_judgment = None,
              ctr_tag = cto_tag opts, ctr_truncated = False \<rparr>)"

definition or_null :: "json option \<Rightarrow> json" where
  "or_null v = (case v of Some j \<Rightarrow> j | None \<Rightarrow> JNull)"

definition compute_change_tracking_with_limits ::
    "diff_env \<Rightarrow> change_tracking_options \<Rightarrow> string \<Rightarrow> json option \<Rightarrow> string option \<Rightarrow> nat
     \<Rightarrow> change_tracking_result" where
  "compute_change_tracking_with_limits env opts current_markdown current_json content_type max_changes =
    (let has_git = (cto_modes opts = [] \<or> GitDiff \<in> set (cto_modes opts));
         has_json = (Json \<in> set (cto_modes opts));
         json_only = (has_json \<and> \<not> has_git)
     in if \<not> is_text content_type then binary_result env opts current_markdown
        else
     (let content_hash =
            (if json_only
             then (case current_json of Some j \<Rightarrow> hash_json env j | None \<Rightarrow> hash_str env [])
             else hash_markdown env current_markdown);
          current_snapshot =
            \<lparr> snap_markdown = (if has_git then Some current_markdown else None),
              snap_json = (if has_json then current_json else None),
              snap_content_hash = content_hash, snap_captured_at = None \<rparr>
      in case cto_previous opts of
           None \<Rightarrow>
             \<lparr> ctr_status = Changed, ctr_first_observation = True, ctr_content_hash = content_hash,
               ctr_snapshot = Some current_snapshot, ctr_diff = None, ctr_judgment = None,
               ctr_tag = cto_tag opts, ctr_truncated = False \<rparr>
         | Some previous \<Rightarrow>
     (let prev_md_norm = map_option normalize_markdown (snap_markdown previous);
          cur_md_norm = normalize_markdown current_markdown;
          markdown_changed =
            (has_git \<and> (case prev_md_norm of Some p \<Rightarrow> p \<noteq> cur_md_norm | None \<Rightarrow> True));
          prev_json = or_null (snap_json previous);
          cur_json_val = or_null current_json;
          json_changed = (has_json \<and> json_changed prev_json cur_json_val);
          changed = ((has_git \<and> markdown_changed) \<or> (has_json \<and> json_changed))
      in if \<not> changed then
           \<lparr> ctr_status = Same, ctr_first_observation = False, ctr_content_hash = content_hash,
             ctr_snapshot = Some current_snapshot, ctr_diff = None, ctr_judgment = None,
             ctr_tag = cto_tag opts, ctr_truncated = False \<rparr>
         else
           (let g = git_compute env (case prev_md_norm of Some p \<Rightarrow> p | None \<Rightarrow> []) cur_md_norm max_changes;
                diff_json =
                  (if has_json then Some (json_compute prev_json cur_json_val)
                   else if has_git then Some (ast_to_json (gd_ast g))
                   else None)
            in \<lparr> ctr_status = Changed, ctr_first_observation = False, ctr_content_hash = content_hash,
                 ctr_snapshot = Some current_snapshot,
                 ctr_diff = Some \<lparr> cd_text = (if has_git then Some (gd_text g) else None),
                                   cd_json = diff_json \<rparr>,
                 ctr_judgment = None, ctr_tag = cto_tag opts,
                 ctr_truncated = (has_git \<and> da_truncated (gd_ast g)) \<rparr>))))"

definition compute_change_tracking ::
    "diff_env \<Rightarrow> change_tracking_options \<Rightarrow> string \<Rightarrow> json option \<Rightarrow> string option
     \<Rightarrow> change_tracking_result" where
  "compute_change_tracking env opts current_markdown current_json content_type =
    compute_change_tracking_with_limits env opts current_markdown current_json content_type
      default_max_diff_changes"

end
