(* ===== verification/Diff_Props.thy ===== *)
theory Diff_Props
  imports Diff
begin

section \<open>Properties of change tracking\<close>

text \<open>
  The normal form of markdown as a function of its paragraphs; the per-field difference as the
  list of differing positions of two values; the cap on the syntax tree of a line diff; and when
  a page counts as unchanged.
\<close>

subsection \<open>The normal form of markdown\<close>

text \<open>
  The specification: the paragraphs of a text are its maximal runs of lines that are not blank,
  trailing whitespace dropped.
\<close>

fun paragraphs_of :: "string list \<Rightarrow> string list list" where
  "paragraphs_of [] = []"
| "paragraphs_of (l # ls) =
    (if l = [] then paragraphs_of ls
     else if ls = [] \<or> hd ls = [] then [l] # paragraphs_of ls
     else (l # hd (paragraphs_of ls)) # tl (paragraphs_of ls))"

definition paragraphs :: "string \<Rightarrow> string list list" where
  "paragraphs s = paragraphs_of (map trim_end (split_char (CHR 0x0A) (unify_newlines s)))"

fun with_gaps :: "string list list \<Rightarrow> string list" where
  "with_gaps [] = []"
| "with_gaps [p] = p"
| "with_gaps (p # q # ps) = p @ [] # with_gaps (q # ps)"

definition strip_back :: "string list \<Rightarrow> string list" where
  "strip_back ls = rev (dropWhile (\<lambda>l. l = []) (rev ls))"

lemma strip_back_Nil [simp]: "strip_back [] = []"
  by (simp add: strip_back_def)

lemma strip_back_Cons [simp]:
  "strip_back (l # ls) = (if l = [] \<and> strip_back ls = [] then [] else l # strip_back ls)"
  by (auto simp: strip_back_def dropWhile_append)

lemma paragraphs_of_good: "p \<in> set (paragraphs_of ls) \<Longrightarrow> p \<noteq> [] \<and> (\<forall>l \<in> set p. l \<noteq> [] \<and> l \<in> set ls)"
proof (induction ls arbitrary: p)
  case (Cons l ls)
  consider "l = []" | "l \<noteq> []" "ls = [] \<or> hd ls = []" | "l \<noteq> []" "ls \<noteq> []" "hd ls \<noteq> []" by blast
  then show ?case
  proof cases
    case 3
    then have "paragraphs_of ls \<noteq> []" by (cases ls) auto
    then obtain q qs where q: "paragraphs_of ls = q # qs" by (meson list.exhaust)
    then have "p = l # q \<or> p \<in> set qs" using Cons.prems 3 by simp
    then show ?thesis using Cons.IH [of q] Cons.IH [of p] q 3(1) by auto
  next
    case 2
    then have "p = [l] \<or> p \<in> set (paragraphs_of ls)" using Cons.prems by auto
    then show ?thesis using Cons.IH [of p] 2(1) by auto
  qed (use Cons in auto)
qed simp

lemma paragraphs_of_nonempty: "ls \<noteq> [] \<Longrightarrow> hd ls \<noteq> [] \<Longrightarrow> paragraphs_of ls \<noteq> []"
  by (cases ls) auto

lemma with_gaps_Cons: "with_gaps (p # ps) = p @ (if ps = [] then [] else [] # with_gaps ps)"
  by (cases ps) auto

lemma with_gaps_Nil_iff: "[] \<notin> set ps \<Longrightarrow> with_gaps ps = [] \<longleftrightarrow> ps = []"
  by (cases ps rule: with_gaps.cases) auto

lemma with_gaps_paragraphs_Nil [simp]: "with_gaps (paragraphs_of ls) = [] \<longleftrightarrow> paragraphs_of ls = []"
  by (rule with_gaps_Nil_iff) (use paragraphs_of_good in blast)

lemma collapse_Suc_no_blank_start: "collapse_blank (Suc r) ls = [] \<or> hd (collapse_blank (Suc r) ls) \<noteq> []"
  by (induction ls arbitrary: r) (auto simp: Let_def)

lemma strip_collapse:
  "strip_back (collapse_blank (Suc r) ls) = with_gaps (paragraphs_of (map trim_end ls))
   \<and> strip_back (collapse_blank 0 ls) =
      (if ls \<noteq> [] \<and> trim_end (hd ls) = [] \<and> paragraphs_of (map trim_end ls) \<noteq> []
       then [] # with_gaps (paragraphs_of (map trim_end ls))
       else with_gaps (paragraphs_of (map trim_end ls)))"
proof (induction ls arbitrary: r)
  case (Cons l ls)
  show ?case
  proof (cases "trim_end l = []")
    case True
    then show ?thesis using Cons [of r] Cons [of "Suc r"] Cons [of 0] by (auto simp: Let_def)
  next
    case False
    consider (no_more) "ls = []" | (blank) "ls \<noteq> []" "trim_end (hd ls) = []"
      | (more) "ls \<noteq> []" "trim_end (hd ls) \<noteq> []" by blast
    then show ?thesis
    proof cases
      case no_more
      then show ?thesis using False by (simp add: Let_def)
    next
      case blank
      then show ?thesis using False Cons by (auto simp: Let_def with_gaps_Cons hd_map)
    next
      case more
      then have "paragraphs_of (map trim_end ls) \<noteq> []"
        by (intro paragraphs_of_nonempty) (auto simp: hd_map)
      then obtain q qs where q: "paragraphs_of (map trim_end ls) = q # qs" by (meson list.exhaust)
      then show ?thesis using False Cons more by (auto simp: Let_def with_gaps_Cons hd_map)
    qed
  qed
qed simp

lemma trim_collapse:
  "trim_blank_lines (collapse_blank 0 ls) = with_gaps (paragraphs_of (map trim_end ls))"
proof (cases "ls \<noteq> [] \<and> trim_end (hd ls) = []")
  case True
  then obtain l ls' where ls: "ls = l # ls'" "trim_end l = []" by (cases ls) auto
  have "dropWhile (\<lambda>l. l = []) (collapse_blank (Suc 0) ls') = collapse_blank (Suc 0) ls'"
    using collapse_Suc_no_blank_start [of 0 ls'] by (cases "collapse_blank (Suc 0) ls'") auto
  then show ?thesis
    using ls strip_collapse [of 0 ls'] by (simp add: trim_blank_lines_def strip_back_def Let_def)
next
  case False
  then have "dropWhile (\<lambda>l. l = []) (collapse_blank 0 ls) = collapse_blank 0 ls"
    by (cases ls) (auto simp: Let_def)
  then show ?thesis
    using False strip_collapse [of 0 ls] by (auto simp: trim_blank_lines_def strip_back_def [symmetric])
qed

lemma normalize_by_paragraphs: "normalize_markdown s = join_with [CHR 0x0A] (with_gaps (paragraphs s))"
  by (simp add: normalize_markdown_def paragraphs_def trim_collapse)

text \<open>Paragraphs survive the round trip through the normal form.\<close>

lemma paragraphs_of_append:
  assumes "p \<noteq> []" and "\<forall>l \<in> set p. l \<noteq> []" and "ls = [] \<or> hd ls = []"
  shows "paragraphs_of (p @ ls) = p # paragraphs_of ls"
  using assms
proof (induction p)
  case (Cons l p)
  then show ?case by (cases p) auto
qed simp

lemma paragraphs_of_with_gaps:
  "\<forall>p \<in> set ps. p \<noteq> [] \<and> (\<forall>l \<in> set p. l \<noteq> []) \<Longrightarrow> paragraphs_of (with_gaps ps) = ps"
proof (induction ps rule: with_gaps.induct)
  case (2 p)
  then show ?case using paragraphs_of_append [of p "[]"] by simp
qed (simp_all add: paragraphs_of_append)

lemma replace_crlf_id: "CHR 0x0D \<notin> set s \<Longrightarrow> replace_crlf s = s"
  by (induction s rule: replace_crlf.induct) auto

lemma unify_newlines_id: "CHR 0x0D \<notin> set s \<Longrightarrow> unify_newlines s = s"
  by (auto simp: unify_newlines_def replace_crlf_id intro: map_idI)

lemma set_join_with: "set (join_with sep ps) \<subseteq> set sep \<union> \<Union> (set ` set ps)"
  by (induction ps rule: induct_list012) auto

lemma set_with_gaps: "set (with_gaps ps) \<subseteq> insert [] (\<Union> (set ` set ps))"
  by (induction ps rule: with_gaps.induct) auto

lemma paragraph_lines:
  assumes "p \<in> set (paragraphs s)" and "l \<in> set p"
  shows "CHR 0x0A \<notin> set l \<and> CHR 0x0D \<notin> set l \<and> trim_end l = l \<and> l \<noteq> []"
proof -
  have "l \<noteq> []" "l \<in> trim_end ` set (split_char (CHR 0x0A) (unify_newlines s))"
    using assms paragraphs_of_good unfolding paragraphs_def by fastforce+
  then obtain r where r: "l = trim_end r" "r \<in> set (split_char (CHR 0x0A) (unify_newlines s))" by auto
  have "CHR 0x0A \<notin> set r" "set r \<subseteq> set (unify_newlines s)"
    using r(2) split_char_parts set_split_char by blast+
  moreover have "CHR 0x0D \<notin> set (unify_newlines s)" by (auto simp: unify_newlines_def)
  moreover have "set l \<subseteq> set r" unfolding r(1) by (rule set_trim_end)
  ultimately show ?thesis using r(1) \<open>l \<noteq> []\<close> by auto
qed

lemma paragraphs_normalize: "paragraphs (normalize_markdown s) = paragraphs s"
proof (cases "paragraphs s = []")
  case True
  then show ?thesis by (simp add: normalize_by_paragraphs, simp add: paragraphs_def unify_newlines_def)
next
  case False
  let ?ls = "with_gaps (paragraphs s)"
  have good: "CHR 0x0A \<notin> set l \<and> CHR 0x0D \<notin> set l \<and> trim_end l = l" if "l \<in> set ?ls" for l
    using that set_with_gaps [of "paragraphs s"] paragraph_lines by fastforce
  have "?ls \<noteq> []" using False by (simp add: paragraphs_def)
  then have split: "split_char (CHR 0x0A) (join_with [CHR 0x0A] ?ls) = ?ls"
    using good by (intro split_join_char) auto
  have "CHR 0x0D \<notin> set (join_with [CHR 0x0A] ?ls)"
    using set_join_with [of "[CHR 0x0A]" ?ls] good by auto
  moreover have "map trim_end ?ls = ?ls" using good by (auto intro: map_idI)
  moreover have "\<forall>p \<in> set (paragraphs s). p \<noteq> [] \<and> (\<forall>l \<in> set p. l \<noteq> [])"
    using paragraphs_of_good unfolding paragraphs_def by blast
  ultimately show ?thesis
    unfolding normalize_by_paragraphs
    by (subst paragraphs_def) (simp add: unify_newlines_id split paragraphs_of_with_gaps)
qed

text \<open>
  The normal form of markdown is decided by its paragraphs: two texts have the same normal
  form exactly when they have the same runs of non-blank lines, up to line-break style and
  trailing whitespace of lines; and normalising twice is normalising once.
\<close>

theorem markdown_normal_form:
  "(normalize_markdown s = normalize_markdown t \<longleftrightarrow> paragraphs s = paragraphs t)
   \<and> normalize_markdown (normalize_markdown s) = normalize_markdown s"
  by (metis normalize_by_paragraphs paragraphs_normalize)

subsection \<open>The per-field difference as a list of positions\<close>

text \<open>
  The specification: a position is a list of member names and indices; two values differ at a
  position when it leads to different things in them, nothing being one of the possibilities.
\<close>

datatype json_step = Key string | Index nat

fun json_at :: "json_step list \<Rightarrow> json \<Rightarrow> json option" where
  "json_at [] v = Some v"
| "json_at (Key k # p) (JObject m) =
    (case map_of m k of Some v \<Rightarrow> json_at p v | None \<Rightarrow> None)"
| "json_at (Index i # p) (JArray xs) =
    (case nth_opt xs i of Some v \<Rightarrow> json_at p v | None \<Rightarrow> None)"
| "json_at _ _ = None"

fun render_step :: "json_step \<Rightarrow> string \<Rightarrow> string" where
  "render_step (Key k) path = child_key path k"
| "render_step (Index i) path = child_index path i"

definition render :: "json_step list \<Rightarrow> string \<Rightarrow> string" where
  "render p path = fold render_step p path"

text \<open>The changes in the order in which the code records them.\<close>

type_synonym field_change = "json_step list \<times> json \<times> json"

definition below :: "json_step \<Rightarrow> field_change list \<Rightarrow> field_change list" where
  "below s ds = map (\<lambda>(p, x, y). (s # p, x, y)) ds"

function field_changes :: "json \<Rightarrow> json \<Rightarrow> field_change list" where
  "field_changes prev cur =
    (case (prev, cur) of
       (JObject pm, JObject cm) \<Rightarrow>
         concat (map (\<lambda>k.
             below (Key k)
               (case (map_of pm k, map_of cm k) of
                  (Some pv, Some cv) \<Rightarrow> field_changes pv cv
                | (Some pv, None) \<Rightarrow> [([], pv, JNull)]
                | (None, Some cv) \<Rightarrow> [([], JNull, cv)]
                | (None, None) \<Rightarrow> []))
           (object_keys pm cm))
     | (JArray pa, JArray ca) \<Rightarrow>
         concat (map (\<lambda>i.
             below (Index i)
               (case (nth_opt pa i, nth_opt ca i) of
                  (Some pv, Some cv) \<Rightarrow> field_changes pv cv
                | (Some pv, None) \<Rightarrow> [([], pv, JNull)]
                | (None, Some cv) \<Rightarrow> [([], JNull, cv)]
                | (None, None) \<Rightarrow> []))
           [0..<max (length pa) (length ca)])
     | _ \<Rightarrow> if prev \<noteq> cur then [([], prev, cur)] else [])"
  by pat_completeness auto
termination
  by (relation "measure (\<lambda>(prev, cur). size prev)")
    (auto simp del: json.size dest: size_member_less [OF sym] size_item_less [OF sym])

declare field_changes.simps [simp del]

definition record_all :: "string \<Rightarrow> field_change list \<Rightarrow> members \<Rightarrow> members" where
  "record_all path ds out = fold (\<lambda>(p, x, y). record_change (render p path) x y) ds out"

lemma record_all_Nil [simp]: "record_all path [] out = out"
  by (simp add: record_all_def)

lemma record_all_single [simp]: "record_all path [([], x, y)] out = record_change path x y out"
  by (simp add: record_all_def render_def)

lemma record_all_below [simp]: "record_all path (below s ds) out = record_all (render_step s path) ds out"
  unfolding record_all_def below_def by (induction ds arbitrary: out) (auto simp: render_def)

lemma record_all_concat:
  "record_all path (concat (map f xs)) out = fold (\<lambda>x. record_all path (f x)) xs out"
  by (induction xs arbitrary: out) (simp_all add: record_all_def)

lemma walk_records: "walk path prev cur out = record_all path (field_changes prev cur) out"
proof (induction path prev cur out rule: walk.induct)
  case (1 path prev cur out)
  show ?case
  proof (cases "(\<exists>pm cm. prev = JObject pm \<and> cur = JObject cm) \<or> (\<exists>pa ca. prev = JArray pa \<and> cur = JArray ca)")
    case True
    then show ?thesis
    proof (elim disjE exE conjE)
      fix pm cm assume o: "prev = JObject pm" "cur = JObject cm"
      show ?thesis
        unfolding o
        by (subst walk.simps, subst field_changes.simps)
          (auto simp: record_all_concat 1(2) [OF refl o _ refl] intro!: fold_cong ext split: option.splits)
    next
      fix pa ca assume a: "prev = JArray pa" "cur = JArray ca"
      show ?thesis
        unfolding a
        by (subst walk.simps, subst field_changes.simps)
          (auto simp: record_all_concat 1(1) [OF refl a _ refl] intro!: fold_cong ext split: option.splits)
    qed
  next
    case False
    then show ?thesis
      by (subst walk.simps, subst field_changes.simps) (cases prev; cases cur; auto)
  qed
qed

lemma set_object_keys [simp]: "set (object_keys pm cm) = fst ` set pm \<union> fst ` set cm"
  by (simp add: object_keys_def)

lemma mem_object_keys: "map_of pm k \<noteq> None \<or> map_of cm k \<noteq> None \<Longrightarrow> k \<in> set (object_keys pm cm)"
  by (auto simp: map_of_eq_None_iff)

lemma mem_below: "(p, x, y) \<in> set (below s ds) \<longleftrightarrow> (\<exists>q. p = s # q \<and> (q, x, y) \<in> set ds)"
  by (force simp: below_def)

definition item_changes :: "json option \<Rightarrow> json option \<Rightarrow> field_change list" where
  "item_changes pv cv =
    (case (pv, cv) of
       (Some pv, Some cv) \<Rightarrow> field_changes pv cv
     | (Some pv, None) \<Rightarrow> [([], pv, JNull)]
     | (None, Some cv) \<Rightarrow> [([], JNull, cv)]
     | (None, None) \<Rightarrow> [])"

lemma field_changes_object:
  "field_changes (JObject pm) (JObject cm) =
    concat (map (\<lambda>k. below (Key k) (item_changes (map_of pm k) (map_of cm k))) (object_keys pm cm))"
  by (subst field_changes.simps) (simp add: item_changes_def)

lemma field_changes_array:
  "field_changes (JArray pa) (JArray ca) =
    concat (map (\<lambda>i. below (Index i) (item_changes (nth_opt pa i) (nth_opt ca i)))
      [0..<max (length pa) (length ca)])"
  by (subst field_changes.simps) (simp add: item_changes_def)

definition both_containers :: "json \<Rightarrow> json \<Rightarrow> bool" where
  "both_containers v w =
    (case (v, w) of (JObject _, JObject _) \<Rightarrow> True | (JArray _, JArray _) \<Rightarrow> True | _ \<Rightarrow> False)"

lemma field_changes_leaf:
  "\<not> both_containers v w \<Longrightarrow> field_changes v w = (if v \<noteq> w then [([], v, w)] else [])"
  by (subst field_changes.simps) (cases v; cases w; simp add: both_containers_def)

lemma both_containers_cases:
  assumes "both_containers v w"
  obtains (object) pm cm where "v = JObject pm" "w = JObject cm" | (array) pa ca where "v = JArray pa" "w = JArray ca"
  using assms by (cases v; cases w; auto simp: both_containers_def)

definition change_at :: "json option \<Rightarrow> json option \<Rightarrow> field_change \<Rightarrow> bool" where
  "change_at v w d =
    (case d of (p, x, y) \<Rightarrow>
       (let a = Option.bind v (json_at p); b = Option.bind w (json_at p)
        in a \<noteq> b \<and> x = or_null a \<and> y = or_null b))"

lemma item_changes_sound:
  assumes "\<And>pv cv d. v = Some pv \<Longrightarrow> w = Some cv \<Longrightarrow> d \<in> set (field_changes pv cv)
      \<Longrightarrow> change_at (Some pv) (Some cv) d"
    and "d \<in> set (item_changes v w)"
  shows "change_at v w d"
proof (cases v; cases w)
  fix pv cv assume "v = Some pv" "w = Some cv"
  then show ?thesis using assms by (simp add: item_changes_def)
qed (use assms(2) in \<open>simp_all add: item_changes_def change_at_def or_null_def\<close>)

lemma change_at_member:
  "change_at (Some (JObject pm)) (Some (JObject cm)) (Key k # p, x, y)
    = change_at (map_of pm k) (map_of cm k) (p, x, y)"
  "change_at (Some (JArray pa)) (Some (JArray ca)) (Index i # p, x, y)
    = change_at (nth_opt pa i) (nth_opt ca i) (p, x, y)"
  by (auto simp: change_at_def split: option.splits)

lemma field_changes_sound: "d \<in> set (field_changes v w) \<Longrightarrow> change_at (Some v) (Some w) d"
proof (induction v w arbitrary: d rule: field_changes.induct)
  case (1 v w)
  obtain p' x y where d': "d = (p', x, y)" by (cases d)
  show ?case
  proof (cases "both_containers v w")
    case True
    then show ?thesis
    proof (cases rule: both_containers_cases)
      case (object pm cm)
      obtain k p where d: "d = (Key k # p, x, y)" "k \<in> set (object_keys pm cm)"
          "(p, x, y) \<in> set (item_changes (map_of pm k) (map_of cm k))"
        using 1(3) unfolding object field_changes_object d' by (auto simp: mem_below)
      then show ?thesis
        unfolding object d(1) change_at_member
        by (intro item_changes_sound [OF _ d(3)]) (auto intro: 1(2) [OF refl object d(2) refl])
    next
      case (array pa ca)
      obtain i p where d: "d = (Index i # p, x, y)" "i \<in> set [0..<max (length pa) (length ca)]"
          "(p, x, y) \<in> set (item_changes (nth_opt pa i) (nth_opt ca i))"
        using 1(3) unfolding array field_changes_array d' by (auto simp: mem_below)
      then show ?thesis
        unfolding array d(1) change_at_member
        by (intro item_changes_sound [OF _ d(3)]) (auto intro: 1(1) [OF refl array d(2) refl])
    qed
  next
    case False
    then show ?thesis using 1(3) by (auto simp: field_changes_leaf change_at_def or_null_def split: if_splits)
  qed
qed

definition covers :: "field_change list \<Rightarrow> json_step list \<Rightarrow> bool" where
  "covers ds p \<longleftrightarrow> (\<exists>q \<in> fst ` set ds. prefix q p \<or> prefix p q)"

lemma fst_below: "fst ` set (below s ds) = (#) s ` fst ` set ds"
  by (force simp: below_def)

lemma covers_below: "covers ds p \<Longrightarrow> covers (below s ds) (s # p)"
  by (auto simp: covers_def fst_below)

lemma covers_below_Nil: "covers ds p \<Longrightarrow> covers (below s ds) []"
  by (auto simp: covers_def fst_below)

lemma covers_concat: "x \<in> set xs \<Longrightarrow> covers (f x) p \<Longrightarrow> covers (concat (map f xs)) p"
  by (fastforce simp: covers_def)

lemma item_changes_cover:
  assumes "\<And>pv cv. v = Some pv \<Longrightarrow> w = Some cv \<Longrightarrow> json_at p pv \<noteq> json_at p cv \<Longrightarrow> covers (field_changes pv cv) p"
    and "Option.bind v (json_at p) \<noteq> Option.bind w (json_at p)"
  shows "covers (item_changes v w) p"
proof (cases v; cases w)
  fix pv cv assume "v = Some pv" "w = Some cv"
  then show ?thesis using assms by (simp add: item_changes_def)
qed (use assms(2) in \<open>simp_all add: item_changes_def covers_def\<close>)

lemma nth_opt_ext:
  assumes "\<And>i. nth_opt xs i = nth_opt ys i"
  shows "xs = ys"
proof (rule nth_equalityI)
  show len: "length xs = length ys"
    using assms [of "length xs"] assms [of "length ys"] by (auto simp: nth_opt_def split: if_splits)
  show "xs ! i = ys ! i" if "i < length xs" for i
    using assms [of i] that len by (simp add: nth_opt_def)
qed

lemma values_differ_inside:
  assumes "both_containers v w" and "json_wf v" and "json_wf w" and "v \<noteq> w"
  shows "\<exists>s. json_at [s] v \<noteq> json_at [s] w"
  using assms(1)
proof (cases rule: both_containers_cases)
  case (object pm cm)
  then have "map_of pm \<noteq> map_of cm" using assms(2-4) ordered_ext [of pm cm] by auto
  then obtain k where "map_of pm k \<noteq> map_of cm k" by (auto simp: fun_eq_iff)
  then show ?thesis using object by (intro exI [of _ "Key k"]) (cases "map_of pm k"; cases "map_of cm k"; simp)
next
  case (array pa ca)
  then have "pa \<noteq> ca" using assms(4) by simp
  then obtain i where "nth_opt pa i \<noteq> nth_opt ca i" using nth_opt_ext by metis
  then show ?thesis using array by (intro exI [of _ "Index i"]) (cases "nth_opt pa i"; cases "nth_opt ca i"; simp)
qed

lemma json_wf_member: "json_wf (JObject m) \<Longrightarrow> map_of m k = Some v \<Longrightarrow> json_wf v"
  by (fastforce dest: map_of_SomeD)

lemma json_wf_item: "json_wf (JArray xs) \<Longrightarrow> nth_opt xs i = Some v \<Longrightarrow> json_wf v"
  by (auto dest: nth_opt_mem)

lemma field_changes_cover:
  "json_wf v \<Longrightarrow> json_wf w \<Longrightarrow> json_at p v \<noteq> json_at p w \<Longrightarrow> covers (field_changes v w) p"
proof (induction v w arbitrary: p rule: field_changes.induct)
  case (1 v w)
  show ?case
  proof (cases "both_containers v w")
    case False
    then show ?thesis using 1(5) by (auto simp: field_changes_leaf covers_def)
  next
    case True
    have inside: "covers (field_changes v w) (s # p) \<and> covers (field_changes v w) []"
      if at: "json_at (s # p) v \<noteq> json_at (s # p) w" for s p
      using True
    proof (cases rule: both_containers_cases)
      case (object pm cm)
      obtain k where k: "s = Key k" using at object by (cases s) auto
      have bind: "Option.bind (map_of pm k) (json_at p) \<noteq> Option.bind (map_of cm k) (json_at p)"
        using at object k by (auto split: option.splits)
      then have "map_of pm k \<noteq> None \<or> map_of cm k \<noteq> None" by (cases "map_of pm k"; cases "map_of cm k") auto
      then have mem: "k \<in> set (object_keys pm cm)" by (rule mem_object_keys)
      have "covers (item_changes (map_of pm k) (map_of cm k)) p"
        using bind 1(2) [OF refl object mem refl] 1(3,4) object
        by (intro item_changes_cover) (auto intro: json_wf_member simp del: json_wf_JObject)
      then show ?thesis
        unfolding object field_changes_object k
        by (intro conjI covers_concat [OF mem] covers_below covers_below_Nil)
    next
      case (array pa ca)
      obtain i where i: "s = Index i" using at array by (cases s) auto
      have bind: "Option.bind (nth_opt pa i) (json_at p) \<noteq> Option.bind (nth_opt ca i) (json_at p)"
        using at array i by (auto split: option.splits)
      then have mem: "i \<in> set [0..<max (length pa) (length ca)]" by (auto simp: nth_opt_def split: if_splits)
      have "covers (item_changes (nth_opt pa i) (nth_opt ca i)) p"
        using bind 1(1) [OF refl array mem refl] 1(3,4) array
        by (intro item_changes_cover) (auto intro: json_wf_item simp del: json_wf_JArray)
      then show ?thesis
        unfolding array field_changes_array i
        by (intro conjI covers_concat [OF mem] covers_below covers_below_Nil)
    qed
    show ?thesis
    proof (cases p)
      case Nil
      then show ?thesis
        using 1(5) values_differ_inside [OF True 1(3,4)] inside [of _ "[]"] by auto
    next
      case (Cons s q)
      then show ?thesis using inside [of s q] 1(5) by blast
    qed
  qed
qed

definition change_entry :: "json option \<Rightarrow> json option \<Rightarrow> json" where
  "change_entry v w = json_object [(''previous'', or_null v), (''current'', or_null w)]"

definition entries :: "field_change list \<Rightarrow> members" where
  "entries ds = map (\<lambda>(p, x, y). (render p [], json_object [(''previous'', x), (''current'', y)])) ds"

lemma record_all_entries: "record_all [] ds out = btree.ins_all (entries ds) out"
  unfolding record_all_def entries_def btree.ins_all_def
  by (induction ds arbitrary: out) (auto simp: record_change_def)

lemma walk_entries: "walk [] prev cur [] = btree.ins_all (entries (field_changes prev cur)) []"
  by (simp add: walk_records record_all_entries)

lemma entries_sound:
  assumes "(path, e) \<in> set (entries (field_changes prev cur))"
  shows "\<exists>p. path = render p [] \<and> json_at p prev \<noteq> json_at p cur
    \<and> e = change_entry (json_at p prev) (json_at p cur)"
proof -
  obtain p x y where d: "(p, x, y) \<in> set (field_changes prev cur)" "path = render p []"
      "e = json_object [(''previous'', x), (''current'', y)]"
    using assms by (auto simp: entries_def)
  then show ?thesis
    using field_changes_sound [OF d(1)] by (auto simp: change_at_def change_entry_def Let_def)
qed

lemma json_changed_iff:
  assumes "json_wf prev" and "json_wf cur"
  shows "json_changed prev cur \<longleftrightarrow> prev \<noteq> cur"
proof
  assume "json_changed prev cur"
  then obtain d where "d \<in> set (field_changes prev cur)"
    by (cases "field_changes prev cur") (auto simp: json_changed_def walk_entries btree_ins_all_Nil_iff entries_def)
  from field_changes_sound [OF this] show "prev \<noteq> cur" by (cases d) (auto simp: change_at_def Let_def)
next
  assume "prev \<noteq> cur"
  then have "covers (field_changes prev cur) []" using assms by (intro field_changes_cover) simp_all
  then show "json_changed prev cur"
    by (auto simp: json_changed_def walk_entries btree_ins_all_Nil_iff entries_def covers_def)
qed

text \<open>
  C35. The per-field difference of two extractions is exact. Something changed precisely when
  the values differ. Every entry has the path of a position at which they differ and holds what
  is there in each, \<open>null\<close> where there is nothing; and for every position at which they
  differ, an entry stands under the path of that position, of one above or of one below it.
\<close>

theorem json_diff_exact:
  assumes "json_wf prev" and "json_wf cur"
  shows "(json_changed prev cur \<longleftrightarrow> prev \<noteq> cur)
    \<and> (\<exists>m. json_compute prev cur = JObject m \<and> ordered m
      \<and> (\<forall>path e. map_of m path = Some e \<longrightarrow>
            (\<exists>p. path = render p [] \<and> json_at p prev \<noteq> json_at p cur
              \<and> e = change_entry (json_at p prev) (json_at p cur)))
      \<and> (\<forall>p. json_at p prev \<noteq> json_at p cur \<longrightarrow>
            (\<exists>q. (prefix q p \<or> prefix p q) \<and> map_of m (render q []) \<noteq> None)))"
proof -
  let ?es = "entries (field_changes prev cur)"
  let ?m = "btree.ins_all ?es []"
  have look: "map_of ?m path = map_of (rev ?es) path" for path
    by (simp add: btree.get_ins_all split: option.splits)
  have sound: "\<exists>p. path = render p [] \<and> json_at p prev \<noteq> json_at p cur
      \<and> e = change_entry (json_at p prev) (json_at p cur)" if "map_of ?m path = Some e" for path e
    using map_of_SomeD [OF that [unfolded look]] entries_sound by simp
  have "\<exists>q. (prefix q p \<or> prefix p q) \<and> map_of ?m (render q []) \<noteq> None"
    if differ: "json_at p prev \<noteq> json_at p cur" for p
  proof -
    obtain q where q: "q \<in> fst ` set (field_changes prev cur)" "prefix q p \<or> prefix p q"
      using field_changes_cover [OF assms differ] by (auto simp: covers_def)
    have "render q [] \<in> fst ` set ?es" using q(1) by (force simp: entries_def)
    then have "map_of ?m (render q []) \<noteq> None" unfolding look by (simp add: map_of_eq_None_iff)
    then show ?thesis using q(2) by blast
  qed
  then show ?thesis
    using sound json_changed_iff [OF assms]
    by (auto simp: json_compute_def walk_entries intro!: ordered_ins_all)
qed

theorem json_diff_exact_witness:
  "json_changed (JObject [(''a'', JInt 1), (''b'', JNull)]) (JObject [(''a'', JInt 1)])
   \<and> json_compute (JInt 1) (JInt 2) \<noteq> JObject []"
proof -
  have "json_changed (JObject [(''a'', JInt 1), (''b'', JNull)]) (JObject [(''a'', JInt 1)])"
    by (subst json_diff_exact [THEN conjunct1]) (simp_all add: ordered_def)
  moreover have "json_compute (JInt 1) (JInt 2) \<noteq> JObject []"
    using json_diff_exact [of "JInt 1" "JInt 2"] by (auto simp: json_compute_def json_changed_def)
  ultimately show ?thesis by simp
qed

text \<open>Paths are not injective: two differing members can share one entry.\<close>

lemma json_diff_path_collision:
  "json_at [Key ''a'', Key ''b''] (JObject [(''a'', JObject [(''b'', JInt 1)]), (''a.b'', JInt 3)]) = Some (JInt 1)
   \<and> json_compute (JObject [(''a'', JObject [(''b'', JInt 1)]), (''a.b'', JInt 3)])
        (JObject [(''a'', JObject [(''b'', JInt 2)]), (''a.b'', JInt 4)])
      = JObject [(''a.b'', change_entry (Some (JInt 3)) (Some (JInt 4)))]"
proof -
  have keys: "object_keys [(''a'', u), (''a.b'', v)] [(''a'', u'), (''a.b'', v')] = [''a'', ''a.b'']"
    "object_keys [(''b'', u)] [(''b'', u')] = [''b'']" for u v u' v'
    by (simp_all add: object_keys_def)
  have "walk p (JInt i) (JInt j) out = (if i = j then out else record_change p (JInt i) (JInt j) out)" for p i j out
    by (subst walk.simps) simp
  then show ?thesis
    by (simp add: json_compute_def walk.simps [of _ "JObject _" "JObject _"] keys child_key_def
        record_change_def change_entry_def or_null_def)
qed

subsection \<open>The capped syntax tree\<close>

definition group_changes :: "diff_op list \<Rightarrow> line_change list" where
  "group_changes g = concat (map op_changes g)"

definition count_tag :: "change_tag \<Rightarrow> line_change list \<Rightarrow> nat" where
  "count_tag t cs = length (filter (\<lambda>c. lc_tag c = t) cs)"

text \<open>The hunks that fit into a budget of change lines, from the first on.\<close>

fun fitting :: "nat \<Rightarrow> diff_op list list \<Rightarrow> diff_op list list" where
  "fitting n [] = []"
| "fitting n (g # gs) =
    (if length (group_changes g) \<le> n then g # fitting (n - length (group_changes g)) gs else [])"

definition full_chunk :: "diff_op list \<Rightarrow> diff_chunk" where
  "full_chunk g = make_chunk g (map to_diff_change (group_changes g))"

definition after_changes :: "nat \<Rightarrow> line_change list \<Rightarrow> ast_state \<Rightarrow> ast_state" where
  "after_changes max_changes cs st =
    (let taken = take (max_changes - as_emitted st) cs
     in \<lparr> as_additions = as_additions st + count_tag Insert taken,
          as_deletions = as_deletions st + count_tag Delete taken,
          as_emitted = as_emitted st + length taken,
          as_truncated = (max_changes - as_emitted st < length cs) \<rparr>)"

lemma scan_changes_eq:
  assumes "\<not> as_truncated st" and "as_emitted st \<le> n"
  shows "scan_changes n cs acc st
    = (acc @ map to_diff_change (take (n - as_emitted st) cs), after_changes n cs st)"
  using assms
proof (induction cs arbitrary: acc st)
  case (Cons c cs)
  show ?case
  proof (cases "n \<le> as_emitted st")
    case True
    then show ?thesis using Cons.prems by (cases st) (simp add: after_changes_def count_tag_def)
  next
    case False
    then obtain k where k: "n - as_emitted st = Suc k" by (cases "n - as_emitted st") auto
    then have k': "n - Suc (as_emitted st) = k" by simp
    have "\<not> as_truncated (count_change c st)" "as_emitted (count_change c st) = Suc (as_emitted st)"
      using Cons.prems(1) by (auto simp: count_change_def Let_def split: change_tag.splits)
    then show ?thesis
      using Cons.IH [of "count_change c st" "acc @ [to_diff_change c]"] False k k'
      by (auto simp: after_changes_def count_tag_def count_change_def Let_def split: change_tag.splits)
  qed
qed (cases st, simp add: after_changes_def count_tag_def)

lemma after_changes_append:
  assumes "length cs \<le> n - as_emitted st" and "as_emitted st \<le> n"
  shows "after_changes n ds (after_changes n cs st) = after_changes n (cs @ ds) st"
  using assms by (simp add: after_changes_def count_tag_def Let_def) linarith

lemma scan_groups_eq:
  assumes "\<not> as_truncated st" and "as_emitted st \<le> n"
  shows "scan_groups n gs chunks st
    = (chunks @ map full_chunk (filter (\<lambda>g. g \<noteq> []) (fitting (n - as_emitted st) gs)),
       after_changes n (concat (map group_changes gs)) st)"
  using assms
proof (induction gs arbitrary: chunks st)
  case Nil
  then show ?case by (cases st) (simp add: after_changes_def count_tag_def)
next
  case (Cons g gs)
  show ?case
  proof (cases "g = []")
    case True
    then show ?thesis using Cons by (simp add: group_changes_def)
  next
    case False
    have scan: "scan_changes n (concat (map op_changes g)) [] st
        = (map to_diff_change (take (n - as_emitted st) (group_changes g)), after_changes n (group_changes g) st)"
      using scan_changes_eq [OF Cons.prems] by (simp add: group_changes_def)
    show ?thesis
    proof (cases "length (group_changes g) \<le> n - as_emitted st")
      case True
      let ?st = "after_changes n (group_changes g) st"
      have st: "\<not> as_truncated ?st" "as_emitted ?st = as_emitted st + length (group_changes g)"
        using True by (simp_all add: after_changes_def Let_def)
      have "as_emitted ?st \<le> n" using st(2) True Cons.prems(2) by simp
      from Cons.IH [OF st(1) this] show ?thesis
        using False True st scan Cons.prems(2) by (simp add: full_chunk_def after_changes_append)
    next
      case cut: False
      then have "as_truncated (after_changes n (group_changes g) st)" by (simp add: after_changes_def Let_def)
      moreover have "after_changes n (group_changes g @ ds) st = after_changes n (group_changes g) st" for ds
        using cut by (simp add: after_changes_def Let_def)
      ultimately show ?thesis using False cut scan by simp
    qed
  qed
qed

text \<open>
  The cap on the syntax tree. The tree is marked truncated exactly when the diff has more
  change lines than the cap; its hunks are the leading ones that fit whole, each with all its
  lines; and its counts are those of the first lines up to the cap, so a truncated tree also
  counts lines of the hunk it drops.
\<close>

theorem git_ast_capped:
  "let a = git_ast n groups; all_changes = concat (map group_changes groups)
   in (da_truncated a \<longleftrightarrow> n < length all_changes)
      \<and> da_additions a = count_tag Insert (take n all_changes)
      \<and> da_deletions a = count_tag Delete (take n all_changes)
      \<and> map df_chunks (da_files a) = [map full_chunk (filter (\<lambda>g. g \<noteq> []) (fitting n groups))]"
  by (simp add: git_ast_def scan_groups_eq after_changes_def Let_def)

lemma truncated_counts_dropped_hunk:
  "let d = \<lparr> lc_tag = Delete, lc_value = ''x'', lc_old_index = Some 0, lc_new_index = None \<rparr>;
       op = \<lparr> op_old_start = 0, op_old_end = 2, op_new_start = 0, op_new_end = 0, op_changes = [d, d] \<rparr>;
       a = git_ast 1 [[op]]
   in da_deletions a = 1 \<and> map df_chunks (da_files a) = [[]]"
  by (simp add: git_ast_def count_change_def Let_def)

subsection \<open>The status of a page\<close>

definition compares_markdown :: "change_tracking_options \<Rightarrow> bool" where
  "compares_markdown opts \<longleftrightarrow> cto_modes opts = [] \<or> GitDiff \<in> set (cto_modes opts)"

definition compares_json :: "change_tracking_options \<Rightarrow> bool" where
  "compares_json opts \<longleftrightarrow> Json \<in> set (cto_modes opts)"

definition same_page ::
    "diff_env \<Rightarrow> change_tracking_options \<Rightarrow> string \<Rightarrow> json option \<Rightarrow> string option
     \<Rightarrow> change_tracking_snapshot \<Rightarrow> bool" where
  "same_page env opts md js ct previous =
    (if is_text ct
     then (if compares_markdown opts
           then (case snap_markdown previous of None \<Rightarrow> False | Some p \<Rightarrow> paragraphs p = paragraphs md)
           else True)
          \<and> (if compares_json opts then or_null (snap_json previous) = or_null js else True)
     else snap_content_hash previous = de_sha256_hex env md)"

definition well_formed_extractions :: "change_tracking_options \<Rightarrow> json option \<Rightarrow> bool" where
  "well_formed_extractions opts js \<longleftrightarrow>
     json_wf (or_null js)
     \<and> (case cto_previous opts of None \<Rightarrow> True | Some p \<Rightarrow> json_wf (or_null (snap_json p)))"

lemma normalize_eq_iff: "normalize_markdown s = normalize_markdown t \<longleftrightarrow> paragraphs s = paragraphs t"
  by (metis normalize_by_paragraphs paragraphs_normalize)

lemma status_cases:
  assumes "well_formed_extractions opts js"
  shows "let r = compute_change_tracking_with_limits env opts md js ct n
    in case cto_previous opts of
         None \<Rightarrow> ctr_status r = Changed \<and> ctr_first_observation r \<and> ctr_diff r = None
       | Some previous \<Rightarrow>
           \<not> ctr_first_observation r
           \<and> (ctr_status r = Same \<longleftrightarrow> same_page env opts md js ct previous)
           \<and> (ctr_diff r \<noteq> None \<longleftrightarrow> is_text ct \<and> \<not> same_page env opts md js ct previous)"
proof (cases "cto_previous opts")
  case None
  then show ?thesis
    by (simp add: compute_change_tracking_with_limits_def binary_result_def Let_def)
next
  case (Some previous)
  have json: "json_changed (or_null (snap_json previous)) (or_null js)
      \<longleftrightarrow> or_null (snap_json previous) \<noteq> or_null js"
    using assms Some by (intro json_changed_iff) (simp_all add: well_formed_extractions_def)
  show ?thesis
    unfolding compute_change_tracking_with_limits_def binary_result_def Let_def Some
      same_page_def compares_markdown_def compares_json_def json hash_str_def
    by (cases "snap_markdown previous") (auto simp: normalize_eq_iff json)
qed

text \<open>
  C36. When a page counts as unchanged. Without a previous snapshot the page is a first
  observation, reported as changed and without a diff. Otherwise it is the same exactly when
  every surface the modes ask for is: the paragraphs of the markdown, the extracted JSON, or the
  digest of the text where the content type is not text; and a diff is attached exactly to
  changed text pages.
\<close>

theorem change_status_decided:
  assumes "well_formed_extractions opts js"
  shows "let r = compute_change_tracking env opts md js ct
    in case cto_previous opts of
         None \<Rightarrow> ctr_status r = Changed \<and> ctr_first_observation r \<and> ctr_diff r = None
       | Some previous \<Rightarrow>
           \<not> ctr_first_observation r
           \<and> (ctr_status r = Same \<longleftrightarrow> same_page env opts md js ct previous)
           \<and> (ctr_diff r \<noteq> None \<longleftrightarrow> is_text ct \<and> \<not> same_page env opts md js ct previous)"
  unfolding compute_change_tracking_def by (rule status_cases [OF assms])

text \<open>A concrete environment: the identity for the digest, no line diff.\<close>

definition plain_env :: diff_env where
  "plain_env = \<lparr> de_sha256_hex = id, de_json_string = (\<lambda>_. []), de_unified = (\<lambda>_ _ _. []),
     de_grouped_ops = (\<lambda>_ _ _. []) \<rparr>"

definition json_options :: "json \<Rightarrow> change_tracking_options" where
  "json_options j = \<lparr> cto_modes = [Json], cto_schema = None, cto_prompt = None,
     cto_previous = Some \<lparr> snap_markdown = None, snap_json = Some j, snap_content_hash = [],
       snap_captured_at = None \<rparr>, cto_tag = None, cto_content_type = None \<rparr>"

theorem change_status_decided_witness:
  "ctr_status (compute_change_tracking plain_env (json_options (JInt 1)) ''a'' (Some (JInt 1)) None) = Same
   \<and> ctr_status (compute_change_tracking plain_env (json_options (JInt 1)) ''a'' (Some (JInt 2)) None) \<noteq> Same"
proof -
  have wf: "well_formed_extractions (json_options (JInt 1)) (Some (JInt i))" for i
    by (simp add: well_formed_extractions_def json_options_def or_null_def)
  have prev: "cto_previous (json_options (JInt 1)) \<noteq> None" by (simp add: json_options_def)
  show ?thesis
    using change_status_decided [OF wf [of 1], of plain_env "''a''" None]
      change_status_decided [OF wf [of 2], of plain_env "''a''" None] prev
    by (auto simp: Let_def same_page_def compares_markdown_def compares_json_def json_options_def
        is_text_def or_null_def)
qed

lemma snapshot_fields:
  "let r = compute_change_tracking_with_limits env opts md js ct n
   in \<exists>s. ctr_snapshot r = Some s \<and> snap_content_hash s = ctr_content_hash r
      \<and> (if is_text ct
         then snap_markdown s = (if compares_markdown opts then Some md else None)
              \<and> snap_json s = (if compares_json opts then js else None)
         else ctr_content_hash r = de_sha256_hex env md \<and> snap_json s = None)"
  by (auto simp: compute_change_tracking_with_limits_def binary_result_def Let_def compares_markdown_def
      compares_json_def hash_str_def split: option.splits)

lemma content_hash_previous:
  "ctr_content_hash (compute_change_tracking_with_limits env (opts\<lparr> cto_previous := p \<rparr>) md js ct n)
    = ctr_content_hash (compute_change_tracking_with_limits env opts md js ct n)"
  by (auto simp: compute_change_tracking_with_limits_def binary_result_def Let_def split: option.splits)

lemma snapshot_is_same_page:
  assumes "ctr_snapshot (compute_change_tracking_with_limits env opts md js ct n) = Some s"
    and "snap_markdown s' = snap_markdown s" and "snap_content_hash s' = snap_content_hash s"
    and "or_null (snap_json s') = or_null (snap_json s)"
  shows "same_page env opts md js ct s'"
  using snapshot_fields [of env opts md js ct n] assms by (auto simp: same_page_def Let_def split: if_splits)

lemma snapshot_json_wf:
  assumes "ctr_snapshot (compute_change_tracking_with_limits env opts md js ct n) = Some s"
    and "json_wf (or_null js)"
  shows "json_wf (or_null (snap_json s))"
  using snapshot_fields [of env opts md js ct n] assms by (auto simp: or_null_def Let_def split: if_splits)

lemma snapshot_exists: "\<exists>s. ctr_snapshot (compute_change_tracking_with_limits env opts md js ct n) = Some s"
  using snapshot_fields [of env opts md js ct n] by (auto simp: Let_def)

text \<open>
  A page compared with its own snapshot is unchanged: feeding the snapshot a comparison
  returns back as the previous one, with the same page, gives the status \<open>Same\<close>, the same
  content hash and no diff, in every mode and for every content type.
\<close>

theorem own_snapshot_is_same:
  assumes "json_wf (or_null js)"
  shows "let r = compute_change_tracking env opts md js ct;
             again = compute_change_tracking env (opts\<lparr> cto_previous := ctr_snapshot r \<rparr>) md js ct
         in ctr_status again = Same \<and> ctr_content_hash again = ctr_content_hash r \<and> ctr_diff again = None"
proof -
  let ?r = "compute_change_tracking_with_limits env opts md js ct default_max_diff_changes"
  obtain s where s: "ctr_snapshot ?r = Some s" using snapshot_exists by blast
  let ?opts = "opts\<lparr> cto_previous := Some s \<rparr>"
  have wf: "well_formed_extractions ?opts js"
    using assms snapshot_json_wf [OF s assms] by (simp add: well_formed_extractions_def)
  have "same_page env ?opts md js ct s"
    using snapshot_is_same_page [OF s, of s]
    by (simp add: same_page_def compares_markdown_def compares_json_def)
  then show ?thesis
    using status_cases [OF wf, of env md ct default_max_diff_changes] s
    by (simp add: compute_change_tracking_def content_hash_previous Let_def)
qed

theorem own_snapshot_is_same_witness:
  "let r = compute_change_tracking plain_env (json_options JNull) ''a'' (Some (JInt 2)) (Some ''text/html'')
   in ctr_status (compute_change_tracking plain_env ((json_options JNull)\<lparr> cto_previous := ctr_snapshot r \<rparr>)
        ''a'' (Some (JInt 2)) (Some ''text/html'')) = Same"
  using own_snapshot_is_same [of "Some (JInt 2)" plain_env "json_options JNull" "''a''" "Some ''text/html''"]
  by (simp add: Let_def or_null_def)

end
