(* ===== verification/Monitor_Types.thy ===== *)
theory Monitor_Types
  imports Diff
begin

section \<open>Monitors\<close>

text \<open>
  The data of \<open>crates/crw-monitor\<close>: \<open>types.rs\<close>, \<open>config.rs\<close>, the errors of \<open>lib.rs\<close> and the
  prior state of \<open>runner.rs\<close>; and the model-call configuration of \<open>crw-core/src/config.rs\<close> that
  monitors override. Constructors whose names several enums share carry the enum's name.
\<close>

datatype target_kind = TargetScrape | TargetCrawl

fun target_kind_as_str :: "target_kind \<Rightarrow> string" where
  "target_kind_as_str TargetScrape = ''scrape''"
| "target_kind_as_str TargetCrawl = ''crawl''"

definition target_kind_parse_str :: "string \<Rightarrow> target_kind option" where
  "target_kind_parse_str s =
    (if s = ''scrape'' then Some TargetScrape else if s = ''crawl'' then Some TargetCrawl else None)"

datatype monitor_status = Active | Paused | Disabled

fun monitor_status_as_str :: "monitor_status \<Rightarrow> string" where
  "monitor_status_as_str Active = ''active''"
| "monitor_status_as_str Paused = ''paused''"
| "monitor_status_as_str Disabled = ''disabled''"

definition monitor_status_parse_str :: "string \<Rightarrow> monitor_status option" where
  "monitor_status_parse_str s =
    (if s = ''active'' then Some Active else if s = ''paused'' then Some Paused
     else if s = ''disabled'' then Some Disabled else None)"

datatype check_status = CheckCompleted | CheckPartial | CheckFailed

fun check_status_as_str :: "check_status \<Rightarrow> string" where
  "check_status_as_str CheckCompleted = ''completed''"
| "check_status_as_str CheckPartial = ''partial''"
| "check_status_as_str CheckFailed = ''failed''"

definition check_status_parse_str :: "string \<Rightarrow> check_status option" where
  "check_status_parse_str s =
    (if s = ''completed'' then Some CheckCompleted else if s = ''partial'' then Some CheckPartial
     else if s = ''failed'' then Some CheckFailed else None)"

datatype page_status = PageSame | PageNew | PageChanged | PageRemoved | PageError

fun page_status_as_str :: "page_status \<Rightarrow> string" where
  "page_status_as_str PageSame = ''same''"
| "page_status_as_str PageNew = ''new''"
| "page_status_as_str PageChanged = ''changed''"
| "page_status_as_str PageRemoved = ''removed''"
| "page_status_as_str PageError = ''error''"

definition page_status_parse_str :: "string \<Rightarrow> page_status option" where
  "page_status_parse_str s =
    (if s = ''same'' then Some PageSame else if s = ''new'' then Some PageNew
     else if s = ''changed'' then Some PageChanged else if s = ''removed'' then Some PageRemoved
     else if s = ''error'' then Some PageError else None)"

text \<open>The text columns of the store hold these names; reading one back gives the value.\<close>

lemma target_kind_parse [simp]: "target_kind_parse_str (target_kind_as_str k) = Some k"
  by (cases k) (simp_all add: target_kind_parse_str_def)

lemma monitor_status_parse [simp]: "monitor_status_parse_str (monitor_status_as_str m) = Some m"
  by (cases m) (simp_all add: monitor_status_parse_str_def)

lemma check_status_parse [simp]: "check_status_parse_str (check_status_as_str c) = Some c"
  by (cases c) (simp_all add: check_status_parse_str_def)

lemma page_status_parse [simp]: "page_status_parse_str (page_status_as_str p) = Some p"
  by (cases p) (simp_all add: page_status_parse_str_def)

record webhook_config =
  wh_url :: string
  wh_secret :: string

record monitor =
  mon_id :: string
  mon_name :: string
  mon_status :: monitor_status
  mon_schedule :: string
  mon_modes :: "change_tracking_mode list"
  mon_goal :: "string option"
  mon_judge_enabled :: bool
  mon_llm_provider :: "string option"
  mon_llm_api_key :: "string option"
  mon_llm_model :: "string option"
  mon_webhook :: "webhook_config option"
  mon_next_run_at :: "int option"
  mon_last_run_at :: "int option"
  mon_created_at :: int

record monitor_target =
  tgt_id :: string
  tgt_monitor_id :: string
  tgt_kind :: target_kind
  tgt_urls :: "string list"
  tgt_crawl_url :: "string option"
  tgt_max_pages :: "nat option"

record page_result =
  pg_url :: string
  pg_status :: page_status
  pg_content_hash :: "string option"
  pg_change_tracking :: "change_tracking_result option"
  pg_error :: "string option"

text \<open>Counters are \<open>u32\<close>; a check has far fewer pages than that.\<close>

record check_counts =
  cc_same :: nat
  cc_new :: nat
  cc_changed :: nat
  cc_removed :: nat
  cc_error :: nat

definition check_counts_default :: check_counts where
  "check_counts_default = \<lparr> cc_same = 0, cc_new = 0, cc_changed = 0, cc_removed = 0, cc_error = 0 \<rparr>"

definition count_page :: "page_result \<Rightarrow> check_counts \<Rightarrow> check_counts" where
  "count_page p c =
    (case pg_status p of
       PageSame \<Rightarrow> c\<lparr> cc_same := cc_same c + 1 \<rparr>
     | PageNew \<Rightarrow> c\<lparr> cc_new := cc_new c + 1 \<rparr>
     | PageChanged \<Rightarrow> c\<lparr> cc_changed := cc_changed c + 1 \<rparr>
     | PageRemoved \<Rightarrow> c\<lparr> cc_removed := cc_removed c + 1 \<rparr>
     | PageError \<Rightarrow> c\<lparr> cc_error := cc_error c + 1 \<rparr>)"

definition tally :: "page_result list \<Rightarrow> check_counts" where
  "tally pages = fold count_page pages check_counts_default"

record check_result =
  chk_id :: string
  chk_monitor_id :: string
  chk_status :: check_status
  chk_started_at :: int
  chk_completed_at :: int
  chk_site_down :: bool
  chk_pages :: "page_result list"
  chk_counts :: check_counts

text \<open>
  The errors. The store's carry what SQLite refuses, not its text. \<open>Panic\<close> stands for an
  \<open>unwrap\<close> on nothing; the code has one in the check runner.
\<close>

datatype store_error = UniqueViolation | ForeignKeyViolation

datatype monitor_error =
    StoreError store_error
  | ScheduleError string
  | EngineError string
  | WebhookError string
  | NotFound string
  | Invalid string
  | Panic

record monitor_config =
  mcf_db_path :: string
  mcf_tick_secs :: nat
  mcf_judge_max_pages_per_check :: nat
  mcf_judge_max_tokens_per_check :: "nat option"
  mcf_unit_deadline_ms :: nat

definition default_judge_max_pages :: nat where
  "default_judge_max_pages = 200"

definition monitor_config_default :: monitor_config where
  "monitor_config_default =
    \<lparr> mcf_db_path = ''crw-monitor.db'', mcf_tick_secs = 30,
      mcf_judge_max_pages_per_check = default_judge_max_pages,
      mcf_judge_max_tokens_per_check = None, mcf_unit_deadline_ms = 30000 \<rparr>"

definition site_down_vanish_fraction :: rat where
  "site_down_vanish_fraction = 4 / 5"

record llm_config =
  llm_provider :: string
  llm_api_key :: string
  llm_model :: string
  llm_base_url :: "string option"
  llm_max_tokens :: nat
  llm_azure_api_version :: "string option"
  llm_max_concurrency :: nat
  llm_max_html_bytes :: nat
  llm_require_byok_header :: "string option"
  llm_temperature :: "rat option"
  llm_reasoning_effort :: "string option"
  llm_timeout_ms :: nat

definition llm_config_default :: llm_config where
  "llm_config_default =
    \<lparr> llm_provider = ''anthropic'', llm_api_key = [], llm_model = ''claude-sonnet-4-6'',
      llm_base_url = None, llm_max_tokens = 4096, llm_azure_api_version = None,
      llm_max_concurrency = 4, llm_max_html_bytes = 100000, llm_require_byok_header = None,
      llm_temperature = None, llm_reasoning_effort = None, llm_timeout_ms = 60000 \<rparr>"

text \<open>
  What the store knows of a monitor's pages: \<open>snapshots\<close> by URL, and \<open>known_urls\<close>, a set that
  the code iterates over in no fixed order, here a list without repetition in that order.
\<close>

record prior_state =
  prior_snapshots :: "string \<rightharpoonup> change_tracking_snapshot"
  prior_known_urls :: "string list"

lemma tally_counts:
  "tally pages =
    \<lparr> cc_same = length (filter (\<lambda>p. pg_status p = PageSame) pages),
      cc_new = length (filter (\<lambda>p. pg_status p = PageNew) pages),
      cc_changed = length (filter (\<lambda>p. pg_status p = PageChanged) pages),
      cc_removed = length (filter (\<lambda>p. pg_status p = PageRemoved) pages),
      cc_error = length (filter (\<lambda>p. pg_status p = PageError) pages) \<rparr>"
proof -
  have "fold count_page ps c =
    \<lparr> cc_same = cc_same c + length (filter (\<lambda>p. pg_status p = PageSame) ps),
      cc_new = cc_new c + length (filter (\<lambda>p. pg_status p = PageNew) ps),
      cc_changed = cc_changed c + length (filter (\<lambda>p. pg_status p = PageChanged) ps),
      cc_removed = cc_removed c + length (filter (\<lambda>p. pg_status p = PageRemoved) ps),
      cc_error = cc_error c + length (filter (\<lambda>p. pg_status p = PageError) ps) \<rparr>" for ps c
    by (induction ps arbitrary: c) (auto simp: count_page_def split: page_status.splits)
  then show ?thesis by (simp add: tally_def check_counts_default_def)
qed

end
