(* ===== verification/Monitor_Store.thy ===== *)
theory Monitor_Store
  imports Monitor_Types "HOL-Library.Option_ord"
begin

section \<open>The monitor store\<close>

text \<open>
  \<open>crates/crw-monitor/src/store.rs\<close>: five SQLite tables and the statements run on them. A table
  is the list of its rows in \<open>rowid\<close> order; a column that holds a serialised value is the value
  that is read back. \<open>snapshots\<close> is keyed by monitor and URL; deleting a monitor deletes the rows
  that refer to it; an insertion that breaks a primary key or a foreign key fails and, inside a
  transaction, undoes it. Rows with equal sort keys come in \<open>rowid\<close> order. I/O failures of SQLite
  are left out.
\<close>

record snapshot_row =
  sr_monitor_id :: string
  sr_url :: string
  sr_snapshot :: change_tracking_snapshot
  sr_captured_at :: int

record page_row =
  pr_check_id :: string
  pr_monitor_id :: string
  pr_page :: page_result

record store =
  st_monitors :: "monitor list"
  st_targets :: "monitor_target list"
  st_snapshots :: "snapshot_row list"
  st_checks :: "check_result list"
  st_check_pages :: "page_row list"

definition store_open :: store where
  "store_open = \<lparr> st_monitors = [], st_targets = [], st_snapshots = [], st_checks = [], st_check_pages = [] \<rparr>"

text \<open>
  A snapshot read back from its serialisation: a member \<open>json\<close> that is \<open>null\<close> is read as absent.
\<close>

definition reload_snapshot :: "change_tracking_snapshot \<Rightarrow> change_tracking_snapshot" where
  "reload_snapshot s = s\<lparr> snap_json := (if snap_json s = Some JNull then None else snap_json s) \<rparr>"

definition reload_page :: "page_result \<Rightarrow> page_result" where
  "reload_page p =
    p\<lparr> pg_change_tracking :=
         map_option (\<lambda>ct. ct\<lparr> ctr_snapshot := map_option reload_snapshot (ctr_snapshot ct) \<rparr>)
           (pg_change_tracking p) \<rparr>"

definition monitor_ids :: "store \<Rightarrow> string set" where
  "monitor_ids st = mon_id ` set (st_monitors st)"

subsection \<open>Monitors\<close>

definition insert_monitor :: "monitor \<Rightarrow> store \<Rightarrow> monitor_error + store" where
  "insert_monitor m st =
    (if mon_id m \<in> monitor_ids st then Inl (StoreError UniqueViolation)
     else Inr (st\<lparr> st_monitors := st_monitors st @ [m] \<rparr>))"

fun insert_targets :: "monitor_target list \<Rightarrow> store \<Rightarrow> monitor_error + store" where
  "insert_targets [] st = Inr st"
| "insert_targets (t # ts) st =
    (if tgt_id t \<in> tgt_id ` set (st_targets st) then Inl (StoreError UniqueViolation)
     else if tgt_monitor_id t \<notin> monitor_ids st then Inl (StoreError ForeignKeyViolation)
     else insert_targets ts (st\<lparr> st_targets := st_targets st @ [t] \<rparr>))"

definition create_monitor :: "monitor \<Rightarrow> monitor_target list \<Rightarrow> store \<Rightarrow> monitor_error + store" where
  "create_monitor m targets st =
    (case insert_monitor m st of
       Inl e \<Rightarrow> Inl e
     | Inr st' \<Rightarrow> insert_targets targets st')"

definition delete_monitor :: "string \<Rightarrow> store \<Rightarrow> monitor_error + store" where
  "delete_monitor i st =
    (if i \<notin> monitor_ids st then Inl (NotFound (''monitor '' @ i))
     else
       (let gone = chk_id ` set (filter (\<lambda>c. chk_monitor_id c = i) (st_checks st))
        in Inr \<lparr> st_monitors = filter (\<lambda>m. mon_id m \<noteq> i) (st_monitors st),
                 st_targets = filter (\<lambda>t. tgt_monitor_id t \<noteq> i) (st_targets st),
                 st_snapshots = filter (\<lambda>r. sr_monitor_id r \<noteq> i) (st_snapshots st),
                 st_checks = filter (\<lambda>c. chk_monitor_id c \<noteq> i) (st_checks st),
                 st_check_pages =
                   filter (\<lambda>r. pr_monitor_id r \<noteq> i \<and> pr_check_id r \<notin> gone) (st_check_pages st) \<rparr>))"

definition get_monitor :: "string \<Rightarrow> store \<Rightarrow> monitor_error + monitor" where
  "get_monitor i st =
    (case find (\<lambda>m. mon_id m = i) (st_monitors st) of
       Some m \<Rightarrow> Inr m
     | None \<Rightarrow> Inl (NotFound (''monitor '' @ i)))"

fun collect_results :: "('e + 'a) list \<Rightarrow> 'e + 'a list" where
  "collect_results [] = Inr []"
| "collect_results (Inl e # rs) = Inl e"
| "collect_results (Inr x # rs) =
    (case collect_results rs of Inl e \<Rightarrow> Inl e | Inr xs \<Rightarrow> Inr (x # xs))"

definition list_monitors :: "store \<Rightarrow> monitor_error + monitor list" where
  "list_monitors st =
    collect_results (map (\<lambda>i. get_monitor i st) (map mon_id (sort_key mon_created_at (st_monitors st))))"

definition get_targets :: "string \<Rightarrow> store \<Rightarrow> monitor_target list" where
  "get_targets i st = sort_key tgt_id (filter (\<lambda>t. tgt_monitor_id t = i) (st_targets st))"

definition is_due :: "int \<Rightarrow> monitor \<Rightarrow> bool" where
  "is_due now m \<longleftrightarrow>
     mon_status m = Active \<and> (case mon_next_run_at m of None \<Rightarrow> True | Some t \<Rightarrow> t \<le> now)"

definition due_monitors :: "int \<Rightarrow> store \<Rightarrow> monitor_error + monitor list" where
  "due_monitors now st =
    collect_results
      (map (\<lambda>i. get_monitor i st)
        (map mon_id (sort_key mon_next_run_at (filter (is_due now) (st_monitors st)))))"

definition update_monitor :: "string \<Rightarrow> (monitor \<Rightarrow> monitor) \<Rightarrow> store \<Rightarrow> store" where
  "update_monitor i f st = st\<lparr> st_monitors := map (\<lambda>m. if mon_id m = i then f m else m) (st_monitors st) \<rparr>"

definition update_schedule :: "string \<Rightarrow> int \<Rightarrow> int \<Rightarrow> store \<Rightarrow> store" where
  "update_schedule i last_run_at next_run_at =
    update_monitor i (\<lambda>m. m\<lparr> mon_last_run_at := Some last_run_at, mon_next_run_at := Some next_run_at \<rparr>)"

definition set_status :: "string \<Rightarrow> monitor_status \<Rightarrow> store \<Rightarrow> store" where
  "set_status i status = update_monitor i (\<lambda>m. m\<lparr> mon_status := status \<rparr>)"

subsection \<open>Snapshots\<close>

definition load_prior :: "string \<Rightarrow> store \<Rightarrow> prior_state" where
  "load_prior i st =
    (let rows = filter (\<lambda>r. sr_monitor_id r = i) (st_snapshots st)
     in \<lparr> prior_snapshots = map_of (map (\<lambda>r. (sr_url r, sr_snapshot r)) rows),
          prior_known_urls = map sr_url rows \<rparr>)"

definition upsert_row :: "snapshot_row \<Rightarrow> store \<Rightarrow> store" where
  "upsert_row row st =
    st\<lparr> st_snapshots :=
      (if \<exists>r \<in> set (st_snapshots st). sr_monitor_id r = sr_monitor_id row \<and> sr_url r = sr_url row
       then map (\<lambda>r. if sr_monitor_id r = sr_monitor_id row \<and> sr_url r = sr_url row then row else r)
              (st_snapshots st)
       else st_snapshots st @ [row]) \<rparr>"

definition upsert_snapshot :: "string \<Rightarrow> string \<Rightarrow> change_tracking_snapshot \<Rightarrow> int \<Rightarrow> store \<Rightarrow> store" where
  "upsert_snapshot i url snapshot captured_at =
    upsert_row \<lparr> sr_monitor_id = i, sr_url = url, sr_snapshot = reload_snapshot snapshot,
                 sr_captured_at = captured_at \<rparr>"

definition save_snapshot ::
    "string \<Rightarrow> string \<Rightarrow> change_tracking_snapshot \<Rightarrow> int \<Rightarrow> store \<Rightarrow> monitor_error + store" where
  "save_snapshot i url snapshot captured_at st =
    (if i \<in> monitor_ids st then Inr (upsert_snapshot i url snapshot captured_at st)
     else Inl (StoreError ForeignKeyViolation))"

definition delete_snapshot :: "string \<Rightarrow> string \<Rightarrow> store \<Rightarrow> store" where
  "delete_snapshot i url st =
    st\<lparr> st_snapshots := filter (\<lambda>r. \<not> (sr_monitor_id r = i \<and> sr_url r = url)) (st_snapshots st) \<rparr>"

subsection \<open>Checks\<close>

text \<open>One page of a check: its row and its baseline.\<close>

definition record_page :: "check_result \<Rightarrow> page_result \<Rightarrow> store \<Rightarrow> store" where
  "record_page check p st0 =
    (let st = st0\<lparr> st_check_pages := st_check_pages st0 @
                 [\<lparr> pr_check_id = chk_id check, pr_monitor_id = chk_monitor_id check, pr_page = reload_page p \<rparr>] \<rparr>
     in if pg_status p \<in> {PageSame, PageChanged, PageNew} then
          (case pg_change_tracking p of
             None \<Rightarrow> st
           | Some ct \<Rightarrow>
               (case ctr_snapshot ct of
                  None \<Rightarrow> st
                | Some snap \<Rightarrow>
                    upsert_snapshot (chk_monitor_id check) (pg_url p) snap (chk_completed_at check) st))
        else if pg_status p = PageRemoved then delete_snapshot (chk_monitor_id check) (pg_url p) st
        else st)"

definition record_check :: "check_result \<Rightarrow> store \<Rightarrow> monitor_error + store" where
  "record_check check st =
    (if chk_id check \<in> chk_id ` set (st_checks st) then Inl (StoreError UniqueViolation)
     else if chk_monitor_id check \<notin> monitor_ids st then Inl (StoreError ForeignKeyViolation)
     else Inr (fold (record_page check) (chk_pages check)
                 (st\<lparr> st_checks := st_checks st @ [check\<lparr> chk_pages := [] \<rparr>] \<rparr>)))"

definition get_check :: "string \<Rightarrow> store \<Rightarrow> monitor_error + check_result" where
  "get_check i st =
    (case find (\<lambda>c. chk_id c = i) (st_checks st) of
       None \<Rightarrow> Inl (NotFound (''check '' @ i))
     | Some check \<Rightarrow>
         Inr (check\<lparr> chk_pages :=
           map pr_page (filter (\<lambda>r. pr_check_id r = i) (st_check_pages st)) \<rparr>))"

definition list_check_ids :: "string \<Rightarrow> store \<Rightarrow> string list" where
  "list_check_ids i st =
    map chk_id (sort_key (\<lambda>c. - chk_started_at c) (filter (\<lambda>c. chk_monitor_id c = i) (st_checks st)))"

end
