(* ===== verification/Monitor_Runner.thy ===== *)
theory Monitor_Runner
  imports Monitor_Store Crawl Schedule
begin

section \<open>Check runs\<close>

text \<open>
  \<open>crates/crw-monitor/src/runner.rs\<close> and \<open>scheduler.rs\<close>: one check of one target against the
  prior state, the page source backed by the crawler, and the scheduler's tick. The scrape of a
  single page, the judge (a model call) and the delivery of webhooks are parameters; so is the
  choice of an identifier for a new check. \<open>fetch\<close> is the \<open>PageSource\<close> of the code. Log lines are
  left out.
\<close>

record fetched_page =
  fp_url :: string
  fp_markdown :: string
  fp_json :: "json option"
  fp_content_type :: "string option"
  fp_error :: "string option"

text \<open>The judge of a change: goal, text diff, JSON diff, model; its result carries the tokens used.\<close>

type_synonym judge =
  "string \<Rightarrow> string option \<Rightarrow> json option \<Rightarrow> llm_config \<Rightarrow> string + (change_judgment \<times> nat option)"

subsection \<open>One check\<close>

definition effective_modes :: "monitor \<Rightarrow> change_tracking_mode list" where
  "effective_modes m = (if mon_modes m = [] then [GitDiff] else mon_modes m)"

definition page_options ::
    "change_tracking_mode list \<Rightarrow> prior_state \<Rightarrow> fetched_page \<Rightarrow> change_tracking_options" where
  "page_options modes prior page =
    \<lparr> cto_modes = modes, cto_schema = None, cto_prompt = None,
      cto_previous = prior_snapshots prior (fp_url page), cto_tag = Some (fp_url page),
      cto_content_type = fp_content_type page \<rparr>"

definition check_page ::
    "diff_env \<Rightarrow> change_tracking_mode list \<Rightarrow> prior_state \<Rightarrow> fetched_page \<Rightarrow> page_result" where
  "check_page env modes prior page =
    (case fp_error page of
       Some err \<Rightarrow>
         \<lparr> pg_url = fp_url page, pg_status = PageError, pg_content_hash = None,
           pg_change_tracking = None, pg_error = Some err \<rparr>
     | None \<Rightarrow>
         (let result = compute_change_tracking env (page_options modes prior page) (fp_markdown page)
                         (fp_json page) (fp_content_type page);
              status = (if ctr_first_observation result then PageNew
                        else (case ctr_status result of Same \<Rightarrow> PageSame | Changed \<Rightarrow> PageChanged))
          in \<lparr> pg_url = fp_url page, pg_status = status, pg_content_hash = Some (ctr_content_hash result),
               pg_change_tracking = Some result, pg_error = None \<rparr>))"

definition vanished_urls :: "prior_state \<Rightarrow> fetched_page list \<Rightarrow> string list" where
  "vanished_urls prior fetched = filter (\<lambda>u. u \<notin> fp_url ` set fetched) (prior_known_urls prior)"

definition removed_page :: "string \<Rightarrow> page_result" where
  "removed_page url =
    \<lparr> pg_url = url, pg_status = PageRemoved, pg_content_hash = None, pg_change_tracking = None,
      pg_error = None \<rparr>"

text \<open>The site-down gate. Quotients of counts this small compare with 0.8 as rationals do.\<close>

definition site_is_down :: "target_kind \<Rightarrow> prior_state \<Rightarrow> fetched_page list \<Rightarrow> page_result list \<Rightarrow> bool" where
  "site_is_down kind prior fetched pages =
    (let prior_count = length (prior_known_urls prior);
         vanished = vanished_urls prior fetched;
         successful_now = length (filter (\<lambda>p. pg_status p \<noteq> PageError) pages)
     in kind = TargetCrawl \<and> 0 < prior_count
        \<and> ratio_gt (length vanished) prior_count site_down_vanish_fraction
        \<and> successful_now < prior_count)"

definition judge_eligible_indices :: "page_result list \<Rightarrow> nat \<Rightarrow> nat list" where
  "judge_eligible_indices pages max_pages =
    take max_pages (filter (\<lambda>i. pg_status (pages ! i) = PageChanged) [0..<length pages])"

text \<open>The judging loop; \<open>None\<close> is the panic of the \<open>unwrap\<close>.\<close>

fun judge_pages ::
    "judge \<Rightarrow> string \<Rightarrow> llm_config \<Rightarrow> nat option \<Rightarrow> nat list \<Rightarrow> nat \<Rightarrow> page_result list
     \<Rightarrow> page_result list option" where
  "judge_pages judge goal llm max_tokens [] tokens_used pages = Some pages"
| "judge_pages judge goal llm max_tokens (i # is) tokens_used pages =
    (if (case max_tokens of Some limit \<Rightarrow> limit \<le> tokens_used | None \<Rightarrow> False) then Some pages
     else
       (case pg_change_tracking (pages ! i) of
          None \<Rightarrow> None
        | Some ct \<Rightarrow>
            (case judge goal (Option.bind (ctr_diff ct) cd_text) (Option.bind (ctr_diff ct) cd_json) llm of
               Inl _ \<Rightarrow> judge_pages judge goal llm max_tokens is tokens_used pages
             | Inr (judgment, usage) \<Rightarrow>
                 judge_pages judge goal llm max_tokens is
                   (case usage of Some n \<Rightarrow> sat_add_u32 tokens_used n | None \<Rightarrow> tokens_used)
                   (pages[i := (pages ! i)\<lparr> pg_change_tracking := Some (ct\<lparr> ctr_judgment := Some judgment \<rparr>) \<rparr>]))))"

definition judge_check ::
    "judge \<Rightarrow> monitor \<Rightarrow> monitor_config \<Rightarrow> llm_config option \<Rightarrow> page_result list \<Rightarrow> page_result list option" where
  "judge_check judge m cfg judge_llm pages =
    (case (mon_judge_enabled m, mon_goal m, judge_llm) of
       (True, Some goal, Some llm) \<Rightarrow>
         judge_pages judge goal llm (mcf_judge_max_tokens_per_check cfg)
           (judge_eligible_indices pages (mcf_judge_max_pages_per_check cfg)) 0 pages
     | _ \<Rightarrow> Some pages)"

text \<open>The pages of a check before judging: the fetched ones, then the removed ones.\<close>

definition check_fetched :: "diff_env \<Rightarrow> monitor \<Rightarrow> prior_state \<Rightarrow> fetched_page list \<Rightarrow> page_result list" where
  "check_fetched env m prior fetched = map (check_page env (effective_modes m) prior) fetched"

definition check_removed ::
    "monitor_target \<Rightarrow> prior_state \<Rightarrow> fetched_page list \<Rightarrow> bool \<Rightarrow> page_result list" where
  "check_removed target prior fetched site_down =
    (if tgt_kind target = TargetCrawl \<and> \<not> site_down
     then map removed_page (vanished_urls prior fetched) else [])"

definition run_check ::
    "diff_env \<Rightarrow> judge \<Rightarrow> string \<Rightarrow> monitor \<Rightarrow> monitor_target \<Rightarrow> prior_state
     \<Rightarrow> (monitor_target \<Rightarrow> monitor_error + fetched_page list) \<Rightarrow> monitor_config \<Rightarrow> llm_config option
     \<Rightarrow> int \<Rightarrow> monitor_error + check_result" where
  "run_check env judge new_id m target prior fetch cfg judge_llm now =
    (case fetch target of
       Inl e \<Rightarrow> Inl e
     | Inr fetched \<Rightarrow>
         (let checked = check_fetched env m prior fetched;
              site_down = site_is_down (tgt_kind target) prior fetched checked
          in case judge_check judge m cfg judge_llm (checked @ check_removed target prior fetched site_down) of
               None \<Rightarrow> Inl Panic
             | Some pages \<Rightarrow>
                 Inr \<lparr> chk_id = new_id, chk_monitor_id = mon_id m,
                       chk_status = (if site_down then CheckPartial else CheckCompleted),
                       chk_started_at = now, chk_completed_at = now, chk_site_down = site_down,
                       chk_pages = pages, chk_counts = tally pages \<rparr>))"

subsection \<open>The page source of the engine\<close>

definition scrape_to_page :: "string \<Rightarrow> 'u scrape_data \<Rightarrow> fetched_page" where
  "scrape_to_page url d =
    \<lparr> fp_url = url, fp_markdown = (case sd_markdown d of Some md \<Rightarrow> md | None \<Rightarrow> []),
      fp_json = sd_json d, fp_content_type = sd_content_type d, fp_error = None \<rparr>"

definition failed_fetch :: "string \<Rightarrow> string \<Rightarrow> fetched_page" where
  "failed_fetch url err =
    \<lparr> fp_url = url, fp_markdown = [], fp_json = None, fp_content_type = None, fp_error = Some err \<rparr>"

definition scrape_target_page :: "string \<Rightarrow> 'u scrape_data \<Rightarrow> fetched_page" where
  "scrape_target_page url d =
    (case sd_block d of
       Some b \<Rightarrow> if is_wall b then failed_fetch url (block_message b) else scrape_to_page url d
     | None \<Rightarrow> scrape_to_page url d)"

text \<open>
  A crawl's outcome: its state channel ends in a terminal state, which is the last one sent.
\<close>

definition run_crawl_collect ::
    "('m, 'u) crawl_env \<Rightarrow> bool \<Rightarrow> string \<Rightarrow> nat option \<Rightarrow> monitor_error + 'u scrape_data list" where
  "run_crawl_collect cenv respect_robots url max_pages =
    (let req = \<lparr> cr_url = url, cr_max_depth = None, cr_max_pages = max_pages,
                 cr_respect_robots = respect_robots \<rparr>;
         state = last (fst (run_crawl cenv req))
     in if cs_status state = Failed \<and> cs_data state = []
        then Inl (EngineError (case cs_error state of Some e \<Rightarrow> e | None \<Rightarrow> ''crawl failed''))
        else Inr (cs_data state))"

definition engine_fetch ::
    "(string \<Rightarrow> string + 'u scrape_data) \<Rightarrow> ('m, 'u) crawl_env \<Rightarrow> bool \<Rightarrow> monitor_target
     \<Rightarrow> monitor_error + fetched_page list" where
  "engine_fetch scrape cenv respect_robots target =
    (case tgt_kind target of
       TargetScrape \<Rightarrow>
         Inr (map (\<lambda>url. case scrape url of
                          Inr d \<Rightarrow> scrape_target_page url d
                        | Inl e \<Rightarrow> failed_fetch url e)
               (tgt_urls target))
     | TargetCrawl \<Rightarrow>
         (case tgt_crawl_url target of
            None \<Rightarrow> Inl (Invalid ''crawl target missing crawlUrl'')
          | Some url \<Rightarrow>
              (case run_crawl_collect cenv respect_robots url (tgt_max_pages target) of
                 Inl e \<Rightarrow> Inl e
               | Inr ds \<Rightarrow> Inr (map (\<lambda>d. scrape_to_page (sd_source_url d) d) ds))))"

subsection \<open>The scheduler\<close>

record scheduler =
  sch_diff :: diff_env
  sch_judge :: judge
  sch_fetch :: "monitor_target \<Rightarrow> monitor_error + fetched_page list"
  sch_new_id :: "store \<Rightarrow> string"
  sch_config :: monitor_config
  sch_default_llm :: "llm_config option"

definition resolve_judge_llm :: "scheduler \<Rightarrow> monitor \<Rightarrow> llm_config option" where
  "resolve_judge_llm sch m =
    (let server = (case sch_default_llm sch of
                     Some l \<Rightarrow> if llm_api_key l \<noteq> [] then Some l else None
                   | None \<Rightarrow> None)
     in if \<not> mon_judge_enabled m \<or> mon_goal m = None then None
        else
          (case mon_llm_api_key m of
             None \<Rightarrow> server
           | Some key \<Rightarrow>
               if key = [] then server
               else
                 (let base = (case sch_default_llm sch of Some l \<Rightarrow> l | None \<Rightarrow> llm_config_default)
                  in Some (base\<lparr>
                       llm_provider := (case mon_llm_provider m of Some p \<Rightarrow> p | None \<Rightarrow> llm_provider base),
                       llm_api_key := key,
                       llm_model := (case mon_llm_model m of Some x \<Rightarrow> x | None \<Rightarrow> llm_model base) \<rparr>))))"

text \<open>
  The targets of a monitor one after the other. The first error ends the run; what was recorded
  before stays. Besides the store, the checks handed to the webhook are returned.
\<close>

fun run_targets ::
    "scheduler \<Rightarrow> monitor \<Rightarrow> int \<Rightarrow> monitor_target list \<Rightarrow> store
     \<Rightarrow> store \<times> check_result list \<times> monitor_error option" where
  "run_targets sch m now [] st = (st, [], None)"
| "run_targets sch m now (t # ts) st =
    (case run_check (sch_diff sch) (sch_judge sch) (sch_new_id sch st) m t (load_prior (mon_id m) st)
            (sch_fetch sch) (sch_config sch) (resolve_judge_llm sch m) now of
       Inl e \<Rightarrow> (st, [], Some e)
     | Inr check \<Rightarrow>
         (case record_check check st of
            Inl e \<Rightarrow> (st, [], Some e)
          | Inr st' \<Rightarrow>
              (let (st'', sent, err) = run_targets sch m now ts st'
               in (st'', (if mon_webhook m \<noteq> None then [check] else []) @ sent, err))))"

definition run_monitor ::
    "scheduler \<Rightarrow> monitor \<Rightarrow> int \<Rightarrow> store \<Rightarrow> store \<times> check_result list \<times> monitor_error option" where
  "run_monitor sch m now st =
    (let (st', sent, err) = run_targets sch m now (get_targets (mon_id m) st) st
     in case err of
          Some e \<Rightarrow> (st', sent, Some e)
        | None \<Rightarrow>
            (case schedule_parse (mon_schedule m) of
               Inr sched \<Rightarrow> (update_schedule (mon_id m) now (schedule_next_after sched now) st', sent, None)
             | Inl _ \<Rightarrow> (set_status (mon_id m) Paused st', sent, None)))"

text \<open>One tick: every due monitor once, an error of one not stopping the others.\<close>

definition tick :: "scheduler \<Rightarrow> int \<Rightarrow> store \<Rightarrow> store \<times> monitor_error option" where
  "tick sch now st =
    (case due_monitors now st of
       Inl e \<Rightarrow> (st, Some e)
     | Inr due \<Rightarrow> (fold (\<lambda>m st. fst (run_monitor sch m now st)) due st, None))"

end
