(* ===== verification/Monitor_Store_Props.thy ===== *)
theory Monitor_Store_Props
  imports Monitor_Store
begin

section \<open>Properties of the monitor store\<close>

text \<open>
  The integrity of the five tables (primary keys, foreign keys, one snapshot for each page of a
  monitor) and its preservation by every operation; the snapshots as a keyed map; and what a
  recorded check leaves as the baseline of each page.
\<close>

subsection \<open>Integrity\<close>

definition snapshot_key :: "snapshot_row \<Rightarrow> string \<times> string" where
  "snapshot_key r = (sr_monitor_id r, sr_url r)"

definition check_ids :: "store \<Rightarrow> string set" where
  "check_ids st = chk_id ` set (st_checks st)"

definition store_ok :: "store \<Rightarrow> bool" where
  "store_ok st \<longleftrightarrow>
     distinct (map mon_id (st_monitors st)) \<and> distinct (map tgt_id (st_targets st))
     \<and> distinct (map snapshot_key (st_snapshots st)) \<and> distinct (map chk_id (st_checks st))
     \<and> (\<forall>t \<in> set (st_targets st). tgt_monitor_id t \<in> monitor_ids st)
     \<and> (\<forall>r \<in> set (st_snapshots st). sr_monitor_id r \<in> monitor_ids st)
     \<and> (\<forall>c \<in> set (st_checks st). chk_monitor_id c \<in> monitor_ids st)
     \<and> (\<forall>r \<in> set (st_check_pages st). pr_monitor_id r \<in> monitor_ids st \<and> pr_check_id r \<in> check_ids st)"

text \<open>The operations that change the store, as the calls of its methods.\<close>

datatype store_op =
    Create monitor "monitor_target list"
  | DeleteMonitor string
  | UpdateSchedule string int int
  | SetStatus string monitor_status
  | SaveSnapshot string string change_tracking_snapshot int
  | DeleteSnapshot string string
  | RecordCheck check_result

definition or_unchanged :: "store \<Rightarrow> monitor_error + store \<Rightarrow> store" where
  "or_unchanged st r = (case r of Inl _ \<Rightarrow> st | Inr st' \<Rightarrow> st')"

fun store_step :: "store_op \<Rightarrow> store \<Rightarrow> store" where
  "store_step (Create m ts) st = or_unchanged st (create_monitor m ts st)"
| "store_step (DeleteMonitor i) st = or_unchanged st (delete_monitor i st)"
| "store_step (UpdateSchedule i t t') st = update_schedule i t t' st"
| "store_step (SetStatus i s) st = set_status i s st"
| "store_step (SaveSnapshot i url snap t) st = or_unchanged st (save_snapshot i url snap t st)"
| "store_step (DeleteSnapshot i url) st = delete_snapshot i url st"
| "store_step (RecordCheck c) st = or_unchanged st (record_check c st)"

lemma store_ok_open [simp]: "store_ok store_open"
  by (simp add: store_ok_def store_open_def)

lemma insert_monitor_ok: "store_ok st \<Longrightarrow> insert_monitor m st = Inr st' \<Longrightarrow> store_ok st'"
  by (auto simp: store_ok_def insert_monitor_def monitor_ids_def check_ids_def split: if_splits)

lemma insert_targets_ok: "store_ok st \<Longrightarrow> insert_targets ts st = Inr st' \<Longrightarrow> store_ok st'"
proof (induction ts st rule: insert_targets.induct)
  case (2 t ts st)
  have "store_ok (st\<lparr> st_targets := st_targets st @ [t] \<rparr>)"
    using 2(2,3) by (auto simp: store_ok_def monitor_ids_def check_ids_def split: if_splits)
  then show ?case using 2(1,3) by (auto split: if_splits)
qed simp

lemma create_monitor_ok: "store_ok st \<Longrightarrow> create_monitor m ts st = Inr st' \<Longrightarrow> store_ok st'"
  by (auto simp: create_monitor_def split: sum.splits intro: insert_targets_ok insert_monitor_ok)

lemma delete_monitor_ok:
  assumes ok: "store_ok st" and "delete_monitor i st = Inr st'"
  shows "store_ok st'"
proof -
  have st': "st_monitors st' = filter (\<lambda>m. mon_id m \<noteq> i) (st_monitors st)"
      "st_targets st' = filter (\<lambda>t. tgt_monitor_id t \<noteq> i) (st_targets st)"
      "st_snapshots st' = filter (\<lambda>r. sr_monitor_id r \<noteq> i) (st_snapshots st)"
      "st_checks st' = filter (\<lambda>c. chk_monitor_id c \<noteq> i) (st_checks st)"
      "st_check_pages st' = filter (\<lambda>r. pr_monitor_id r \<noteq> i
         \<and> pr_check_id r \<notin> chk_id ` set (filter (\<lambda>c. chk_monitor_id c = i) (st_checks st))) (st_check_pages st)"
    using assms(2) by (auto simp: delete_monitor_def Let_def split: if_splits)
  have ids: "monitor_ids st' = monitor_ids st - {i}" by (auto simp: monitor_ids_def st')
  have "pr_check_id r \<in> check_ids st'" if "r \<in> set (st_check_pages st')" for r
    using that ok by (fastforce simp: st' check_ids_def store_ok_def)
  then show ?thesis
    using ok unfolding store_ok_def ids by (auto simp: st' distinct_map_filter)
qed

lemma update_monitor_ids [simp]:
  "\<forall>m. mon_id (f m) = mon_id m \<Longrightarrow> map mon_id (st_monitors (update_monitor i f st)) = map mon_id (st_monitors st)"
  by (simp add: update_monitor_def)

lemma update_monitor_ok:
  assumes "store_ok st" and "\<forall>m. mon_id (f m) = mon_id m"
  shows "store_ok (update_monitor i f st)"
proof -
  have "map mon_id (st_monitors (update_monitor i f st)) = map mon_id (st_monitors st)"
    using assms(2) by (rule update_monitor_ids)
  moreover from this have "monitor_ids (update_monitor i f st) = monitor_ids st"
    unfolding monitor_ids_def by (metis list.set_map)
  ultimately show ?thesis
    using assms(1) by (simp add: store_ok_def check_ids_def) (simp add: update_monitor_def)
qed

lemma upsert_snapshot_fields [simp]:
  "st_monitors (upsert_snapshot i u s t st) = st_monitors st"
  "st_targets (upsert_snapshot i u s t st) = st_targets st"
  "st_checks (upsert_snapshot i u s t st) = st_checks st"
  "st_check_pages (upsert_snapshot i u s t st) = st_check_pages st"
  "monitor_ids (upsert_snapshot i u s t st) = monitor_ids st"
  "check_ids (upsert_snapshot i u s t st) = check_ids st"
  by (simp_all add: upsert_snapshot_def upsert_row_def monitor_ids_def check_ids_def)

lemma delete_snapshot_fields [simp]:
  "st_monitors (delete_snapshot i u st) = st_monitors st"
  "st_targets (delete_snapshot i u st) = st_targets st"
  "st_checks (delete_snapshot i u st) = st_checks st"
  "st_check_pages (delete_snapshot i u st) = st_check_pages st"
  "monitor_ids (delete_snapshot i u st) = monitor_ids st"
  "check_ids (delete_snapshot i u st) = check_ids st"
  by (simp_all add: delete_snapshot_def monitor_ids_def check_ids_def)

lemma upsert_snapshot_ok:
  assumes "store_ok st" and "i \<in> monitor_ids st"
  shows "store_ok (upsert_snapshot i u s t st)"
proof -
  let ?row = "\<lparr> sr_monitor_id = i, sr_url = u, sr_snapshot = reload_snapshot s, sr_captured_at = t \<rparr>"
  let ?old = "\<exists>r \<in> set (st_snapshots st). sr_monitor_id r = i \<and> sr_url r = u"
  have "map snapshot_key (st_snapshots (upsert_snapshot i u s t st))
      = (if ?old then map snapshot_key (st_snapshots st)
         else map snapshot_key (st_snapshots st) @ [(i, u)])"
    by (auto simp: upsert_snapshot_def upsert_row_def snapshot_key_def)
  moreover have "?old \<longleftrightarrow> (i, u) \<in> snapshot_key ` set (st_snapshots st)"
    by (auto simp: snapshot_key_def)
  ultimately have "distinct (map snapshot_key (st_snapshots (upsert_snapshot i u s t st)))"
    using assms(1) by (simp add: store_ok_def)
  moreover have "\<forall>r \<in> set (st_snapshots (upsert_snapshot i u s t st)). sr_monitor_id r \<in> monitor_ids st"
    using assms by (auto simp: upsert_snapshot_def upsert_row_def store_ok_def split: if_splits)
  ultimately show ?thesis using assms(1) by (simp add: store_ok_def)
qed

lemma delete_snapshot_ok: "store_ok st \<Longrightarrow> store_ok (delete_snapshot i u st)"
  unfolding store_ok_def by (simp add: distinct_map_filter) (auto simp: delete_snapshot_def distinct_map_filter)

lemma record_page_ok:
  assumes "store_ok st" and "chk_monitor_id c \<in> monitor_ids st" and "chk_id c \<in> check_ids st"
  shows "store_ok (record_page c p st) \<and> st_monitors (record_page c p st) = st_monitors st
    \<and> st_checks (record_page c p st) = st_checks st"
proof -
  let ?st = "st\<lparr> st_check_pages := st_check_pages st @
    [\<lparr> pr_check_id = chk_id c, pr_monitor_id = chk_monitor_id c, pr_page = reload_page p \<rparr>] \<rparr>"
  have "store_ok ?st" "chk_monitor_id c \<in> monitor_ids ?st"
    using assms by (auto simp: store_ok_def monitor_ids_def check_ids_def)
  then show ?thesis
    by (auto simp: record_page_def Let_def intro: upsert_snapshot_ok delete_snapshot_ok split: option.splits)
qed

lemma record_pages_ok:
  assumes "store_ok st" and "chk_monitor_id c \<in> monitor_ids st" and "chk_id c \<in> check_ids st"
  shows "store_ok (fold (record_page c) ps st) \<and> st_monitors (fold (record_page c) ps st) = st_monitors st"
  using assms
proof (induction ps arbitrary: st)
  case (Cons p ps)
  note r = record_page_ok [OF Cons.prems, of p]
  then show ?case
    using Cons.IH [of "record_page c p st"] Cons.prems by (simp add: monitor_ids_def check_ids_def)
qed simp

lemma record_check_ok:
  assumes "store_ok st" and "record_check c st = Inr st'"
  shows "store_ok st' \<and> st_monitors st' = st_monitors st"
proof -
  let ?st = "st\<lparr> st_checks := st_checks st @ [c\<lparr> chk_pages := [] \<rparr>] \<rparr>"
  have "store_ok ?st" "chk_monitor_id c \<in> monitor_ids ?st" "chk_id c \<in> check_ids ?st"
    using assms by (auto simp: record_check_def store_ok_def monitor_ids_def check_ids_def split: if_splits)
  from record_pages_ok [OF this] show ?thesis
    using assms(2) by (auto simp: record_check_def split: if_splits)
qed

lemma store_step_ok: "store_ok st \<Longrightarrow> store_ok (store_step x st)"
  by (cases x)
    (auto simp: or_unchanged_def update_schedule_def set_status_def save_snapshot_def
      split: sum.splits if_splits
      intro: create_monitor_ok delete_monitor_ok update_monitor_ok upsert_snapshot_ok
        delete_snapshot_ok record_check_ok [THEN conjunct1])

interpretation store: machine store_step store_ok
  by unfold_locales (rule store_step_ok)

text \<open>
  C32. The store keeps its integrity: whatever its methods are called with and in whatever order,
  the identifiers of monitors, targets and checks stay unique, a monitor has one snapshot for a
  page, and every target, snapshot, check and check page belongs to a monitor (and check) that
  exists.
\<close>

theorem store_keeps_integrity: "store_ok (run_ops store_step ops store_open)"
  by (rule store.run_inv) simp

subsection \<open>Snapshots as a keyed map\<close>

definition snapshot_of :: "store \<Rightarrow> string \<times> string \<Rightarrow> change_tracking_snapshot option" where
  "snapshot_of st = map_of (map (\<lambda>r. (snapshot_key r, sr_snapshot r)) (st_snapshots st))"

text \<open>A value to store: the snapshot and the time of its capture.\<close>

type_synonym capture = "change_tracking_snapshot \<times> int"

definition put_snapshot :: "string \<times> string \<Rightarrow> capture \<Rightarrow> store \<Rightarrow> store" where
  "put_snapshot k v =
    upsert_row \<lparr> sr_monitor_id = fst k, sr_url = snd k, sr_snapshot = fst v, sr_captured_at = snd v \<rparr>"

definition drop_snapshots :: "(string \<times> string) set \<Rightarrow> store \<Rightarrow> store" where
  "drop_snapshots ks st = st\<lparr> st_snapshots := filter (\<lambda>r. snapshot_key r \<notin> ks) (st_snapshots st) \<rparr>"

definition captured :: "store \<Rightarrow> string \<times> string \<Rightarrow> capture option" where
  "captured st = map_of (map (\<lambda>r. (snapshot_key r, (sr_snapshot r, sr_captured_at r))) (st_snapshots st))"

lemma snapshot_of_captured: "snapshot_of st k = map_option fst (captured st k)"
proof -
  have "map_of (map (\<lambda>r. (snapshot_key r, sr_snapshot r)) rs) k
      = map_option fst (map_of (map (\<lambda>r. (snapshot_key r, (sr_snapshot r, sr_captured_at r))) rs) k)" for rs
    by (induction rs) auto
  then show ?thesis by (simp add: snapshot_of_def captured_def)
qed

lemma map_of_updated_rows:
  assumes "\<And>r. fst (f r) = key r" and "key row = k"
  shows "map_of (map f (if k \<in> key ` set rs then map (\<lambda>r. if key r = k then row else r) rs else rs @ [row])) k'
    = (if k' = k then Some (snd (f row)) else map_of (map f rs) k')"
proof -
  have split: "map_of (f r # xs) k' = (if k' = key r then Some (snd (f r)) else map_of xs k')" for r xs
    using assms(1) [of r] by (cases "f r") simp
  have "map_of (map f (map (\<lambda>r. if key r = k then row else r) rs)) k'
      = (if k' = k \<and> k \<in> key ` set rs then Some (snd (f row)) else map_of (map f rs) k')"
    using assms(2) by (induction rs) (auto simp: split simp del: map_of.simps)
  moreover have "map_of (map f (rs @ [row])) k'
      = (if k' = k \<and> k \<notin> key ` set rs then Some (snd (f row)) else map_of (map f rs) k')"
    using assms(2) by (induction rs) (auto simp: split simp del: map_of.simps(2))
  ultimately show ?thesis
    by auto
qed

interpretation baselines: keyed_cache captured put_snapshot drop_snapshots
proof
  fix k k' :: "string \<times> string" and v :: capture and ks :: "(string \<times> string) set" and st :: store
  let ?f = "\<lambda>r. (snapshot_key r, (sr_snapshot r, sr_captured_at r))"
  let ?row = "\<lparr> sr_monitor_id = fst k, sr_url = snd k, sr_snapshot = fst v, sr_captured_at = snd v \<rparr>"
  have key: "(sr_monitor_id r = fst k \<and> sr_url r = snd k) = (snapshot_key r = k)" for r
    by (cases k) (auto simp: snapshot_key_def)
  have "(\<exists>r \<in> set rs. snapshot_key r = k) = (k \<in> snapshot_key ` set rs)" for rs by auto
  then have "captured (put_snapshot k v st) k' = map_of (map ?f
      (if k \<in> snapshot_key ` set (st_snapshots st)
       then map (\<lambda>r. if snapshot_key r = k then ?row else r) (st_snapshots st)
       else st_snapshots st @ [?row])) k'"
    by (simp add: captured_def put_snapshot_def upsert_row_def key)
  also have "\<dots> = (if k' = k then Some (snd (?f ?row)) else map_of (map ?f (st_snapshots st)) k')"
    by (rule map_of_updated_rows) (simp_all add: snapshot_key_def)
  finally show "captured (put_snapshot k v st) k' = (if k' = k then Some v else captured st k')"
    by (simp add: captured_def)
  have "map_of (map (\<lambda>r. (snapshot_key r, (sr_snapshot r, sr_captured_at r))) (filter (\<lambda>r. snapshot_key r \<notin> ks) rs)) k'
      = (if k' \<in> ks then None else map_of (map (\<lambda>r. (snapshot_key r, (sr_snapshot r, sr_captured_at r))) rs) k')" for rs
    by (induction rs) auto
  then show "captured (drop_snapshots ks st) k' = (if k' \<in> ks then None else captured st k')"
    by (simp add: captured_def drop_snapshots_def)
qed

lemma snapshot_of_upsert:
  "snapshot_of (upsert_snapshot i u s t st) k = (if k = (i, u) then Some (reload_snapshot s) else snapshot_of st k)"
proof -
  have "upsert_snapshot i u s t st = put_snapshot (i, u) (reload_snapshot s, t) st"
    by (simp add: upsert_snapshot_def put_snapshot_def)
  then show ?thesis by (simp add: snapshot_of_captured baselines.get_ins)
qed

lemma snapshot_of_delete: "snapshot_of (delete_snapshot i u st) k = (if k = (i, u) then None else snapshot_of st k)"
proof -
  have "delete_snapshot i u st = drop_snapshots {(i, u)} st"
    by (auto simp: delete_snapshot_def drop_snapshots_def snapshot_key_def intro!: arg_cong2 [where f = filter])
  then show ?thesis by (simp add: snapshot_of_captured baselines.get_lose)
qed

lemma prior_snapshots_load: "prior_snapshots (load_prior i st) u = snapshot_of st (i, u)"
proof -
  have "map_of (map (\<lambda>r. (sr_url r, sr_snapshot r)) (filter (\<lambda>r. sr_monitor_id r = i) rs)) u
      = map_of (map (\<lambda>r. (snapshot_key r, sr_snapshot r)) rs) (i, u)" for rs
    by (induction rs) (auto simp: snapshot_key_def)
  then show ?thesis by (simp add: load_prior_def snapshot_of_def Let_def)
qed

lemma known_urls_load: "set (prior_known_urls (load_prior i st)) = {u. snapshot_of st (i, u) \<noteq> None}"
  by (force simp: load_prior_def snapshot_of_def Let_def map_of_eq_None_iff snapshot_key_def)

lemma distinct_known_urls: "store_ok st \<Longrightarrow> distinct (prior_known_urls (load_prior i st))"
proof -
  have "distinct (map snapshot_key rs) \<Longrightarrow> distinct (map sr_url (filter (\<lambda>r. sr_monitor_id r = i) rs))" for rs
    by (induction rs) (auto simp: snapshot_key_def image_iff)
  then show "store_ok st \<Longrightarrow> distinct (prior_known_urls (load_prior i st))"
    by (simp add: load_prior_def store_ok_def Let_def)
qed

subsection \<open>The baselines a check leaves\<close>

definition page_baseline ::
    "page_result \<Rightarrow> change_tracking_snapshot option \<Rightarrow> change_tracking_snapshot option" where
  "page_baseline p old =
    (if pg_status p = PageRemoved then None
     else if pg_status p = PageError then old
     else (case Option.bind (pg_change_tracking p) ctr_snapshot of
             Some s \<Rightarrow> Some (reload_snapshot s)
           | None \<Rightarrow> old))"

lemma snapshot_of_record_page:
  "snapshot_of (record_page c p st) k =
    (if k = (chk_monitor_id c, pg_url p) then page_baseline p (snapshot_of st k) else snapshot_of st k)"
proof -
  have rows: "snapshot_of (st\<lparr> st_check_pages := x \<rparr>) = snapshot_of st" for x
    by (simp add: snapshot_of_def)
  show ?thesis
    by (cases "pg_status p")
      (auto simp: record_page_def page_baseline_def Let_def snapshot_of_upsert snapshot_of_delete rows
        split: option.splits)
qed

lemma snapshot_of_record_pages:
  "distinct (map pg_url ps) \<Longrightarrow> snapshot_of (fold (record_page c) ps st) (chk_monitor_id c, u) =
    (case find (\<lambda>p. pg_url p = u) ps of
       Some p \<Rightarrow> page_baseline p (snapshot_of st (chk_monitor_id c, u))
     | None \<Rightarrow> snapshot_of st (chk_monitor_id c, u))"
proof (induction ps arbitrary: st)
  case (Cons p ps)
  have "find (\<lambda>q. pg_url q = u) ps = None" if "pg_url p = u"
    using Cons.prems that by (auto simp: find_None_iff image_iff)
  then show ?case using Cons by (auto simp: snapshot_of_record_page split: option.splits)
qed simp

lemma find_unique: "distinct (map f ps) \<Longrightarrow> p \<in> set ps \<Longrightarrow> find (\<lambda>q. f q = f p) ps = Some p"
  by (induction ps) (auto simp: image_iff)

lemma snapshot_of_record_check:
  assumes "record_check c st = Inr st'" and "distinct (map pg_url (chk_pages c))" and "p \<in> set (chk_pages c)"
  shows "snapshot_of st' (chk_monitor_id c, pg_url p)
    = page_baseline p (snapshot_of st (chk_monitor_id c, pg_url p))"
proof -
  have "find (\<lambda>q. pg_url q = pg_url p) (chk_pages c) = Some p"
    using assms(2,3) by (rule find_unique)
  moreover have "snapshot_of (st\<lparr> st_checks := x \<rparr>) = snapshot_of st" for x
    by (simp add: snapshot_of_def)
  ultimately show ?thesis
    using assms(1,2) by (auto simp: record_check_def snapshot_of_record_pages split: if_splits)
qed

end
