(* ===== verification/Monitor_Props.thy ===== *)
theory Monitor_Props
  imports Monitor_Runner Monitor_Store_Props Diff_Props
begin

section \<open>Properties of check runs and of the scheduler\<close>

text \<open>
  How a check classifies pages, that it never panics, that a second check of an unchanged site
  reports nothing, how a failed page of a crawl spoils a baseline, and what a run does to the
  schedule of its monitor.
\<close>

subsection \<open>Judging leaves the classification alone\<close>

definition page_core ::
    "page_result \<Rightarrow> string \<times> page_status \<times> change_tracking_snapshot option option" where
  "page_core p = (pg_url p, pg_status p, map_option ctr_snapshot (pg_change_tracking p))"

definition tracked_if_changed :: "page_result \<Rightarrow> bool" where
  "tracked_if_changed p \<longleftrightarrow> \<not> (pg_status p = PageChanged \<and> pg_change_tracking p = None)"

lemma judge_pages_core:
  assumes "list_all tracked_if_changed pages"
    and "\<forall>i \<in> set is. i < length pages \<and> pg_status (pages ! i) = PageChanged"
  shows "\<exists>pages'. judge_pages judge goal llm max_tokens is used pages = Some pages'
    \<and> map page_core pages' = map page_core pages"
  using assms
proof (induction "is" arbitrary: used pages)
  case (Cons i "is")
  have i: "i < length pages" "pg_status (pages ! i) = PageChanged" using Cons.prems(2) by auto
  then obtain ct where ct: "pg_change_tracking (pages ! i) = Some ct"
    using Cons.prems(1) by (auto simp: list_all_length tracked_if_changed_def)
  have keep: "\<exists>pages'. judge_pages judge goal llm max_tokens is n pages = Some pages'
      \<and> map page_core pages' = map page_core pages" for n
    using Cons by simp
  let ?put = "\<lambda>j. pages[i := (pages ! i)\<lparr> pg_change_tracking := Some (ct\<lparr> ctr_judgment := Some j \<rparr>) \<rparr>]"
  have core: "map page_core (?put j) = map page_core pages" for j
    using i ct by (simp add: map_update page_core_def list_update_same_conv)
  have status: "map pg_status (?put j) = map pg_status pages" for j
    using i by (simp add: map_update list_update_same_conv)
  have "list_all tracked_if_changed (?put j)" for j
    using Cons.prems(1) i by (auto simp: list_all_length tracked_if_changed_def nth_list_update)
  moreover have "\<forall>k \<in> set is. k < length (?put j) \<and> pg_status (?put j ! k) = PageChanged" for j
    using Cons.prems(2) by (auto simp: nth_list_update)
  ultimately have update: "\<exists>pages'. judge_pages judge goal llm max_tokens is n (?put j) = Some pages'
      \<and> map page_core pages' = map page_core pages" for n j
    using Cons.IH [of "?put j" n] core [of j] by simp
  show ?case
    using keep update ct by (auto split: sum.splits prod.splits option.splits)
qed simp

lemma eligible_changed:
  "\<forall>i \<in> set (judge_eligible_indices pages n). i < length pages \<and> pg_status (pages ! i) = PageChanged"
  unfolding judge_eligible_indices_def using set_take_subset by fastforce

subsection \<open>The classification of pages\<close>

text \<open>What the status of a fetched page should be.\<close>

definition page_class :: "diff_env \<Rightarrow> change_tracking_mode list \<Rightarrow> prior_state \<Rightarrow> fetched_page \<Rightarrow> page_status" where
  "page_class env modes prior page =
    (if fp_error page \<noteq> None then PageError
     else (case prior_snapshots prior (fp_url page) of
             None \<Rightarrow> PageNew
           | Some previous \<Rightarrow>
               if same_page env (page_options modes prior page) (fp_markdown page) (fp_json page)
                    (fp_content_type page) previous
               then PageSame else PageChanged))"

definition prior_wf :: "prior_state \<Rightarrow> bool" where
  "prior_wf prior \<longleftrightarrow>
     (\<forall>u. case prior_snapshots prior u of None \<Rightarrow> True | Some s \<Rightarrow> json_wf (or_null (snap_json s)))"

definition fetched_wf :: "fetched_page \<Rightarrow> bool" where
  "fetched_wf page \<longleftrightarrow> json_wf (or_null (fp_json page))"

lemma check_page_url [simp]: "pg_url (check_page env modes prior page) = fp_url page"
  by (simp add: check_page_def Let_def split: option.splits)

lemma removed_page_fields [simp]: "pg_url (removed_page u) = u" "pg_status (removed_page u) = PageRemoved"
  by (simp_all add: removed_page_def)

lemma check_page_tracked: "tracked_if_changed (check_page env modes prior page)"
  by (simp add: check_page_def tracked_if_changed_def Let_def split: option.splits)

lemma check_page_status_local:
  assumes "case prior_snapshots prior (fp_url page) of None \<Rightarrow> True | Some s \<Rightarrow> json_wf (or_null (snap_json s))"
    and "fetched_wf page"
  shows "pg_status (check_page env modes prior page) = page_class env modes prior page"
proof (cases "fp_error page")
  case None
  have wf: "well_formed_extractions (page_options modes prior page) (fp_json page)"
    using assms by (simp add: well_formed_extractions_def fetched_wf_def page_options_def)
  show ?thesis
    using status_cases [OF wf, of env "fp_markdown page" "fp_content_type page" default_max_diff_changes] None
    by (cases "prior_snapshots prior (fp_url page)")
      (auto simp: check_page_def page_class_def compute_change_tracking_def Let_def page_options_def
        split: change_status.splits)
qed (simp add: check_page_def page_class_def)

lemma check_page_status:
  assumes "prior_wf prior" and "fetched_wf page"
  shows "pg_status (check_page env modes prior page) = page_class env modes prior page"
  using assms check_page_status_local unfolding prior_wf_def by blast

lemma pages_tracked: "list_all tracked_if_changed (check_fetched env m prior fetched @ check_removed target prior fetched d)"
  by (auto simp: check_fetched_def check_removed_def list_all_iff check_page_tracked)
    (simp_all add: tracked_if_changed_def removed_page_def)

lemma judge_check_core:
  "list_all tracked_if_changed pages \<Longrightarrow>
    \<exists>pages'. judge_check judge m cfg llm pages = Some pages' \<and> map page_core pages' = map page_core pages"
  using judge_pages_core [OF _ eligible_changed]
  by (cases "mon_judge_enabled m"; cases "mon_goal m"; cases llm) (auto simp: judge_check_def)

lemma run_check_result:
  assumes "fetch target = Inr fetched"
    and "down = site_is_down (tgt_kind target) prior fetched (check_fetched env m prior fetched)"
  shows "\<exists>c. run_check env judge i m target prior fetch cfg llm now = Inr c
    \<and> map page_core (chk_pages c)
        = map page_core (check_fetched env m prior fetched @ check_removed target prior fetched down)
    \<and> chk_id c = i \<and> chk_monitor_id c = mon_id m \<and> chk_counts c = tally (chk_pages c)
    \<and> chk_site_down c = down \<and> chk_status c = (if down then CheckPartial else CheckCompleted)"
proof -
  obtain pages' where "judge_check judge m cfg llm (check_fetched env m prior fetched @ check_removed target prior fetched down) = Some pages'"
      "map page_core pages' = map page_core (check_fetched env m prior fetched @ check_removed target prior fetched down)"
    using judge_check_core [OF pages_tracked] by blast
  then show ?thesis using assms by (simp add: run_check_def Let_def)
qed

lemma core_fields:
  assumes "map page_core ps = map page_core qs"
  shows "map pg_url ps = map pg_url qs" and "map pg_status ps = map pg_status qs"
proof -
  have "map (fst \<circ> page_core) ps = map (fst \<circ> page_core) qs"
    "map (fst \<circ> snd \<circ> page_core) ps = map (fst \<circ> snd \<circ> page_core) qs"
    using assms by (metis map_map)+
  then show "map pg_url ps = map pg_url qs" "map pg_status ps = map pg_status qs"
    by (simp_all add: page_core_def comp_def)
qed

lemma map_page_status:
  "list_all fetched_wf fetched \<Longrightarrow> prior_wf prior \<Longrightarrow>
    map pg_status (map (check_page env modes prior) fetched) = map (page_class env modes prior) fetched"
  by (auto simp: list_all_iff check_page_status)

text \<open>
  C31. A check that gets its pages completes, without a panic, and classifies them. Each fetched
  page is an error, new, same or changed, as its fetch, the stored snapshot and the comparison
  say; a crawl adds the known URLs it did not meet, as removed, unless the site-down gate holds
  them back: more than four fifths of the known URLs vanished and fewer pages succeeded than
  were known. The counts are those of the pages, and a gated check is partial.
\<close>

theorem check_classifies_pages:
  assumes "fetch target = Inr fetched" and "prior_wf prior" and "list_all fetched_wf fetched"
  shows "\<exists>c. run_check env judge i m target prior fetch cfg llm now = Inr c
    \<and> map pg_url (chk_pages c) = map fp_url fetched
        @ (if tgt_kind target = TargetCrawl \<and> \<not> chk_site_down c then vanished_urls prior fetched else [])
    \<and> map pg_status (chk_pages c) = map (page_class env (effective_modes m) prior) fetched
        @ (if tgt_kind target = TargetCrawl \<and> \<not> chk_site_down c
           then replicate (length (vanished_urls prior fetched)) PageRemoved else [])
    \<and> chk_counts c = tally (chk_pages c)
    \<and> (chk_status c = CheckPartial \<longleftrightarrow> chk_site_down c)
    \<and> (chk_site_down c \<longleftrightarrow> tgt_kind target = TargetCrawl
        \<and> 4 * length (prior_known_urls prior) < 5 * length (vanished_urls prior fetched)
        \<and> length (filter (\<lambda>s. s \<noteq> PageError) (map (page_class env (effective_modes m) prior) fetched))
            < length (prior_known_urls prior))"
proof -
  let ?checked = "check_fetched env m prior fetched"
  define down where "down = site_is_down (tgt_kind target) prior fetched ?checked"
  obtain c where c: "run_check env judge i m target prior fetch cfg llm now = Inr c"
      "map page_core (chk_pages c) = map page_core (?checked @ check_removed target prior fetched down)"
      "chk_counts c = tally (chk_pages c)" "chk_site_down c = down"
      "chk_status c = (if down then CheckPartial else CheckCompleted)"
    using run_check_result [where fetch = fetch, OF assms(1) down_def] by blast
  note fields = core_fields [OF c(2)]
  have status: "map pg_status ?checked = map (page_class env (effective_modes m) prior) fetched"
    unfolding check_fetched_def using assms(2,3) by (intro map_page_status)
  have removed: "map pg_url (map removed_page us) = us"
      "map pg_status (map removed_page us) = replicate (length us) PageRemoved" for us
    by (induction us) (simp_all add: removed_page_def)
  have succeeded: "length (filter (\<lambda>p. pg_status p \<noteq> PageError) ?checked)
      = length (filter (\<lambda>s. s \<noteq> PageError) (map (page_class env (effective_modes m) prior) fetched))"
    unfolding status [symmetric] by (simp add: filter_map comp_def)
  have gate: "ratio_gt v n site_down_vanish_fraction \<longleftrightarrow> 4 * n < 5 * v" if "0 < n" for v n
  proof -
    have "(4 / 5 * rat_of_nat n < rat_of_nat v) = (rat_of_nat (4 * n) < rat_of_nat (5 * v))" by (simp add: mult.commute)
    then show ?thesis unfolding of_nat_less_iff using that by (simp add: ratio_gt_def site_down_vanish_fraction_def)
  qed
  have "vanished_urls prior fetched = []" if "prior_known_urls prior = []"
    using that by (simp add: vanished_urls_def)
  then have gated: "chk_site_down c \<longleftrightarrow> tgt_kind target = TargetCrawl
        \<and> 4 * length (prior_known_urls prior) < 5 * length (vanished_urls prior fetched)
        \<and> length (filter (\<lambda>p. pg_status p \<noteq> PageError) ?checked) < length (prior_known_urls prior)"
    unfolding c(4) down_def site_is_down_def Let_def
    by (cases "prior_known_urls prior = []") (simp_all add: gate)
  have urls: "map pg_url ?checked = map fp_url fetched" by (simp add: check_fetched_def)
  show ?thesis
    using c(1,3,4,5) fields gated unfolding succeeded
    by (intro exI [of _ c]) (simp add: status removed urls check_removed_def del: map_map)
qed

subsection \<open>A second check of an unchanged site\<close>

lemma reload_snapshot_fields [simp]:
  "snap_markdown (reload_snapshot s) = snap_markdown s"
  "snap_content_hash (reload_snapshot s) = snap_content_hash s"
  "or_null (snap_json (reload_snapshot s)) = or_null (snap_json s)"
  by (simp_all add: reload_snapshot_def or_null_def)

lemma page_baseline_core: "page_core p = page_core q \<Longrightarrow> page_baseline p old = page_baseline q old"
  by (cases "pg_change_tracking p"; cases "pg_change_tracking q") (auto simp: page_core_def page_baseline_def)

lemma same_page_modes:
  "cto_modes opts = cto_modes opts' \<Longrightarrow> same_page env opts md js ct s = same_page env opts' md js ct s"
  by (simp add: same_page_def compares_markdown_def compares_json_def)

lemma check_page_baseline:
  assumes "fp_error page = None" and "fetched_wf page"
  shows "\<exists>s. page_baseline (check_page env modes prior page) old = Some s
    \<and> same_page env (page_options modes prior' page) (fp_markdown page) (fp_json page) (fp_content_type page) s
    \<and> json_wf (or_null (snap_json s))"
proof -
  let ?r = "compute_change_tracking_with_limits env (page_options modes prior page) (fp_markdown page)
    (fp_json page) (fp_content_type page) default_max_diff_changes"
  obtain s where s: "ctr_snapshot ?r = Some s" using snapshot_exists by blast
  have "page_baseline (check_page env modes prior page) old = Some (reload_snapshot s)"
    using assms(1) s
    by (auto simp: check_page_def page_baseline_def compute_change_tracking_def Let_def
        split: change_status.splits)
  moreover have "same_page env (page_options modes prior' page) (fp_markdown page) (fp_json page)
      (fp_content_type page) (reload_snapshot s)"
    using snapshot_is_same_page [OF s, of "reload_snapshot s"]
      same_page_modes [of "page_options modes prior page" "page_options modes prior' page"]
    by (simp add: page_options_def)
  moreover have "json_wf (or_null (snap_json (reload_snapshot s)))"
    using snapshot_json_wf [OF s] assms(2) by (simp add: fetched_wf_def)
  ultimately show ?thesis by blast
qed

lemma check_urls_distinct:
  assumes "store_ok st" and "distinct (map fp_url fetched)"
    and "map page_core ps = map page_core
      (check_fetched env m (load_prior i st) fetched @ check_removed target (load_prior i st) fetched d)"
  shows "distinct (map pg_url ps)"
  using assms(2) distinct_known_urls [OF assms(1), of i] core_fields(1) [OF assms(3)]
  by (auto simp: check_fetched_def check_removed_def vanished_urls_def comp_def)

definition tally_of :: "page_status list \<Rightarrow> check_counts" where
  "tally_of ss =
    \<lparr> cc_same = count_list ss PageSame, cc_new = count_list ss PageNew, cc_changed = count_list ss PageChanged,
      cc_removed = count_list ss PageRemoved, cc_error = count_list ss PageError \<rparr>"

lemma tally_by_status: "tally ps = tally_of (map pg_status ps)"
proof -
  have "length (filter (\<lambda>p. pg_status p = x) ps) = count_list (map pg_status ps) x" for x
    by (induction ps) auto
  then show ?thesis by (simp add: tally_counts tally_of_def)
qed

lemma count_statuses:
  "count_list (map (\<lambda>p. if P p then x else y) ps) z
    = (if z = x then length (filter P ps) else 0) + (if z = y then length (filter (\<lambda>p. \<not> P p) ps) else 0)"
  by (induction ps) auto

lemma count_replicate: "count_list (replicate n x) z = (if z = x then n else 0)"
  by (induction n) auto

text \<open>
  A site that does not change is reported so. When a check of a target has been recorded and
  the next check fetches the same pages, that check finds nothing new and nothing changed: each
  page that could be fetched is the same, each that could not is an error again, and whatever
  else it reports is removed.
\<close>

theorem unchanged_site_stays_same:
  assumes "store_ok st" and "fetch target = Inr fetched" and "distinct (map fp_url fetched)"
    and "list_all fetched_wf fetched"
    and "run_check env judge i m target (load_prior (mon_id m) st) fetch cfg llm now = Inr c"
    and "record_check c st = Inr st'"
  shows "\<exists>c'. run_check env judge i' m target (load_prior (mon_id m) st') fetch cfg llm now' = Inr c'
    \<and> cc_new (chk_counts c') = 0 \<and> cc_changed (chk_counts c') = 0
    \<and> cc_same (chk_counts c') = length (filter (\<lambda>p. fp_error p = None) fetched)
    \<and> cc_error (chk_counts c') = length (filter (\<lambda>p. fp_error p \<noteq> None) fetched)"
proof -
  let ?old = "load_prior (mon_id m) st" and ?new = "load_prior (mon_id m) st'"
  let ?modes = "effective_modes m"
  obtain d where c: "map page_core (chk_pages c)
        = map page_core (check_fetched env m ?old fetched @ check_removed target ?old fetched d)"
      "chk_monitor_id c = mon_id m"
    using run_check_result [where fetch = fetch, OF assms(2) refl, of env judge i m ?old cfg llm now] assms(5)
    by auto
  note distinct = check_urls_distinct [OF assms(1,3) c(1)]
  have cls: "pg_status (check_page env ?modes ?new page) = (if fp_error page = None then PageSame else PageError)"
    if page: "page \<in> set fetched" for page
  proof (cases "fp_error page")
    case None
    have wf: "fetched_wf page" using assms(4) page by (simp add: list_all_iff)
    have "page_core (check_page env ?modes ?old page) \<in> set (map page_core (chk_pages c))"
      using page unfolding c(1) by (auto simp: check_fetched_def)
    then obtain p where p: "p \<in> set (chk_pages c)" "page_core p = page_core (check_page env ?modes ?old page)"
      by auto
    then have url: "pg_url p = fp_url page" by (simp add: page_core_def)
    obtain s where s: "page_baseline (check_page env ?modes ?old page) (snapshot_of st (mon_id m, fp_url page)) = Some s"
        "same_page env (page_options ?modes ?new page) (fp_markdown page) (fp_json page) (fp_content_type page) s"
        "json_wf (or_null (snap_json s))"
      using check_page_baseline [OF None wf] by blast
    have "prior_snapshots ?new (fp_url page) = Some s"
      using snapshot_of_record_check [OF assms(6) distinct p(1)] page_baseline_core [OF p(2)] s(1) c(2) url
      by (simp add: prior_snapshots_load)
    then show ?thesis
      using check_page_status_local [of ?new page env ?modes] s(2,3) wf None by (simp add: page_class_def)
  qed (simp add: check_page_def)
  obtain c' d' where c': "run_check env judge i' m target ?new fetch cfg llm now' = Inr c'"
      "map page_core (chk_pages c')
        = map page_core (check_fetched env m ?new fetched @ check_removed target ?new fetched d')"
      "chk_counts c' = tally (chk_pages c')"
    using run_check_result [where fetch = fetch, OF assms(2) refl] by blast
  have "map pg_status (chk_pages c')
      = map (\<lambda>page. if fp_error page = None then PageSame else PageError) fetched
        @ replicate (length (check_removed target ?new fetched d')) PageRemoved"
  proof -
    have "map pg_status (check_removed target ?new fetched d')
        = replicate (length (check_removed target ?new fetched d')) PageRemoved"
      by (auto simp: check_removed_def removed_page_def comp_def map_replicate_const)
    then show ?thesis using core_fields(2) [OF c'(2)] cls by (simp add: check_fetched_def)
  qed
  then have "chk_counts c' = tally_of
      (map (\<lambda>page. if fp_error page = None then PageSame else PageError) fetched
        @ replicate (length (check_removed target ?new fetched d')) PageRemoved)"
    using c'(3) by (simp add: tally_by_status)
  then show ?thesis
    using c'(1) by (intro exI [of _ c']) (simp add: tally_of_def count_statuses count_replicate)
qed

subsection \<open>A failed page of a crawl\<close>

lemma scrape_to_page_failed:
  "scrape_to_page url (failed_page url status reason)
    = \<lparr> fp_url = url, fp_markdown = [], fp_json = None, fp_content_type = None, fp_error = None \<rparr>"
  by (simp add: scrape_to_page_def failed_page_def scrape_data_default_def)

lemma scrape_target_page_failed:
  "scrape_target_page url (failed_page url status reason)
    = failed_fetch url (block_message \<lparr> block_vendor = http_error_vendor, block_reason = reason \<rparr>)"
  by (simp add: scrape_target_page_def failed_page_def scrape_data_default_def is_wall_def
      http_error_vendor_def structural_failure_vendor_def parked_domain_vendor_def)

text \<open>
  A page that a crawl could not fetch reads as a change and spoils the baseline. The crawl
  reports it as a document without a body; the check diffs that as an empty page, so a known
  page with text is reported as changed and its stored snapshot becomes empty. A scrape of the
  same page is reported as an error and leaves the baseline alone.
\<close>

theorem failed_crawl_page_reads_as_change:
  assumes "prior_snapshots prior url = Some previous" and "snap_markdown previous = Some md"
    and "paragraphs md \<noteq> []" and "GitDiff \<in> set (effective_modes m)"
  shows "let crawled = check_page env (effective_modes m) prior (scrape_to_page url (failed_page url status reason));
             scraped = check_page env (effective_modes m) prior (scrape_target_page url (failed_page url status reason))
    in pg_status crawled = PageChanged \<and> map_option snap_markdown (page_baseline crawled (Some previous)) = Some (Some [])
       \<and> pg_status scraped = PageError \<and> page_baseline scraped (Some previous) = Some previous"
proof -
  have "paragraphs [] = []" by (simp add: paragraphs_def unify_newlines_def)
  then have "normalize_markdown md \<noteq> normalize_markdown []" using assms(3) by (simp add: normalize_eq_iff)
  then show ?thesis
    using assms(1,2,4) unfolding scrape_to_page_failed scrape_target_page_failed
    by (auto simp: check_page_def page_baseline_def failed_fetch_def compute_change_tracking_def
        compute_change_tracking_with_limits_def page_options_def is_text_def Let_def)
qed

subsection \<open>The schedule\<close>

lemma run_targets_keeps:
  assumes "store_ok st"
  shows "case run_targets sch m now ts st of (st', sent, err) \<Rightarrow>
    store_ok st' \<and> st_monitors st' = st_monitors st"
  using assms
proof (induction sch m now ts st rule: run_targets.induct)
  case (2 sch m now t ts st)
  show ?case
  proof (cases "run_check (sch_diff sch) (sch_judge sch) (sch_new_id sch st) m t (load_prior (mon_id m) st)
      (sch_fetch sch) (sch_config sch) (resolve_judge_llm sch m) now")
    case (Inr check)
    show ?thesis
    proof (cases "record_check check st")
      case (Inr st')
      then have "store_ok st'" "st_monitors st' = st_monitors st" using record_check_ok [OF 2(2)] by auto
      then show ?thesis
        using 2(1) [OF \<open>run_check _ _ _ _ _ _ _ _ _ _ = Inr check\<close> Inr] \<open>run_check _ _ _ _ _ _ _ _ _ _ = Inr check\<close> Inr
        by (auto split: prod.splits)
    qed (use 2(2) Inr in simp)
  qed (use 2(2) in simp)
qed simp

definition within_i64 :: "schedule \<Rightarrow> bool" where
  "within_i64 s = (case s of Interval n \<Rightarrow> n < 2 ^ 63 | Cron _ \<Rightarrow> True)"

lemma parse_interval_positive: "parse_interval s = Inr n \<Longrightarrow> 0 < n"
  by (auto simp: parse_interval_def Let_def split: option.splits if_splits)

lemma schedule_parse_positive: "schedule_parse s = Inr (Interval n) \<Longrightarrow> 0 < n"
  by (auto simp: schedule_parse_def Let_def map_sum_def split: option.splits sum.splits if_splits
      dest: parse_interval_positive)

lemma schedule_next_after_later:
  assumes "schedule_parse s = Inr sched" and "within_i64 sched" and "0 \<le> now"
  shows "now < schedule_next_after sched now"
proof (cases sched)
  case (Interval n)
  then show ?thesis
    using assms schedule_parse_positive by (simp add: schedule_next_after_def within_i64_def as_i64_small)
next
  case (Cron c)
  then show ?thesis using cron_next_after_later [OF assms(3)] by (simp add: schedule_next_after_def)
qed

text \<open>
  What a run does to the schedules. When every target was checked, the monitor's next run is
  the next time of its schedule after now, which lies in the future for intervals that fit an
  \<open>i64\<close>; a schedule that does not parse pauses the monitor. When a target failed, the run ends
  there and no monitor changes, so the monitor stays due and the next tick runs it again. Other
  monitors are never touched.
\<close>

theorem run_monitor_schedules:
  assumes "store_ok st" and "m \<in> set (st_monitors st)" and "0 \<le> now"
  shows "case run_monitor sch m now st of (st', sent, err) \<Rightarrow>
    store_ok st'
    \<and> (case err of
         Some e \<Rightarrow> st_monitors st' = st_monitors st
       | None \<Rightarrow>
           (case schedule_parse (mon_schedule m) of
              Inl e \<Rightarrow> m\<lparr> mon_status := Paused \<rparr> \<in> set (st_monitors st')
            | Inr sched \<Rightarrow>
                m\<lparr> mon_last_run_at := Some now, mon_next_run_at := Some (schedule_next_after sched now) \<rparr>
                  \<in> set (st_monitors st')
                \<and> (if within_i64 sched then now < schedule_next_after sched now else True))
           \<and> filter (\<lambda>m'. mon_id m' \<noteq> mon_id m) (st_monitors st')
              = filter (\<lambda>m'. mon_id m' \<noteq> mon_id m) (st_monitors st))"
proof -
  obtain st1 sent err where r: "run_targets sch m now (get_targets (mon_id m) st) st = (st1, sent, err)"
    by (metis prod_cases3)
  have st1: "store_ok st1" "st_monitors st1 = st_monitors st"
    using run_targets_keeps [OF assms(1), of sch m now "get_targets (mon_id m) st"] r by simp_all
  have others: "filter (\<lambda>m'. mon_id m' \<noteq> i) (map (\<lambda>m. if mon_id m = i then f m else m) ms)
      = filter (\<lambda>m'. mon_id m' \<noteq> i) ms" if "\<forall>m. mon_id (f m) = mon_id m" for i f ms
    using that by (induction ms) auto
  have update: "store_ok (update_monitor (mon_id m) f st1) \<and> f m \<in> set (st_monitors (update_monitor (mon_id m) f st1))
      \<and> filter (\<lambda>m'. mon_id m' \<noteq> mon_id m) (st_monitors (update_monitor (mon_id m) f st1))
        = filter (\<lambda>m'. mon_id m' \<noteq> mon_id m) (st_monitors st)"
    if "\<forall>m. mon_id (f m) = mon_id m" for f
    using update_monitor_ok [OF st1(1) that] others [OF that] assms(2) st1(2)
    by (auto simp: update_monitor_def)
  note advance = update [of "\<lambda>m. m\<lparr> mon_last_run_at := Some now, mon_next_run_at := Some t \<rparr>" for t, simplified]
  show ?thesis
  proof (cases err)
    case (Some e)
    then show ?thesis using r st1 by (simp add: run_monitor_def)
  next
    case None
    then show ?thesis
      using r update [of "\<lambda>m. m\<lparr> mon_status := Paused \<rparr>"] advance
        schedule_next_after_later [OF _ _ assms(3)]
      by (auto simp: run_monitor_def set_status_def update_schedule_def split: sum.splits)
  qed
qed

subsection \<open>A concrete monitor\<close>

text \<open>One monitor with a minute's interval in a store without targets, and a site of one page.\<close>

definition demo_monitor :: monitor where
  "demo_monitor = \<lparr> mon_id = ''m'', mon_name = ''demo'', mon_status = Active, mon_schedule = ''60'',
     mon_modes = [], mon_goal = None, mon_judge_enabled = False, mon_llm_provider = None,
     mon_llm_api_key = None, mon_llm_model = None, mon_webhook = None, mon_next_run_at = None,
     mon_last_run_at = None, mon_created_at = 0 \<rparr>"

definition demo_target :: monitor_target where
  "demo_target = \<lparr> tgt_id = ''t'', tgt_monitor_id = ''m'', tgt_kind = TargetScrape, tgt_urls = [''u''],
     tgt_crawl_url = None, tgt_max_pages = None \<rparr>"

definition demo_store :: store where
  "demo_store = \<lparr> st_monitors = [demo_monitor], st_targets = [], st_snapshots = [], st_checks = [],
     st_check_pages = [] \<rparr>"

definition demo_fetch :: "monitor_target \<Rightarrow> monitor_error + fetched_page list" where
  "demo_fetch t = Inr [\<lparr> fp_url = ''u'', fp_markdown = ''x'', fp_json = None, fp_content_type = None,
     fp_error = None \<rparr>]"

definition demo_judge :: judge where
  "demo_judge goal text js llm = Inl []"

definition demo_scheduler :: scheduler where
  "demo_scheduler = \<lparr> sch_diff = plain_env, sch_judge = demo_judge, sch_fetch = demo_fetch,
     sch_new_id = (\<lambda>_. ''c''), sch_config = monitor_config_default, sch_default_llm = None \<rparr>"

definition demo_prior :: prior_state where
  "demo_prior = \<lparr> prior_snapshots = [''u'' \<mapsto> \<lparr> snap_markdown = Some ''x'', snap_json = None,
       snap_content_hash = [], snap_captured_at = None \<rparr>], prior_known_urls = [''u''] \<rparr>"

lemma demo_store_ok: "store_ok demo_store"
  by (simp add: store_ok_def demo_store_def)

theorem failed_crawl_page_reads_as_change_witness:
  "pg_status (check_page plain_env (effective_modes demo_monitor) demo_prior
     (scrape_to_page ''u'' (failed_page ''u'' 503 ''gone'' :: unit scrape_data))) = PageChanged"
proof -
  have "paragraphs ''x'' \<noteq> []" by code_simp
  moreover have "GitDiff \<in> set (effective_modes demo_monitor)"
    by (simp add: effective_modes_def demo_monitor_def)
  moreover obtain s where "prior_snapshots demo_prior ''u'' = Some s" "snap_markdown s = Some ''x''"
    by (simp add: demo_prior_def)
  ultimately have "pg_status (check_page plain_env (effective_modes demo_monitor) demo_prior
      (scrape_to_page ''u'' (failed_page ''u'' 503 ''gone'' :: unit scrape_data))) = PageChanged"
    using failed_crawl_page_reads_as_change [of demo_prior "''u''" s "''x''" demo_monitor plain_env 503 "''gone''"]
    unfolding Let_def scrape_to_page_failed by blast
  then show ?thesis .
qed

theorem check_classifies_pages_witness:
  "\<exists>c. run_check plain_env demo_judge ''c'' demo_monitor demo_target demo_prior demo_fetch
      monitor_config_default None 7 = Inr c \<and> map pg_url (chk_pages c) = [''u''] \<and> \<not> chk_site_down c"
proof -
  have "demo_fetch demo_target = Inr [\<lparr> fp_url = ''u'', fp_markdown = ''x'', fp_json = None,
      fp_content_type = None, fp_error = None \<rparr>]"
    by (simp add: demo_fetch_def)
  moreover have "prior_wf demo_prior" by (simp add: prior_wf_def demo_prior_def or_null_def)
  ultimately show ?thesis
    using check_classifies_pages [where fetch = demo_fetch and target = demo_target and prior = demo_prior]
    by (fastforce simp: fetched_wf_def or_null_def demo_target_def)
qed

theorem unchanged_site_stays_same_witness:
  "\<exists>c st' c'. run_check plain_env demo_judge ''c'' demo_monitor demo_target
        (load_prior (mon_id demo_monitor) demo_store) demo_fetch monitor_config_default None 7 = Inr c
     \<and> record_check c demo_store = Inr st'
     \<and> run_check plain_env demo_judge ''d'' demo_monitor demo_target
        (load_prior (mon_id demo_monitor) st') demo_fetch monitor_config_default None 67 = Inr c'
     \<and> cc_same (chk_counts c') = 1"
proof -
  let ?fetched = "[\<lparr> fp_url = ''u'', fp_markdown = ''x'', fp_json = None, fp_content_type = None,
      fp_error = None \<rparr>]"
  have fetch: "demo_fetch demo_target = Inr ?fetched" by (simp add: demo_fetch_def)
  obtain c where c: "run_check plain_env demo_judge ''c'' demo_monitor demo_target
        (load_prior (mon_id demo_monitor) demo_store) demo_fetch monitor_config_default None 7 = Inr c"
      "chk_id c = ''c''" "chk_monitor_id c = mon_id demo_monitor"
    using run_check_result [where fetch = demo_fetch, OF fetch refl] by blast
  then obtain st' where st': "record_check c demo_store = Inr st'"
    by (simp add: record_check_def monitor_ids_def demo_store_def)
  have "list_all fetched_wf ?fetched" by (simp add: fetched_wf_def or_null_def)
  from unchanged_site_stays_same [where fetch = demo_fetch, OF demo_store_ok fetch _ this c(1) st',
      of "''d''" 67] show ?thesis
    using c(1) st' by auto
qed

theorem run_monitor_schedules_witness:
  "\<exists>m \<in> set (st_monitors (fst (run_monitor demo_scheduler demo_monitor 100 demo_store))).
     mon_next_run_at m = Some 160"
proof -
  have "trim ''60'' = ''60''" "strip_prefix ''@every'' ''60'' = None" "length (split_whitespace ''60'') = 1"
    "is_ascii_digit (CHR ''6'')" by code_simp+
  moreover have "strip_suffix ''s'' ''60'' = None" by code_simp
  then have "parse_interval ''60'' = Inr 60"
    by (simp add: parse_interval_def token_eval u64_max_def)
  ultimately have parse: "schedule_parse (mon_schedule demo_monitor) = Inr (Interval 60)"
    by (simp add: schedule_parse_def demo_monitor_def)
  have mem: "demo_monitor \<in> set (st_monitors demo_store)" by (simp add: demo_store_def)
  have "get_targets (mon_id demo_monitor) demo_store = []" by (simp add: get_targets_def demo_store_def)
  then have "snd (snd (run_monitor demo_scheduler demo_monitor 100 demo_store)) = None"
    by (simp add: run_monitor_def parse)
  then show ?thesis
    using run_monitor_schedules [OF demo_store_ok mem, of 100 demo_scheduler] parse
    by (force simp: schedule_next_after_def as_i64_def split: prod.splits)
qed

end
