(* ===== verification/Text_Lib.thy ===== *)
theory Text_Lib
  imports Prelude Rust_Str
begin

section \<open>Code points, substrings and regular expressions\<close>

text \<open>
  What the page detectors use of strings beyond \<open>Rust_Str\<close>: iteration over code points, slicing
  at character boundaries, splitting at a substring. Patterns of the \<open>regex\<close> crate are written
  as lists of atoms; the crate's engine and Unicode lower-casing (a table of the standard
  library) are functions of the record \<open>text_lib\<close>, which the detectors take as an argument.
\<close>

subsection \<open>Code points\<close>

text \<open>\<open>str::chars\<close>: a code point is the list of its UTF-8 bytes.\<close>

fun chars_from :: "string \<Rightarrow> string \<Rightarrow> string list" where
  "chars_from acc [] = [acc]"
| "chars_from acc (c # cs) =
    (if is_char_start c then acc # chars_from [c] cs else chars_from (acc @ [c]) cs)"

definition chars :: "string \<Rightarrow> string list" where
  "chars s = (case s of [] \<Rightarrow> [] | c # cs \<Rightarrow> chars_from [c] cs)"

definition is_whitespace :: "string \<Rightarrow> bool" where
  "is_whitespace ch = (ch \<in> set ws_encodings)"

text \<open>\<open>chars().filter(|c| !c.is_whitespace()).count()\<close>.\<close>

definition nonws_count :: "string \<Rightarrow> nat" where
  "nonws_count s = length (filter (\<lambda>ch. \<not> is_whitespace ch) (chars s))"

text \<open>The prefix of at most \<open>n\<close> code points, as \<open>char_indices().nth(n)\<close> cuts it.\<close>

definition first_chars :: "nat \<Rightarrow> string \<Rightarrow> string" where
  "first_chars n s = (if length s \<le> n then s else concat (take n (chars s)))"

definition is_char_boundary :: "string \<Rightarrow> nat \<Rightarrow> bool" where
  "is_char_boundary s i = (i = 0 \<or> i = length s \<or> (i < length s \<and> is_char_start (s ! i)))"

text \<open>The loop that moves an index down to a character boundary.\<close>

fun boundary_below :: "string \<Rightarrow> nat \<Rightarrow> nat" where
  "boundary_below s 0 = 0"
| "boundary_below s (Suc n) = (if is_char_boundary s (Suc n) then Suc n else boundary_below s n)"

definition prefix_within :: "string \<Rightarrow> nat \<Rightarrow> string" where
  "prefix_within html maxv =
    (if length html \<le> maxv then html else take (boundary_below html maxv) html)"

lemma chars_from_concat: "concat (chars_from acc s) = acc @ s"
  by (induction s arbitrary: acc) auto

lemma concat_chars [simp]: "concat (chars s) = s"
  by (cases s) (simp_all add: chars_def chars_from_concat)

lemma chars_Nil [simp]: "chars [] = []"
  by (simp add: chars_def)

lemma chars_from_nonempty: "acc \<noteq> [] \<Longrightarrow> ch \<in> set (chars_from acc s) \<Longrightarrow> ch \<noteq> []"
  by (induction s arbitrary: acc) (auto split: if_splits)

lemma chars_nonempty: "ch \<in> set (chars s) \<Longrightarrow> ch \<noteq> []"
  by (cases s) (auto simp: chars_def dest: chars_from_nonempty [rotated])

lemma length_chars_from: "acc \<noteq> [] \<Longrightarrow> length (chars_from acc s) \<le> Suc (length s)"
  by (induction s arbitrary: acc) (auto simp: le_SucI)

lemma length_chars_le: "length (chars s) \<le> length s"
  using length_chars_from by (cases s) (simp_all add: chars_def)

lemma nonws_count_le: "nonws_count s \<le> length s"
  unfolding nonws_count_def using length_filter_le length_chars_le le_trans by blast

lemma nonws_count_Nil [simp]: "nonws_count [] = 0"
  by (simp add: nonws_count_def)

lemma boundary_below_le: "boundary_below s n \<le> n"
  by (induction n) auto

lemma boundary_below_boundary: "is_char_boundary s (boundary_below s n)"
  by (induction n) (auto simp: is_char_boundary_def)

lemma prefix_within_prefix: "prefix (prefix_within s n) s"
  by (simp add: prefix_within_def take_is_prefix)

lemma prefix_within_length: "length (prefix_within s n) \<le> n"
  using boundary_below_le [of s n] by (auto simp: prefix_within_def)

lemma prefix_within_id [simp]: "length s \<le> n \<Longrightarrow> prefix_within s n = s"
  by (simp add: prefix_within_def)

subsection \<open>Substrings\<close>

text \<open>\<open>rfind\<close> with a string pattern.\<close>

definition rfind_sub :: "string \<Rightarrow> string \<Rightarrow> nat option" where
  "rfind_sub pat s = map_option (\<lambda>i. length s - length pat - i) (find_sub (rev pat) (rev s))"

lemma find_sub_drop_less:
  "find_sub pat s = Some i \<Longrightarrow> pat \<noteq> [] \<Longrightarrow> length (drop (i + length pat) s) < length s"
  using find_sub_Some [of pat s i] by (cases pat) auto

text \<open>\<open>str::split\<close> with a non-empty string pattern.\<close>

function split_sub :: "string \<Rightarrow> string \<Rightarrow> string list" where
  "split_sub pat s =
    (if pat = [] then [s]
     else case find_sub pat s of
            None \<Rightarrow> [s]
          | Some i \<Rightarrow> take i s # split_sub pat (drop (i + length pat) s))"
  by pat_completeness auto
termination
  by (relation "measure (\<lambda>(pat, s). length s)") (auto dest: find_sub_drop_less)

declare split_sub.simps [simp del]

text \<open>\<open>s.matches(pat).count()\<close>.\<close>

definition match_count :: "string \<Rightarrow> string \<Rightarrow> nat" where
  "match_count pat s = length (split_sub pat s) - 1"

definition contains_any :: "string \<Rightarrow> string list \<Rightarrow> bool" where
  "contains_any s pats = list_ex (contains_str s) pats"

lemma contains_str_iff: "contains_str s pat \<longleftrightarrow> sublist pat s"
proof (induction s)
  case (Cons x xs)
  have "sublist pat (x # xs) \<longleftrightarrow> prefix pat (x # xs) \<or> sublist pat xs"
    by (simp add: sublist_Cons_right)
  then show ?case using Cons by (auto simp: contains_str_def)
qed (simp add: contains_str_def)

lemma contains_any_iff: "contains_any s pats \<longleftrightarrow> (\<exists>p \<in> set pats. sublist p s)"
  by (simp add: contains_any_def list_ex_iff contains_str_iff)

lemma contains_str_Nil [simp]: "contains_str [] pat = (pat = [])"
  by (simp add: contains_str_def)

subsection \<open>Regular expressions\<close>

text \<open>
  The atoms: a text; white space, once or more (\<open>ReSpaces\<close>) or any number of times; non-white
  space, once or more; digits, once or more or an exact number; one or more, any number, or one of
  the given characters; any number, or one or more, of other characters; any characters, as few
  as possible (\<open>ReLazy\<close>), as many as possible (\<open>ReGreedy\<close>), or up to a number; a word
  boundary; alternatives; the group that \<open>re_group_1\<close> returns.
\<close>

datatype re_atom =
    ReText string
  | ReSpaces
  | ReOptSpaces
  | ReNonSpaces
  | ReDigits
  | ReDigitsExactly nat
  | ReSome string
  | ReAny string
  | ReOneOf string
  | ReNoneOf string
  | ReNoneOf1 string
  | ReLazy
  | ReUpTo nat
  | ReWordEnd
  | ReAlt "re_atom list list"
  | ReGroup "re_atom list"
  | ReGreedy

record regex =
  re_ignore_case :: bool
  re_atoms :: "re_atom list"

definition re_i :: "re_atom list \<Rightarrow> regex" where
  "re_i as = \<lparr> re_ignore_case = True, re_atoms = as \<rparr>"

definition re_c :: "re_atom list \<Rightarrow> regex" where
  "re_c as = \<lparr> re_ignore_case = False, re_atoms = as \<rparr>"

definition hex_chars :: string where
  "hex_chars = ''0123456789abcdef''"

record text_lib =
  to_lower :: "string \<Rightarrow> string"
  re_is_match :: "regex \<Rightarrow> string \<Rightarrow> bool"
  re_remove_all :: "regex \<Rightarrow> string \<Rightarrow> string"
  re_count :: "regex \<Rightarrow> string \<Rightarrow> nat"
  re_group_1 :: "regex \<Rightarrow> string \<Rightarrow> string option"

end
