(* ===== verification/Detector.thy ===== *)
theory Detector
  imports Text_Lib
begin

section \<open>Page detectors\<close>

text \<open>
  \<open>crates/crw-renderer/src/detector.rs\<close>: substring heuristics that decide whether a page is an
  application shell, a challenge, a vendor's block page, a failed render or a placeholder. All
  markers are the source's; lower-casing and the one regular expression are in the \<open>text_lib\<close>
  argument \<open>lib\<close>.
\<close>

subsection \<open>Visible text\<close>

function strip_tag_blocks :: "string \<Rightarrow> string \<Rightarrow> string" where
  "strip_tag_blocks html tag =
    (let close = ''</'' @ tag @ ''>''
     in case find_sub (''<'' @ tag) html of
          None \<Rightarrow> html
        | Some start \<Rightarrow>
            (let after_open = drop start html
             in case find_sub close after_open of
                  None \<Rightarrow> take start html
                | Some end_at \<Rightarrow>
                    take start html @ strip_tag_blocks (drop (end_at + length close) after_open) tag))"
  by pat_completeness auto
termination
proof (relation "measure (\<lambda>(html, tag). length html)")
  fix html tag close after_open :: string and start end_at :: nat
  assume "close = ''</'' @ tag @ ''>''" and "after_open = drop start html"
    and "find_sub close after_open = Some end_at"
  then have "length (drop (end_at + length close) after_open) < length html"
    using find_sub_drop_less [of close after_open end_at] by simp
  then show "((drop (end_at + length close) after_open, tag), html, tag)
      \<in> measure (\<lambda>(html, tag). length html)" by simp
qed simp

declare strip_tag_blocks.simps [simp del]

text \<open>The flags are \<open>in_tag\<close> and \<open>prev_ws\<close>.\<close>

fun visible_chars :: "bool \<Rightarrow> bool \<Rightarrow> string list \<Rightarrow> string" where
  "visible_chars in_tag prev_ws [] = []"
| "visible_chars in_tag prev_ws (ch # cs) =
    (if ch = ''<'' then visible_chars True prev_ws cs
     else if ch = ''>'' then visible_chars False prev_ws cs
     else if in_tag then visible_chars in_tag prev_ws cs
     else if is_whitespace ch
       then (if prev_ws then visible_chars in_tag prev_ws cs
             else '' '' @ visible_chars in_tag True cs)
     else ch @ visible_chars in_tag False cs)"

definition visible_text_from_stripped_html :: "string \<Rightarrow> string" where
  "visible_text_from_stripped_html stripped = visible_chars False True (chars stripped)"

definition body_html_without_scripts_lower :: "string \<Rightarrow> string" where
  "body_html_without_scripts_lower low =
    (let body_start = Option.bind (find_sub ''<body'' low)
           (\<lambda>i. map_option (\<lambda>j. i + j + 1) (find_char (\<lambda>c. c = CHR ''>'') (drop i low)));
         body_end = (case rfind_sub ''</body>'' low of Some i \<Rightarrow> i | None \<Rightarrow> length low)
     in case body_start of
          None \<Rightarrow> []
        | Some start \<Rightarrow>
            if start < body_end
            then strip_tag_blocks
              (strip_tag_blocks (take (body_end - start) (drop start low)) ''script'') ''style''
            else [])"

definition extract_body_text_len :: "string \<Rightarrow> nat" where
  "extract_body_text_len low =
    (if \<not> contains_str low ''<body'' then 1000
     else nonws_count (visible_text_from_stripped_html (body_html_without_scripts_lower low)))"

subsection \<open>Shells that need a browser\<close>

definition detector_window :: nat where
  "detector_window = 500000"

definition spa_indicators :: "string list" where
  \<open>spa_indicators =
    [''id="root"'', ''id="app"'', ''id="__next"'', ''id="__nuxt"'', ''id="__gatsby"'', ''id="svelte"'',
     ''ng-app'', ''data-reactroot'', ''data-reactid'', ''data-remix-run'', ''data-sveltekit'',
     ''data-astro-'', ''<script src'', ''window.__initial_state__'', ''__next_data__'', ''__nuxt__'',
     ''__sveltekit_data'', ''window.__remixcontext'', ''window.__astro'', ''gatsby-focus-wrapper'']\<close>

definition builder_indicators :: "string list" where
  "builder_indicators =
    [''framerusercontent.com'', ''webflow.io'', ''wixsite.com'', ''squarespace.com/universal'']"

definition storybook_indicators :: "string list" where
  \<open>storybook_indicators =
    [''id="storybook-root"'', ''id="storybook-docs"'', ''__storybook'', ''?path=/docs/'', ''/iframe.html'']\<close>

definition needs_js_rendering :: "text_lib \<Rightarrow> string \<Rightarrow> bool" where
  "needs_js_rendering lib html =
    (let low = to_lower lib (prefix_within html detector_window);
         body_len = extract_body_text_len low
     in if body_len < 200 \<and> contains_any low spa_indicators then True
        else if contains_str low ''<noscript>'' \<and> contains_str low ''enable javascript'' then True
        else if body_len < 500 \<and> contains_any low builder_indicators then True
        else if body_len < 1000 \<and> 5 \<le> match_count ''<script'' low then True
        else if body_len < 1000 \<and> contains_any low storybook_indicators then True
        else False)"

definition looks_like_thin_html :: "text_lib \<Rightarrow> string \<Rightarrow> bool" where
  "looks_like_thin_html lib html =
    (extract_body_text_len (to_lower lib (prefix_within html detector_window)) < 200)"

text \<open>\<open>split(pat).skip(1)\<close>.\<close>

definition frags_after :: "string \<Rightarrow> string \<Rightarrow> string list" where
  "frags_after pat s = tl (split_sub pat s)"

definition is_refresh_tag :: "string \<Rightarrow> bool" where
  "is_refresh_tag frag =
    (let tag = hd (split_char (CHR ''>'') frag)
     in contains_str tag ''http-equiv'' \<and> contains_str tag ''refresh'' \<and> contains_str tag ''url='')"

definition is_executable_script :: "string \<Rightarrow> bool" where
  "is_executable_script frag =
    (let (tag, after_tag) = (case split_once (CHR ''>'') frag of Some p \<Rightarrow> p | None \<Rightarrow> (frag, []))
     in if contains_str tag ''src='' then True
        else if contains_str tag ''application/json'' \<or> contains_str tag ''application/ld+json''
             \<or> contains_str tag ''importmap'' \<or> contains_str tag ''speculationrules'' then False
        else 8 < length (trim (hd (split_sub ''</script>'' after_tag))))"

definition warrants_browser_retry :: "text_lib \<Rightarrow> string \<Rightarrow> bool" where
  "warrants_browser_retry lib html =
    (let low = to_lower lib (prefix_within html detector_window)
     in if list_ex is_refresh_tag (frags_after ''<meta'' low) then True
        else list_ex is_executable_script (frags_after ''<script'' low))"

definition is_thin_markdown :: "nat \<Rightarrow> bool" where
  "is_thin_markdown markdown_len = (markdown_len < 100)"

subsection \<open>Anti-bot walls\<close>

definition wall_phrases :: "string list" where
  "wall_phrases =
    [''performing security verification'', ''verify you are human'', ''checking your browser'',
     ''enable javascript and cookies'', ''security check'', ''access denied'', ''request blocked'',
     ''the request could not be satisfied'', ''generated by cloudfront'',
     ''configured to block access'',
     ''if you report this error to the wikimedia system administrators'']"

definition wall_text :: "string \<Rightarrow> string option" where
  "wall_text low =
    (if contains_str low ''<body'' then Some (body_html_without_scripts_lower low)
     else if contains_str low ''<html'' \<or> contains_str low ''<!doctype html''
       then Some (strip_tag_blocks (strip_tag_blocks low ''script'') ''style'')
     else None)"

definition looks_like_generic_bot_wall :: "text_lib \<Rightarrow> string \<Rightarrow> bool" where
  "looks_like_generic_bot_wall lib html =
    (if 80000 < length html then False
     else case wall_text (to_lower lib html) of
            None \<Rightarrow> False
          | Some body_stripped \<Rightarrow>
              (let body_text = visible_text_from_stripped_html body_stripped
               in if 600 < nonws_count body_text then False
                  else contains_any body_text wall_phrases))"

text \<open>\<open>Reference #\d+\.[0-9a-f]+\.\d+\.[0-9a-f]+\<close>.\<close>

definition akamai_ref_re :: regex where
  "akamai_ref_re =
    re_c [ReText ''Reference #'', ReDigits, ReText ''.'', ReSome hex_chars, ReText ''.'', ReDigits,
          ReText ''.'', ReSome hex_chars]"

definition looks_like_vendor_block :: "text_lib \<Rightarrow> string \<Rightarrow> string option" where
  "looks_like_vendor_block lib html =
    (if 200000 < length html then None
     else
       (let head = prefix_within html 15000;
            low = to_lower lib head
        in if (contains_str low ''challenge-form'' \<and> contains_str low ''__cf_chl_f_tk='')
             \<or> contains_str low ''cf-error-code''
             \<or> contains_str low ''/cdn-cgi/challenge-platform/'' then Some ''cloudflare''
           else if contains_str low ''pardon our interruption'' \<or> re_is_match lib akamai_ref_re head
             then Some ''akamai''
           else if contains_str low ''window._pxappid ='' \<or> contains_str low ''captcha.px-cdn.net''
             then Some ''perimeterx''
           else if contains_str low ''captcha-delivery.com'' then Some ''datadome''
           else if contains_str low ''_incapsula_resource'' \<or> contains_str low ''incapsula incident id''
             then Some ''imperva''
           else if contains_str low ''sucuri website firewall'' then Some ''sucuri''
           else if contains_str low ''kpsdk.scriptstart = kpsdk.now()'' then Some ''kasada''
           else if contains_str low ''generated by cloudfront''
             \<or> contains_str low ''the request could not be satisfied'' then Some ''cloudfront''
           else None))"

definition strong_cf_markers :: "string list" where
  "strong_cf_markers =
    [''cf-browser-verification'', ''cf-challenge-running'', ''challenge-platform/h/'',
     ''_cf_chl_opt'', ''__cf_chl_managed_tk__'']"

definition weak_cf_markers :: "string list" where
  "weak_cf_markers =
    [''just a moment'', ''checking your browser'', ''attention required'',
     ''performance &amp; security by cloudflare'', ''performance & security by cloudflare'']"

definition looks_like_cloudflare_challenge :: "text_lib \<Rightarrow> string \<Rightarrow> bool" where
  "looks_like_cloudflare_challenge lib html =
    (if contains_any (prefix_within html (512 * 1024)) strong_cf_markers then True
     else if 80000 < length html then False
     else 2 \<le> length (filter (contains_str (to_lower lib html)) weak_cf_markers))"

definition is_cloudflare_mitigated_header :: "string \<Rightarrow> bool" where
  "is_cloudflare_mitigated_header v = (to_ascii_lowercase (trim v) \<in> {''challenge'', ''block''})"

definition is_aws_waf_action_header :: "string \<Rightarrow> bool" where
  "is_aws_waf_action_header v = (to_ascii_lowercase (trim v) \<in> {''challenge'', ''captcha''})"

subsection \<open>Failed renders and placeholders\<close>

datatype failed_render_reason = RenderNextJsClientError | RenderReactMinifiedError | RenderEmptyNextRoot

fun failed_render_str :: "failed_render_reason \<Rightarrow> string" where
  "failed_render_str RenderNextJsClientError = ''nextjs_client_error''"
| "failed_render_str RenderReactMinifiedError = ''react_minified_error''"
| "failed_render_str RenderEmptyNextRoot = ''empty_next_root''"

definition empty_next_root :: "string \<Rightarrow> bool" where
  \<open>empty_next_root low =
    (case find_sub ''id="__next"'' low of
       None \<Rightarrow> False
     | Some start \<Rightarrow>
         (let after_id = drop start low
          in case find_char (\<lambda>c. c = CHR ''>'') after_id of
               None \<Rightarrow> False
             | Some close \<Rightarrow>
                 (let rest = drop (close + 1) after_id
                  in case find_sub ''</div>'' rest of
                       None \<Rightarrow> False
                     | Some stop \<Rightarrow> trim (take stop rest) = [])))\<close>

definition looks_like_failed_render :: "text_lib \<Rightarrow> string \<Rightarrow> failed_render_reason option" where
  \<open>looks_like_failed_render lib html =
    (if 200000 < length html then None
     else
       (let low = to_lower lib html
        in if contains_str low ''id="__next-error-'' \<or> contains_str low ''data-nextjs-error''
             then Some RenderNextJsClientError
           else if contains_str low ''id="__next_error__"'' then Some RenderNextJsClientError
           else if contains_str low ''https://react.dev/errors/''
             \<or> contains_str low ''https://reactjs.org/docs/error-decoder''
             then Some RenderReactMinifiedError
           else if empty_next_root low then Some RenderEmptyNextRoot
           else None))\<close>

definition loading_markers :: "string list" where
  "loading_markers =
    [''loading...'', ''loading'' @ [CHR 0xE2, CHR 0x80, CHR 0xA6], ''please wait'', ''just a moment'',
     ''initializing'', ''preparing'', ''one moment'']"

definition spinner_markers :: "string list" where
  \<open>spinner_markers =
    [''class="spinner'', ''class="loader'', ''class="loading'', ''class="preloader'', ''id="loader'',
     ''id="preloader'', ''aria-label="loading"'']\<close>

definition looks_like_loading_placeholder :: "text_lib \<Rightarrow> string \<Rightarrow> bool" where
  "looks_like_loading_placeholder lib html =
    (if 80000 < length html then False
     else
       (let body_stripped = body_html_without_scripts_lower (to_lower lib html);
            body_text = visible_text_from_stripped_html body_stripped;
            body_text_len = nonws_count body_text
        in if body_text_len = 0 then True
           else if body_text_len < 400 \<and> contains_any body_text loading_markers then True
           else body_text_len < 200 \<and> contains_any body_stripped spinner_markers))"

end
