(* ===== verification/Antibot.thy ===== *)
theory Antibot
  imports Text_Lib
begin

section \<open>The anti-bot classifier\<close>

text \<open>
  \<open>crates/crw-extract/src/antibot.rs\<close>: a layered classification of a fetched page. Structural
  patterns apply to any page, generic terms only under an error status on a short page, and a
  page with hardly any content is a structural failure. Patterns are data for the engine in the
  \<open>text_lib\<close> argument \<open>lib\<close>.
\<close>

datatype antibot_signal =
    SigNone
  | SigCloudflare
  | SigDatadome
  | SigPerimeterX
  | SigAkamai
  | SigImperva
  | SigSucuri
  | SigKasada
  | SigVercel
  | SigNetworkSecurity
  | SigRateLimited
  | SigGenericBlock
  | SigStructuralFailure

fun class_name :: "antibot_signal \<Rightarrow> string" where
  "class_name SigNone = ''none''"
| "class_name SigCloudflare = ''cloudflare''"
| "class_name SigDatadome = ''datadome''"
| "class_name SigPerimeterX = ''perimeterx''"
| "class_name SigAkamai = ''akamai''"
| "class_name SigImperva = ''imperva''"
| "class_name SigSucuri = ''sucuri''"
| "class_name SigKasada = ''kasada''"
| "class_name SigVercel = ''vercel''"
| "class_name SigNetworkSecurity = ''network_security''"
| "class_name SigRateLimited = ''rate_limited''"
| "class_name SigGenericBlock = ''generic_block''"
| "class_name SigStructuralFailure = ''structural_failure''"

definition is_blocked :: "antibot_signal \<Rightarrow> bool" where
  "is_blocked s = (s \<noteq> SigNone)"

record antibot_result =
  ab_signal :: antibot_signal
  ab_reason :: string

definition antibot_none :: antibot_result where
  "antibot_none = \<lparr> ab_signal = SigNone, ab_reason = [] \<rparr>"

definition antibot_block :: "antibot_signal \<Rightarrow> string \<Rightarrow> antibot_result" where
  "antibot_block s reason = \<lparr> ab_signal = s, ab_reason = reason \<rparr>"

definition tier2_max_size :: nat where "tier2_max_size = 10000"
definition structural_max_size :: nat where "structural_max_size = 50000"
definition block_page_max_size :: nat where "block_page_max_size = 5000"
definition empty_content_threshold :: nat where "empty_content_threshold = 100"
definition tier1_head_bytes :: nat where "tier1_head_bytes = 15000"
definition deep_scan_head_bytes :: nat where "deep_scan_head_bytes = 500000"
definition deep_scan_snippet_bytes :: nat where "deep_scan_snippet_bytes = 30000"

subsection \<open>Patterns\<close>

type_synonym signal_pattern = "regex \<times> antibot_signal \<times> string"

text \<open>Words separated by white space.\<close>

definition re_words :: "string list \<Rightarrow> re_atom list" where
  "re_words ws = tl (concat (map (\<lambda>w. [ReSpaces, ReText w]) ws))"

definition tier1_patterns :: "signal_pattern list" where
  \<open>tier1_patterns =
    [(re_i [ReText ''Reference'', ReOptSpaces, ReText ''#'', ReOptSpaces, ReDigits, ReText ''.'',
            ReSome hex_chars, ReText ''.'', ReDigits, ReText ''.'', ReSome hex_chars],
      SigAkamai, ''Akamai block (Reference #)''),
     (re_i (re_words [''Pardon'', ''Our'', ''Interruption'']),
      SigAkamai, ''Akamai challenge (Pardon Our Interruption)''),
     (re_i [ReText ''challenge-form'', ReLazy, ReText ''__cf_chl_f_tk=''],
      SigCloudflare, ''Cloudflare challenge form''),
     (re_i [ReText ''<span'', ReSpaces, ReText ''class="cf-error-code">'', ReDigitsExactly 4,
            ReText ''</span>''],
      SigCloudflare, ''Cloudflare firewall block''),
     (re_i [ReText ''/cdn-cgi/challenge-platform/'', ReNonSpaces, ReText ''orchestrate''],
      SigCloudflare, ''Cloudflare JS challenge''),
     (re_i [ReText ''window._pxAppId'', ReOptSpaces, ReText ''=''],
      SigPerimeterX, ''PerimeterX block''),
     (re_i [ReText ''captcha.px-cdn.net''], SigPerimeterX, ''PerimeterX captcha''),
     (re_i [ReText ''captcha-delivery.com''], SigDatadome, ''DataDome captcha''),
     (re_i [ReText ''_Incapsula_Resource''], SigImperva, ''Imperva/Incapsula block''),
     (re_i (re_words [''Incapsula'', ''incident'', ''ID'']), SigImperva, ''Imperva/Incapsula incident''),
     (re_i (re_words [''Sucuri'', ''WebSite'', ''Firewall'']), SigSucuri, ''Sucuri firewall block''),
     (re_i [ReText ''KPSDK.scriptStart'', ReOptSpaces, ReText ''='', ReOptSpaces, ReText ''KPSDK.now()''],
      SigKasada, ''Kasada challenge''),
     (re_i (re_words [''blocked'', ''by'', ''network'', ''security'']),
      SigNetworkSecurity, ''Network security block''),
     (re_i (re_words [''Vercel'', ''Security'', ''Checkpoint''] @ [ReUpTo 300,
            ReAlt [[ReText ''verifying''], re_words [''Failed'', ''to'', ''verify'']], ReSpaces]
            @ re_words [''your'', ''browser'']),
      SigVercel, ''Vercel security checkpoint''),
     (re_i (re_words [''you'', ''have'', ''sent'', ''too'', ''many'', ''requests'', ''to'', ''us'']),
      SigRateLimited, ''Google rate limit (sent too many requests)''),
     (re_i (re_words [''Error'', ''429''] @ [ReOptSpaces] @ re_words [''(Too'', ''Many'', ''Requests'']),
      SigRateLimited, ''Google rate limit (Error 429 page)''),
     (re_i (re_words [''unusual'', ''traffic'', ''from'', ''your'', ''computer'', ''network'']),
      SigGenericBlock, ''Google bot wall (unusual traffic)'')]\<close>

definition quotes :: string where
  \<open>quotes = [CHR 0x22, CHR 0x27]\<close>

definition tier2_patterns :: "signal_pattern list" where
  \<open>tier2_patterns =
    [(re_i (re_words [''Access'', ''Denied'']), SigGenericBlock, ''Access Denied on short page''),
     (re_i (re_words [''Checking'', ''your'', ''browser'']), SigCloudflare, ''Cloudflare browser check''),
     (re_i ([ReText ''<title>'', ReOptSpaces] @ re_words [''Just'', ''a'', ''moment'']),
      SigCloudflare, ''Cloudflare interstitial''),
     (re_i [ReText ''class='', ReOneOf quotes, ReText ''g-recaptcha'', ReOneOf quotes],
      SigGenericBlock, ''reCAPTCHA on block page''),
     (re_i [ReText ''class='', ReOneOf quotes, ReText ''h-captcha'', ReOneOf quotes],
      SigGenericBlock, ''hCaptcha on block page''),
     (re_i (re_words [''Access'', ''to'', ''This'', ''Page'', ''Has'', ''Been'', ''Blocked'']),
      SigPerimeterX, ''PerimeterX block page''),
     (re_i (re_words [''blocked'', ''by'', ''security'']), SigGenericBlock, ''Blocked by security''),
     (re_i (re_words [''Request'', ''unsuccessful'']), SigImperva, ''Request unsuccessful (Imperva)'')]\<close>

definition script_block_re :: regex where
  "script_block_re = re_i [ReText ''<script'', ReWordEnd, ReLazy, ReText ''</script>'']"

definition style_block_re :: regex where
  "style_block_re = re_i [ReText ''<style'', ReWordEnd, ReLazy, ReText ''</style>'']"

definition data_uri_re :: regex where
  "data_uri_re =
    re_i [ReText ''data:'', ReAny ''abcdefghijklmnopqrstuvwxyz0123456789.+-'', ReText ''/'',
          ReAny ''abcdefghijklmnopqrstuvwxyz0123456789.+-'', ReText '';base64,'',
          ReSome ''abcdefghijklmnopqrstuvwxyz0123456789+/='']"

definition tag_re :: regex where
  "tag_re = re_c [ReText ''<'', ReNoneOf1 ''>'', ReText ''>'']"

definition body_open_re :: regex where
  "body_open_re = re_i [ReText ''<body'', ReWordEnd]"

definition body_inner_re :: regex where
  "body_inner_re =
    re_i [ReText ''<body'', ReWordEnd, ReNoneOf ''>'', ReText ''>'', ReGroup [ReGreedy], ReText ''</body>'']"

definition script_open_re :: regex where
  "script_open_re = re_i [ReText ''<script'', ReWordEnd]"

definition content_elements_re :: regex where
  "content_elements_re =
    re_i [ReText ''<'',
          ReAlt [[ReText ''p''], [ReText ''h'', ReOneOf ''123456''], [ReText ''article''],
                 [ReText ''section''], [ReText ''li''], [ReText ''td''], [ReText ''a''], [ReText ''pre'']],
          ReWordEnd]"

definition json_pre_re :: regex where
  "json_pre_re =
    re_i [ReText ''<body'', ReNoneOf ''>'', ReText ''>'', ReOptSpaces, ReText ''<pre'', ReNoneOf ''>'',
          ReText ''>'', ReOptSpaces, ReOneOf ''{['']"

subsection \<open>Checks\<close>

definition strip_noise :: "text_lib \<Rightarrow> string \<Rightarrow> string" where
  "strip_noise lib src =
    re_remove_all lib data_uri_re (re_remove_all lib style_block_re (re_remove_all lib script_block_re src))"

definition looks_like_data :: "text_lib \<Rightarrow> string \<Rightarrow> bool" where
  "looks_like_data lib html =
    (let stripped = trim html
     in if stripped = [] then False
        else if hd stripped = CHR ''{'' \<or> hd stripped = CHR ''['' then True
        else
          (let head_lower = concat (map (to_lower lib) (chars (first_chars 10 stripped)))
           in if prefix ''<html'' head_lower \<or> prefix ''<!'' head_lower
              then re_is_match lib json_pre_re (first_chars 500 stripped)
              else hd stripped = CHR ''<''))"

definition structural_integrity_check :: "text_lib \<Rightarrow> string \<Rightarrow> antibot_result" where
  "structural_integrity_check lib html =
    (let html_len = length html
     in if structural_max_size < html_len \<or> looks_like_data lib html then antibot_none
        else if \<not> re_is_match lib body_open_re html then
          antibot_block SigStructuralFailure
            (''Structural: no <body> tag ('' @ dec_digits html_len @ '' bytes)'')
        else
          (let body_content = (case re_group_1 lib body_inner_re html of Some b \<Rightarrow> b | None \<Rightarrow> html);
               stripped = re_remove_all lib style_block_re (re_remove_all lib script_block_re body_content);
               visible_len = length (chars (trim (re_remove_all lib tag_re stripped)));
               content_count = re_count lib content_elements_re html;
               script_count = re_count lib script_open_re html;
               signals =
                 (if visible_len < 50 then [''minimal_text''] else [])
                 @ (if content_count = 0 then [''no_content_elements''] else [])
                 @ (if 0 < script_count \<and> content_count = 0 \<and> visible_len < 100
                    then [''script_heavy_shell''] else [])
           in if 2 \<le> length signals then
                antibot_block SigStructuralFailure
                  (''Structural: '' @ join_with '', '' signals @ '' ('' @ dec_digits html_len @ '' bytes, ''
                   @ dec_digits visible_len @ '' chars visible)'')
              else if length signals = 1 \<and> html_len < block_page_max_size then
                antibot_block SigStructuralFailure
                  (''Structural: '' @ hd signals @ '' on small page ('' @ dec_digits html_len
                   @ '' bytes, '' @ dec_digits visible_len @ '' chars visible)'')
              else antibot_none))"

text \<open>The first pattern of a list that matches.\<close>

definition first_match :: "text_lib \<Rightarrow> signal_pattern list \<Rightarrow> string \<Rightarrow> (antibot_signal \<times> string) option" where
  "first_match lib ps s = map_option snd (find (\<lambda>(re, sig, reason). re_is_match lib re s) ps)"

definition deep_snippet :: "text_lib \<Rightarrow> string \<Rightarrow> string" where
  "deep_snippet lib html =
    first_chars deep_scan_snippet_bytes (strip_noise lib (first_chars deep_scan_head_bytes html))"

definition tier1_verdict :: "text_lib \<Rightarrow> string \<Rightarrow> (antibot_signal \<times> string) option" where
  "tier1_verdict lib html =
    (let snippet = first_chars tier1_head_bytes html
     in case (if snippet = [] then None else first_match lib tier1_patterns snippet) of
          Some v \<Rightarrow> Some v
        | None \<Rightarrow>
            if tier1_head_bytes < length html then first_match lib tier1_patterns (deep_snippet lib html)
            else None)"

definition with_status :: "string \<Rightarrow> nat \<Rightarrow> nat \<Rightarrow> string" where
  "with_status reason s html_len =
    reason @ '' (HTTP '' @ dec_digits s @ '', '' @ dec_digits html_len @ '' bytes)''"

definition refused_verdict :: "text_lib \<Rightarrow> nat \<Rightarrow> string \<Rightarrow> antibot_result" where
  "refused_verdict lib s html =
    (let html_len = length html
     in if html_len < empty_content_threshold then
          antibot_block SigGenericBlock
            (''HTTP '' @ dec_digits s @ '' with near-empty response ('' @ dec_digits html_len @ '' bytes)'')
        else
          (let check_snippet =
             (if tier2_max_size < html_len then deep_snippet lib html
              else first_chars tier1_head_bytes html)
           in case first_match lib tier2_patterns check_snippet of
                Some (sig, reason) \<Rightarrow> antibot_block sig (with_status reason s html_len)
              | None \<Rightarrow>
                  antibot_block SigGenericBlock
                    (''HTTP '' @ dec_digits s @ '' with HTML content ('' @ dec_digits html_len @ '' bytes)'')))"

definition short_error_verdict :: "text_lib \<Rightarrow> nat option \<Rightarrow> string \<Rightarrow> antibot_result option" where
  "short_error_verdict lib status html =
    (case status of
       None \<Rightarrow> None
     | Some s \<Rightarrow>
         if 400 \<le> s \<and> length html < tier2_max_size then
           map_option (\<lambda>(sig, reason). antibot_block sig (with_status reason s (length html)))
             (first_match lib tier2_patterns (first_chars tier1_head_bytes html))
         else None)"

definition classify :: "text_lib \<Rightarrow> nat option \<Rightarrow> string \<Rightarrow> antibot_result" where
  "classify lib status html =
    (if status = Some 429 then antibot_block SigRateLimited ''HTTP 429 Too Many Requests''
     else if status = Some 521 then
       antibot_block SigCloudflare ''HTTP 521 Web server is down (Cloudflare)''
     else case tier1_verdict lib html of
       Some (sig, reason) \<Rightarrow> antibot_block sig reason
     | None \<Rightarrow>
         if (status = Some 403 \<or> status = Some 503) \<and> \<not> looks_like_data lib html
         then refused_verdict lib (the status) html
         else case short_error_verdict lib status html of
           Some r \<Rightarrow> r
         | None \<Rightarrow>
             if status = Some 200 \<and> length (trim html) < empty_content_threshold
                \<and> \<not> looks_like_data lib html
             then antibot_block SigStructuralFailure
               (''Near-empty content ('' @ dec_digits (length (trim html)) @ '' bytes) with HTTP 200'')
             else structural_integrity_check lib html)"

end
