(* ===== verification/Render_Types.thy ===== *)
theory Render_Types
  imports Scrape_Data Core_Types
begin

section \<open>Errors and routing metadata of a render\<close>

text \<open>
  \<open>CrwError\<close> of \<open>crates/crw-core/src/error.rs\<close> and the routing part of a fetch result
  (\<open>RenderDecision\<close>, \<open>FailoverErrorKind::as_str\<close>) of \<open>types.rs\<close>. A parse error of the URL
  crate is carried as its text.
\<close>

datatype crw_error =
    HttpError string
  | TargetUnreachable string
  | UrlParseError string
  | InvalidRequest string
  | RendererError string
  | ExtractionError string
  | UnsupportedContentType string
  | CrawlError string
  | Timeout nat
  | ConfigError string
  | NotFound string
  | RateLimited
  | SearchDisabled string
  | Internal string
  | Shutdown

fun error_code :: "crw_error \<Rightarrow> string" where
  "error_code (HttpError m) = ''http_error''"
| "error_code (TargetUnreachable m) = ''target_unreachable''"
| "error_code (UrlParseError m) = ''invalid_url''"
| "error_code (InvalidRequest m) = ''invalid_request''"
| "error_code (RendererError m) = ''renderer_error''"
| "error_code (ExtractionError m) = ''extraction_error''"
| "error_code (UnsupportedContentType m) = ''unsupported_content_type''"
| "error_code (CrawlError m) = ''crawl_error''"
| "error_code (Timeout n) = ''timeout''"
| "error_code (ConfigError m) = ''config_error''"
| "error_code (NotFound m) = ''not_found''"
| "error_code RateLimited = ''rate_limited''"
| "error_code (SearchDisabled m) = ''search_disabled''"
| "error_code (Internal m) = ''internal_error''"
| "error_code Shutdown = ''shutdown''"

text \<open>The \<open>Display\<close> text of an error.\<close>

fun error_text :: "crw_error \<Rightarrow> string" where
  "error_text (HttpError m) = ''HTTP request failed: '' @ m"
| "error_text (TargetUnreachable m) = ''Target unreachable: '' @ m"
| "error_text (UrlParseError m) = ''URL parse error: '' @ m"
| "error_text (InvalidRequest m) = ''Invalid request: '' @ m"
| "error_text (RendererError m) = ''Renderer error: '' @ m"
| "error_text (ExtractionError m) = ''Extraction error: '' @ m"
| "error_text (UnsupportedContentType m) = ''Unsupported content type: '' @ m"
| "error_text (CrawlError m) = ''Crawl error: '' @ m"
| "error_text (Timeout n) = ''Timeout after '' @ dec_digits n @ ''ms''"
| "error_text (ConfigError m) = ''Config error: '' @ m"
| "error_text (NotFound m) = ''Not found: '' @ m"
| "error_text RateLimited = ''Rate limited''"
| "error_text (SearchDisabled m) = m"
| "error_text (Internal m) = m"
| "error_text Shutdown = ''Renderer pool shutting down''"

fun is_timeout :: "crw_error \<Rightarrow> bool" where
  "is_timeout (Timeout n) = True"
| "is_timeout _ = False"

fun is_target_unreachable :: "crw_error \<Rightarrow> bool" where
  "is_target_unreachable (TargetUnreachable m) = True"
| "is_target_unreachable _ = False"

fun failover_str :: "failover_error_kind \<Rightarrow> string" where
  "failover_str NextJsClientError = ''nextJsClientError''"
| "failover_str EmptyNextRoot = ''emptyNextRoot''"
| "failover_str LightpandaTimeout = ''lightpandaTimeout''"
| "failover_str LightpandaCrash = ''lightpandaCrash''"
| "failover_str CloudflareChallenge = ''cloudflareChallenge''"
| "failover_str PlaceholderContent = ''placeholderContent''"
| "failover_str VendorBlock = ''vendorBlock''"
| "failover_str StatusBlocked = ''statusBlocked''"
| "failover_str AntibotBlock = ''antibotBlock''"
| "failover_str NetworkError = ''networkError''"
| "failover_str OtherFailure = ''other''"

datatype render_decision =
    UserPinned renderer_kind
  | AutoDefault renderer_kind
  | AutoPromoted renderer_kind renderer_kind string
  | BreakerSkipped renderer_kind renderer_kind
  | Failover "renderer_kind list" failover_error_kind

type_synonym fetched = "render_decision option fetch_result"

definition resolve_render_js :: "bool option \<Rightarrow> bool option \<Rightarrow> bool option" where
  "resolve_render_js request dflt = (case request of Some b \<Rightarrow> Some b | None \<Rightarrow> dflt)"

definition is_html_like_content_type :: "string option \<Rightarrow> bool" where
  "is_html_like_content_type content_type =
    (case content_type of
       None \<Rightarrow> True
     | Some ct \<Rightarrow>
         (let c = to_ascii_lowercase (trim ct)
          in c = [] \<or> c = ''text/html'' \<or> c = ''application/xhtml+xml'' \<or> c = ''application/xml''
             \<or> c = ''text/xml''))"

end
