(* ===== verification/Body_Checks.thy ===== *)
theory Body_Checks
  imports Detector Antibot Render_Types
begin

section \<open>Judging a rendered body\<close>

text \<open>
  The pure part of \<open>crates/crw-renderer/src/lib.rs\<close>: classification of tier names, errors and
  status codes, the measure of visible text, and \<open>JsBodyChecks\<close>, the checks a body must pass
  before the ladder accepts it.
\<close>

subsection \<open>Tiers and errors\<close>

definition renderer_kind_for :: "string \<Rightarrow> renderer_kind option" where
  "renderer_kind_for name =
    (if name = ''http'' \<or> name = ''http_only_fallback'' then Some Http
     else if name = ''lightpanda'' then Some Lightpanda
     else if name = ''chrome'' then Some Chrome
     else if name = ''chrome_proxy'' then Some ChromeProxy
     else if name = ''camofox'' then Some Camofox
     else if name = ''byparr'' then Some Byparr
     else if name = ''impersonated-http'' then Some ImpersonatedHttp
     else None)"

fun classify_renderer_error :: "crw_error \<Rightarrow> failover_error_kind" where
  "classify_renderer_error (Timeout n) = LightpandaTimeout"
| "classify_renderer_error (TargetUnreachable m) = NetworkError"
| "classify_renderer_error (HttpError m) = NetworkError"
| "classify_renderer_error (RendererError m) = LightpandaCrash"
| "classify_renderer_error _ = OtherFailure"

fun credit_for :: "renderer_kind \<Rightarrow> nat" where
  "credit_for Http = 1"
| "credit_for Lightpanda = 1"
| "credit_for Chrome = 2"
| "credit_for ChromeProxy = 2"
| "credit_for Camofox = 2"
| "credit_for Byparr = 2"
| "credit_for ImpersonatedHttp = 1"

fun is_origin_navigation_failure :: "crw_error \<Rightarrow> bool" where
  "is_origin_navigation_failure (TargetUnreachable m) = True"
| "is_origin_navigation_failure (RendererError msg) =
    (let m = to_ascii_lowercase msg
     in contains_str m ''navigation failed'' \<or> contains_str m ''net::err_''
        \<or> contains_str m ''outbound destination check unavailable'')"
| "is_origin_navigation_failure (Timeout n) = True"
| "is_origin_navigation_failure _ = False"

definition to_ascii_uppercase :: "string \<Rightarrow> string" where
  "to_ascii_uppercase s =
    map (\<lambda>c. if 97 \<le> byte c \<and> byte c \<le> 122 then chr_of (byte c - 32) else c) s"

definition egress_fault_markers :: "string list" where
  "egress_fault_markers =
    [''ERR_TUNNEL_CONNECTION_FAILED'', ''ERR_PROXY_CONNECTION_FAILED'', ''ERR_NETWORK_CHANGED'',
     ''ERR_INTERNET_DISCONNECTED'', ''PROXYCONNECTFAILURE'', ''PROXYRESOLVEFAILURE'', ''NETOFFLINE'']"

definition is_origin_fault_for_breaker :: "crw_error \<Rightarrow> bool" where
  "is_origin_fault_for_breaker e =
    (case e of
       RendererError m \<Rightarrow>
         if contains_any (to_ascii_uppercase m) egress_fault_markers then False
         else is_origin_navigation_failure e
     | _ \<Rightarrow> is_origin_navigation_failure e)"

definition is_unrenderable_body_error :: "crw_error \<Rightarrow> bool" where
  "is_unrenderable_body_error e =
    (case e of
       UnsupportedContentType m \<Rightarrow> True
     | HttpError m \<Rightarrow> prefix ''Response too large'' m
     | _ \<Rightarrow> False)"

definition fingerprint_shaped_error :: "crw_error \<Rightarrow> bool" where
  "fingerprint_shaped_error e =
    (\<not> is_unrenderable_body_error e \<and> \<not> is_target_unreachable e \<and> \<not> is_timeout e)"

subsection \<open>Status codes\<close>

definition is_soft_block_status :: "nat \<Rightarrow> bool" where
  "is_soft_block_status s = (s \<in> {401, 403, 404, 405, 406, 410, 412, 429, 451, 500, 503})"

definition soft_block_warrants_js :: "text_lib \<Rightarrow> nat \<Rightarrow> string \<Rightarrow> bool" where
  "soft_block_warrants_js lib s html =
    (is_soft_block_status s \<and> (s \<notin> {404, 410, 500} \<or> warrants_browser_retry lib html))"

definition is_hard_block_status :: "nat \<Rightarrow> bool" where
  "is_hard_block_status s = (s \<in> {401, 403, 429, 503} \<or> (520 \<le> s \<and> s \<le> 530))"

definition is_fingerprint_vendor_wall :: "bool \<Rightarrow> string option \<Rightarrow> antibot_signal \<Rightarrow> bool" where
  "is_fingerprint_vendor_wall challenge vendor sig =
    (challenge
     \<or> vendor \<in> {Some ''datadome'', Some ''perimeterx'', Some ''kasada'', Some ''akamai'', Some ''imperva''}
     \<or> sig \<in> {SigCloudflare, SigDatadome, SigPerimeterX, SigAkamai, SigImperva, SigKasada})"

subsection \<open>Visible text of a body\<close>

definition skipped_elements :: "string list" where
  "skipped_elements = [''script'', ''style'', ''template'', ''textarea'']"

text \<open>A tag name at the start of the bytes, followed by a tag-name boundary.\<close>

definition tag_at :: "string \<Rightarrow> string \<Rightarrow> bool" where
  "tag_at name b =
    (length name \<le> length b \<and> eq_ignore_ascii_case (take (length name) b) name
     \<and> (case drop (length name) b of
          [] \<Rightarrow> True
        | c # _ \<Rightarrow> c \<in> {CHR ''>'', CHR ''/'', CHR '' '', CHR 0x09, CHR 0x0A, CHR 0x0D, CHR 0x0C}))"

definition find_ci :: "string \<Rightarrow> string \<Rightarrow> nat option" where
  "find_ci needle b = find_sub (to_ascii_lowercase needle) (to_ascii_lowercase b)"

text \<open>Bytes before the \<open>>\<close> that ends a tag; one inside a quoted attribute value does not.\<close>

fun tag_rest_len :: "char option \<Rightarrow> string \<Rightarrow> nat" where
  "tag_rest_len q [] = 0"
| "tag_rest_len None (c # cs) =
    (if c = CHR ''>'' then 0
     else if c = CHR 0x22 \<or> c = CHR 0x27 then Suc (tag_rest_len (Some c) cs)
     else Suc (tag_rest_len None cs))"
| "tag_rest_len (Some q) (c # cs) = Suc (tag_rest_len (if c = q then None else Some q) cs)"

definition is_ascii_alphabetic :: "char \<Rightarrow> bool" where
  "is_ascii_alphabetic c = ((65 \<le> byte c \<and> byte c \<le> 90) \<or> (97 \<le> byte c \<and> byte c \<le> 122))"

text \<open>The scan from index \<open>i\<close>; \<open>b\<close> are the bytes from there on.\<close>

function find_body_from :: "nat \<Rightarrow> string \<Rightarrow> nat option" where
  "find_body_from i b =
    (case find_char (\<lambda>c. c = CHR ''<'') b of
       None \<Rightarrow> None
     | Some off \<Rightarrow>
         (let here = drop off b; pos = i + off
          in if prefix ''<!--'' here then
               (case find_ci ''-->'' (drop 2 here) of
                  None \<Rightarrow> None
                | Some k \<Rightarrow> find_body_from (pos + 2 + k + 3) (drop (2 + k + 3) here))
             else if tag_at ''body'' (drop 1 here) then Some pos
             else case find (\<lambda>n. tag_at n (drop 1 here)) skipped_elements of
               Some n \<Rightarrow>
                 (case find_ci (''</'' @ n) (drop (1 + length n) here) of
                    None \<Rightarrow> None
                  | Some k \<Rightarrow>
                      find_body_from (pos + 1 + length n + k + 2) (drop (1 + length n + k + 2) here))
             | None \<Rightarrow>
                 if 1 < length here \<and> is_ascii_alphabetic (here ! 1) then
                   (let j = 1 + tag_rest_len None (drop 1 here)
                    in find_body_from (pos + j + 1) (drop (j + 1) here))
                 else find_body_from (pos + 1) (drop 1 here)))"
  by pat_completeness auto
termination
  by (relation "measure (\<lambda>(i, b). length b)")
    (auto dest!: find_char_Some simp: Let_def)

declare find_body_from.simps [simp del]

definition find_body_open :: "string \<Rightarrow> nat option" where
  "find_body_open html = find_body_from 0 html"

text \<open>The flags are \<open>in_tag\<close> and \<open>prev_ws\<close>.\<close>

fun text_len_chars :: "bool \<Rightarrow> bool \<Rightarrow> string list \<Rightarrow> nat" where
  "text_len_chars in_tag prev_ws [] = 0"
| "text_len_chars in_tag prev_ws (ch # cs) =
    (if ch = ''<'' then text_len_chars True prev_ws cs
     else if ch = ''>'' then text_len_chars False prev_ws cs
     else if in_tag then text_len_chars in_tag prev_ws cs
     else if is_whitespace ch
       then (if prev_ws then text_len_chars in_tag prev_ws cs else Suc (text_len_chars in_tag True cs))
     else Suc (text_len_chars in_tag False cs))"

text \<open>The bounds of the slice between the body tags.\<close>

definition body_range :: "string \<Rightarrow> nat \<times> nat" where
  "body_range html =
    (case (case find_body_open html of Some i \<Rightarrow> Some i | None \<Rightarrow> find_sub ''<body'' html) of
       None \<Rightarrow> (0, length html)
     | Some open_tag \<Rightarrow>
         (let start = (case find_char (\<lambda>c. c = CHR ''>'') (drop open_tag html) of
                         Some i \<Rightarrow> open_tag + i + 1 | None \<Rightarrow> 0)
          in (start, case find_sub ''</body>'' (drop start html) of
                       Some i \<Rightarrow> start + i | None \<Rightarrow> length html)))"

definition html_body_text_len :: "string \<Rightarrow> nat" where
  "html_body_text_len html =
    (let (start, stop) = body_range html
     in text_len_chars False True (chars (take (stop - start) (drop start html))))"

text \<open>The slice is within the document: no page makes it panic.\<close>

lemma body_range_ok: "fst (body_range html) \<le> snd (body_range html) \<and> snd (body_range html) \<le> length html"
proof -
  have 1: "Suc (n + i) \<le> length html" if "find_char P (drop n html) = Some i" for P n i
    using find_char_Some [OF that] by auto
  have 2: "n + i \<le> length html"
    if "n \<le> length html" and "find_sub pat (drop n html) = Some i" for pat n i
    using find_sub_Some [OF that(2)] that(1) by auto
  have 3: "i \<le> length html" if "find_sub pat html = Some i" for pat i
    using 2 [of 0 pat i] that by simp
  show ?thesis
    by (auto simp: body_range_def Let_def split: option.splits dest: 1 3 intro: 2 [OF 1, simplified])
qed

subsection \<open>The checks\<close>

record antibot_config =
  acfg_enabled :: bool
  acfg_escalate_on_signal :: bool
  acfg_escalate_in_failover :: bool

definition antibot_config_default :: antibot_config where
  "antibot_config_default =
    \<lparr> acfg_enabled = True, acfg_escalate_on_signal = False, acfg_escalate_in_failover = True \<rparr>"

definition min_rendered_text_len :: nat where
  "min_rendered_text_len = 50"

record js_body_checks =
  jb_text_len :: nat
  jb_placeholder :: bool
  jb_failed_render :: "failed_render_reason option"
  jb_bot_wall :: bool
  jb_vendor_block :: "string option"
  jb_cf_challenge :: bool
  jb_status_blocked :: bool
  jb_antibot :: antibot_result
  jb_antibot_blocked :: bool

definition assess :: "text_lib \<Rightarrow> antibot_config \<Rightarrow> 'm fetch_result \<Rightarrow> js_body_checks" where
  "assess lib cfg result =
    (let html = fr_html result;
         antibot = (if acfg_enabled cfg then classify lib (Some (fr_status result)) html else antibot_none)
     in \<lparr> jb_text_len = html_body_text_len html,
          jb_placeholder = looks_like_loading_placeholder lib html,
          jb_failed_render = looks_like_failed_render lib html,
          jb_bot_wall = looks_like_generic_bot_wall lib html,
          jb_vendor_block = looks_like_vendor_block lib html,
          jb_cf_challenge = looks_like_cloudflare_challenge lib html,
          jb_status_blocked =
            (fr_status result \<in> {401, 403, 404, 405, 406, 410, 412, 429, 451, 500, 503}),
          jb_antibot = antibot,
          jb_antibot_blocked = (acfg_escalate_in_failover cfg \<and> is_blocked (ab_signal antibot)) \<rparr>)"

definition accepted :: "js_body_checks \<Rightarrow> bool" where
  "accepted c =
    (min_rendered_text_len \<le> jb_text_len c \<and> \<not> jb_placeholder c \<and> jb_failed_render c = None
     \<and> \<not> jb_bot_wall c \<and> jb_vendor_block c = None \<and> \<not> jb_cf_challenge c \<and> \<not> jb_status_blocked c
     \<and> \<not> jb_antibot_blocked c)"

definition rejection_warning :: "js_body_checks \<Rightarrow> string \<Rightarrow> nat \<Rightarrow> string" where
  "rejection_warning c renderer status =
    renderer @
    (case jb_failed_render c of
       Some reason \<Rightarrow> '' returned a failed render ('' @ failed_render_str reason @ '')''
     | None \<Rightarrow>
         if jb_placeholder c then '' returned a loading placeholder''
         else case jb_vendor_block c of
           Some vendor \<Rightarrow> '' returned a vendor anti-bot block ('' @ vendor @ '')''
         | None \<Rightarrow>
             if jb_bot_wall c then '' returned a generic anti-bot interstitial''
             else if jb_status_blocked c then
               '' returned HTTP '' @ dec_digits status @ '' (treated as blocked)''
             else if jb_antibot_blocked c then
               '' returned an anti-bot block ('' @ class_name (ab_signal (jb_antibot c)) @ '': ''
               @ ab_reason (jb_antibot c) @ '')''
             else '' returned thin content (text_len='' @ dec_digits (jb_text_len c) @ '')'')"

definition block_of :: "string \<Rightarrow> string \<Rightarrow> block_outcome option" where
  "block_of vendor reason = Some \<lparr> block_vendor = vendor, block_reason = reason \<rparr>"

definition body_wall :: "js_body_checks \<Rightarrow> block_outcome option" where
  "body_wall c =
    (case jb_vendor_block c of
       Some vendor \<Rightarrow> block_of vendor (vendor @ '' block page'')
     | None \<Rightarrow>
         if jb_cf_challenge c then block_of ''cloudflare'' ''cloudflare challenge interstitial''
         else if jb_antibot_blocked c \<and> ab_signal (jb_antibot c) \<noteq> SigStructuralFailure then
           block_of (class_name (ab_signal (jb_antibot c))) (ab_reason (jb_antibot c))
         else if jb_bot_wall c then block_of ''generic_block'' ''anti-bot interstitial''
         else None)"

definition site_blocked :: "js_body_checks \<Rightarrow> nat \<Rightarrow> bool" where
  "site_blocked c status =
    (status \<in> {401, 403, 429, 503} \<or> (520 \<le> status \<and> status \<le> 530) \<or> jb_bot_wall c
     \<or> jb_vendor_block c \<noteq> None \<or> jb_cf_challenge c \<or> is_blocked (ab_signal (jb_antibot c)))"

text \<open>The failover reason of a body that was not accepted.\<close>

definition rejection_kind :: "js_body_checks \<Rightarrow> failover_error_kind" where
  "rejection_kind c =
    (case jb_failed_render c of
       Some RenderNextJsClientError \<Rightarrow> NextJsClientError
     | Some RenderReactMinifiedError \<Rightarrow> NextJsClientError
     | Some RenderEmptyNextRoot \<Rightarrow> EmptyNextRoot
     | None \<Rightarrow>
         if jb_vendor_block c \<noteq> None then VendorBlock
         else if jb_status_blocked c then StatusBlocked
         else if jb_placeholder c then PlaceholderContent
         else if jb_bot_wall c then PlaceholderContent
         else if jb_antibot_blocked c then AntibotBlock
         else PlaceholderContent)"

definition challenge_body :: "js_body_checks \<Rightarrow> bool" where
  "challenge_body c =
    (jb_cf_challenge c \<or> jb_bot_wall c \<or> jb_vendor_block c \<noteq> None \<or> jb_antibot_blocked c)"

text \<open>The error a blocked body leaves behind, \<open>None\<close> for a body that is merely thin.\<close>

definition blocked_error :: "js_body_checks \<Rightarrow> string \<Rightarrow> nat \<Rightarrow> crw_error option" where
  "blocked_error c renderer status =
    (if jb_bot_wall c \<or> jb_vendor_block c \<noteq> None \<or> jb_status_blocked c \<or> jb_antibot_blocked c
     then Some (RendererError (renderer @
       (case jb_vendor_block c of
          Some v \<Rightarrow> '' returned a vendor anti-bot block ('' @ v @ '')''
        | None \<Rightarrow>
            if jb_status_blocked c then '' returned HTTP '' @ dec_digits status @ '' (treated as blocked)''
            else if jb_bot_wall c then '' returned a generic anti-bot interstitial''
            else '' returned an anti-bot block ('' @ class_name (ab_signal (jb_antibot c)) @ '': ''
              @ ab_reason (jb_antibot c) @ '')'')))
     else None)"

subsection \<open>Walls\<close>

definition is_unclearable :: "text_lib \<Rightarrow> 'm fetch_result \<Rightarrow> bool" where
  "is_unclearable lib r = (fr_wall r \<noteq> None \<and> looks_like_generic_bot_wall lib (fr_html r))"

definition demote_wall_to_ladder_failure ::
    "text_lib \<Rightarrow> crw_error + 'm fetch_result \<Rightarrow> string \<Rightarrow> bool \<Rightarrow> crw_error + 'm fetch_result" where
  "demote_wall_to_ladder_failure lib js fallback_html may_substitute =
    (case js of
       Inr r \<Rightarrow>
         if may_substitute \<and> is_unclearable lib r
            \<and> \<not> looks_like_generic_bot_wall lib fallback_html
         then Inl (RendererError (''anti-bot wall that no renderer tier could clear (''
           @ (case fr_wall r of Some w \<Rightarrow> block_reason w | None \<Rightarrow> []) @ '')''))
         else js
     | Inl e \<Rightarrow> js)"

definition stamp_http_decision :: "fetched \<Rightarrow> string option \<Rightarrow> fetched" where
  "stamp_http_decision result requested =
    (if fr_meta result \<noteq> None then result
     else result\<lparr> fr_credit_cost := credit_for Http,
                  fr_meta := Some (if requested = Some ''http'' then UserPinned Http else AutoDefault Http) \<rparr>)"

lemma accepted_no_wall: "accepted c \<Longrightarrow> body_wall c = None"
  by (auto simp: accepted_def body_wall_def split: option.splits)

lemma accepted_unblocked: "accepted c \<Longrightarrow> blocked_error c r s = None"
  by (auto simp: accepted_def blocked_error_def)

lemma generic_wall_has_wall: "jb_bot_wall c \<Longrightarrow> body_wall c \<noteq> None"
  by (auto simp: body_wall_def block_of_def split: option.splits)

end
