(* ===== verification/Clearance.thy ===== *)
theory Clearance
  imports Keyed_Cache Host_Key
begin

section \<open>Clearance cookies and the egress memory\<close>

text \<open>
  \<open>crates/crw-renderer/src/clearance.rs\<close>, the cookies and user agent of a passed challenge
  for each registrable host, and \<open>egress.rs\<close>, the hosts that block the direct egress. Both are
  \<open>moka\<close> caches, so they are \<open>cache\<close> values whose entries may be lost. Cookie expiries are
  Unix seconds in floating point; they are rationals here, and \<open>secs_f64\<close> is the rounding of
  \<open>Duration::from_secs_f64\<close>, which panics from \<open>2 ^ 64\<close> seconds on.
\<close>

subsection \<open>Cookies\<close>

definition clearance_cookie :: string where
  "clearance_cookie = ''cf_clearance''"

definition max_ttl :: duration where
  "max_ttl = from_secs (24 * 60 * 60)"

record cookie =
  ck_name :: string
  ck_value :: string
  ck_domain :: string
  ck_path :: string
  ck_expires :: rat

record clearance =
  cl_cookies :: "cookie list"
  cl_user_agent :: string
  cl_expires_at :: instant

definition cookie_matches_host :: "string \<Rightarrow> string \<Rightarrow> bool" where
  "cookie_matches_host domain host =
    (let d = to_ascii_lowercase (trim_start_char (CHR ''.'') (trim domain))
     in if d = [] then True
        else (let h = to_ascii_lowercase (trim host) in h = d \<or> suffix (''.'' @ d) h))"

text \<open>The loop over the expiries: \<open>TtlExpired\<close> and \<open>TtlPanic\<close> end it.\<close>

datatype ttl = Ttl duration | TtlExpired | TtlPanic

fun earliest_ttl :: "(rat \<Rightarrow> duration) \<Rightarrow> rat \<Rightarrow> duration \<Rightarrow> cookie list \<Rightarrow> ttl" where
  "earliest_ttl secs_f64 now_unix t [] = Ttl t"
| "earliest_ttl secs_f64 now_unix t (c # cs) =
    (if 0 < ck_expires c then
       (let left = ck_expires c - now_unix
        in if left \<le> 0 then TtlExpired
           else if 2 ^ 64 \<le> left then TtlPanic
           else earliest_ttl secs_f64 now_unix (min t (secs_f64 left)) cs)
     else earliest_ttl secs_f64 now_unix t cs)"

datatype from_browser = NoClearance | Captured clearance | BrowserPanic

definition clearance_from_browser ::
    "(rat \<Rightarrow> duration) \<Rightarrow> instant \<Rightarrow> cookie list \<Rightarrow> string \<Rightarrow> rat \<Rightarrow> from_browser" where
  "clearance_from_browser secs_f64 now cookies user_agent now_unix =
    (if \<not> list_ex (\<lambda>c. ck_name c = clearance_cookie) cookies then NoClearance
     else case earliest_ttl secs_f64 now_unix max_ttl cookies of
       TtlExpired \<Rightarrow> NoClearance
     | TtlPanic \<Rightarrow> BrowserPanic
     | Ttl t \<Rightarrow> Captured \<lparr> cl_cookies = cookies, cl_user_agent = user_agent, cl_expires_at = now + t \<rparr>)"

definition cookie_header :: "clearance \<Rightarrow> string \<Rightarrow> string" where
  "cookie_header c host =
    join_with ''; ''
      (map (\<lambda>k. ck_name k @ ''='' @ ck_value k)
        (filter (\<lambda>k. cookie_matches_host (ck_domain k) host) (cl_cookies c)))"

definition covers :: "clearance \<Rightarrow> string \<Rightarrow> bool" where
  "covers c host =
    list_ex (\<lambda>k. ck_name k = clearance_cookie \<and> cookie_matches_host (ck_domain k) host) (cl_cookies c)"

definition clearance_expired :: "clearance \<Rightarrow> instant \<Rightarrow> bool" where
  "clearance_expired c now = (cl_expires_at c \<le> now)"

subsection \<open>The caches\<close>

type_synonym clearance_cache = "(string, clearance) cache"

definition clearance_get ::
    "(string \<Rightarrow> string option) \<Rightarrow> instant \<Rightarrow> string \<Rightarrow> clearance_cache \<Rightarrow> clearance option \<times> clearance_cache" where
  "clearance_get psl now host c =
    (let key = normalize_host psl host
     in case cache_get c key of
          None \<Rightarrow> (None, c)
        | Some e \<Rightarrow> if clearance_expired e now then (None, cache_lose {key} c) else (Some e, c))"

definition clearance_insert ::
    "(string \<Rightarrow> string option) \<Rightarrow> string \<Rightarrow> clearance \<Rightarrow> clearance_cache \<Rightarrow> clearance_cache" where
  "clearance_insert psl host e c = cache_insert (normalize_host psl host) e c"

definition clearance_invalidate ::
    "(string \<Rightarrow> string option) \<Rightarrow> string \<Rightarrow> clearance_cache \<Rightarrow> clearance_cache" where
  "clearance_invalidate psl host c = cache_lose {normalize_host psl host} c"

type_synonym egress_memory = "(string, unit) cache"

definition egress_cooldown :: duration where
  "egress_cooldown = from_secs (10 * 60)"

definition direct_fallback_reserve :: duration where
  "direct_fallback_reserve = from_secs 4"

definition min_proxy_attempt :: duration where
  "min_proxy_attempt = from_secs 2"

definition min_budget_for_latch :: duration where
  "min_budget_for_latch = from_secs (as_secs direct_fallback_reserve + as_secs min_proxy_attempt)"

definition note_block :: "(string \<Rightarrow> string option) \<Rightarrow> string \<Rightarrow> egress_memory \<Rightarrow> egress_memory" where
  "note_block psl host m = cache_insert (normalize_host psl host) () m"

definition should_proxy :: "(string \<Rightarrow> string option) \<Rightarrow> string \<Rightarrow> egress_memory \<Rightarrow> bool" where
  "should_proxy psl host m = (cache_get m (normalize_host psl host) \<noteq> None)"

subsection \<open>Lemmas\<close>

lemma matching_host_is_subdomain:
  assumes "cookie_matches_host domain host" and "to_ascii_lowercase (trim_start_char (CHR ''.'') (trim domain)) = d" and "d \<noteq> []"
  shows "to_ascii_lowercase (trim host) = d \<or> suffix (''.'' @ d) (to_ascii_lowercase (trim host))"
  using assms by (simp add: cookie_matches_host_def Let_def split: if_splits)

lemma earliest_ttl_bound: "earliest_ttl f now t cs = Ttl t' \<Longrightarrow> t' \<le> t"
proof (induction cs arbitrary: t)
  case (Cons c cs)
  then show ?case by (fastforce simp: Let_def split: if_splits)
qed simp

text \<open>What a captured entry lives: at most a day, and no longer than any cookie with an expiry.\<close>

lemma earliest_ttl_each:
  "earliest_ttl f now t cs = Ttl t' \<Longrightarrow> c \<in> set cs \<Longrightarrow> 0 < ck_expires c \<Longrightarrow>
    now < ck_expires c \<and> t' \<le> f (ck_expires c - now)"
proof (induction cs arbitrary: t)
  case (Cons d cs)
  show ?case
  proof (cases "c = d")
    case True
    with Cons.prems have "now < ck_expires c" and
      "earliest_ttl f now (min t (f (ck_expires c - now))) cs = Ttl t'"
      by (auto simp: Let_def split: if_splits)
    then show ?thesis using earliest_ttl_bound by fastforce
  next
    case False
    with Cons.prems have "c \<in> set cs" by simp
    moreover obtain t0 where "earliest_ttl f now t0 cs = Ttl t'"
      using Cons.prems(1) by (auto simp: Let_def split: if_splits)
    ultimately show ?thesis using Cons.IH Cons.prems(3) by blast
  qed
qed simp

text \<open>
  A lookup returns what was inserted last for the registrable host, if it has not been lost or
  outlived, and whatever a cache operation does, an entry older than its expiry is not returned.
\<close>

lemma clearance_get_live:
  "fst (clearance_get psl now host c) = Some e \<Longrightarrow>
    cache_get c (normalize_host psl host) = Some e \<and> now < cl_expires_at e"
  by (auto simp: clearance_get_def Let_def clearance_expired_def split: option.splits if_splits)

lemma clearance_get_keeps:
  "moka.all_cached P c \<Longrightarrow> moka.all_cached P (snd (clearance_get psl now host c))"
  by (auto simp: clearance_get_def Let_def moka.all_cached_lose split: option.splits)

lemma clearance_get_insert:
  "fst (clearance_get psl now host (clearance_insert psl host' e c)) =
    (if normalize_host psl host' = normalize_host psl host
     then (if clearance_expired e now then None else Some e)
     else fst (clearance_get psl now host c))"
  by (simp add: clearance_get_def clearance_insert_def Let_def moka.get_ins split: option.split)

lemma clearance_get_invalidate:
  "normalize_host psl host' = normalize_host psl host \<Longrightarrow>
    fst (clearance_get psl now host (clearance_invalidate psl host' c)) = None"
  by (simp add: clearance_get_def clearance_invalidate_def Let_def moka.get_lose)

end
