(* ===== verification/Host_Limiter.thy ===== *)
theory Host_Limiter
  imports Prelude
begin

section \<open>Deadlines and the per-host limiter\<close>

text \<open>
  \<open>Deadline\<close> of \<open>crates/crw-core/src/deadline.rs\<close> and the process-wide limiter of
  \<open>crates/crw-renderer/src/host_limiter.rs\<close>: for each registrable host a minimum interval
  between requests and a cap on requests in flight. Every reading of the clock is an argument.
\<close>

subsection \<open>Deadlines\<close>

record deadline =
  dl_absolute :: instant
  dl_requested_ms :: nat

definition from_request_ms :: "instant \<Rightarrow> nat \<Rightarrow> deadline" where
  "from_request_ms now ms = \<lparr> dl_absolute = now + from_millis ms, dl_requested_ms = ms \<rparr>"

definition now_plus :: "instant \<Rightarrow> duration \<Rightarrow> deadline" where
  "now_plus now d = \<lparr> dl_absolute = now + d, dl_requested_ms = as_millis d mod 2 ^ 64 \<rparr>"

definition remaining :: "deadline \<Rightarrow> instant \<Rightarrow> duration" where
  "remaining d now = since (dl_absolute d) now"

definition expired :: "deadline \<Rightarrow> instant \<Rightarrow> bool" where
  "expired d now = (dl_absolute d \<le> now)"

definition overrun :: "deadline \<Rightarrow> instant \<Rightarrow> duration" where
  "overrun d now = since now (dl_absolute d)"

lemma expired_iff_remaining: "expired d now \<longleftrightarrow> remaining d now = 0"
  by (simp add: expired_def remaining_def since_def)

lemma remaining_overrun: "remaining d now = 0 \<or> overrun d now = 0"
  by (auto simp: remaining_def overrun_def since_def)

lemma remaining_antimono: "now \<le> later \<Longrightarrow> remaining d later \<le> remaining d now"
  by (simp add: remaining_def since_def)

subsection \<open>The interval\<close>

text \<open>
  A limiter is created with its last request one interval in the past, which may be before the
  clock's origin, so that instant is an integer. \<open>interval\<close> stands for
  \<open>Duration::from_secs_f64(1.0 / rps)\<close>, a rounding of the standard library.
\<close>

record rate_limiter =
  rl_min_interval :: duration
  rl_last_request :: int

definition min_interval_of :: "(rat \<Rightarrow> duration) \<Rightarrow> rat \<Rightarrow> duration" where
  "min_interval_of interval rps = (if 0 < rps then interval rps else 0)"

definition rate_limiter_new :: "(rat \<Rightarrow> duration) \<Rightarrow> instant \<Rightarrow> rat \<Rightarrow> rate_limiter" where
  "rate_limiter_new interval now rps =
    \<lparr> rl_min_interval = min_interval_of interval rps,
      rl_last_request = int now - int (min_interval_of interval rps) \<rparr>"

text \<open>The two readings are the one of \<open>elapsed()\<close> and the one the last request is set from.\<close>

definition next_sleep :: "instant \<Rightarrow> instant \<Rightarrow> rate_limiter \<Rightarrow> duration \<times> rate_limiter" where
  "next_sleep now1 now2 rl =
    (let elapsed = nat (int now1 - rl_last_request rl);
         sleep = (if elapsed < rl_min_interval rl then rl_min_interval rl - elapsed else 0)
     in (sleep, rl\<lparr> rl_last_request := int now2 + int sleep \<rparr>))"

text \<open>
  The start times granted to calls at the given pairs of readings: a caller sleeps from the
  second reading on.
\<close>

fun granted :: "(instant \<times> instant) list \<Rightarrow> rate_limiter \<Rightarrow> int list" where
  "granted [] rl = []"
| "granted ((now1, now2) # calls) rl =
    (let rl' = snd (next_sleep now1 now2 rl) in rl_last_request rl' # granted calls rl')"

text \<open>Callers that take turns: each call comes after the start granted to the one before.\<close>

fun take_turns :: "(instant \<times> instant) list \<Rightarrow> rate_limiter \<Rightarrow> bool" where
  "take_turns [] rl = True"
| "take_turns ((now1, now2) # calls) rl =
    (rl_last_request rl \<le> int now1 \<and> now1 \<le> now2 \<and> take_turns calls (snd (next_sleep now1 now2 rl)))"

fun spaced :: "int \<Rightarrow> int \<Rightarrow> int list \<Rightarrow> bool" where
  "spaced gap start [] = True"
| "spaced gap start (t # ts) = (start + gap \<le> t \<and> spaced gap t ts)"

lemma next_sleep_interval [simp]: "rl_min_interval (snd (next_sleep a b rl)) = rl_min_interval rl"
  by (simp add: next_sleep_def Let_def)

lemma next_sleep_gap:
  "rl_last_request rl \<le> int now1 \<Longrightarrow> now1 \<le> now2 \<Longrightarrow>
    rl_last_request rl + int (rl_min_interval rl) \<le> rl_last_request (snd (next_sleep now1 now2 rl))"
  by (auto simp: next_sleep_def Let_def nat_less_iff)

text \<open>
  The interval holds between callers that take turns: when every call comes after the start
  granted to the call before (as with one permit per host), any two consecutive granted starts
  are at least the minimum interval apart, the first one from the limiter's last request.
\<close>

theorem turns_are_spaced:
  "take_turns calls rl \<Longrightarrow> spaced (int (rl_min_interval rl)) (rl_last_request rl) (granted calls rl)"
proof (induction calls rl rule: take_turns.induct)
  case (2 now1 now2 calls rl)
  then show ?case using next_sleep_gap [of rl now1 now2] by (simp add: Let_def)
qed simp

theorem turns_are_spaced_witness:
  "granted [(100, 101), (120, 121), (500, 500)] \<lparr> rl_min_interval = 50, rl_last_request = 50 \<rparr>
     = [101, 152, 500]
   \<and> spaced 50 50 [101, 152, 500]"
proof -
  let ?calls = "[(100, 101), (120, 121), (500, 500)] :: (nat \<times> nat) list"
  let ?rl = "\<lparr> rl_min_interval = 50, rl_last_request = 50 \<rparr>"
  have g: "granted ?calls ?rl = [101, 152, 500]"
    by (simp add: next_sleep_def Let_def)
  have t: "take_turns ?calls ?rl"
    by (simp add: next_sleep_def Let_def)
  show ?thesis using turns_are_spaced [OF t] g by simp
qed

text \<open>
  Callers that do not take turns are not spaced: the queue is one slot deep. Of three calls at
  one moment the second and the third are granted the same start, because a last request in
  the future counts as no time elapsed.
\<close>

lemma simultaneous_calls_share_a_slot:
  assumes "0 < i" and "rl_min_interval rl = i" and "rl_last_request rl + int i \<le> int t"
  shows "granted (replicate (Suc n) (t, t)) rl = int t # replicate n (int (t + i))"
proof -
  have late: "granted (replicate n (t, t)) rl' = replicate n (int (t + i))"
    if "rl_min_interval rl' = i" and "int t \<le> rl_last_request rl'" for rl' n
    using that
  proof (induction n arbitrary: rl')
    case (Suc n)
    have "rl_last_request (snd (next_sleep t t rl')) = int (t + i)"
      using Suc.prems assms(1) by (simp add: next_sleep_def Let_def)
    then show ?case using Suc by (simp add: Let_def)
  qed simp
  have "rl_last_request (snd (next_sleep t t rl)) = int t"
    using assms by (auto simp: next_sleep_def Let_def nat_less_iff)
  then show ?thesis using late [of "snd (next_sleep t t rl)"] assms(2) by (simp add: Let_def)
qed

subsection \<open>The table of limiters\<close>

text \<open>
  An entry of the table holds shared pointers to a rate limiter and a semaphore that are always
  handed out together, so they are one object of the heap \<open>hl_heap\<close>; permits keep it alive
  when its entry is gone. The table is a \<open>DashMap\<close>, here a partial map; every 64th lookup drops
  the entries not used for an hour.
\<close>

definition rate_limiter_ttl :: duration where
  "rate_limiter_ttl = from_secs 3600"

record limiter_obj =
  lo_rate :: rate_limiter
  lo_cap :: nat
  lo_held :: nat

record host_limiters =
  hl_table :: "string \<rightharpoonup> (nat \<times> instant)"
  hl_heap :: "limiter_obj list"
  hl_calls :: nat

definition limiters_new :: host_limiters where
  "limiters_new = \<lparr> hl_table = Map.empty, hl_heap = [], hl_calls = 0 \<rparr>"

definition drop_idle :: "instant \<Rightarrow> host_limiters \<Rightarrow> host_limiters" where
  "drop_idle now st =
    st\<lparr> hl_table := (\<lambda>k. case hl_table st k of
         Some (a, used) \<Rightarrow> if since now used < rate_limiter_ttl then Some (a, used) else None
       | None \<Rightarrow> None) \<rparr>"

definition count_call :: "instant \<Rightarrow> host_limiters \<Rightarrow> host_limiters" where
  "count_call now st =
    (let st0 = st\<lparr> hl_calls := (hl_calls st + 1) mod 2 ^ 64 \<rparr>
     in if hl_calls st mod 64 = 0 then drop_idle now st0 else st0)"

definition get_host_limiter ::
    "(rat \<Rightarrow> duration) \<Rightarrow> instant \<Rightarrow> string \<Rightarrow> rat \<Rightarrow> nat \<Rightarrow> host_limiters \<Rightarrow> nat \<times> host_limiters" where
  "get_host_limiter interval now host_key rps per_host_max_concurrent st =
    (let st1 = count_call now st;
         cap = max per_host_max_concurrent 1
     in case hl_table st1 host_key of
          Some (a, used) \<Rightarrow> (a, st1\<lparr> hl_table := (hl_table st1)(host_key \<mapsto> (a, now)) \<rparr>)
        | None \<Rightarrow>
            (length (hl_heap st1),
             st1\<lparr> hl_table := (hl_table st1)(host_key \<mapsto> (length (hl_heap st1), now)),
                  hl_heap := hl_heap st1
                    @ [\<lparr> lo_rate = rate_limiter_new interval now rps, lo_cap = cap, lo_held = 0 \<rparr>] \<rparr>))"

text \<open>
  Taking a permit of a limiter and the time to sleep with it; \<open>None\<close> while all permits are out
  (the caller waits). The semaphore is never closed. Dropping the permit gives it back.
\<close>

definition take_permit ::
    "instant \<Rightarrow> instant \<Rightarrow> nat \<Rightarrow> host_limiters \<Rightarrow> (duration \<times> host_limiters) option" where
  "take_permit now1 now2 a st =
    (let l = hl_heap st ! a
     in if lo_held l < lo_cap l then
          (let (sleep, r) = next_sleep now1 now2 (lo_rate l)
           in Some (sleep, st\<lparr> hl_heap := (hl_heap st)[a := l\<lparr> lo_rate := r, lo_held := lo_held l + 1 \<rparr>] \<rparr>))
        else None)"

definition release_permit :: "nat \<Rightarrow> host_limiters \<Rightarrow> host_limiters" where
  "release_permit a st =
    (let l = hl_heap st ! a in st\<lparr> hl_heap := (hl_heap st)[a := l\<lparr> lo_held := lo_held l - 1 \<rparr>] \<rparr>)"

datatype limiter_op =
    LimLookup instant string rat nat
  | LimTake instant instant nat
  | LimRelease nat

fun limiter_step :: "(rat \<Rightarrow> duration) \<Rightarrow> limiter_op \<Rightarrow> host_limiters \<Rightarrow> host_limiters" where
  "limiter_step interval (LimLookup now key rps cap) st = snd (get_host_limiter interval now key rps cap st)"
| "limiter_step interval (LimTake now1 now2 a) st =
    (case take_permit now1 now2 a st of Some (s, st') \<Rightarrow> st' | None \<Rightarrow> st)"
| "limiter_step interval (LimRelease a) st = release_permit a st"

definition limiter_ok :: "limiter_obj \<Rightarrow> bool" where
  "limiter_ok l \<longleftrightarrow> 1 \<le> lo_cap l \<and> lo_held l \<le> lo_cap l"

definition limiters_ok :: "host_limiters \<Rightarrow> bool" where
  "limiters_ok st \<longleftrightarrow>
    (\<forall>k a used. hl_table st k = Some (a, used) \<longrightarrow> a < length (hl_heap st))
    \<and> (\<forall>l \<in> set (hl_heap st). limiter_ok l)
    \<and> (\<forall>k k' a used used'. hl_table st k = Some (a, used) \<longrightarrow> hl_table st k' = Some (a, used') \<longrightarrow> k = k')"

lemma limiters_ok_new: "limiters_ok limiters_new"
  by (simp add: limiters_ok_def limiters_new_def)

lemma drop_idle_ok: "limiters_ok st \<Longrightarrow> limiters_ok (drop_idle now st)"
  by (auto simp: limiters_ok_def drop_idle_def split: option.splits if_splits prod.splits)

lemma count_call_ok: "limiters_ok st \<Longrightarrow> limiters_ok (count_call now st)"
  using drop_idle_ok [of "st\<lparr> hl_calls := (hl_calls st + 1) mod 2 ^ 64 \<rparr>" now]
  by (simp add: count_call_def Let_def limiters_ok_def)

lemma table_insert_ok:
  assumes "limiters_ok st" and "\<And>k u. hl_table st k = Some (a, u) \<Longrightarrow> k = key"
    and "a < length (hl_heap st @ ls)" and "\<forall>l \<in> set ls. limiter_ok l"
  shows "limiters_ok (st\<lparr> hl_table := (hl_table st)(key \<mapsto> (a, now)), hl_heap := hl_heap st @ ls \<rparr>)"
  using assms unfolding limiters_ok_def
  by (auto split: if_splits) (metis trans_less_add1)+

lemma get_host_limiter_ok:
  assumes "limiters_ok st"
  shows "limiters_ok (snd (get_host_limiter interval now key rps cap st))"
proof -
  let ?st1 = "count_call now st"
  have ok: "limiters_ok ?st1" using assms by (rule count_call_ok)
  have bound: "\<And>k a used. hl_table ?st1 k = Some (a, used) \<Longrightarrow> a < length (hl_heap ?st1)"
    using ok by (fastforce simp: limiters_ok_def)
  show ?thesis
  proof (cases "hl_table ?st1 key")
    case None
    have "limiters_ok (?st1\<lparr> hl_table := (hl_table ?st1)(key \<mapsto> (length (hl_heap ?st1), now)),
        hl_heap := hl_heap ?st1 @ [\<lparr> lo_rate = rate_limiter_new interval now rps, lo_cap = max cap 1, lo_held = 0 \<rparr>] \<rparr>)"
      by (rule table_insert_ok [OF ok]) (auto simp: limiter_ok_def dest: bound)
    then show ?thesis using None by (simp add: get_host_limiter_def Let_def)
  next
    case (Some e)
    obtain a used where u: "e = (a, used)" by (cases e)
    have "limiters_ok (?st1\<lparr> hl_table := (hl_table ?st1)(key \<mapsto> (a, now)), hl_heap := hl_heap ?st1 @ [] \<rparr>)"
      by (rule table_insert_ok [OF ok]) (use Some u bound ok in \<open>auto simp: limiters_ok_def\<close>)
    then show ?thesis using Some u by (simp add: get_host_limiter_def Let_def)
  qed
qed

lemma heap_update_ok:
  assumes "limiters_ok st" and "limiter_ok l \<or> length (hl_heap st) \<le> a"
  shows "limiters_ok (st\<lparr> hl_heap := (hl_heap st)[a := l] \<rparr>)"
proof (cases "length (hl_heap st) \<le> a")
  case True
  with assms show ?thesis by (simp add: list_update_beyond)
next
  case False
  with assms set_update_subset_insert [of "hl_heap st" a l]
  show ?thesis by (auto simp: limiters_ok_def)
qed

lemma take_permit_ok: "limiters_ok st \<Longrightarrow> take_permit now1 now2 a st = Some (d, st') \<Longrightarrow> limiters_ok st'"
  by (auto simp: take_permit_def Let_def limiter_ok_def split: if_splits prod.splits
      intro!: heap_update_ok)

lemma release_permit_ok:
  assumes "limiters_ok st"
  shows "limiters_ok (release_permit a st)"
proof -
  have "limiter_ok (hl_heap st ! a)" if "a < length (hl_heap st)"
    using assms that by (simp add: limiters_ok_def)
  then have "limiter_ok ((hl_heap st ! a)\<lparr> lo_held := lo_held (hl_heap st ! a) - 1 \<rparr>) \<or> length (hl_heap st) \<le> a"
    by (cases "a < length (hl_heap st)") (auto simp: limiter_ok_def)
  then show ?thesis unfolding release_permit_def Let_def using assms by (rule heap_update_ok [rotated])
qed

lemma limiter_step_ok: "limiters_ok st \<Longrightarrow> limiters_ok (limiter_step interval x st)"
  by (cases x) (auto simp: get_host_limiter_ok release_permit_ok take_permit_ok split: option.splits)

interpretation limiters: machine "limiter_step interval" limiters_ok for interval
  by unfold_locales (rule limiter_step_ok)

text \<open>The first caller of a host decides its interval and its cap; later values are ignored.\<close>

lemma first_write_wins:
  assumes "hl_table st key = Some (a, used)" and "since now used < rate_limiter_ttl"
  shows "fst (get_host_limiter interval now key rps cap st) = a
    \<and> hl_heap (snd (get_host_limiter interval now key rps cap st)) = hl_heap st"
  using assms by (simp add: get_host_limiter_def count_call_def Let_def drop_idle_def)

text \<open>
  However lookups, permits and releases interleave, no limiter has more requests in flight
  than its cap, no cap is zero, and the limiters of different hosts are different.
\<close>

theorem host_caps_hold:
  "(\<forall>l \<in> set (hl_heap (run_ops (limiter_step interval) ops limiters_new)). lo_held l \<le> lo_cap l \<and> 0 < lo_cap l)
   \<and> inj_on (\<lambda>k. map_option fst (hl_table (run_ops (limiter_step interval) ops limiters_new) k))
       (dom (hl_table (run_ops (limiter_step interval) ops limiters_new)))"
proof -
  have ok: "limiters_ok (run_ops (limiter_step interval) ops limiters_new)"
    by (rule limiters.run_inv) (rule limiters_ok_new)
  then show ?thesis
    by (fastforce simp: limiters_ok_def limiter_ok_def inj_on_def)
qed

theorem host_caps_hold_witness:
  "let st = run_ops (limiter_step (\<lambda>r. 5)) [LimLookup 1 ''a.com'' 1 0, LimTake 1 1 0, LimTake 2 2 0] limiters_new
   in map lo_held (hl_heap st) = [1] \<and> lo_held (hd (hl_heap st)) \<le> lo_cap (hd (hl_heap st))"
proof -
  let ?st = "run_ops (limiter_step (\<lambda>r. 5)) [LimLookup 1 ''a.com'' 1 0, LimTake 1 1 0, LimTake 2 2 0] limiters_new"
  have h: "map lo_held (hl_heap ?st) = [1]"
    by (simp add: limiters_new_def get_host_limiter_def count_call_def drop_idle_def take_permit_def
        next_sleep_def rate_limiter_new_def min_interval_of_def Let_def)
  then have "hl_heap ?st \<noteq> []" by (metis list.map_disc_iff not_Cons_self2)
  then have "hd (hl_heap ?st) \<in> set (hl_heap ?st)" by (rule hd_in_set)
  then have "lo_held (hd (hl_heap ?st)) \<le> lo_cap (hd (hl_heap ?st))" using host_caps_hold by blast
  with h show ?thesis by (simp only: Let_def)
qed

end
