(* ===== verification/Ladder.thy ===== *)
theory Ladder
  imports Body_Checks Breaker_Registry Preference Clearance Host_Limiter
begin

section \<open>The JavaScript ladder\<close>

text \<open>
  \<open>FallbackRenderer::fetch_with_js\<close> of \<open>crates/crw-renderer/src/lib.rs\<close>: the browser tiers
  tried in order, each behind its circuit breaker and within the request's deadline, the best
  rejected body kept, a last attempt that leaks past an open global breaker, and the routing
  metadata of the result.

  The caches, breakers and limiters shared by all requests are the record \<open>shared\<close>. A request
  runs on a \<open>world\<close>: the shared state, the number of clock readings made so far (the
  \<open>n\<close>-th reading is \<open>le_clock env n\<close>) and the log of tier calls. A tier is a name and the
  function that answers its \<open>n\<close>-th call; while a request waits for a tier, other requests change
  the shared state by \<open>le_others env n\<close>, and by \<open>le_waiting env\<close> while it waits for its
  permit. Counters and log lines are left out. \<open>None\<close> is the
  registry's \<open>unreachable!\<close>.
\<close>

subsection \<open>State\<close>

type_synonym headers = "(string \<times> string) list"

record tier =
  tier_name :: string
  tier_fetch :: "nat \<Rightarrow> string \<Rightarrow> headers \<Rightarrow> nat option \<Rightarrow> deadline \<Rightarrow> crw_error + fetched"

record shared =
  sh_breakers :: breaker_registry
  sh_prefs :: host_preferences
  sh_clearance :: clearance_cache
  sh_egress :: egress_memory
  sh_limiters :: host_limiters

record tier_call =
  tc_name :: string
  tc_headers :: headers
  tc_budget :: "duration option"

record world =
  w_shared :: shared
  w_reads :: nat
  w_calls :: "tier_call list"

record ladder_env =
  le_lib :: text_lib
  le_psl :: "string \<Rightarrow> string option"
  le_host :: "string \<Rightarrow> string option"
  le_path :: "string \<Rightarrow> string option"
  le_interval :: "rat \<Rightarrow> duration"
  le_clock :: "nat \<Rightarrow> instant"
  le_others :: "nat \<Rightarrow> shared \<Rightarrow> shared"
  le_waiting :: "shared \<Rightarrow> shared"

record renderer =
  rd_http :: tier
  rd_js :: "tier list"
  rd_render_js_default :: "bool option"
  rd_has_recovery_tier :: bool
  rd_tier_timeouts :: "renderer_kind \<rightharpoonup> duration"
  rd_requests_per_second :: rat
  rd_per_host_max_concurrent :: nat
  rd_antibot :: antibot_config
  rd_http_has_proxy :: bool
  rd_impersonated :: "tier option"

record js_request =
  jr_url :: string
  jr_headers :: headers
  jr_wait :: "nat option"
  jr_requested :: "string option"
  jr_deadline :: deadline

definition min_tier_budget :: duration where
  "min_tier_budget = from_millis 500"

definition has_recovery_tier :: "tier list \<Rightarrow> bool \<Rightarrow> bool" where
  "has_recovery_tier js_renderers http_fallback_proxy_ready =
    (list_ex (\<lambda>r. tier_name r \<in> {''camofox'', ''byparr''}) js_renderers \<or> http_fallback_proxy_ready)"

definition host_of :: "ladder_env \<Rightarrow> string \<Rightarrow> string" where
  "host_of env url = (case le_host env url of Some h \<Rightarrow> h | None \<Rightarrow> [])"

definition read_clock :: "ladder_env \<Rightarrow> world \<Rightarrow> instant \<times> world" where
  "read_clock env w = (le_clock env (w_reads w), w\<lparr> w_reads := w_reads w + 1 \<rparr>)"

definition read_budget :: "ladder_env \<Rightarrow> js_request \<Rightarrow> world \<Rightarrow> duration \<times> world" where
  "read_budget env req w = (let (now, w1) = read_clock env w in (remaining (jr_deadline req) now, w1))"

text \<open>A call of a tier, logged with the budget that was checked before it if there was a check,
  and what others do in the meantime.\<close>

definition call_tier ::
    "ladder_env \<Rightarrow> tier \<Rightarrow> string \<Rightarrow> headers \<Rightarrow> nat option \<Rightarrow> deadline \<Rightarrow> duration option \<Rightarrow>
     world \<Rightarrow> (crw_error + fetched) \<times> world" where
  "call_tier env t url hs wait d budget w =
    (let n = length (w_calls w)
     in (tier_fetch t n url hs wait d,
         w\<lparr> w_shared := le_others env n (w_shared w),
            w_calls := w_calls w @ [\<lparr> tc_name = tier_name t, tc_headers = hs, tc_budget = budget \<rparr>] \<rparr>))"

definition with_breakers :: "breaker_registry \<Rightarrow> world \<Rightarrow> world" where
  "with_breakers reg w = w\<lparr> w_shared := (w_shared w)\<lparr> sh_breakers := reg \<rparr> \<rparr>"

definition with_prefs :: "host_preferences \<Rightarrow> world \<Rightarrow> world" where
  "with_prefs p w = w\<lparr> w_shared := (w_shared w)\<lparr> sh_prefs := p \<rparr> \<rparr>"

abbreviation breakers_of :: "world \<Rightarrow> breaker_registry" where
  "breakers_of w \<equiv> sh_breakers (w_shared w)"

abbreviation prefs_of :: "world \<Rightarrow> host_preferences" where
  "prefs_of w \<equiv> sh_prefs (w_shared w)"

text \<open>The breaker calls, each with a clock reading of its own.\<close>

definition acquire_tier ::
    "ladder_env \<Rightarrow> string \<Rightarrow> renderer_kind \<Rightarrow> world \<Rightarrow> ((permit \<times> probe_guard) \<times> world) option" where
  "acquire_tier env host k w =
    do {
      let (now, w1) = read_clock env w;
      (pg, reg) \<leftarrow> acquire_with_guard (le_psl env) now host k (breakers_of w1);
      Some (pg, with_breakers reg w1)
    }"

definition record_scoped ::
    "ladder_env \<Rightarrow> string \<Rightarrow> renderer_kind \<Rightarrow> breaker_outcome option \<Rightarrow> breaker_outcome option \<Rightarrow>
     world \<Rightarrow> world option" where
  "record_scoped env host k global_out host_out w =
    do {
      let (now, w1) = read_clock env w;
      reg \<leftarrow> registry_record_scoped_outcome (le_psl env) now host k global_out host_out (breakers_of w1);
      Some (with_breakers reg w1)
    }"

definition record_both ::
    "ladder_env \<Rightarrow> string \<Rightarrow> renderer_kind \<Rightarrow> breaker_outcome \<Rightarrow> world \<Rightarrow> world option" where
  "record_both env host k out w =
    do {
      let (now, w1) = read_clock env w;
      reg \<leftarrow> registry_record_outcome (le_psl env) now host k out (breakers_of w1);
      Some (with_breakers reg w1)
    }"

definition drop_guard :: "probe_guard option \<Rightarrow> world \<Rightarrow> world" where
  "drop_guard g w = (case g of None \<Rightarrow> w | Some gd \<Rightarrow> with_breakers (guard_drop gd (breakers_of w)) w)"

definition note_failure ::
    "ladder_env \<Rightarrow> string \<Rightarrow> renderer_kind \<Rightarrow> failover_error_kind \<Rightarrow> world \<Rightarrow> world" where
  "note_failure env host k err w =
    (if k = Lightpanda then
       (let (now, w1) = read_clock env w
        in with_prefs (snd (prefs_record_failure (le_psl env) now host err (prefs_of w1))) w1)
     else w)"

subsection \<open>What the ladder remembers\<close>

record ladder =
  la_chain :: "renderer_kind list"
  la_skipped :: "renderer_kind list"
  la_error :: "crw_error option"
  la_reason :: "failover_error_kind option"
  la_thin :: "fetched option"
  la_challenge :: bool

definition ladder_new :: "bool \<Rightarrow> ladder" where
  "ladder_new challenge_hint =
    \<lparr> la_chain = [], la_skipped = [], la_error = None, la_reason = None, la_thin = None,
      la_challenge = challenge_hint \<rparr>"

definition append_warning :: "string \<Rightarrow> string option \<Rightarrow> string option" where
  "append_warning w prev = Some (case prev of Some p \<Rightarrow> p @ ''; '' @ w | None \<Rightarrow> w)"

definition annotate :: "string \<Rightarrow> fetched \<Rightarrow> fetched" where
  "annotate w r =
    r\<lparr> fr_warnings := fr_warnings r @ [w], fr_warning := append_warning w (fr_warning r) \<rparr>"

text \<open>The larger of two rejected bodies is kept, with the warnings of both.\<close>

definition stitch :: "string \<Rightarrow> fetched \<Rightarrow> fetched \<Rightarrow> fetched" where
  "stitch w annotated existing =
    (let (keeper, dropped) =
       (if length (fr_html existing) < length (fr_html annotated) then (annotated, existing)
        else (existing, annotated));
         kept = annotate w keeper
     in kept\<lparr> fr_warnings :=
          fold (\<lambda>x ws. if x \<in> set ws then ws else ws @ [x]) (fr_warnings dropped) (fr_warnings kept) \<rparr>)"

definition keep_thin :: "string \<Rightarrow> fetched \<Rightarrow> fetched option \<Rightarrow> fetched option" where
  "keep_thin w annotated thin =
    Some (case thin of None \<Rightarrow> annotated | Some existing \<Rightarrow> stitch w annotated existing)"

definition is_user_pinned :: "js_request \<Rightarrow> bool" where
  "is_user_pinned req = (case jr_requested req of Some name \<Rightarrow> name \<noteq> ''auto'' | None \<Rightarrow> False)"

definition route_decision ::
    "js_request \<Rightarrow> ladder \<Rightarrow> bool \<Rightarrow> renderer_kind \<Rightarrow> render_decision" where
  "route_decision req la was_promoted k =
    (if is_user_pinned req then UserPinned k
     else case la_skipped la of
       s # _ \<Rightarrow> BreakerSkipped s k
     | [] \<Rightarrow>
         if 1 < length (la_chain la) then
           Failover (la_chain la) (case la_reason la of Some r \<Rightarrow> r | None \<Rightarrow> OtherFailure)
         else if was_promoted \<and> k = Chrome then AutoPromoted k Lightpanda ''host preference learner''
         else AutoDefault k)"

subsection \<open>One tier\<close>

text \<open>The kind of a tier if its outcomes are tracked: not under the empty host.\<close>

definition trackable :: "string \<Rightarrow> tier \<Rightarrow> renderer_kind option" where
  "trackable host t = (if host = [] then None else renderer_kind_for (tier_name t))"

definition attempt_context_for ::
    "renderer \<Rightarrow> renderer_kind option \<Rightarrow> duration \<Rightarrow> attempt_context" where
  "attempt_context_for rd kind budget =
    attempt_capture budget (case Option.bind kind (rd_tier_timeouts rd) of Some b \<Rightarrow> b | None \<Rightarrow> budget)"

definition skip_starved :: "js_request \<Rightarrow> ladder \<Rightarrow> ladder" where
  "skip_starved req la = la\<lparr> la_error := Some (Timeout (dl_requested_ms (jr_deadline req))) \<rparr>"

definition tier_accepted ::
    "ladder_env \<Rightarrow> js_request \<Rightarrow> string \<Rightarrow> tier \<Rightarrow> ladder \<Rightarrow> fetched \<Rightarrow> world \<Rightarrow> (fetched \<times> world) option" where
  "tier_accepted env req host t la r w =
    do {
      let was_promoted = (prefs_preferred (le_psl env) host (prefs_of w) = Some Chrome);
      w1 \<leftarrow> (case trackable host t of
               None \<Rightarrow> Some w
             | Some k \<Rightarrow> do {
                 w1 \<leftarrow> record_both env host k (if fr_truncated r then Truncated else Success) w;
                 Some (with_prefs (prefs_record_success (le_psl env) host (prefs_of w1)) w1)
               });
      Some (case renderer_kind_for (tier_name t) of
              None \<Rightarrow> r
            | Some k \<Rightarrow>
                r\<lparr> fr_credit_cost := credit_for k,
                   fr_meta := Some (route_decision req la was_promoted k) \<rparr>,
            w1)
    }"

definition note_rejection :: "tier \<Rightarrow> js_body_checks \<Rightarrow> fetched \<Rightarrow> ladder \<Rightarrow> ladder" where
  "note_rejection t body r la =
    (let warning = rejection_warning body (tier_name t) (fr_status r)
     in la\<lparr> la_reason := Some (rejection_kind body),
            la_challenge := la_challenge la \<or> challenge_body body,
            la_error := (case blocked_error body (tier_name t) (fr_status r) of
                           Some e \<Rightarrow> Some e | None \<Rightarrow> la_error la),
            la_thin := keep_thin warning (annotate warning (r\<lparr> fr_wall := body_wall body \<rparr>)) (la_thin la) \<rparr>)"

definition tier_rejected ::
    "ladder_env \<Rightarrow> renderer \<Rightarrow> string \<Rightarrow> tier \<Rightarrow> attempt_context \<Rightarrow> js_body_checks \<Rightarrow> fetched \<Rightarrow>
     ladder \<Rightarrow> world \<Rightarrow> (ladder \<times> world) option" where
  "tier_rejected env rd host t ctx body r la w =
    do {
      w1 \<leftarrow> (case trackable host t of
               None \<Rightarrow> Some w
             | Some k \<Rightarrow> do {
                 let out = classify_outcome False False False
                   (site_blocked body (fr_status r) \<and> rd_has_recovery_tier rd) ctx;
                 w1 \<leftarrow> record_scoped env host k None (Some out) w;
                 Some (note_failure env host k (rejection_kind body) w1)
               });
      Some (note_rejection t body r la, w1)
    }"

definition note_error :: "crw_error \<Rightarrow> ladder \<Rightarrow> ladder" where
  "note_error e la = la\<lparr> la_reason := Some (classify_renderer_error e), la_error := Some e \<rparr>"

definition tier_failed ::
    "ladder_env \<Rightarrow> string \<Rightarrow> tier \<Rightarrow> attempt_context \<Rightarrow> crw_error \<Rightarrow> ladder \<Rightarrow> world \<Rightarrow>
     (ladder \<times> world) option" where
  "tier_failed env host t ctx e la w =
    do {
      w1 \<leftarrow> (case trackable host t of
               None \<Rightarrow> Some w
             | Some k \<Rightarrow> do {
                 let out = classify_outcome False False (is_timeout e) False ctx;
                 let global = (if \<not> is_origin_fault_for_breaker e \<or> is_timeout e then Some out else None);
                 w1 \<leftarrow> record_scoped env host k global (Some out) w;
                 Some (note_failure env host k (classify_renderer_error e) w1)
               });
      Some (note_error e la, w1)
    }"

definition enter_chain :: "tier \<Rightarrow> ladder \<Rightarrow> ladder" where
  "enter_chain t la =
    (case renderer_kind_for (tier_name t) of
       Some k \<Rightarrow> la\<lparr> la_chain := la_chain la @ [k] \<rparr> | None \<Rightarrow> la)"

definition note_skip :: "renderer_kind \<Rightarrow> ladder \<Rightarrow> ladder" where
  "note_skip k la = la\<lparr> la_skipped := la_skipped la @ [k] \<rparr>"

definition answer :: "tier \<Rightarrow> nat \<Rightarrow> js_request \<Rightarrow> crw_error + fetched" where
  "answer t n req = tier_fetch t n (jr_url req) (jr_headers req) (jr_wait req) (jr_deadline req)"

text \<open>The attempt on a tier that passed its breaker and the budget check; a result ends the
  ladder.\<close>

definition attempt_tier ::
    "ladder_env \<Rightarrow> renderer \<Rightarrow> js_request \<Rightarrow> string \<Rightarrow> tier \<Rightarrow> duration \<Rightarrow> ladder \<Rightarrow> world \<Rightarrow>
     (fetched option \<times> ladder \<times> world) option" where
  "attempt_tier env rd req host t checked la w =
    do {
      let kind = renderer_kind_for (tier_name t);
      let la1 = enter_chain t la;
      let (budget, w1) = read_budget env req w;
      let ctx = attempt_context_for rd kind budget;
      case call_tier env t (jr_url req) (jr_headers req) (jr_wait req) (jr_deadline req) (Some checked) w1 of
        (Inr r, w2) \<Rightarrow>
          (let body = assess (le_lib env) (rd_antibot rd) r
           in if accepted body then do {
                (r', w3) \<leftarrow> tier_accepted env req host t la1 r w2;
                Some (Some r', la1, w3)
              }
              else do {
                (la2, w3) \<leftarrow> tier_rejected env rd host t ctx body r la1 w2;
                Some (None, la2, w3)
              })
      | (Inl e, w2) \<Rightarrow> do {
          (la2, w3) \<leftarrow> tier_failed env host t ctx e la1 w2;
          Some (None, la2, w3)
        }
    }"

definition is_idle_solver :: "tier \<Rightarrow> ladder \<Rightarrow> bool" where
  "is_idle_solver t la = (renderer_kind_for (tier_name t) = Some Byparr \<and> \<not> la_challenge la)"

definition admitted_tier ::
    "ladder_env \<Rightarrow> renderer \<Rightarrow> js_request \<Rightarrow> string \<Rightarrow> tier \<Rightarrow> probe_guard option \<Rightarrow> ladder \<Rightarrow> world \<Rightarrow>
     (fetched option \<times> ladder \<times> world) option" where
  "admitted_tier env rd req host t guard la w =
    (let (budget, w1) = read_budget env req w
     in if budget < min_tier_budget then Some (None, skip_starved req la, drop_guard guard w1)
        else attempt_tier env rd req host t budget la w1)"

definition run_tier ::
    "ladder_env \<Rightarrow> renderer \<Rightarrow> js_request \<Rightarrow> string \<Rightarrow> tier \<Rightarrow> ladder \<Rightarrow> world \<Rightarrow>
     (fetched option \<times> ladder \<times> world) option" where
  "run_tier env rd req host t la w =
    (if is_idle_solver t la then Some (None, la, w)
     else
       (let (budget, w1) = read_budget env req w
        in if budget < min_tier_budget then Some (None, skip_starved req la, w1)
           else case trackable host t of
             None \<Rightarrow> admitted_tier env rd req host t None la w1
           | Some k \<Rightarrow> do {
               ((permit, guard), w2) \<leftarrow> acquire_tier env host k w1;
               if permit = Rejected then Some (None, note_skip k la, drop_guard (Some guard) w2)
               else admitted_tier env rd req host t (Some guard) la w2
             }))"

fun run_tiers ::
    "ladder_env \<Rightarrow> renderer \<Rightarrow> js_request \<Rightarrow> string \<Rightarrow> tier list \<Rightarrow> ladder \<Rightarrow> world \<Rightarrow>
     (fetched option \<times> ladder \<times> world) option" where
  "run_tiers env rd req host [] la w = Some (None, la, w)"
| "run_tiers env rd req host (t # ts) la w =
    do {
      (res, la1, w1) \<leftarrow> run_tier env rd req host t la w;
      (case res of
         Some r \<Rightarrow> Some (Some r, la1, w1)
       | None \<Rightarrow> run_tiers env rd req host ts la1 w1)
    }"

subsection \<open>The leak-through attempt\<close>

text \<open>
  Tiers the main loop skipped get one attempt when the host's own breaker admits it. A tier that
  was asked ends the loop; one that was not leaves it to the next.
\<close>

definition note_leak_rejection :: "tier \<Rightarrow> js_body_checks \<Rightarrow> fetched \<Rightarrow> ladder \<Rightarrow> ladder" where
  "note_leak_rejection t body r la =
    (let rejection = rejection_warning body (tier_name t) (fr_status r)
     in la\<lparr> la_error := Some (RendererError (''leak attempt: '' @ rejection)),
            la_thin := Some (annotate rejection (r\<lparr> fr_wall := body_wall body \<rparr>)) \<rparr>)"

definition attempt_leak ::
    "ladder_env \<Rightarrow> renderer \<Rightarrow> js_request \<Rightarrow> string \<Rightarrow> tier \<Rightarrow> renderer_kind \<Rightarrow> duration \<Rightarrow> ladder \<Rightarrow>
     world \<Rightarrow> (fetched option \<times> ladder \<times> world) option" where
  "attempt_leak env rd req host t k checked la w =
    do {
      let (budget, w1) = read_budget env req w;
      let ctx = attempt_context_for rd (Some k) budget;
      case call_tier env t (jr_url req) (jr_headers req) (jr_wait req) (jr_deadline req) (Some checked) w1 of
        (Inr r, w2) \<Rightarrow> do {
          let body = assess (le_lib env) (rd_antibot rd) r;
          let content_ok = accepted body;
          let out = classify_outcome content_ok (fr_truncated r) False
            (site_blocked body (fr_status r) \<and> rd_has_recovery_tier rd) ctx;
          w3 \<leftarrow> record_scoped env host k None (Some out) w2;
          if content_ok then
            Some (Some (r\<lparr> fr_credit_cost := credit_for k, fr_meta := Some (AutoDefault k) \<rparr>), la, w3)
          else Some (None, note_leak_rejection t body r la, w3)
        }
      | (Inl e, w2) \<Rightarrow> do {
          let out = classify_outcome False False (is_timeout e) False ctx;
          w3 \<leftarrow> record_scoped env host k None (Some out) w2;
          Some (None, la\<lparr> la_error := Some e \<rparr>, w3)
        }
    }"

definition acquire_host_only ::
    "ladder_env \<Rightarrow> string \<Rightarrow> renderer_kind \<Rightarrow> world \<Rightarrow> permit \<times> world" where
  "acquire_host_only env host k w =
    (let (now, w1) = read_clock env w;
         (p, reg) = registry_try_acquire_host_only (le_psl env) now host k (breakers_of w1)
     in (p, with_breakers reg w1))"

fun leak_tiers ::
    "ladder_env \<Rightarrow> renderer \<Rightarrow> js_request \<Rightarrow> string \<Rightarrow> tier list \<Rightarrow> ladder \<Rightarrow> world \<Rightarrow>
     (fetched option \<times> ladder \<times> world) option" where
  "leak_tiers env rd req host [] la w = Some (None, la, w)"
| "leak_tiers env rd req host (t # ts) la w =
    (case trackable host t of
       None \<Rightarrow> leak_tiers env rd req host ts la w
     | Some k \<Rightarrow>
         if k \<notin> set (la_skipped la) then leak_tiers env rd req host ts la w
         else
           (let (permit, w1) = acquire_host_only env host k w
            in if permit = Rejected then leak_tiers env rd req host ts la w1
               else
                 (let (budget, w2) = read_budget env req w1
                  in if budget < min_tier_budget then leak_tiers env rd req host ts la w2
                     else attempt_leak env rd req host t k budget la w2)))"

subsection \<open>The whole ladder\<close>

definition pinned_hint :: "renderer_kind \<Rightarrow> failover_error_kind option \<Rightarrow> string" where
  \<open>pinned_hint k reason =
    ''Pinned renderer ''  @ [CHR 0x27] @ kind_str k @ [CHR 0x27] @ '' returned a failed render (''
    @ (case reason of Some r \<Rightarrow> failover_str r | None \<Rightarrow> ''unknown'')
    @ ''). Content may be unreliable. Retry with renderer="chrome" or omit the renderer field for auto-failover.''\<close>

definition ladder_result ::
    "ladder_env \<Rightarrow> js_request \<Rightarrow> ladder \<Rightarrow> crw_error + fetched" where
  "ladder_result env req la =
    (case la_thin la of
       None \<Rightarrow>
         Inl (case la_error la of Some e \<Rightarrow> e | None \<Rightarrow> RendererError ''No JS renderer available'')
     | Some r \<Rightarrow>
         (let r1 = (if la_chain la = [] then r
                    else r\<lparr> fr_credit_cost := credit_for (last (la_chain la)),
                            fr_meta := Some (Failover (la_chain la)
                              (case la_reason la of Some k \<Rightarrow> k | None \<Rightarrow> OtherFailure)) \<rparr>);
              r2 = (if is_user_pinned req \<and> length (la_chain la) = 1
                    then r1\<lparr> fr_warnings := fr_warnings r1 @ [pinned_hint (hd (la_chain la)) (la_reason la)] \<rparr>
                    else r1);
              r3 = (if looks_like_generic_bot_wall (le_lib env) (fr_html r2) \<and> fr_wall r2 = None
                    then r2\<lparr> fr_wall :=
                      block_of ''generic_block'' ''anti-bot wall that no renderer tier could clear'' \<rparr>
                    else r2)
          in Inr r3))"

definition chrome_first :: "tier \<Rightarrow> nat" where
  "chrome_first t =
    (if tier_name t = ''chrome'' then 0 else if tier_name t = ''chrome_proxy'' then 1 else 2)"

definition ladder_tiers :: "ladder_env \<Rightarrow> renderer \<Rightarrow> js_request \<Rightarrow> world \<Rightarrow> tier list" where
  "ladder_tiers env rd req w =
    (let rs = (case jr_requested req of
                 Some name \<Rightarrow> if name \<noteq> ''auto'' then filter (\<lambda>t. tier_name t = name) (rd_js rd) else rd_js rd
               | None \<Rightarrow> rd_js rd)
     in if \<not> is_user_pinned req
           \<and> prefs_preferred (le_psl env) (host_of env (jr_url req)) (prefs_of w) = Some Chrome
        then sort_key chrome_first rs else rs)"

definition not_in_pool :: "renderer \<Rightarrow> js_request \<Rightarrow> crw_error" where
  "not_in_pool rd req =
    RendererError (''requested renderer '' @ [CHR 0x27]
      @ (case jr_requested req of Some n \<Rightarrow> n | None \<Rightarrow> ''auto'') @ [CHR 0x27] @ '' not in pool [''
      @ join_with '', '' (map tier_name (rd_js rd)) @ '']'')"

text \<open>The condition of the leak-through attempt reads the clock last.\<close>

definition wants_leak :: "ladder_env \<Rightarrow> js_request \<Rightarrow> ladder \<Rightarrow> world \<Rightarrow> bool \<times> world" where
  "wants_leak env req la w =
    (if la_thin la = None \<and> la_skipped la \<noteq> [] \<and> \<not> is_user_pinned req then
       (let (budget, w1) = read_budget env req w in (min_tier_budget \<le> budget, w1))
     else (False, w))"

definition fetch_with_js ::
    "ladder_env \<Rightarrow> renderer \<Rightarrow> js_request \<Rightarrow> bool \<Rightarrow> world \<Rightarrow> ((crw_error + fetched) \<times> world) option" where
  "fetch_with_js env rd req challenge_hint w =
    (let host = host_of env (jr_url req);
         ts = ladder_tiers env rd req w
     in if ts = [] then Some (Inl (not_in_pool rd req), w)
        else do {
          (res, la, w1) \<leftarrow> run_tiers env rd req host ts (ladder_new challenge_hint) w;
          (case res of
             Some r \<Rightarrow> Some (Inr r, w1)
           | None \<Rightarrow>
               (let (leak, w2) = wants_leak env req la w1
                in if \<not> leak then Some (ladder_result env req la, w2)
                   else do {
                     (res2, la2, w3) \<leftarrow> leak_tiers env rd req host ts la w2;
                     Some (case res2 of Some r \<Rightarrow> Inr r | None \<Rightarrow> ladder_result env req la2, w3)
                   }))
        })"

end
