(* ===== verification/Renderer.thy ===== *)
theory Renderer
  imports Ladder "HOL-Library.AList"
begin

section \<open>The fetch of a page\<close>

text \<open>
  \<open>FallbackRenderer::fetch\<close> of \<open>crates/crw-renderer/src/lib.rs\<close>: the per-host permit, the plain
  HTTP tier with reuse of clearance cookies, the hop through the impersonating HTTP client, the
  decision to escalate to the browser ladder, and the choice between the ladder's result and the
  HTTP body when the ladder fails.
\<close>

subsection \<open>The HTTP tier\<close>

definition with_shared :: "shared \<Rightarrow> world \<Rightarrow> world" where
  "with_shared sh w = w\<lparr> w_shared := sh \<rparr>"

definition caller_identifies :: "headers \<Rightarrow> bool" where
  "caller_identifies hs =
    list_ex (\<lambda>(k, v). eq_ignore_ascii_case k ''cookie'' \<or> eq_ignore_ascii_case k ''user-agent'') hs"

definition clearance_for ::
    "ladder_env \<Rightarrow> renderer \<Rightarrow> string \<Rightarrow> headers \<Rightarrow> world \<Rightarrow> (string \<times> clearance) option \<times> world" where
  "clearance_for env rd url hs w =
    (if rd_http_has_proxy rd then (None, w)
     else if caller_identifies hs then (None, w)
     else case le_host env url of
       None \<Rightarrow> (None, w)
     | Some host \<Rightarrow>
         if should_proxy (le_psl env) host (sh_egress (w_shared w)) then (None, w)
         else
           (let (now, w1) = read_clock env w;
                (found, cache) = clearance_get (le_psl env) now host (sh_clearance (w_shared w1));
                w2 = with_shared ((w_shared w1)\<lparr> sh_clearance := cache \<rparr>) w1
            in case found of
                 Some c \<Rightarrow> if covers c host then (Some (host, c), w2) else (None, w2)
               | None \<Rightarrow> (None, w2)))"

definition inject_clearance :: "string \<Rightarrow> clearance \<Rightarrow> headers \<Rightarrow> headers" where
  "inject_clearance host c hs =
    AList.update ''User-Agent'' (cl_user_agent c) (AList.update ''Cookie'' (cookie_header c host) hs)"

definition challenged :: "text_lib \<Rightarrow> fetched \<Rightarrow> bool" where
  "challenged lib r =
    (fr_warning r = Some ''cloudflare_mitigated'' \<or> looks_like_cloudflare_challenge lib (fr_html r))"

definition http_fetch ::
    "ladder_env \<Rightarrow> renderer \<Rightarrow> string \<Rightarrow> headers \<Rightarrow> deadline \<Rightarrow> world \<Rightarrow> (crw_error + fetched) \<times> world" where
  "http_fetch env rd url hs d w =
    (let (entry, w1) = clearance_for env rd url hs w
     in case entry of
          None \<Rightarrow> call_tier env (rd_http rd) url hs None d None w1
        | Some (host, c) \<Rightarrow>
            (case call_tier env (rd_http rd) url (inject_clearance host c hs) None d None w1 of
               (Inl e, w2) \<Rightarrow> (Inl e, w2)
             | (Inr r, w2) \<Rightarrow>
                 (Inr r,
                  if challenged (le_lib env) r
                  then with_shared ((w_shared w2)\<lparr> sh_clearance :=
                    clearance_invalidate (le_psl env) host (sh_clearance (w_shared w2)) \<rparr>) w2
                  else w2)))"

subsection \<open>The impersonating tier\<close>

definition antibot_signal_of :: "ladder_env \<Rightarrow> renderer \<Rightarrow> nat \<Rightarrow> string \<Rightarrow> antibot_signal" where
  "antibot_signal_of env rd s html =
    (if acfg_enabled (rd_antibot rd) then ab_signal (classify (le_lib env) (Some s) html) else SigNone)"

definition impersonation_blocked :: "fetched \<Rightarrow> js_body_checks \<Rightarrow> bool" where
  "impersonation_blocked r c =
    (if fr_warning r \<in> {Some ''cloudflare_mitigated'', Some ''waf_challenge''} then True
     else is_hard_block_status (fr_status r) \<or> jb_bot_wall c \<or> jb_vendor_block c \<noteq> None
       \<or> jb_cf_challenge c
       \<or> (is_blocked (ab_signal (jb_antibot c)) \<and> ab_signal (jb_antibot c) \<noteq> SigStructuralFailure))"

definition impersonation_accepted :: "ladder_env \<Rightarrow> renderer \<Rightarrow> fetched \<Rightarrow> bool" where
  "impersonation_accepted env rd r =
    (let checks = assess (le_lib env) (rd_antibot rd) r
     in if impersonation_blocked r checks \<or> \<not> accepted checks then False
        else \<not> needs_js_rendering (le_lib env) (fr_html r)
          \<and> \<not> (looks_like_thin_html (le_lib env) (fr_html r)
               \<and> warrants_browser_retry (le_lib env) (fr_html r)))"

datatype impersonated_trigger = Wall | Transport

text \<open>The deadline of the hop: half of what is left when there is a ladder to leave time for.\<close>

definition hop_deadline ::
    "ladder_env \<Rightarrow> renderer \<Rightarrow> js_request \<Rightarrow> world \<Rightarrow> deadline option \<times> world" where
  "hop_deadline env rd req w =
    (let (left, w1) = read_budget env req w
     in if left < min_tier_budget then (None, w1)
        else if rd_js rd = [] then (Some (jr_deadline req), w1)
        else if left div 2 < min_tier_budget then (None, w1)
        else (let (now, w2) = read_clock env w1 in (Some (now_plus now (left div 2)), w2)))"

definition try_impersonated_hop ::
    "ladder_env \<Rightarrow> renderer \<Rightarrow> js_request \<Rightarrow> impersonated_trigger \<Rightarrow> world \<Rightarrow> fetched option \<times> world" where
  "try_impersonated_hop env rd req trigger w =
    (case rd_impersonated rd of
       None \<Rightarrow> (None, w)
     | Some t \<Rightarrow>
         (let (hop, w1) = hop_deadline env rd req w
          in case hop of
               None \<Rightarrow> (None, w1)
             | Some d \<Rightarrow>
                 (case call_tier env t (jr_url req) (jr_headers req) None d None w1 of
                    (Inl e, w2) \<Rightarrow> (None, w2)
                  | (Inr r, w2) \<Rightarrow>
                      if impersonation_accepted env rd r
                      then (Some (r\<lparr> fr_credit_cost := credit_for ImpersonatedHttp,
                              fr_meta := Some (Failover [Http, ImpersonatedHttp]
                                (case trigger of Wall \<Rightarrow> VendorBlock | Transport \<Rightarrow> NetworkError)) \<rparr>), w2)
                      else (None, w2))))"

definition thin_pin_warning :: "nat \<Rightarrow> string" where
  "thin_pin_warning n =
    ''Pinned renderer '' @ [CHR 0x27] @ ''impersonated-http'' @ [CHR 0x27]
    @ '' returned thin content (text_len='' @ dec_digits n
    @ ''). Omit the renderer field for auto-failover.''"

definition fetch_pinned_impersonated ::
    "ladder_env \<Rightarrow> renderer \<Rightarrow> js_request \<Rightarrow> world \<Rightarrow> (crw_error + fetched) \<times> world" where
  "fetch_pinned_impersonated env rd req w =
    (case rd_impersonated rd of
       None \<Rightarrow>
         (Inl (RendererError ''the impersonated-http tier is not available in this build or config''), w)
     | Some t \<Rightarrow>
         (case call_tier env t (jr_url req) (jr_headers req) (jr_wait req) (jr_deadline req) None w of
            (Inl e, w1) \<Rightarrow> (Inl e, w1)
          | (Inr r, w1) \<Rightarrow>
              if impersonation_blocked r (assess (le_lib env) (rd_antibot rd) r) then
                (Inl (RendererError (''impersonated-http: the response carries an anti-bot block ''
                   @ ''(vendor wall class); the pinned tier refuses to bill it as a success'')), w1)
              else
                (let n = html_body_text_len (fr_html r);
                     r1 = (if fr_content_type r \<noteq> Some ''application/pdf'' \<and> n < min_rendered_text_len
                           then r\<lparr> fr_warnings := fr_warnings r @ [thin_pin_warning n] \<rparr> else r)
                 in (Inr (r1\<lparr> fr_credit_cost := credit_for ImpersonatedHttp,
                              fr_meta := Some (UserPinned ImpersonatedHttp) \<rparr>), w1))))"

subsection \<open>Escalation\<close>

definition pick_error :: "crw_error \<Rightarrow> crw_error \<Rightarrow> crw_error" where
  "pick_error http_err js_err =
    (if is_target_unreachable http_err \<and> is_origin_navigation_failure js_err then http_err else js_err)"

definition escalate_after_http_failure ::
    "ladder_env \<Rightarrow> renderer \<Rightarrow> js_request \<Rightarrow> crw_error \<Rightarrow> world \<Rightarrow>
     ((crw_error + fetched) \<times> world) option" where
  "escalate_after_http_failure env rd req http_err w =
    do {
      (res, w1) \<leftarrow> fetch_with_js env rd req False w;
      Some (case res of Inr r \<Rightarrow> Inr r | Inl js_err \<Rightarrow> Inl (pick_error http_err js_err), w1)
    }"

definition js_escalation_failed :: string where
  "js_escalation_failed = ''js_escalation_failed:''"

definition escalation_warning :: "crw_error \<Rightarrow> string option \<Rightarrow> string option" where
  "escalation_warning e prev =
    (let warning = js_escalation_failed @ '' '' @ error_text e
     in Some (case prev of Some p \<Rightarrow> warning @ ''; '' @ p | None \<Rightarrow> warning))"

definition fall_back :: "js_request \<Rightarrow> crw_error \<Rightarrow> fetched \<Rightarrow> fetched" where
  "fall_back req e r =
    stamp_http_decision (r\<lparr> fr_warning := escalation_warning e (fr_warning r) \<rparr>) (jr_requested req)"

text \<open>The ladder's result, or the HTTP body in its place unless a pin or a wall forbids it.\<close>

definition settle ::
    "ladder_env \<Rightarrow> js_request \<Rightarrow> fetched \<Rightarrow> (crw_error \<Rightarrow> fetched) \<Rightarrow> crw_error + fetched \<Rightarrow>
     crw_error + fetched" where
  "settle env req http_result substitute js =
    (case demote_wall_to_ladder_failure (le_lib env) js (fr_html http_result) (\<not> is_user_pinned req) of
       Inr r \<Rightarrow> Inr r
     | Inl e \<Rightarrow>
         if is_user_pinned req \<or> looks_like_generic_bot_wall (le_lib env) (fr_html http_result)
         then Inl e else Inr (substitute e))"

definition is_pdf :: "fetched \<Rightarrow> bool" where
  "is_pdf r = (fr_content_type r = Some ''application/pdf'')"

definition url_path_is_pdf :: "ladder_env \<Rightarrow> string \<Rightarrow> bool" where
  "url_path_is_pdf env url =
    (case le_path env url of Some p \<Rightarrow> suffix ''.pdf'' (to_ascii_lowercase p) | None \<Rightarrow> False)"

definition http_only_fallback :: "js_request \<Rightarrow> fetched \<Rightarrow> fetched" where
  "http_only_fallback req r =
    stamp_http_decision
      (r\<lparr> fr_rendered_with := Some ''http_only_fallback'',
          fr_warning := Some (''JS rendering was requested but no renderer is available. ''
            @ ''Content was fetched via HTTP only.''),
          fr_warnings := fr_warnings r
            @ [''JS rendering requested but no renderer available; HTTP fallback used''] \<rparr>)
      (jr_requested req)"

text \<open>The arm of a request that asks for JavaScript.\<close>

definition fetch_forced ::
    "ladder_env \<Rightarrow> renderer \<Rightarrow> js_request \<Rightarrow> world \<Rightarrow> ((crw_error + fetched) \<times> world) option" where
  "fetch_forced env rd req w =
    (case http_fetch env rd (jr_url req) (jr_headers req) (jr_deadline req) w of
       (Inl e, w1) \<Rightarrow>
         if rd_js rd \<noteq> [] \<and> \<not> is_unrenderable_body_error e
         then escalate_after_http_failure env rd req e w1 else Some (Inl e, w1)
     | (Inr r, w1) \<Rightarrow>
         if is_pdf r then Some (Inr (stamp_http_decision r (jr_requested req)), w1)
         else if rd_js rd = [] then Some (Inr (http_only_fallback req r), w1)
         else do {
           let (started, w2) = read_clock env w1;
           let hint = (challenged (le_lib env) r \<or> looks_like_generic_bot_wall (le_lib env) (fr_html r));
           (js, w3) \<leftarrow> fetch_with_js env rd req hint w2;
           let (ended, w4) = read_clock env w3;
           let spent = min (fr_elapsed_ms r + as_millis (since ended started)) u64_max;
           Some (settle env req r (\<lambda>e. fall_back req e (r\<lparr> fr_elapsed_ms := spent \<rparr>)) js, w4)
         })"

text \<open>The signals of the auto mode, read off the HTTP result.\<close>

definition cf_header_signal :: "js_request \<Rightarrow> fetched \<Rightarrow> bool" where
  "cf_header_signal req r =
    (fr_warning r = Some ''cloudflare_mitigated''
     \<or> (fr_warning r = Some ''waf_challenge'' \<and> \<not> is_user_pinned req))"

definition blocked_response :: "ladder_env \<Rightarrow> js_request \<Rightarrow> fetched \<Rightarrow> bool" where
  "blocked_response env req r =
    (cf_header_signal req r \<or> looks_like_cloudflare_challenge (le_lib env) (fr_html r)
     \<or> looks_like_generic_bot_wall (le_lib env) (fr_html r))"

definition is_2xx :: "fetched \<Rightarrow> bool" where
  "is_2xx r = (200 \<le> fr_status r \<and> fr_status r < 300)"

definition is_thin_content :: "ladder_env \<Rightarrow> fetched \<Rightarrow> bool" where
  "is_thin_content env r =
    (is_2xx r \<and> looks_like_thin_html (le_lib env) (fr_html r)
     \<and> warrants_browser_retry (le_lib env) (fr_html r))"

definition is_empty_2xx :: "js_request \<Rightarrow> fetched \<Rightarrow> bool" where
  "is_empty_2xx req r =
    (is_2xx r \<and> \<not> is_user_pinned req \<and> \<not> (204 \<le> fr_status r \<and> fr_status r \<le> 206)
     \<and> is_html_like_content_type (fr_content_type r) \<and> trim (fr_html r) = [])"

definition would_escalate :: "ladder_env \<Rightarrow> js_request \<Rightarrow> fetched \<Rightarrow> bool" where
  "would_escalate env req r =
    (needs_js_rendering (le_lib env) (fr_html r) \<or> blocked_response env req r
     \<or> soft_block_warrants_js (le_lib env) (fr_status r) (fr_html r) \<or> is_thin_content env r
     \<or> is_empty_2xx req r)"

definition is_document_verdict :: "ladder_env \<Rightarrow> js_request \<Rightarrow> fetched \<Rightarrow> bool" where
  "is_document_verdict env req r =
    (\<not> is_user_pinned req \<and> 400 \<le> fr_status r
     \<and> url_path_is_pdf env (case fr_final_url r of Some u \<Rightarrow> u | None \<Rightarrow> jr_url req)
     \<and> \<not> looks_like_cloudflare_challenge (le_lib env) (fr_html r) \<and> \<not> cf_header_signal req r)"

definition wants_wall_hop :: "ladder_env \<Rightarrow> renderer \<Rightarrow> js_request \<Rightarrow> fetched \<Rightarrow> bool" where
  "wants_wall_hop env rd req r =
    (rd_impersonated rd \<noteq> None \<and> (blocked_response env req r \<or> is_hard_block_status (fr_status r))
     \<and> \<not> is_fingerprint_vendor_wall
         (cf_header_signal req r \<or> looks_like_cloudflare_challenge (le_lib env) (fr_html r))
         (looks_like_vendor_block (le_lib env) (fr_html r))
         (antibot_signal_of env rd (fr_status r) (fr_html r)))"

definition auto_result ::
    "ladder_env \<Rightarrow> renderer \<Rightarrow> js_request \<Rightarrow> fetched \<Rightarrow> world \<Rightarrow> ((crw_error + fetched) \<times> world) option" where
  "auto_result env rd req r w =
    (if rd_js rd \<noteq> [] \<and> \<not> is_document_verdict env req r \<and> would_escalate env req r then
       do {
         (js, w1) \<leftarrow> fetch_with_js env rd req (blocked_response env req r) w;
         Some (settle env req r (\<lambda>e. fall_back req e r) js, w1)
       }
     else Some (Inr (stamp_http_decision r (jr_requested req)), w))"

text \<open>The arm of a request that leaves the choice to the renderer.\<close>

definition fetch_auto ::
    "ladder_env \<Rightarrow> renderer \<Rightarrow> js_request \<Rightarrow> world \<Rightarrow> ((crw_error + fetched) \<times> world) option" where
  "fetch_auto env rd req w =
    (case http_fetch env rd (jr_url req) (jr_headers req) (jr_deadline req) w of
       (Inl e, w1) \<Rightarrow>
         (let (hop, w2) = (if fingerprint_shaped_error e then try_impersonated_hop env rd req Transport w1
                           else (None, w1))
          in case hop of
               Some r \<Rightarrow> Some (Inr r, w2)
             | None \<Rightarrow>
                 if rd_js rd \<noteq> [] \<and> \<not> is_unrenderable_body_error e
                 then escalate_after_http_failure env rd req e w2 else Some (Inl e, w2))
     | (Inr r, w1) \<Rightarrow>
         if is_pdf r then Some (Inr (stamp_http_decision r (jr_requested req)), w1)
         else
           (let (hop, w2) = (if wants_wall_hop env rd req r then try_impersonated_hop env rd req Wall w1
                             else (None, w1))
            in case hop of Some h \<Rightarrow> Some (Inr h, w2) | None \<Rightarrow> auto_result env rd req r w2))"

definition fetch_plain ::
    "ladder_env \<Rightarrow> renderer \<Rightarrow> js_request \<Rightarrow> world \<Rightarrow> (crw_error + fetched) \<times> world" where
  "fetch_plain env rd req w =
    (case http_fetch env rd (jr_url req) (jr_headers req) (jr_deadline req) w of
       (Inl e, w1) \<Rightarrow> (Inl e, w1)
     | (Inr r, w1) \<Rightarrow> (Inr (stamp_http_decision r (jr_requested req)), w1))"

definition fetch_dispatch ::
    "ladder_env \<Rightarrow> renderer \<Rightarrow> js_request \<Rightarrow> bool option \<Rightarrow> world \<Rightarrow>
     ((crw_error + fetched) \<times> world) option" where
  "fetch_dispatch env rd req render_js w =
    (if jr_requested req = Some ''impersonated-http'' then Some (fetch_pinned_impersonated env rd req w)
     else case resolve_render_js render_js (rd_render_js_default rd) of
       Some False \<Rightarrow> Some (fetch_plain env rd req w)
     | Some True \<Rightarrow> fetch_forced env rd req w
     | None \<Rightarrow> fetch_auto env rd req w)"

subsection \<open>The permit\<close>

datatype admission = Admitted nat | Refused crw_error

definition admit ::
    "ladder_env \<Rightarrow> renderer \<Rightarrow> js_request \<Rightarrow> string \<Rightarrow> world \<Rightarrow> admission \<times> world" where
  "admit env rd req key w =
    (let timed_out = Refused (Timeout (dl_requested_ms (jr_deadline req)));
         (left, w1) = read_budget env req w
     in if left = 0 then (timed_out, w1)
        else
          (let (now, w2) = read_clock env w1;
               (a, lims) = get_host_limiter (le_interval env) now key (rd_requests_per_second rd)
                 (rd_per_host_max_concurrent rd) (sh_limiters (w_shared w2));
               w3 = with_shared (le_waiting env ((w_shared w2)\<lparr> sh_limiters := lims \<rparr>)) w2;
               (now1, w4) = read_clock env w3;
               (now2, w5) = read_clock env w4
           in case take_permit now1 now2 a (sh_limiters (w_shared w5)) of
                None \<Rightarrow> (timed_out, w5)
              | Some (sleep, lims2) \<Rightarrow>
                  (let w6 = with_shared ((w_shared w5)\<lparr> sh_limiters := lims2 \<rparr>) w5
                   in if sleep = 0 then (Admitted a, w6)
                      else
                        (let (budget, w7) = read_budget env req w6
                         in if budget < sleep
                            then (Refused (Timeout (max (as_millis sleep) 1 mod 2 ^ 64)),
                              with_shared ((w_shared w7)\<lparr> sh_limiters :=
                                release_permit a (sh_limiters (w_shared w7)) \<rparr>) w7)
                            else (Admitted a, w7)))))"

definition release :: "nat \<Rightarrow> world \<Rightarrow> world" where
  "release a w =
    with_shared ((w_shared w)\<lparr> sh_limiters := release_permit a (sh_limiters (w_shared w)) \<rparr>) w"

definition fetch ::
    "ladder_env \<Rightarrow> renderer \<Rightarrow> js_request \<Rightarrow> bool option \<Rightarrow> world \<Rightarrow>
     ((crw_error + fetched) \<times> world) option" where
  "fetch env rd req render_js w =
    (case le_host env (jr_url req) of
       None \<Rightarrow> fetch_dispatch env rd req render_js w
     | Some h \<Rightarrow>
         (let (adm, w1) = admit env rd req (normalize_host (le_psl env) h) w
          in case adm of
               Refused e \<Rightarrow> Some (Inl e, w1)
             | Admitted a \<Rightarrow> do {
                 (res, w2) \<leftarrow> fetch_dispatch env rd req render_js w1;
                 Some (res, release a w2)
               }))"

end
