(* ===== verification/Ladder_Props.thy ===== *)
theory Ladder_Props
  imports Renderer Breaker_Registry_Props "HOL-Library.Code_Target_Nat"
begin

section \<open>The ladder against its specification\<close>

text \<open>
  The specification of a ladder leaves out clocks, breakers and preferences: a tier may be left
  aside for a reason, or asked once with enough budget, and what is remembered follows from its
  answer. \<open>tier_step\<close> is that relation for one tier, \<open>tiers_run\<close> and \<open>ladder_run\<close> for
  all of them; the refinement lemmas say that the code's ladder only does such steps.
\<close>

subsection \<open>The specification\<close>

definition asked :: "tier \<Rightarrow> js_request \<Rightarrow> duration \<Rightarrow> tier_call" where
  "asked t req b = \<lparr> tc_name = tier_name t, tc_headers = jr_headers req, tc_budget = Some b \<rparr>"

definition priced :: "fetched \<Rightarrow> nat \<Rightarrow> render_decision option \<Rightarrow> fetched" where
  "priced r c m = r\<lparr> fr_credit_cost := c, fr_meta := m \<rparr>"

abbreviation judged :: "ladder_env \<Rightarrow> renderer \<Rightarrow> fetched \<Rightarrow> js_body_checks" where
  "judged env rd r \<equiv> assess (le_lib env) (rd_antibot rd) r"

text \<open>The arguments are the tier, the calls made before, the memory, the calls made, the result and
  the memory after.\<close>

inductive tier_step ::
    "ladder_env \<Rightarrow> renderer \<Rightarrow> js_request \<Rightarrow> tier \<Rightarrow> nat \<Rightarrow> ladder \<Rightarrow> tier_call list \<Rightarrow> fetched option \<Rightarrow>
     ladder \<Rightarrow> bool"
  for env rd req t n la
where
  idle: "is_idle_solver t la \<Longrightarrow> tier_step env rd req t n la [] None la"
| starved: "tier_step env rd req t n la [] None (skip_starved req la)"
| tripped: "\<not> is_idle_solver t la \<Longrightarrow> renderer_kind_for (tier_name t) = Some k \<Longrightarrow>
    tier_step env rd req t n la [] None (note_skip k la)"
| accepts: "\<not> is_idle_solver t la \<Longrightarrow> min_tier_budget \<le> b \<Longrightarrow> answer t n req = Inr r \<Longrightarrow>
    accepted (judged env rd r) \<Longrightarrow>
    tier_step env rd req t n la [asked t req b] (Some (priced r c m)) (enter_chain t la)"
| rejects: "\<not> is_idle_solver t la \<Longrightarrow> min_tier_budget \<le> b \<Longrightarrow> answer t n req = Inr r \<Longrightarrow>
    \<not> accepted (judged env rd r) \<Longrightarrow>
    tier_step env rd req t n la [asked t req b] None
      (note_rejection t (judged env rd r) r (enter_chain t la))"
| fails: "\<not> is_idle_solver t la \<Longrightarrow> min_tier_budget \<le> b \<Longrightarrow> answer t n req = Inl e \<Longrightarrow>
    tier_step env rd req t n la [asked t req b] None (note_error e (enter_chain t la))"

inductive tiers_run ::
    "ladder_env \<Rightarrow> renderer \<Rightarrow> js_request \<Rightarrow> tier list \<Rightarrow> nat \<Rightarrow> ladder \<Rightarrow> tier_call list \<Rightarrow>
     fetched option \<Rightarrow> ladder \<Rightarrow> bool"
  for env rd req
where
  none_left: "tiers_run env rd req [] n la [] None la"
| ends: "tier_step env rd req t n la cs (Some r) la1 \<Longrightarrow> tiers_run env rd req (t # ts) n la cs (Some r) la1"
| goes_on: "tier_step env rd req t n la cs None la1 \<Longrightarrow>
    tiers_run env rd req ts (n + length cs) la1 cs' res la2 \<Longrightarrow>
    tiers_run env rd req (t # ts) n la (cs @ cs') res la2"

text \<open>The leak-through attempt asks at most one of the tiers that were skipped.\<close>

inductive leak_run ::
    "ladder_env \<Rightarrow> renderer \<Rightarrow> js_request \<Rightarrow> tier list \<Rightarrow> nat \<Rightarrow> ladder \<Rightarrow> tier_call list \<Rightarrow>
     fetched option \<Rightarrow> ladder \<Rightarrow> bool"
  for env rd req ts n la
where
  no_leak: "leak_run env rd req ts n la [] None la"
| leak_accepts: "t \<in> set ts \<Longrightarrow> renderer_kind_for (tier_name t) = Some k \<Longrightarrow> k \<in> set (la_skipped la) \<Longrightarrow>
    min_tier_budget \<le> b \<Longrightarrow> answer t n req = Inr r \<Longrightarrow> accepted (judged env rd r) \<Longrightarrow>
    leak_run env rd req ts n la [asked t req b] (Some (priced r c m)) la"
| leak_rejects: "t \<in> set ts \<Longrightarrow> renderer_kind_for (tier_name t) = Some k \<Longrightarrow> k \<in> set (la_skipped la) \<Longrightarrow>
    min_tier_budget \<le> b \<Longrightarrow> answer t n req = Inr r \<Longrightarrow> \<not> accepted (judged env rd r) \<Longrightarrow>
    leak_run env rd req ts n la [asked t req b] None (note_leak_rejection t (judged env rd r) r la)"
| leak_fails: "t \<in> set ts \<Longrightarrow> renderer_kind_for (tier_name t) = Some k \<Longrightarrow> k \<in> set (la_skipped la) \<Longrightarrow>
    min_tier_budget \<le> b \<Longrightarrow> answer t n req = Inl e \<Longrightarrow>
    leak_run env rd req ts n la [asked t req b] None (la\<lparr> la_error := Some e \<rparr>)"

inductive ladder_run ::
    "ladder_env \<Rightarrow> renderer \<Rightarrow> js_request \<Rightarrow> tier list \<Rightarrow> bool \<Rightarrow> nat \<Rightarrow> tier_call list \<Rightarrow>
     crw_error + fetched \<Rightarrow> bool"
  for env rd req ts hint n
where
  empty_pool: "ts = [] \<Longrightarrow> ladder_run env rd req ts hint n [] (Inl (not_in_pool rd req))"
| accepts_first: "tiers_run env rd req ts n (ladder_new hint) cs (Some r) la \<Longrightarrow>
    ladder_run env rd req ts hint n cs (Inr r)"
| exhausted: "tiers_run env rd req ts n (ladder_new hint) cs None la \<Longrightarrow>
    leak_run env rd req ts (n + length cs) la cs' None la' \<Longrightarrow>
    (cs' \<noteq> [] \<Longrightarrow> la_thin la = None \<and> \<not> is_user_pinned req) \<Longrightarrow>
    ladder_run env rd req ts hint n (cs @ cs') (ladder_result env req la')"
| leaks: "tiers_run env rd req ts n (ladder_new hint) cs None la \<Longrightarrow>
    leak_run env rd req ts (n + length cs) la cs' (Some r) la' \<Longrightarrow>
    la_thin la = None \<Longrightarrow> \<not> is_user_pinned req \<Longrightarrow>
    ladder_run env rd req ts hint n (cs @ cs') (Inr r)"

inductive_cases tiers_run_Nil: "tiers_run env rd req [] n la cs res la'"
inductive_cases tiers_run_Cons: "tiers_run env rd req (t # ts) n la cs res la'"

subsection \<open>Refinement\<close>

text \<open>What the operations around a call do to the log of calls.\<close>

named_theorems call_log \<open>effect on the log of tier calls\<close>

lemma read_clock_calls [call_log]: "w_calls (snd (read_clock env w)) = w_calls w"
  by (simp add: read_clock_def)

lemma read_budget_calls [call_log]: "w_calls (snd (read_budget env req w)) = w_calls w"
  by (simp add: read_budget_def read_clock_def)

lemma with_calls [call_log]:
  "w_calls (with_breakers reg w) = w_calls w" "w_calls (with_prefs p w) = w_calls w"
  "w_calls (with_shared sh w) = w_calls w"
  by (simp_all add: with_breakers_def with_prefs_def with_shared_def)

lemma drop_guard_calls [call_log]: "w_calls (drop_guard g w) = w_calls w"
  by (simp add: drop_guard_def call_log split: option.splits)

lemma acquire_tier_calls: "acquire_tier env host k w = Some (pg, w') \<Longrightarrow> w_calls w' = w_calls w"
  by (auto simp: acquire_tier_def Let_def split_beta call_log split: bind_splits)

lemma record_scoped_calls: "record_scoped env host k g h w = Some w' \<Longrightarrow> w_calls w' = w_calls w"
  by (auto simp: record_scoped_def Let_def split_beta call_log split: bind_splits)

lemma record_both_calls: "record_both env host k out w = Some w' \<Longrightarrow> w_calls w' = w_calls w"
  by (auto simp: record_both_def Let_def split_beta call_log split: bind_splits)

lemma note_failure_calls [call_log]: "w_calls (note_failure env host k e w) = w_calls w"
  by (simp add: note_failure_def Let_def split_beta call_log)

lemma acquire_host_only_calls [call_log]: "w_calls (snd (acquire_host_only env host k w)) = w_calls w"
  by (simp add: acquire_host_only_def Let_def split_beta call_log)

lemma tier_accepted_spec:
  assumes "tier_accepted env req host t la r w = Some (r', w')"
  shows "(\<exists>c m. r' = priced r c m) \<and> w_calls w' = w_calls w"
proof -
  have "\<exists>c m. r = r\<lparr> fr_credit_cost := c, fr_meta := m \<rparr>"
    by (intro exI [of _ "fr_credit_cost r"] exI [of _ "fr_meta r"]) simp
  with assms show ?thesis
    by (auto simp: tier_accepted_def priced_def call_log dest: record_both_calls
        split: bind_splits option.splits)
qed

lemma tier_rejected_spec:
  "tier_rejected env rd host t ctx body r la w = Some (la', w') \<Longrightarrow>
    la' = note_rejection t body r la \<and> w_calls w' = w_calls w"
  by (auto simp: tier_rejected_def call_log dest: record_scoped_calls split: bind_splits option.splits)

lemma tier_failed_spec:
  "tier_failed env host t ctx e la w = Some (la', w') \<Longrightarrow>
    la' = note_error e la \<and> w_calls w' = w_calls w"
  by (auto simp: tier_failed_def Let_def call_log dest: record_scoped_calls
      split: bind_splits option.splits)

lemma call_tier_spec:
  "call_tier env t (jr_url req) (jr_headers req) (jr_wait req) (jr_deadline req) (Some b) w = (a, w') \<Longrightarrow>
    a = answer t (length (w_calls w)) req \<and> w_calls w' = w_calls w @ [asked t req b]"
  by (auto simp: call_tier_def Let_def answer_def asked_def)

lemma attempt_tier_spec:
  assumes "attempt_tier env rd req host t b la w = Some (res, la', w')"
    and "\<not> is_idle_solver t la" and "min_tier_budget \<le> b"
  shows "\<exists>cs. tier_step env rd req t (length (w_calls w)) la cs res la' \<and> w_calls w' = w_calls w @ cs"
proof -
  obtain budget w1 where b: "read_budget env req w = (budget, w1)" by fastforce
  then have l1: "w_calls w1 = w_calls w" using read_budget_calls [of env req w] by simp
  obtain a w2 where c: "call_tier env t (jr_url req) (jr_headers req) (jr_wait req) (jr_deadline req) (Some b) w1 = (a, w2)"
    by fastforce
  then have a: "a = answer t (length (w_calls w)) req" and l2: "w_calls w2 = w_calls w @ [asked t req b]"
    using call_tier_spec l1 by metis+
  show ?thesis
  proof (cases a)
    case (Inl e)
    then have "la' = note_error e (enter_chain t la)" and "res = None" and "w_calls w' = w_calls w2"
      using assms(1) b c by (auto simp: attempt_tier_def dest!: tier_failed_spec split: bind_splits)
    moreover have "tier_step env rd req t (length (w_calls w)) la [asked t req b] None
        (note_error e (enter_chain t la))"
      using assms(2,3) a Inl by (auto intro: tier_step.fails)
    ultimately show ?thesis using l2 by (intro exI [of _ "[asked t req b]"]) simp
  next
    case (Inr r)
    show ?thesis
    proof (cases "accepted (judged env rd r)")
      case True
      then obtain r' where r: "res = Some r'" "tier_accepted env req host t (enter_chain t la) r w2 = Some (r', w')"
          and la: "la' = enter_chain t la"
        using assms(1) b c Inr by (auto simp: attempt_tier_def Let_def split: bind_splits)
      obtain co m where "r' = priced r co m" and "w_calls w' = w_calls w2"
        using tier_accepted_spec [OF r(2)] by blast
      then show ?thesis using assms(2,3) a Inr True r(1) la l2 by (auto intro: tier_step.accepts)
    next
      case False
      then have "la' = note_rejection t (judged env rd r) r (enter_chain t la)" and "res = None"
          and "w_calls w' = w_calls w2"
        using assms(1) b c Inr by (auto simp: attempt_tier_def Let_def dest!: tier_rejected_spec split: bind_splits)
      moreover have "tier_step env rd req t (length (w_calls w)) la [asked t req b] None
          (note_rejection t (judged env rd r) r (enter_chain t la))"
        using assms(2,3) a Inr False by (auto intro: tier_step.rejects)
      ultimately show ?thesis using l2 by (intro exI [of _ "[asked t req b]"]) simp
    qed
  qed
qed

lemma admitted_tier_spec:
  assumes "admitted_tier env rd req host t g la w = Some (res, la', w')" and "\<not> is_idle_solver t la"
  shows "\<exists>cs. tier_step env rd req t (length (w_calls w)) la cs res la' \<and> w_calls w' = w_calls w @ cs"
proof -
  obtain b w1 where b: "read_budget env req w = (b, w1)" by fastforce
  then have l: "w_calls w1 = w_calls w" using read_budget_calls [of env req w] by simp
  show ?thesis
  proof (cases "b < min_tier_budget")
    case True
    then show ?thesis using assms(1) b l by (auto simp: admitted_tier_def call_log intro: tier_step.starved)
  next
    case False
    then have "attempt_tier env rd req host t b la w1 = Some (res, la', w')"
      using assms(1) b by (simp add: admitted_tier_def)
    from attempt_tier_spec [OF this assms(2)] show ?thesis using False l by simp
  qed
qed

lemma trackable_kind: "trackable host t = Some k \<Longrightarrow> renderer_kind_for (tier_name t) = Some k"
  by (simp add: trackable_def split: if_splits)

lemma run_tier_spec:
  assumes "run_tier env rd req host t la w = Some (res, la', w')"
  shows "\<exists>cs. tier_step env rd req t (length (w_calls w)) la cs res la' \<and> w_calls w' = w_calls w @ cs"
proof (cases "is_idle_solver t la")
  case True
  then show ?thesis using assms by (auto simp: run_tier_def intro: tier_step.idle)
next
  case busy: False
  obtain b w1 where b: "read_budget env req w = (b, w1)" by fastforce
  then have l: "w_calls w1 = w_calls w" using read_budget_calls [of env req w] by simp
  show ?thesis
  proof (cases "b < min_tier_budget")
    case True
    then show ?thesis using assms b l busy by (auto simp: run_tier_def intro: tier_step.starved)
  next
    case False
    show ?thesis
    proof (cases "trackable host t")
      case None
      then have "admitted_tier env rd req host t None la w1 = Some (res, la', w')"
        using assms b busy False by (simp add: run_tier_def)
      from admitted_tier_spec [OF this busy] show ?thesis using l by simp
    next
      case (Some k)
      then obtain p g w2 where q: "acquire_tier env host k w1 = Some ((p, g), w2)"
        and rest: "(if p = Rejected then Some (None, note_skip k la, drop_guard (Some g) w2)
           else admitted_tier env rd req host t (Some g) la w2) = Some (res, la', w')"
        using assms b busy False by (auto simp: run_tier_def split: bind_splits)
      have l2: "w_calls w2 = w_calls w" using acquire_tier_calls [OF q] l by simp
      show ?thesis
      proof (cases "p = Rejected")
        case True
        then show ?thesis using rest l2 trackable_kind [OF Some]
          by (auto simp: call_log intro: tier_step.tripped [OF busy])
      next
        case False
        then have "admitted_tier env rd req host t (Some g) la w2 = Some (res, la', w')"
          using rest by simp
        from admitted_tier_spec [OF this busy] show ?thesis using l2 by simp
      qed
    qed
  qed
qed

lemma run_tiers_spec:
  "run_tiers env rd req host ts la w = Some (res, la', w') \<Longrightarrow>
    \<exists>cs. tiers_run env rd req ts (length (w_calls w)) la cs res la' \<and> w_calls w' = w_calls w @ cs"
proof (induction ts arbitrary: la w)
  case Nil
  then show ?case by (auto intro: tiers_run.none_left)
next
  case (Cons t ts)
  then obtain r1 la1 w1 where s: "run_tier env rd req host t la w = Some (r1, la1, w1)"
    and rest: "(case r1 of Some r \<Rightarrow> Some (Some r, la1, w1) | None \<Rightarrow> run_tiers env rd req host ts la1 w1)
      = Some (res, la', w')"
    by (auto split: bind_splits)
  from run_tier_spec [OF s] obtain cs where
    cs: "tier_step env rd req t (length (w_calls w)) la cs r1 la1" and l: "w_calls w1 = w_calls w @ cs"
    by blast
  show ?case
  proof (cases r1)
    case None
    then have "run_tiers env rd req host ts la1 w1 = Some (res, la', w')" using rest by simp
    from Cons.IH [OF this] obtain cs' where
      "tiers_run env rd req ts (length (w_calls w) + length cs) la1 cs' res la'"
      "w_calls w' = w_calls w1 @ cs'"
      using l by auto
    then show ?thesis using cs None l by (auto intro: tiers_run.goes_on)
  next
    case (Some r)
    then show ?thesis using cs l rest by (auto intro: tiers_run.ends)
  qed
qed

lemma attempt_leak_spec:
  assumes "attempt_leak env rd req host t k b la w = Some (res, la', w')"
    and "t \<in> set ts" "renderer_kind_for (tier_name t) = Some k" "k \<in> set (la_skipped la)" "min_tier_budget \<le> b"
  shows "\<exists>cs. leak_run env rd req ts (length (w_calls w)) la cs res la' \<and> w_calls w' = w_calls w @ cs
    \<and> cs \<noteq> []"
proof -
  obtain budget w1 where b: "read_budget env req w = (budget, w1)" by fastforce
  then have l1: "w_calls w1 = w_calls w" using read_budget_calls [of env req w] by simp
  obtain a w2 where c: "call_tier env t (jr_url req) (jr_headers req) (jr_wait req) (jr_deadline req) (Some b) w1 = (a, w2)"
    by fastforce
  then have a: "a = answer t (length (w_calls w)) req" and l2: "w_calls w2 = w_calls w @ [asked t req b]"
    using call_tier_spec l1 by metis+
  show ?thesis
  proof (cases a)
    case (Inl e)
    then have "la' = la\<lparr> la_error := Some e \<rparr>" and "res = None" and "w_calls w' = w_calls w2"
      using assms(1) b c
      by (auto simp: attempt_leak_def Let_def dest!: record_scoped_calls split: bind_splits)
    moreover have "leak_run env rd req ts (length (w_calls w)) la [asked t req b] None (la\<lparr> la_error := Some e \<rparr>)"
      using assms(2-5) a Inl by (auto intro: leak_run.leak_fails)
    ultimately show ?thesis using l2 by (intro exI [of _ "[asked t req b]"]) simp
  next
    case (Inr r)
    show ?thesis
    proof (cases "accepted (judged env rd r)")
      case True
      then have "res = Some (priced r (credit_for k) (Some (AutoDefault k)))" and "la' = la"
          and "w_calls w' = w_calls w2"
        using assms(1) b c Inr
        by (auto simp: attempt_leak_def Let_def priced_def dest!: record_scoped_calls split: bind_splits)
      moreover have "leak_run env rd req ts (length (w_calls w)) la [asked t req b]
          (Some (priced r (credit_for k) (Some (AutoDefault k)))) la"
        using assms(2-5) a Inr True by (auto intro: leak_run.leak_accepts)
      ultimately show ?thesis using l2 by (intro exI [of _ "[asked t req b]"]) simp
    next
      case False
      then have "res = None" and "la' = note_leak_rejection t (judged env rd r) r la"
          and "w_calls w' = w_calls w2"
        using assms(1) b c Inr
        by (auto simp: attempt_leak_def Let_def dest!: record_scoped_calls split: bind_splits)
      moreover have "leak_run env rd req ts (length (w_calls w)) la [asked t req b] None
          (note_leak_rejection t (judged env rd r) r la)"
        using assms(2-5) a Inr False by (auto intro: leak_run.leak_rejects)
      ultimately show ?thesis using l2 by (intro exI [of _ "[asked t req b]"]) simp
    qed
  qed
qed

lemma leak_tiers_spec:
  "leak_tiers env rd req host us la w = Some (res, la', w') \<Longrightarrow> set us \<subseteq> set ts \<Longrightarrow>
    \<exists>cs. leak_run env rd req ts (length (w_calls w)) la cs res la' \<and> w_calls w' = w_calls w @ cs"
proof (induction us arbitrary: w)
  case Nil
  then show ?case by (auto intro: leak_run.no_leak)
next
  case (Cons t us)
  note IH = Cons.IH [OF _ subset_trans [OF _ Cons.prems(2)]]
  show ?case
  proof (cases "trackable host t")
    case None
    then show ?thesis using IH [of w] Cons.prems(1) by auto
  next
    case (Some k)
    obtain p w1 where p: "acquire_host_only env host k w = (p, w1)" by fastforce
    obtain b w2 where b: "read_budget env req w1 = (b, w2)" by fastforce
    have l1: "w_calls w1 = w_calls w" using acquire_host_only_calls [of env host k w] p by simp
    have l2: "w_calls w2 = w_calls w" using read_budget_calls [of env req w1] b l1 by simp
    consider "k \<notin> set (la_skipped la)" | "k \<in> set (la_skipped la)" "p = Rejected"
      | "k \<in> set (la_skipped la)" "p \<noteq> Rejected" "b < min_tier_budget"
      | "k \<in> set (la_skipped la)" "p \<noteq> Rejected" "min_tier_budget \<le> b" by linarith
    then show ?thesis
    proof cases
      case 1
      then show ?thesis using Some IH [of w] Cons.prems(1) by auto
    next
      case 2
      then show ?thesis using Some IH [of w1] Cons.prems(1) p l1 by auto
    next
      case 3
      then show ?thesis using Some IH [of w2] Cons.prems(1) p b l2 by auto
    next
      case 4
      then have "attempt_leak env rd req host t k b la w2 = Some (res, la', w')"
        using Some Cons.prems(1) p b by simp
      from attempt_leak_spec [OF this _ trackable_kind [OF Some] 4(1,3), of ts]
      show ?thesis using Cons.prems(2) l2 by auto
    qed
  qed
qed

lemma wants_leak_spec:
  "wants_leak env req la w = (leak, w') \<Longrightarrow>
    w_calls w' = w_calls w \<and> (leak \<longrightarrow> la_thin la = None \<and> \<not> is_user_pinned req)"
  using read_budget_calls [of env req w] by (auto simp: wants_leak_def split: if_splits prod.splits)

text \<open>The refinement: a ladder that returns has done a run of the specification.\<close>

lemma fetch_with_js_refines:
  assumes "fetch_with_js env rd req hint w = Some (res, w')"
  shows "\<exists>cs. ladder_run env rd req (ladder_tiers env rd req w) hint (length (w_calls w)) cs res
    \<and> w_calls w' = w_calls w @ cs"
proof -
  let ?ts = "ladder_tiers env rd req w" and ?host = "host_of env (jr_url req)" and ?n = "length (w_calls w)"
  show ?thesis
  proof (cases "?ts = []")
    case True
    then show ?thesis using assms by (auto simp: fetch_with_js_def Let_def intro: ladder_run.empty_pool)
  next
    case False
    then obtain r1 la w1 where m: "run_tiers env rd req ?host ?ts (ladder_new hint) w = Some (r1, la, w1)"
      using assms by (auto simp: fetch_with_js_def Let_def split: bind_splits)
    from run_tiers_spec [OF m] obtain cs where
      cs: "tiers_run env rd req ?ts ?n (ladder_new hint) cs r1 la" and l: "w_calls w1 = w_calls w @ cs" by blast
    show ?thesis
    proof (cases r1)
      case (Some r)
      then have "res = Inr r" "w' = w1"
        using assms False m by (simp_all add: fetch_with_js_def Let_def)
      then show ?thesis using cs l Some by (auto intro: ladder_run.accepts_first)
    next
      case None
      obtain leak w2 where k: "wants_leak env req la w1 = (leak, w2)" by fastforce
      note ws = wants_leak_spec [OF k]
      show ?thesis
      proof (cases leak)
        case no: False
        have "res = ladder_result env req la" "w' = w2"
          using assms False m None k no by (simp_all add: fetch_with_js_def Let_def)
        moreover have "ladder_run env rd req ?ts hint ?n (cs @ []) (ladder_result env req la)"
          by (rule ladder_run.exhausted [OF cs [unfolded None] leak_run.no_leak]) simp
        ultimately show ?thesis using l ws by auto
      next
        case True
        then obtain r2 la2 w3 where lk: "leak_tiers env rd req ?host ?ts la w2 = Some (r2, la2, w3)"
          and res: "res = (case r2 of Some r \<Rightarrow> Inr r | None \<Rightarrow> ladder_result env req la2)" "w' = w3"
          using assms False m None k
          by (auto simp: fetch_with_js_def Let_def split: bind_splits option.splits)
        from leak_tiers_spec [OF lk, of ?ts] obtain cs' where
          cs': "leak_run env rd req ?ts (?n + length cs) la cs' r2 la2" and l': "w_calls w3 = w_calls w @ cs @ cs'"
          using l ws by auto
        have "ladder_run env rd req ?ts hint ?n (cs @ cs') res"
        proof (cases r2)
          case None': None
          then show ?thesis using ladder_run.exhausted [OF cs [unfolded None] cs' [unfolded None']] res ws True by simp
        next
          case (Some r)
          then show ?thesis using ladder_run.leaks [OF cs [unfolded None] cs' [unfolded Some]] res ws True by simp
        qed
        then show ?thesis using l' res by auto
      qed
    qed
  qed
qed

subsection \<open>What the result is\<close>

text \<open>A rejected body as the ladder keeps it: some tier's page, its wall stamped, its rejection
  announced.\<close>

definition rejected_page :: "ladder_env \<Rightarrow> renderer \<Rightarrow> js_request \<Rightarrow> tier set \<Rightarrow> fetched \<Rightarrow> bool" where
  "rejected_page env rd req ts r \<longleftrightarrow>
    (\<exists>t \<in> ts. \<exists>n r0. answer t n req = Inr r0 \<and> fr_html r = fr_html r0 \<and> fr_status r = fr_status r0)
    \<and> \<not> accepted (judged env rd r) \<and> fr_wall r = body_wall (judged env rd r) \<and> fr_warning r \<noteq> None"

definition thin_ok :: "ladder_env \<Rightarrow> renderer \<Rightarrow> js_request \<Rightarrow> tier set \<Rightarrow> ladder \<Rightarrow> bool" where
  "thin_ok env rd req ts la \<longleftrightarrow> (\<forall>r. la_thin la = Some r \<longrightarrow> rejected_page env rd req ts r)"

lemma assess_same_page:
  "fr_html r = fr_html r' \<Longrightarrow> fr_status r = fr_status r' \<Longrightarrow> assess lib cfg r = assess lib cfg r'"
  by (simp add: assess_def Let_def)

lemma annotate_page [simp]:
  "fr_html (annotate w r) = fr_html r" "fr_status (annotate w r) = fr_status r"
  "fr_wall (annotate w r) = fr_wall r" "fr_warning (annotate w r) \<noteq> None"
  by (simp_all add: annotate_def append_warning_def)

lemma priced_page [simp]:
  "fr_html (priced r c m) = fr_html r" "fr_status (priced r c m) = fr_status r"
  "fr_wall (priced r c m) = fr_wall r"
  by (simp_all add: priced_def)

lemma rejected_pageI:
  assumes "t \<in> ts" and "answer t n req = Inr r" and "\<not> accepted (judged env rd r)"
  shows "rejected_page env rd req ts (annotate w (r\<lparr> fr_wall := body_wall (judged env rd r) \<rparr>))"
proof -
  have "judged env rd (annotate w (r\<lparr> fr_wall := body_wall (judged env rd r) \<rparr>)) = judged env rd r"
    by (rule assess_same_page) simp_all
  then show ?thesis using assms unfolding rejected_page_def by auto
qed

lemma rejected_page_cong:
  assumes "rejected_page env rd req ts r" and "fr_html r' = fr_html r" and "fr_status r' = fr_status r"
    and "fr_wall r' = fr_wall r" and "fr_warning r' \<noteq> None"
  shows "rejected_page env rd req ts r'"
  using assms assess_same_page [of r' r "le_lib env" "rd_antibot rd"] by (simp add: rejected_page_def)

lemma stitch_rejected:
  assumes "rejected_page env rd req ts a" and "rejected_page env rd req ts b"
  shows "rejected_page env rd req ts (stitch w a b)"
proof -
  have k: "rejected_page env rd req ts ((annotate w r)\<lparr> fr_warnings := ws \<rparr>)"
    if "rejected_page env rd req ts r" for r ws
    by (rule rejected_page_cong [OF that])
      (simp_all add: annotate_def append_warning_def)
  show ?thesis unfolding stitch_def Let_def using k [OF assms(1)] k [OF assms(2)]
    by (simp split: if_splits)
qed

lemma tier_step_thin:
  assumes "tier_step env rd req t n la cs res la'" and "t \<in> ts" and "thin_ok env rd req ts la"
  shows "thin_ok env rd req ts la'"
  using assms(1)
proof cases
  case (rejects b r)
  let ?w = "rejection_warning (judged env rd r) (tier_name t) (fr_status r)"
  let ?a = "annotate ?w (r\<lparr> fr_wall := body_wall (judged env rd r) \<rparr>)"
  have a: "rejected_page env rd req ts ?a" using rejected_pageI assms(2) rejects by blast
  moreover have "rejected_page env rd req ts (stitch ?w ?a x)" if "la_thin la = Some x" for x
    using stitch_rejected [OF a] assms(3) that by (simp add: thin_ok_def)
  ultimately show ?thesis
    using rejects
    by (auto simp: thin_ok_def note_rejection_def Let_def enter_chain_def keep_thin_def split: option.splits)
qed (use assms(3) in \<open>auto simp: thin_ok_def skip_starved_def note_skip_def enter_chain_def note_error_def split: option.splits\<close>)

lemma tier_step_result:
  assumes "tier_step env rd req t n la cs (Some r) la'"
  shows "\<exists>r0 c m. answer t n req = Inr r0 \<and> accepted (judged env rd r0) \<and> r = priced r0 c m"
  using assms by cases auto

text \<open>The page a ladder returns: accepted and from a tier, or rejected and announced.\<close>

definition good_page :: "ladder_env \<Rightarrow> renderer \<Rightarrow> js_request \<Rightarrow> tier set \<Rightarrow> fetched \<Rightarrow> bool" where
  "good_page env rd req ts r \<longleftrightarrow>
    (\<exists>t \<in> ts. \<exists>n r0. answer t n req = Inr r0 \<and> fr_html r = fr_html r0 \<and> fr_status r = fr_status r0
       \<and> fr_wall r = fr_wall r0)
    \<and> accepted (judged env rd r)"

lemma good_page_priced:
  assumes "t \<in> ts" and "answer t n req = Inr r0" and "accepted (judged env rd r0)"
  shows "good_page env rd req ts (priced r0 c m)"
proof -
  have "judged env rd (priced r0 c m) = judged env rd r0" by (rule assess_same_page) simp_all
  then show ?thesis using assms by (auto simp: good_page_def)
qed

lemma tiers_run_page:
  assumes "tiers_run env rd req us n la cs res la'" and "set us \<subseteq> ts" and "thin_ok env rd req ts la"
  shows "(\<forall>r. res = Some r \<longrightarrow> good_page env rd req ts r) \<and> thin_ok env rd req ts la'"
  using assms
proof (induction rule: tiers_run.induct)
  case (ends t n la cs r la1 us)
  then have "t \<in> ts" by simp
  with tier_step_result [OF ends.hyps(1)] tier_step_thin [OF ends.hyps(1)] ends.prems
  show ?case by (auto intro: good_page_priced)
next
  case (goes_on t n la cs la1 us cs' res la2)
  then show ?case using tier_step_thin [OF goes_on.hyps(1)] by simp
qed simp

lemma leak_run_page:
  assumes "leak_run env rd req us n la cs res la'" and "set us \<subseteq> ts" and "thin_ok env rd req ts la"
  shows "(\<forall>r. res = Some r \<longrightarrow> good_page env rd req ts r) \<and> thin_ok env rd req ts la'"
  using assms(1)
proof cases
  case (leak_accepts t k b r c m)
  then show ?thesis using assms(2,3) good_page_priced [of t ts n req r env rd c m] by auto
next
  case (leak_rejects t k b r)
  then show ?thesis
    using assms(2,3) rejected_pageI [of t ts n req r env rd]
    by (auto simp: thin_ok_def note_leak_rejection_def Let_def)
qed (use assms(3) in \<open>auto simp: thin_ok_def\<close>)

lemma ladder_result_page:
  assumes "thin_ok env rd req ts la" and "ladder_result env req la = Inr r"
  shows "rejected_page env rd req ts r"
proof -
  obtain r0 where r0: "la_thin la = Some r0" "rejected_page env rd req ts r0"
    using assms by (auto simp: ladder_result_def thin_ok_def split: option.splits)
  then have nw: "fr_wall r0 \<noteq> None" if "looks_like_generic_bot_wall (le_lib env) (fr_html r0)"
    using that generic_wall_has_wall [of "judged env rd r0"] by (auto simp: rejected_page_def assess_def Let_def)
  show ?thesis
    by (rule rejected_page_cong [OF r0(2)])
      (use assms(2) r0 nw in \<open>auto simp: ladder_result_def Let_def rejected_page_def split: if_splits\<close>)
qed

lemma ladder_run_page:
  assumes "ladder_run env rd req us hint n cs (Inr r)" and "set us \<subseteq> ts"
  shows "good_page env rd req ts r \<or> rejected_page env rd req ts r"
  using assms(1)
proof cases
  case (accepts_first la)
  then show ?thesis using tiers_run_page [OF accepts_first(1) assms(2)] by (simp add: thin_ok_def ladder_new_def)
next
  case (exhausted cs1 la cs2 la')
  have "thin_ok env rd req ts la"
    using tiers_run_page [OF exhausted(3) assms(2)] by (simp add: thin_ok_def ladder_new_def)
  then have "thin_ok env rd req ts la'" using leak_run_page [OF exhausted(4) assms(2)] by simp
  then show ?thesis using ladder_result_page exhausted(2) by simp
next
  case (leaks cs1 la cs2 la')
  have "thin_ok env rd req ts la"
    using tiers_run_page [OF leaks(2) assms(2)] by (simp add: thin_ok_def ladder_new_def)
  then show ?thesis using leak_run_page [OF leaks(3) assms(2)] by simp
qed

lemma ladder_tiers_pool:
  "set (ladder_tiers env rd req w) \<subseteq>
    {t \<in> set (rd_js rd). is_user_pinned req \<longrightarrow> jr_requested req = Some (tier_name t)}"
  by (auto simp: ladder_tiers_def is_user_pinned_def Let_def split: option.splits if_splits)

text \<open>
  C3. A page the ladder returns is the unchanged body of some tier of the pool, of the pinned tier
  under a pin. It passed every check, or it is handed back with a warning and with the wall that
  its own content shows; a generic anti-bot wall never comes back without a wall verdict.
\<close>

theorem ladder_page_is_vetted:
  assumes "fetch_with_js env rd req hint w = Some (Inr r, w')"
  shows "(\<exists>t \<in> set (rd_js rd). \<exists>n r0. answer t n req = Inr r0
      \<and> fr_html r = fr_html r0 \<and> fr_status r = fr_status r0
      \<and> (is_user_pinned req \<longrightarrow> jr_requested req = Some (tier_name t)))
    \<and> (accepted (assess (le_lib env) (rd_antibot rd) r)
       \<or> fr_warning r \<noteq> None \<and> fr_wall r = body_wall (assess (le_lib env) (rd_antibot rd) r))
    \<and> (looks_like_generic_bot_wall (le_lib env) (fr_html r) \<longrightarrow> fr_wall r \<noteq> None)"
proof -
  let ?ts = "{t \<in> set (rd_js rd). is_user_pinned req \<longrightarrow> jr_requested req = Some (tier_name t)}"
  obtain cs where "ladder_run env rd req (ladder_tiers env rd req w) hint (length (w_calls w)) cs (Inr r)"
    using fetch_with_js_refines [OF assms] by blast
  from ladder_run_page [OF this ladder_tiers_pool]
  have page: "good_page env rd req ?ts r \<or> rejected_page env rd req ?ts r" .
  moreover have "jb_bot_wall (judged env rd r)" if "looks_like_generic_bot_wall (le_lib env) (fr_html r)"
    using that by (simp add: assess_def Let_def)
  ultimately show ?thesis
    using generic_wall_has_wall [of "judged env rd r"]
    by (auto simp: good_page_def rejected_page_def accepted_def)
qed

definition demo_lib :: text_lib where
  "demo_lib =
    \<lparr> to_lower = to_ascii_lowercase, re_is_match = (\<lambda>_ _. False), re_remove_all = (\<lambda>_ s. s),
      re_count = (\<lambda>_ _. 1), re_group_1 = (\<lambda>_ _. None) \<rparr>"

definition demo_env :: ladder_env where
  "demo_env =
    \<lparr> le_lib = demo_lib, le_psl = (\<lambda>_. None), le_host = (\<lambda>_. None), le_path = (\<lambda>_. None),
      le_interval = (\<lambda>_. 0), le_clock = (\<lambda>n. n * 1000000), le_others = (\<lambda>_ s. s), le_waiting = id \<rparr>"

definition demo_page :: "nat \<Rightarrow> string \<Rightarrow> fetched" where
  "demo_page status html =
    \<lparr> fr_url = ''u'', fr_final_url = None, fr_status = status, fr_html = html, fr_content_type = None,
      fr_raw_bytes = None, fr_rendered_with = None, fr_elapsed_ms = 0, fr_warning = None,
      fr_credit_cost = 0, fr_warnings = [], fr_truncated = False, fr_deadline_exceeded = False,
      fr_captured = [], fr_wall = None, fr_meta = None \<rparr>"

definition demo_tier :: "string \<Rightarrow> crw_error + fetched \<Rightarrow> tier" where
  "demo_tier name a = \<lparr> tier_name = name, tier_fetch = (\<lambda>_ _ _ _ _. a) \<rparr>"

definition demo_renderer :: "tier list \<Rightarrow> renderer" where
  "demo_renderer ts =
    \<lparr> rd_http = demo_tier ''http'' (Inl RateLimited), rd_js = ts, rd_render_js_default = None,
      rd_has_recovery_tier = True, rd_tier_timeouts = Map.empty, rd_requests_per_second = 0,
      rd_per_host_max_concurrent = 1, rd_antibot = antibot_config_default, rd_http_has_proxy = False,
      rd_impersonated = None \<rparr>"

definition demo_request :: "string option \<Rightarrow> js_request" where
  "demo_request pin =
    \<lparr> jr_url = ''u'', jr_headers = [], jr_wait = None, jr_requested = pin,
      jr_deadline = from_request_ms 0 8000 \<rparr>"

definition demo_shared :: shared where
  "demo_shared =
    \<lparr> sh_breakers = registry_new demo_config 0, sh_prefs = cache_new, sh_clearance = cache_new,
      sh_egress = cache_new, sh_limiters = limiters_new \<rparr>"

definition demo_world :: world where
  "demo_world = \<lparr> w_shared = demo_shared, w_reads = 0, w_calls = [] \<rparr>"

definition demo_wall :: string where
  "demo_wall = ''<html>Access denied''"

text \<open>From an evaluated view of an outcome to the outcome.\<close>

lemma view_result:
  assumes "map_option (\<lambda>(res, w'). map_sum error_code f res) x = Some (Inr v)"
  shows "\<exists>r w'. x = Some (Inr r, w') \<and> f r = v"
proof -
  obtain res w' where x: "x = Some (res, w')" using assms by (cases x) auto
  with assms show ?thesis by (cases res) auto
qed

lemma demo_wall_run:
  "\<exists>r w'. fetch_with_js demo_env (demo_renderer [demo_tier ''lightpanda'' (Inr (demo_page 200 demo_wall))])
      (demo_request None) True demo_world = Some (Inr r, w') \<and> fr_html r = demo_wall"
  by (rule view_result) code_simp

theorem ladder_page_is_vetted_witness:
  "\<exists>r w'. fetch_with_js demo_env (demo_renderer [demo_tier ''lightpanda'' (Inr (demo_page 200 demo_wall))])
      (demo_request None) True demo_world = Some (Inr r, w') \<and> fr_wall r \<noteq> None"
proof -
  obtain r w' where f: "fetch_with_js demo_env
      (demo_renderer [demo_tier ''lightpanda'' (Inr (demo_page 200 demo_wall))])
      (demo_request None) True demo_world = Some (Inr r, w')" and h: "fr_html r = demo_wall"
    using demo_wall_run by blast
  have "looks_like_generic_bot_wall demo_lib demo_wall" by code_simp
  then show ?thesis
    using ladder_page_is_vetted [OF f] f h by (simp add: demo_env_def)
qed

subsection \<open>Which tiers are asked\<close>

text \<open>The calls of a run and the skips of its breakers concern different tiers.\<close>

lemma tier_step_calls:
  assumes "tier_step env rd req t n la cs res la'"
  shows "(cs = [] \<and> la_skipped la' = la_skipped la)
    \<or> (cs = [] \<and> (\<exists>k. renderer_kind_for (tier_name t) = Some k \<and> la_skipped la' = la_skipped la @ [k]))
    \<or> (la_skipped la' = la_skipped la \<and> (\<exists>b \<ge> min_tier_budget. cs = [asked t req b]))"
  using assms
  by cases (auto simp: skip_starved_def note_skip_def enter_chain_def note_rejection_def note_error_def
      Let_def split: option.splits)

lemma asked_simps [simp]:
  "tc_name (asked t req b) = tier_name t" "tc_headers (asked t req b) = jr_headers req"
  "tc_budget (asked t req b) = Some b"
  by (simp_all add: asked_def)

definition well_asked :: "js_request \<Rightarrow> tier_call \<Rightarrow> bool" where
  "well_asked req c \<longleftrightarrow> tc_headers c = jr_headers req \<and> (\<exists>b \<ge> min_tier_budget. tc_budget c = Some b)"

lemma tiers_run_calls:
  "tiers_run env rd req ts n la cs res la' \<Longrightarrow>
    \<exists>us ss. subseq us ts \<and> subseq ss ts \<and> length us + length ss \<le> length ts
      \<and> (distinct ts \<longrightarrow> set us \<inter> set ss = {})
      \<and> map tc_name cs = map tier_name us \<and> (\<forall>c \<in> set cs. well_asked req c)
      \<and> la_skipped la' = la_skipped la @ map (\<lambda>t. the (renderer_kind_for (tier_name t))) ss
      \<and> (\<forall>t \<in> set ss. renderer_kind_for (tier_name t) \<noteq> None)"
proof (induction rule: tiers_run.induct)
  case (none_left n la)
  then show ?case by (intro exI [of _ "[]"]) simp
next
  case (ends t n la cs r la1 ts)
  then have "la_skipped la1 = la_skipped la" "\<exists>b \<ge> min_tier_budget. cs = [asked t req b]"
    by (auto elim: tier_step.cases simp: enter_chain_def split: option.splits)
  then show ?case by (intro exI [of _ "[t]"] exI [of _ "[]"]) (auto simp: well_asked_def)
next
  case (goes_on t n la cs la1 ts cs' res la2)
  then obtain us ss where ih: "subseq us ts" "subseq ss ts" "length us + length ss \<le> length ts"
      "distinct ts \<longrightarrow> set us \<inter> set ss = {}" "map tc_name cs' = map tier_name us"
      "\<forall>c \<in> set cs'. well_asked req c"
      "la_skipped la2 = la_skipped la1 @ map (\<lambda>t. the (renderer_kind_for (tier_name t))) ss"
      "\<forall>t \<in> set ss. renderer_kind_for (tier_name t) \<noteq> None" by blast
  have sub: "set us \<subseteq> set ts" "set ss \<subseteq> set ts"
    using ih(1,2) by (auto dest: subseq_set)
  from tier_step_calls [OF goes_on.hyps(1)] consider
      (quiet) "cs = []" "la_skipped la1 = la_skipped la"
    | (skip) k where "cs = []" "renderer_kind_for (tier_name t) = Some k" "la_skipped la1 = la_skipped la @ [k]"
    | (call) b where "la_skipped la1 = la_skipped la" "min_tier_budget \<le> b" "cs = [asked t req b]"
    by blast
  then show ?case
  proof cases
    case quiet
    then show ?thesis using ih by (intro exI [of _ us] exI [of _ ss]) auto
  next
    case skip
    then show ?thesis using ih sub by (intro exI [of _ us] exI [of _ "t # ss"]) auto
  next
    case call
    then show ?thesis using ih sub
      by (intro exI [of _ "t # us"] exI [of _ ss]) (auto simp: well_asked_def)
  qed
qed

lemma leak_run_calls:
  assumes "leak_run env rd req ts n la cs res la'"
  shows "cs = [] \<or> (\<exists>t \<in> set ts. \<exists>k b. renderer_kind_for (tier_name t) = Some k \<and> k \<in> set (la_skipped la)
      \<and> min_tier_budget \<le> b \<and> cs = [asked t req b])"
  using assms by cases blast+

lemma run_then_leak_calls:
  assumes "tiers_run env rd req ts n (ladder_new hint) cs res la" and "leak_run env rd req ts m la cs' res' la'"
    and "distinct (map (\<lambda>t. renderer_kind_for (tier_name t)) ts)"
  shows "distinct (map tc_name (cs @ cs')) \<and> set (map tc_name (cs @ cs')) \<subseteq> tier_name ` set ts
    \<and> length (cs @ cs') \<le> length ts \<and> (\<forall>c \<in> set (cs @ cs'). well_asked req c)"
proof -
  let ?kind = "\<lambda>t. renderer_kind_for (tier_name t)"
  have d: "distinct ts" "distinct (map tier_name ts)" "inj_on ?kind (set ts)"
    using assms(3) by (auto simp: distinct_map inj_on_def)
  from tiers_run_calls [OF assms(1)] obtain us ss where u: "subseq us ts" "subseq ss ts"
      "length us + length ss \<le> length ts" "set us \<inter> set ss = {}" "map tc_name cs = map tier_name us"
      "\<forall>c \<in> set cs. well_asked req c" "la_skipped la = map (\<lambda>t. the (?kind t)) ss"
      "\<forall>t \<in> set ss. ?kind t \<noteq> None"
    using d(1) by (auto simp: ladder_new_def)
  have names: "distinct (map tc_name cs)" "set (map tc_name cs) = tier_name ` set us"
    using u(1,5) d(2) subseq_distinct' [OF subseq_map [OF u(1), of tier_name]] by auto
  have len: "length cs = length us" using u(5) by (metis length_map)
  from leak_run_calls [OF assms(2)] show ?thesis
  proof
    assume "cs' = []"
    then show ?thesis using names u(3,6) len subseq_set [OF u(1)] by auto
  next
    assume "\<exists>t \<in> set ts. \<exists>k b. ?kind t = Some k \<and> k \<in> set (la_skipped la)
      \<and> min_tier_budget \<le> b \<and> cs' = [asked t req b]"
    then obtain t k b where t: "t \<in> set ts" "?kind t = Some k" "k \<in> set (la_skipped la)"
      "min_tier_budget \<le> b" "cs' = [asked t req b]" by blast
    then obtain s where s: "s \<in> set ss" "k = the (?kind s)" using u(7) by auto
    then have "?kind s = ?kind t" using u(8) t(2) by auto
    then have "t \<in> set ss" using s t(1) d(3) subseq_set [OF u(2)] by (metis inj_onD subsetD)
    then have "t \<notin> set us" "0 < length ss" using u(4) by auto
    then have "tier_name t \<notin> tier_name ` set us"
      using d(2) t(1) subseq_set [OF u(1)] by (auto simp: distinct_map inj_on_def)
    moreover have "Suc (length us) \<le> length ts" using u(3) \<open>0 < length ss\<close> by linarith
    ultimately show ?thesis
      using names u(6) len t subseq_set [OF u(1)] by (auto simp: well_asked_def)
  qed
qed

lemma ladder_run_calls:
  assumes "ladder_run env rd req ts hint n cs res"
    and "distinct (map (\<lambda>t. renderer_kind_for (tier_name t)) ts)"
  shows "distinct (map tc_name cs) \<and> set (map tc_name cs) \<subseteq> tier_name ` set ts
    \<and> length cs \<le> length ts \<and> (\<forall>c \<in> set cs. well_asked req c)"
  using assms(1)
proof cases
  case (accepts_first r la)
  show ?thesis
    using run_then_leak_calls [OF accepts_first(2) leak_run.no_leak assms(2)] by simp
next
  case (exhausted cs1 la cs2 la')
  then show ?thesis using run_then_leak_calls assms(2) by blast
next
  case (leaks cs1 la cs2 r la')
  then show ?thesis using run_then_leak_calls assms(2) by blast
qed simp

lemma ladder_tiers_distinct:
  "distinct (map f (rd_js rd)) \<Longrightarrow> distinct (map f (ladder_tiers env rd req w))"
  by (auto simp: ladder_tiers_def Let_def distinct_map split: option.splits intro: inj_on_subset)

text \<open>
  A ladder over tiers of different kinds asks each of them at most once, with the caller's own
  headers, and never with less than half a second of the deadline left at its last look at the
  clock; under a pin it asks the pinned tier only.
\<close>

theorem ladder_asks_each_tier_once:
  assumes "fetch_with_js env rd req hint w = Some (res, w')"
    and "distinct (map (\<lambda>t. renderer_kind_for (tier_name t)) (rd_js rd))"
  shows "\<exists>cs. w_calls w' = w_calls w @ cs \<and> distinct (map tc_name cs)
    \<and> set (map tc_name cs) \<subseteq> tier_name ` set (rd_js rd)
    \<and> (\<forall>c \<in> set cs. tc_headers c = jr_headers req
        \<and> (\<exists>b. tc_budget c = Some b \<and> from_millis 500 \<le> b)
        \<and> (is_user_pinned req \<longrightarrow> jr_requested req = Some (tc_name c)))"
proof -
  let ?ts = "ladder_tiers env rd req w"
  obtain cs where run: "ladder_run env rd req ?ts hint (length (w_calls w)) cs res"
    and l: "w_calls w' = w_calls w @ cs" using fetch_with_js_refines [OF assms(1)] by blast
  note c = ladder_run_calls [OF run ladder_tiers_distinct [OF assms(2)]]
  have "tc_name x \<in> tier_name ` set ?ts" if "x \<in> set cs" for x using c that by auto
  then show ?thesis
    using c l ladder_tiers_pool [of env rd req w]
    by (fastforce simp: well_asked_def min_tier_budget_def)
qed

theorem ladder_asks_each_tier_once_witness:
  "\<exists>res w'. fetch_with_js demo_env (demo_renderer [demo_tier ''lightpanda'' (Inl RateLimited),
        demo_tier ''camofox'' (Inr (demo_page 200 demo_wall))]) (demo_request None) False demo_world = Some (res, w')
    \<and> map tc_name (w_calls w') = [''lightpanda'', ''camofox''] \<and> distinct (map tc_name (w_calls w'))"
proof -
  let ?rd = "demo_renderer [demo_tier ''lightpanda'' (Inl RateLimited), demo_tier ''camofox'' (Inr (demo_page 200 demo_wall))]"
  have "map_option (\<lambda>(res, w'). map tc_name (w_calls w'))
      (fetch_with_js demo_env ?rd (demo_request None) False demo_world) = Some [''lightpanda'', ''camofox'']"
    by code_simp
  then obtain res w' where f: "fetch_with_js demo_env ?rd (demo_request None) False demo_world = Some (res, w')"
    and c: "map tc_name (w_calls w') = [''lightpanda'', ''camofox'']" by auto
  have "distinct (map (\<lambda>t. renderer_kind_for (tier_name t)) (rd_js ?rd))" by code_simp
  from ladder_asks_each_tier_once [OF f this] show ?thesis using f c by (auto simp: demo_world_def)
qed

subsection \<open>The solver waits for a challenge\<close>

lemma kind_byparr: "renderer_kind_for name = Some Byparr \<longleftrightarrow> name = ''byparr''"
  by (simp add: renderer_kind_for_def)

definition calm :: "ladder_env \<Rightarrow> renderer \<Rightarrow> js_request \<Rightarrow> tier \<Rightarrow> bool" where
  "calm env rd req t \<longleftrightarrow>
    (tier_name t \<noteq> ''byparr'' \<longrightarrow> (\<forall>n r. answer t n req = Inr r \<longrightarrow> \<not> challenge_body (judged env rd r)))"

definition unchallenged :: "ladder \<Rightarrow> bool" where
  "unchallenged la \<longleftrightarrow> \<not> la_challenge la \<and> Byparr \<notin> set (la_skipped la)"

lemma idle_unchallenged: "unchallenged la \<Longrightarrow> tier_name t = ''byparr'' \<Longrightarrow> is_idle_solver t la"
  by (simp add: is_idle_solver_def unchallenged_def kind_byparr)

lemma tier_step_unchallenged:
  assumes "tier_step env rd req t n la cs res la'" and "calm env rd req t" and "unchallenged la"
  shows "unchallenged la' \<and> ''byparr'' \<notin> tc_name ` set cs"
proof (cases "tier_name t = ''byparr''")
  case True
  then have "is_idle_solver t la" using assms(3) idle_unchallenged by blast
  with assms(1,3) show ?thesis by cases (auto simp: skip_starved_def unchallenged_def)
next
  case False
  with assms show ?thesis
    by (cases rule: tier_step.cases)
      (auto simp: skip_starved_def unchallenged_def note_skip_def enter_chain_def note_rejection_def
        note_error_def Let_def calm_def kind_byparr split: option.splits)
qed

lemma tiers_run_unchallenged:
  "tiers_run env rd req ts n la cs res la' \<Longrightarrow> \<forall>t \<in> set ts. calm env rd req t \<Longrightarrow> unchallenged la \<Longrightarrow>
    unchallenged la' \<and> ''byparr'' \<notin> tc_name ` set cs"
proof (induction rule: tiers_run.induct)
  case (ends t n la cs r la1 ts)
  then show ?case using tier_step_unchallenged [OF ends.hyps(1)] by simp
next
  case (goes_on t n la cs la1 ts cs' res la2)
  then show ?case using tier_step_unchallenged [OF goes_on.hyps(1)] by auto
qed simp

lemma leak_run_unchallenged:
  assumes "leak_run env rd req ts n la cs res la'" and "unchallenged la"
  shows "''byparr'' \<notin> tc_name ` set cs"
  using leak_run_calls [OF assms(1)]
proof
  assume "\<exists>t \<in> set ts. \<exists>k b. renderer_kind_for (tier_name t) = Some k \<and> k \<in> set (la_skipped la)
    \<and> min_tier_budget \<le> b \<and> cs = [asked t req b]"
  then obtain t k b where t: "renderer_kind_for (tier_name t) = Some k" "k \<in> set (la_skipped la)"
    "cs = [asked t req b]" by blast
  then have "tier_name t \<noteq> ''byparr''"
    using assms(2) kind_byparr [of "tier_name t"] by (auto simp: unchallenged_def)
  then show ?thesis using t(3) by simp
qed simp

text \<open>
  The challenge solver launches a browser, so it waits for evidence: if the HTTP body was no
  challenge and no other tier's body is one, it is not asked.
\<close>

theorem solver_waits_for_a_challenge:
  assumes "fetch_with_js env rd req False w = Some (res, w')"
    and "\<And>t n r. t \<in> set (rd_js rd) \<Longrightarrow> tier_name t \<noteq> ''byparr'' \<Longrightarrow> answer t n req = Inr r \<Longrightarrow>
          \<not> challenge_body (assess (le_lib env) (rd_antibot rd) r)"
  shows "\<exists>cs. w_calls w' = w_calls w @ cs \<and> ''byparr'' \<notin> tc_name ` set cs"
proof -
  let ?ts = "ladder_tiers env rd req w"
  obtain cs where run: "ladder_run env rd req ?ts False (length (w_calls w)) cs res"
    and l: "w_calls w' = w_calls w @ cs" using fetch_with_js_refines [OF assms(1)] by blast
  have calm: "\<forall>t \<in> set ?ts. calm env rd req t"
    using assms(2) ladder_tiers_pool [of env rd req w] by (auto simp: calm_def)
  have new: "unchallenged (ladder_new False)" by (simp add: unchallenged_def ladder_new_def)
  have "''byparr'' \<notin> tc_name ` set cs"
    using run
  proof cases
    case (accepts_first r la)
    then show ?thesis using tiers_run_unchallenged [OF _ calm new] by blast
  next
    case (exhausted cs1 la cs2 la')
    then show ?thesis using tiers_run_unchallenged [OF _ calm new] leak_run_unchallenged by fastforce
  next
    case (leaks cs1 la cs2 r la')
    then show ?thesis using tiers_run_unchallenged [OF _ calm new] leak_run_unchallenged by fastforce
  qed simp
  then show ?thesis using l by blast
qed

theorem solver_waits_for_a_challenge_witness:
  "\<exists>res w'. fetch_with_js demo_env (demo_renderer [demo_tier ''camofox'' (Inl RateLimited),
        demo_tier ''byparr'' (Inl RateLimited)]) (demo_request None) False demo_world = Some (res, w')
    \<and> w_calls w' \<noteq> [] \<and> ''byparr'' \<notin> tc_name ` set (w_calls w')"
proof -
  let ?rd = "demo_renderer [demo_tier ''camofox'' (Inl RateLimited), demo_tier ''byparr'' (Inl RateLimited)]"
  have "map_option (\<lambda>(res, w'). length (w_calls w')) (fetch_with_js demo_env ?rd (demo_request None) False demo_world)
      = Some 1"
    by code_simp
  then obtain res w' where f: "fetch_with_js demo_env ?rd (demo_request None) False demo_world = Some (res, w')"
    and c: "length (w_calls w') = 1" by auto
  have "\<And>t n r. t \<in> set (rd_js ?rd) \<Longrightarrow> answer t n (demo_request None) \<noteq> Inr r"
    by (auto simp: demo_renderer_def demo_tier_def answer_def)
  then show ?thesis
    using solver_waits_for_a_challenge [OF f] f c by (force simp: demo_world_def)
qed

end
