(* ===== verification/Ladder_Breakers.thy ===== *)
theory Ladder_Breakers
  imports Ladder_Props
begin

section \<open>The ladder and the circuit breakers\<close>

text \<open>
  What a ladder that runs alone does to the breakers. The locale \<open>ladder_registry\<close> is the
  contract between the ladder and a relation on registries: reflexive, transitive and kept by
  the registry calls the ladder makes, with the outcomes that may reach a global breaker as a
  parameter. Inside it a whole ladder is one such step and never panics. Two interpretations
  give the frame of a request (its own host and the global breakers) and the isolation of the
  global breakers from pages that are walls.
\<close>

lemma acquire_with_guard_total:
  assumes "registry_wf reg"
  shows "\<exists>p g reg'. acquire_with_guard psl now host k reg = Some ((p, g), reg')"
proof -
  obtain p r where r: "registry_try_acquire psl now host k reg = Some (p, r)" "touches psl host k reg r"
    using registry_try_acquire_touches [OF assms] by blast
  then have "registry_wf r" by (simp add: touches_def)
  then obtain a where "global_for k r = Some a" using global_for_total by blast
  with r show ?thesis by (auto simp: acquire_with_guard_def Let_def split_beta split: prod.splits)
qed

locale ladder_registry =
  fixes env :: ladder_env and host :: string
    and R :: "breaker_registry \<Rightarrow> breaker_registry \<Rightarrow> bool"
    and may :: "breaker_outcome option \<Rightarrow> bool"
  assumes R_refl: "registry_wf reg \<Longrightarrow> R reg reg"
    and R_trans: "R a b \<Longrightarrow> R b c \<Longrightarrow> R a c"
    and R_wf: "R a b \<Longrightarrow> registry_wf b"
    and R_acquire: "registry_wf reg \<Longrightarrow> acquire_with_guard (le_psl env) now host k reg = Some ((p, g), reg') \<Longrightarrow>
      R reg reg' \<and> R reg (guard_drop g reg')"
    and R_host_only: "registry_wf reg \<Longrightarrow> R reg (snd (registry_try_acquire_host_only (le_psl env) now host k reg))"
    and R_scoped: "registry_wf reg \<Longrightarrow> may global \<Longrightarrow>
      registry_record_scoped_outcome (le_psl env) now host k global (Some out) reg = Some reg' \<Longrightarrow> R reg reg'"
    and R_both: "registry_wf reg \<Longrightarrow> may (Some out) \<Longrightarrow>
      registry_record_outcome (le_psl env) now host k out reg = Some reg' \<Longrightarrow> R reg reg'"
    and may_None: "may None"
    and alone: "le_others env n sh = sh"
begin

definition step_ok :: "world \<Rightarrow> world \<Rightarrow> bool" where
  "step_ok w w' \<longleftrightarrow> R (breakers_of w) (breakers_of w')"

lemma step_refl: "registry_wf (breakers_of w) \<Longrightarrow> breakers_of w' = breakers_of w \<Longrightarrow> step_ok w w'"
  by (simp add: step_ok_def R_refl)

lemma step_trans: "step_ok a b \<Longrightarrow> step_ok b c \<Longrightarrow> step_ok a c"
  unfolding step_ok_def by (rule R_trans)

lemma step_wf: "step_ok w w' \<Longrightarrow> registry_wf (breakers_of w')"
  unfolding step_ok_def by (rule R_wf)

text \<open>The answers of a tier whose outcomes may reach the global breaker.\<close>

definition allowed :: "renderer \<Rightarrow> js_request \<Rightarrow> tier \<Rightarrow> bool" where
  "allowed rd req t \<longleftrightarrow>
    (\<forall>n r. answer t n req = Inr r \<longrightarrow> accepted (judged env rd r) \<longrightarrow> (\<forall>out. may (Some out)))
    \<and> (\<forall>n e. answer t n req = Inl e \<longrightarrow> \<not> is_origin_fault_for_breaker e \<or> is_timeout e \<longrightarrow>
         (\<forall>out. may (Some out)))"

lemma read_clock_step: "read_clock env w = (now, w') \<Longrightarrow> breakers_of w' = breakers_of w"
  by (auto simp: read_clock_def)

lemma read_budget_step: "read_budget env req w = (b, w') \<Longrightarrow> breakers_of w' = breakers_of w"
  by (auto simp: read_budget_def read_clock_def)

lemma call_tier_step: "call_tier env t u hs wt d b w = (a, w') \<Longrightarrow> breakers_of w' = breakers_of w"
  by (auto simp: call_tier_def Let_def alone)

lemma breakers_with [simp]:
  "breakers_of (with_breakers reg w) = reg" "breakers_of (with_prefs p w) = breakers_of w"
  by (simp_all add: with_breakers_def with_prefs_def)

lemma note_failure_step: "breakers_of (note_failure env host k e w) = breakers_of w"
  by (simp add: note_failure_def Let_def split_beta read_clock_def)

lemma acquire_step:
  assumes "registry_wf (breakers_of w)"
  obtains p g w' where "acquire_tier env host k w = Some ((p, g), w')" and "step_ok w w'"
    and "\<And>w1. breakers_of w1 = breakers_of w' \<Longrightarrow> step_ok w (drop_guard (Some g) w1)"
proof -
  obtain now w1 where n: "read_clock env w = (now, w1)" by fastforce
  then have e: "breakers_of w1 = breakers_of w" by (rule read_clock_step)
  obtain p g reg where a: "acquire_with_guard (le_psl env) now host k (breakers_of w1) = Some ((p, g), reg)"
    using acquire_with_guard_total assms e by metis
  have "acquire_tier env host k w = Some ((p, g), with_breakers reg w1)"
    using n a by (simp add: acquire_tier_def)
  then show ?thesis
    using that [of p g "with_breakers reg w1"] R_acquire [OF _ a] assms e
    by (simp add: step_ok_def drop_guard_def)
qed

lemma scoped_step:
  assumes "registry_wf (breakers_of w)" and "may global"
  obtains w' where "record_scoped env host k global (Some out) w = Some w'" and "step_ok w w'"
proof -
  obtain now w1 where n: "read_clock env w = (now, w1)" by fastforce
  then have e: "breakers_of w1 = breakers_of w" by (rule read_clock_step)
  obtain reg where a: "registry_record_scoped_outcome (le_psl env) now host k global (Some out) (breakers_of w1) = Some reg"
    using registry_record_scoped_touches assms(1) e by metis
  then have "record_scoped env host k global (Some out) w = Some (with_breakers reg w1)"
    using n by (simp add: record_scoped_def)
  then show ?thesis using that R_scoped [OF _ assms(2) a] assms(1) e by (simp add: step_ok_def)
qed

lemma both_step:
  assumes "registry_wf (breakers_of w)" and "may (Some out)"
  obtains w' where "record_both env host k out w = Some w'" and "step_ok w w'"
proof -
  obtain now w1 where n: "read_clock env w = (now, w1)" by fastforce
  then have e: "breakers_of w1 = breakers_of w" by (rule read_clock_step)
  obtain reg where a: "registry_record_outcome (le_psl env) now host k out (breakers_of w1) = Some reg"
    using registry_record_outcome_touches assms(1) e by metis
  then have "record_both env host k out w = Some (with_breakers reg w1)"
    using n by (simp add: record_both_def)
  then show ?thesis using that R_both [OF _ assms(2) a] assms(1) e by (simp add: step_ok_def)
qed

lemma accepted_step:
  assumes "registry_wf (breakers_of w)" and "\<And>out. may (Some out)"
  shows "\<exists>r' w'. tier_accepted env req host t la r w = Some (r', w') \<and> step_ok w w'"
proof (cases "trackable host t")
  case None
  then show ?thesis using assms(1) by (auto simp: tier_accepted_def intro: step_refl)
next
  case (Some k)
  obtain w1 where "record_both env host k (if fr_truncated r then Truncated else Success) w = Some w1"
    and "step_ok w w1" using both_step assms by blast
  then show ?thesis using Some by (auto simp: tier_accepted_def step_ok_def)
qed

lemma rejected_step:
  assumes "registry_wf (breakers_of w)"
  shows "\<exists>la' w'. tier_rejected env rd host t ctx body r la w = Some (la', w') \<and> step_ok w w'"
proof (cases "trackable host t")
  case None
  then show ?thesis using assms by (auto simp: tier_rejected_def intro: step_refl)
next
  case (Some k)
  obtain w1 where "record_scoped env host k None (Some (classify_outcome False False False
      (site_blocked body (fr_status r) \<and> rd_has_recovery_tier rd) ctx)) w = Some w1"
    and "step_ok w w1" using scoped_step [OF assms may_None] by blast
  then show ?thesis using Some by (auto simp: tier_rejected_def step_ok_def note_failure_step)
qed

lemma failed_step:
  assumes "registry_wf (breakers_of w)"
    and "\<not> is_origin_fault_for_breaker e \<or> is_timeout e \<Longrightarrow> \<forall>out. may (Some out)"
  shows "\<exists>la' w'. tier_failed env host t ctx e la w = Some (la', w') \<and> step_ok w w'"
proof (cases "trackable host t")
  case None
  then show ?thesis using assms by (auto simp: tier_failed_def Let_def intro: step_refl)
next
  case (Some k)
  let ?out = "classify_outcome False False (is_timeout e) False ctx"
  let ?g = "if \<not> is_origin_fault_for_breaker e \<or> is_timeout e then Some ?out else None"
  have "may ?g" using assms(2) may_None by auto
  then obtain w1 where "record_scoped env host k ?g (Some ?out) w = Some w1" and "step_ok w w1"
    using scoped_step [OF assms(1)] by blast
  then show ?thesis using Some by (auto simp: tier_failed_def Let_def step_ok_def note_failure_step)
qed

lemma attempt_step:
  assumes "registry_wf (breakers_of w)" and "allowed rd req t"
  shows "\<exists>res la' w'. attempt_tier env rd req host t b la w = Some (res, la', w') \<and> step_ok w w'"
proof -
  obtain budget w1 where b: "read_budget env req w = (budget, w1)" by fastforce
  obtain a w2 where c: "call_tier env t (jr_url req) (jr_headers req) (jr_wait req) (jr_deadline req) (Some b) w1 = (a, w2)"
    by fastforce
  have e: "breakers_of w2 = breakers_of w" using read_budget_step [OF b] call_tier_step [OF c] by simp
  have a: "a = answer t (length (w_calls w1)) req" using call_tier_spec [OF c] by simp
  let ?ctx = "attempt_context_for rd (renderer_kind_for (tier_name t)) budget"
  have wf2: "registry_wf (breakers_of w2)" using assms(1) e by simp
  have carry: "step_ok w2 w' \<Longrightarrow> step_ok w w'" for w' using e by (simp add: step_ok_def)
  show ?thesis
  proof (cases a)
    case (Inl x)
    have "\<not> is_origin_fault_for_breaker x \<or> is_timeout x \<Longrightarrow> \<forall>out. may (Some out)"
      using assms(2) a Inl unfolding allowed_def by metis
    from failed_step [OF wf2 this, where t = t and ctx = ?ctx and la = "enter_chain t la"] show ?thesis
      using b c Inl carry by (fastforce simp: attempt_tier_def)
  next
    case (Inr r)
    show ?thesis
    proof (cases "accepted (judged env rd r)")
      case True
      then have "\<And>out. may (Some out)" using assms(2) a Inr unfolding allowed_def by metis
      from accepted_step [OF wf2 this, where req = req and t = t and la = "enter_chain t la" and r = r] show ?thesis
        using b c Inr True carry by (fastforce simp: attempt_tier_def)
    next
      case False
      from rejected_step [OF wf2, where rd = rd and t = t and ctx = ?ctx and body = "judged env rd r" and r = r
          and la = "enter_chain t la"] show ?thesis
        using b c Inr False carry by (fastforce simp: attempt_tier_def Let_def)
    qed
  qed
qed

lemma run_tier_step:
  assumes "registry_wf (breakers_of w)" and "allowed rd req t"
  shows "\<exists>res la' w'. run_tier env rd req host t la w = Some (res, la', w') \<and> step_ok w w'"
proof -
  obtain b w1 where b: "read_budget env req w = (b, w1)" by fastforce
  have e: "breakers_of w1 = breakers_of w" using read_budget_step [OF b] .
  have wf1: "registry_wf (breakers_of w1)" using assms(1) e by simp
  have carry: "step_ok w1 w' \<Longrightarrow> step_ok w w'" for w' using e by (simp add: step_ok_def)
  have adm: "\<exists>res la' w'. admitted_tier env rd req host t g la w2 = Some (res, la', w') \<and> step_ok w w'"
    if s: "step_ok w w2" and d: "\<And>w3. breakers_of w3 = breakers_of w2 \<Longrightarrow> step_ok w (drop_guard g w3)" for g w2
  proof -
    obtain b2 w3 where b2: "read_budget env req w2 = (b2, w3)" by fastforce
    have e3: "breakers_of w3 = breakers_of w2" using read_budget_step [OF b2] .
    show ?thesis
    proof (cases "b2 < min_tier_budget")
      case True
      then show ?thesis using b2 d [OF e3] by (simp add: admitted_tier_def)
    next
      case False
      have "registry_wf (breakers_of w3)" using step_wf [OF s] e3 by simp
      from attempt_step [OF this assms(2), where b = b2 and la = la] obtain res la' w' where
        "attempt_tier env rd req host t b2 la w3 = Some (res, la', w')" "step_ok w3 w'" by blast
      moreover from this have "step_ok w w'" using s e3 by (auto simp: step_ok_def intro: R_trans)
      ultimately show ?thesis using b2 False by (simp add: admitted_tier_def)
    qed
  qed
  show ?thesis
  proof (cases "is_idle_solver t la")
    case True
    then show ?thesis using assms(1) by (auto simp: run_tier_def intro: step_refl)
  next
    case busy: False
    show ?thesis
    proof (cases "b < min_tier_budget")
      case True
      then show ?thesis using assms(1) b e busy by (auto simp: run_tier_def intro: step_refl)
    next
      case False
      show ?thesis
      proof (cases "trackable host t")
        case None
        have "step_ok w w1" using assms(1) e by (rule step_refl)
        then have "\<exists>res la' w'. admitted_tier env rd req host t None la w1 = Some (res, la', w') \<and> step_ok w w'"
          by (rule adm) (use assms(1) e in \<open>auto simp: drop_guard_def intro: step_refl\<close>)
        then show ?thesis using b busy False None by (simp add: run_tier_def)
      next
        case (Some k)
        obtain p g w2 where q: "acquire_tier env host k w1 = Some ((p, g), w2)" "step_ok w1 w2"
          and d: "\<And>w3. breakers_of w3 = breakers_of w2 \<Longrightarrow> step_ok w1 (drop_guard (Some g) w3)"
          using acquire_step [OF wf1] by blast
        show ?thesis
        proof (cases "p = Rejected")
          case True
          then show ?thesis using b busy False Some q(1) carry [OF d [OF refl]] by (simp add: run_tier_def)
        next
          case ok: False
          from adm [OF carry [OF q(2)] carry [OF d]]
          show ?thesis using b busy False Some q(1) ok by (simp add: run_tier_def)
        qed
      qed
    qed
  qed
qed

lemma run_tiers_step:
  "registry_wf (breakers_of w) \<Longrightarrow> \<forall>t \<in> set ts. allowed rd req t \<Longrightarrow>
    \<exists>res la' w'. run_tiers env rd req host ts la w = Some (res, la', w') \<and> step_ok w w'"
proof (induction ts arbitrary: la w)
  case Nil
  then show ?case by (auto intro: step_refl)
next
  case (Cons t ts)
  then obtain r1 la1 w1 where s: "run_tier env rd req host t la w = Some (r1, la1, w1)" "step_ok w w1"
    using run_tier_step [where w = w and rd = rd and req = req and t = t and la = la] by auto
  then have "\<exists>res la' w'. run_tiers env rd req host ts la1 w1 = Some (res, la', w') \<and> step_ok w1 w'"
    using Cons step_wf by simp
  then show ?case using s by (cases r1) (auto intro: step_trans)
qed

lemma leak_step:
  assumes "registry_wf (breakers_of w)"
  shows "\<exists>res la' w'. attempt_leak env rd req host t k b la w = Some (res, la', w') \<and> step_ok w w'"
proof -
  obtain budget w1 where b: "read_budget env req w = (budget, w1)" by fastforce
  obtain a w2 where c: "call_tier env t (jr_url req) (jr_headers req) (jr_wait req) (jr_deadline req) (Some b) w1 = (a, w2)"
    by fastforce
  have e: "breakers_of w2 = breakers_of w" using read_budget_step [OF b] call_tier_step [OF c] by simp
  have wf2: "registry_wf (breakers_of w2)" using assms(1) e by simp
  let ?ctx = "attempt_context_for rd (Some k) budget"
  define out where "out = (case a of
      Inr r \<Rightarrow> classify_outcome (accepted (judged env rd r)) (fr_truncated r) False
        (site_blocked (judged env rd r) (fr_status r) \<and> rd_has_recovery_tier rd) ?ctx
    | Inl x \<Rightarrow> classify_outcome False False (is_timeout x) False ?ctx)"
  obtain w3 where w3: "record_scoped env host k None (Some out) w2 = Some w3" "step_ok w2 w3"
    using scoped_step [OF wf2 may_None] by blast
  then have s: "step_ok w w3" using e by (simp add: step_ok_def)
  show ?thesis
  proof (cases a)
    case (Inl x)
    then show ?thesis using b c w3(1) s by (simp add: attempt_leak_def Let_def out_def)
  next
    case (Inr r)
    then show ?thesis
      using b c w3(1) s by (cases "accepted (judged env rd r)") (simp_all add: attempt_leak_def Let_def out_def)
  qed
qed

lemma leak_tiers_step:
  "registry_wf (breakers_of w) \<Longrightarrow>
    \<exists>res la' w'. leak_tiers env rd req host ts la w = Some (res, la', w') \<and> step_ok w w'"
proof (induction ts arbitrary: w)
  case Nil
  then show ?case by (auto intro: step_refl)
next
  case (Cons t ts)
  show ?case
  proof (cases "trackable host t")
    case None
    then show ?thesis using Cons by simp
  next
    case (Some k)
    obtain p w1 where p: "acquire_host_only env host k w = (p, w1)" by fastforce
    obtain b w2 where b: "read_budget env req w1 = (b, w2)" by fastforce
    have s1: "step_ok w w1"
      using p Cons.prems R_host_only by (auto simp: acquire_host_only_def step_ok_def read_clock_def split_beta Let_def)
    have s2: "step_ok w w2" using s1 read_budget_step [OF b] by (simp add: step_ok_def)
    have go: "\<exists>res la' w'. leak_tiers env rd req host ts la v = Some (res, la', w') \<and> step_ok w w'"
      if "step_ok w v" for v
      using Cons.IH [OF step_wf [OF that]] step_trans [OF that] by blast
    have "\<exists>res la' w'. attempt_leak env rd req host t k b la w2 = Some (res, la', w') \<and> step_ok w w'"
      using leak_step [OF step_wf [OF s2]] step_trans [OF s2] by blast
    then show ?thesis using Some p b go [OF s1] go [OF s2] go [OF step_refl [OF Cons.prems refl]] by simp
  qed
qed

lemma wants_leak_step: "wants_leak env req la w = (l, w') \<Longrightarrow> breakers_of w' = breakers_of w"
  by (auto simp: wants_leak_def dest: read_budget_step split: if_splits prod.splits)

theorem ladder_step:
  assumes "registry_wf (breakers_of w)" and "\<forall>t \<in> set (rd_js rd). allowed rd req t"
    and "host_of env (jr_url req) = host"
  shows "\<exists>res w'. fetch_with_js env rd req hint w = Some (res, w') \<and> step_ok w w'"
proof (cases "ladder_tiers env rd req w = []")
  case True
  then show ?thesis using assms(1) by (auto simp: fetch_with_js_def Let_def intro: step_refl)
next
  case False
  let ?ts = "ladder_tiers env rd req w"
  have "\<forall>t \<in> set ?ts. allowed rd req t" using assms(2) ladder_tiers_pool by blast
  then obtain r1 la w1 where m: "run_tiers env rd req host ?ts (ladder_new hint) w = Some (r1, la, w1)" "step_ok w w1"
    using run_tiers_step [OF assms(1)] by blast
  obtain l w2 where k: "wants_leak env req la w1 = (l, w2)" by fastforce
  have s2: "step_ok w w2" using m(2) wants_leak_step [OF k] by (simp add: step_ok_def)
  obtain r2 la2 w3 where lk: "leak_tiers env rd req host ?ts la w2 = Some (r2, la2, w3)" "step_ok w2 w3"
    using leak_tiers_step [OF step_wf [OF s2]] by blast
  have s3: "step_ok w w3" using step_trans [OF s2 lk(2)] .
  show ?thesis
    using False m k s2 s3 lk(1) assms(3)
    by (cases r1; cases l) (auto simp: fetch_with_js_def Let_def)
qed

end

subsection \<open>A request touches its own host\<close>

definition own_host ::
    "(string \<Rightarrow> string option) \<Rightarrow> string \<Rightarrow> breaker_registry \<Rightarrow> breaker_registry \<Rightarrow> bool" where
  "own_host psl host reg reg' \<longleftrightarrow> registry_wf reg'
    \<and> (\<exists>A. frame A reg reg' \<and> (\<forall>a \<in> A. a \<in> snd ` set (reg_global reg)
         \<or> (\<exists>k. map_of (reg_host reg') (normalize_host psl host, k) = Some a)))"

lemma own_host_trans: "own_host psl host a b \<Longrightarrow> own_host psl host b c \<Longrightarrow> own_host psl host a c"
proof -
  assume "own_host psl host a b" and "own_host psl host b c"
  then obtain A B where A: "frame A a b" "\<forall>x \<in> A. x \<in> snd ` set (reg_global a)
      \<or> (\<exists>k. map_of (reg_host b) (normalize_host psl host, k) = Some x)"
    and B: "frame B b c" "\<forall>x \<in> B. x \<in> snd ` set (reg_global b)
      \<or> (\<exists>k. map_of (reg_host c) (normalize_host psl host, k) = Some x)"
    and wf: "registry_wf c" by (auto simp: own_host_def)
  have "reg_global b = reg_global a" using A(1) by (simp add: frame_def)
  then have "\<forall>x \<in> A \<union> B. x \<in> snd ` set (reg_global a)
      \<or> (\<exists>k. map_of (reg_host c) (normalize_host psl host, k) = Some x)"
    using A(2) B(2) frame_host [OF B(1)] by (metis UnE)
  then show ?thesis using frame_trans [OF A(1) B(1)] wf unfolding own_host_def by blast
qed

lemma touches_own_host: "touches psl host k reg reg' \<Longrightarrow> own_host psl host reg reg'"
  unfolding touches_def own_host_def using global_for_live by fastforce

lemma frame_own_host: "registry_wf reg' \<Longrightarrow> frame {} reg reg' \<Longrightarrow> own_host psl host reg reg'"
  unfolding own_host_def by blast

text \<open>A guard holds the two breakers of its key, and dropping it changes only these.\<close>

lemma acquire_with_guard_own_host:
  assumes "registry_wf reg" and "acquire_with_guard psl now host k reg = Some ((p, g), reg')"
  shows "own_host psl host reg reg' \<and> own_host psl host reg (guard_drop g reg')"
proof -
  obtain r1 where r1: "registry_try_acquire psl now host k reg = Some (p, r1)"
    using assms(2) by (auto simp: acquire_with_guard_def Let_def split: bind_splits if_splits prod.splits)
  then have t: "touches psl host k reg r1" using registry_try_acquire_touches [OF assms(1), of psl now host k] by auto
  then have wf1: "registry_wf r1" by (simp add: touches_def)
  note own1 = touches_own_host [OF t]
  show ?thesis
  proof (cases "p = Probe")
    case False
    then have "reg' = r1" "\<not> guard_armed g" using assms(2) r1 by (auto simp: acquire_with_guard_def)
    then show ?thesis using own1 by (simp add: guard_drop_def)
  next
    case True
    obtain a where a: "global_for k r1 = Some a" using global_for_total [OF wf1] by blast
    obtain h r2 where h: "host_for psl now host k r1 = (h, r2)" by fastforce
    note hs = host_for_spec [OF wf1 h]
    note mid = host_for_mid [OF wf1 a frame_refl wf1 h]
    have g: "g = \<lparr> guard_global = Some a, guard_host = Some h, guard_armed = True \<rparr>" "reg' = r2"
      using assms(2) r1 True a h by (auto simp: acquire_with_guard_def)
    have own2: "own_host psl host r1 r2" using hs by (auto intro: frame_own_host)
    have c1: "registry_wf (cancel_probe_at a r2)" "frame {a} r2 (cancel_probe_at a r2)"
      using cancel_probe_at_ok [of r2 a] mid by auto
    then have l: "h < length (reg_heap (cancel_probe_at a r2))" using mid frame_length by blast
    then have c2: "registry_wf (cancel_probe_at h (cancel_probe_at a r2))"
      "frame {h} (cancel_probe_at a r2) (cancel_probe_at h (cancel_probe_at a r2))"
      using cancel_probe_at_ok [OF c1(1)] by auto
    have f: "frame {a, h} r2 (guard_drop g r2)"
      using frame_trans [OF c1(2) c2(2)] by (simp add: guard_drop_def g insert_commute)
    have "a \<in> snd ` set (reg_global r2)" using a global_for_live hs by (metis frame_global_for)
    moreover have "map_of (reg_host (guard_drop g r2)) (normalize_host psl host, k) = Some h"
      using frame_host [OF f] hs by blast
    moreover have "registry_wf (guard_drop g r2)" using c2(1) by (simp add: guard_drop_def g)
    ultimately have "own_host psl host r2 (guard_drop g r2)"
      unfolding own_host_def using f by blast
    then show ?thesis using own1 own2 g(2) own_host_trans by blast
  qed
qed

text \<open>With others quiet, \<open>own_host\<close> is such a relation.\<close>

definition alone_env :: "ladder_env \<Rightarrow> ladder_env" where
  "alone_env env = env\<lparr> le_others := (\<lambda>_ sh. sh) \<rparr>"

interpretation own: ladder_registry "alone_env env" host "own_host (le_psl (alone_env env)) host" "\<lambda>_. True"
  for env host
proof unfold_locales
  show "registry_wf reg \<Longrightarrow> own_host (le_psl (alone_env env)) host reg reg" for reg
    by (rule frame_own_host) simp_all
  show "own_host (le_psl (alone_env env)) host a b \<Longrightarrow> registry_wf b" for a b
    by (simp add: own_host_def)
  show "registry_wf reg \<Longrightarrow>
      own_host (le_psl (alone_env env)) host reg (snd (registry_try_acquire_host_only (le_psl (alone_env env)) now host k reg))"
    for reg now k
    by (rule touches_own_host [OF registry_try_acquire_host_only_ok])
  show "registry_wf reg \<Longrightarrow>
      registry_record_scoped_outcome (le_psl (alone_env env)) now host k global (Some out) reg = Some reg' \<Longrightarrow>
      own_host (le_psl (alone_env env)) host reg reg'" for reg now k global out reg'
    using registry_record_scoped_touches [of reg "le_psl (alone_env env)" now host k global "Some out"]
      touches_own_host by fastforce
  show "registry_wf reg \<Longrightarrow>
      registry_record_outcome (le_psl (alone_env env)) now host k out reg = Some reg' \<Longrightarrow>
      own_host (le_psl (alone_env env)) host reg reg'" for reg now k out reg'
    using registry_record_outcome_touches [of reg "le_psl (alone_env env)" now host k out]
      touches_own_host by fastforce
qed (auto intro: own_host_trans simp: acquire_with_guard_own_host alone_env_def)

text \<open>
  A ladder that runs alone on a well-formed registry returns, leaves the registry well
  formed, and changes no breaker of another host: the entries of other registrable hosts are
  kept and their breakers are exactly as before.
\<close>

theorem ladder_spares_other_hosts:
  assumes "registry_wf (sh_breakers (w_shared w))"
  shows "\<exists>res w'. fetch_with_js (alone_env env) rd req hint w = Some (res, w')
    \<and> registry_wf (sh_breakers (w_shared w'))
    \<and> (\<forall>other k a. normalize_host (le_psl env) other \<noteq> normalize_host (le_psl env) (host_of env (jr_url req))
         \<and> map_of (reg_host (sh_breakers (w_shared w))) (normalize_host (le_psl env) other, k) = Some a
         \<longrightarrow> map_of (reg_host (sh_breakers (w_shared w'))) (normalize_host (le_psl env) other, k) = Some a
           \<and> inner_at (sh_breakers (w_shared w')) a = inner_at (sh_breakers (w_shared w)) a)"
proof -
  let ?e = "alone_env env" and ?r = "breakers_of w"
  have h: "host_of ?e (jr_url req) = host_of env (jr_url req)" and p: "le_psl ?e = le_psl env"
    by (simp_all add: alone_env_def host_of_def)
  obtain res w' where f: "fetch_with_js ?e rd req hint w = Some (res, w')"
    and s: "own.step_ok env (host_of env (jr_url req)) w w'"
    using own.ladder_step [OF assms _ h, of rd hint] by (auto simp: own.allowed_def)
  let ?r' = "breakers_of w'" and ?n = "normalize_host (le_psl env)"
  from s [unfolded own.step_ok_def] obtain A where A: "registry_wf ?r'" "frame A ?r ?r'" "\<forall>a \<in> A. a \<in> snd ` set (reg_global ?r)
      \<or> (\<exists>k. map_of (reg_host ?r') (?n (host_of env (jr_url req)), k) = Some a)"
    by (auto simp: own_host_def p)
  have "map_of (reg_host ?r') (?n other, k) = Some a \<and> inner_at ?r' a = inner_at ?r a"
    if o: "?n other \<noteq> ?n (host_of env (jr_url req))" "map_of (reg_host ?r) (?n other, k) = Some a" for other k a
  proof -
    have m: "map_of (reg_host ?r') (?n other, k) = Some a" using frame_host [OF A(2) o(2)] .
    have "a \<notin> snd ` set (reg_global ?r)"
      using assms map_of_live [OF o(2)] by (auto simp: registry_wf_def live_addrs_def)
    moreover have "map_of (reg_host ?r') (?n (host_of env (jr_url req)), k') \<noteq> Some a" for k'
      using addrs_apart(1) [OF A(1) m] o(1) by blast
    ultimately have "a \<notin> A" using A(3) by blast
    moreover have "a < length (reg_heap ?r)"
      using live_bound(1) [OF assms] map_of_SomeD [OF o(2)] by blast
    ultimately show ?thesis using A(2) m by (simp add: frame_def)
  qed
  then show ?thesis using f A(1) by blast
qed

subsection \<open>Walls and dead origins spare the global breakers\<close>

text \<open>A closed breaker at \<open>a\<close> is still closed since the same moment, with the same window.\<close>

definition calm_at :: "addr \<Rightarrow> breaker_registry \<Rightarrow> breaker_registry \<Rightarrow> bool" where
  "calm_at a reg reg' \<longleftrightarrow>
    (\<forall>began. bstate (inner_at reg a) = Closed began \<longrightarrow>
       bstate (inner_at reg' a) = Closed began \<and> bwindow (inner_at reg' a) = bwindow (inner_at reg a))"

definition calm_globals :: "breaker_registry \<Rightarrow> breaker_registry \<Rightarrow> bool" where
  "calm_globals reg reg' \<longleftrightarrow> registry_wf reg' \<and> reg_global reg' = reg_global reg
    \<and> (\<forall>a \<in> snd ` set (reg_global reg). calm_at a reg reg')"

lemma calm_at_refl [simp]: "calm_at a reg reg"
  by (simp add: calm_at_def)

lemma calm_at_trans: "calm_at a r1 r2 \<Longrightarrow> calm_at a r2 r3 \<Longrightarrow> calm_at a r1 r3"
  by (simp add: calm_at_def)

lemma calm_globals_trans: "calm_globals r1 r2 \<Longrightarrow> calm_globals r2 r3 \<Longrightarrow> calm_globals r1 r3"
  unfolding calm_globals_def by (auto intro: calm_at_trans)

lemma calm_at_frame: "frame A r1 r2 \<Longrightarrow> a < length (reg_heap r1) \<Longrightarrow> a \<notin> A \<Longrightarrow> calm_at a r1 r2"
  by (simp add: frame_def calm_at_def)

lemma try_acquire_calm:
  assumes "registry_wf reg" and "b < length (reg_heap reg)"
  shows "calm_at a reg (snd (try_acquire_at now b reg))"
proof -
  obtain p r where r: "try_acquire_at now b reg = (p, r)" by fastforce
  have "inner_at r = (inner_at reg)(b := snd (inner_try_acquire (reg_config reg) now (inner_at reg b)))"
    using try_acquire_at_eqs [OF assms r] by simp
  then show ?thesis using r
    by (auto simp: calm_at_def inner_try_acquire_def lazy_evaluate_def Let_def split: breaker_state.splits)
qed

lemma cancel_calm:
  assumes "b < length (reg_heap reg)"
  shows "calm_at a reg (cancel_probe_at b reg)"
  using inner_at_cancel [OF assms] by (auto simp: calm_at_def inner_cancel_probe_def split: breaker_state.splits)

lemma global_live: "registry_wf reg \<Longrightarrow> a \<in> snd ` set (reg_global reg) \<Longrightarrow> a < length (reg_heap reg)"
  by (auto simp: registry_wf_def live_addrs_def)

lemma frame_reg_global: "frame A r1 r2 \<Longrightarrow> reg_global r2 = reg_global r1"
  by (simp add: frame_def)

text \<open>The building blocks of the registry calls.\<close>

named_theorems calm \<open>steps that keep the global breakers calm\<close>

lemma host_for_calm [calm]:
  assumes "registry_wf reg" and "host_for psl now host k reg = (h, r)"
  shows "calm_globals reg r"
  using host_for_spec [OF assms] global_live [OF assms(1)]
  by (auto simp: calm_globals_def frame_reg_global intro: calm_at_frame)

lemma try_acquire_calm_globals [calm]:
  assumes "registry_wf reg" and "b < length (reg_heap reg)" and "try_acquire_at now b reg = (p, r)"
  shows "calm_globals reg r"
  using try_acquire_at_ok [OF assms(1,2), of now] try_acquire_calm [OF assms(1,2), of _ now] assms(3)
  by (auto simp: calm_globals_def frame_reg_global)

lemma cancel_calm_globals [calm]:
  assumes "registry_wf reg" and "b < length (reg_heap reg)"
  shows "calm_globals reg (cancel_probe_at b reg)"
  using cancel_probe_at_ok [OF assms] cancel_calm [OF assms(2)]
  by (auto simp: calm_globals_def frame_reg_global)

lemma record_host_calm:
  assumes "registry_wf reg" and "h < length (reg_heap reg)" and "h \<notin> snd ` set (reg_global reg)"
  shows "calm_globals reg (snd (record_outcome_at now out h reg))"
  using record_outcome_at_ok [OF assms(1,2), of now out] global_live [OF assms(1)] assms(3)
  by (auto simp: calm_globals_def frame_reg_global intro!: calm_at_frame)

lemma emit_global:
  "reg_global (emit_breaker_opened t k sc host reg) = reg_global reg"
  "reg_global (emit_ignored k r reg) = reg_global reg"
  by (auto simp: emit_breaker_opened_def emit_ignored_def emit_metric_def split: option.splits)

lemma emit_calm: "calm_globals reg reg' \<Longrightarrow> calm_globals reg (emit_breaker_opened t k sc host reg')"
  unfolding calm_globals_def by (simp add: calm_at_def emit_global)

lemma emit_ignored_calm: "registry_wf reg \<Longrightarrow> calm_globals reg (emit_ignored k r reg)"
  unfolding calm_globals_def by (simp add: calm_at_def emit_global)

lemma calm_wf: "calm_globals a b \<Longrightarrow> registry_wf b"
  by (simp add: calm_globals_def)

lemma registry_try_acquire_calm:
  assumes "registry_wf reg" and "registry_try_acquire psl now host k reg = Some (p, reg')"
  shows "calm_globals reg reg'"
proof -
  obtain g where g: "global_for k reg = Some g" using global_for_total [OF assms(1)] by blast
  obtain h r1 where h: "host_for psl now host k reg = (h, r1)" by fastforce
  note mid = host_for_mid [OF assms(1) g frame_refl assms(1) h]
  obtain pg r2 where r2: "try_acquire_at now g r1 = (pg, r2)" by fastforce
  then have ok2: "registry_wf r2" "frame {g} r1 r2" using try_acquire_at_ok [of r1 g now] mid by auto
  obtain ph r3 where r3: "try_acquire_at now h r2 = (ph, r3)" by fastforce
  have h2: "h < length (reg_heap r2)" using mid frame_length [OF ok2(2)] by blast
  then have ok3: "registry_wf r3" "frame {h} r2 r3" using try_acquire_at_ok [of r2 h now] ok2 r3 by auto
  have g3: "g < length (reg_heap r3)" using mid frame_length ok2(2) ok3(2) by blast
  have c1: "calm_globals reg r1" using host_for_calm [OF assms(1) h] .
  have c2: "calm_globals reg r2"
    using calm_globals_trans [OF c1 try_acquire_calm_globals [OF _ _ r2]] mid by blast
  have c3: "calm_globals reg r3"
    using calm_globals_trans [OF c2 try_acquire_calm_globals [OF ok2(1) h2 r3]] .
  have "calm_globals reg (cancel_probe_at g r3)"
    using calm_globals_trans [OF c3 cancel_calm_globals [OF ok3(1) g3]] .
  then show ?thesis
    using assms(2) g h r2 r3 c2 c3 by (auto simp: registry_try_acquire_def Let_def split: if_splits)
qed

lemma acquire_with_guard_calm:
  assumes "registry_wf reg" and "acquire_with_guard psl now host k reg = Some ((p, g), reg')"
  shows "calm_globals reg reg' \<and> calm_globals reg (guard_drop g reg')"
proof -
  obtain r1 where r1: "registry_try_acquire psl now host k reg = Some (p, r1)"
    using assms(2) by (auto simp: acquire_with_guard_def Let_def split: bind_splits if_splits prod.splits)
  note c1 = registry_try_acquire_calm [OF assms(1) r1]
  note wf1 = calm_wf [OF c1]
  show ?thesis
  proof (cases "p = Probe")
    case False
    then have "reg' = r1" "\<not> guard_armed g" using assms(2) r1 by (auto simp: acquire_with_guard_def)
    then show ?thesis using c1 by (simp add: guard_drop_def)
  next
    case True
    obtain a where a: "global_for k r1 = Some a" using global_for_total [OF wf1] by blast
    obtain h r2 where h: "host_for psl now host k r1 = (h, r2)" by fastforce
    note mid = host_for_mid [OF wf1 a frame_refl wf1 h]
    have g: "g = \<lparr> guard_global = Some a, guard_host = Some h, guard_armed = True \<rparr>" "reg' = r2"
      using assms(2) r1 True a h by (auto simp: acquire_with_guard_def)
    have c2: "calm_globals reg r2" using calm_globals_trans [OF c1 host_for_calm [OF wf1 h]] .
    have ok: "registry_wf (cancel_probe_at a r2)" "frame {a} r2 (cancel_probe_at a r2)"
      using cancel_probe_at_ok [of r2 a] mid by auto
    then have l: "h < length (reg_heap (cancel_probe_at a r2))" using mid frame_length by blast
    have "calm_globals r2 (cancel_probe_at a r2)" using cancel_calm_globals mid by blast
    then have "calm_globals reg (cancel_probe_at h (cancel_probe_at a r2))"
      using calm_globals_trans c2 cancel_calm_globals [OF ok(1) l] by blast
    then show ?thesis using c2 g by (simp add: guard_drop_def)
  qed
qed

lemma host_only_calm:
  assumes "registry_wf reg"
  shows "calm_globals reg (snd (registry_try_acquire_host_only psl now host k reg))"
proof -
  obtain h r1 where h: "host_for psl now host k reg = (h, r1)" by fastforce
  obtain p r2 where r2: "try_acquire_at now h r1 = (p, r2)" by fastforce
  note hs = host_for_spec [OF assms h]
  have "calm_globals r1 r2" using try_acquire_calm_globals [OF _ _ r2] hs by blast
  then show ?thesis
    using calm_globals_trans [OF host_for_calm [OF assms h]] h r2
    by (simp add: registry_try_acquire_host_only_def)
qed

lemma scoped_None_calm:
  assumes "registry_wf reg" and "registry_record_scoped_outcome psl now host k None (Some out) reg = Some reg'"
  shows "calm_globals reg reg'"
proof -
  let ?r0 = "emit_ignored k (ignored_reason out) reg"
  obtain g where g: "global_for k reg = Some g" using global_for_total [OF assms(1)] by blast
  have wf0: "registry_wf ?r0" using assms(1) by simp
  have b: "g < length (reg_heap ?r0)" using global_for_bound [OF assms(1) g] by simp
  have wf1: "registry_wf (cancel_probe_at g ?r0)" using cancel_probe_at_ok [OF wf0 b] by simp
  obtain h r2 where h: "host_for psl now host k (cancel_probe_at g ?r0) = (h, r2)" by fastforce
  note hs = host_for_spec [OF wf1 h]
  have c: "calm_globals reg r2"
    using calm_globals_trans [OF calm_globals_trans [OF emit_ignored_calm [OF assms(1)]
        cancel_calm_globals [OF wf0 b]] host_for_calm [OF wf1 h]] .
  have "calm_globals r2 (snd (record_outcome_at now out h r2))" using record_host_calm hs by blast
  then have "calm_globals reg (snd (record_outcome_at now out h r2))" using calm_globals_trans [OF c] by blast
  then show ?thesis
    using assms(2) g h emit_calm
    by (auto simp: registry_record_scoped_outcome_def Let_def split_beta)
qed

interpretation calm: ladder_registry "alone_env env" host calm_globals "\<lambda>g. g = None" for env host
proof unfold_locales
  show "registry_wf reg \<Longrightarrow> calm_globals reg reg" for reg by (simp add: calm_globals_def)
  show "registry_wf reg \<Longrightarrow> global = None \<Longrightarrow>
      registry_record_scoped_outcome (le_psl (alone_env env)) now host k global (Some out) reg = Some reg' \<Longrightarrow>
      calm_globals reg reg'" for reg global now k out reg'
    using scoped_None_calm by blast
qed (auto intro: calm_globals_trans calm_wf host_only_calm simp: acquire_with_guard_calm alone_env_def)

text \<open>
  C10. A site that refuses us does not disable a tier for other sites: if every answer of the
  tiers is a page the checks reject or an origin fault that is no timeout, then a global breaker
  that was closed is still closed since the same moment and its failure window is untouched,
  whatever the ladder did.
\<close>

theorem walls_spare_global_breakers:
  assumes "registry_wf (sh_breakers (w_shared w))"
    and "\<And>t n r. t \<in> set (rd_js rd) \<Longrightarrow> answer t n req = Inr r \<Longrightarrow>
          \<not> accepted (assess (le_lib env) (rd_antibot rd) r)"
    and "\<And>t n e. t \<in> set (rd_js rd) \<Longrightarrow> answer t n req = Inl e \<Longrightarrow>
          is_origin_fault_for_breaker e \<and> \<not> is_timeout e"
    and "global_for k (sh_breakers (w_shared w)) = Some g"
    and "bstate (inner_at (sh_breakers (w_shared w)) g) = Closed began"
  shows "\<exists>res w'. fetch_with_js (alone_env env) rd req hint w = Some (res, w')
    \<and> bstate (inner_at (sh_breakers (w_shared w')) g) = Closed began
    \<and> bwindow (inner_at (sh_breakers (w_shared w')) g) = bwindow (inner_at (sh_breakers (w_shared w)) g)"
proof -
  have l: "le_lib (alone_env env) = le_lib env" by (simp add: alone_env_def)
  have "\<forall>t \<in> set (rd_js rd). calm.allowed env rd req t"
    using assms(2,3) by (auto simp: calm.allowed_def l)
  from calm.ladder_step [OF assms(1) this refl] obtain res w' where
    f: "fetch_with_js (alone_env env) rd req hint w = Some (res, w')"
    and s: "calm.step_ok w w'" by blast
  have "calm_at g (breakers_of w) (breakers_of w')"
    using s [unfolded calm.step_ok_def] global_for_live [OF assms(4)] by (auto simp: calm_globals_def)
  then show ?thesis using f assms(5) by (auto simp: calm_at_def)
qed

subsection \<open>The two frames on a concrete request\<close>

definition demo_site :: ladder_env where
  "demo_site = demo_env\<lparr> le_host := (\<lambda>_. Some ''example.org'') \<rparr>"

text \<open>A registry that already has a breaker for the host \<open>10.0.0.1\<close>.\<close>

definition demo_busy :: world where
  "demo_busy = with_breakers
    (snd (registry_try_acquire_host_only (\<lambda>_. None) 1 ''10.0.0.1'' Http (registry_new demo_config 0))) demo_world"

lemma demo_busy_wf: "registry_wf (sh_breakers (w_shared demo_busy))"
  using registry_try_acquire_host_only_ok [OF registry_new_wf]
  by (simp add: demo_busy_def with_breakers_def touches_def)

abbreviation demo_walled :: renderer where
  "demo_walled \<equiv> demo_renderer [demo_tier ''lightpanda'' (Inr (demo_page 200 demo_wall))]"

theorem ladder_spares_other_hosts_witness:
  "\<exists>res w'. fetch_with_js (alone_env demo_site) demo_walled (demo_request None) False demo_busy = Some (res, w')
    \<and> inner_at (sh_breakers (w_shared w')) 7 = inner_at (sh_breakers (w_shared demo_busy)) 7"
proof -
  have n: "normalize_host (le_psl demo_site) ''10.0.0.1'' = ''10.0.0.1''" by code_simp
  have o: "normalize_host (le_psl demo_site) (host_of demo_site (jr_url (demo_request None))) = ''example.org''"
    by code_simp
  have m: "map_of (reg_host (sh_breakers (w_shared demo_busy))) (''10.0.0.1'', Http) = Some 7" by code_simp
  have "normalize_host (le_psl demo_site) ''10.0.0.1''
      \<noteq> normalize_host (le_psl demo_site) (host_of demo_site (jr_url (demo_request None)))"
    using n o by simp
  moreover obtain res w' where
    "fetch_with_js (alone_env demo_site) demo_walled (demo_request None) False demo_busy = Some (res, w')"
    and "\<forall>other k a. normalize_host (le_psl demo_site) other
          \<noteq> normalize_host (le_psl demo_site) (host_of demo_site (jr_url (demo_request None)))
        \<and> map_of (reg_host (sh_breakers (w_shared demo_busy))) (normalize_host (le_psl demo_site) other, k) = Some a
        \<longrightarrow> map_of (reg_host (sh_breakers (w_shared w'))) (normalize_host (le_psl demo_site) other, k) = Some a
          \<and> inner_at (sh_breakers (w_shared w')) a = inner_at (sh_breakers (w_shared demo_busy)) a"
    using ladder_spares_other_hosts [OF demo_busy_wf, of demo_site demo_walled "demo_request None" False]
    by blast
  moreover have "map_of (reg_host (sh_breakers (w_shared demo_busy)))
      (normalize_host (le_psl demo_site) ''10.0.0.1'', Http) = Some 7"
    using m n by simp
  ultimately show ?thesis by blast
qed

theorem walls_spare_global_breakers_witness:
  "\<exists>res w'. fetch_with_js (alone_env demo_site) demo_walled (demo_request None) False demo_busy = Some (res, w')
    \<and> bstate (inner_at (sh_breakers (w_shared w')) 1) = Closed 0"
proof -
  have g: "global_for Lightpanda (sh_breakers (w_shared demo_busy)) = Some 1" by code_simp
  have c: "bstate (inner_at (sh_breakers (w_shared demo_busy)) 1) = Closed 0" by code_simp
  have "jb_bot_wall (assess demo_lib antibot_config_default (demo_page 200 demo_wall))" by code_simp
  then have "\<And>t n r. t \<in> set (rd_js demo_walled) \<Longrightarrow> answer t n (demo_request None) = Inr r \<Longrightarrow>
      \<not> accepted (assess (le_lib demo_site) (rd_antibot demo_walled) r)"
    by (simp add: demo_renderer_def demo_tier_def answer_def demo_site_def demo_env_def accepted_def)
  moreover have "\<And>t n e. t \<in> set (rd_js demo_walled) \<Longrightarrow> answer t n (demo_request None) \<noteq> Inl e"
    by (simp add: demo_renderer_def demo_tier_def answer_def)
  ultimately show ?thesis
    using walls_spare_global_breakers [OF demo_busy_wf _ _ g c, of demo_walled "demo_request None" demo_site False]
    by blast
qed

subsection \<open>A probe the leak-through attempt keeps\<close>

text \<open>
  The leak-through loop acquires the host breaker, looks at the clock again and moves on when the
  budget has drained, without giving the permit back. When the permit was a probe of a half-open
  breaker, its slot stays taken although no request is made.
\<close>

lemma leak_keeps_probe:
  assumes "trackable host t = Some k" and "k \<in> set (la_skipped la)"
    and "acquire_host_only env host k w = (Probe, w1)" and "read_budget env req w1 = (b, w2)"
    and "b < min_tier_budget"
  shows "leak_tiers env rd req host [t] la w = Some (None, la, w2)
    \<and> sh_breakers (w_shared w2) = sh_breakers (w_shared w1) \<and> w_calls w2 = w_calls w"
proof -
  have "w_calls w1 = w_calls w" using acquire_host_only_calls [of env host k w] assms(3) by simp
  then show ?thesis
    using assms by (auto simp: read_budget_def read_clock_def)
qed

text \<open>On a concrete half-open host breaker: one probe more is in flight afterwards.\<close>

definition demo_half_open :: world where
  "demo_half_open =
    with_breakers (demo_registry\<lparr> reg_host := [((''example.org'', Lightpanda), 0)], reg_global := [] \<rparr>) demo_world"

lemma leak_keeps_probe_witness:
  "map_option (\<lambda>(res, la, w). (length (w_calls w), bstate (inner_at (sh_breakers (w_shared w)) 0)))
     (leak_tiers (demo_site\<lparr> le_clock := (\<lambda>n. if n = 0 then 0 else 8000000000) \<rparr>) demo_walled (demo_request None)
       ''example.org'' (rd_js demo_walled) (note_skip Lightpanda (ladder_new False)) demo_half_open)
   = Some (0, HalfOpen 2 0 0 0)
   \<and> bstate (inner_at (sh_breakers (w_shared demo_half_open)) 0) = HalfOpen 1 0 0 0"
  by code_simp

end
