(* ===== verification/Renderer_Props.thy ===== *)
theory Renderer_Props
  imports Ladder_Breakers
begin

section \<open>A whole fetch\<close>

text \<open>
  Properties of \<open>FallbackRenderer::fetch\<close>: which tiers a request calls, in which order and with
  which headers; that a wall is not handed out as a page; that an error which no browser can mend
  is final; and that the permit of a request is given back.
\<close>

subsection \<open>The calls of a request\<close>

text \<open>A stored clearance in place of the caller's headers: it covers the host, is alive, comes from
  the cache of the request's own registrable domain, and the request goes out directly.\<close>

definition cleared_headers :: "ladder_env \<Rightarrow> renderer \<Rightarrow> js_request \<Rightarrow> world \<Rightarrow> headers \<Rightarrow> bool" where
  "cleared_headers env rd req w hs \<longleftrightarrow>
    (\<exists>host cl. le_host env (jr_url req) = Some host \<and> \<not> rd_http_has_proxy rd
      \<and> \<not> caller_identifies (jr_headers req) \<and> \<not> should_proxy (le_psl env) host (sh_egress (w_shared w))
      \<and> cache_get (sh_clearance (w_shared w)) (normalize_host (le_psl env) host) = Some cl
      \<and> le_clock env (w_reads w) < cl_expires_at cl \<and> covers cl host
      \<and> hs = inject_clearance host cl (jr_headers req))"

lemma clearance_for_spec:
  assumes "clearance_for env rd (jr_url req) (jr_headers req) w = (found, w1)"
  shows "w_calls w1 = w_calls w \<and> sh_limiters (w_shared w1) = sh_limiters (w_shared w)
    \<and> (\<forall>host cl. found = Some (host, cl) \<longrightarrow>
         cleared_headers env rd req w (inject_clearance host cl (jr_headers req)))"
proof (cases "rd_http_has_proxy rd \<or> caller_identifies (jr_headers req) \<or> le_host env (jr_url req) = None
    \<or> should_proxy (le_psl env) (the (le_host env (jr_url req))) (sh_egress (w_shared w))")
  case True
  then have "clearance_for env rd (jr_url req) (jr_headers req) w = (None, w)"
    by (cases "le_host env (jr_url req)") (auto simp: clearance_for_def)
  then show ?thesis using assms by simp
next
  case False
  then obtain host where h: "le_host env (jr_url req) = Some host"
    and n: "\<not> rd_http_has_proxy rd" "\<not> caller_identifies (jr_headers req)"
      "\<not> should_proxy (le_psl env) host (sh_egress (w_shared w))" by auto
  obtain r cache where g: "clearance_get (le_psl env) (le_clock env (w_reads w)) host (sh_clearance (w_shared w)) = (r, cache)"
    by fastforce
  have live: "cache_get (sh_clearance (w_shared w)) (normalize_host (le_psl env) host) = Some cl
      \<and> le_clock env (w_reads w) < cl_expires_at cl" if "r = Some cl" for cl
    using clearance_get_live [of "le_psl env" "le_clock env (w_reads w)" host "sh_clearance (w_shared w)" cl] g that
    by simp
  have "found = (case r of Some c \<Rightarrow> if covers c host then Some (host, c) else None | None \<Rightarrow> None)"
    "w_calls w1 = w_calls w" "sh_limiters (w_shared w1) = sh_limiters (w_shared w)"
    using assms h n g
    by (auto simp: clearance_for_def read_clock_def with_shared_def Let_def split: option.splits if_splits)
  then show ?thesis
    using live h n by (auto simp: cleared_headers_def split: option.splits if_splits)
qed

lemma http_fetch_spec:
  assumes "http_fetch env rd (jr_url req) (jr_headers req) d w = (ans, w')"
  shows "\<exists>c. w_calls w' = w_calls w @ [c] \<and> tc_name c = tier_name (rd_http rd)
    \<and> (tc_headers c = jr_headers req \<or> cleared_headers env rd req w (tc_headers c))
    \<and> ans = tier_fetch (rd_http rd) (length (w_calls w)) (jr_url req) (tc_headers c) None d"
proof -
  obtain found w1 where f: "clearance_for env rd (jr_url req) (jr_headers req) w = (found, w1)" by fastforce
  note s = clearance_for_spec [OF f]
  show ?thesis
  proof (cases found)
    case None
    then show ?thesis using assms f s by (auto simp: http_fetch_def call_tier_def Let_def)
  next
    case (Some p)
    obtain host cl where p: "p = (host, cl)" by fastforce
    let ?hs = "inject_clearance host cl (jr_headers req)"
    obtain a w2 where a: "call_tier env (rd_http rd) (jr_url req) ?hs None d None w1 = (a, w2)" by fastforce
    have "ans = a" "w_calls w' = w_calls w2"
      using assms f Some p a by (auto simp: http_fetch_def Let_def call_log split: sum.splits if_splits)
    moreover have "cleared_headers env rd req w ?hs" using s Some p by blast
    ultimately show ?thesis using a s by (auto simp: call_tier_def Let_def)
  qed
qed

lemma hop_deadline_calls: "hop_deadline env rd req w = (d, w') \<Longrightarrow> w_calls w' = w_calls w"
  by (auto simp: hop_deadline_def Let_def read_budget_def read_clock_def split: if_splits prod.splits)

lemma hop_calls:
  assumes "try_impersonated_hop env rd req trigger w = (res, w')"
  shows "\<exists>cs. w_calls w' = w_calls w @ cs \<and> (\<forall>c \<in> set cs. tc_headers c = jr_headers req)
    \<and> map tc_name cs \<in> {[]} \<union> (\<lambda>t. [tier_name t]) ` set_option (rd_impersonated rd)"
  using assms hop_deadline_calls
  by (fastforce simp: try_impersonated_hop_def call_tier_def Let_def
      split: option.splits prod.splits sum.splits if_splits)

lemma ladder_calls:
  assumes "fetch_with_js env rd req hint w = Some (res, w')"
    and "distinct (map (\<lambda>t. renderer_kind_for (tier_name t)) (rd_js rd))"
  shows "\<exists>cs. w_calls w' = w_calls w @ cs \<and> (\<forall>c \<in> set cs. tc_headers c = jr_headers req)
    \<and> distinct (map tc_name cs) \<and> set (map tc_name cs) \<subseteq> tier_name ` set (rd_js rd)
    \<and> (is_user_pinned req \<longrightarrow> (\<forall>c \<in> set cs. jr_requested req = Some (tc_name c)))"
proof -
  obtain cs where run: "ladder_run env rd req (ladder_tiers env rd req w) hint (length (w_calls w)) cs res"
    and l: "w_calls w' = w_calls w @ cs" using fetch_with_js_refines [OF assms(1)] by blast
  note c = ladder_run_calls [OF run ladder_tiers_distinct [OF assms(2)]]
  have pool: "tier_name t \<in> tier_name ` set (rd_js rd) \<and> (is_user_pinned req \<longrightarrow> jr_requested req = Some (tier_name t))"
    if "t \<in> set (ladder_tiers env rd req w)" for t
    using that ladder_tiers_pool [of env rd req w] by auto
  have "\<exists>t \<in> set (ladder_tiers env rd req w). tc_name x = tier_name t" if "x \<in> set cs" for x
    using c that by auto
  then have "\<forall>x \<in> set cs. tc_name x \<in> tier_name ` set (rd_js rd)
      \<and> (is_user_pinned req \<longrightarrow> jr_requested req = Some (tc_name x))"
    using pool by fastforce
  then show ?thesis
    using c l by (intro exI [of _ cs]) (auto simp: well_asked_def)
qed

definition js_log :: "renderer \<Rightarrow> js_request \<Rightarrow> tier_call list \<Rightarrow> bool" where
  "js_log rd req cs \<longleftrightarrow> (\<forall>c \<in> set cs. tc_headers c = jr_headers req)
    \<and> distinct (map tc_name cs) \<and> set (map tc_name cs) \<subseteq> tier_name ` set (rd_js rd)
    \<and> (is_user_pinned req \<longrightarrow> (\<forall>c \<in> set cs. jr_requested req = Some (tc_name c)))"

definition http_log :: "ladder_env \<Rightarrow> renderer \<Rightarrow> js_request \<Rightarrow> world \<Rightarrow> tier_call \<Rightarrow> bool" where
  "http_log env rd req w c \<longleftrightarrow> tc_name c = tier_name (rd_http rd)
    \<and> (tc_headers c = jr_headers req \<or> cleared_headers env rd req w (tc_headers c))"

definition hop_log :: "renderer \<Rightarrow> js_request \<Rightarrow> tier_call list \<Rightarrow> bool" where
  "hop_log rd req cs \<longleftrightarrow> (\<forall>c \<in> set cs. tc_headers c = jr_headers req)
    \<and> (cs = [] \<or> (\<exists>t c. rd_impersonated rd = Some t \<and> cs = [c] \<and> tc_name c = tier_name t))"

lemma js_log_Nil [simp]: "js_log rd req []"
  by (simp add: js_log_def)

lemma hop_log_Nil [simp]: "hop_log rd req []"
  by (simp add: hop_log_def)

lemma ladder_js_log:
  assumes "fetch_with_js env rd req hint w = Some (res, w')"
    and "distinct (map (\<lambda>t. renderer_kind_for (tier_name t)) (rd_js rd))"
  shows "\<exists>cs. w_calls w' = w_calls w @ cs \<and> js_log rd req cs"
  using ladder_calls [OF assms] by (simp add: js_log_def)

lemma hop_hop_log:
  assumes "try_impersonated_hop env rd req trigger w = (res, w')"
  shows "\<exists>cs. w_calls w' = w_calls w @ cs \<and> hop_log rd req cs"
  using hop_calls [OF assms] by (cases "rd_impersonated rd") (auto simp: hop_log_def)

lemma http_http_log:
  assumes "http_fetch env rd (jr_url req) (jr_headers req) d w = (ans, w')"
  shows "\<exists>c. w_calls w' = w_calls w @ [c] \<and> http_log env rd req w c"
  using http_fetch_spec [OF assms] by (auto simp: http_log_def)

lemma escalate_log:
  assumes "escalate_after_http_failure env rd req e w = Some (res, w')"
    and "distinct (map (\<lambda>t. renderer_kind_for (tier_name t)) (rd_js rd))"
  shows "\<exists>cs. w_calls w' = w_calls w @ cs \<and> js_log rd req cs"
  using assms ladder_js_log by (fastforce simp: escalate_after_http_failure_def split: bind_splits prod.splits)

lemma forced_log:
  assumes "fetch_forced env rd req w = Some (res, w')"
    and "distinct (map (\<lambda>t. renderer_kind_for (tier_name t)) (rd_js rd))"
  shows "\<exists>c js. w_calls w' = w_calls w @ c # js \<and> http_log env rd req w c \<and> js_log rd req js"
proof -
  obtain ans w1 where h: "http_fetch env rd (jr_url req) (jr_headers req) (jr_deadline req) w = (ans, w1)" by fastforce
  obtain c where c: "w_calls w1 = w_calls w @ [c]" "http_log env rd req w c" using http_http_log [OF h] by blast
  have "\<exists>js. w_calls w' = w_calls w1 @ js \<and> js_log rd req js"
  proof (cases ans)
    case (Inl e)
    with assms(1) h show ?thesis
      using escalate_log [OF _ assms(2)] by (auto simp: fetch_forced_def split: if_splits)
  next
    case (Inr r)
    show ?thesis
    proof (cases "is_pdf r \<or> rd_js rd = []")
      case True
      with assms(1) h Inr show ?thesis by (auto simp: fetch_forced_def split: if_splits)
    next
      case False
      obtain t0 w2 where t0: "read_clock env w1 = (t0, w2)" by fastforce
      obtain hint js w3 where l: "fetch_with_js env rd req hint w2 = Some (js, w3)" and "w_calls w' = w_calls w3"
        using assms(1) h Inr False t0
        by (auto simp: fetch_forced_def Let_def read_clock_def split: bind_splits)
      moreover have "w_calls w2 = w_calls w1" using t0 read_clock_calls [of env w1] by simp
      ultimately show ?thesis using ladder_js_log [OF l assms(2)] by simp
    qed
  qed
  then show ?thesis using c by auto
qed

lemma auto_result_log:
  assumes "auto_result env rd req r w = Some (res, w')"
    and "distinct (map (\<lambda>t. renderer_kind_for (tier_name t)) (rd_js rd))"
  shows "\<exists>cs. w_calls w' = w_calls w @ cs \<and> js_log rd req cs"
  using assms(1) ladder_js_log [OF _ assms(2)]
  by (fastforce simp: auto_result_def split: bind_splits prod.splits if_splits)

lemma auto_log:
  assumes "fetch_auto env rd req w = Some (res, w')"
    and "distinct (map (\<lambda>t. renderer_kind_for (tier_name t)) (rd_js rd))"
  shows "\<exists>c hop js. w_calls w' = w_calls w @ c # hop @ js \<and> http_log env rd req w c
    \<and> hop_log rd req hop \<and> js_log rd req js"
proof -
  obtain ans w1 where h: "http_fetch env rd (jr_url req) (jr_headers req) (jr_deadline req) w = (ans, w1)" by fastforce
  obtain c where c: "w_calls w1 = w_calls w @ [c]" "http_log env rd req w c" using http_http_log [OF h] by blast
  have hop: "\<exists>hop. w_calls w2 = w_calls w1 @ hop \<and> hop_log rd req hop"
    if "(if b then try_impersonated_hop env rd req tr w1 else (None, w1)) = (x, w2)" for b tr x w2
    using that hop_hop_log by (cases b) auto
  have "\<exists>hop js. w_calls w' = w_calls w1 @ hop @ js \<and> hop_log rd req hop \<and> js_log rd req js"
  proof (cases ans)
    case (Inl e)
    obtain x w2 where x: "(if fingerprint_shaped_error e then try_impersonated_hop env rd req Transport w1
        else (None, w1)) = (x, w2)" by fastforce
    have "\<exists>js. w_calls w' = w_calls w2 @ js \<and> js_log rd req js"
      using assms(1) h Inl x escalate_log [OF _ assms(2)]
      by (auto simp: fetch_auto_def Let_def split: option.splits if_splits)
    then show ?thesis using hop [OF x] by fastforce
  next
    case (Inr r)
    show ?thesis
    proof (cases "is_pdf r")
      case True
      then show ?thesis using assms(1) h Inr by (intro exI [of _ "[]"]) (auto simp: fetch_auto_def)
    next
      case False
      obtain x w2 where x: "(if wants_wall_hop env rd req r then try_impersonated_hop env rd req Wall w1
          else (None, w1)) = (x, w2)" by fastforce
      have "\<exists>js. w_calls w' = w_calls w2 @ js \<and> js_log rd req js"
        using assms(1) h Inr x False auto_result_log [OF _ assms(2)]
        by (auto simp: fetch_auto_def Let_def split: option.splits)
      then show ?thesis using hop [OF x] by fastforce
    qed
  qed
  then show ?thesis using c by auto
qed

lemma plain_log:
  assumes "fetch_plain env rd req w = (res, w')"
  shows "\<exists>c. w_calls w' = w_calls w @ [c] \<and> http_log env rd req w c"
  using assms http_http_log by (auto simp: fetch_plain_def split: prod.splits sum.splits)

lemma dispatch_log:
  assumes "fetch_dispatch env rd req render_js w = Some (res, w')"
    and "jr_requested req \<noteq> Some ''impersonated-http''"
    and "distinct (map (\<lambda>t. renderer_kind_for (tier_name t)) (rd_js rd))"
  shows "\<exists>c hop js. w_calls w' = w_calls w @ c # hop @ js \<and> http_log env rd req w c
    \<and> hop_log rd req hop \<and> js_log rd req js
    \<and> (resolve_render_js render_js (rd_render_js_default rd) \<noteq> None \<longrightarrow> hop = [])
    \<and> (resolve_render_js render_js (rd_render_js_default rd) = Some False \<longrightarrow> js = [])"
proof -
  let ?mode = "resolve_render_js render_js (rd_render_js_default rd)"
  consider "?mode = Some False" | "?mode = Some True" | "?mode = None" by (cases ?mode) auto
  then show ?thesis
  proof cases
    case 1
    then have "fetch_plain env rd req w = (res, w')"
      using assms(1,2) by (auto simp: fetch_dispatch_def)
    from plain_log [OF this] show ?thesis using js_log_Nil hop_log_Nil 1 by fastforce
  next
    case 2
    then have "fetch_forced env rd req w = Some (res, w')"
      using assms(1,2) by (auto simp: fetch_dispatch_def)
    from forced_log [OF this assms(3)] show ?thesis using hop_log_Nil 2 by fastforce
  next
    case 3
    then have "fetch_auto env rd req w = Some (res, w')"
      using assms(1,2) by (auto simp: fetch_dispatch_def)
    from auto_log [OF this assms(3)] show ?thesis using 3 by fastforce
  qed
qed


text \<open>
  C11. Stored session cookies leave only with the HTTP call of a request that goes out directly and
  brings neither cookies nor a user agent of its own. They come from an entry of the request's
  registrable domain that has not expired, only those whose domain matches the host are sent,
  the clearance cookie among them, and the other headers of the caller stay as they are.
\<close>

theorem clearance_stays_home:
  assumes "fetch_dispatch env rd req render_js w = Some (res, w')"
    and "jr_requested req \<noteq> Some ''impersonated-http''"
    and "distinct (map (\<lambda>t. renderer_kind_for (tier_name t)) (rd_js rd))"
    and "w_calls w' = w_calls w @ cs" and "c \<in> set cs" and "tc_headers c \<noteq> jr_headers req"
  shows "\<exists>host cl ks. le_host env (jr_url req) = Some host \<and> \<not> rd_http_has_proxy rd
    \<and> \<not> should_proxy (le_psl env) host (sh_egress (w_shared w)) \<and> \<not> caller_identifies (jr_headers req)
    \<and> cache_get (sh_clearance (w_shared w)) (normalize_host (le_psl env) host) = Some cl
    \<and> le_clock env (w_reads w) < cl_expires_at cl
    \<and> set ks = {k \<in> set (cl_cookies cl). cookie_matches_host (ck_domain k) host}
    \<and> ''cf_clearance'' \<in> ck_name ` set ks
    \<and> map_of (tc_headers c) ''Cookie'' = Some (join_with ''; '' (map (\<lambda>k. ck_name k @ ''='' @ ck_value k) ks))
    \<and> map_of (tc_headers c) ''User-Agent'' = Some (cl_user_agent cl)
    \<and> (\<forall>h. h \<notin> {''Cookie'', ''User-Agent''} \<longrightarrow> map_of (tc_headers c) h = map_of (jr_headers req) h)
    \<and> c = hd cs \<and> tc_name c = tier_name (rd_http rd)"
proof -
  obtain c0 hop js where l: "w_calls w' = w_calls w @ c0 # hop @ js" "http_log env rd req w c0"
      "hop_log rd req hop" "js_log rd req js"
    using dispatch_log [OF assms(1-3)] by blast
  have cs: "cs = c0 # hop @ js" using l(1) assms(4) by simp
  then have c0: "c = c0" using l assms(5,6) by (auto simp: hop_log_def js_log_def)
  then have "cleared_headers env rd req w (tc_headers c)" "tc_name c = tier_name (rd_http rd)"
    using l(2) assms(6) by (auto simp: http_log_def)
  then obtain host cl where h: "le_host env (jr_url req) = Some host" "\<not> rd_http_has_proxy rd"
      "\<not> caller_identifies (jr_headers req)" "\<not> should_proxy (le_psl env) host (sh_egress (w_shared w))"
      "cache_get (sh_clearance (w_shared w)) (normalize_host (le_psl env) host) = Some cl"
      "le_clock env (w_reads w) < cl_expires_at cl" "covers cl host"
      "tc_headers c = inject_clearance host cl (jr_headers req)"
    by (auto simp: cleared_headers_def)
  let ?ks = "filter (\<lambda>k. cookie_matches_host (ck_domain k) host) (cl_cookies cl)"
  obtain k where "k \<in> set ?ks" "ck_name k = ''cf_clearance''"
    using h(7) by (auto simp: covers_def list_ex_iff clearance_cookie_def)
  then have "''cf_clearance'' \<in> ck_name ` set ?ks" by (metis imageI)
  then show ?thesis
    using h cs c0 \<open>tc_name c = tier_name (rd_http rd)\<close>
    by (intro exI [of _ host] exI [of _ cl] exI [of _ ?ks])
      (simp add: inject_clearance_def cookie_header_def update_conv')
qed

subsection \<open>Walls and bodies no browser can read\<close>

lemma ladder_wall_flagged:
  assumes "fetch_with_js env rd req hint w = Some (Inr r, w')"
    and "looks_like_generic_bot_wall (le_lib env) (fr_html r)"
  shows "fr_wall r \<noteq> None"
proof -
  let ?ts = "{t \<in> set (rd_js rd). is_user_pinned req \<longrightarrow> jr_requested req = Some (tier_name t)}"
  obtain cs where "ladder_run env rd req (ladder_tiers env rd req w) hint (length (w_calls w)) cs (Inr r)"
    using fetch_with_js_refines [OF assms(1)] by blast
  from ladder_run_page [OF this ladder_tiers_pool]
  have "good_page env rd req ?ts r \<or> rejected_page env rd req ?ts r" .
  moreover have "jb_bot_wall (judged env rd r)" using assms(2) by (simp add: assess_def Let_def)
  ultimately show ?thesis
    using generic_wall_has_wall [of "judged env rd r"]
    by (auto simp: good_page_def rejected_page_def accepted_def)
qed

lemma settle_wall:
  assumes "settle env req http_result substitute js = Inr r"
    and "looks_like_generic_bot_wall (le_lib env) (fr_html r)"
    and "\<And>r. js = Inr r \<Longrightarrow> looks_like_generic_bot_wall (le_lib env) (fr_html r) \<Longrightarrow> fr_wall r \<noteq> None"
    and "\<And>e. fr_html (substitute e) = fr_html http_result"
  shows "fr_wall r \<noteq> None"
  using assms
  by (auto simp: settle_def demote_wall_to_ladder_failure_def split: sum.splits if_splits)

lemma html_of_stamp [simp]:
  "fr_html (stamp_http_decision r q) = fr_html r" "fr_wall (stamp_http_decision r q) = fr_wall r"
  "fr_content_type (stamp_http_decision r q) = fr_content_type r"
  "fr_status (stamp_http_decision r q) = fr_status r" "fr_warning (stamp_http_decision r q) = fr_warning r"
  "fr_final_url (stamp_http_decision r q) = fr_final_url r"
  by (simp_all add: stamp_http_decision_def)

lemma fall_back_html [simp]: "fr_html (fall_back req e r) = fr_html r"
  by (simp add: fall_back_def)

lemma hop_no_wall:
  assumes "try_impersonated_hop env rd req trigger w = (Some r, w')"
  shows "\<not> looks_like_generic_bot_wall (le_lib env) (fr_html r)"
  using assms
  by (auto simp: try_impersonated_hop_def impersonation_accepted_def impersonation_blocked_def assess_def
      Let_def split: option.splits prod.splits sum.splits if_splits)

lemma pinned_hop_no_wall:
  assumes "fetch_pinned_impersonated env rd req w = (Inr r, w')"
  shows "\<not> looks_like_generic_bot_wall (le_lib env) (fr_html r)"
  using assms
  by (auto simp: fetch_pinned_impersonated_def impersonation_blocked_def assess_def
      Let_def split: option.splits prod.splits sum.splits if_splits)

lemma forced_wall:
  assumes "fetch_forced env rd req w = Some (Inr r, w')" and "rd_js rd \<noteq> []"
    and "looks_like_generic_bot_wall (le_lib env) (fr_html r)"
  shows "fr_wall r \<noteq> None \<or> is_pdf r"
proof -
  obtain ans w1 where h: "http_fetch env rd (jr_url req) (jr_headers req) (jr_deadline req) w = (ans, w1)" by fastforce
  show ?thesis
  proof (cases ans)
    case (Inl e)
    with assms h obtain w2 where "fetch_with_js env rd req False w1 = Some (Inr r, w2)"
      by (auto simp: fetch_forced_def escalate_after_http_failure_def
          split: if_splits bind_splits sum.splits)
    then show ?thesis using ladder_wall_flagged assms(3) by blast
  next
    case (Inr p)
    show ?thesis
    proof (cases "is_pdf p")
      case True
      then show ?thesis using assms h Inr by (auto simp: fetch_forced_def is_pdf_def)
    next
      case False
      obtain t0 w2 where t0: "read_clock env w1 = (t0, w2)" by fastforce
      obtain hint js w3 s where l: "fetch_with_js env rd req hint w2 = Some (js, w3)"
        and r: "settle env req p (\<lambda>e. fall_back req e (p\<lparr> fr_elapsed_ms := s \<rparr>)) js = Inr r"
        using assms(1,2) h Inr False t0
        by (auto simp: fetch_forced_def Let_def split_beta split: bind_splits)
      show ?thesis using settle_wall [OF r assms(3)] ladder_wall_flagged l by fastforce
    qed
  qed
qed

lemma auto_result_wall:
  assumes "auto_result env rd req p w = Some (Inr r, w')" and "rd_js rd \<noteq> []"
    and "looks_like_generic_bot_wall (le_lib env) (fr_html r)"
  shows "fr_wall r \<noteq> None \<or> is_document_verdict env req r"
proof (cases "\<not> is_document_verdict env req p \<and> would_escalate env req p")
  case True
  then obtain hint js w1 where l: "fetch_with_js env rd req hint w = Some (js, w1)"
    and r: "settle env req p (\<lambda>e. fall_back req e p) js = Inr r"
    using assms by (auto simp: auto_result_def split: bind_splits)
  show ?thesis using settle_wall [OF r assms(3)] ladder_wall_flagged l by fastforce
next
  case False
  then have r: "r = stamp_http_decision p (jr_requested req)"
    using assms(1) by (auto simp: auto_result_def split: if_splits)
  then have "would_escalate env req p" using assms(3) by (simp add: would_escalate_def blocked_response_def)
  with False have "is_document_verdict env req p" by simp
  then have "is_document_verdict env req r"
    using r by (auto simp: is_document_verdict_def cf_header_signal_def)
  then show ?thesis ..
qed

lemma auto_wall:
  assumes "fetch_auto env rd req w = Some (Inr r, w')" and "rd_js rd \<noteq> []"
    and "looks_like_generic_bot_wall (le_lib env) (fr_html r)"
  shows "fr_wall r \<noteq> None \<or> is_pdf r \<or> is_document_verdict env req r"
proof -
  obtain ans w1 where h: "http_fetch env rd (jr_url req) (jr_headers req) (jr_deadline req) w = (ans, w1)" by fastforce
  have hop: False if "(if b then try_impersonated_hop env rd req tr w1 else (None, w1)) = (Some r, w2)" for b tr w2
    using that hop_no_wall assms(3) by (cases b) auto
  show ?thesis
  proof (cases ans)
    case (Inl e)
    obtain x w2 where x: "(if fingerprint_shaped_error e then try_impersonated_hop env rd req Transport w1
        else (None, w1)) = (x, w2)" by fastforce
    show ?thesis
    proof (cases x)
      case None
      with assms h Inl x obtain w3 where "fetch_with_js env rd req False w2 = Some (Inr r, w3)"
        by (auto simp: fetch_auto_def Let_def escalate_after_http_failure_def
            split: if_splits bind_splits sum.splits)
      then show ?thesis using ladder_wall_flagged assms(3) by blast
    next
      case (Some y)
      with assms(1) h Inl x have "y = r" by (auto simp: fetch_auto_def Let_def)
      with Some x hop show ?thesis by blast
    qed
  next
    case (Inr p)
    show ?thesis
    proof (cases "is_pdf p")
      case True
      then show ?thesis using assms h Inr by (auto simp: fetch_auto_def is_pdf_def)
    next
      case False
      obtain x w2 where x: "(if wants_wall_hop env rd req p then try_impersonated_hop env rd req Wall w1
          else (None, w1)) = (x, w2)" by fastforce
      show ?thesis
      proof (cases x)
        case None
        with assms(1) h Inr False x have "auto_result env rd req p w2 = Some (Inr r, w')"
          by (simp add: fetch_auto_def Let_def)
        then show ?thesis using auto_result_wall assms(2,3) by blast
      next
        case (Some y)
        with assms(1) h Inr False x have "y = r" by (auto simp: fetch_auto_def Let_def)
        with Some x hop show ?thesis by blast
      qed
    qed
  qed
qed

text \<open>
  C1. When there is a browser tier and rendering is not switched off, a page that is a generic
  anti-bot wall is never handed out without the wall verdict, whether it came from the HTTP tier,
  the impersonating tier, the ladder or a fallback, unless it was served as a PDF or is the
  origin's error answer for a PDF address.
\<close>

theorem wall_is_never_a_page:
  assumes "fetch_dispatch env rd req render_js w = Some (Inr r, w')" and "rd_js rd \<noteq> []"
    and "resolve_render_js render_js (rd_render_js_default rd) \<noteq> Some False"
    and "looks_like_generic_bot_wall (le_lib env) (fr_html r)"
  shows "fr_wall r \<noteq> None \<or> is_pdf r \<or> is_document_verdict env req r"
proof (cases "jr_requested req = Some ''impersonated-http''")
  case True
  then have "fetch_pinned_impersonated env rd req w = (Inr r, w')"
    using assms(1) by (simp add: fetch_dispatch_def)
  then show ?thesis using pinned_hop_no_wall assms(4) by blast
next
  case False
  consider "fetch_forced env rd req w = Some (Inr r, w')" | "fetch_auto env rd req w = Some (Inr r, w')"
    using assms(1,3) False
    by (cases "resolve_render_js render_js (rd_render_js_default rd)") (auto simp: fetch_dispatch_def)
  then show ?thesis using forced_wall auto_wall assms(2,4) by cases blast+
qed

text \<open>
  An answer of the HTTP tier that no browser can mend, an unsupported content type or a body
  over the size cap, is the answer of the request, with its precise cause, and no other tier is
  called.
\<close>

theorem unrenderable_body_is_final:
  assumes "fetch_dispatch env rd req render_js w = Some (res, w')"
    and "jr_requested req \<noteq> Some ''impersonated-http''"
    and "\<And>hs. tier_fetch (rd_http rd) (length (w_calls w)) (jr_url req) hs None (jr_deadline req) = Inl e"
    and "is_unrenderable_body_error e"
  shows "res = Inl e \<and> map tc_name (w_calls w') = map tc_name (w_calls w) @ [tier_name (rd_http rd)]"
proof -
  obtain ans w1 where h: "http_fetch env rd (jr_url req) (jr_headers req) (jr_deadline req) w = (ans, w1)" by fastforce
  have a: "ans = Inl e" and c: "map tc_name (w_calls w1) = map tc_name (w_calls w) @ [tier_name (rd_http rd)]"
    using http_fetch_spec [OF h] assms(3) by auto
  have f: "\<not> fingerprint_shaped_error e" using assms(4) by (simp add: fingerprint_shaped_error_def)
  have "Some (res, w') = Some (Inl e, w1)"
    using assms(1,2,4) h a f
    by (auto simp: fetch_dispatch_def fetch_plain_def fetch_forced_def fetch_auto_def
        split: option.splits bool.splits)
  then show ?thesis using c by simp
qed

subsection \<open>The permit of a request\<close>

text \<open>Without interference nothing between admission and release touches the limiters.\<close>

abbreviation lims_of :: "world \<Rightarrow> host_limiters" where
  "lims_of w \<equiv> sh_limiters (w_shared w)"

definition undisturbed :: "ladder_env \<Rightarrow> bool" where
  "undisturbed env \<longleftrightarrow> le_others env = (\<lambda>_ sh. sh) \<and> le_waiting env = (\<lambda>sh. sh)"

named_theorems lims \<open>operations that leave the limiters alone\<close>

lemma read_clock_lims [lims]: "lims_of (snd (read_clock env w)) = lims_of w"
  by (simp add: read_clock_def)

lemma read_budget_lims [lims]: "lims_of (snd (read_budget env req w)) = lims_of w"
  by (simp add: read_budget_def read_clock_def)

lemma with_lims [lims]: "lims_of (with_breakers r w) = lims_of w" "lims_of (with_prefs p w) = lims_of w"
  by (simp_all add: with_breakers_def with_prefs_def)

lemma drop_guard_lims [lims]: "lims_of (drop_guard g w) = lims_of w"
  by (simp add: drop_guard_def lims split: option.splits)

lemma note_failure_lims [lims]: "lims_of (note_failure env host k e w) = lims_of w"
  by (simp add: note_failure_def split_beta lims)

lemma call_tier_lims: "undisturbed env \<Longrightarrow> call_tier env t u hs wt d b w = (a, w') \<Longrightarrow> lims_of w' = lims_of w"
  by (auto simp: call_tier_def Let_def undisturbed_def)

lemma acquire_tier_lims: "acquire_tier env host k w = Some (pg, w') \<Longrightarrow> lims_of w' = lims_of w"
  by (auto simp: acquire_tier_def Let_def split_beta lims split: bind_splits)

lemma record_scoped_lims: "record_scoped env host k g h w = Some w' \<Longrightarrow> lims_of w' = lims_of w"
  by (auto simp: record_scoped_def Let_def split_beta lims split: bind_splits)

lemma record_both_lims: "record_both env host k out w = Some w' \<Longrightarrow> lims_of w' = lims_of w"
  by (auto simp: record_both_def Let_def split_beta lims split: bind_splits)

lemma acquire_host_only_lims: "acquire_host_only env host k w = (p, w') \<Longrightarrow> lims_of w' = lims_of w"
  by (auto simp: acquire_host_only_def read_clock_def with_breakers_def Let_def split: prod.splits)

lemma accepted_lims: "tier_accepted env req host t la r w = Some (r', w') \<Longrightarrow> lims_of w' = lims_of w"
  using record_both_lims
  by (fastforce simp: tier_accepted_def Let_def lims split: bind_splits option.splits)

lemma rejected_lims: "tier_rejected env rd host t ctx body r la w = Some (la', w') \<Longrightarrow> lims_of w' = lims_of w"
  using record_scoped_lims
  by (fastforce simp: tier_rejected_def Let_def lims split: bind_splits option.splits)

lemma failed_lims: "tier_failed env host t ctx e la w = Some (la', w') \<Longrightarrow> lims_of w' = lims_of w"
  using record_scoped_lims
  by (fastforce simp: tier_failed_def Let_def lims split: bind_splits option.splits)

lemma attempt_tier_lims:
  assumes "undisturbed env" and "attempt_tier env rd req host t b la w = Some (x, la', w')"
  shows "lims_of w' = lims_of w"
proof -
  obtain n w1 where b: "read_budget env req w = (n, w1)" by fastforce
  obtain a w2 where c: "call_tier env t (jr_url req) (jr_headers req) (jr_wait req) (jr_deadline req) (Some b) w1 = (a, w2)"
    by fastforce
  have "lims_of w' = lims_of w2"
    using assms(2) b c accepted_lims rejected_lims failed_lims
    by (fastforce simp: attempt_tier_def Let_def split: sum.splits if_splits bind_splits)
  then show ?thesis using call_tier_lims [OF assms(1) c] read_budget_lims [of env req w] b by simp
qed

lemma admitted_tier_lims:
  assumes "undisturbed env" and "admitted_tier env rd req host t g la w = Some (x, la', w')"
  shows "lims_of w' = lims_of w"
  using assms attempt_tier_lims [OF assms(1)] read_budget_lims [of env req w]
  by (fastforce simp: admitted_tier_def Let_def drop_guard_lims split: prod.splits if_splits)

lemma run_tier_lims:
  assumes "undisturbed env" and "run_tier env rd req host t la w = Some (x, la', w')"
  shows "lims_of w' = lims_of w"
proof -
  obtain n w1 where b: "read_budget env req w = (n, w1)" by fastforce
  then have l: "lims_of w1 = lims_of w" using read_budget_lims [of env req w] by simp
  show ?thesis
  proof (cases "is_idle_solver t la \<or> n < min_tier_budget")
    case True
    then show ?thesis using assms(2) b l by (auto simp: run_tier_def split: if_splits)
  next
    case False
    show ?thesis
    proof (cases "trackable host t")
      case None
      with assms(2) b False have "admitted_tier env rd req host t None la w1 = Some (x, la', w')"
        by (simp add: run_tier_def)
      then show ?thesis using admitted_tier_lims [OF assms(1)] l by simp
    next
      case (Some k)
      with assms(2) b False obtain p g w2 where a: "acquire_tier env host k w1 = Some ((p, g), w2)"
        and r: "(if p = Rejected then Some (None, note_skip k la, drop_guard (Some g) w2)
          else admitted_tier env rd req host t (Some g) la w2) = Some (x, la', w')"
        by (auto simp: run_tier_def split: bind_splits)
      show ?thesis
        using r acquire_tier_lims [OF a] admitted_tier_lims [OF assms(1)] l
        by (auto simp: drop_guard_lims split: if_splits)
    qed
  qed
qed

lemma run_tiers_lims:
  "undisturbed env \<Longrightarrow> run_tiers env rd req host ts la w = Some (x, la', w') \<Longrightarrow> lims_of w' = lims_of w"
proof (induction ts arbitrary: la w)
  case (Cons t ts)
  then obtain y la1 w1 where t: "run_tier env rd req host t la w = Some (y, la1, w1)"
    and r: "(case y of Some r \<Rightarrow> Some (Some r, la1, w1) | None \<Rightarrow> run_tiers env rd req host ts la1 w1) = Some (x, la', w')"
    by (auto split: bind_splits)
  show ?case using r Cons.IH [OF Cons.prems(1)] run_tier_lims [OF Cons.prems(1) t] by (cases y) auto
qed simp

lemma attempt_leak_lims:
  assumes "undisturbed env" and "attempt_leak env rd req host t k b la w = Some (x, la', w')"
  shows "lims_of w' = lims_of w"
proof -
  obtain n w1 where b: "read_budget env req w = (n, w1)" by fastforce
  obtain a w2 where c: "call_tier env t (jr_url req) (jr_headers req) (jr_wait req) (jr_deadline req) (Some b) w1 = (a, w2)"
    by fastforce
  have "lims_of w' = lims_of w2"
    using assms(2) b c record_scoped_lims
    by (fastforce simp: attempt_leak_def Let_def split: sum.splits if_splits bind_splits)
  then show ?thesis using call_tier_lims [OF assms(1) c] read_budget_lims [of env req w] b by simp
qed

lemma leak_tiers_lims:
  "undisturbed env \<Longrightarrow> leak_tiers env rd req host ts la w = Some (x, la', w') \<Longrightarrow> lims_of w' = lims_of w"
proof (induction ts arbitrary: w)
  case (Cons t ts)
  note IH = Cons.IH [OF Cons.prems(1)] and un = Cons.prems(1)
  show ?case
  proof (cases "trackable host t")
    case None
    then show ?thesis using Cons.prems IH by simp
  next
    case (Some k)
    obtain p w1 where a: "acquire_host_only env host k w = (p, w1)" by fastforce
    obtain n w2 where b: "read_budget env req w1 = (n, w2)" by fastforce
    have l: "lims_of w1 = lims_of w" "lims_of w2 = lims_of w1"
      using acquire_host_only_lims [OF a] read_budget_lims [of env req w1] b by simp_all
    consider "leak_tiers env rd req host ts la w = Some (x, la', w')"
      | "leak_tiers env rd req host ts la w1 = Some (x, la', w')"
      | "leak_tiers env rd req host ts la w2 = Some (x, la', w')"
      | "attempt_leak env rd req host t k n la w2 = Some (x, la', w')"
      using Cons.prems(2) Some a b by (auto split: if_splits)
    then show ?thesis using IH attempt_leak_lims [OF un] l by cases metis+
  qed
qed simp

lemma fetch_with_js_lims:
  assumes "undisturbed env" and "fetch_with_js env rd req hint w = Some (res, w')"
  shows "lims_of w' = lims_of w"
proof (cases "ladder_tiers env rd req w = []")
  case True
  then show ?thesis using assms(2) by (simp add: fetch_with_js_def)
next
  case False
  let ?h = "host_of env (jr_url req)" and ?ts = "ladder_tiers env rd req w"
  obtain x la w1 where r: "run_tiers env rd req ?h ?ts (ladder_new hint) w = Some (x, la, w1)"
    using assms(2) False by (auto simp: fetch_with_js_def Let_def split: bind_splits)
  note l1 = run_tiers_lims [OF assms(1) r]
  show ?thesis
  proof (cases x)
    case (Some y)
    then show ?thesis using assms(2) False r l1 by (simp add: fetch_with_js_def Let_def)
  next
    case None
    obtain b w2 where k: "wants_leak env req la w1 = (b, w2)" by fastforce
    have l2: "lims_of w2 = lims_of w1"
      using k by (auto simp: wants_leak_def read_budget_def read_clock_def Let_def split: if_splits)
    show ?thesis
    proof (cases b)
      case False
      then show ?thesis using assms(2) \<open>?ts \<noteq> []\<close> r k None l1 l2 by (simp add: fetch_with_js_def Let_def)
    next
      case True
      then obtain y la2 w3 where t: "leak_tiers env rd req ?h ?ts la w2 = Some (y, la2, w3)" "w' = w3"
        using assms(2) \<open>?ts \<noteq> []\<close> r k None by (auto simp: fetch_with_js_def Let_def split: bind_splits)
      show ?thesis using leak_tiers_lims [OF assms(1) t(1)] t(2) l1 l2 by simp
    qed
  qed
qed

lemma http_fetch_lims:
  fixes req :: js_request
  assumes "undisturbed env" and "http_fetch env rd (jr_url req) (jr_headers req) d w = (ans, w')"
  shows "lims_of w' = lims_of w"
proof -
  obtain found w1 where f: "clearance_for env rd (jr_url req) (jr_headers req) w = (found, w1)" by fastforce
  have "lims_of w1 = lims_of w" using clearance_for_spec [OF f] by blast
  moreover have "lims_of w' = lims_of w1"
    using assms f call_tier_lims [OF assms(1)]
    by (auto simp: http_fetch_def with_shared_def split: option.splits prod.splits sum.splits if_splits)
  ultimately show ?thesis by simp
qed

lemma hop_lims:
  assumes "undisturbed env" and "try_impersonated_hop env rd req trigger w = (res, w')"
  shows "lims_of w' = lims_of w"
proof -
  have "lims_of w1 = lims_of w" if "hop_deadline env rd req w = (d, w1)" for d w1
    using that by (auto simp: hop_deadline_def read_budget_def read_clock_def Let_def split: if_splits)
  then show ?thesis
    using assms(2) call_tier_lims [OF assms(1)]
    by (fastforce simp: try_impersonated_hop_def split: option.splits prod.splits sum.splits if_splits)
qed

lemma escalate_lims:
  assumes "undisturbed env" and "escalate_after_http_failure env rd req e w = Some (res, w')"
  shows "lims_of w' = lims_of w"
  using assms(2) fetch_with_js_lims [OF assms(1)]
  by (auto simp: escalate_after_http_failure_def split: bind_splits)

lemma dispatch_lims:
  assumes "undisturbed env" and "fetch_dispatch env rd req render_js w = Some (res, w')"
  shows "lims_of w' = lims_of w"
proof -
  obtain ans w1 where h: "http_fetch env rd (jr_url req) (jr_headers req) (jr_deadline req) w = (ans, w1)" by fastforce
  note lh = http_fetch_lims [OF assms(1) h]
  note js = fetch_with_js_lims [OF assms(1)] and esc = escalate_lims [OF assms(1)] and hop = hop_lims [OF assms(1)]
  have pinned: "lims_of w' = lims_of w" if "fetch_pinned_impersonated env rd req w = (res, w')"
    using that call_tier_lims [OF assms(1)]
    by (auto simp: fetch_pinned_impersonated_def Let_def split: option.splits prod.splits sum.splits if_splits)
  have plain: "lims_of w' = lims_of w" if "fetch_plain env rd req w = (res, w')"
    using that h lh by (auto simp: fetch_plain_def split: sum.splits)
  have forced: "lims_of w' = lims_of w" if "fetch_forced env rd req w = Some (res, w')"
    using that h lh js esc
    by (fastforce simp: fetch_forced_def read_clock_def Let_def split: sum.splits if_splits bind_splits)
  have result: "lims_of w' = lims_of v" if "auto_result env rd req r v = Some (res, w')" for r v
    using that js by (auto simp: auto_result_def split: if_splits bind_splits)
  have auto: "lims_of w' = lims_of w" if f: "fetch_auto env rd req w = Some (res, w')"
  proof -
    obtain v where v: "lims_of v = lims_of w1" "w' = v \<or> lims_of w' = lims_of v"
    proof (cases ans)
      case (Inl e)
      obtain x v where x: "(if fingerprint_shaped_error e then try_impersonated_hop env rd req Transport w1
          else (None, w1)) = (x, v)" by fastforce
      have "lims_of v = lims_of w1" using x hop by (auto split: if_splits)
      moreover have "w' = v \<or> lims_of w' = lims_of v"
        using f h Inl x esc by (auto simp: fetch_auto_def Let_def split: option.splits if_splits)
      ultimately show thesis using that by blast
    next
      case (Inr r)
      obtain x v where x: "(if wants_wall_hop env rd req r then try_impersonated_hop env rd req Wall w1
          else (None, w1)) = (x, v)" by fastforce
      have "lims_of v = lims_of w1" using x hop by (auto split: if_splits)
      moreover have "w' = w1 \<or> w' = v \<or> lims_of w' = lims_of v"
        using f h Inr x result by (auto simp: fetch_auto_def Let_def split: option.splits if_splits)
      ultimately show thesis using that by metis
    qed
    then show ?thesis using lh by auto
  qed
  show ?thesis
    using assms(2) pinned plain forced auto
    by (auto simp: fetch_dispatch_def split: if_splits option.splits bool.splits)
qed

definition held :: "host_limiters \<Rightarrow> nat list" where
  "held st = map lo_held (hl_heap st)"

lemma heap_of_count_call: "hl_heap (count_call now st) = hl_heap st"
  by (simp add: count_call_def drop_idle_def Let_def)

lemma get_host_limiter_held:
  assumes "limiters_ok st" and "get_host_limiter interval now key rps cap st = (a, st')"
  shows "a < length (held st') \<and> (\<exists>n. held st' = held st @ replicate n 0)"
proof (cases "hl_table (count_call now st) key")
  case None
  then have "held st' = held st @ replicate 1 0 \<and> a < length (held st')"
    using assms(2) by (auto simp: get_host_limiter_def Let_def held_def heap_of_count_call)
  then show ?thesis by blast
next
  case (Some p)
  obtain b used where p: "p = (b, used)" by fastforce
  have "b < length (hl_heap st)"
    using count_call_ok [OF assms(1), of now] Some p by (auto simp: limiters_ok_def heap_of_count_call)
  then have "held st' = held st @ replicate 0 0 \<and> a < length (held st')"
    using assms(2) Some p by (auto simp: get_host_limiter_def Let_def held_def heap_of_count_call)
  then show ?thesis by blast
qed

lemma take_permit_held:
  "take_permit now1 now2 a st = Some (d, st') \<Longrightarrow> held st' = (held st)[a := held st ! a + 1] \<or> length (held st) \<le> a"
  by (auto simp: take_permit_def Let_def held_def map_update split: if_splits prod.splits)

lemma release_permit_held:
  "a < length (held st) \<Longrightarrow> held (release_permit a st) = (held st)[a := held st ! a - 1]"
  by (simp add: release_permit_def held_def Let_def map_update)

lemma take_release_held:
  assumes "take_permit now1 now2 a st = Some (d, st')" and "a < length (held st)"
  shows "held (release_permit a st') = held st"
proof -
  have "held st' = (held st)[a := held st ! a + 1]" using take_permit_held [OF assms(1)] assms(2) by simp
  then show ?thesis using release_permit_held [of a st'] assms(2) by simp
qed

lemma admit_held:
  assumes "undisturbed env" and "limiters_ok (lims_of w)" and "admit env rd req key w = (adm, w')"
  shows "\<exists>n. (case adm of
      Refused e \<Rightarrow> held (lims_of w') = held (lims_of w) @ replicate n 0
    | Admitted a \<Rightarrow> held (release_permit a (lims_of w')) = held (lims_of w) @ replicate n 0)"
proof -
  obtain left w1 where b: "read_budget env req w = (left, w1)" by fastforce
  have l1: "lims_of w1 = lims_of w" using read_budget_lims [of env req w] b by simp
  show ?thesis
  proof (cases "left = 0")
    case True
    then show ?thesis using assms(3) b l1 by (intro exI [of _ 0]) (auto simp: admit_def Let_def)
  next
    case False
    let ?now = "\<lambda>n. le_clock env (w_reads w1 + n)"
    obtain a ls where g: "get_host_limiter (le_interval env) (?now 0) key (rd_requests_per_second rd)
        (rd_per_host_max_concurrent rd) (lims_of w1) = (a, ls)" by fastforce
    obtain n where n: "a < length (held ls)" "held ls = held (lims_of w) @ replicate n 0"
      using get_host_limiter_held [OF _ g] assms(2) l1 by auto
    show ?thesis
    proof (cases "take_permit (?now 1) (?now 2) a ls")
      case None
      then show ?thesis using assms(1,3) b False g n
        by (intro exI [of _ n])
          (auto simp: admit_def read_clock_def with_shared_def undisturbed_def Let_def)
    next
      case (Some p)
      obtain s ls2 where p: "p = (s, ls2)" by fastforce
      note r = take_release_held [OF Some [unfolded p] n(1)]
      show ?thesis using assms(1,3) b False g n Some p r
        by (intro exI [of _ n])
          (auto simp: admit_def read_clock_def read_budget_def with_shared_def undisturbed_def Let_def
            split: if_splits)
    qed
  qed
qed

text \<open>
  When no other request interferes, a fetch gives back the permit it took, whichever way it
  ends: afterwards every limiter that existed has as many permits out as before, and one
  that the fetch created has none out.
\<close>

theorem permit_is_returned:
  assumes "le_others env = (\<lambda>_ sh. sh)" and "le_waiting env = (\<lambda>sh. sh)"
    and "limiters_ok (sh_limiters (w_shared w))" and "fetch env rd req render_js w = Some (res, w')"
  shows "\<exists>n. map lo_held (hl_heap (sh_limiters (w_shared w')))
    = map lo_held (hl_heap (sh_limiters (w_shared w))) @ replicate n 0"
proof -
  have un: "undisturbed env" using assms(1,2) by (simp add: undisturbed_def)
  have "\<exists>n. held (lims_of w') = held (lims_of w) @ replicate n 0"
  proof (cases "le_host env (jr_url req)")
    case None
    then have "lims_of w' = lims_of w" using assms(4) dispatch_lims [OF un] by (simp add: fetch_def)
    then show ?thesis by (intro exI [of _ 0]) simp
  next
    case (Some h)
    obtain adm w1 where a: "admit env rd req (normalize_host (le_psl env) h) w = (adm, w1)" by fastforce
    note held = admit_held [OF un assms(3) a]
    show ?thesis
    proof (cases adm)
      case (Refused e)
      then show ?thesis using assms(4) Some a held by (simp add: fetch_def)
    next
      case (Admitted p)
      then obtain w2 where d: "fetch_dispatch env rd req render_js w1 = Some (res, w2)" "w' = release p w2"
        using assms(4) Some a by (auto simp: fetch_def split: bind_splits)
      have "lims_of w' = release_permit p (lims_of w1)"
        using dispatch_lims [OF un d(1)] d(2) by (simp add: release_def with_shared_def)
      then show ?thesis using held Admitted by simp
    qed
  qed
  then show ?thesis by (simp add: held_def)
qed

subsection \<open>Concrete requests\<close>

definition demo_impersonating :: renderer where
  "demo_impersonating = demo_walled\<lparr> rd_impersonated := Some (demo_tier ''impersonated-http'' (Inl RateLimited)) \<rparr>"

definition demo_docx :: renderer where
  "demo_docx = demo_walled\<lparr> rd_http := demo_tier ''http'' (Inl (UnsupportedContentType ''application/zip'')) \<rparr>"

definition demo_plain :: renderer where
  "demo_plain = demo_walled\<lparr> rd_http := demo_tier ''http'' (Inr (demo_page 200 ''hello'')) \<rparr>"

definition demo_clearance :: clearance where
  "demo_clearance =
    \<lparr> cl_cookies = [\<lparr> ck_name = ''cf_clearance'', ck_value = ''x'', ck_domain = ''.example.org'', ck_path = ''/'',
         ck_expires = 0 \<rparr>, \<lparr> ck_name = ''other'', ck_value = ''y'', ck_domain = ''example.com'', ck_path = ''/'',
         ck_expires = 0 \<rparr>],
      cl_user_agent = ''Mozilla'', cl_expires_at = 1000000 \<rparr>"

definition demo_cleared :: world where
  "demo_cleared = with_shared (demo_shared\<lparr> sh_clearance :=
    clearance_insert (\<lambda>_. None) ''example.org'' demo_clearance cache_new \<rparr>) demo_world"

lemma view_calls:
  assumes "map_option (\<lambda>(res, w'). f w') x = Some v"
  shows "\<exists>res w'. x = Some (res, w') \<and> f w' = v"
  using assms by auto


theorem clearance_stays_home_witness:
  "\<exists>res w' hs. fetch_dispatch demo_site demo_plain (demo_request None) (Some False) demo_cleared = Some (res, w')
    \<and> map tc_headers (w_calls w') = [hs] \<and> map_of hs ''Cookie'' = Some ''cf_clearance=x''
    \<and> map_of hs ''Accept'' = None"
proof -
  let ?hs = "[(''Cookie'', ''cf_clearance=x''), (''User-Agent'', ''Mozilla'')]"
  have "\<exists>res w'. fetch_dispatch demo_site demo_plain (demo_request None) (Some False) demo_cleared = Some (res, w')
      \<and> map (\<lambda>c. (tc_name c, tc_headers c)) (w_calls w') = [(''http'', ?hs)]"
    by (rule view_calls) code_simp
  then obtain res w' c where f: "fetch_dispatch demo_site demo_plain (demo_request None) (Some False) demo_cleared = Some (res, w')"
    and c: "w_calls w' = [c]" "tc_headers c = ?hs" by auto
  have p: "jr_requested (demo_request None) \<noteq> Some ''impersonated-http''" "tc_headers c \<noteq> jr_headers (demo_request None)"
    using c(2) by (simp_all add: demo_request_def)
  have l: "w_calls w' = w_calls demo_cleared @ [c]" using c by (simp add: demo_cleared_def with_shared_def demo_world_def)
  have d: "distinct (map (\<lambda>t. renderer_kind_for (tier_name t)) (rd_js demo_plain))" by code_simp
  have "map_of (tc_headers c) ''Accept'' = map_of (jr_headers (demo_request None)) ''Accept''"
    using clearance_stays_home [OF f p(1) d l _ p(2)] by fastforce
  then show ?thesis using f c by (auto simp: demo_request_def)
qed

theorem wall_is_never_a_page_witness:
  "\<exists>r w'. fetch_dispatch demo_env demo_walled (demo_request None) None demo_world = Some (Inr r, w')
    \<and> fr_html r = demo_wall \<and> fr_wall r \<noteq> None"
proof -
  have "\<exists>r w'. fetch_dispatch demo_env demo_walled (demo_request None) None demo_world = Some (Inr r, w')
      \<and> (fr_html r, fr_content_type r, fr_status r) = (demo_wall, None, 200)"
    by (rule view_result) code_simp
  then obtain r w' where f: "fetch_dispatch demo_env demo_walled (demo_request None) None demo_world = Some (Inr r, w')"
    and h: "fr_html r = demo_wall" "fr_content_type r = None" "fr_status r = 200" by auto
  have "looks_like_generic_bot_wall demo_lib demo_wall" by code_simp
  then have "looks_like_generic_bot_wall (le_lib demo_env) (fr_html r)" using h by (simp add: demo_env_def)
  moreover have "rd_js demo_walled \<noteq> []"
    "resolve_render_js None (rd_render_js_default demo_walled) \<noteq> Some False"
    by (simp_all add: demo_renderer_def resolve_render_js_def)
  moreover have "\<not> is_pdf r" "\<not> is_document_verdict demo_env (demo_request None) r"
    using h by (simp_all add: is_pdf_def is_document_verdict_def)
  ultimately show ?thesis using wall_is_never_a_page [OF f] f h by blast
qed

theorem unrenderable_body_is_final_witness:
  "\<exists>w'. fetch_dispatch demo_env demo_docx (demo_request None) (Some True) demo_world
      = Some (Inl (UnsupportedContentType ''application/zip''), w')
    \<and> map tc_name (w_calls w') = [''http'']"
proof -
  have "\<exists>res w'. fetch_dispatch demo_env demo_docx (demo_request None) (Some True) demo_world = Some (res, w')
      \<and> length (w_calls w') = 1"
    by (rule view_calls) code_simp
  then obtain res w' where f: "fetch_dispatch demo_env demo_docx (demo_request None) (Some True) demo_world = Some (res, w')"
    by blast
  have "jr_requested (demo_request None) \<noteq> Some ''impersonated-http''" by (simp add: demo_request_def)
  moreover have "tier_fetch (rd_http demo_docx) (length (w_calls demo_world)) (jr_url (demo_request None)) hs None
      (jr_deadline (demo_request None)) = Inl (UnsupportedContentType ''application/zip'')" for hs
    by (simp add: demo_docx_def demo_tier_def)
  moreover have "is_unrenderable_body_error (UnsupportedContentType ''application/zip'')"
    by (simp add: is_unrenderable_body_error_def)
  ultimately have "res = Inl (UnsupportedContentType ''application/zip'')
      \<and> map tc_name (w_calls w') = map tc_name (w_calls demo_world) @ [tier_name (rd_http demo_docx)]"
    by (rule unrenderable_body_is_final [OF f])
  then show ?thesis using f by (auto simp: demo_world_def demo_docx_def demo_tier_def)
qed

theorem permit_is_returned_witness:
  "\<exists>res w'. fetch demo_site demo_plain (demo_request None) (Some False) demo_world = Some (res, w')
    \<and> map lo_held (hl_heap (sh_limiters (w_shared w'))) = [0]"
proof -
  have "\<exists>res w'. fetch demo_site demo_plain (demo_request None) (Some False) demo_world = Some (res, w')
      \<and> (length (w_calls w'), length (hl_heap (sh_limiters (w_shared w')))) = (1, 1)"
    by (rule view_calls) code_simp
  then obtain res w' where f: "fetch demo_site demo_plain (demo_request None) (Some False) demo_world = Some (res, w')"
    and l: "length (map lo_held (hl_heap (sh_limiters (w_shared w')))) = 1" by auto
  have e: "le_others demo_site = (\<lambda>_ sh. sh)" "le_waiting demo_site = (\<lambda>sh. sh)"
    by (simp_all add: demo_site_def demo_env_def id_def)
  have "sh_limiters (w_shared demo_world) = limiters_new" by (simp add: demo_world_def demo_shared_def)
  then have "limiters_ok (sh_limiters (w_shared demo_world))"
    and "hl_heap (sh_limiters (w_shared demo_world)) = []" using limiters_ok_new by (simp_all add: limiters_new_def)
  with permit_is_returned [OF e _ f] obtain n where "map lo_held (hl_heap (sh_limiters (w_shared w'))) = replicate n 0"
    by auto
  moreover from this l have "n = 1" by (metis length_replicate)
  ultimately show ?thesis using f by simp
qed

subsection \<open>A cleared page the ladder refuses\<close>

text \<open>
  The vendor check takes the bare directory of the challenge platform for a block, although the
  challenge detector tells the orchestrator's path from the loader that ordinary and cleared pages
  carry. A page with that loader in its head is rejected by every tier.
\<close>

lemma challenge_directory_is_rejected:
  assumes "contains_str (to_lower lib (prefix_within (fr_html r) 15000)) ''/cdn-cgi/challenge-platform/''"
    and "length (fr_html r) \<le> 200000"
  shows "looks_like_vendor_block lib (fr_html r) = Some ''cloudflare'' \<and> \<not> accepted (assess lib cfg r)"
proof -
  have v: "looks_like_vendor_block lib (fr_html r) = Some ''cloudflare''"
    using assms by (simp add: looks_like_vendor_block_def Let_def)
  moreover have "jb_vendor_block (assess lib cfg r) = looks_like_vendor_block lib (fr_html r)"
    by (simp add: assess_def Let_def)
  ultimately show ?thesis by (simp add: accepted_def)
qed

definition demo_loader :: string where
  \<open>demo_loader = ''<html><head><script src="/cdn-cgi/challenge-platform/scripts/jsd/main.js"></script></head><body>''
    @ ''An article about looms that a browser has rendered in full and that anybody may read.</body></html>''\<close>

lemma loader_page_is_rejected:
  "\<not> looks_like_cloudflare_challenge demo_lib demo_loader
    \<and> looks_like_vendor_block demo_lib demo_loader = Some ''cloudflare''
    \<and> \<not> accepted (assess demo_lib antibot_config_default (demo_page 200 demo_loader))"
proof -
  have "contains_str (to_lower demo_lib (prefix_within demo_loader 15000)) ''/cdn-cgi/challenge-platform/''"
    by code_simp
  moreover have "length demo_loader \<le> 200000" by code_simp
  moreover have "\<not> looks_like_cloudflare_challenge demo_lib demo_loader" by code_simp
  ultimately show ?thesis
    using challenge_directory_is_rejected [of demo_lib "demo_page 200 demo_loader"] by (simp add: demo_page_def)
qed

end
