(* ===== verification/Log_Url.thy ===== *)
theory Log_Url
  imports Text_Lib
begin

section \<open>URLs in log lines and error texts\<close>

text \<open>
  \<open>crates/crw-core/src/log_url.rs\<close> and \<open>proxy.rs\<close>: how a URL that may carry secrets is
  rendered for a log line, how every URL inside a free text is replaced, and how the
  credentials of a proxy URL are masked. The URL parser is the parameter \<open>parse\<close>, SHA-256 the
  parameter \<open>sha\<close>; the process key is an argument.
\<close>

unbundle bit_operations_syntax

subsection \<open>Rendering one URL\<close>

record parsed_url =
  pu_scheme :: string
  pu_host :: "string option"
  pu_port :: "nat option"
  pu_text :: string

definition redacted :: string where
  "redacted = ''<redacted-url>''"

definition host_schemes :: "string list" where
  "host_schemes = [''http'', ''https'', ''ws'', ''wss'']"

definition opaque_schemes :: "string list" where
  "opaque_schemes = [''data'', ''mailto'', ''file'', ''blob'', ''about'', ''javascript'']"

definition keep_trailing :: nat where
  "keep_trailing = 4"

definition host_and_port :: "parsed_url \<Rightarrow> string option" where
  "host_and_port u =
    (case pu_host u of
       None \<Rightarrow> None
     | Some host \<Rightarrow> Some (case pu_port u of Some p \<Rightarrow> host @ '':'' @ dec_digits p | None \<Rightarrow> host))"

definition xor_byte :: "nat \<Rightarrow> char \<Rightarrow> char" where
  "xor_byte m c = chr_of (byte c XOR m)"

definition hmac_sha256 :: "(string \<Rightarrow> string) \<Rightarrow> string \<Rightarrow> string \<Rightarrow> string" where
  "hmac_sha256 sha key msg =
    (let short = (if 64 < length key then take 32 (sha key) else key);
         padded = short @ replicate (64 - length short) (chr_of 0);
         inner = sha (map (xor_byte 0x36) padded @ msg)
     in sha (map (xor_byte 0x5c) padded @ inner))"

definition hex_nibble :: "nat \<Rightarrow> char" where
  "hex_nibble n = (if n < 10 then chr_of (48 + n) else chr_of (87 + n))"

definition hex_byte :: "char \<Rightarrow> string" where
  "hex_byte c = [hex_nibble (byte c div 16), hex_nibble (byte c mod 16)]"

definition tag_with_key :: "(string \<Rightarrow> string) \<Rightarrow> string \<Rightarrow> string \<Rightarrow> string" where
  "tag_with_key sha key text = concat (map hex_byte (take 6 (hmac_sha256 sha key text)))"

text \<open>What a rendering depends on: the parser, the digest and the key of the process.\<close>

record log_env =
  lg_parse :: "string \<Rightarrow> parsed_url option"
  lg_sha :: "string \<Rightarrow> string"
  lg_key :: string

definition short_hash :: "log_env \<Rightarrow> string \<Rightarrow> string" where
  "short_hash lg text = tag_with_key (lg_sha lg) (lg_key lg) text"

definition log_url :: "log_env \<Rightarrow> string \<Rightarrow> string" where
  "log_url lg raw =
    (case lg_parse lg (trim raw) of
       None \<Rightarrow> redacted
     | Some u \<Rightarrow>
         if pu_scheme u \<in> set host_schemes then
           (case host_and_port u of
              Some origin \<Rightarrow> pu_scheme u @ ''://'' @ origin @ '' (u:'' @ short_hash lg (pu_text u) @ '')''
            | None \<Rightarrow> redacted)
         else if pu_scheme u \<in> set opaque_schemes then
           pu_scheme u @ '':<opaque> (u:'' @ short_hash lg (pu_text u) @ '')''
         else redacted)"

definition origin_only :: "log_env \<Rightarrow> string \<Rightarrow> string" where
  "origin_only lg raw =
    (case lg_parse lg raw of
       None \<Rightarrow> redacted
     | Some u \<Rightarrow>
         (case host_and_port u of Some origin \<Rightarrow> pu_scheme u @ ''://'' @ origin | None \<Rightarrow> redacted))"

subsection \<open>Replacing every URL of a text\<close>

fun find_ws :: "string \<Rightarrow> nat option" where
  "find_ws [] = None"
| "find_ws (x # xs) =
    (if lead_len ws_encodings (x # xs) \<noteq> 0 then Some 0 else map_option Suc (find_ws xs))"

definition is_scheme_byte :: "char \<Rightarrow> bool" where
  "is_scheme_byte b =
    (is_ascii_digit b \<or> (97 \<le> byte (ascii_lower b) \<and> byte (ascii_lower b) \<le> 122)
     \<or> b = CHR ''+'' \<or> b = CHR ''-'' \<or> b = CHR ''.'')"

text \<open>The start of the scheme that ends at \<open>sep\<close>, and the end of the URL around \<open>sep\<close>.\<close>

definition url_start :: "string \<Rightarrow> nat \<Rightarrow> nat" where
  "url_start rest sep =
    (case rfind_char (\<lambda>b. \<not> is_scheme_byte b) (take sep rest) of Some i \<Rightarrow> i + 1 | None \<Rightarrow> 0)"

definition url_end :: "string \<Rightarrow> nat \<Rightarrow> nat" where
  "url_end rest sep = (case find_ws (drop sep rest) of Some i \<Rightarrow> sep + i | None \<Rightarrow> length rest)"

lemma lead_len_sep [simp]:
  "lead_len ws_encodings (CHR '':'' # s) = 0" "lead_len ws_encodings (CHR ''/'' # s) = 0"
  by (simp_all add: ws_encodings_def)

lemma find_ws_sep: "find_ws (''://'' @ s) = map_option (\<lambda>i. i + 3) (find_ws s)"
  by (cases "find_ws s") simp_all

lemma url_end_after_sep:
  assumes "find_sub ''://'' rest = Some sep"
  shows "sep + 3 \<le> url_end rest sep"
proof -
  note f = find_sub_Some [OF assms]
  then obtain s where s: "drop sep rest = ''://'' @ s" by (auto simp: prefix_def)
  have "find_ws (drop sep rest) = map_option (\<lambda>i. i + 3) (find_ws s)" unfolding s by (rule find_ws_sep)
  moreover have "sep + 3 \<le> length rest" using f by simp
  ultimately show ?thesis by (auto simp: url_end_def split: option.split)
qed

text \<open>The loop of \<open>scrub_urls\<close> and of \<open>redact_url_userinfo\<close>, which differ in what they write for
  the URL found.\<close>

function replace_urls :: "(string \<Rightarrow> string) \<Rightarrow> string \<Rightarrow> string" where
  "replace_urls f rest =
    (case find_sub ''://'' rest of
       None \<Rightarrow> rest
     | Some sep \<Rightarrow>
         take (url_start rest sep) rest
         @ f (drop (url_start rest sep) (take (url_end rest sep) rest))
         @ replace_urls f (drop (url_end rest sep) rest))"
  by pat_completeness auto
termination
proof (relation "measure (\<lambda>(f, s). length s)")
  fix f :: "string \<Rightarrow> string" and rest sep
  assume s: "find_sub ''://'' rest = Some sep"
  then have "sep < length rest" using find_sub_Some [OF s] by simp
  then show "((f, drop (url_end rest sep) rest), (f, rest)) \<in> measure (\<lambda>(f, s). length s)"
    using url_end_after_sep [OF s] by simp
qed simp

declare replace_urls.simps [simp del]

definition trailing_punctuation :: string where
  "trailing_punctuation = '')]}>,;.:'' @ [CHR 0x22, CHR 0x27]"

definition split_trailing_punctuation :: "string \<Rightarrow> string \<times> string" where
  "split_trailing_punctuation token =
    (let n = min keep_trailing (length (takeWhile (\<lambda>c. c \<in> set trailing_punctuation) (rev token)))
     in (take (length token - n) token, drop (length token - n) token))"

definition scrub_urls :: "log_env \<Rightarrow> string \<Rightarrow> string" where
  "scrub_urls lg text =
    replace_urls (\<lambda>token. let (core, tail) = split_trailing_punctuation token in log_url lg core @ tail) text"

definition percent_byte :: "char \<Rightarrow> string" where
  "percent_byte c =
    (let up = (\<lambda>n. if n < 10 then chr_of (48 + n) else chr_of (55 + n))
     in [CHR ''%'', up (byte c div 16), up (byte c mod 16)])"

definition url_for_error :: "log_env \<Rightarrow> string \<Rightarrow> string" where
  "url_for_error lg raw =
    (if find_ws raw = None then raw
     else case lg_parse lg (trim raw) of
       Some u \<Rightarrow> pu_text u
     | None \<Rightarrow>
         concat (map (\<lambda>c. if is_whitespace c then concat (map percent_byte c) else c) (chars raw)))"

subsection \<open>Credentials of a proxy\<close>

definition is_scheme :: "string \<Rightarrow> bool" where
  "is_scheme s =
    (case s of
       [] \<Rightarrow> False
     | c # cs \<Rightarrow> is_scheme_byte c \<and> \<not> is_ascii_digit c \<and> c \<notin> {CHR ''+'', CHR ''-'', CHR ''.''}
         \<and> list_all is_scheme_byte s)"

definition scheme_and_rest :: "string \<Rightarrow> string \<times> string" where
  "scheme_and_rest trimmed =
    (case find_sub ''://'' trimmed of
       Some i \<Rightarrow>
         if is_scheme (take i trimmed) then (take i trimmed @ ''://'', drop (i + 3) trimmed)
         else ([], trimmed)
     | None \<Rightarrow> ([], trimmed))"

definition redact_proxy_url :: "string \<Rightarrow> string" where
  "redact_proxy_url raw =
    (let (pre, rest) = scheme_and_rest (trim raw)
     in case rfind_char (\<lambda>c. c = CHR ''@'') rest of
          Some i \<Rightarrow> pre @ ''***@'' @ drop (i + 1) rest
        | None \<Rightarrow> pre @ rest)"

definition redact_url_userinfo :: "string \<Rightarrow> string" where
  "redact_url_userinfo text = replace_urls redact_proxy_url text"

text \<open>The text of a client error, without its URL, and of its causes, for an operator's log.\<close>

definition reqwest_error_chain :: "string \<Rightarrow> string list \<Rightarrow> string" where
  "reqwest_error_chain outer causes =
    redact_url_userinfo
      (fold (\<lambda>cause out. if contains_str out cause then out else out @ '': '' @ cause) causes outer)"


subsection \<open>What survives\<close>

lemma find_sub_append:
  "find_sub pat s = Some i \<Longrightarrow> find_sub pat (s @ r) = Some i"
proof (induction s arbitrary: i)
  case Nil
  then show ?case by (cases r) (auto split: if_splits)
next
  case (Cons x xs)
  show ?case
  proof (cases "prefix pat (x # xs)")
    case True
    then have "prefix pat ((x # xs) @ r)" by (rule prefix_prefix)
    then show ?thesis using Cons.prems True by simp
  next
    case False
    then obtain z where z: "find_sub pat xs = Some z" "i = Suc z" using Cons.prems by auto
    then have "length pat \<le> length xs" using find_sub_Some by fastforce
    then have "\<not> prefix pat (x # (xs @ r))"
      using False by (metis append_Cons length_Cons le_SucI prefix_length_prefix prefix_order.refl prefixI)
    then show ?thesis using Cons.IH [OF z(1)] z(2) by simp
  qed
qed

lemma contains_take_before:
  assumes "find_sub pat s = Some i" and "n \<le> i" and "pat \<noteq> []"
  shows "\<not> contains_str (take n s) pat"
proof
  assume "contains_str (take n s) pat"
  then obtain j where j: "find_sub pat (take n s) = Some j" by (auto simp: contains_str_def)
  then have "find_sub pat (take n s @ drop n s) = Some j" by (rule find_sub_append)
  then have "j = i" using assms(1) by simp
  moreover have "j < n" using find_sub_Some [OF j] assms(3) by (cases pat) auto
  ultimately show False using assms(2) by simp
qed

lemma url_start_le: "url_start rest sep \<le> sep"
  by (auto simp: url_start_def rfind_char_def split: option.splits dest!: find_char_Some)

lemma url_end_le: "url_end rest sep \<le> length rest \<or> length rest < sep"
proof -
  have len: "find_ws s = Some i \<Longrightarrow> i < length s" for s i
    by (induction s arbitrary: i) (auto split: if_splits)
  show ?thesis by (auto simp: url_end_def split: option.split dest!: len)
qed

lemma lead_at_find_ws: "find_ws s = Some i \<Longrightarrow> lead_len ws_encodings (drop i s) \<noteq> 0"
  by (induction s arbitrary: i) (auto split: if_splits)

lemma after_url:
  assumes "sep \<le> length rest"
  shows "drop (url_end rest sep) rest = [] \<or> lead_len ws_encodings (drop (url_end rest sep) rest) \<noteq> 0"
  using lead_at_find_ws [of "drop sep rest"]
  by (auto simp: url_end_def add.commute split: option.split)

text \<open>
  The specification of the replacement: plain text has no \<open>://\<close>; a URL holds one, runs to the end
  or to the next whitespace, and is rewritten as a whole.
\<close>

inductive urls_replaced :: "(string \<Rightarrow> string) \<Rightarrow> string \<Rightarrow> string \<Rightarrow> bool" for f where
  plain_text: "\<not> contains_str s ''://'' \<Longrightarrow> urls_replaced f s s"
| one_url: "\<not> contains_str p ''://'' \<Longrightarrow> contains_str u ''://'' \<Longrightarrow>
    rest = [] \<or> lead_len ws_encodings rest \<noteq> 0 \<Longrightarrow> urls_replaced f rest rest' \<Longrightarrow>
    urls_replaced f (p @ u @ rest) (p @ f u @ rest')"

lemma replace_urls_spec: "urls_replaced f s (replace_urls f s)"
proof (induction f s rule: replace_urls.induct)
  case (1 f rest)
  show ?case
  proof (cases "find_sub ''://'' rest")
    case None
    then show ?thesis by (subst replace_urls.simps) (simp add: plain_text contains_str_def)
  next
    case (Some sep)
    let ?a = "url_start rest sep" and ?b = "url_end rest sep"
    let ?p = "take ?a rest" and ?u = "drop ?a (take ?b rest)" and ?r = "drop ?b rest"
    have a: "?a \<le> sep" by (rule url_start_le)
    have b: "sep + 3 \<le> ?b" by (rule url_end_after_sep [OF Some])
    note f = find_sub_Some [OF Some]
    have l: "?b \<le> length rest" using url_end_le [of rest sep] f by auto
    have eq: "rest = ?p @ ?u @ ?r"
      using a b by (metis append.assoc append_take_drop_id le_add1 le_trans min.absorb1 take_take)
    have "\<not> contains_str ?p ''://''" by (rule contains_take_before [OF Some a]) simp
    moreover have "contains_str ?u ''://''"
    proof -
      have "drop (sep - ?a) ?u = take (?b - sep) (drop sep rest)"
        using a by (simp add: drop_take)
      moreover have "?b - sep = Suc (Suc (Suc (?b - sep - 3)))" using b by simp
      then obtain n where "?b - sep = Suc (Suc (Suc n))" ..
      ultimately have "prefix ''://'' (drop (sep - ?a) ?u)" using f by (auto simp: prefix_def)
      then show ?thesis unfolding contains_str_def using find_sub_None by blast
    qed
    moreover have "?r = [] \<or> lead_len ws_encodings ?r \<noteq> 0" using after_url f by simp
    moreover have "urls_replaced f ?r (replace_urls f ?r)" using 1 [OF Some] .
    ultimately have "urls_replaced f (?p @ ?u @ ?r) (?p @ f ?u @ replace_urls f ?r)" by (rule one_url)
    moreover have "replace_urls f rest = ?p @ f ?u @ replace_urls f ?r"
      using Some by (subst replace_urls.simps) simp
    ultimately show ?thesis using eq by simp
  qed
qed


lemma split_trailing_spec:
  "split_trailing_punctuation u = (core, tail) \<Longrightarrow>
    u = core @ tail \<and> length tail \<le> 4 \<and> set tail \<subseteq> set trailing_punctuation"
proof -
  assume a: "split_trailing_punctuation u = (core, tail)"
  let ?w = "takeWhile (\<lambda>c. c \<in> set trailing_punctuation) (rev u)"
  let ?n = "min keep_trailing (length ?w)"
  have core: "core = take (length u - ?n) u" and tail: "tail = drop (length u - ?n) u"
    using a by (simp_all add: split_trailing_punctuation_def Let_def)
  have n: "?n \<le> length u" using length_takeWhile_le [of "\<lambda>c. c \<in> set trailing_punctuation" "rev u"] by simp
  have "rev tail = take ?n (rev u)" using n by (simp add: tail take_rev)
  also have "\<dots> = take ?n ?w"
    by (metis min.absorb1 min.cobounded2 take_take takeWhile_eq_take)
  finally have "set tail \<subseteq> set ?w" by (metis set_rev set_take_subset)
  also have "\<dots> \<subseteq> set trailing_punctuation" by (auto dest: set_takeWhileD)
  finally show ?thesis using core tail n by (simp add: keep_trailing_def)
qed


lemma rfind_char_last:
  assumes "\<And>x. x \<in> set b \<Longrightarrow> \<not> P x" and "P c"
  shows "rfind_char P (a @ c # b) = Some (length a)"
proof -
  have "find_char P (rev b @ c # rev a) = Some (length b)"
    using assms by (induction b rule: rev_induct) auto
  then show ?thesis by (simp add: rfind_char_def)
qed

lemma find_sep_after_scheme:
  assumes "is_scheme s"
  shows "find_sub ''://'' (s @ ''://'' @ r) = Some (length s)"
proof -
  have "list_all is_scheme_byte s" using assms by (cases s) (simp_all add: is_scheme_def)
  then show ?thesis
  proof (induction s)
    case (Cons c cs)
    then have "c \<noteq> CHR '':''" by (auto simp: is_scheme_byte_def is_ascii_digit_def ascii_lower_def byte_def)
    then show ?case using Cons by simp
  qed simp
qed

text \<open>
  Whatever stands between the scheme of a proxy URL and the last \<open>@\<close>, including further
  \<open>@\<close>, slashes or separators, nothing of it is in the masked form, which shows the scheme
  and the host only.
\<close>

theorem proxy_credentials_masked:
  assumes "is_scheme s" and "CHR ''@'' \<notin> set host"
    and "trim raw = s @ ''://'' @ secret @ ''@'' @ host"
  shows "redact_proxy_url raw = s @ ''://***@'' @ host"
proof -
  have f: "find_sub ''://'' (trim raw) = Some (length s)" unfolding assms(3) by (rule find_sep_after_scheme [OF assms(1)])
  have sr: "scheme_and_rest (trim raw) = (s @ ''://'', secret @ ''@'' @ host)"
    using f assms(1) by (simp add: scheme_and_rest_def assms(3))
  have "rfind_char (\<lambda>c. c = CHR ''@'') (secret @ CHR ''@'' # host) = Some (length secret)"
    by (rule rfind_char_last) (use assms(2) in auto)
  with sr show ?thesis by (simp add: redact_proxy_url_def)
qed

theorem proxy_credentials_masked_witness:
  "redact_proxy_url ''http://user:p@ss://w@gw.example.com:823'' = ''http://***@gw.example.com:823''"
proof -
  have "is_scheme ''http''" "CHR ''@'' \<notin> set ''gw.example.com:823''"
    "trim ''http://user:p@ss://w@gw.example.com:823''
      = ''http'' @ ''://'' @ ''user:p@ss://w'' @ ''@'' @ ''gw.example.com:823''"
    by code_simp+
  then show ?thesis using proxy_credentials_masked by force
qed

text \<open>On a text with a URL: the query and its token are gone.\<close>

lemma scrub_example:
  "scrub_urls \<lparr> lg_parse = (\<lambda>s. Some \<lparr> pu_scheme = ''https'', pu_host = Some ''a.example'', pu_port = None, pu_text = s \<rparr>),
      lg_sha = (\<lambda>s. replicate 32 (CHR ''x'')), lg_key = [] \<rparr> ''for url (https://a.example/p?token=t0k3n) now''
    = ''for url (https://a.example (u:787878787878)) now''"
  by code_simp

end
