(* ===== verification/Http_Tier.thy ===== *)
theory Http_Tier
  imports Body_Checks Clearance Host_Limiter Log_Url Robots
begin

section \<open>The HTTP tier\<close>

text \<open>
  \<open>HttpFetcher::fetch\<close> of \<open>crates/crw-renderer/src/http_only.rs\<close>: one page over plain HTTP, with
  retries on transient errors, the fallback proxy, the memory of hosts that block the direct
  egress, the relaxed-TLS retry and the rescue that leads back to the direct egress, then the
  checks on the body. The client library is a parameter: the answer to the \<open>n\<close>-th request is
  \<open>ht_send env n\<close> of the egress used, the headers and the time allowed. Log lines and counters
  are left out.
\<close>

subsection \<open>What the client reports\<close>

datatype io_error_kind = ConnectionReset | ConnectionRefused | ConnectionAborted | OtherIoError

record error_source =
  es_io :: "io_error_kind option"
  es_text :: string

record transport_error =
  te_connect :: bool
  te_timeout :: bool
  te_sources :: "error_source list"
  te_message :: string

record http_response =
  hr_status :: nat
  hr_header :: "string \<Rightarrow> string option"
  hr_content_length :: "nat option"
  hr_final_url :: string
  hr_body :: "(string + string) list"
  hr_body_late :: "duration \<Rightarrow> bool"

datatype egress = Direct | Relaxed | Proxied

datatype send_outcome = Hung | Failed transport_error | Answered http_response

definition max_response_bytes :: nat where
  "max_response_bytes = 50 * 1024 * 1024"

definition http_max_retries :: nat where
  "http_max_retries = 1"

definition http_retry_backoff :: duration where
  "http_retry_backoff = from_millis 250"

definition challenge_direct_reserve :: duration where
  "challenge_direct_reserve = from_millis 1500"

definition challenge_proxy_max :: duration where
  "challenge_proxy_max = from_secs 6"

definition min_send_budget :: duration where
  "min_send_budget = from_millis 500"

definition is_retriable_error :: "transport_error \<Rightarrow> bool" where
  "is_retriable_error e = (te_timeout e \<and> \<not> te_connect e)"

definition is_connection_failure :: "transport_error \<Rightarrow> bool" where
  "is_connection_failure e =
    ((te_connect e \<and> te_timeout e)
     \<or> list_ex (\<lambda>s. es_io s \<in> {Some ConnectionReset, Some ConnectionRefused, Some ConnectionAborted})
         (te_sources e))"

definition is_retriable_status :: "nat \<Rightarrow> bool" where
  "is_retriable_status s = (502 \<le> s \<and> s \<le> 504)"

definition is_ratelimit_status :: "nat \<Rightarrow> bool" where
  "is_ratelimit_status s = (s = 429)"

datatype challenge_header = CloudflareMitigated | AwsWaf

fun challenge_marker :: "challenge_header \<Rightarrow> string" where
  "challenge_marker CloudflareMitigated = ''cloudflare_mitigated''"
| "challenge_marker AwsWaf = ''waf_challenge''"

fun challenge_warning_text :: "challenge_header \<Rightarrow> string" where
  "challenge_warning_text CloudflareMitigated =
    ''cf-mitigated header indicates Cloudflare challenge or block''"
| "challenge_warning_text AwsWaf = ''x-amzn-waf-action header indicates an AWS WAF challenge''"

definition challenge_of :: "(string \<Rightarrow> string option) \<Rightarrow> challenge_header option" where
  "challenge_of value =
    (if (case value ''cf-mitigated'' of Some v \<Rightarrow> is_cloudflare_mitigated_header v | None \<Rightarrow> False)
     then Some CloudflareMitigated
     else if (case value ''x-amzn-waf-action'' of Some v \<Rightarrow> is_aws_waf_action_header v | None \<Rightarrow> False)
     then Some AwsWaf
     else None)"

definition should_arm_proxy :: "nat \<Rightarrow> challenge_header option \<Rightarrow> bool" where
  "should_arm_proxy s c = (is_ratelimit_status s \<or> c \<noteq> None)"

definition is_cert_error :: "transport_error \<Rightarrow> bool" where
  "is_cert_error e =
    list_ex (\<lambda>s. let m = to_ascii_lowercase (es_text s)
        in contains_any m [''cert'', ''peerfailedverification'', ''sslconnecterror'']
           \<or> (contains_str m ''ssl'' \<and> contains_str m ''verif''))
      (te_sources e)"

subsection \<open>The fetcher and its environment\<close>

record http_fetcher =
  hf_has_relaxed :: bool
  hf_has_ratelimit_proxy :: bool
  hf_has_static_proxy :: bool
  hf_stealth_headers :: bool

text \<open>Which of the environment's settings arm what.\<close>

definition tls_relaxed_fallback_enabled :: "string option \<Rightarrow> bool" where
  "tls_relaxed_fallback_enabled setting =
    (case setting of
       Some v \<Rightarrow> (let t = to_ascii_lowercase (trim v) in t = ''true'' \<or> t = ''1'' \<or> t = ''yes'')
     | None \<Rightarrow> False)"

definition env_proxy_configured :: "(string \<Rightarrow> string option) \<Rightarrow> bool" where
  "env_proxy_configured var =
    list_ex (\<lambda>k. case var k of Some v \<Rightarrow> trim v \<noteq> [] | None \<Rightarrow> False)
      [''HTTP_PROXY'', ''http_proxy'', ''HTTPS_PROXY'', ''https_proxy'', ''ALL_PROXY'', ''all_proxy'']"

definition ratelimit_proxy_url :: "(string \<Rightarrow> string option) \<Rightarrow> string option" where
  "ratelimit_proxy_url var =
    (case var ''CRW_HTTP_RATELIMIT_PROXY_URL'' of
       Some s \<Rightarrow> if trim s \<noteq> [] then Some (trim s) else None
     | None \<Rightarrow> None)"

definition fetcher_with_timeout ::
    "(string \<Rightarrow> string option) \<Rightarrow> (string \<Rightarrow> bool) \<Rightarrow> string option \<Rightarrow> bool \<Rightarrow> http_fetcher" where
  "fetcher_with_timeout var proxy_parses proxy inject_stealth_headers =
    \<lparr> hf_has_relaxed = tls_relaxed_fallback_enabled (var ''CRW_HTTP_TLS_RELAXED_FALLBACK''),
      hf_has_ratelimit_proxy =
        (case ratelimit_proxy_url var of Some p \<Rightarrow> proxy_parses p | None \<Rightarrow> False),
      hf_has_static_proxy = (proxy \<noteq> None \<or> env_proxy_configured var),
      hf_stealth_headers = inject_stealth_headers \<rparr>"

definition stealth_accept :: string where
  "stealth_accept = ''text/html,application/xhtml+xml,application/xml;q=0.9,image/avif,image/webp,*/*;q=0.8''"

definition request_headers :: "string \<Rightarrow> http_fetcher \<Rightarrow> (string \<times> string) list \<Rightarrow> (string \<times> string) list" where
  "request_headers sec_ch_ua hf headers =
    (if hf_stealth_headers hf then
       [(''Accept'', stealth_accept), (''Accept-Language'', ''en-US,en;q=0.9''),
        (''Sec-Fetch-Dest'', ''document''), (''Sec-Fetch-Mode'', ''navigate''), (''Sec-Fetch-Site'', ''none''),
        (''Sec-Fetch-User'', ''?1''), (''Upgrade-Insecure-Requests'', ''1''), (''Priority'', ''u=0, i'')]
       @ (if list_ex (\<lambda>(k, v). eq_ignore_ascii_case k ''user-agent'') headers then []
          else [(''Sec-Ch-Ua'', sec_ch_ua), (''Sec-Ch-Ua-Mobile'', ''?0''),
                (''Sec-Ch-Ua-Platform'', [CHR 0x22] @ ''Windows'' @ [CHR 0x22])])
     else []) @ headers"

record http_env =
  ht_lib :: text_lib
  ht_log :: log_env
  ht_psl :: "string \<Rightarrow> string option"
  ht_host :: "string \<Rightarrow> string option"
  ht_clock :: "nat \<Rightarrow> instant"
  ht_sec_ch_ua :: string
  ht_send :: "nat \<Rightarrow> egress \<Rightarrow> string \<Rightarrow> (string \<times> string) list \<Rightarrow> duration \<Rightarrow> send_outcome"
  ht_wide_charset :: "string \<Rightarrow> bool"
  ht_known_charset :: "string \<Rightarrow> bool"
  ht_decode :: "string \<Rightarrow> string \<Rightarrow> string"
  ht_lossy :: "string \<Rightarrow> string"

text \<open>One request sent: the egress, what was left of the deadline, the time given and what came of it.\<close>

record send_log =
  sl_egress :: egress
  sl_left :: duration
  sl_budget :: duration
  sl_outcome :: send_outcome

record http_world =
  hw_reads :: nat
  hw_sends :: "send_log list"
  hw_pauses :: "duration list"
  hw_egress :: egress_memory

definition read_now :: "http_env \<Rightarrow> http_world \<Rightarrow> instant \<times> http_world" where
  "read_now env w = (ht_clock env (hw_reads w), w\<lparr> hw_reads := hw_reads w + 1 \<rparr>)"

definition read_left :: "http_env \<Rightarrow> deadline \<Rightarrow> http_world \<Rightarrow> duration \<times> http_world" where
  "read_left env d w = (let (now, w1) = read_now env w in (remaining d now, w1))"

subsection \<open>The retry loop\<close>

record fetch_flags =
  ff_attempt :: nat
  ff_use_relaxed :: bool
  ff_use_proxy :: bool
  ff_direct_rescue_used :: bool
  ff_origin_answered :: bool
  ff_direct_connect_failed :: bool
  ff_armed_mid_loop :: bool
  ff_armed_from_challenge :: bool

definition flags_start :: "bool \<Rightarrow> fetch_flags" where
  "flags_start proxy_first =
    \<lparr> ff_attempt = 0, ff_use_relaxed = False, ff_use_proxy = proxy_first, ff_direct_rescue_used = False,
      ff_origin_answered = False, ff_direct_connect_failed = False, ff_armed_mid_loop = False,
      ff_armed_from_challenge = False \<rparr>"

datatype fetch_next =
    Again fetch_flags http_world
  | Finished "crw_error + http_response" fetch_flags http_world

definition attempt_budget :: "bool \<Rightarrow> fetch_flags \<Rightarrow> duration \<Rightarrow> duration" where
  "attempt_budget proxy_first ff left =
    (if ff_use_proxy ff \<and> \<not> ff_direct_rescue_used ff then
       if proxy_first then left - direct_fallback_reserve
       else if ff_armed_from_challenge ff
         then min (left - min (left div 2) challenge_direct_reserve) challenge_proxy_max
       else left
     else left)"

definition active_egress :: "http_fetcher \<Rightarrow> fetch_flags \<Rightarrow> egress" where
  "active_egress hf ff =
    (if ff_use_proxy ff then (if hf_has_ratelimit_proxy hf then Proxied else Direct)
     else if ff_use_relaxed ff then (if hf_has_relaxed hf then Relaxed else Direct)
     else Direct)"

text \<open>Falling back from the proxy to the direct egress, possible once.\<close>

definition can_rescue :: "bool \<Rightarrow> fetch_flags \<Rightarrow> bool" where
  "can_rescue proxy_first ff =
    (ff_use_proxy ff \<and> (proxy_first \<or> ff_armed_mid_loop ff) \<and> \<not> ff_direct_rescue_used ff)"

definition to_direct :: "fetch_flags \<Rightarrow> fetch_flags" where
  "to_direct ff = ff\<lparr> ff_use_proxy := False, ff_direct_rescue_used := True \<rparr>"

definition back_off :: "http_env \<Rightarrow> deadline \<Rightarrow> http_world \<Rightarrow> http_world" where
  "back_off env d w =
    (let (left, w1) = read_left env d w; pause = min http_retry_backoff left
     in w1\<lparr> hw_pauses := hw_pauses w1 @ (if pause = 0 then [] else [pause]) \<rparr>)"

definition retry :: "http_env \<Rightarrow> deadline \<Rightarrow> fetch_flags \<Rightarrow> http_world \<Rightarrow> fetch_next" where
  "retry env d ff w = Again (ff\<lparr> ff_attempt := ff_attempt ff + 1 \<rparr>) (back_off env d w)"

definition latch_host :: "http_env \<Rightarrow> string option \<Rightarrow> http_world \<Rightarrow> http_world" where
  "latch_host env host w =
    (case host of Some h \<Rightarrow> w\<lparr> hw_egress := note_block (ht_psl env) h (hw_egress w) \<rparr> | None \<Rightarrow> w)"

text \<open>The arms of the loop's match, in the order of the source.\<close>

definition after_hang :: "http_env \<Rightarrow> string \<Rightarrow> bool \<Rightarrow> duration \<Rightarrow> fetch_flags \<Rightarrow> http_world \<Rightarrow> fetch_next" where
  "after_hang env url proxy_first budget ff w =
    (if can_rescue proxy_first ff then Again (to_direct ff) w
     else if ff_direct_connect_failed ff then
       Finished (Inl (TargetUnreachable (''Could not reach '' @ url_for_error (ht_log env) url
           @ '': no response from the origin over either egress''))) ff w
     else Finished (Inl (Timeout (as_millis budget mod 2 ^ 64))) ff w)"

definition after_answer ::
    "http_env \<Rightarrow> http_fetcher \<Rightarrow> deadline \<Rightarrow> bool \<Rightarrow> string option \<Rightarrow> http_response \<Rightarrow> fetch_flags \<Rightarrow> http_world \<Rightarrow> fetch_next" where
  "after_answer env hf d proxy_first host r ff w =
    (let challenge = challenge_of (hr_header r)
     in if ff_attempt ff < http_max_retries \<and> is_retriable_status (hr_status r) then retry env d ff w
     else if \<not> ff_use_proxy ff \<and> \<not> ff_direct_rescue_used ff \<and> hf_has_ratelimit_proxy hf
             \<and> should_arm_proxy (hr_status r) challenge then
       Again (ff\<lparr> ff_armed_mid_loop := True, ff_armed_from_challenge := (challenge \<noteq> None), ff_use_proxy := True \<rparr>)
         (if hf_has_static_proxy hf then w else latch_host env host w)
     else if can_rescue proxy_first ff \<and> (\<not> (200 \<le> hr_status r \<and> hr_status r < 300) \<or> challenge \<noteq> None)
       then Again (to_direct ff) w
     else Finished (Inr r) ff w)"

definition after_error ::
    "http_env \<Rightarrow> http_fetcher \<Rightarrow> string \<Rightarrow> deadline \<Rightarrow> bool \<Rightarrow> transport_error \<Rightarrow> fetch_flags \<Rightarrow> http_world \<Rightarrow> fetch_next" where
  "after_error env hf url d proxy_first e ff w =
    (if can_rescue proxy_first ff then Again (to_direct ff) w
     else if \<not> ff_use_relaxed ff \<and> hf_has_relaxed hf \<and> is_cert_error e
       then Again (ff\<lparr> ff_use_relaxed := True \<rparr>) w
     else
       let may_switch = \<not> ff_use_proxy ff \<and> \<not> ff_direct_rescue_used ff \<and> hf_has_ratelimit_proxy hf;
           (left, w1) = (if may_switch then read_left env d w else (0, w))
       in if may_switch \<and> min_send_budget \<le> left \<and> is_connection_failure e then
            Again (ff\<lparr> ff_use_proxy := True,
                      ff_direct_connect_failed := te_connect e \<and> te_timeout e \<and> \<not> ff_origin_answered ff \<rparr>) w1
          else if ff_attempt ff < http_max_retries
              \<and> (is_retriable_error e \<or> \<not> hf_has_ratelimit_proxy hf \<and> is_connection_failure e)
            then retry env d ff w1
          else
            let target = url_for_error (ht_log env) url
            in Finished
                 (Inl (if te_connect e \<and> (\<not> ff_use_proxy ff \<or> ff_direct_connect_failed ff)
                       then TargetUnreachable (''Could not reach '' @ target @ '': '' @ te_message e)
                       else HttpError (target @ '': '' @ te_message e))) ff w1)"

definition send_request ::
    "http_env \<Rightarrow> http_fetcher \<Rightarrow> string \<Rightarrow> (string \<times> string) list \<Rightarrow> fetch_flags \<Rightarrow> duration \<Rightarrow> duration \<Rightarrow> http_world
      \<Rightarrow> send_outcome \<times> http_world" where
  "send_request env hf url headers ff left budget w =
    (let via = active_egress hf ff;
         outcome = ht_send env (length (hw_sends w)) via url
           (request_headers (ht_sec_ch_ua env) hf headers) budget
     in (outcome, w\<lparr> hw_sends := hw_sends w @ [\<lparr> sl_egress = via, sl_left = left, sl_budget = budget, sl_outcome = outcome \<rparr>] \<rparr>))"

text \<open>One turn of the loop.\<close>

definition fetch_turn ::
    "http_env \<Rightarrow> http_fetcher \<Rightarrow> string \<Rightarrow> (string \<times> string) list \<Rightarrow> deadline \<Rightarrow> bool \<Rightarrow> string option
      \<Rightarrow> fetch_flags \<Rightarrow> http_world \<Rightarrow> fetch_next" where
  "fetch_turn env hf url headers d proxy_first host ff w0 =
    (let (left, w) = read_left env d w0;
         budget = attempt_budget proxy_first ff left
     in if left = 0 then Finished (Inl (Timeout (dl_requested_ms d))) ff w
        else if budget = 0 then
          (if ff_use_proxy ff \<and> proxy_first \<and> \<not> ff_direct_rescue_used ff then Again (to_direct ff) w
           else Finished (Inl (Timeout (dl_requested_ms d))) ff w)
        else
          let (outcome, w1) = send_request env hf url headers ff left budget w
          in case outcome of
               Hung \<Rightarrow> after_hang env url proxy_first budget ff w1
             | Answered r \<Rightarrow>
                 after_answer env hf d proxy_first host r
                   (if ff_use_proxy ff then ff else ff\<lparr> ff_origin_answered := True \<rparr>) w1
             | Failed e \<Rightarrow> after_error env hf url d proxy_first e ff w1)"

definition flags_rank :: "fetch_flags \<Rightarrow> nat" where
  "flags_rank ff =
    (if ff_direct_rescue_used ff then 0 else if ff_use_proxy ff then 1 else 2)
    + (http_max_retries - ff_attempt ff) + (if ff_use_relaxed ff then 0 else 1)"

text \<open>What each arm can do, for the proofs about the loop.\<close>

lemma after_hang_cases:
  obtains (rescue) "can_rescue pf ff" "after_hang env url pf budget ff w = Again (to_direct ff) w"
  | (unreachable) m where "\<not> can_rescue pf ff" "ff_direct_connect_failed ff"
      "after_hang env url pf budget ff w = Finished (Inl (TargetUnreachable m)) ff w"
  | (timeout) n where "\<not> can_rescue pf ff" "\<not> ff_direct_connect_failed ff"
      "after_hang env url pf budget ff w = Finished (Inl (Timeout n)) ff w"
  unfolding after_hang_def by (cases "can_rescue pf ff"; cases "ff_direct_connect_failed ff") auto

lemma after_answer_cases:
  obtains (retry) "ff_attempt ff < http_max_retries" "is_retriable_status (hr_status r)"
      "after_answer env hf d pf host r ff w = retry env d ff w"
  | (arm) "\<not> ff_use_proxy ff" "\<not> ff_direct_rescue_used ff" "hf_has_ratelimit_proxy hf"
      "should_arm_proxy (hr_status r) (challenge_of (hr_header r))"
      "after_answer env hf d pf host r ff w =
        Again (ff\<lparr> ff_armed_mid_loop := True,
                 ff_armed_from_challenge := (challenge_of (hr_header r) \<noteq> None), ff_use_proxy := True \<rparr>)
          (if hf_has_static_proxy hf then w else latch_host env host w)"
  | (rescue) "can_rescue pf ff" "after_answer env hf d pf host r ff w = Again (to_direct ff) w"
  | (answer) "can_rescue pf ff \<Longrightarrow>
        200 \<le> hr_status r \<and> hr_status r < 300 \<and> challenge_of (hr_header r) = None"
      "after_answer env hf d pf host r ff w = Finished (Inr r) ff w"
proof -
  let ?challenge = "challenge_of (hr_header r)"
  let ?A = "ff_attempt ff < http_max_retries \<and> is_retriable_status (hr_status r)"
  let ?B = "\<not> ff_use_proxy ff \<and> \<not> ff_direct_rescue_used ff \<and> hf_has_ratelimit_proxy hf
    \<and> should_arm_proxy (hr_status r) ?challenge"
  let ?C = "can_rescue pf ff \<and> (\<not> (200 \<le> hr_status r \<and> hr_status r < 300) \<or> ?challenge \<noteq> None)"
  note eq = after_answer_def [of env hf d pf host r ff w, unfolded Let_def]
  consider "?A" | "\<not> ?A" "?B" | "\<not> ?A" "\<not> ?B" "?C" | "\<not> ?A" "\<not> ?B" "\<not> ?C" by blast
  then show thesis
  proof cases
    case 1
    show thesis using retry eq [unfolded if_P [OF 1]] 1 by blast
  next
    case 2
    show thesis using arm eq [unfolded if_not_P [OF 2(1)] if_P [OF 2(2)]] 2(2) by blast
  next
    case 3
    show thesis using rescue eq [unfolded if_not_P [OF 3(1)] if_not_P [OF 3(2)] if_P [OF 3(3)]] 3(3) by blast
  next
    case 4
    show thesis using answer eq [unfolded if_not_P [OF 4(1)] if_not_P [OF 4(2)] if_not_P [OF 4(3)]] 4(3) by blast
  qed
qed

lemma after_error_cases:
  obtains (rescue) "can_rescue pf ff" "after_error env hf url d pf e ff w = Again (to_direct ff) w"
  | (relaxed) "\<not> ff_use_relaxed ff" "hf_has_relaxed hf" "is_cert_error e"
      "after_error env hf url d pf e ff w = Again (ff\<lparr> ff_use_relaxed := True \<rparr>) w"
  | (switch) w1 where "\<not> ff_use_proxy ff" "\<not> ff_direct_rescue_used ff" "hf_has_ratelimit_proxy hf"
      "is_connection_failure e" "w1 = snd (read_left env d w)"
      "after_error env hf url d pf e ff w =
        Again (ff\<lparr> ff_use_proxy := True,
                 ff_direct_connect_failed := te_connect e \<and> te_timeout e \<and> \<not> ff_origin_answered ff \<rparr>) w1"
  | (retry) w1 where "ff_attempt ff < http_max_retries" "w1 = w \<or> w1 = snd (read_left env d w)"
      "after_error env hf url d pf e ff w = retry env d ff w1"
  | (unreachable) m w1 where "te_connect e" "\<not> ff_use_proxy ff \<or> ff_direct_connect_failed ff"
      "\<not> can_rescue pf ff" "w1 = w \<or> w1 = snd (read_left env d w)"
      "after_error env hf url d pf e ff w = Finished (Inl (TargetUnreachable m)) ff w1"
  | (http_error) m w1 where "\<not> can_rescue pf ff" "w1 = w \<or> w1 = snd (read_left env d w)"
      "after_error env hf url d pf e ff w = Finished (Inl (HttpError m)) ff w1"
proof -
  let ?sw = "\<not> ff_use_proxy ff \<and> \<not> ff_direct_rescue_used ff \<and> hf_has_ratelimit_proxy hf"
  let ?lw = "if ?sw then read_left env d w else (0, w)"
  have w1: "snd ?lw = w \<or> snd ?lw = snd (read_left env d w)" by simp
  consider "can_rescue pf ff"
    | "\<not> can_rescue pf ff" "\<not> ff_use_relaxed ff \<and> hf_has_relaxed hf \<and> is_cert_error e"
    | (rest) "\<not> can_rescue pf ff" "\<not> (\<not> ff_use_relaxed ff \<and> hf_has_relaxed hf \<and> is_cert_error e)" by blast
  then show thesis
  proof cases
    case rest
    note eq = after_error_def [of env hf url d pf e ff w, unfolded Let_def case_prod_beta if_not_P [OF rest(1)] if_not_P [OF rest(2)]]
    consider "?sw \<and> min_send_budget \<le> fst ?lw \<and> is_connection_failure e"
      | "\<not> (?sw \<and> min_send_budget \<le> fst ?lw \<and> is_connection_failure e)"
        "ff_attempt ff < http_max_retries
          \<and> (is_retriable_error e \<or> \<not> hf_has_ratelimit_proxy hf \<and> is_connection_failure e)"
      | "\<not> (?sw \<and> min_send_budget \<le> fst ?lw \<and> is_connection_failure e)"
        "\<not> (ff_attempt ff < http_max_retries
          \<and> (is_retriable_error e \<or> \<not> hf_has_ratelimit_proxy hf \<and> is_connection_failure e))" by blast
    then show thesis
    proof cases
      case 1
      then show thesis using eq by (intro switch [OF _ _ _ _ refl]) auto
    next
      case 2
      show thesis using retry [OF _ w1] eq [unfolded if_not_P [OF 2(1)] if_P [OF 2(2)]] 2(2) by blast
    next
      case 3
      note eq3 = eq [unfolded if_not_P [OF 3(1)] if_not_P [OF 3(2)]]
      show thesis
      proof (cases "te_connect e \<and> (\<not> ff_use_proxy ff \<or> ff_direct_connect_failed ff)")
        case True
        then show thesis using unreachable [OF _ _ rest(1) w1] eq3 by simp
      next
        case False
        then show thesis using http_error [OF rest(1) w1] eq3 by simp
      qed
    qed
  qed (auto intro: rescue relaxed simp: after_error_def)
qed

lemma to_direct_rank [simp]: "can_rescue pf ff \<Longrightarrow> flags_rank (to_direct ff) < flags_rank ff"
  by (simp add: can_rescue_def to_direct_def flags_rank_def)

lemma retry_rank:
  "retry env d ff w = Again ff' w' \<Longrightarrow> ff_attempt ff < http_max_retries \<Longrightarrow> flags_rank ff' < flags_rank ff"
  by (auto simp: retry_def flags_rank_def)

lemma after_hang_rank: "after_hang env url pf budget ff w = Again ff' w' \<Longrightarrow> flags_rank ff' < flags_rank ff"
  by (rule after_hang_cases [of pf ff env url budget w]) auto

lemma after_answer_rank:
  "after_answer env hf d pf host r ff w = Again ff' w' \<Longrightarrow> flags_rank ff' < flags_rank ff"
  by (rule after_answer_cases [of ff r env hf d pf host w]) (auto dest: retry_rank, auto simp: flags_rank_def)

lemma after_error_rank:
  "after_error env hf url d pf e ff w = Again ff' w' \<Longrightarrow> flags_rank ff' < flags_rank ff"
  by (rule after_error_cases [of pf ff env hf url d e w]) (auto dest: retry_rank, auto simp: flags_rank_def)

lemma origin_answered_rank [simp]: "flags_rank (ff\<lparr> ff_origin_answered := b \<rparr>) = flags_rank ff"
  by (simp add: flags_rank_def)

text \<open>What one turn can do.\<close>

lemma fetch_turn_cases:
  obtains (late) w1 where "w1 = snd (read_left env d w)"
      "fetch_turn env hf url headers d pf host ff w = Finished (Inl (Timeout (dl_requested_ms d))) ff w1"
  | (reserve) "can_rescue pf ff"
      "fetch_turn env hf url headers d pf host ff w = Again (to_direct ff) (snd (read_left env d w))"
  | (sent) left w1 budget outcome w2 where "(left, w1) = read_left env d w" "0 < left" "0 < budget"
      "budget = attempt_budget pf ff left" "(outcome, w2) = send_request env hf url headers ff left budget w1"
      "fetch_turn env hf url headers d pf host ff w =
        (case outcome of
           Hung \<Rightarrow> after_hang env url pf budget ff w2
         | Answered r \<Rightarrow>
             after_answer env hf d pf host r (if ff_use_proxy ff then ff else ff\<lparr> ff_origin_answered := True \<rparr>) w2
         | Failed e \<Rightarrow> after_error env hf url d pf e ff w2)"
proof -
  obtain left w1 where r: "read_left env d w = (left, w1)" by fastforce
  let ?budget = "attempt_budget pf ff left"
  obtain outcome w2 where s: "send_request env hf url headers ff left ?budget w1 = (outcome, w2)" by fastforce
  consider "left = 0" | "0 < left" "?budget = 0" | "0 < left" "0 < ?budget" by blast
  then show thesis
  proof cases
    case 1
    then show thesis using late r by (simp add: fetch_turn_def)
  next
    case 2
    then show thesis using late reserve r
      by (cases "ff_use_proxy ff \<and> pf \<and> \<not> ff_direct_rescue_used ff") (simp_all add: fetch_turn_def can_rescue_def)
  next
    case 3
    then show thesis using sent [OF r [symmetric] 3 refl s [symmetric]] r s by (simp add: fetch_turn_def)
  qed
qed

lemma fetch_turn_rank:
  assumes "fetch_turn env hf url headers d pf host ff w = Again ff' w'"
  shows "flags_rank ff' < flags_rank ff"
proof (cases rule: fetch_turn_cases [of env d w hf url headers pf host ff])
  case (sent left w1 budget outcome w2)
  have "(case outcome of
           Hung \<Rightarrow> after_hang env url pf budget ff w2
         | Answered r \<Rightarrow>
             after_answer env hf d pf host r (if ff_use_proxy ff then ff else ff\<lparr> ff_origin_answered := True \<rparr>) w2
         | Failed e \<Rightarrow> after_error env hf url d pf e ff w2) = Again ff' w'"
    using assms by (simp only: sent(6))
  then show ?thesis
    by (cases outcome) (auto split: if_splits dest: after_hang_rank after_answer_rank after_error_rank)
qed (use assms in auto)

function fetch_loop ::
    "http_env \<Rightarrow> http_fetcher \<Rightarrow> string \<Rightarrow> (string \<times> string) list \<Rightarrow> deadline \<Rightarrow> bool \<Rightarrow> string option
      \<Rightarrow> fetch_flags \<Rightarrow> http_world \<Rightarrow> (crw_error + http_response) \<times> fetch_flags \<times> http_world" where
  "fetch_loop env hf url headers d proxy_first host ff w =
    (case fetch_turn env hf url headers d proxy_first host ff w of
       Again ff' w' \<Rightarrow> fetch_loop env hf url headers d proxy_first host ff' w'
     | Finished r ff' w' \<Rightarrow> (r, ff', w'))"
  by pat_completeness auto
termination by (relation "measure (\<lambda>(env, hf, url, headers, d, pf, host, ff, w). flags_rank ff)")
    (auto intro: fetch_turn_rank)

declare fetch_loop.simps [simp del]

subsection \<open>The body\<close>

definition charset_label :: "(char \<Rightarrow> bool) \<Rightarrow> string \<Rightarrow> string \<Rightarrow> string option" where
  "charset_label keep ct lower =
    (case find_sub ''charset'' lower of
       None \<Rightarrow> None
     | Some i \<Rightarrow>
         (case strip_prefix ''='' (trim_start (drop (i + 7) ct)) of
            None \<Rightarrow> None
          | Some rest \<Rightarrow>
              (let label = takeWhile keep (dropWhile (\<lambda>c. c = CHR 0x22 \<or> c = CHR 0x27) (trim_start rest))
               in if label = [] then None else Some label)))"

definition is_ascii_alphanumeric :: "char \<Rightarrow> bool" where
  "is_ascii_alphanumeric c = (is_ascii_alphabetic c \<or> is_ascii_digit c)"

definition charset_from_content_type :: "string \<Rightarrow> string option" where
  "charset_from_content_type ct =
    map_option trim (charset_label (\<lambda>c. is_ascii_alphanumeric c \<or> c \<in> {CHR ''-'', CHR ''_'', CHR '':''})
      ct (to_ascii_lowercase ct))"

definition sniff_meta_charset :: "(string \<Rightarrow> string) \<Rightarrow> string \<Rightarrow> string option" where
  "sniff_meta_charset lossy bytes =
    (let doc = to_ascii_lowercase (lossy (take 2048 bytes))
     in charset_label (\<lambda>c. is_ascii_alphanumeric c \<or> c \<in> {CHR ''-'', CHR ''_''}) doc doc)"

definition looks_binary :: "http_env \<Rightarrow> string \<Rightarrow> string option \<Rightarrow> bool" where
  "looks_binary env bytes header_charset =
    (if (case header_charset of Some l \<Rightarrow> ht_wide_charset env l | None \<Rightarrow> False) then False
     else CHR 0x00 \<in> set (take 1024 bytes))"

definition known_label :: "http_env \<Rightarrow> string option \<Rightarrow> string option" where
  "known_label env label =
    (case label of Some l \<Rightarrow> if ht_known_charset env l then Some l else None | None \<Rightarrow> None)"

definition decode_html_bytes :: "http_env \<Rightarrow> string \<Rightarrow> string option \<Rightarrow> string" where
  "decode_html_bytes env bytes header_charset =
    (case (case known_label env header_charset of
             Some l \<Rightarrow> Some l
           | None \<Rightarrow> known_label env (sniff_meta_charset (ht_lossy env) bytes)) of
       Some l \<Rightarrow> ht_decode env l bytes
     | None \<Rightarrow> ht_lossy env bytes)"

definition too_large :: "string \<Rightarrow> crw_error" where
  "too_large what = HttpError (''Response too large: '' @ what)"

definition build_http_fetch_result ::
    "http_env \<Rightarrow> string \<Rightarrow> nat \<Rightarrow> string option \<Rightarrow> challenge_header option \<Rightarrow> string \<Rightarrow> string \<Rightarrow> nat \<Rightarrow> string
      \<Rightarrow> crw_error + fetched" where
  "build_http_fetch_result env url status content_type_header challenge final_url_str bytes elapsed_ms tier_name =
    (if max_response_bytes < length bytes then
       Inl (too_large (dec_digits (length bytes) @ '' bytes (max '' @ dec_digits max_response_bytes @ '')''))
     else
       let declared = map_option (\<lambda>s. to_lower (ht_lib env) (trim (hd (split_char (CHR '';'') s)))) content_type_header;
           header_charset = Option.bind content_type_header charset_from_content_type;
           content_type = (if prefix ''%PDF-'' bytes then Some ''application/pdf'' else declared);
           is_pdf = (content_type = Some ''application/pdf'');
           declared_html = (case content_type of
              Some ct \<Rightarrow> ct \<noteq> [] \<and> is_html_like_content_type (Some ct) | None \<Rightarrow> False)
       in if \<not> is_pdf \<and> \<not> declared_html \<and> looks_binary env bytes header_charset then
            Inl (UnsupportedContentType
              ((case content_type of Some ct \<Rightarrow> ct | None \<Rightarrow> ''no content-type'') @ '' ('' @ dec_digits (length bytes)
               @ '' bytes): the body is binary, not HTML and not a PDF, so there is nothing to extract''))
          else
            Inr \<lparr> fr_url = url,
                  fr_final_url = (if final_url_str \<noteq> url then Some final_url_str else None),
                  fr_status = status,
                  fr_html = (if is_pdf then [] else decode_html_bytes env bytes header_charset),
                  fr_content_type = content_type,
                  fr_raw_bytes = (if is_pdf then Some bytes else None),
                  fr_rendered_with = Some (if is_pdf then ''pdf'' else tier_name),
                  fr_elapsed_ms = elapsed_ms,
                  fr_warning = map_option challenge_marker challenge,
                  fr_credit_cost = 0,
                  fr_warnings = (case challenge of Some c \<Rightarrow> [challenge_warning_text c] | None \<Rightarrow> []),
                  fr_truncated = False,
                  fr_deadline_exceeded = False,
                  fr_captured = [],
                  fr_wall = None,
                  fr_meta = None \<rparr>)"

text \<open>\<open>hr_body_late r t\<close>: the stream has not been read within \<open>t\<close>.\<close>

definition read_body_capped :: "nat \<Rightarrow> (string + string) list \<Rightarrow> crw_error + string" where
  "read_body_capped maxn stream =
    (case read_capped maxn stream of
       Inl e \<Rightarrow> Inl (HttpError e)
     | Inr (body, truncated) \<Rightarrow>
         if truncated then Inl (too_large (''exceeds '' @ dec_digits maxn @ '' bytes'')) else Inr body)"

definition read_response_body :: "deadline \<Rightarrow> duration \<Rightarrow> http_response \<Rightarrow> crw_error + string" where
  "read_response_body d left r =
    (if hr_body_late r (max left min_send_budget) then Inl (Timeout (dl_requested_ms d))
     else read_body_capped max_response_bytes (hr_body r))"

subsection \<open>A fetch\<close>

definition is_ip_block :: "text_lib \<Rightarrow> fetched \<Rightarrow> bool" where
  "is_ip_block lib r =
    (fr_content_type r \<noteq> Some ''application/pdf'' \<and> looks_like_generic_bot_wall lib (fr_html r)
     \<and> \<not> looks_like_cloudflare_challenge lib (fr_html r) \<and> looks_like_vendor_block lib (fr_html r) = None)"

definition proxy_preferred ::
    "http_env \<Rightarrow> http_fetcher \<Rightarrow> deadline \<Rightarrow> string option \<Rightarrow> http_world \<Rightarrow> bool \<times> http_world" where
  "proxy_preferred env hf d host w =
    (case host of
       Some h \<Rightarrow>
         if hf_has_ratelimit_proxy hf then
           (let (left, w1) = read_left env d w
            in (min_budget_for_latch \<le> left \<and> should_proxy (ht_psl env) h (hw_egress w1), w1))
         else (False, w)
     | None \<Rightarrow> (False, w))"

definition elapsed_ms :: "instant \<Rightarrow> instant \<Rightarrow> nat" where
  "elapsed_ms start now = as_millis (since now start) mod 2 ^ 64"

definition finish_body ::
    "http_env \<Rightarrow> http_fetcher \<Rightarrow> string \<Rightarrow> deadline \<Rightarrow> string option \<Rightarrow> instant \<Rightarrow> bool \<Rightarrow> http_response \<Rightarrow> http_world
      \<Rightarrow> (crw_error + fetched) \<times> http_world" where
  "finish_body env hf url d host start used_proxy r w0 =
    (let (left, w) = read_left env d w0
     in case read_response_body d left r of
          Inl e \<Rightarrow> (Inl e, w)
        | Inr bytes \<Rightarrow>
            (let (now, w1) = read_now env w
             in case build_http_fetch_result env url (hr_status r) (hr_header r ''content-type'')
                       (challenge_of (hr_header r)) (hr_final_url r) bytes (elapsed_ms start now) ''http'' of
                  Inl e \<Rightarrow> (Inl e, w1)
                | Inr result \<Rightarrow>
                    (let w2 = (if \<not> used_proxy \<and> \<not> hf_has_static_proxy hf \<and> is_ip_block (ht_lib env) result
                               then latch_host env host w1 else w1);
                         (now2, w3) = read_now env w2
                     in (Inr (result\<lparr> fr_elapsed_ms := elapsed_ms start now2 \<rparr>), w3))))"

definition finish_fetch ::
    "http_env \<Rightarrow> http_fetcher \<Rightarrow> string \<Rightarrow> deadline \<Rightarrow> string option \<Rightarrow> instant \<Rightarrow> bool \<Rightarrow> http_response \<Rightarrow> http_world
      \<Rightarrow> (crw_error + fetched) \<times> http_world" where
  "finish_fetch env hf url d host start used_proxy r w =
    (if (case hr_content_length r of Some len \<Rightarrow> max_response_bytes < len | None \<Rightarrow> False) then
       (Inl (too_large (dec_digits (the (hr_content_length r)) @ '' bytes (max ''
               @ dec_digits max_response_bytes @ '')'')), w)
     else finish_body env hf url d host start used_proxy r w)"

definition fetch_http ::
    "http_env \<Rightarrow> http_fetcher \<Rightarrow> string \<Rightarrow> (string \<times> string) list \<Rightarrow> deadline \<Rightarrow> http_world
      \<Rightarrow> (crw_error + fetched) \<times> http_world" where
  "fetch_http env hf url headers d w0 =
    (let (now0, w1) = read_now env w0
     in if expired d now0 then
          (Inl (HttpError (''deadline expired before HTTP fetch of '' @ url_for_error (ht_log env) url)), w1)
        else
          let (start, w2) = read_now env w1;
              host = ht_host env url;
              (proxy_first, w3) = proxy_preferred env hf d host w2
          in case fetch_loop env hf url headers d proxy_first host (flags_start proxy_first) w3 of
               (Inl e, ff, w4) \<Rightarrow> (Inl e, w4)
             | (Inr r, ff, w4) \<Rightarrow> finish_fetch env hf url d host start (ff_use_proxy ff) r w4)"

end
