(* ===== verification/Http_Props.thy ===== *)
theory Http_Props
  imports Http_Tier "HOL-Library.Code_Target_Nat"
begin

section \<open>What a fetch over HTTP guarantees\<close>

text \<open>
  The invariant of the retry loop of \<open>Http_Tier\<close>, over the requests sent since the loop started,
  and what follows for a whole fetch: how many requests it sends, what makes it report an
  unreachable target, what it writes into the egress memory and that a preferred proxy never
  keeps it off the direct egress.
\<close>

definition over_direct :: "send_log \<Rightarrow> bool" where
  "over_direct s = (sl_egress s \<noteq> Proxied)"

fun answered_by :: "send_log \<Rightarrow> http_response option" where
  "answered_by s = (case sl_outcome s of Answered r \<Rightarrow> Some r | _ \<Rightarrow> None)"

fun failed_with :: "send_log \<Rightarrow> transport_error option" where
  "failed_with s = (case sl_outcome s of Failed e \<Rightarrow> Some e | _ \<Rightarrow> None)"

definition sends_since :: "http_world \<Rightarrow> http_world \<Rightarrow> send_log list" where
  "sends_since w w' = drop (length (hw_sends w)) (hw_sends w')"

text \<open>A block of the direct egress that the answer's status or headers announce.\<close>

definition direct_block :: "send_log \<Rightarrow> bool" where
  "direct_block s =
    (over_direct s \<and>
     (case answered_by s of
        Some r \<Rightarrow> should_arm_proxy (hr_status r) (challenge_of (hr_header r)) | None \<Rightarrow> False))"

text \<open>The origin swallowed a connection attempt.\<close>

definition blackholed :: "send_log \<Rightarrow> bool" where
  "blackholed s =
    (over_direct s \<and> (case failed_with s of Some e \<Rightarrow> te_connect e \<and> te_timeout e | None \<Rightarrow> False))"

definition direct_answered :: "send_log \<Rightarrow> bool" where
  "direct_answered s = (over_direct s \<and> answered_by s \<noteq> None)"

text \<open>The budget of a request fits what was left, less the reserve while the proxy is preferred.\<close>

definition budget_fits :: "bool \<Rightarrow> send_log \<Rightarrow> bool" where
  "budget_fits pf s =
    (0 < sl_budget s \<and> sl_budget s \<le> sl_left s
     \<and> (pf \<and> \<not> over_direct s \<longrightarrow> sl_budget s + direct_fallback_reserve = sl_left s))"

definition loop_inv :: "http_fetcher \<Rightarrow> bool \<Rightarrow> http_world \<Rightarrow> fetch_flags \<Rightarrow> http_world \<Rightarrow> bool" where
  "loop_inv hf pf w0 ff w =
    (\<exists>new. hw_sends w = hw_sends w0 @ new
       \<and> length new + flags_rank ff \<le> 4
       \<and> list_all (budget_fits pf) new
       \<and> (ff_origin_answered ff \<longleftrightarrow> list_ex direct_answered new)
       \<and> (ff_direct_connect_failed ff \<longrightarrow>
            list_ex blackholed new \<and> \<not> list_ex direct_answered new \<and> ff_use_proxy ff
            \<and> \<not> pf \<and> \<not> ff_armed_mid_loop ff)
       \<and> (hw_egress w \<noteq> hw_egress w0 \<longrightarrow> \<not> hf_has_static_proxy hf \<and> list_ex direct_block new)
       \<and> (ff_use_proxy ff \<longrightarrow> hf_has_ratelimit_proxy hf \<and> \<not> ff_direct_rescue_used ff
            \<and> (pf \<or> list_ex over_direct new))
       \<and> (pf \<or> ff_armed_mid_loop ff \<longrightarrow> ff_use_proxy ff \<or> ff_direct_rescue_used ff))"

lemma read_left_sends [simp]:
  "hw_sends (snd (read_left env d w)) = hw_sends w" "hw_egress (snd (read_left env d w)) = hw_egress w"
  by (simp_all add: read_left_def read_now_def Let_def)

lemma back_off_sends [simp]:
  "hw_sends (back_off env d w) = hw_sends w" "hw_egress (back_off env d w) = hw_egress w"
  by (simp_all add: back_off_def read_left_def read_now_def Let_def)

lemma latch_host_sends [simp]: "hw_sends (latch_host env host w) = hw_sends w"
  by (simp add: latch_host_def split: option.splits)

text \<open>The invariant depends on the world only through its requests and the egress memory.\<close>

lemma loop_inv_world:
  assumes "hw_sends w' = hw_sends w" "hw_egress w' = hw_egress w"
  shows "loop_inv hf pf w0 ff w' = loop_inv hf pf w0 ff w"
  using assms by (simp add: loop_inv_def)

lemma loop_inv_start:
  assumes "pf \<longrightarrow> hf_has_ratelimit_proxy hf"
  shows "loop_inv hf pf w (flags_start pf) w"
  unfolding loop_inv_def using assms
  by (intro exI [of _ "[]"]) (simp add: flags_start_def flags_rank_def http_max_retries_def)

lemma loop_inv_to_direct:
  assumes "loop_inv hf pf w0 ff w" "can_rescue pf ff"
  shows "loop_inv hf pf w0 (to_direct ff) w"
proof -
  have "flags_rank (to_direct ff) < flags_rank ff" using assms(2) by simp
  then show ?thesis using assms
    by (fastforce simp: loop_inv_def can_rescue_def to_direct_def)
qed

text \<open>
  The invariant once a request has been sent: its log entry is the last one, and one more
  request fits the bound.
\<close>

definition sent_inv :: "http_fetcher \<Rightarrow> bool \<Rightarrow> http_world \<Rightarrow> fetch_flags \<Rightarrow> send_log \<Rightarrow> http_world \<Rightarrow> bool" where
  "sent_inv hf pf w0 ff s w =
    (\<exists>before. loop_inv hf pf w0 ff before \<and> hw_sends w = hw_sends before @ [s] \<and> hw_egress w = hw_egress before
       \<and> (over_direct s \<longleftrightarrow> \<not> ff_use_proxy ff) \<and> budget_fits pf s)"

lemma over_direct_active:
  assumes "loop_inv hf pf w0 ff w" "sl_egress s = active_egress hf ff"
  shows "over_direct s \<longleftrightarrow> \<not> ff_use_proxy ff"
  using assms by (auto simp: over_direct_def active_egress_def loop_inv_def)

lemma attempt_budget_fits:
  assumes "loop_inv hf pf w0 ff w" "0 < attempt_budget pf ff left"
  shows "budget_fits pf \<lparr> sl_egress = active_egress hf ff, sl_left = left,
    sl_budget = attempt_budget pf ff left, sl_outcome = x \<rparr>"
  using assms by (auto simp: budget_fits_def over_direct_def active_egress_def loop_inv_def attempt_budget_def
      split: if_splits)

lemma loop_inv_sent:
  assumes "sent_inv hf pf w0 ff s w" "hw_sends w' = hw_sends w" "flags_rank ff' < flags_rank ff"
    "ff_origin_answered ff' \<longleftrightarrow> ff_origin_answered ff \<or> direct_answered s"
    "hw_egress w' \<noteq> hw_egress w \<Longrightarrow> \<not> hf_has_static_proxy hf \<and> direct_block s"
    "ff_direct_connect_failed ff' \<Longrightarrow>
      (ff_direct_connect_failed ff \<and> \<not> direct_answered s \<or> blackholed s \<and> \<not> ff_origin_answered ff')
      \<and> ff_use_proxy ff' \<and> \<not> pf \<and> \<not> ff_armed_mid_loop ff'"
    "ff_use_proxy ff' \<Longrightarrow> hf_has_ratelimit_proxy hf \<and> \<not> ff_direct_rescue_used ff'
      \<and> (ff_use_proxy ff \<or> over_direct s)"
    "pf \<or> ff_armed_mid_loop ff' \<Longrightarrow> ff_use_proxy ff' \<or> ff_direct_rescue_used ff'"
  shows "loop_inv hf pf w0 ff' w'"
proof -
  obtain before where inv: "loop_inv hf pf w0 ff before" and w: "hw_sends w = hw_sends before @ [s]"
    "hw_egress w = hw_egress before" "budget_fits pf s"
    using assms(1) by (auto simp: sent_inv_def)
  obtain new where new: "hw_sends before = hw_sends w0 @ new" "length new + flags_rank ff \<le> 4"
    "list_all (budget_fits pf) new" "ff_origin_answered ff \<longleftrightarrow> list_ex direct_answered new"
    "ff_direct_connect_failed ff \<Longrightarrow> list_ex blackholed new \<and> \<not> list_ex direct_answered new"
    "hw_egress before \<noteq> hw_egress w0 \<Longrightarrow> \<not> hf_has_static_proxy hf \<and> list_ex direct_block new"
    "ff_use_proxy ff \<Longrightarrow> pf \<or> list_ex over_direct new"
    using inv by (auto simp: loop_inv_def)
  have "length (new @ [s]) + flags_rank ff' \<le> 4" using new(2) assms(3) by simp
  moreover have "hw_egress w' \<noteq> hw_egress w0 \<longrightarrow> \<not> hf_has_static_proxy hf \<and> list_ex direct_block (new @ [s])"
    using assms(5) new(6) w(2) by (cases "hw_egress w' = hw_egress before") auto
  moreover have "ff_direct_connect_failed ff' \<longrightarrow>
      list_ex blackholed (new @ [s]) \<and> \<not> list_ex direct_answered (new @ [s]) \<and> ff_use_proxy ff' \<and> \<not> pf
      \<and> \<not> ff_armed_mid_loop ff'"
    using assms(4,6) new(4,5) by auto
  moreover have "ff_use_proxy ff' \<longrightarrow> hf_has_ratelimit_proxy hf \<and> \<not> ff_direct_rescue_used ff'
      \<and> (pf \<or> list_ex over_direct (new @ [s]))"
    using assms(7) new(7) by auto
  moreover have "hw_sends w' = hw_sends w0 @ (new @ [s])" "list_all (budget_fits pf) (new @ [s])"
    "ff_origin_answered ff' \<longleftrightarrow> list_ex direct_answered (new @ [s])"
    using new w assms(2,4) by auto
  ultimately show ?thesis using assms(8) unfolding loop_inv_def by blast
qed

text \<open>Facts of the flags when a request has just been sent.\<close>

lemma sent_flags:
  assumes "sent_inv hf pf w0 ff s w"
  shows "over_direct s \<longleftrightarrow> \<not> ff_use_proxy ff"
    "ff_direct_connect_failed ff \<Longrightarrow> ff_use_proxy ff \<and> \<not> pf \<and> \<not> ff_armed_mid_loop ff"
    "ff_use_proxy ff \<Longrightarrow> hf_has_ratelimit_proxy hf \<and> \<not> ff_direct_rescue_used ff"
    "pf \<or> ff_armed_mid_loop ff \<Longrightarrow> ff_use_proxy ff \<or> ff_direct_rescue_used ff"
    "ff_use_proxy ff \<Longrightarrow> direct_answered s \<Longrightarrow> False"
  using assms unfolding sent_inv_def loop_inv_def direct_answered_def by auto

lemma sent_to_direct:
  assumes "sent_inv hf pf w0 ff s w" "can_rescue pf ff"
  shows "loop_inv hf pf w0 (to_direct ff) w"
proof (rule loop_inv_sent [OF assms(1) refl to_direct_rank [OF assms(2)]])
  have "ff_use_proxy ff" "pf \<or> ff_armed_mid_loop ff" using assms(2) by (auto simp: can_rescue_def)
  then show "ff_origin_answered (to_direct ff) \<longleftrightarrow> ff_origin_answered ff \<or> direct_answered s"
    "ff_direct_connect_failed (to_direct ff) \<Longrightarrow>
      (ff_direct_connect_failed ff \<and> \<not> direct_answered s \<or> blackholed s \<and> \<not> ff_origin_answered (to_direct ff))
      \<and> ff_use_proxy (to_direct ff) \<and> \<not> pf \<and> \<not> ff_armed_mid_loop (to_direct ff)"
    using sent_flags [OF assms(1)] by (auto simp: to_direct_def)
qed (simp_all add: to_direct_def)

lemma sent_retry:
  assumes "sent_inv hf pf w0 ff s w" "hw_sends w' = hw_sends w" "hw_egress w' = hw_egress w"
    "ff_attempt ff < http_max_retries" "ff_origin_answered ff' \<longleftrightarrow> ff_origin_answered ff \<or> direct_answered s"
    "ff' = ff\<lparr> ff_origin_answered := b \<rparr>"
  shows "loop_inv hf pf w0 (ff'\<lparr> ff_attempt := ff_attempt ff' + 1 \<rparr>) w'"
proof (rule loop_inv_sent [OF assms(1,2)])
  show "flags_rank (ff'\<lparr> ff_attempt := ff_attempt ff' + 1 \<rparr>) < flags_rank ff"
    using assms(4,6) by (auto simp: flags_rank_def)
qed (use assms sent_flags [OF assms(1)] in auto)

text \<open>The flags the arms for an answer see.\<close>

definition note_answer :: "fetch_flags \<Rightarrow> fetch_flags" where
  "note_answer ff = (if ff_use_proxy ff then ff else ff\<lparr> ff_origin_answered := True \<rparr>)"

lemma note_answer_sent:
  assumes "sent_inv hf pf w0 ff s w" "answered_by s = Some r"
  shows "note_answer ff = ff\<lparr> ff_origin_answered := ff_origin_answered ff \<or> direct_answered s \<rparr>"
  using sent_flags(1) [OF assms(1)] assms(2) by (auto simp: note_answer_def direct_answered_def)

lemma sent_arm:
  assumes "sent_inv hf pf w0 ff s w" "answered_by s = Some r" "\<not> ff_use_proxy ff"
    "\<not> ff_direct_rescue_used ff" "hf_has_ratelimit_proxy hf"
    "should_arm_proxy (hr_status r) (challenge_of (hr_header r))"
  shows "loop_inv hf pf w0
    ((note_answer ff)\<lparr> ff_armed_mid_loop := True, ff_armed_from_challenge := c, ff_use_proxy := True \<rparr>)
    (if hf_has_static_proxy hf then w else latch_host env host w)"
proof (rule loop_inv_sent [OF assms(1)])
  show "hw_sends (if hf_has_static_proxy hf then w else latch_host env host w) = hw_sends w" by simp
  have "direct_block s" using assms(2,3,6) sent_flags(1) [OF assms(1)] by (simp add: direct_block_def)
  then show "hw_egress (if hf_has_static_proxy hf then w else latch_host env host w) \<noteq> hw_egress w \<Longrightarrow>
      \<not> hf_has_static_proxy hf \<and> direct_block s" by (simp split: if_splits)
qed (use assms sent_flags [OF assms(1)] in
    \<open>auto simp: note_answer_def flags_rank_def direct_answered_def\<close>)

lemma note_answer_simps [simp]:
  "ff_use_proxy (note_answer ff) = ff_use_proxy ff"
  "ff_direct_rescue_used (note_answer ff) = ff_direct_rescue_used ff"
  "ff_attempt (note_answer ff) = ff_attempt ff"
  "can_rescue pf (note_answer ff) = can_rescue pf ff"
  by (simp_all add: note_answer_def can_rescue_def)

lemma after_answer_Again:
  assumes sent: "sent_inv hf pf w0 ff s w" "answered_by s = Some r"
    and again: "after_answer env hf d pf host r (note_answer ff) w = Again ff' w'"
  shows "loop_inv hf pf w0 ff' w'"
proof (cases rule: after_answer_cases [of "note_answer ff" r env hf d pf host w])
  case retry
  then have "ff' = (note_answer ff)\<lparr> ff_attempt := ff_attempt (note_answer ff) + 1 \<rparr>" "w' = back_off env d w"
    using again by (simp_all add: retry_def)
  moreover have "loop_inv hf pf w0 ((note_answer ff)\<lparr> ff_attempt := ff_attempt (note_answer ff) + 1 \<rparr>) (back_off env d w)"
    by (rule sent_retry [OF sent(1) _ _ _ _ note_answer_sent [OF sent]])
      (use retry in \<open>simp_all add: note_answer_sent [OF sent]\<close>)
  ultimately show ?thesis by simp
next
  case arm
  then show ?thesis using again sent_arm [OF sent, of _ env host] by simp
next
  case rescue
  then have "note_answer ff = ff" by (auto simp: can_rescue_def note_answer_def split: if_splits)
  then show ?thesis using rescue again sent_to_direct [OF sent(1)] by simp
next
  case answer
  then show ?thesis using again by simp
qed

lemma after_error_Again:
  assumes sent: "sent_inv hf pf w0 ff s w" "failed_with s = Some e"
    and again: "after_error env hf url d pf e ff w = Again ff' w'"
  shows "loop_inv hf pf w0 ff' w'"
proof -
  have unanswered: "\<not> direct_answered s"
    using sent(2) by (auto simp: direct_answered_def split: send_outcome.splits)
  show ?thesis
  proof (cases rule: after_error_cases [of pf ff env hf url d e w])
    case rescue
    then show ?thesis using again sent_to_direct [OF sent(1)] by simp
  next
    case relaxed
    have "loop_inv hf pf w0 (ff\<lparr> ff_use_relaxed := True \<rparr>) w"
      by (rule loop_inv_sent [OF sent(1) refl])
        (use relaxed unanswered sent_flags [OF sent(1)] in \<open>auto simp: flags_rank_def\<close>)
    then show ?thesis using relaxed again by simp
  next
    case (switch w1)
    have "loop_inv hf pf w0
      (ff\<lparr> ff_use_proxy := True,
          ff_direct_connect_failed := te_connect e \<and> te_timeout e \<and> \<not> ff_origin_answered ff \<rparr>) w1"
    proof (rule loop_inv_sent [OF sent(1)])
      have "blackholed s" if "te_connect e" "te_timeout e"
        using that sent(2) switch(1) sent_flags(1) [OF sent(1)] by (simp add: blackholed_def)
      then show "ff_direct_connect_failed (ff\<lparr> ff_use_proxy := True,
          ff_direct_connect_failed := te_connect e \<and> te_timeout e \<and> \<not> ff_origin_answered ff \<rparr>) \<Longrightarrow>
        (ff_direct_connect_failed ff \<and> \<not> direct_answered s \<or> blackholed s \<and>
          \<not> ff_origin_answered (ff\<lparr> ff_use_proxy := True,
          ff_direct_connect_failed := te_connect e \<and> te_timeout e \<and> \<not> ff_origin_answered ff \<rparr>)) \<and>
        ff_use_proxy (ff\<lparr> ff_use_proxy := True,
          ff_direct_connect_failed := te_connect e \<and> te_timeout e \<and> \<not> ff_origin_answered ff \<rparr>) \<and> \<not> pf \<and>
        \<not> ff_armed_mid_loop (ff\<lparr> ff_use_proxy := True,
          ff_direct_connect_failed := te_connect e \<and> te_timeout e \<and> \<not> ff_origin_answered ff \<rparr>)"
        using switch(1,2) sent_flags [OF sent(1)] by auto
    qed (use switch unanswered sent_flags [OF sent(1)] in \<open>auto simp: flags_rank_def\<close>)
    then show ?thesis using switch again by simp
  next
    case (retry w1)
    have "loop_inv hf pf w0 (ff\<lparr> ff_attempt := ff_attempt ff + 1 \<rparr>) (back_off env d w1)"
      by (rule sent_retry [where b = "ff_origin_answered ff" and ff' = ff, OF sent(1)])
        (use retry unanswered in auto)
    then show ?thesis using retry again by (simp add: retry_def)
  qed (use again in auto)
qed

text \<open>How the loop ends: too late, with an answer or with an error.\<close>

definition ended_well ::
    "http_fetcher \<Rightarrow> bool \<Rightarrow> deadline \<Rightarrow> http_world \<Rightarrow> crw_error + http_response \<Rightarrow> fetch_flags \<Rightarrow> http_world \<Rightarrow> bool" where
  "ended_well hf pf d w0 res ff w =
    (\<exists>new. hw_sends w = hw_sends w0 @ new \<and> length new \<le> 5 \<and> list_all (budget_fits pf) new
       \<and> (hw_egress w \<noteq> hw_egress w0 \<longrightarrow> \<not> hf_has_static_proxy hf \<and> list_ex direct_block new)
       \<and> (case res of
            Inl e \<Rightarrow>
              (is_target_unreachable e \<longrightarrow>
                 new \<noteq> [] \<and>
                 (over_direct (last new) \<and> (\<exists>t. failed_with (last new) = Some t \<and> te_connect t)
                  \<or> list_ex blackholed new \<and> \<not> list_ex direct_answered new))
              \<and> (e \<noteq> Timeout (dl_requested_ms d) \<longrightarrow> list_ex over_direct new)
          | Inr r \<Rightarrow>
              new \<noteq> [] \<and> answered_by (last new) = Some r \<and> (over_direct (last new) \<longleftrightarrow> \<not> ff_use_proxy ff)
              \<and> (list_ex over_direct new
                 \<or> 200 \<le> hr_status r \<and> hr_status r < 300 \<and> challenge_of (hr_header r) = None)))"

lemma sent_inv_new:
  assumes "sent_inv hf pf w0 ff s w"
  obtains before where "hw_sends w = hw_sends w0 @ before @ [s]" "length (before @ [s]) \<le> 5"
    "list_all (budget_fits pf) (before @ [s])"
    "hw_egress w \<noteq> hw_egress w0 \<longrightarrow> \<not> hf_has_static_proxy hf \<and> list_ex direct_block (before @ [s])"
    "ff_direct_connect_failed ff \<longrightarrow> list_ex blackholed (before @ [s]) \<and> \<not> list_ex direct_answered before"
    "ff_use_proxy ff \<longrightarrow> pf \<or> list_ex over_direct before" "over_direct s \<longleftrightarrow> \<not> ff_use_proxy ff"
  using assms unfolding sent_inv_def loop_inv_def by fastforce

text \<open>A proxy that cannot be left for the direct egress was not preferred: direct came first.\<close>

lemma stuck_proxy_direct:
  assumes "sent_inv hf pf w0 ff s w" "\<not> can_rescue pf ff" "ff_use_proxy ff"
  shows "\<not> pf"
  using assms sent_flags(3) [OF assms(1)] by (auto simp: can_rescue_def)

lemma after_answer_Finished:
  assumes sent: "sent_inv hf pf w0 ff s w" "answered_by s = Some r"
    and fin: "after_answer env hf d pf host r (note_answer ff) w = Finished res ff' w'"
  shows "ended_well hf pf d w0 res ff' w'"
proof (cases rule: after_answer_cases [of "note_answer ff" r env hf d pf host w])
  case answer
  obtain before where b: "hw_sends w = hw_sends w0 @ before @ [s]" "length (before @ [s]) \<le> 5"
    "list_all (budget_fits pf) (before @ [s])"
    "hw_egress w \<noteq> hw_egress w0 \<longrightarrow> \<not> hf_has_static_proxy hf \<and> list_ex direct_block (before @ [s])"
    "ff_use_proxy ff \<longrightarrow> pf \<or> list_ex over_direct before" "over_direct s \<longleftrightarrow> \<not> ff_use_proxy ff"
    using sent_inv_new [OF sent(1)] by metis
  have "list_ex over_direct (before @ [s])
      \<or> 200 \<le> hr_status r \<and> hr_status r < 300 \<and> challenge_of (hr_header r) = None"
    using stuck_proxy_direct [OF sent(1)] b(5,6) answer(1) by auto
  moreover have "res = Inr r" "ff' = note_answer ff" "w' = w" using answer(2) fin by auto
  ultimately show ?thesis unfolding ended_well_def using b(1-4,6) sent(2)
    by (intro exI [of _ "before @ [s]"]) (simp del: list_ex_append)
qed (use fin in \<open>auto simp: retry_def\<close>)

lemma ended_with_error:
  assumes sent: "sent_inv hf pf w0 ff s w" and "\<not> can_rescue pf ff" "hw_sends w' = hw_sends w"
    "hw_egress w' = hw_egress w" "\<not> direct_answered s"
    "is_target_unreachable e \<Longrightarrow>
      (\<exists>t. failed_with s = Some t \<and> te_connect t \<and> \<not> ff_use_proxy ff) \<or> ff_direct_connect_failed ff"
  shows "ended_well hf pf d w0 (Inl e) ff' w'"
proof -
  obtain before where b: "hw_sends w = hw_sends w0 @ before @ [s]" "length (before @ [s]) \<le> 5"
    "list_all (budget_fits pf) (before @ [s])"
    "hw_egress w \<noteq> hw_egress w0 \<longrightarrow> \<not> hf_has_static_proxy hf \<and> list_ex direct_block (before @ [s])"
    "ff_direct_connect_failed ff \<longrightarrow> list_ex blackholed (before @ [s]) \<and> \<not> list_ex direct_answered before"
    "ff_use_proxy ff \<longrightarrow> pf \<or> list_ex over_direct before" "over_direct s \<longleftrightarrow> \<not> ff_use_proxy ff"
    by (rule sent_inv_new [OF sent])
  have "list_ex over_direct (before @ [s])" using stuck_proxy_direct [OF sent assms(2)] b(6,7) by auto
  moreover have "is_target_unreachable e \<longrightarrow>
      over_direct s \<and> (\<exists>t. failed_with s = Some t \<and> te_connect t)
      \<or> list_ex blackholed (before @ [s]) \<and> \<not> list_ex direct_answered (before @ [s])"
    using assms(5,6) b(5,7) by auto
  ultimately show ?thesis unfolding ended_well_def using b(1-4) assms(3,4)
    by (intro exI [of _ "before @ [s]"]) (simp del: list_ex_append)
qed

lemma after_hang_Finished:
  assumes sent: "sent_inv hf pf w0 ff s w" "sl_outcome s = Hung"
    and fin: "after_hang env url pf budget ff w = Finished res ff' w'"
  shows "ended_well hf pf d w0 res ff' w'"
  by (rule after_hang_cases [of pf ff env url budget w])
    (use fin sent(2) in \<open>auto simp: direct_answered_def intro!: ended_with_error [OF sent(1)]\<close>)

lemma after_error_Finished:
  assumes sent: "sent_inv hf pf w0 ff s w" "sl_outcome s = Failed e"
    and fin: "after_error env hf url d pf e ff w = Finished res ff' w'"
  shows "ended_well hf pf d w0 res ff' w'"
  by (rule after_error_cases [of pf ff env hf url d e w])
    (use fin sent(2) in \<open>auto simp: direct_answered_def retry_def intro!: ended_with_error [OF sent(1)]\<close>)

lemma ended_late:
  assumes "loop_inv hf pf w0 ff w"
  shows "ended_well hf pf d w0 (Inl (Timeout (dl_requested_ms d))) ff w"
  using assms by (auto simp: ended_well_def loop_inv_def)

lemma send_request_inv:
  assumes inv: "loop_inv hf pf w0 ff w" and "budget = attempt_budget pf ff left" "0 < budget"
    and sent: "(outcome, w') = send_request env hf url headers ff left budget w"
  obtains s where "sl_outcome s = outcome" "sent_inv hf pf w0 ff s w'"
proof
  let ?s = "\<lparr> sl_egress = active_egress hf ff, sl_left = left, sl_budget = budget, sl_outcome = outcome \<rparr>"
  show "sl_outcome ?s = outcome" by simp
  have "hw_sends w' = hw_sends w @ [?s]" "hw_egress w' = hw_egress w"
    using sent by (auto simp: send_request_def Let_def)
  then show "sent_inv hf pf w0 ff ?s w'"
    unfolding sent_inv_def using inv assms(2,3) over_direct_active [OF inv, of ?s] attempt_budget_fits [OF inv, of left]
    by (intro exI [of _ w]) auto
qed

lemma fetch_turn_inv:
  assumes "loop_inv hf pf w0 ff w"
  shows "case fetch_turn env hf url headers d pf host ff w of
      Again ff' w' \<Rightarrow> loop_inv hf pf w0 ff' w'
    | Finished res ff' w' \<Rightarrow> ended_well hf pf d w0 res ff' w'"
proof -
  have inv: "loop_inv hf pf w0 ff (snd (read_left env d w))" using loop_inv_world [OF read_left_sends] assms by blast
  show ?thesis
  proof (cases rule: fetch_turn_cases [of env d w hf url headers pf host ff])
    case late
    then show ?thesis using ended_late [OF inv] by simp
  next
    case reserve
    then show ?thesis using loop_inv_to_direct [OF inv] by simp
  next
    case (sent left w1 budget outcome w2)
    have "loop_inv hf pf w0 ff w1" using inv sent(1) by (metis snd_conv)
    then obtain s where s: "sl_outcome s = outcome" "sent_inv hf pf w0 ff s w2"
      using send_request_inv sent(3-5) by metis
    show ?thesis
    proof (cases outcome)
      case Hung
      then show ?thesis using sent(6) s sent_to_direct [OF s(2)] after_hang_Finished [OF s(2)]
        by (cases rule: after_hang_cases [of pf ff env url budget w2]) auto
    next
      case (Failed e)
      then show ?thesis using sent(6) s after_error_Again [OF s(2), of e] after_error_Finished [OF s(2), of e]
        by (auto split: fetch_next.splits)
    next
      case (Answered r)
      then show ?thesis using sent(6) s after_answer_Again [OF s(2), of r] after_answer_Finished [OF s(2), of r]
        by (auto split: fetch_next.splits simp flip: note_answer_def)
    qed
  qed
qed

lemma fetch_loop_inv:
  "loop_inv hf pf w0 ff w \<Longrightarrow> fetch_loop env hf url headers d pf host ff w = (res, ff', w') \<Longrightarrow>
    ended_well hf pf d w0 res ff' w'"
proof (induction env hf url headers d pf host ff w rule: fetch_loop.induct)
  case (1 env hf url headers d pf host ff w)
  show ?case
  proof (cases "fetch_turn env hf url headers d pf host ff w")
    case (Again ff1 w1)
    then have "loop_inv hf pf w0 ff1 w1" using fetch_turn_inv [OF 1(2), where env = env and url = url and headers = headers and d = d and host = host] by simp
    then show ?thesis using 1(1) [OF Again] 1(3) Again by (simp add: fetch_loop.simps [of _ _ _ _ _ _ _ ff])
  next
    case (Finished r ff1 w1)
    then show ?thesis using fetch_turn_inv [OF 1(2), where env = env and url = url and headers = headers and d = d and host = host] 1(3)
      by (simp add: fetch_loop.simps [of _ _ _ _ _ _ _ ff])
  qed
qed

subsection \<open>A whole fetch\<close>

lemma read_now_sends [simp]:
  "hw_sends (snd (read_now env w)) = hw_sends w" "hw_egress (snd (read_now env w)) = hw_egress w"
  by (simp_all add: read_now_def)

lemma read_body_error: "read_response_body d left r = Inl e \<Longrightarrow> \<not> is_target_unreachable e"
  by (auto simp: read_response_body_def read_body_capped_def too_large_def split: if_splits sum.splits prod.splits)

lemma build_error:
  "build_http_fetch_result env url st ct ch fin bytes t tier = Inl e \<Longrightarrow> \<not> is_target_unreachable e"
  by (auto simp: build_http_fetch_result_def too_large_def Let_def split: if_splits)

lemma build_status:
  "build_http_fetch_result env url st ct ch fin bytes t tier = Inr page \<Longrightarrow> fr_status page = st"
  by (auto simp: build_http_fetch_result_def Let_def split: if_splits)

lemma is_ip_block_elapsed [simp]: "is_ip_block lib (page\<lparr> fr_elapsed_ms := t \<rparr>) = is_ip_block lib page"
  by (simp add: is_ip_block_def)

lemma finish_body_cases:
  obtains (body) e w' where "finish_body env hf url d host start used_proxy r w = (Inl e, w')"
      "hw_sends w' = hw_sends w" "hw_egress w' = hw_egress w" "\<not> is_target_unreachable e"
  | (page) page w' where "finish_body env hf url d host start used_proxy r w = (Inr page, w')"
      "hw_sends w' = hw_sends w" "fr_status page = hr_status r"
      "hw_egress w' = (if \<not> used_proxy \<and> \<not> hf_has_static_proxy hf \<and> is_ip_block (ht_lib env) page
                       then hw_egress (latch_host env host w) else hw_egress w)"
proof -
  obtain left w1 where r: "read_left env d w = (left, w1)" by fastforce
  have w1: "hw_sends w1 = hw_sends w" "hw_egress w1 = hw_egress w"
    using read_left_sends [of env d w] r by simp_all
  obtain now w2 where n: "read_now env w1 = (now, w2)" by fastforce
  have w2: "hw_sends w2 = hw_sends w" "hw_egress w2 = hw_egress w"
    using read_now_sends [of env w1] n w1 by simp_all
  show thesis
  proof (cases "read_response_body d left r")
    case (Inl e)
    then show thesis using body [of e w1] r w1 read_body_error by (simp add: finish_body_def)
  next
    case (Inr bytes)
    let ?built = "build_http_fetch_result env url (hr_status r) (hr_header r ''content-type'')
       (challenge_of (hr_header r)) (hr_final_url r) bytes (elapsed_ms start now) ''http''"
    show thesis
    proof (cases ?built)
      case (Inl e)
      then show thesis using body [of e w2] r n w2 Inr build_error by (simp add: finish_body_def)
    next
      case (Inr result)
      let ?w3 = "if \<not> used_proxy \<and> \<not> hf_has_static_proxy hf \<and> is_ip_block (ht_lib env) result
        then latch_host env host w2 else w2"
      obtain now2 w4 where n2: "read_now env ?w3 = (now2, w4)" by fastforce
      have w4: "hw_sends w4 = hw_sends w" "hw_egress w4 = hw_egress ?w3"
        using read_now_sends [of env ?w3] n2 w2 by simp_all
      have "hw_egress (latch_host env host w2) = hw_egress (latch_host env host w)"
        using w2(2) by (simp add: latch_host_def split: option.splits)
      then show thesis
        using page [of "result\<lparr> fr_elapsed_ms := elapsed_ms start now2 \<rparr>" w4] r n n2 w4 w2
          \<open>read_response_body d left r = Inr bytes\<close> Inr build_status [OF Inr]
        by (simp add: finish_body_def Let_def del: if_split_asm)
    qed
  qed
qed

lemma finish_fetch_cases:
  obtains (error) e w' where "finish_fetch env hf url d host start used_proxy r w = (Inl e, w')"
      "hw_sends w' = hw_sends w" "hw_egress w' = hw_egress w" "\<not> is_target_unreachable e"
  | (page) page w' where "finish_fetch env hf url d host start used_proxy r w = (Inr page, w')"
      "hw_sends w' = hw_sends w" "fr_status page = hr_status r"
      "hw_egress w' = (if \<not> used_proxy \<and> \<not> hf_has_static_proxy hf \<and> is_ip_block (ht_lib env) page
                       then hw_egress (latch_host env host w) else hw_egress w)"
proof (cases "case hr_content_length r of Some len \<Rightarrow> max_response_bytes < len | None \<Rightarrow> False")
  case True
  then show thesis using error by (simp add: finish_fetch_def too_large_def)
next
  case False
  then have eq: "finish_fetch env hf url d host start used_proxy r w = finish_body env hf url d host start used_proxy r w"
    by (simp only: finish_fetch_def if_False)
  show thesis using finish_body_cases [of env hf url d host start used_proxy r w] error page unfolding eq by blast
qed

lemma proxy_preferred_facts:
  assumes "proxy_preferred env hf d host w = (pf, w')"
  shows "hw_sends w' = hw_sends w" "hw_egress w' = hw_egress w" "pf \<longrightarrow> hf_has_ratelimit_proxy hf"
  using assms read_left_sends [of env d w]
  by (cases "read_left env d w"; auto simp: proxy_preferred_def split: option.splits if_splits)+

lemma loop_ended:
  assumes "fetch_loop env hf url headers d pf host (flags_start pf) w = (res, ff, w')"
    "pf \<longrightarrow> hf_has_ratelimit_proxy hf"
  shows "ended_well hf pf d w res ff w'"
  using fetch_loop_inv [OF loop_inv_start [OF assms(2)] assms(1)] .

lemma http_fetch_cases:
  obtains (expired) now where "expired d now"
      "fst (fetch_http env hf url headers d w) =
        Inl (HttpError (''deadline expired before HTTP fetch of '' @ url_for_error (ht_log env) url))"
      "hw_sends (snd (fetch_http env hf url headers d w)) = hw_sends w"
      "hw_egress (snd (fetch_http env hf url headers d w)) = hw_egress w"
  | (loop) pf w1 res ff w2 start where "pf \<longrightarrow> hf_has_ratelimit_proxy hf"
      "hw_sends w1 = hw_sends w" "hw_egress w1 = hw_egress w"
      "ended_well hf pf d w1 res ff w2"
      "fetch_http env hf url headers d w =
        (case res of Inl e \<Rightarrow> (Inl e, w2)
         | Inr r \<Rightarrow> finish_fetch env hf url d (ht_host env url) start (ff_use_proxy ff) r w2)"
proof -
  obtain now0 w0 where n0: "read_now env w = (now0, w0)" by fastforce
  obtain start w00 where n1: "read_now env w0 = (start, w00)" by fastforce
  obtain pf w1 where p: "proxy_preferred env hf d (ht_host env url) w00 = (pf, w1)" by fastforce
  obtain res ff w2 where l: "fetch_loop env hf url headers d pf (ht_host env url) (flags_start pf) w1 = (res, ff, w2)"
    by (metis prod_cases3)
  have keeps: "hw_sends w0 = hw_sends w" "hw_egress w0 = hw_egress w"
    "hw_sends w00 = hw_sends w0" "hw_egress w00 = hw_egress w0"
    using read_now_sends [of env w] read_now_sends [of env w0] n0 n1 by simp_all
  show thesis
  proof (cases "expired d now0")
    case True
    then show thesis using expired [of now0] n0 keeps by (simp add: fetch_http_def)
  next
    case False
    have "fetch_http env hf url headers d w =
        (case res of Inl e \<Rightarrow> (Inl e, w2)
         | Inr r \<Rightarrow> finish_fetch env hf url d (ht_host env url) start (ff_use_proxy ff) r w2)"
      using False n0 n1 p l by (simp add: fetch_http_def split: sum.split)
    then show thesis
      using loop [OF proxy_preferred_facts(3) [OF p] _ _ loop_ended [OF l proxy_preferred_facts(3) [OF p]]]
        proxy_preferred_facts(1,2) [OF p] keeps by simp
  qed
qed

lemma ended_sends:
  assumes "ended_well hf pf d w1 res ff w2" "hw_sends w1 = hw_sends w"
  shows "hw_sends w2 = hw_sends w @ sends_since w w2" "length (sends_since w w2) \<le> 5"
    "list_all (budget_fits pf) (sends_since w w2)"
  using assms by (auto simp: ended_well_def sends_since_def)

text \<open>
  A fetch sends at most five requests, whatever the origin, the proxy and the network do: the
  first, one retry, one over the relaxed client, one through the fallback proxy and one direct
  rescue.
\<close>

theorem fetch_sends_at_most_five:
  "length (sends_since w (snd (fetch_http env hf url headers d w))) \<le> 5"
proof (cases rule: http_fetch_cases [of d env hf url headers w])
  case expired
  then show ?thesis by (simp add: sends_since_def)
next
  case (loop pf w1 res ff w2 start)
  note e = ended_sends [OF loop(4,2)]
  show ?thesis
  proof (cases res)
    case (Inl x)
    then show ?thesis using loop(5) e by simp
  next
    case (Inr r)
    then show ?thesis using loop(5) e
      by (cases rule: finish_fetch_cases [of env hf url d "ht_host env url" start "ff_use_proxy ff" r w2])
        (simp_all add: sends_since_def)
  qed
qed

text \<open>
  A fetch reports the target as unreachable only on evidence of its own: the last request
  went out directly and its connection failed, or the origin swallowed a direct connection
  attempt, and in that case no direct request of this fetch was ever answered.
\<close>

theorem unreachable_needs_direct_evidence:
  assumes "fst (fetch_http env hf url headers d w) = Inl (TargetUnreachable m)"
  shows "let new = sends_since w (snd (fetch_http env hf url headers d w))
    in new \<noteq> [] \<and>
       (over_direct (last new) \<and> (\<exists>t. failed_with (last new) = Some t \<and> te_connect t)
        \<or> list_ex blackholed new \<and> \<not> list_ex direct_answered new)"
proof (cases rule: http_fetch_cases [of d env hf url headers w])
  case expired
  then show ?thesis using assms by simp
next
  case (loop pf w1 res ff w2 start)
  show ?thesis
  proof (cases res)
    case (Inl x)
    then show ?thesis using assms loop by (auto simp: ended_well_def sends_since_def Let_def)
  next
    case (Inr r)
    then show ?thesis using assms loop(5)
      by (cases rule: finish_fetch_cases [of env hf url d "ht_host env url" start "ff_use_proxy ff" r w2]) auto
  qed
qed

text \<open>
  A fetch writes to the egress memory only for a block that it saw on its own direct egress:
  never with a proxy configured for every request, and only when a direct answer announced the
  block by its status or headers or the page served directly is a block page.
\<close>

theorem latch_needs_direct_block:
  assumes "hw_egress (snd (fetch_http env hf url headers d w)) \<noteq> hw_egress w"
  shows "\<not> hf_has_static_proxy hf \<and>
    (let new = sends_since w (snd (fetch_http env hf url headers d w))
     in list_ex direct_block new
        \<or> new \<noteq> [] \<and> over_direct (last new)
          \<and> (\<exists>page. fst (fetch_http env hf url headers d w) = Inr page \<and> is_ip_block (ht_lib env) page))"
proof (cases rule: http_fetch_cases [of d env hf url headers w])
  case expired
  then show ?thesis using assms by simp
next
  case (loop pf w1 res ff w2 start)
  show ?thesis
  proof (cases res)
    case (Inl x)
    then show ?thesis using assms loop by (auto simp: ended_well_def sends_since_def Let_def)
  next
    case (Inr r)
    then show ?thesis using assms loop
      by (cases rule: finish_fetch_cases [of env hf url d "ht_host env url" start "ff_use_proxy ff" r w2])
        (auto simp: ended_well_def sends_since_def Let_def split: if_splits)
  qed
qed

text \<open>
  A preferred proxy never keeps a fetch off the direct egress: the loop ends with a direct
  request sent, with an accepted page, or because the deadline has run out; and each request
  through a preferred proxy is given no more than what leaves the four seconds of a direct one.
\<close>

theorem proxy_never_suppresses_direct:
  assumes "fetch_loop env hf url headers d pf host (flags_start pf) w = (res, ff, w')"
    "pf \<longrightarrow> hf_has_ratelimit_proxy hf"
  shows "(list_ex over_direct (sends_since w w')
      \<or> res = Inl (Timeout (dl_requested_ms d))
      \<or> (\<exists>r. res = Inr r \<and> 200 \<le> hr_status r \<and> hr_status r < 300 \<and> challenge_of (hr_header r) = None))
    \<and> list_all (\<lambda>s. sl_budget s \<le> sl_left s) (sends_since w w')
    \<and> (pf \<longrightarrow> list_all (\<lambda>s. over_direct s \<or> sl_budget s + direct_fallback_reserve = sl_left s) (sends_since w w'))"
proof -
  note e = loop_ended [OF assms]
  have fits: "list_all (budget_fits pf) (sends_since w w')" using ended_sends [OF e refl] by simp
  have "list_ex over_direct (sends_since w w')
      \<or> res = Inl (Timeout (dl_requested_ms d))
      \<or> (\<exists>r. res = Inr r \<and> 200 \<le> hr_status r \<and> hr_status r < 300 \<and> challenge_of (hr_header r) = None)"
  proof (cases res)
    case (Inl x)
    then show ?thesis using e by (auto simp: ended_well_def sends_since_def)
  next
    case (Inr r)
    then show ?thesis using e by (auto simp: ended_well_def sends_since_def simp del: not_None_eq)
  qed
  then show ?thesis using fits by (auto simp: list_all_iff budget_fits_def)
qed

subsection \<open>The theorems at concrete fetches\<close>

text \<open>
  An origin and a proxy that answer by the number of the request. A second passes between two
  readings of the clock.
\<close>

definition plain_lib :: text_lib where
  "plain_lib = \<lparr> to_lower = to_ascii_lowercase, re_is_match = (\<lambda>_ _. False), re_remove_all = (\<lambda>_ s. s),
     re_count = (\<lambda>_ _. 0), re_group_1 = (\<lambda>_ _. None) \<rparr>"

definition http_demo_env :: "(nat \<Rightarrow> egress \<Rightarrow> send_outcome) \<Rightarrow> http_env" where
  "http_demo_env answer =
    \<lparr> ht_lib = plain_lib, ht_log = \<lparr> lg_parse = (\<lambda>_. None), lg_sha = (\<lambda>s. s), lg_key = [] \<rparr>,
      ht_psl = (\<lambda>h. Some h), ht_host = (\<lambda>u. Some u), ht_clock = (\<lambda>n. from_secs n), ht_sec_ch_ua = [],
      ht_send = (\<lambda>n via url headers t. answer n via), ht_wide_charset = (\<lambda>_. False),
      ht_known_charset = (\<lambda>_. False), ht_decode = (\<lambda>_ s. s), ht_lossy = (\<lambda>s. s) \<rparr>"

definition plain_response :: "nat \<Rightarrow> http_response" where
  "plain_response st =
    \<lparr> hr_status = st, hr_header = (\<lambda>_. None), hr_content_length = None, hr_final_url = ''h'',
      hr_body = [Inr ''hello''], hr_body_late = (\<lambda>_. False) \<rparr>"

definition plain_error :: "bool \<Rightarrow> bool \<Rightarrow> string list \<Rightarrow> transport_error" where
  "plain_error connect timed_out causes =
    \<lparr> te_connect = connect, te_timeout = timed_out,
      te_sources = map (\<lambda>c. \<lparr> es_io = None, es_text = c \<rparr>) causes, te_message = ''failed'' \<rparr>"

definition full_fetcher :: http_fetcher where
  "full_fetcher = \<lparr> hf_has_relaxed = True, hf_has_ratelimit_proxy = True, hf_has_static_proxy = False,
     hf_stealth_headers = False \<rparr>"

definition fresh_world :: http_world where
  "fresh_world = \<lparr> hw_reads = 0, hw_sends = [], hw_pauses = [], hw_egress = cache_new \<rparr>"

definition run :: "(nat \<Rightarrow> egress \<Rightarrow> send_outcome) \<Rightarrow> (crw_error + fetched) \<times> http_world" where
  "run answer = fetch_http (http_demo_env answer) full_fetcher ''h'' [] (from_request_ms 0 60000) fresh_world"

lemma five_sends:
  "map sl_egress (hw_sends (snd (run (\<lambda>n via.
     if n = 0 then Answered (plain_response 503) else if n = 1 then Failed (plain_error True False [''bad cert''])
     else if n = 2 then Answered (plain_response 429) else if n = 3 then Hung else Answered (plain_response 200)))))
   = [Direct, Direct, Relaxed, Proxied, Relaxed]"
  by code_simp

theorem unreachable_needs_direct_evidence_witness:
  "let w' = snd (run (\<lambda>n via. if via = Proxied then Hung else Failed (plain_error True True [])));
       new = sends_since fresh_world w'
   in new \<noteq> [] \<and>
       (over_direct (last new) \<and> (\<exists>t. failed_with (last new) = Some t \<and> te_connect t)
        \<or> list_ex blackholed new \<and> \<not> list_ex direct_answered new)"
proof -
  have "fst (run (\<lambda>n via. if via = Proxied then Hung else Failed (plain_error True True []))) =
    Inl (TargetUnreachable ''Could not reach h: no response from the origin over either egress'')"
    by code_simp
  then show ?thesis
    unfolding run_def Let_def by (rule unreachable_needs_direct_evidence [unfolded Let_def])
qed

theorem latch_needs_direct_block_witness:
  "let w' = snd (run (\<lambda>n via. Answered (plain_response (if via = Proxied then 200 else 429))))
   in list_ex direct_block (sends_since fresh_world w')
      \<or> sends_since fresh_world w' \<noteq> [] \<and> over_direct (last (sends_since fresh_world w'))
          \<and> (\<exists>page. fst (run (\<lambda>n via. Answered (plain_response (if via = Proxied then 200 else 429)))) = Inr page
                \<and> is_ip_block plain_lib page)"
proof -
  let ?run = "run (\<lambda>n via. Answered (plain_response (if via = Proxied then 200 else 429)))"
  have "hw_egress (snd ?run) ''h'' \<noteq> hw_egress fresh_world ''h''" by code_simp
  then have "hw_egress (snd ?run) \<noteq> hw_egress fresh_world" by metis
  from latch_needs_direct_block [OF this [unfolded run_def]] show ?thesis
    by (simp add: run_def Let_def http_demo_env_def)
qed

theorem proxy_never_suppresses_direct_witness:
  "\<exists>res ff w'.
    fetch_loop (http_demo_env (\<lambda>n via. if via = Proxied then Hung else Answered (plain_response 200))) full_fetcher ''h''
      [] (from_request_ms 0 60000) True (Some ''h'') (flags_start True) fresh_world = (res, ff, w')
    \<and> (list_ex over_direct (sends_since fresh_world w')
      \<or> res = Inl (Timeout (dl_requested_ms (from_request_ms 0 60000)))
      \<or> (\<exists>r. res = Inr r \<and> 200 \<le> hr_status r \<and> hr_status r < 300 \<and> challenge_of (hr_header r) = None))
    \<and> list_all (\<lambda>s. over_direct s \<or> sl_budget s + direct_fallback_reserve = sl_left s) (sends_since fresh_world w')"
proof -
  obtain res ff w' where r:
    "fetch_loop (http_demo_env (\<lambda>n via. if via = Proxied then Hung else Answered (plain_response 200))) full_fetcher ''h''
      [] (from_request_ms 0 60000) True (Some ''h'') (flags_start True) fresh_world = (res, ff, w')"
    by (metis prod_cases3)
  from proxy_never_suppresses_direct [OF r] r show ?thesis by (intro exI conjI) (auto simp: full_fetcher_def)
qed

end
