(* ===== verification/Browser_Pool.thy ===== *)
theory Browser_Pool
  imports Host_Limiter Render_Types "HOL-Library.Multiset"
begin

section \<open>The browser context pool\<close>

text \<open>
  \<open>crates/crw-renderer/src/browser_pool.rs\<close>: long-lived browser connections in slots, each with a
  browser context that one guard uses at a time. Acquirers, guards, releases, drops, the detached
  reapers and shutdowns are tasks that run in parallel. A step runs one task up to its next shared
  action: a critical section under one mutex, an atomic operation, or the answer to an awaited
  call. Calls to the browser are logged when they are issued; their answers, the ids they return
  and the readings of the clock come with the step.
\<close>

subsection \<open>Slots\<close>

type_synonym conn = nat
type_synonym ctx = nat

datatype recycle_phase = CloseTargetPhase | DisposeCtxPhase | CreateCtxPhase

datatype slot_state =
    IdleSlot conn ctx
  | CheckedOut conn ctx "string option"
  | Recycling conn ctx "string option" recycle_phase
  | DeadSlot "conn option"
  | Closing

record pooled_slot =
  ps_state :: slot_state
  ps_terminator :: bool
  ps_last_used :: instant

fun take_conn :: "slot_state \<Rightarrow> conn option \<times> slot_state" where
  "take_conn (IdleSlot c x) = (Some c, Closing)"
| "take_conn (CheckedOut c x t) = (Some c, Closing)"
| "take_conn (Recycling c x t ph) = (Some c, Closing)"
| "take_conn (DeadSlot (Some c)) = (Some c, DeadSlot None)"
| "take_conn (DeadSlot None) = (None, DeadSlot None)"
| "take_conn Closing = (None, Closing)"

record pool_cfg =
  pc_size :: nat
  pc_recycle_after_navs :: nat
  pc_idle_timeout :: duration
  pc_health_check_after :: duration
  pc_shutdown_drain :: duration
  pc_close_target_timeout :: duration
  pc_dispose_ctx_timeout :: duration
  pc_create_ctx_timeout :: duration

definition pool_cfg_default :: pool_cfg where
  "pool_cfg_default =
    \<lparr> pc_size = 4, pc_recycle_after_navs = 1, pc_idle_timeout = from_secs 300,
      pc_health_check_after = from_secs 60, pc_shutdown_drain = from_secs 30,
      pc_close_target_timeout = from_secs 2, pc_dispose_ctx_timeout = from_secs 1,
      pc_create_ctx_timeout = from_secs 1 \<rparr>"

subsection \<open>Tasks\<close>

text \<open>Where a call of \<open>acquire\<close> stands; the number is the attempt.\<close>

datatype acquire_pc =
    AqWait
  | AqTry nat
  | AqPopped nat nat
  | AqSnapshot nat nat
  | AqHealth nat nat conn
  | AqConnect nat
  | AqContext nat conn
  | AqCheckout nat nat
  | AqCount nat conn ctx

text \<open>Where a call of \<open>release\<close> stands.\<close>

datatype release_pc =
    RlClaim nat
  | RlRecycle nat
  | RlTarget nat conn ctx
  | RlDisposePhase nat conn ctx
  | RlDispose nat conn ctx
  | RlCreatePhase nat conn
  | RlCreate nat conn
  | RlFinal nat ctx
  | RlPush nat
  | RlDead nat
  | RlTake nat
  | RlClose nat
  | RlCommit "nat option"

text \<open>The drop of a guard that was not released.\<close>

datatype drop_pc =
    DrClaim nat
  | DrTake nat
  | DrDec nat "(conn \<times> ctx \<times> string option) option"

datatype shutdown_pc =
    ShOpen duration
  | ShSem duration
  | ShWait instant
  | ShTakeIdle
  | ShDrain "nat list"
  | ShDispose conn "nat list"
  | ShClosed "nat list"
  | ShRegistry
  | ShForce "nat list"
  | ShTakeForced nat bool "nat list"
  | ShReconcile bool "nat list"
  | ShSweep
  | ShDone

datatype conn_op =
    HealthCheck conn
  | CloseTarget conn string
  | DisposeCtx conn ctx
  | CloseConn conn

datatype task =
    Acquiring acquire_pc
  | Holding nat conn ctx
  | Releasing release_pc
  | Dropping drop_pc
  | Reaping "conn_op list"
  | Stopping shutdown_pc
  | Leaving "crw_error option"
  | Returned "crw_error option"

text \<open>
  The pool's fields, its tasks, and four logs: the calls issued, the connections and the contexts
  the browser has answered with, and the contexts given to a guard.
\<close>

record pool =
  p_slots :: "pooled_slot list"
  p_idle :: "nat list"
  p_all :: "nat list"
  p_inflight :: nat
  p_permits :: nat
  p_sem_closed :: bool
  p_closed :: bool
  p_tasks :: "task list"
  p_ops :: "conn_op list"
  p_conns :: "conn list"
  p_ctxs :: "ctx list"
  p_served :: "ctx list"

text \<open>
  What a step is given: the clock and the answer of the awaited call (an id for calls that return
  one), the cancellation of the task's future, or what the holder of a guard does with it.
\<close>

datatype event =
    Run instant "crw_error + nat"
  | Cancel
  | RecordTarget string
  | Release
  | DropGuard

definition pool_new :: "pool_cfg \<Rightarrow> pool" where
  "pool_new cfg =
    \<lparr> p_slots = [], p_idle = [], p_all = [], p_inflight = 0, p_permits = pc_size cfg,
      p_sem_closed = False, p_closed = False, p_tasks = [], p_ops = [],
      p_conns = [], p_ctxs = [], p_served = [] \<rparr>"

definition goto :: "nat \<Rightarrow> task \<Rightarrow> pool \<Rightarrow> pool" where
  "goto i t p = p\<lparr> p_tasks := (p_tasks p)[i := t] \<rparr>"

definition spawn :: "task \<Rightarrow> pool \<Rightarrow> pool" where
  "spawn t p = p\<lparr> p_tasks := p_tasks p @ [t] \<rparr>"

definition issue :: "conn_op \<Rightarrow> pool \<Rightarrow> pool" where
  "issue op p = p\<lparr> p_ops := p_ops p @ [op] \<rparr>"

definition made_conn :: "conn \<Rightarrow> pool \<Rightarrow> pool" where
  "made_conn c p = p\<lparr> p_conns := p_conns p @ [c] \<rparr>"

definition made_ctx :: "ctx \<Rightarrow> pool \<Rightarrow> pool" where
  "made_ctx x p = p\<lparr> p_ctxs := p_ctxs p @ [x] \<rparr>"

definition serve :: "ctx \<Rightarrow> pool \<Rightarrow> pool" where
  "serve x p = p\<lparr> p_served := p_served p @ [x] \<rparr>"

definition state_of :: "nat \<Rightarrow> pool \<Rightarrow> slot_state" where
  "state_of s p = ps_state (p_slots p ! s)"

definition set_state :: "nat \<Rightarrow> slot_state \<Rightarrow> pool \<Rightarrow> pool" where
  "set_state s st p = p\<lparr> p_slots := (p_slots p)[s := (p_slots p ! s)\<lparr> ps_state := st \<rparr>] \<rparr>"

definition set_terminator :: "nat \<Rightarrow> bool \<Rightarrow> pool \<Rightarrow> pool" where
  "set_terminator s b p = p\<lparr> p_slots := (p_slots p)[s := (p_slots p ! s)\<lparr> ps_terminator := b \<rparr>] \<rparr>"

definition touch :: "nat \<Rightarrow> instant \<Rightarrow> pool \<Rightarrow> pool" where
  "touch s now p = p\<lparr> p_slots := (p_slots p)[s := (p_slots p ! s)\<lparr> ps_last_used := now \<rparr>] \<rparr>"

definition dec_inflight :: "pool \<Rightarrow> pool" where
  "dec_inflight p = p\<lparr> p_inflight := p_inflight p - 1 \<rparr>"

text \<open>The strong references to slots a task holds; a slot lives while there is one.\<close>

fun acquire_slots :: "acquire_pc \<Rightarrow> nat list" where
  "acquire_slots (AqPopped n s) = [s]"
| "acquire_slots (AqSnapshot n s) = [s]"
| "acquire_slots (AqHealth n s c) = [s]"
| "acquire_slots (AqCheckout n s) = [s]"
| "acquire_slots (AqCount s c x) = [s]"
| "acquire_slots _ = []"

fun release_slots :: "release_pc \<Rightarrow> nat list" where
  "release_slots (RlClaim s) = [s]"
| "release_slots (RlRecycle s) = [s]"
| "release_slots (RlTarget s c x) = [s]"
| "release_slots (RlDisposePhase s c x) = [s]"
| "release_slots (RlDispose s c x) = [s]"
| "release_slots (RlCreatePhase s c) = [s]"
| "release_slots (RlCreate s c) = [s]"
| "release_slots (RlFinal s x) = [s]"
| "release_slots (RlPush s) = [s]"
| "release_slots (RlDead s) = [s]"
| "release_slots (RlTake s) = [s]"
| "release_slots (RlClose s) = [s]"
| "release_slots (RlCommit r) = (case r of Some s \<Rightarrow> [s] | None \<Rightarrow> [])"

fun drop_slot :: "drop_pc \<Rightarrow> nat" where
  "drop_slot (DrClaim s) = s"
| "drop_slot (DrTake s) = s"
| "drop_slot (DrDec s r) = s"

fun shutdown_slots :: "shutdown_pc \<Rightarrow> nat list" where
  "shutdown_slots (ShDrain ss) = ss"
| "shutdown_slots (ShDispose c ss) = ss"
| "shutdown_slots (ShClosed ss) = ss"
| "shutdown_slots _ = []"

fun task_slots :: "task \<Rightarrow> nat list" where
  "task_slots (Acquiring pc) = acquire_slots pc"
| "task_slots (Holding s c x) = [s]"
| "task_slots (Releasing pc) = release_slots pc"
| "task_slots (Dropping pc) = [drop_slot pc]"
| "task_slots (Stopping pc) = shutdown_slots pc"
| "task_slots _ = []"

definition upgraded :: "task \<Rightarrow> nat option" where
  "upgraded t = (case t of Stopping (ShTakeForced s own ss) \<Rightarrow> Some s | _ \<Rightarrow> None)"

definition alive :: "pool \<Rightarrow> nat \<Rightarrow> bool" where
  "alive p s =
    (s \<in> set (p_idle p) \<or> list_ex (\<lambda>t. s \<in> set (task_slots t) \<or> upgraded t = Some s) (p_tasks p))"

subsection \<open>Acquiring\<close>

text \<open>The next turn of \<open>acquire\<close>'s loop, which has three.\<close>

definition acquire_again :: "nat \<Rightarrow> task" where
  "acquire_again n =
    (if n + 1 < 3 then Acquiring (AqTry (n + 1))
     else Leaving (Some (Internal ''pool: acquire exhausted retries'')))"

text \<open>\<open>mark_slot_dead_and_drop\<close>: the connection goes to a detached task that closes it.\<close>

definition mark_slot_dead :: "nat \<Rightarrow> pool \<Rightarrow> pool" where
  "mark_slot_dead s p =
    (let (taken, st) = take_conn (state_of s p)
     in case taken of
          Some c \<Rightarrow> spawn (Reaping [CloseConn c]) (set_state s st p)
        | None \<Rightarrow> set_state s st p)"

definition new_slot :: "conn \<Rightarrow> ctx \<Rightarrow> instant \<Rightarrow> pool \<Rightarrow> pool" where
  "new_slot c x now p =
    p\<lparr> p_slots := p_slots p @ [\<lparr> ps_state = IdleSlot c x, ps_terminator = False, ps_last_used = now \<rparr>],
       p_all := filter (alive p) (p_all p) @ [length (p_slots p)] \<rparr>"

fun acquire_run :: "pool_cfg \<Rightarrow> nat \<Rightarrow> instant \<Rightarrow> crw_error + nat \<Rightarrow> acquire_pc \<Rightarrow> pool \<Rightarrow> pool option" where
  "acquire_run cfg i now ans AqWait p =
    (if p_sem_closed p then Some (goto i (Returned (Some Shutdown)) p)
     else if 0 < p_permits p then Some (goto i (Acquiring (AqTry 0)) (p\<lparr> p_permits := p_permits p - 1 \<rparr>))
     else None)"
| "acquire_run cfg i now ans (AqTry n) p =
    (case p_idle p of
       s # rest \<Rightarrow> Some (goto i (Acquiring (AqPopped n s)) (p\<lparr> p_idle := rest \<rparr>))
     | [] \<Rightarrow> Some (goto i (Acquiring (AqConnect n)) p))"
| "acquire_run cfg i now ans (AqPopped n s) p =
    Some (goto i (Acquiring (if pc_health_check_after cfg < since now (ps_last_used (p_slots p ! s))
                             then AqSnapshot n s else AqCheckout n s)) p)"
| "acquire_run cfg i now ans (AqSnapshot n s) p =
    (case state_of s p of
       IdleSlot c x \<Rightarrow> Some (goto i (Acquiring (AqHealth n s c)) (issue (HealthCheck c) p))
     | _ \<Rightarrow> Some (goto i (acquire_again n) (mark_slot_dead s p)))"
| "acquire_run cfg i now ans (AqHealth n s c) p =
    (case ans of
       Inr _ \<Rightarrow> Some (goto i (Acquiring (AqCheckout n s)) p)
     | Inl _ \<Rightarrow> Some (goto i (if n < 2 then acquire_again n
                            else Leaving (Some (RendererError ''pool: health check failed after retries''))) (mark_slot_dead s p)))"
| "acquire_run cfg i now ans (AqConnect n) p =
    (case ans of
       Inr c \<Rightarrow> Some (goto i (Acquiring (AqContext n c)) (made_conn c p))
     | Inl e \<Rightarrow> Some (goto i (Leaving (Some e)) p))"
| "acquire_run cfg i now ans (AqContext n c) p =
    (case ans of
       Inr x \<Rightarrow> Some (goto i (Acquiring (AqCheckout n (length (p_slots p))))
                   (new_slot c x now (made_ctx x p)))
     | Inl e \<Rightarrow> Some (goto i (Leaving (Some e)) p))"
| "acquire_run cfg i now ans (AqCheckout n s) p =
    (case state_of s p of
       IdleSlot c x \<Rightarrow>
         Some (goto i (Acquiring (AqCount s c x))
           (serve x (touch s now (set_state s (CheckedOut c x None) (set_terminator s False p)))))
     | _ \<Rightarrow> Some (goto i (if n < 2 then acquire_again n else Leaving (Some Shutdown)) p))"
| "acquire_run cfg i now ans (AqCount s c x) p =
    Some (goto i (Holding s c x) (p\<lparr> p_inflight := p_inflight p + 1 \<rparr>))"

text \<open>The calls whose future can be dropped while they wait; the permit goes back.\<close>

definition acquire_cancel :: "nat \<Rightarrow> acquire_pc \<Rightarrow> pool \<Rightarrow> pool option" where
  "acquire_cancel i pc p =
    (case pc of
       AqWait \<Rightarrow> Some (goto i (Returned None) p)
     | AqHealth n s c \<Rightarrow> Some (goto i (Leaving None) p)
     | AqConnect n \<Rightarrow> Some (goto i (Leaving None) p)
     | AqContext n c \<Rightarrow> Some (goto i (Leaving None) p)
     | _ \<Rightarrow> None)"

subsection \<open>Releasing and dropping\<close>

definition record_target :: "nat \<Rightarrow> string \<Rightarrow> pool \<Rightarrow> pool" where
  "record_target s tid p =
    (case state_of s p of CheckedOut c x t \<Rightarrow> set_state s (CheckedOut c x (Some tid)) p | _ \<Rightarrow> p)"

text \<open>The next step of a release, the context disposed once the target is closed or there was none.\<close>

definition releasing :: "nat \<Rightarrow> release_pc \<Rightarrow> pool \<Rightarrow> pool option" where
  "releasing i pc p = Some (goto i (Releasing pc) p)"

fun release_run :: "nat \<Rightarrow> instant \<Rightarrow> crw_error + nat \<Rightarrow> release_pc \<Rightarrow> pool \<Rightarrow> pool option" where
  "release_run i now ans (RlClaim s) p =
    (if ps_terminator (p_slots p ! s) then Some (goto i (Leaving None) p)
     else releasing i (RlRecycle s) (set_terminator s True p))"
| "release_run i now ans (RlRecycle s) p =
    (case state_of s p of
       CheckedOut c x t \<Rightarrow>
         (let p1 = set_state s (Recycling c x t CloseTargetPhase) p
          in case t of
               Some tid \<Rightarrow> releasing i (RlTarget s c x) (issue (CloseTarget c tid) p1)
             | None \<Rightarrow> releasing i (RlDisposePhase s c x) p1)
     | _ \<Rightarrow> releasing i (RlCommit (Some s)) p)"
| "release_run i now ans (RlTarget s c x) p =
    releasing i (case ans of Inr _ \<Rightarrow> RlDisposePhase s c x | Inl _ \<Rightarrow> RlDead s) p"
| "release_run i now ans (RlDisposePhase s c x) p =
    (case state_of s p of
       Recycling c' x' t ph \<Rightarrow>
         releasing i (RlDispose s c x) (issue (DisposeCtx c x) (set_state s (Recycling c' x' t DisposeCtxPhase) p))
     | _ \<Rightarrow> releasing i (RlCommit (Some s)) p)"
| "release_run i now ans (RlDispose s c x) p =
    releasing i (case ans of Inr _ \<Rightarrow> RlCreatePhase s c | Inl _ \<Rightarrow> RlDead s) p"
| "release_run i now ans (RlCreatePhase s c) p =
    (case state_of s p of
       Recycling c' x' t ph \<Rightarrow> releasing i (RlCreate s c) (set_state s (Recycling c' x' t CreateCtxPhase) p)
     | _ \<Rightarrow> releasing i (RlCommit (Some s)) p)"
| "release_run i now ans (RlCreate s c) p =
    (case ans of
       Inr x \<Rightarrow> releasing i (RlFinal s x) (made_ctx x p)
     | Inl _ \<Rightarrow> releasing i (RlDead s) p)"
| "release_run i now ans (RlFinal s x) p =
    (case state_of s p of
       Recycling c x' t ph \<Rightarrow> releasing i (RlPush s) (touch s now (set_state s (IdleSlot c x) p))
     | _ \<Rightarrow> releasing i (RlCommit (Some s)) p)"
| "release_run i now ans (RlPush s) p =
    releasing i (RlCommit None) (p\<lparr> p_idle := p_idle p @ [s] \<rparr>)"
| "release_run i now ans (RlDead s) p =
    (case state_of s p of
       Recycling c x t ph \<Rightarrow> releasing i (RlTake s) (set_state s (DeadSlot (Some c)) p)
     | _ \<Rightarrow> releasing i (RlCommit (Some s)) p)"
| "release_run i now ans (RlTake s) p =
    (let (taken, st) = take_conn (state_of s p)
     in case taken of
          Some c \<Rightarrow> releasing i (RlClose s) (issue (CloseConn c) (set_state s st p))
        | None \<Rightarrow> releasing i (RlCommit (Some s)) (set_state s st p))"
| "release_run i now ans (RlClose s) p = releasing i (RlCommit (Some s)) p"
| "release_run i now ans (RlCommit r) p = Some (goto i (Leaving None) (dec_inflight p))"

text \<open>A cancelled release only keeps the count: its bookkeeping token is dropped.\<close>

definition release_cancel :: "nat \<Rightarrow> release_pc \<Rightarrow> pool \<Rightarrow> pool option" where
  "release_cancel i pc p =
    (case pc of
       RlTarget s c x \<Rightarrow> releasing i (RlCommit (Some s)) p
     | RlDispose s c x \<Rightarrow> releasing i (RlCommit (Some s)) p
     | RlCreate s c \<Rightarrow> releasing i (RlCommit (Some s)) p
     | RlClose s \<Rightarrow> releasing i (RlCommit (Some s)) p
     | _ \<Rightarrow> None)"

definition reap_ops :: "conn \<times> ctx \<times> string option \<Rightarrow> conn_op list" where
  "reap_ops r =
    (case r of (c, x, t) \<Rightarrow>
       (case t of Some tid \<Rightarrow> [CloseTarget c tid] | None \<Rightarrow> []) @ [DisposeCtx c x, CloseConn c])"

fun drop_run :: "nat \<Rightarrow> drop_pc \<Rightarrow> pool \<Rightarrow> pool option" where
  "drop_run i (DrClaim s) p =
    (if ps_terminator (p_slots p ! s) then Some (goto i (Leaving None) p)
     else Some (goto i (Dropping (DrTake s)) (set_terminator s True p)))"
| "drop_run i (DrTake s) p =
    (case state_of s p of
       CheckedOut c x t \<Rightarrow> Some (goto i (Dropping (DrDec s (Some (c, x, t)))) (set_state s (DeadSlot None) p))
     | Recycling c x t ph \<Rightarrow> Some (goto i (Dropping (DrDec s (Some (c, x, t)))) (set_state s (DeadSlot None) p))
     | _ \<Rightarrow> Some (goto i (Dropping (DrDec s None)) p))"
| "drop_run i (DrDec s r) p =
    Some (goto i (Leaving None)
      (case r of Some cxt \<Rightarrow> spawn (Reaping (reap_ops cxt)) (dec_inflight p) | None \<Rightarrow> dec_inflight p))"

subsection \<open>Shutting down\<close>

definition stopping :: "nat \<Rightarrow> shutdown_pc \<Rightarrow> pool \<Rightarrow> pool option" where
  "stopping i pc p = Some (goto i (Stopping pc) p)"

fun shutdown_run :: "nat \<Rightarrow> instant \<Rightarrow> shutdown_pc \<Rightarrow> pool \<Rightarrow> pool option" where
  "shutdown_run i now (ShOpen drain) p = stopping i (ShSem drain) (p\<lparr> p_closed := True \<rparr>)"
| "shutdown_run i now (ShSem drain) p = stopping i (ShWait (now + drain)) (p\<lparr> p_sem_closed := True \<rparr>)"
| "shutdown_run i now (ShWait deadline) p =
    (if 0 < p_inflight p \<and> now < deadline then Some p else stopping i ShTakeIdle p)"
| "shutdown_run i now ShTakeIdle p = stopping i (ShDrain (p_idle p)) (p\<lparr> p_idle := [] \<rparr>)"
| "shutdown_run i now (ShDrain []) p = stopping i ShRegistry p"
| "shutdown_run i now (ShDrain (s # ss)) p =
    (let (taken, st) = take_conn (state_of s p);
         p1 = set_state s st p
     in case (state_of s p, taken) of
          (IdleSlot c x, Some _) \<Rightarrow> stopping i (ShDispose c ss) (issue (DisposeCtx c x) p1)
        | (_, Some c) \<Rightarrow> stopping i (ShClosed ss) (issue (CloseConn c) p1)
        | (_, None) \<Rightarrow> stopping i (ShDrain ss) p1)"
| "shutdown_run i now (ShDispose c ss) p = stopping i (ShClosed ss) (issue (CloseConn c) p)"
| "shutdown_run i now (ShClosed ss) p = stopping i (ShDrain ss) p"
| "shutdown_run i now ShRegistry p =
    (let live = filter (alive p) (p_all p) in stopping i (ShForce live) (p\<lparr> p_all := live \<rparr>))"
| "shutdown_run i now (ShForce []) p = stopping i ShSweep p"
| "shutdown_run i now (ShForce (s # ss)) p =
    (if alive p s
     then stopping i (ShTakeForced s (\<not> ps_terminator (p_slots p ! s)) ss) (set_terminator s True p)
     else stopping i (ShForce ss) p)"
| "shutdown_run i now (ShTakeForced s own ss) p =
    (let (taken, st) = take_conn (state_of s p)
     in case taken of
          Some c \<Rightarrow> stopping i (ShReconcile own ss) (issue (CloseConn c) (set_state s st p))
        | None \<Rightarrow> stopping i (ShReconcile own ss) (set_state s st p))"
| "shutdown_run i now (ShReconcile own ss) p = stopping i (ShForce ss) (if own then dec_inflight p else p)"
| "shutdown_run i now ShSweep p = stopping i ShDone (p\<lparr> p_idle := [] \<rparr>)"
| "shutdown_run i now ShDone p = None"

subsection \<open>Steps\<close>

definition pool_step :: "pool_cfg \<Rightarrow> nat \<Rightarrow> event \<Rightarrow> pool \<Rightarrow> pool option" where
  "pool_step cfg i ev p =
    (case (p_tasks p ! i, ev) of
       (Acquiring pc, Run now ans) \<Rightarrow> acquire_run cfg i now ans pc p
     | (Acquiring pc, Cancel) \<Rightarrow> acquire_cancel i pc p
     | (Holding s c x, RecordTarget tid) \<Rightarrow> Some (record_target s tid p)
     | (Holding s c x, Release) \<Rightarrow> releasing i (RlClaim s) p
     | (Holding s c x, DropGuard) \<Rightarrow> Some (goto i (Dropping (DrClaim s)) p)
     | (Releasing pc, Run now ans) \<Rightarrow> release_run i now ans pc p
     | (Releasing pc, Cancel) \<Rightarrow> release_cancel i pc p
     | (Dropping pc, Run now ans) \<Rightarrow> drop_run i pc p
     | (Reaping (op # ops), Run now ans) \<Rightarrow> Some (goto i (Reaping ops) (issue op p))
     | (Stopping pc, Run now ans) \<Rightarrow> shutdown_run i now pc p
     | (Leaving r, Run now ans) \<Rightarrow> Some (goto i (Returned r) (p\<lparr> p_permits := p_permits p + 1 \<rparr>))
     | _ \<Rightarrow> None)"

datatype pool_action =
    StartAcquire
  | StartShutdown duration
  | Step nat event

definition pool_action :: "pool_cfg \<Rightarrow> pool_action \<Rightarrow> pool \<Rightarrow> pool option" where
  "pool_action cfg a p =
    (case a of
       StartAcquire \<Rightarrow> Some (spawn (Acquiring AqWait) p)
     | StartShutdown drain \<Rightarrow> Some (spawn (Stopping (ShOpen drain)) p)
     | Step i ev \<Rightarrow> if i < length (p_tasks p) then pool_step cfg i ev p else None)"

text \<open>
  What the pool relies on: the factory returns a new connection each time, and the browser a new
  context.
\<close>

definition fresh_answer :: "pool \<Rightarrow> pool_action \<Rightarrow> bool" where
  "fresh_answer p a =
    (case a of
       Step i (Run now (Inr n)) \<Rightarrow>
         (case p_tasks p ! i of
            Acquiring (AqConnect k) \<Rightarrow> n \<notin> set (p_conns p)
          | Acquiring (AqContext k c) \<Rightarrow> n \<notin> set (p_ctxs p)
          | Releasing (RlCreate s c) \<Rightarrow> n \<notin> set (p_ctxs p)
          | _ \<Rightarrow> True)
     | _ \<Rightarrow> True)"

inductive pool_reaches :: "pool_cfg \<Rightarrow> pool \<Rightarrow> bool" for cfg where
  new: "pool_reaches cfg (pool_new cfg)"
| act: "pool_reaches cfg p \<Longrightarrow> fresh_answer p a \<Longrightarrow> pool_action cfg a p = Some p' \<Longrightarrow> pool_reaches cfg p'"

text \<open>A given interleaving.\<close>

fun pool_trace :: "pool_cfg \<Rightarrow> pool_action list \<Rightarrow> pool \<Rightarrow> pool option" where
  "pool_trace cfg [] p = Some p"
| "pool_trace cfg (a # as) p =
    (if fresh_answer p a then
       (case pool_action cfg a p of Some p' \<Rightarrow> pool_trace cfg as p' | None \<Rightarrow> None)
     else None)"

lemma pool_trace_reaches: "pool_trace cfg as p = Some p' \<Longrightarrow> pool_reaches cfg p \<Longrightarrow> pool_reaches cfg p'"
  by (induction as arbitrary: p) (auto split: if_splits option.splits intro: pool_reaches.act)

end
