(* ===== verification/Browser_Pool_Props.thy ===== *)
theory Browser_Pool_Props
  imports Browser_Pool "HOL-Library.Code_Target_Nat"
begin

section \<open>Invariants of the browser pool\<close>

text \<open>
  What holds in every interleaving of \<open>Browser_Pool\<close>: the permits account for the guards, a slot
  has one owner, a context serves one guard, a connection is closed once and, until a shutdown
  forces slots closed, the in-flight count is the number of guards. Each invariant is a sum over
  the tasks that every step keeps. The last section has the interleavings in which a shutdown does
  not reach its post-condition.
\<close>

definition total :: "('a \<Rightarrow> nat) \<Rightarrow> 'a list \<Rightarrow> nat" where
  "total f xs = sum_list (map f xs)"

lemma total_simps [simp]:
  "total f [] = 0" "total f (x # xs) = f x + total f xs" "total f (xs @ ys) = total f xs + total f ys"
  by (simp_all add: total_def)

lemma nth_le_total: "i < length xs \<Longrightarrow> f (xs ! i) \<le> total f xs"
  by (induction xs arbitrary: i) (auto simp: less_Suc_eq_0_disj intro: trans_le_add2)

lemma total_update [simp]: "i < length xs \<Longrightarrow> total f (xs[i := x]) = total f xs - f (xs ! i) + f x"
proof (induction xs arbitrary: i)
  case (Cons y ys)
  show ?case
  proof (cases i)
    case (Suc k)
    then show ?thesis using Cons nth_le_total [of k ys f] by simp
  qed simp
qed simp

lemma two_in_total:
  "i < length xs \<Longrightarrow> j < length xs \<Longrightarrow> i \<noteq> j \<Longrightarrow> f (xs ! i) + f (xs ! j) \<le> total f xs"
proof (induction xs arbitrary: i j)
  case (Cons y ys)
  then show ?case using nth_le_total [of _ ys f]
    by (cases i; cases j) (auto simp: add.commute intro: trans_le_add2)
qed simp

text \<open>The fields a small operation leaves alone.\<close>

lemma pool_simps [simp]:
  "p_tasks (goto i t p) = (p_tasks p)[i := t]" "p_slots (goto i t p) = p_slots p" "p_idle (goto i t p) = p_idle p"
  "p_inflight (goto i t p) = p_inflight p" "p_permits (goto i t p) = p_permits p" "p_ops (goto i t p) = p_ops p"
  "p_all (goto i t p) = p_all p"
  "p_tasks (spawn t p) = p_tasks p @ [t]" "p_slots (spawn t p) = p_slots p" "p_idle (spawn t p) = p_idle p"
  "p_inflight (spawn t p) = p_inflight p" "p_permits (spawn t p) = p_permits p" "p_ops (spawn t p) = p_ops p"
  "p_all (spawn t p) = p_all p"
  "p_tasks (issue op p) = p_tasks p" "p_slots (issue op p) = p_slots p" "p_idle (issue op p) = p_idle p"
  "p_inflight (issue op p) = p_inflight p" "p_permits (issue op p) = p_permits p" "p_ops (issue op p) = p_ops p @ [op]"
  "p_all (issue op p) = p_all p"
  "p_tasks (set_state s st p) = p_tasks p" "p_idle (set_state s st p) = p_idle p"
  "p_inflight (set_state s st p) = p_inflight p" "p_permits (set_state s st p) = p_permits p"
  "p_ops (set_state s st p) = p_ops p" "p_all (set_state s st p) = p_all p"
  "p_tasks (set_terminator s b p) = p_tasks p" "p_idle (set_terminator s b p) = p_idle p"
  "p_inflight (set_terminator s b p) = p_inflight p" "p_permits (set_terminator s b p) = p_permits p"
  "p_ops (set_terminator s b p) = p_ops p" "p_all (set_terminator s b p) = p_all p"
  "p_tasks (touch s now p) = p_tasks p" "p_idle (touch s now p) = p_idle p"
  "p_inflight (touch s now p) = p_inflight p" "p_permits (touch s now p) = p_permits p"
  "p_ops (touch s now p) = p_ops p" "p_all (touch s now p) = p_all p"
  "p_tasks (dec_inflight p) = p_tasks p" "p_slots (dec_inflight p) = p_slots p" "p_idle (dec_inflight p) = p_idle p"
  "p_inflight (dec_inflight p) = p_inflight p - 1" "p_permits (dec_inflight p) = p_permits p"
  "p_ops (dec_inflight p) = p_ops p" "p_all (dec_inflight p) = p_all p"
  "p_tasks (new_slot c x now p) = p_tasks p" "p_idle (new_slot c x now p) = p_idle p"
  "p_inflight (new_slot c x now p) = p_inflight p" "p_permits (new_slot c x now p) = p_permits p"
  "p_ops (new_slot c x now p) = p_ops p"
  "p_conns (goto i t p) = p_conns p" "p_ctxs (goto i t p) = p_ctxs p" "p_served (goto i t p) = p_served p"
  "p_conns (spawn t p) = p_conns p" "p_ctxs (spawn t p) = p_ctxs p" "p_served (spawn t p) = p_served p"
  "p_conns (issue op p) = p_conns p" "p_ctxs (issue op p) = p_ctxs p" "p_served (issue op p) = p_served p"
  "p_conns (set_state s st p) = p_conns p" "p_ctxs (set_state s st p) = p_ctxs p" "p_served (set_state s st p) = p_served p"
  "p_conns (set_terminator s b p) = p_conns p" "p_ctxs (set_terminator s b p) = p_ctxs p" "p_served (set_terminator s b p) = p_served p"
  "p_conns (touch s now p) = p_conns p" "p_ctxs (touch s now p) = p_ctxs p" "p_served (touch s now p) = p_served p"
  "p_conns (dec_inflight p) = p_conns p" "p_ctxs (dec_inflight p) = p_ctxs p" "p_served (dec_inflight p) = p_served p"
  "p_conns (new_slot c x now p) = p_conns p" "p_ctxs (new_slot c x now p) = p_ctxs p" "p_served (new_slot c x now p) = p_served p"
  "p_tasks (made_conn c p) = p_tasks p"
  "p_slots (made_conn c p) = p_slots p"
  "p_idle (made_conn c p) = p_idle p"
  "p_inflight (made_conn c p) = p_inflight p"
  "p_permits (made_conn c p) = p_permits p"
  "p_ops (made_conn c p) = p_ops p"
  "p_all (made_conn c p) = p_all p"
  "p_conns (made_conn c p) = p_conns p @ [c]"
  "p_ctxs (made_conn c p) = p_ctxs p"
  "p_served (made_conn c p) = p_served p"
  "p_tasks (made_ctx x p) = p_tasks p"
  "p_slots (made_ctx x p) = p_slots p"
  "p_idle (made_ctx x p) = p_idle p"
  "p_inflight (made_ctx x p) = p_inflight p"
  "p_permits (made_ctx x p) = p_permits p"
  "p_ops (made_ctx x p) = p_ops p"
  "p_all (made_ctx x p) = p_all p"
  "p_conns (made_ctx x p) = p_conns p"
  "p_ctxs (made_ctx x p) = p_ctxs p @ [x]"
  "p_served (made_ctx x p) = p_served p"
  "p_tasks (serve x p) = p_tasks p"
  "p_slots (serve x p) = p_slots p"
  "p_idle (serve x p) = p_idle p"
  "p_inflight (serve x p) = p_inflight p"
  "p_permits (serve x p) = p_permits p"
  "p_ops (serve x p) = p_ops p"
  "p_all (serve x p) = p_all p"
  "p_conns (serve x p) = p_conns p"
  "p_ctxs (serve x p) = p_ctxs p"
  "p_served (serve x p) = p_served p @ [x]"
  by (simp_all add: made_conn_def made_ctx_def serve_def goto_def spawn_def issue_def set_state_def set_terminator_def touch_def dec_inflight_def
      new_slot_def)

lemma slot_count [simp]:
  "length (p_slots (set_state s st p)) = length (p_slots p)"
  "length (p_slots (set_terminator s b p)) = length (p_slots p)"
  "length (p_slots (touch s now p)) = length (p_slots p)"
  "length (p_slots (new_slot c x now p)) = length (p_slots p) + 1"
  by (simp_all add: set_state_def set_terminator_def touch_def new_slot_def)

text \<open>The task that closes the connection of a slot marked dead.\<close>

definition closers :: "nat \<Rightarrow> pool \<Rightarrow> task list" where
  "closers s p = (case fst (take_conn (state_of s p)) of Some c \<Rightarrow> [Reaping [CloseConn c]] | None \<Rightarrow> [])"

lemma mark_slot_dead_simps [simp]:
  "p_tasks (mark_slot_dead s p) = p_tasks p @ closers s p"
  "p_slots (mark_slot_dead s p) = p_slots (set_state s (snd (take_conn (state_of s p))) p)"
  "p_idle (mark_slot_dead s p) = p_idle p" "p_inflight (mark_slot_dead s p) = p_inflight p"
  "p_permits (mark_slot_dead s p) = p_permits p" "p_ops (mark_slot_dead s p) = p_ops p"
  "p_all (mark_slot_dead s p) = p_all p" "p_conns (mark_slot_dead s p) = p_conns p"
  "p_ctxs (mark_slot_dead s p) = p_ctxs p" "p_served (mark_slot_dead s p) = p_served p"
  by (auto simp: mark_slot_dead_def closers_def Let_def split: prod.splits option.splits)

lemma record_target_simps [simp]:
  "p_tasks (record_target s tid p) = p_tasks p" "p_idle (record_target s tid p) = p_idle p"
  "p_inflight (record_target s tid p) = p_inflight p" "p_permits (record_target s tid p) = p_permits p"
  "p_ops (record_target s tid p) = p_ops p" "p_all (record_target s tid p) = p_all p"
  "p_conns (record_target s tid p) = p_conns p" "p_ctxs (record_target s tid p) = p_ctxs p"
  "p_served (record_target s tid p) = p_served p"
  "length (p_slots (record_target s tid p)) = length (p_slots p)"
  by (auto simp: record_target_def split: slot_state.splits)

text \<open>Everything a step can be.\<close>

lemma pool_step_cases:
  assumes "pool_step cfg i ev p = Some p'"
  obtains (acquire) pc now ans where "p_tasks p ! i = Acquiring pc" "acquire_run cfg i now ans pc p = Some p'"
      "ev = Run now ans"
  | (cancel) pc where "p_tasks p ! i = Acquiring pc" "acquire_cancel i pc p = Some p'"
  | (target) s c x tid where "p_tasks p ! i = Holding s c x" "p' = record_target s tid p"
  | (release) s c x where "p_tasks p ! i = Holding s c x" "p' = goto i (Releasing (RlClaim s)) p"
  | (drop) s c x where "p_tasks p ! i = Holding s c x" "p' = goto i (Dropping (DrClaim s)) p"
  | (releasing) pc now ans where "p_tasks p ! i = Releasing pc" "release_run i now ans pc p = Some p'"
      "ev = Run now ans"
  | (abandoned) pc where "p_tasks p ! i = Releasing pc" "release_cancel i pc p = Some p'"
  | (dropping) pc where "p_tasks p ! i = Dropping pc" "drop_run i pc p = Some p'"
  | (reaping) op ops where "p_tasks p ! i = Reaping (op # ops)" "p' = goto i (Reaping ops) (issue op p)"
  | (stopping) pc now where "p_tasks p ! i = Stopping pc" "shutdown_run i now pc p = Some p'"
  | (leaving) r where "p_tasks p ! i = Leaving r" "p' = goto i (Returned r) (p\<lparr> p_permits := p_permits p + 1 \<rparr>)"
proof (cases "p_tasks p ! i")
  case (Acquiring pc)
  then show thesis using assms acquire cancel by (cases ev) (auto simp: pool_step_def)
next
  case (Holding s c x)
  then show thesis using assms target release drop by (cases ev) (auto simp: pool_step_def releasing_def)
next
  case (Releasing pc)
  then show thesis using assms releasing abandoned by (cases ev) (auto simp: pool_step_def)
next
  case (Dropping pc)
  then show thesis using assms dropping by (cases ev) (auto simp: pool_step_def)
next
  case (Reaping ops)
  then show thesis using assms reaping by (cases ev; cases ops) (auto simp: pool_step_def)
next
  case (Stopping pc)
  then show thesis using assms stopping by (cases ev) (auto simp: pool_step_def)
next
  case (Leaving r)
  then show thesis using assms leaving by (cases ev) (auto simp: pool_step_def)
next
  case (Returned r)
  then show thesis using assms by (simp add: pool_step_def)
qed

lemmas run_splits = if_splits option.splits list.splits slot_state.splits sum.splits prod.splits

subsection \<open>Permits\<close>

fun permits_held :: "task \<Rightarrow> nat" where
  "permits_held (Acquiring AqWait) = 0"
| "permits_held (Acquiring pc) = 1"
| "permits_held (Holding s c x) = 1"
| "permits_held (Releasing pc) = 1"
| "permits_held (Dropping pc) = 1"
| "permits_held (Leaving r) = 1"
| "permits_held _ = 0"

definition permit_sum :: "pool \<Rightarrow> nat" where
  "permit_sum p = p_permits p + total permits_held (p_tasks p)"

lemma closers_permits [simp]: "total permits_held (closers s p) = 0"
  by (simp add: closers_def split: option.splits)

lemma acquire_permits:
  assumes "p_tasks p ! i = Acquiring pc" "acquire_run cfg i now ans pc p = Some p'" "i < length (p_tasks p)"
  shows "permit_sum p' = permit_sum p"
  using assms nth_le_total [of i "p_tasks p" permits_held]
  by (cases pc)
    (auto simp: permit_sum_def acquire_again_def list_update_append split: run_splits)

lemma release_permits:
  assumes "p_tasks p ! i = Releasing pc" "release_run i now ans pc p = Some p'" "i < length (p_tasks p)"
  shows "permit_sum p' = permit_sum p"
  using assms nth_le_total [of i "p_tasks p" permits_held]
  by (cases pc) (auto simp: permit_sum_def releasing_def Let_def split: run_splits)

lemma drop_permits:
  assumes "p_tasks p ! i = Dropping pc" "drop_run i pc p = Some p'" "i < length (p_tasks p)"
  shows "permit_sum p' = permit_sum p"
  using assms nth_le_total [of i "p_tasks p" permits_held]
  by (cases pc) (auto simp: permit_sum_def nth_append list_update_append split: run_splits)

lemma shutdown_permits:
  assumes "p_tasks p ! i = Stopping pc" "shutdown_run i now pc p = Some p'" "i < length (p_tasks p)"
  shows "permit_sum p' = permit_sum p"
  using assms(2) nth_le_total [of i "p_tasks p" permits_held] assms(1,3)
  by (cases "(i, now, pc, p)" rule: shutdown_run.cases)
    (auto simp: permit_sum_def stopping_def Let_def split: run_splits)

text \<open>An invariant of every reachable pool, from its steps.\<close>

lemma reaches_invariant [consumes 1, case_names new acquire shutdown step]:
  assumes "pool_reaches cfg p" and "I (pool_new cfg)"
    and "\<And>p. pool_reaches cfg p \<Longrightarrow> I p \<Longrightarrow> I (spawn (Acquiring AqWait) p)"
    and "\<And>p drain. pool_reaches cfg p \<Longrightarrow> I p \<Longrightarrow> I (spawn (Stopping (ShOpen drain)) p)"
    and "\<And>p i ev p'. pool_reaches cfg p \<Longrightarrow> I p \<Longrightarrow> i < length (p_tasks p) \<Longrightarrow> fresh_answer p (Step i ev) \<Longrightarrow>
          pool_step cfg i ev p = Some p' \<Longrightarrow> I p'"
  shows "I p"
  using assms(1)
proof induction
  case (act p a p')
  then show ?case using assms(3-5) by (cases a) (auto simp: pool_action_def split: if_splits)
qed (rule assms(2))

lemma release_cancel_cases:
  assumes "release_cancel i pc p = Some p'"
  obtains s where "p' = goto i (Releasing (RlCommit (Some s))) p" "release_slots pc = [s]"
    "pc \<in> {RlClose s} \<or> (\<exists>c x. pc \<in> {RlTarget s c x, RlDispose s c x, RlCreate s c})"
  using assms by (cases pc) (auto simp: release_cancel_def releasing_def)

lemma acquire_cancel_cases:
  assumes "acquire_cancel i pc p = Some p'"
  obtains (waiting) "pc = AqWait" "p' = goto i (Returned None) p"
    | (working) "pc \<noteq> AqWait" "p' = goto i (Leaving None) p"
        "(\<exists>n s c. pc = AqHealth n s c) \<or> (\<exists>n. pc = AqConnect n) \<or> (\<exists>n c. pc = AqContext n c)"
  using assms by (cases pc) (auto simp: acquire_cancel_def)

lemma permit_sum_reached: "pool_reaches cfg p \<Longrightarrow> permit_sum p = pc_size cfg"
proof (induction rule: reaches_invariant)
  case (step p i ev p')
  note held = nth_le_total [OF \<open>i < length (p_tasks p)\<close>, of permits_held]
  from \<open>pool_step cfg i ev p = Some p'\<close> show ?case
  proof (cases rule: pool_step_cases)
    case (cancel pc)
    from cancel(2) show ?thesis
      by (cases rule: acquire_cancel_cases) (use cancel step held in \<open>auto simp: permit_sum_def elim!: permits_held.elims\<close>)
  next
    case (abandoned pc)
    from abandoned(2) show ?thesis
      by (cases rule: release_cancel_cases) (use abandoned step held in \<open>auto simp: permit_sum_def\<close>)
  qed (use step held in \<open>auto simp: permit_sum_def acquire_permits [unfolded permit_sum_def]
        release_permits [unfolded permit_sum_def] drop_permits [unfolded permit_sum_def]
        shutdown_permits [unfolded permit_sum_def]\<close>)
qed (auto simp: permit_sum_def pool_new_def)

subsection \<open>Owners of a slot\<close>

definition owned :: "nat \<Rightarrow> pool \<Rightarrow> nat" where
  "owned s p = count_list (p_idle p) s + total (\<lambda>t. count_list (task_slots t) s) (p_tasks p)"

text \<open>A slot is in the idle queue or with one task; only slots that exist are.\<close>

definition exclusive :: "pool \<Rightarrow> bool" where
  "exclusive p = (\<forall>s. owned s p \<le> (if s < length (p_slots p) then 1 else 0))"

definition forced_slots :: "task \<Rightarrow> nat list" where
  "forced_slots t =
    (case t of Stopping (ShForce ss) \<Rightarrow> ss | Stopping (ShTakeForced s own ss) \<Rightarrow> s # ss
     | Stopping (ShReconcile own ss) \<Rightarrow> ss | _ \<Rightarrow> [])"

text \<open>The weak references name slots that exist.\<close>

definition registered :: "pool \<Rightarrow> bool" where
  "registered p =
    (\<forall>s \<in> set (p_all p) \<union> (\<Union>t \<in> set (p_tasks p). set (forced_slots t)). s < length (p_slots p))"

lemma closers_owned [simp]: "total (\<lambda>t. count_list (task_slots t) s) (closers s' p) = 0"
  by (simp add: closers_def split: option.splits)

lemma acquire_owned:
  assumes "p_tasks p ! i = Acquiring pc" "acquire_run cfg i now ans pc p = Some p'" "i < length (p_tasks p)"
  shows "owned s p' \<le> owned s p + (if s = length (p_slots p) \<and> length (p_slots p') = length (p_slots p) + 1 then 1 else 0)"
    "length (p_slots p) \<le> length (p_slots p')"
  using assms nth_le_total [of i "p_tasks p" "\<lambda>t. count_list (task_slots t) s"]
  by (cases pc; auto simp: owned_def acquire_again_def list_update_append split: run_splits)+

lemma release_owned:
  assumes "p_tasks p ! i = Releasing pc" "release_run i now ans pc p = Some p'" "i < length (p_tasks p)"
  shows "owned s p' \<le> owned s p" "length (p_slots p') = length (p_slots p)"
  using assms nth_le_total [of i "p_tasks p" "\<lambda>t. count_list (task_slots t) s"]
  by (cases pc; auto simp: owned_def releasing_def Let_def split: run_splits)+

lemma drop_owned:
  assumes "p_tasks p ! i = Dropping pc" "drop_run i pc p = Some p'" "i < length (p_tasks p)"
  shows "owned s p' \<le> owned s p" "length (p_slots p') = length (p_slots p)"
  using assms nth_le_total [of i "p_tasks p" "\<lambda>t. count_list (task_slots t) s"]
  by (cases pc; auto simp: owned_def nth_append list_update_append split: run_splits)+

lemma shutdown_owned:
  assumes "p_tasks p ! i = Stopping pc" "shutdown_run i now pc p = Some p'" "i < length (p_tasks p)"
  shows "owned s p' \<le> owned s p" "length (p_slots p') = length (p_slots p)"
  using assms(2) nth_le_total [of i "p_tasks p" "\<lambda>t. count_list (task_slots t) s"] assms(1,3)
  by (cases "(i, now, pc, p)" rule: shutdown_run.cases;
      auto simp: owned_def stopping_def Let_def split: run_splits)+

text \<open>One step: a slot gains no owner but the one that makes it.\<close>

lemma step_owned:
  assumes "pool_step cfg i ev p = Some p'" "i < length (p_tasks p)"
  shows "owned s p' \<le> owned s p + (if s = length (p_slots p) \<and> length (p_slots p') = length (p_slots p) + 1 then 1 else 0)"
    and "length (p_slots p) \<le> length (p_slots p')"
proof -
  note held = nth_le_total [OF assms(2), of "\<lambda>t. count_list (task_slots t) s"]
  have "owned s p' \<le> owned s p + (if s = length (p_slots p) \<and> length (p_slots p') = length (p_slots p) + 1 then 1 else 0)
    \<and> length (p_slots p) \<le> length (p_slots p')"
    using assms(1)
  proof (cases rule: pool_step_cases)
    case (acquire pc now ans)
    then show ?thesis using acquire_owned assms(2) by blast
  next
    case (cancel pc)
    from cancel(2) show ?thesis
      by (cases rule: acquire_cancel_cases) (use cancel assms held in \<open>auto simp: owned_def\<close>)
  next
    case (releasing pc now ans)
    then show ?thesis using release_owned assms(2) by (metis order_refl trans_le_add1)
  next
    case (abandoned pc)
    from abandoned(2) show ?thesis
      by (cases rule: release_cancel_cases) (use abandoned assms held in \<open>auto simp: owned_def\<close>)
  next
    case (dropping pc)
    then show ?thesis using drop_owned assms(2) by (metis order_refl trans_le_add1)
  next
    case (stopping pc now)
    then show ?thesis using shutdown_owned assms(2) by (metis order_refl trans_le_add1)
  qed (use assms(2) held in \<open>auto simp: owned_def\<close>)
  then show "owned s p' \<le> owned s p + (if s = length (p_slots p) \<and> length (p_slots p') = length (p_slots p) + 1 then 1 else 0)"
    and "length (p_slots p) \<le> length (p_slots p')" by blast+
qed

lemma exclusive_reached: "pool_reaches cfg p \<Longrightarrow> exclusive p"
proof (induction rule: reaches_invariant)
  case (step p i ev p')
  show ?case unfolding exclusive_def
  proof
    fix s
    have "owned s p \<le> (if s < length (p_slots p) then 1 else 0)" using step by (simp add: exclusive_def)
    then show "owned s p' \<le> (if s < length (p_slots p') then 1 else 0)"
      using step_owned(1) [OF \<open>pool_step cfg i ev p = Some p'\<close> \<open>i < length (p_tasks p)\<close>, of s]
        step_owned(2) [OF \<open>pool_step cfg i ev p = Some p'\<close> \<open>i < length (p_tasks p)\<close>]
      by (auto split: if_splits)
  qed
qed (auto simp: exclusive_def owned_def pool_new_def)

lemma count_list_pos: "x \<in> set xs \<Longrightarrow> 0 < count_list xs x"
  by (metis count_list_0_iff gr0I)

lemma owner_slot_exists:
  assumes "exclusive p" "i < length (p_tasks p)" "s \<in> set (task_slots (p_tasks p ! i))"
  shows "s < length (p_slots p)"
proof -
  have "0 < count_list (task_slots (p_tasks p ! i)) s" using assms(3) by (rule count_list_pos)
  then have "0 < owned s p" using nth_le_total [OF assms(2), of "\<lambda>t. count_list (task_slots t) s"] by (simp add: owned_def)
  then show ?thesis using assms(1) by (auto simp: exclusive_def split: if_splits dest: spec [of _ s])
qed

lemma idle_slot_exists:
  assumes "exclusive p" "s \<in> set (p_idle p)"
  shows "s < length (p_slots p)"
proof -
  have "0 < owned s p" using count_list_pos [OF assms(2)] by (simp add: owned_def)
  then show ?thesis using assms(1) by (auto simp: exclusive_def split: if_splits dest: spec [of _ s])
qed

lemma sole_owner:
  assumes "exclusive p" "i < length (p_tasks p)" "j < length (p_tasks p)" "i \<noteq> j"
    "s \<in> set (task_slots (p_tasks p ! i))"
  shows "s \<notin> set (task_slots (p_tasks p ! j))"
proof
  assume "s \<in> set (task_slots (p_tasks p ! j))"
  then have "0 < count_list (task_slots (p_tasks p ! j)) s" "0 < count_list (task_slots (p_tasks p ! i)) s"
    using assms(5) by (auto intro: count_list_pos)
  moreover have "owned s p \<le> 1" using assms(1) by (auto simp: exclusive_def split: if_splits dest: spec [of _ s])
  ultimately show False
    using two_in_total [OF assms(2-4), of "\<lambda>t. count_list (task_slots t) s"] by (simp add: owned_def)
qed

text \<open>Weak references.\<close>

lemma filter_alive_registered: "registered p \<Longrightarrow> \<forall>s \<in> set (filter P (p_all p)). s < length (p_slots p)"
  by (simp add: registered_def)

lemma registered_mono:
  assumes "registered p" "length (p_slots p) \<le> length (p_slots p')"
    "\<And>s. s \<in> set (p_all p') \<Longrightarrow> s \<in> set (p_all p) \<or> s < length (p_slots p')"
    "\<And>t. t \<in> set (p_tasks p') \<Longrightarrow> t \<in> set (p_tasks p) \<or> (\<forall>s \<in> set (forced_slots t). s < length (p_slots p'))"
  shows "registered p'"
  unfolding registered_def
proof
  have old: "s < length (p_slots p')" if "s \<in> set (p_all p) \<or> (\<exists>t \<in> set (p_tasks p). s \<in> set (forced_slots t))" for s
    using assms(1) that less_le_trans [OF _ assms(2), of s] unfolding registered_def by blast
  fix s
  assume "s \<in> set (p_all p') \<union> (\<Union>t \<in> set (p_tasks p'). set (forced_slots t))"
  then consider "s \<in> set (p_all p')" | t where "t \<in> set (p_tasks p')" "s \<in> set (forced_slots t)" by blast
  then show "s < length (p_slots p')" using assms(3,4) old by cases blast+
qed

definition updates_task :: "nat \<Rightarrow> pool \<Rightarrow> pool \<Rightarrow> bool" where
  "updates_task i p p' =
    (p_tasks p' = (p_tasks p)[i := p_tasks p' ! i] @ drop (length (p_tasks p)) (p_tasks p')
     \<and> list_all (\<lambda>t. forced_slots t = []) (p_tasks p' ! i # drop (length (p_tasks p)) (p_tasks p')))"

lemma updated_task:
  assumes "updates_task i p p'" "t \<in> set (p_tasks p')"
  shows "t \<in> set (p_tasks p) \<or> forced_slots t = []"
proof -
  have "t \<in> set ((p_tasks p)[i := p_tasks p' ! i]) \<union> set (drop (length (p_tasks p)) (p_tasks p'))"
    using assms by (metis set_append updates_task_def)
  then show ?thesis
    using assms(1) set_update_subset_insert [of "p_tasks p" i "p_tasks p' ! i"]
    by (auto simp: updates_task_def list_all_iff)
qed

lemma acquire_updates:
  assumes "acquire_run cfg i now ans pc p = Some p'" "i < length (p_tasks p)"
  shows "updates_task i p p'"
  using assms
  by (cases pc) (auto simp: updates_task_def acquire_again_def forced_slots_def closers_def nth_append list_update_append
      split: run_splits)

lemma acquire_registered:
  assumes "acquire_run cfg i now ans pc p = Some p'" "registered p" "i < length (p_tasks p)"
  shows "registered p'"
proof (rule registered_mono [OF assms(2)])
  show "length (p_slots p) \<le> length (p_slots p')"
    using assms(1) by (cases pc) (auto split: run_splits)
  show "s \<in> set (p_all p) \<or> s < length (p_slots p')" if "s \<in> set (p_all p')" for s
    using assms(1) that by (cases pc) (auto simp: new_slot_def made_ctx_def goto_def split: run_splits)
  show "t \<in> set (p_tasks p) \<or> (\<forall>s \<in> set (forced_slots t). s < length (p_slots p'))"
    if "t \<in> set (p_tasks p')" for t
    using updated_task [OF acquire_updates [OF assms(1,3)] that] by fastforce
qed

lemma release_updates:
  assumes "release_run i now ans pc p = Some p'" "i < length (p_tasks p)"
  shows "updates_task i p p'"
  using assms
  by (cases pc) (auto simp: updates_task_def releasing_def forced_slots_def Let_def
      split: run_splits)

lemma release_registered:
  assumes "release_run i now ans pc p = Some p'" "registered p" "i < length (p_tasks p)"
  shows "registered p'"
proof (rule registered_mono [OF assms(2)])
  show "length (p_slots p) \<le> length (p_slots p')"
    using assms(1) by (cases pc) (auto simp: releasing_def Let_def split: run_splits)
  show "s \<in> set (p_all p) \<or> s < length (p_slots p')" if "s \<in> set (p_all p')" for s
    using assms(1) that by (cases pc) (auto simp: releasing_def Let_def split: run_splits)
  show "t \<in> set (p_tasks p) \<or> (\<forall>s \<in> set (forced_slots t). s < length (p_slots p'))"
    if "t \<in> set (p_tasks p')" for t
    using updated_task [OF release_updates [OF assms(1,3)] that] by fastforce
qed

lemma drop_updates:
  assumes "drop_run i pc p = Some p'" "i < length (p_tasks p)"
  shows "updates_task i p p'"
  using assms
  by (cases pc) (auto simp: updates_task_def forced_slots_def nth_append list_update_append
      split: run_splits)

lemma drop_registered:
  assumes "drop_run i pc p = Some p'" "registered p" "i < length (p_tasks p)"
  shows "registered p'"
proof (rule registered_mono [OF assms(2)])
  show "length (p_slots p) \<le> length (p_slots p')"
    using assms(1) by (cases pc) (auto split: run_splits)
  show "s \<in> set (p_all p) \<or> s < length (p_slots p')" if "s \<in> set (p_all p')" for s
    using assms(1) that by (cases pc) (auto split: run_splits)
  show "t \<in> set (p_tasks p) \<or> (\<forall>s \<in> set (forced_slots t). s < length (p_slots p'))"
    if "t \<in> set (p_tasks p')" for t
    using updated_task [OF drop_updates [OF assms(1,3)] that] by fastforce
qed

lemma shutdown_registered:
  assumes "shutdown_run i now pc p = Some p'" "registered p" "i < length (p_tasks p)" "p_tasks p ! i = Stopping pc"
  shows "registered p'"
proof -
  have "\<forall>s \<in> set (forced_slots (Stopping pc)) \<union> set (p_all p). s < length (p_slots p)"
    using assms(2-4) nth_mem [OF assms(3)] unfolding registered_def by fastforce
  then show ?thesis using assms(1,3)
    by (cases "(i, now, pc, p)" rule: shutdown_run.cases; intro registered_mono [OF assms(2)];
        auto simp: stopping_def forced_slots_def Let_def split: run_splits
          dest!: set_update_subset_insert [THEN subsetD])
qed

lemma registered_reached: "pool_reaches cfg p \<Longrightarrow> registered p"
proof (induction rule: reaches_invariant)
  case (step p i ev p')
  note i = \<open>i < length (p_tasks p)\<close> and inv = \<open>registered p\<close>
  have other: "registered (goto i t p)" if "forced_slots t = []" for t
    by (rule registered_mono [OF inv]) (use that in \<open>auto dest!: set_update_subset_insert [THEN subsetD]\<close>)
  from \<open>pool_step cfg i ev p = Some p'\<close> show ?case
  proof (cases rule: pool_step_cases)
    case (cancel pc)
    from cancel(2) show ?thesis by (cases rule: acquire_cancel_cases) (simp_all add: other forced_slots_def)
  next
    case (target s c x tid)
    show ?thesis unfolding target by (rule registered_mono [OF inv]) auto
  next
    case (abandoned pc)
    from abandoned(2) show ?thesis by (cases rule: release_cancel_cases) (simp add: other forced_slots_def)
  next
    case (reaping op ops)
    show ?thesis unfolding reaping
      by (rule registered_mono [OF inv]) (auto simp: forced_slots_def dest!: set_update_subset_insert [THEN subsetD])
  next
    case (leaving r)
    show ?thesis unfolding leaving
      by (rule registered_mono [OF inv]) (auto simp: forced_slots_def dest!: set_update_subset_insert [THEN subsetD])
  qed (use i inv other in \<open>auto simp: forced_slots_def intro: acquire_registered release_registered drop_registered
        shutdown_registered\<close>)
qed (auto simp: registered_def pool_new_def forced_slots_def)

subsection \<open>Sums over the slots\<close>

definition slot_total :: "(slot_state \<Rightarrow> nat) \<Rightarrow> pool \<Rightarrow> nat" where
  "slot_total g p = total (\<lambda>sl. g (ps_state sl)) (p_slots p)"

lemma slot_le_total: "s < length (p_slots p) \<Longrightarrow> g (state_of s p) \<le> slot_total g p"
  using nth_le_total [of s "p_slots p" "\<lambda>sl. g (ps_state sl)"] by (simp add: slot_total_def state_of_def)

lemma total_keep: "g (f (xs ! i)) = g (xs ! i) \<Longrightarrow> total g (xs[i := f (xs ! i)]) = total g xs"
  using nth_le_total [of i xs g] by (cases "i < length xs") (auto simp: not_less list_update_beyond)

lemma slot_total_simps [simp]:
  "slot_total g (goto i t p) = slot_total g p" "slot_total g (spawn t p) = slot_total g p"
  "slot_total g (issue op p) = slot_total g p" "slot_total g (dec_inflight p) = slot_total g p"
  "slot_total g (set_terminator s b p) = slot_total g p" "slot_total g (touch s now p) = slot_total g p"
  "slot_total g (p\<lparr> p_idle := is \<rparr>) = slot_total g p" "slot_total g (p\<lparr> p_permits := n \<rparr>) = slot_total g p"
  "slot_total g (p\<lparr> p_inflight := n \<rparr>) = slot_total g p" "slot_total g (p\<lparr> p_closed := b \<rparr>) = slot_total g p"
  "slot_total g (p\<lparr> p_sem_closed := b \<rparr>) = slot_total g p" "slot_total g (p\<lparr> p_all := as \<rparr>) = slot_total g p"
  "slot_total g (made_conn c p) = slot_total g p" "slot_total g (made_ctx x p) = slot_total g p"
  "slot_total g (serve x p) = slot_total g p"
  "slot_total g (new_slot c k now p) = slot_total g p + g (IdleSlot c k)"
  by (simp_all add: slot_total_def goto_def spawn_def issue_def dec_inflight_def set_terminator_def touch_def
      new_slot_def made_conn_def made_ctx_def serve_def total_keep)

lemma slot_total_set_state [simp]:
  "s < length (p_slots p) \<Longrightarrow> slot_total g (set_state s st p) = slot_total g p - g (state_of s p) + g st"
  by (simp add: slot_total_def set_state_def state_of_def)

lemma state_of_simps [simp]:
  "state_of s (goto i t p) = state_of s p" "state_of s (issue op p) = state_of s p"
  "state_of s (p\<lparr> p_idle := is \<rparr>) = state_of s p" "state_of s (spawn t p) = state_of s p"
  "state_of s (made_conn c p) = state_of s p" "state_of s (made_ctx x p) = state_of s p" "state_of s (serve x p) = state_of s p"
  by (simp_all add: made_conn_def made_ctx_def serve_def state_of_def goto_def issue_def spawn_def)

lemma state_of_kept [simp]:
  "state_of s (set_terminator s' b p) = state_of s p" "state_of s (touch s' now p) = state_of s p"
proof -
  have keep: "ps_state ((xs[s' := f (xs ! s')]) ! s) = ps_state (xs ! s)"
    if "\<And>x. ps_state (f x) = ps_state x" for f and xs :: "pooled_slot list"
    using that by (cases "s' < length xs") (auto simp: nth_list_update list_update_beyond)
  show "state_of s (set_terminator s' b p) = state_of s p"
    using keep [of "\<lambda>sl. sl\<lparr> ps_terminator := b \<rparr>"] by (simp add: state_of_def set_terminator_def)
  show "state_of s (touch s' now p) = state_of s p"
    using keep [of "\<lambda>sl. sl\<lparr> ps_last_used := now \<rparr>"] by (simp add: state_of_def touch_def)
qed

lemma slot_total_mark_dead [simp]:
  "slot_total g (mark_slot_dead s p) = slot_total g (set_state s (snd (take_conn (state_of s p))) p)"
  by (simp add: slot_total_def)

lemma slot_total_record:
  assumes "\<And>c x t t'. g (CheckedOut c x t) = g (CheckedOut c x t')" "s < length (p_slots p)"
  shows "slot_total g (record_target s tid p) = slot_total g p"
proof (cases "state_of s p")
  case (CheckedOut c x t)
  then show ?thesis using slot_le_total [OF assms(2), of g] assms(1) [of c x t "Some tid"] assms(2)
    by (simp add: record_target_def)
qed (simp_all add: record_target_def)

subsection \<open>A connection is closed once\<close>

definition in_slot :: "conn \<Rightarrow> slot_state \<Rightarrow> nat" where
  "in_slot c st = of_bool (fst (take_conn st) = Some c)"

text \<open>The tasks that have taken a connection and will close it, or put a new one into a slot.\<close>

fun with_task :: "conn \<Rightarrow> task \<Rightarrow> nat" where
  "with_task c (Acquiring pc) = (case pc of AqContext n c' \<Rightarrow> of_bool (c' = c) | _ \<Rightarrow> 0)"
| "with_task c (Dropping pc) = (case pc of DrDec s (Some (c', x, tid)) \<Rightarrow> of_bool (c' = c) | _ \<Rightarrow> 0)"
| "with_task c (Reaping ops) = count_list ops (CloseConn c)"
| "with_task c (Stopping pc) = (case pc of ShDispose c' ss \<Rightarrow> of_bool (c' = c) | _ \<Rightarrow> 0)"
| "with_task c (Holding s c' x) = 0"
| "with_task c (Releasing pc) = 0"
| "with_task c (Leaving r) = 0"
| "with_task c (Returned r) = 0"

definition conn_uses :: "conn \<Rightarrow> pool \<Rightarrow> nat" where
  "conn_uses c p =
    slot_total (in_slot c) p + total (with_task c) (p_tasks p) + count_list (p_ops p) (CloseConn c)"

definition known_conn :: "conn \<Rightarrow> pool \<Rightarrow> nat" where
  "known_conn c p = (if c \<in> set (p_conns p) then 1 else 0)"

lemma in_slot_simps [simp]:
  "in_slot c (IdleSlot c' x) = of_bool (c' = c)" "in_slot c (CheckedOut c' x t) = of_bool (c' = c)"
  "in_slot c (Recycling c' x t ph) = of_bool (c' = c)" "in_slot c (DeadSlot (Some c')) = of_bool (c' = c)"
  "in_slot c (DeadSlot None) = 0" "in_slot c Closing = 0"
  by (simp_all add: in_slot_def)

lemma take_conn_twice [simp]: "in_slot c (snd (take_conn st)) = 0"
  by (cases st rule: take_conn.cases) simp_all

lemma taken_in_slot: "take_conn st = (r, st') \<Longrightarrow> in_slot c st = of_bool (r = Some c) \<and> in_slot c st' = 0"
  by (cases st rule: take_conn.cases) auto

lemma acquire_again_with_task [simp]: "with_task c (acquire_again n) = 0"
  by (simp add: acquire_again_def)

lemma closers_with_task [simp]: "total (with_task c) (closers s p) = in_slot c (state_of s p)"
  by (simp add: closers_def in_slot_def split: option.splits)

lemma reap_ops_closes [simp]: "count_list (reap_ops (c', x, t)) (CloseConn c) = of_bool (c' = c)"
  by (simp add: reap_ops_def split: option.splits)

lemma acquire_conn_uses:
  assumes "p_tasks p ! i = Acquiring pc" "acquire_run cfg i now ans pc p = Some p'" "i < length (p_tasks p)"
    "\<forall>s \<in> set (acquire_slots pc). s < length (p_slots p)" "fresh_answer p (Step i (Run now ans))"
    "conn_uses c p \<le> known_conn c p"
  shows "conn_uses c p' \<le> known_conn c p'"
proof -
  note held = nth_le_total [OF assms(3), of "with_task c"]
  show ?thesis
  proof (cases pc)
    case (AqPopped n s)
    then show ?thesis using assms held by (auto simp: conn_uses_def known_conn_def split: if_splits)
  next
    case (AqSnapshot n s)
    then show ?thesis using assms held slot_le_total [of s p "in_slot c"]
      by (auto simp: conn_uses_def known_conn_def list_update_append split: slot_state.splits)
  next
    case (AqHealth n s c')
    then show ?thesis using assms held slot_le_total [of s p "in_slot c"]
      by (auto simp: conn_uses_def known_conn_def list_update_append split: sum.splits)
  next
    case (AqCheckout n s)
    then show ?thesis using assms held slot_le_total [of s p "in_slot c"]
      by (auto simp: conn_uses_def known_conn_def split: slot_state.splits)
  next
    case (AqConnect n)
    then show ?thesis using assms held
      by (auto simp: conn_uses_def known_conn_def fresh_answer_def split: sum.splits)
  qed (use assms held in \<open>auto simp: conn_uses_def known_conn_def split: run_splits\<close>)
qed

lemma release_conn_uses:
  assumes "p_tasks p ! i = Releasing pc" "release_run i now ans pc p = Some p'" "i < length (p_tasks p)"
    "\<forall>s \<in> set (release_slots pc). s < length (p_slots p)"
    "conn_uses c p \<le> known_conn c p"
  shows "conn_uses c p' \<le> known_conn c p'"
  using assms nth_le_total [OF assms(3), of "with_task c"] slot_le_total [of "hd (release_slots pc)" p "in_slot c"]
  by (cases pc)
    (auto simp: conn_uses_def known_conn_def releasing_def Let_def split: run_splits dest: taken_in_slot [of _ _ _ c])

lemma drop_conn_uses:
  assumes "p_tasks p ! i = Dropping pc" "drop_run i pc p = Some p'" "i < length (p_tasks p)"
    "drop_slot pc < length (p_slots p)" "conn_uses c p \<le> known_conn c p"
  shows "conn_uses c p' \<le> known_conn c p'"
  using assms nth_le_total [OF assms(3), of "with_task c"] slot_le_total [of "drop_slot pc" p "in_slot c"]
  by (cases pc)
    (auto simp: conn_uses_def known_conn_def list_update_append split: run_splits)

lemma shutdown_conn_uses:
  assumes "p_tasks p ! i = Stopping pc" "shutdown_run i now pc p = Some p'" "i < length (p_tasks p)"
    "\<forall>s \<in> set (shutdown_slots pc) \<union> set (forced_slots (Stopping pc)). s < length (p_slots p)"
    "conn_uses c p \<le> known_conn c p"
  shows "conn_uses c p' \<le> known_conn c p'"
proof (cases pc)
  case (ShDrain ss)
  show ?thesis
  proof (cases ss)
    case (Cons s ss')
    then show ?thesis
      using assms ShDrain nth_le_total [OF assms(3), of "with_task c"] slot_le_total [of s p "in_slot c"]
      by (cases "state_of s p" rule: take_conn.cases)
        (auto simp: conn_uses_def known_conn_def stopping_def)
  qed (use assms ShDrain nth_le_total [OF assms(3), of "with_task c"] in
      \<open>auto simp: conn_uses_def known_conn_def stopping_def\<close>)
next
  case (ShTakeForced s own ss)
  then show ?thesis
    using assms nth_le_total [OF assms(3), of "with_task c"] slot_le_total [of s p "in_slot c"]
    by (cases "state_of s p" rule: take_conn.cases)
      (auto simp: conn_uses_def known_conn_def stopping_def forced_slots_def)
next
  case (ShForce ss)
  then show ?thesis using assms nth_le_total [OF assms(3), of "with_task c"]
    by (cases ss) (auto simp: conn_uses_def known_conn_def stopping_def split: if_splits)
qed (use assms nth_le_total [OF assms(3), of "with_task c"] in
    \<open>auto simp: conn_uses_def known_conn_def stopping_def Let_def split: if_splits\<close>)

lemma task_slots_exist:
  assumes "pool_reaches cfg p" "i < length (p_tasks p)"
  shows "\<forall>s \<in> set (task_slots (p_tasks p ! i)) \<union> set (forced_slots (p_tasks p ! i)). s < length (p_slots p)"
proof -
  have "\<forall>s \<in> set (forced_slots (p_tasks p ! i)). s < length (p_slots p)"
    using registered_reached [OF assms(1)] nth_mem [OF assms(2)] by (auto simp: registered_def)
  then show ?thesis using owner_slot_exists [OF exclusive_reached [OF assms(1)] assms(2)] by blast
qed

lemma conn_uses_reached: "pool_reaches cfg p \<Longrightarrow> conn_uses c p \<le> known_conn c p"
proof (induction rule: reaches_invariant)
  case (step p i ev p')
  note i = \<open>i < length (p_tasks p)\<close> and uses = \<open>conn_uses c p \<le> known_conn c p\<close>
    and fresh = \<open>fresh_answer p (Step i ev)\<close>
  note held = nth_le_total [OF i, of "with_task c"]
  note exist = task_slots_exist [OF \<open>pool_reaches cfg p\<close> i]
  from \<open>pool_step cfg i ev p = Some p'\<close> show ?case
  proof (cases rule: pool_step_cases)
    case (acquire pc now ans)
    then show ?thesis using acquire_conn_uses [OF acquire(1,2) i _ _ uses] exist fresh by auto
  next
    case (cancel pc)
    from cancel(2) show ?thesis
      by (cases rule: acquire_cancel_cases) (use cancel i held uses in \<open>auto simp: conn_uses_def known_conn_def\<close>)
  next
    case (target s c' x tid)
    then have "slot_total (in_slot c) (record_target s tid p) = slot_total (in_slot c) p"
      using exist by (intro slot_total_record) auto
    then show ?thesis using target uses by (simp add: conn_uses_def known_conn_def)
  next
    case (releasing pc now ans)
    then show ?thesis using release_conn_uses [OF releasing(1,2) i _ uses] exist by auto
  next
    case (abandoned pc)
    from abandoned(2) show ?thesis
      by (cases rule: release_cancel_cases) (use abandoned i held uses in \<open>auto simp: conn_uses_def known_conn_def\<close>)
  next
    case (dropping pc)
    then show ?thesis using drop_conn_uses [OF dropping(1,2) i _ uses] exist by auto
  next
    case (stopping pc now)
    then show ?thesis using shutdown_conn_uses [OF stopping(1,2) i _ uses] exist by auto
  qed (use i held uses in \<open>auto simp: conn_uses_def known_conn_def\<close>)
qed (auto simp: conn_uses_def known_conn_def pool_new_def slot_total_def)

subsection \<open>A context serves one guard\<close>

definition ctx_ready :: "ctx \<Rightarrow> slot_state \<Rightarrow> nat" where
  "ctx_ready x st = (case st of IdleSlot c y \<Rightarrow> of_bool (y = x) | _ \<Rightarrow> 0)"

fun ctx_made :: "ctx \<Rightarrow> task \<Rightarrow> nat" where
  "ctx_made x (Releasing pc) = (case pc of RlFinal s y \<Rightarrow> of_bool (y = x) | _ \<Rightarrow> 0)"
| "ctx_made x (Acquiring pc) = 0"
| "ctx_made x (Dropping pc) = 0"
| "ctx_made x (Reaping ops) = 0"
| "ctx_made x (Stopping pc) = 0"
| "ctx_made x (Holding s c y) = 0"
| "ctx_made x (Leaving r) = 0"
| "ctx_made x (Returned r) = 0"

definition ctx_uses :: "ctx \<Rightarrow> pool \<Rightarrow> nat" where
  "ctx_uses x p = slot_total (ctx_ready x) p + total (ctx_made x) (p_tasks p) + count_list (p_served p) x"

definition known_ctx :: "ctx \<Rightarrow> pool \<Rightarrow> nat" where
  "known_ctx x p = (if x \<in> set (p_ctxs p) then 1 else 0)"

lemma ctx_ready_simps [simp]:
  "ctx_ready x (IdleSlot c y) = of_bool (y = x)" "ctx_ready x (CheckedOut c y t) = 0"
  "ctx_ready x (Recycling c y t ph) = 0" "ctx_ready x (DeadSlot r) = 0" "ctx_ready x Closing = 0"
  by (simp_all add: ctx_ready_def)

lemma take_conn_ready [simp]: "ctx_ready x (snd (take_conn st)) = 0"
  by (cases st rule: take_conn.cases) simp_all

lemma taken_ready: "take_conn st = (r, st') \<Longrightarrow> ctx_ready x st' = 0"
  using take_conn_ready [of x st] by simp

lemma ctx_made_simps [simp]: "ctx_made x (acquire_again n) = 0" "total (ctx_made x) (closers s p) = 0"
  by (simp_all add: acquire_again_def closers_def split: option.split)

lemma acquire_ctx_uses:
  assumes "p_tasks p ! i = Acquiring pc" "acquire_run cfg i now ans pc p = Some p'" "i < length (p_tasks p)"
    "\<forall>s \<in> set (acquire_slots pc). s < length (p_slots p)" "fresh_answer p (Step i (Run now ans))"
    "ctx_uses x p \<le> known_ctx x p"
  shows "ctx_uses x p' \<le> known_ctx x p'"
proof -
  note held = nth_le_total [OF assms(3), of "ctx_made x"]
  show ?thesis
  proof (cases pc)
    case (AqPopped n s)
    then show ?thesis using assms held by (auto simp: ctx_uses_def known_ctx_def split: if_splits)
  next
    case (AqSnapshot n s)
    then show ?thesis using assms held slot_le_total [of s p "ctx_ready x"]
      by (auto simp: ctx_uses_def known_ctx_def list_update_append split: slot_state.splits)
  next
    case (AqHealth n s c')
    then show ?thesis using assms held slot_le_total [of s p "ctx_ready x"]
      by (auto simp: ctx_uses_def known_ctx_def list_update_append split: sum.splits)
  next
    case (AqCheckout n s)
    then show ?thesis using assms held slot_le_total [of s p "ctx_ready x"]
      by (auto simp: ctx_uses_def known_ctx_def split: slot_state.splits)
  next
    case (AqContext n c)
    then show ?thesis using assms held
      by (auto simp: ctx_uses_def known_ctx_def fresh_answer_def split: sum.splits)
  qed (use assms held in \<open>auto simp: ctx_uses_def known_ctx_def split: run_splits\<close>)
qed

lemma release_ctx_uses:
  assumes "p_tasks p ! i = Releasing pc" "release_run i now ans pc p = Some p'" "i < length (p_tasks p)"
    "\<forall>s \<in> set (release_slots pc). s < length (p_slots p)" "fresh_answer p (Step i (Run now ans))"
    "ctx_uses x p \<le> known_ctx x p"
  shows "ctx_uses x p' \<le> known_ctx x p'"
proof -
  note held = nth_le_total [OF assms(3), of "ctx_made x"]
  show ?thesis
  proof (cases pc)
    case (RlCreate s c)
    then show ?thesis using assms held
      by (auto simp: ctx_uses_def known_ctx_def fresh_answer_def releasing_def split: sum.splits)
  qed (use assms held slot_le_total [of "hd (release_slots pc)" p "ctx_ready x"] in
      \<open>auto simp: ctx_uses_def known_ctx_def releasing_def Let_def split: run_splits dest: taken_ready [of _ _ _ x]\<close>)
qed

lemma drop_ctx_uses:
  assumes "p_tasks p ! i = Dropping pc" "drop_run i pc p = Some p'" "i < length (p_tasks p)"
    "drop_slot pc < length (p_slots p)" "ctx_uses x p \<le> known_ctx x p"
  shows "ctx_uses x p' \<le> known_ctx x p'"
  using assms nth_le_total [OF assms(3), of "ctx_made x"] slot_le_total [of "drop_slot pc" p "ctx_ready x"]
  by (cases pc) (auto simp: ctx_uses_def known_ctx_def list_update_append split: run_splits)

lemma shutdown_ctx_uses:
  assumes "p_tasks p ! i = Stopping pc" "shutdown_run i now pc p = Some p'" "i < length (p_tasks p)"
    "\<forall>s \<in> set (shutdown_slots pc) \<union> set (forced_slots (Stopping pc)). s < length (p_slots p)"
    "ctx_uses x p \<le> known_ctx x p"
  shows "ctx_uses x p' \<le> known_ctx x p'"
proof (cases pc)
  case (ShDrain ss)
  show ?thesis
  proof (cases ss)
    case (Cons s ss')
    then show ?thesis
      using assms ShDrain nth_le_total [OF assms(3), of "ctx_made x"] slot_le_total [of s p "ctx_ready x"]
      by (cases "state_of s p" rule: take_conn.cases)
        (auto simp: ctx_uses_def known_ctx_def stopping_def)
  qed (use assms ShDrain nth_le_total [OF assms(3), of "ctx_made x"] in
      \<open>auto simp: ctx_uses_def known_ctx_def stopping_def\<close>)
next
  case (ShTakeForced s own ss)
  then show ?thesis
    using assms nth_le_total [OF assms(3), of "ctx_made x"] slot_le_total [of s p "ctx_ready x"]
    by (cases "state_of s p" rule: take_conn.cases)
      (auto simp: ctx_uses_def known_ctx_def stopping_def forced_slots_def)
next
  case (ShForce ss)
  then show ?thesis using assms nth_le_total [OF assms(3), of "ctx_made x"]
    by (cases ss) (auto simp: ctx_uses_def known_ctx_def stopping_def split: if_splits)
qed (use assms nth_le_total [OF assms(3), of "ctx_made x"] in
    \<open>auto simp: ctx_uses_def known_ctx_def stopping_def Let_def split: if_splits\<close>)

lemma ctx_uses_reached: "pool_reaches cfg p \<Longrightarrow> ctx_uses x p \<le> known_ctx x p"
proof (induction rule: reaches_invariant)
  case (step p i ev p')
  note i = \<open>i < length (p_tasks p)\<close> and uses = \<open>ctx_uses x p \<le> known_ctx x p\<close>
    and fresh = \<open>fresh_answer p (Step i ev)\<close>
  note held = nth_le_total [OF i, of "ctx_made x"]
  note exist = task_slots_exist [OF \<open>pool_reaches cfg p\<close> i]
  from \<open>pool_step cfg i ev p = Some p'\<close> show ?case
  proof (cases rule: pool_step_cases)
    case (acquire pc now ans)
    then show ?thesis using acquire_ctx_uses [OF acquire(1,2) i _ _ uses] exist fresh by auto
  next
    case (cancel pc)
    from cancel(2) show ?thesis
      by (cases rule: acquire_cancel_cases) (use cancel i held uses in \<open>auto simp: ctx_uses_def known_ctx_def\<close>)
  next
    case (target s c' y tid)
    then have "slot_total (ctx_ready x) (record_target s tid p) = slot_total (ctx_ready x) p"
      using exist by (intro slot_total_record) auto
    then show ?thesis using target uses by (simp add: ctx_uses_def known_ctx_def)
  next
    case (releasing pc now ans)
    then show ?thesis using release_ctx_uses [OF releasing(1,2) i _ _ uses] exist fresh by auto
  next
    case (abandoned pc)
    from abandoned(2) show ?thesis
      by (cases rule: release_cancel_cases) (use abandoned i held uses in \<open>auto simp: ctx_uses_def known_ctx_def\<close>)
  next
    case (dropping pc)
    then show ?thesis using drop_ctx_uses [OF dropping(1,2) i _ uses] exist by auto
  next
    case (stopping pc now)
    then show ?thesis using shutdown_ctx_uses [OF stopping(1,2) i _ uses] exist by auto
  qed (use i held uses in \<open>auto simp: ctx_uses_def known_ctx_def slot_total_def\<close>)
qed (auto simp: ctx_uses_def known_ctx_def pool_new_def slot_total_def)

subsection \<open>The in-flight count\<close>

text \<open>The guards, from the increment of the count to its decrement.\<close>

fun counted :: "task \<Rightarrow> nat" where
  "counted (Holding s c x) = 1"
| "counted (Releasing pc) = 1"
| "counted (Dropping pc) = 1"
| "counted (Acquiring pc) = 0"
| "counted (Reaping ops) = 0"
| "counted (Stopping pc) = 0"
| "counted (Leaving r) = 0"
| "counted (Returned r) = 0"

text \<open>A guard that nobody has terminated.\<close>

fun armed :: "task \<Rightarrow> nat option" where
  "armed (Holding s c x) = Some s"
| "armed (Releasing pc) = (case pc of RlClaim s \<Rightarrow> Some s | _ \<Rightarrow> None)"
| "armed (Dropping pc) = (case pc of DrClaim s \<Rightarrow> Some s | _ \<Rightarrow> None)"
| "armed (Acquiring pc) = (case pc of AqCount s c x \<Rightarrow> Some s | _ \<Rightarrow> None)"
| "armed (Reaping ops) = None"
| "armed (Stopping pc) = None"
| "armed (Leaving r) = None"
| "armed (Returned r) = None"

fun forcing_pc :: "shutdown_pc \<Rightarrow> bool" where
  "forcing_pc (ShForce ss) = True"
| "forcing_pc (ShTakeForced s own ss) = True"
| "forcing_pc (ShReconcile own ss) = True"
| "forcing_pc ShSweep = True"
| "forcing_pc ShDone = True"
| "forcing_pc _ = False"

fun forcing :: "task \<Rightarrow> bool" where
  "forcing (Stopping pc) = forcing_pc pc"
| "forcing _ = False"

text \<open>No shutdown has begun to force slots closed.\<close>

definition unforced :: "pool \<Rightarrow> bool" where
  "unforced p = (\<not> list_ex forcing (p_tasks p))"

definition terminated :: "nat \<Rightarrow> pool \<Rightarrow> bool" where
  "terminated s p = ps_terminator (p_slots p ! s)"

definition all_armed :: "pool \<Rightarrow> bool" where
  "all_armed p = (\<forall>t \<in> set (p_tasks p). \<forall>s. armed t = Some s \<longrightarrow> \<not> terminated s p)"

definition count_inv :: "pool \<Rightarrow> bool" where
  "count_inv p = (unforced p \<longrightarrow> p_inflight p = total counted (p_tasks p) \<and> all_armed p)"

lemma terminated_simps [simp]:
  "terminated s (goto i t p) = terminated s p" "terminated s (spawn t p) = terminated s p"
  "terminated s (issue op p) = terminated s p" "terminated s (dec_inflight p) = terminated s p"
  "terminated s (made_conn c p) = terminated s p" "terminated s (made_ctx x p) = terminated s p"
  "terminated s (serve x p) = terminated s p" "terminated s (p\<lparr> p_idle := is \<rparr>) = terminated s p"
  "terminated s (p\<lparr> p_permits := n \<rparr>) = terminated s p" "terminated s (p\<lparr> p_inflight := n \<rparr>) = terminated s p"
  "terminated s (p\<lparr> p_closed := b \<rparr>) = terminated s p" "terminated s (p\<lparr> p_sem_closed := b \<rparr>) = terminated s p"
  "terminated s (p\<lparr> p_all := as \<rparr>) = terminated s p"
  by (simp_all add: terminated_def goto_def spawn_def issue_def dec_inflight_def made_conn_def made_ctx_def serve_def)

lemma terminated_kept [simp]:
  "terminated s (set_state s' st p) = terminated s p" "terminated s (touch s' now p) = terminated s p"
  "s' < length (p_slots p) \<Longrightarrow> terminated s (set_terminator s' b p) = (if s = s' then b else terminated s p)"
  "s < length (p_slots p) \<Longrightarrow> terminated s (new_slot c k now p) = terminated s p"
proof -
  have keep: "ps_terminator ((xs[s' := f (xs ! s')]) ! s) = ps_terminator (xs ! s)"
    if "\<And>x. ps_terminator (f x) = ps_terminator x" for f and xs :: "pooled_slot list"
    using that by (cases "s' < length xs") (auto simp: nth_list_update list_update_beyond)
  show "terminated s (set_state s' st p) = terminated s p"
    using keep [of "\<lambda>sl. sl\<lparr> ps_state := st \<rparr>"] by (simp add: terminated_def set_state_def)
  show "terminated s (touch s' now p) = terminated s p"
    using keep [of "\<lambda>sl. sl\<lparr> ps_last_used := now \<rparr>"] by (simp add: terminated_def touch_def)
qed (auto simp: terminated_def set_terminator_def new_slot_def nth_append)

lemma terminated_mark_dead [simp]: "terminated s (mark_slot_dead s' p) = terminated s p"
  by (auto simp: mark_slot_dead_def Let_def split: prod.splits option.splits)

lemma terminated_record [simp]: "terminated s (record_target s' tid p) = terminated s p"
  by (auto simp: record_target_def split: slot_state.splits)

lemma closers_quiet [simp]:
  "total counted (closers s p) = 0" "list_ex forcing (closers s p) = False"
  "t \<in> set (closers s p) \<Longrightarrow> armed t = None"
  by (auto simp: closers_def split: option.splits)

lemma acquire_again_quiet [simp]:
  "counted (acquire_again n) = 0" "forcing (acquire_again n) = False" "armed (acquire_again n) = None"
  by (simp_all add: acquire_again_def)

text \<open>What a step does to the count and to the terminators, once per kind of task.\<close>

definition count_step :: "nat \<Rightarrow> pool \<Rightarrow> pool \<Rightarrow> bool" where
  "count_step i p p' =
    (p_inflight p' + total counted (p_tasks p) = p_inflight p + total counted (p_tasks p')
     \<and> (\<forall>s < length (p_slots p). s \<notin> set (task_slots (p_tasks p ! i)) \<longrightarrow> terminated s p' = terminated s p)
     \<and> (\<forall>s. armed (p_tasks p' ! i) = Some s \<longrightarrow> \<not> terminated s p')
     \<and> (\<forall>t \<in> set (drop (length (p_tasks p)) (p_tasks p')). armed t = None)
     \<and> p_tasks p' = (p_tasks p)[i := p_tasks p' ! i] @ drop (length (p_tasks p)) (p_tasks p'))"

lemma count_step_inv:
  assumes "count_step i p p'" "pool_reaches cfg p" "i < length (p_tasks p)"
    "p_inflight p = total counted (p_tasks p)" "all_armed p"
  shows "p_inflight p' = total counted (p_tasks p') \<and> all_armed p'"
proof
  show "p_inflight p' = total counted (p_tasks p')" using assms(1,4) by (simp add: count_step_def)
  show "all_armed p'" unfolding all_armed_def
  proof (intro ballI allI impI)
    fix t s
    assume t: "t \<in> set (p_tasks p')" "armed t = Some s"
    have shape: "p_tasks p' = (p_tasks p)[i := p_tasks p' ! i] @ drop (length (p_tasks p)) (p_tasks p')"
      using assms(1) by (simp add: count_step_def)
    have "t \<in> set ((p_tasks p)[i := p_tasks p' ! i]) \<union> set (drop (length (p_tasks p)) (p_tasks p'))"
      using t(1) by (subst (asm) shape) (simp only: set_append)
    moreover have "t \<notin> set (drop (length (p_tasks p)) (p_tasks p'))"
      using t(2) assms(1) by (auto simp: count_step_def)
    ultimately have "t \<in> set ((p_tasks p)[i := p_tasks p' ! i])" by blast
    then obtain j where "j < length (p_tasks p)" "(p_tasks p)[i := p_tasks p' ! i] ! j = t"
      by (auto simp only: in_set_conv_nth length_list_update)
    then have j: "j < length (p_tasks p)" "t = (if j = i then p_tasks p' ! i else p_tasks p ! j)"
      by (simp_all only: nth_list_update split: if_split, auto)
    show "\<not> terminated s p'"
    proof (cases "j = i")
      case True
      then show ?thesis using assms(1) j t(2) by (simp add: count_step_def)
    next
      case False
      have own: "s \<in> set (task_slots (p_tasks p ! j))"
        using t(2) j False by (cases "p_tasks p ! j") (auto split: release_pc.splits drop_pc.splits acquire_pc.splits)
      note excl = exclusive_reached [OF assms(2)]
      have "s \<notin> set (task_slots (p_tasks p ! i))" using sole_owner [OF excl j(1) assms(3) False own] .
      then have "terminated s p' = terminated s p"
        using assms(1) owner_slot_exists [OF excl j(1) own] by (simp add: count_step_def)
      then show ?thesis using assms(5) j t(2) False by (auto simp: all_armed_def)
    qed
  qed
qed

lemma acquire_count:
  assumes "p_tasks p ! i = Acquiring pc" "acquire_run cfg i now ans pc p = Some p'" "i < length (p_tasks p)"
    "\<forall>s \<in> set (acquire_slots pc). s < length (p_slots p)" "all_armed p"
  shows "count_step i p p'"
proof -
  have armed: "\<not> terminated s p" if "pc = AqCount s c x" for s c x
    using that assms nth_mem [OF assms(3)] by (fastforce simp: all_armed_def)
  note facts = assms armed nth_le_total [OF assms(3), of counted]
  show ?thesis
  proof (cases pc)
    case (AqSnapshot n s)
    with facts show ?thesis
      by (cases "state_of s p") (auto simp: count_step_def list_update_append nth_append)
  next
    case (AqHealth n s c)
    with facts show ?thesis
      by (cases ans) (auto simp: count_step_def list_update_append nth_append split: if_splits)
  next
    case (AqCheckout n s)
    with facts show ?thesis
      by (cases "state_of s p") (auto simp: count_step_def split: if_splits)
  next
    case AqWait
    with facts show ?thesis by (auto simp: count_step_def split: if_splits)
  next
    case (AqTry n)
    with facts show ?thesis by (cases "p_idle p") (auto simp: count_step_def)
  next
    case (AqPopped n s)
    with facts show ?thesis by (auto simp: count_step_def split: if_splits)
  next
    case (AqConnect n)
    with facts show ?thesis by (cases ans) (auto simp: count_step_def)
  next
    case (AqContext n c)
    with facts show ?thesis by (cases ans) (auto simp: count_step_def)
  next
    case (AqCount s c x)
    with facts show ?thesis by (auto simp: count_step_def)
  qed
qed

lemma release_count:
  assumes "p_tasks p ! i = Releasing pc" "release_run i now ans pc p = Some p'" "i < length (p_tasks p)"
    "\<forall>s \<in> set (release_slots pc). s < length (p_slots p)" "all_armed p" "p_inflight p = total counted (p_tasks p)"
  shows "count_step i p p'"
proof -
  have armed: "\<not> terminated s p" if "pc = RlClaim s" for s
    using that assms nth_mem [OF assms(3)] by (fastforce simp: all_armed_def)
  show ?thesis
    using assms armed nth_le_total [OF assms(3), of counted]
    by (cases pc) (auto simp: count_step_def releasing_def terminated_def [symmetric] Let_def split: run_splits)
qed

lemma drop_count:
  assumes "p_tasks p ! i = Dropping pc" "drop_run i pc p = Some p'" "i < length (p_tasks p)"
    "drop_slot pc < length (p_slots p)" "all_armed p" "p_inflight p = total counted (p_tasks p)"
  shows "count_step i p p'"
proof -
  have armed: "\<not> terminated s p" if "pc = DrClaim s" for s
    using that assms nth_mem [OF assms(3)] by (fastforce simp: all_armed_def)
  show ?thesis
    using assms armed nth_le_total [OF assms(3), of counted]
    by (cases pc)
      (auto simp: count_step_def terminated_def [symmetric] list_update_append nth_append split: run_splits)
qed

lemma shutdown_shape:
  assumes "p_tasks p ! i = Stopping pc" "shutdown_run i now pc p = Some p'" "i < length (p_tasks p)"
  shows "p_tasks p' = (p_tasks p)[i := p_tasks p' ! i]" "forcing_pc pc \<Longrightarrow> forcing (p_tasks p' ! i)"
proof -
  have "p_tasks p' = (p_tasks p)[i := p_tasks p' ! i] \<and> (forcing_pc pc \<longrightarrow> forcing (p_tasks p' ! i))"
    using assms(2) assms(1,3)
    by (cases "(i, now, pc, p)" rule: shutdown_run.cases)
      (auto simp: stopping_def Let_def simp flip: assms(1) split: if_splits prod.splits option.splits slot_state.splits)
  then show "p_tasks p' = (p_tasks p)[i := p_tasks p' ! i]" "forcing_pc pc \<Longrightarrow> forcing (p_tasks p' ! i)" by blast+
qed

lemma shutdown_count:
  assumes "p_tasks p ! i = Stopping pc" "shutdown_run i now pc p = Some p'" "i < length (p_tasks p)"
    "\<not> forcing_pc pc"
  shows "count_step i p p'"
proof -
  note held = nth_le_total [OF assms(3), of counted]
  have drop: "drop (length (p_tasks p)) (p_tasks p') = []"
    by (subst shutdown_shape(1) [OF assms(1-3)]) simp
  have "p_inflight p' = p_inflight p \<and> counted (p_tasks p' ! i) = 0 \<and> armed (p_tasks p' ! i) = None
    \<and> (\<forall>s. terminated s p' = terminated s p)"
    using assms(2) assms(1,3,4)
    by (cases "(i, now, pc, p)" rule: shutdown_run.cases)
      (auto simp: stopping_def Let_def split: if_splits prod.splits option.splits slot_state.splits)
  moreover have "total counted (p_tasks p') = total counted (p_tasks p) - counted (p_tasks p ! i) + counted (p_tasks p' ! i)"
    by (subst shutdown_shape(1) [OF assms(1-3)]) (rule total_update [OF assms(3)])
  ultimately show ?thesis
    using shutdown_shape(1) [OF assms(1-3)] assms(1) drop by (simp add: count_step_def)
qed

text \<open>Forcing is never undone.\<close>

definition step_shape :: "nat \<Rightarrow> pool \<Rightarrow> pool \<Rightarrow> bool" where
  "step_shape i p p' =
    (p_tasks p' = (p_tasks p)[i := p_tasks p' ! i] @ drop (length (p_tasks p)) (p_tasks p')
     \<and> (forcing (p_tasks p ! i) \<longrightarrow> forcing (p_tasks p' ! i)))"

lemma step_shape_holds:
  assumes "pool_step cfg i ev p = Some p'" "i < length (p_tasks p)"
  shows "step_shape i p p'"
  using assms(1)
proof (cases rule: pool_step_cases)
  case (acquire pc now ans)
  then show ?thesis using acquire_updates [OF acquire(2) assms(2)] by (simp add: step_shape_def updates_task_def)
next
  case (releasing pc now ans)
  then show ?thesis using release_updates [OF releasing(2) assms(2)] by (simp add: step_shape_def updates_task_def)
next
  case (dropping pc)
  then show ?thesis using drop_updates [OF dropping(2) assms(2)] by (simp add: step_shape_def updates_task_def)
next
  case (stopping pc now)
  have "drop (length (p_tasks p)) (p_tasks p') = []"
    by (subst shutdown_shape(1) [OF stopping assms(2)]) simp
  then show ?thesis using shutdown_shape [OF stopping assms(2)] stopping(1) by (simp add: step_shape_def)
next
  case (cancel pc)
  from cancel(2) show ?thesis by (cases rule: acquire_cancel_cases) (use cancel assms(2) in \<open>auto simp: step_shape_def\<close>)
next
  case (abandoned pc)
  from abandoned(2) show ?thesis by (cases rule: release_cancel_cases) (use abandoned assms(2) in \<open>auto simp: step_shape_def\<close>)
next
  case (target s c x tid)
  have "(p_tasks p)[i := Holding s c x] = p_tasks p" using target(1) by (metis list_update_id)
  then show ?thesis using target by (simp add: step_shape_def)
qed (use assms(2) in \<open>auto simp: step_shape_def\<close>)

lemma unforced_before:
  assumes "step_shape i p p'" "unforced p'" "i < length (p_tasks p)"
  shows "unforced p"
proof -
  note shape = assms(1) [unfolded step_shape_def, THEN conjunct1]
  have "\<not> forcing (p_tasks p ! j)" if j: "j < length (p_tasks p)" for j
  proof -
    have "p_tasks p' ! j = (if j = i then p_tasks p' ! i else p_tasks p ! j)"
      by (subst shape) (use j in \<open>simp add: nth_append\<close>)
    moreover have "p_tasks p' ! j \<in> set (p_tasks p')"
      by (rule nth_mem) (subst shape, use j in simp)
    then have "\<not> forcing (p_tasks p' ! j)" using assms(2) by (auto simp: unforced_def list_ex_iff)
    ultimately show ?thesis using assms(1) by (auto simp: step_shape_def split: if_splits)
  qed
  then show ?thesis by (auto simp: unforced_def list_ex_iff in_set_conv_nth)
qed

lemma step_count:
  assumes "pool_reaches cfg p" "pool_step cfg i ev p = Some p'" "i < length (p_tasks p)" "count_inv p"
  shows "count_inv p'"
proof (unfold count_inv_def, intro impI)
  assume unforced': "unforced p'"
  note shape = step_shape_holds [OF assms(2,3)]
  have unforced: "unforced p" using unforced_before [OF shape unforced' assms(3)] .
  have n: "p_inflight p = total counted (p_tasks p)" and all: "all_armed p"
    using assms(4) unforced by (auto simp: count_inv_def)
  note exist = task_slots_exist [OF assms(1,3)] and held = nth_le_total [OF assms(3), of counted]
  have arm: "\<not> terminated s p" if "armed (p_tasks p ! i) = Some s" for s
    using all nth_mem [OF assms(3)] that by (auto simp: all_armed_def)
  from assms(2) have "count_step i p p'"
  proof (cases rule: pool_step_cases)
    case (acquire pc now ans)
    then show ?thesis using acquire_count [OF acquire(1,2) assms(3) _ all] exist by simp
  next
    case (cancel pc)
    from cancel(2) show ?thesis
      by (cases rule: acquire_cancel_cases) (use cancel assms(3) held in \<open>auto simp: count_step_def\<close>)
  next
    case (releasing pc now ans)
    then show ?thesis using release_count [OF releasing(1,2) assms(3) _ all n] exist by simp
  next
    case (abandoned pc)
    from abandoned(2) show ?thesis
      by (cases rule: release_cancel_cases) (use abandoned assms(3) held in \<open>auto simp: count_step_def\<close>)
  next
    case (dropping pc)
    then show ?thesis using drop_count [OF dropping(1,2) assms(3) _ all n] exist by simp
  next
    case (stopping pc now)
    have "\<not> forcing_pc pc" using unforced stopping(1) nth_mem [OF assms(3)] by (auto simp: unforced_def list_ex_iff)
    then show ?thesis using shutdown_count [OF stopping assms(3)] by simp
  next
    case (target s c x tid)
    have "(p_tasks p)[i := Holding s c x] = p_tasks p" using target(1) by (metis list_update_id)
    then show ?thesis using target arm by (auto simp: count_step_def)
  qed (use assms(3) held arm in \<open>auto simp: count_step_def\<close>)
  then show "p_inflight p' = total counted (p_tasks p') \<and> all_armed p'"
    using count_step_inv [OF _ assms(1,3) n all] by blast
qed

lemma count_reached: "pool_reaches cfg p \<Longrightarrow> count_inv p"
proof (induction rule: reaches_invariant)
  case (step p i ev p')
  then show ?case using step_count by blast
qed (auto simp: count_inv_def pool_new_def unforced_def all_armed_def)

subsection \<open>The properties\<close>

text \<open>
  C28. Permits are conserved: in every interleaving of acquirers, guards, releases, cancellations
  and shutdowns, the permits left and the permits held by acquirers and guards add up to the size
  of the pool, so there are never more guards than that.
\<close>

theorem permits_conserved:
  assumes "pool_reaches cfg p"
  shows "p_permits p + total permits_held (p_tasks p) = pc_size cfg"
  using permit_sum_reached [OF assms] by (simp add: permit_sum_def)

text \<open>
  C12. A slot belongs to one task at a time, which is never in the idle queue meanwhile, and a
  browser context is handed to at most one guard in the life of the pool: two fetches never share
  cookies or storage.
\<close>

theorem contexts_isolated:
  assumes "pool_reaches cfg p"
    and own: "i < length (p_tasks p)" "j < length (p_tasks p)" "i \<noteq> j" "s \<in> set (task_slots (p_tasks p ! i))"
  shows "s \<notin> set (task_slots (p_tasks p ! j)) \<and> s \<notin> set (p_idle p) \<and> count_list (p_served p) x \<le> 1"
proof -
  have "ctx_uses x p \<le> 1" using ctx_uses_reached [OF assms(1), of x] by (auto simp: known_ctx_def split: if_splits)
  moreover note excl = exclusive_reached [OF assms(1)]
  have "s \<notin> set (p_idle p)"
  proof
    assume "s \<in> set (p_idle p)"
    then have "0 < count_list (p_idle p) s" "0 < count_list (task_slots (p_tasks p ! i)) s"
      using own(4) by (auto intro: count_list_pos)
    moreover have "owned s p \<le> 1" using excl by (auto simp: exclusive_def split: if_splits dest: spec [of _ s])
    ultimately show False
      using nth_le_total [OF own(1), of "\<lambda>t. count_list (task_slots t) s"] by (simp add: owned_def)
  qed
  ultimately show ?thesis using sole_owner [OF excl own] by (simp add: ctx_uses_def)
qed

text \<open>
  No connection is closed twice, whichever of releases, drops, health checks and shutdowns race
  for it.
\<close>

theorem connection_closed_once:
  assumes "pool_reaches cfg p"
  shows "count_list (p_ops p) (CloseConn c) \<le> 1"
proof -
  have "conn_uses c p \<le> 1" using conn_uses_reached [OF assms, of c] by (auto simp: known_conn_def split: if_splits)
  then show ?thesis by (simp add: conn_uses_def)
qed

text \<open>
  Until a shutdown begins to force slots closed, the in-flight count that it waits on is the
  number of guards out, whatever was cancelled meanwhile.
\<close>

theorem inflight_counts_guards:
  assumes "pool_reaches cfg p" and "unforced p"
  shows "p_inflight p = total counted (p_tasks p)"
  using count_reached [OF assms(1)] assms(2) by (simp add: count_inv_def)

subsection \<open>Interleavings\<close>

definition small_cfg :: pool_cfg where
  "small_cfg = pool_cfg_default\<lparr> pc_size := 1 \<rparr>"

abbreviation go :: "nat \<Rightarrow> nat \<Rightarrow> pool_action" where
  "go i n \<equiv> Step i (Run 0 (Inr n))"

definition use_once :: "pool_action list" where
  "use_once = StartAcquire # map (go 0) [0, 0, 7, 9, 0, 0] @ [Step 0 (RecordTarget ''t''), Step 0 Release]"

text \<open>An acquirer that waits for its connection while a whole shutdown runs.\<close>

definition late_acquirer :: "pool_action list" where
  "late_acquirer =
    StartAcquire # map (go 0) [0, 0] @ StartShutdown 0 # replicate 8 (go 1 0)
    @ map (go 0) [7, 9, 0, 0] @ Step 0 Release # map (go 0) [0, 0, 0, 0, 0, 10, 0, 0, 0, 0]"

text \<open>A shutdown between an acquirer's checkout and its increment of the count.\<close>

definition uncounted_guard :: "pool_action list" where
  "uncounted_guard =
    StartAcquire # map (go 0) [0, 0, 7, 9, 0] @ StartShutdown 0 # replicate 11 (go 1 0)
    @ go 0 0 # Step 0 Release # map (go 0) [0, 0]"

text \<open>A release cancelled while the browser closes the target, then a shutdown.\<close>

definition cancelled_release :: "pool_action list" where
  "cancelled_release =
    use_once @ map (go 0) [0, 0] @ Step 0 Cancel # map (go 0) [0, 0] @ StartShutdown 0 # replicate 8 (go 1 0)"


text \<open>Nothing runs any more and a shutdown has run to its end.\<close>

definition over :: "pool \<Rightarrow> bool" where
  "over p =
    (list_all (\<lambda>t. t = Stopping ShDone \<or> (\<exists>r \<in> {None, Some Shutdown}. t = Returned r)) (p_tasks p)
     \<and> Stopping ShDone \<in> set (p_tasks p))"

lemma traces:
  "pool_trace small_cfg use_once (pool_new small_cfg) \<noteq> None"
  "map_option (\<lambda>p. (over p, p_idle p, map ps_state (p_slots p), p_ops p))
     (pool_trace small_cfg late_acquirer (pool_new small_cfg))
   = Some (True, [0], [IdleSlot 7 10], [DisposeCtx 7 9])"
  "map_option (\<lambda>p. (over p, p_inflight p)) (pool_trace small_cfg uncounted_guard (pool_new small_cfg)) = Some (True, 1)"
  "map_option (\<lambda>p. (over p, map ps_state (p_slots p), p_ops p))
     (pool_trace small_cfg cancelled_release (pool_new small_cfg))
   = Some (True, [Recycling 7 9 (Some ''t'') CloseTargetPhase], [CloseTarget 7 ''t''])"
  by code_simp+

text \<open>
  The post-condition of a shutdown does not hold in every interleaving. When everything has
  returned after a shutdown, a slot can be idle with its connection open, because an acquirer was
  waiting for that connection; the in-flight count can stay at one, because the shutdown came
  between a checkout and its increment; and a release that was cancelled leaves a connection that
  nobody closes and a context that nobody disposes of.
\<close>

theorem shutdown_postcondition_fails:
  "(\<exists>p. pool_reaches small_cfg p \<and> over p \<and> p_idle p = [0] \<and> state_of 0 p = IdleSlot 7 10 \<and> CloseConn 7 \<notin> set (p_ops p))
   \<and> (\<exists>p. pool_reaches small_cfg p \<and> over p \<and> p_inflight p = 1)
   \<and> (\<exists>p. pool_reaches small_cfg p \<and> over p \<and> state_of 0 p = Recycling 7 9 (Some ''t'') CloseTargetPhase
        \<and> CloseConn 7 \<notin> set (p_ops p) \<and> DisposeCtx 7 9 \<notin> set (p_ops p))"
proof (intro conjI)
  note reach = pool_trace_reaches [OF _ pool_reaches.new]
  obtain p where p: "pool_trace small_cfg late_acquirer (pool_new small_cfg) = Some p" "over p" "p_idle p = [0]"
    "map ps_state (p_slots p) = [IdleSlot 7 10]" "p_ops p = [DisposeCtx 7 9]"
    using traces(2) by auto
  then have "state_of 0 p = IdleSlot 7 10" by (auto simp: state_of_def map_eq_Cons_conv)
  then show "\<exists>p. pool_reaches small_cfg p \<and> over p \<and> p_idle p = [0] \<and> state_of 0 p = IdleSlot 7 10 \<and> CloseConn 7 \<notin> set (p_ops p)"
    using p reach [OF p(1)] by (intro exI [of _ p]) simp
next
  show "\<exists>p. pool_reaches small_cfg p \<and> over p \<and> p_inflight p = 1"
    using traces(3) pool_trace_reaches [OF _ pool_reaches.new] by auto
next
  obtain p where p: "pool_trace small_cfg cancelled_release (pool_new small_cfg) = Some p" "over p"
    "map ps_state (p_slots p) = [Recycling 7 9 (Some ''t'') CloseTargetPhase]" "p_ops p = [CloseTarget 7 ''t'']"
    using traces(4) by auto
  then have "state_of 0 p = Recycling 7 9 (Some ''t'') CloseTargetPhase" by (auto simp: state_of_def map_eq_Cons_conv)
  then show "\<exists>p. pool_reaches small_cfg p \<and> over p \<and> state_of 0 p = Recycling 7 9 (Some ''t'') CloseTargetPhase
     \<and> CloseConn 7 \<notin> set (p_ops p) \<and> DisposeCtx 7 9 \<notin> set (p_ops p)"
    using p pool_trace_reaches [OF p(1) pool_reaches.new] by (intro exI [of _ p]) simp
qed

text \<open>A pool in use, for the witnesses.\<close>

definition pool_in_use :: pool where
  "pool_in_use = the (pool_trace small_cfg use_once (pool_new small_cfg))"

lemma pool_in_use_reached: "pool_reaches small_cfg pool_in_use"
proof -
  have "pool_trace small_cfg use_once (pool_new small_cfg) = Some pool_in_use"
    using traces(1) by (simp add: pool_in_use_def)
  then show ?thesis using pool_trace_reaches [OF _ pool_reaches.new] by blast
qed

theorem permits_conserved_witness: "p_permits pool_in_use + total permits_held (p_tasks pool_in_use) = 1"
  using permits_conserved [OF pool_in_use_reached] by (simp add: small_cfg_def)

theorem connection_closed_once_witness: "count_list (p_ops pool_in_use) (CloseConn 7) \<le> 1"
  by (rule connection_closed_once [OF pool_in_use_reached])

theorem inflight_counts_guards_witness:
  "p_inflight pool_in_use = 1 \<and> p_inflight pool_in_use = total counted (p_tasks pool_in_use)"
proof -
  have "unforced pool_in_use" "p_inflight pool_in_use = 1" by code_simp+
  then show ?thesis using inflight_counts_guards [OF pool_in_use_reached] by simp
qed

definition two_cfg :: pool_cfg where
  "two_cfg = pool_cfg_default\<lparr> pc_size := 2 \<rparr>"

definition two_guards :: pool where
  "two_guards = the (pool_trace two_cfg
     (StartAcquire # StartAcquire # map (go 0) [0, 0, 7, 9, 0, 0] @ map (go 1) [0, 0, 8, 10, 0, 0]) (pool_new two_cfg))"

theorem contexts_isolated_witness:
  "p_tasks two_guards = [Holding 0 7 9, Holding 1 8 10] \<and> count_list (p_served two_guards) 9 \<le> 1
   \<and> 0 \<notin> set (task_slots (p_tasks two_guards ! 1)) \<and> 0 \<notin> set (p_idle two_guards)"
proof -
  have t: "p_tasks two_guards = [Holding 0 7 9, Holding 1 8 10]" by code_simp
  have "pool_trace two_cfg
     (StartAcquire # StartAcquire # map (go 0) [0, 0, 7, 9, 0, 0] @ map (go 1) [0, 0, 8, 10, 0, 0]) (pool_new two_cfg) \<noteq> None"
    by code_simp
  then have r: "pool_reaches two_cfg two_guards"
    using pool_trace_reaches [OF _ pool_reaches.new] by (fastforce simp: two_guards_def)
  show ?thesis using t contexts_isolated [OF r, of 0 1 0 9] by simp
qed

end
