(* ===== verification/Url_Filter.thy ===== *)
theory Url_Filter
  imports Url_Key
begin

section \<open>The URL filter of the map endpoint\<close>

text \<open>
  \<open>crates/crw-crawl/src/url_filter.rs\<close> and its tables \<open>url_filter_data.rs\<close>: links that trigger an
  action are dropped, tracking parameters are stripped from the query, and overrides for some hosts
  preserve or strip others. A URL comes parsed: \<open>pl_text q\<close> is its text with the query replaced by
  \<open>q\<close> and without a fragment. Counters are left out.
\<close>

subsection \<open>Tables\<close>

definition default_action_params :: "string list" where
  "default_action_params =
    [''add_to_cart'', ''remove_item'', ''undo_item'', ''removed_item'',
     ''wc_ajax'', ''wc_api'', ''pay_for_order'', ''apply_coupon'',
     ''remove_coupon'', ''order_again'', ''delete_payment_method'',
     ''add_to_wishlist'', ''remove_from_wishlist'', ''yith_wcwl_action'',
     ''add_to_compare'', ''remove_from_compare'', ''remove_compare_item'',
     ''_wpnonce'', ''_wp_http_referer'', ''replytocom'',
     ''unapproved'', ''moderation_hash'', ''doing_wp_cron'',
     ''customize_changeset_uuid'', ''customize_messenger_channel'',
     ''preview_id'', ''preview_nonce'',
     ''isajax'', ''form_key'',
     ''nonce'', ''csrf'', ''csrf_token'', ''authenticity_token'']"

definition default_tracking_params :: "string list" where
  "default_tracking_params =
    [''utm_source'', ''utm_medium'', ''utm_campaign'', ''utm_term'', ''utm_content'',
     ''utm_id'', ''utm_name'', ''utm_brand'', ''utm_social'', ''utm_social_type'',
     ''gclid'', ''gclsrc'', ''gbraid'', ''wbraid'', ''dclid'', ''gad_source'', ''srsltid'',
     ''_ga'', ''_gl'', ''fbclid'', ''msclkid'', ''ttclid'', ''li_fat_id'',
     ''twclid'', ''__twitter_impression'', ''yclid'', ''ysclid'',
     ''_hsenc'', ''_hsmi'', ''__hssc'', ''__hstc'', ''__hsfp'', ''hsctatracking'',
     ''mc_cid'', ''mc_eid'',
     ''mtm_source'', ''mtm_medium'', ''mtm_campaign'', ''mtm_keyword'', ''mtm_cid'',
     ''pk_campaign'', ''pk_kwd'', ''pk_source'', ''pk_medium'',
     ''mkt_tok'', ''igshid'', ''sessionid'', ''phpsessid'', ''jsessionid'']"

definition always_preserve :: "string list" where
  "always_preserve =
    [''p'', ''page_id'', ''page'', ''paged'', ''offset'', ''category'', ''cat'',
     ''lang'', ''locale'', ''hl'', ''title'', ''docid'', ''caseid'', ''oldid'']"

datatype host_pat = AnyHost | ExactHost string | SuffixHost string

fun host_pat_matches :: "host_pat \<Rightarrow> string \<Rightarrow> bool" where
  "host_pat_matches AnyHost host = True"
| "host_pat_matches (ExactHost h) host = eq_ignore_ascii_case host h"
| "host_pat_matches (SuffixHost suf) host =
    (length suf < length host \<and> eq_ignore_ascii_case (drop (length host - length suf) host) suf)"

record host_override =
  ho_pat :: host_pat
  ho_when_path_contains :: "string list"
  ho_preserve :: "string list"
  ho_exempt_action :: "string list"
  ho_extra_tracking :: "string list"

definition default_host_overrides :: "host_override list" where
  "default_host_overrides =
    [\<lparr> ho_pat = AnyHost, ho_when_path_contains = [''viewtopic.php'', ''showthread.php'', ''showtopic''],
       ho_preserve = [''t'', ''p'', ''f'', ''topic'', ''thread'', ''tid'', ''pid''],
       ho_exempt_action = [], ho_extra_tracking = [] \<rparr>,
     \<lparr> ho_pat = AnyHost, ho_when_path_contains = [''/wiki/'', ''/w/index.php''],
       ho_preserve = [''title'', ''oldid'', ''diff'', ''curid''],
       ho_exempt_action = [], ho_extra_tracking = [] \<rparr>,
     \<lparr> ho_pat = ExactHost ''youtube.com'', ho_when_path_contains = [''/watch''],
       ho_preserve = [''v'', ''list'', ''t''], ho_exempt_action = [], ho_extra_tracking = [] \<rparr>,
     \<lparr> ho_pat = SuffixHost ''.youtube.com'', ho_when_path_contains = [''/watch''],
       ho_preserve = [''v'', ''list'', ''t''], ho_exempt_action = [], ho_extra_tracking = [] \<rparr>,
     \<lparr> ho_pat = SuffixHost ''.reddit.com'', ho_when_path_contains = [''/comments/'', ''/r/''],
       ho_preserve = [''context'', ''sort'', ''depth''], ho_exempt_action = [], ho_extra_tracking = [] \<rparr>,
     \<lparr> ho_pat = SuffixHost ''.myshopify.com'', ho_when_path_contains = [], ho_preserve = [],
       ho_exempt_action = [],
       ho_extra_tracking = [''_pos'', ''_psq'', ''_ss'', ''_sid'', ''_v'', ''_fid'', ''_fd''] \<rparr>]"

definition gov_tld_suffixes :: "string list" where
  "gov_tld_suffixes = [''.gov'', ''.gov.uk'', ''.mil'', ''europa.eu'']"

subsection \<open>Configuration\<close>

definition canon_key :: "string \<Rightarrow> string" where
  "canon_key k = map (\<lambda>c. if c = CHR ''-'' then CHR ''_'' else c) (to_ascii_lowercase k)"

definition canon_override :: "host_override \<Rightarrow> host_override" where
  "canon_override e =
    e\<lparr> ho_preserve := map canon_key (ho_preserve e), ho_exempt_action := map canon_key (ho_exempt_action e),
       ho_extra_tracking := map canon_key (ho_extra_tracking e) \<rparr>"

record request_overrides =
  ro_strip_tracking :: "bool option"
  ro_drop_actions :: "bool option"
  ro_coarse_strip_all :: "bool option"
  ro_extra_tracking :: "string list option"
  ro_extra_action :: "string list option"
  ro_preserve :: "string list option"

record url_filter_cfg =
  uf_strip_tracking :: bool
  uf_drop_actions :: bool
  uf_coarse_strip_all :: bool
  uf_gov_tld_drop_actions :: bool
  uf_tracking_params :: "string set"
  uf_action_params :: "string set"
  uf_preserve_params :: "string set"
  uf_host_overrides :: "host_override list"

definition defaults_on :: url_filter_cfg where
  "defaults_on =
    \<lparr> uf_strip_tracking = True, uf_drop_actions = True, uf_coarse_strip_all = False,
      uf_gov_tld_drop_actions = False, uf_tracking_params = {}, uf_action_params = {},
      uf_preserve_params = {}, uf_host_overrides = map canon_override default_host_overrides \<rparr>"

record map_url_filter_config =
  mf_strip_tracking_params :: bool
  mf_drop_action_urls :: bool
  mf_gov_tld_drop_actions :: bool
  mf_extra_tracking_params :: "string list"
  mf_extra_action_params :: "string list"
  mf_extra_preserve_params :: "string list"

definition from_map_config :: "map_url_filter_config \<Rightarrow> url_filter_cfg" where
  "from_map_config cfg =
    \<lparr> uf_strip_tracking = mf_strip_tracking_params cfg, uf_drop_actions = mf_drop_action_urls cfg,
      uf_coarse_strip_all = False, uf_gov_tld_drop_actions = mf_gov_tld_drop_actions cfg,
      uf_tracking_params = set (map canon_key (mf_extra_tracking_params cfg)),
      uf_action_params = set (map canon_key (mf_extra_action_params cfg)),
      uf_preserve_params = set (map canon_key (mf_extra_preserve_params cfg)),
      uf_host_overrides = map canon_override default_host_overrides \<rparr>"

definition insert_keys :: "string list option \<Rightarrow> string set \<Rightarrow> string set" where
  "insert_keys extra ks = (case extra of Some es \<Rightarrow> ks \<union> set (map canon_key es) | None \<Rightarrow> ks)"

definition with_overrides :: "url_filter_cfg \<Rightarrow> request_overrides \<Rightarrow> url_filter_cfg" where
  "with_overrides cfg ov =
    (case ro_coarse_strip_all ov of
       Some coarse \<Rightarrow>
         if coarse then cfg\<lparr> uf_coarse_strip_all := True \<rparr>
         else cfg\<lparr> uf_coarse_strip_all := False, uf_strip_tracking := False, uf_drop_actions := False \<rparr>
     | None \<Rightarrow>
         cfg\<lparr> uf_strip_tracking := (case ro_strip_tracking ov of Some v \<Rightarrow> v | None \<Rightarrow> uf_strip_tracking cfg),
              uf_drop_actions := (case ro_drop_actions ov of Some v \<Rightarrow> v | None \<Rightarrow> uf_drop_actions cfg),
              uf_tracking_params := insert_keys (ro_extra_tracking ov) (uf_tracking_params cfg),
              uf_action_params := insert_keys (ro_extra_action ov) (uf_action_params cfg),
              uf_preserve_params := insert_keys (ro_preserve ov) (uf_preserve_params cfg) \<rparr>)"

definition filter_off :: url_filter_cfg where
  "filter_off =
    \<lparr> uf_strip_tracking = False, uf_drop_actions = False, uf_coarse_strip_all = False,
      uf_gov_tld_drop_actions = False, uf_tracking_params = {}, uf_action_params = {},
      uf_preserve_params = {}, uf_host_overrides = [] \<rparr>"

subsection \<open>Filtering\<close>

definition tail_matches :: "string \<Rightarrow> string \<Rightarrow> bool" where
  "tail_matches host suf =
    (length suf < length host \<and> eq_ignore_ascii_case (drop (length host - length suf) host) suf)"

definition is_gov_host :: "string \<Rightarrow> bool" where
  "is_gov_host host =
    list_ex (\<lambda>suf. case strip_prefix ''.'' suf of
        Some stripped \<Rightarrow> eq_ignore_ascii_case host stripped \<or> tail_matches host suf
      | None \<Rightarrow> eq_ignore_ascii_case host suf \<or> tail_matches host (''.'' @ suf))
      gov_tld_suffixes"

record parsed_link =
  pl_host :: "string option"
  pl_path :: string
  pl_query :: "string option"
  pl_text :: "string option \<Rightarrow> string"

definition query_pairs :: "string \<Rightarrow> (string \<times> string) list" where
  "query_pairs q =
    map (\<lambda>p. (canon_key (case find_char (\<lambda>c. c = CHR ''='') p of Some i \<Rightarrow> take i p | None \<Rightarrow> p), p))
      (filter (\<lambda>s. s \<noteq> []) (split_char (CHR ''&'') q))"

definition link_host :: "parsed_link \<Rightarrow> string" where
  "link_host u = to_ascii_lowercase (case pl_host u of Some h \<Rightarrow> h | None \<Rightarrow> [])"

definition active_overrides :: "url_filter_cfg \<Rightarrow> parsed_link \<Rightarrow> host_override list" where
  "active_overrides cfg u =
    filter (\<lambda>ov. host_pat_matches (ho_pat ov) (link_host u)
        \<and> (ho_when_path_contains ov = [] \<or> list_ex (contains_str (pl_path u)) (ho_when_path_contains ov)))
      (uf_host_overrides cfg)"

definition gathered :: "(host_override \<Rightarrow> string list) \<Rightarrow> host_override list \<Rightarrow> string set" where
  "gathered f ovs = set (concat (map f ovs))"

definition preserved_key :: "url_filter_cfg \<Rightarrow> parsed_link \<Rightarrow> string \<Rightarrow> bool" where
  "preserved_key cfg u k =
    (k \<in> uf_preserve_params cfg \<or> k \<in> gathered ho_preserve (active_overrides cfg u) \<or> k \<in> set always_preserve)"

definition drops_on :: "url_filter_cfg \<Rightarrow> parsed_link \<Rightarrow> string \<Rightarrow> bool" where
  "drops_on cfg u k =
    (\<not> preserved_key cfg u k \<and> k \<notin> gathered ho_exempt_action (active_overrides cfg u)
     \<and> (k \<in> uf_action_params cfg \<or> k \<in> set default_action_params))"

definition tracking_key :: "url_filter_cfg \<Rightarrow> parsed_link \<Rightarrow> string \<Rightarrow> bool" where
  "tracking_key cfg u k =
    (k \<in> uf_tracking_params cfg \<or> k \<in> set default_tracking_params
     \<or> k \<in> gathered ho_extra_tracking (active_overrides cfg u))"

definition rebuild :: "(string \<Rightarrow> string) \<Rightarrow> parsed_link \<Rightarrow> string list \<Rightarrow> string" where
  "rebuild lower u kept =
    normalize_url lower (pl_text u (if kept = [] then None else Some (join_with ''&'' kept)))"

definition filter_and_normalize_parsed ::
    "(string \<Rightarrow> string) \<Rightarrow> parsed_link \<Rightarrow> string \<Rightarrow> url_filter_cfg \<Rightarrow> string option" where
  "filter_and_normalize_parsed lower u raw cfg =
    (case pl_query u of
       None \<Rightarrow> Some (normalize_url lower raw)
     | Some query \<Rightarrow>
         if \<not> uf_coarse_strip_all cfg \<and> \<not> uf_strip_tracking cfg \<and> \<not> uf_drop_actions cfg
         then Some (normalize_url lower raw)
         else
           let pairs = query_pairs query
           in if uf_drop_actions cfg \<and> (uf_gov_tld_drop_actions cfg \<or> \<not> is_gov_host (link_host u))
                 \<and> list_ex (\<lambda>(k, p). drops_on cfg u k) pairs
              then None
              else if uf_coarse_strip_all cfg then
                Some (rebuild lower u (map snd (filter (\<lambda>(k, p). preserved_key cfg u k) pairs)))
              else if uf_strip_tracking cfg then
                Some (rebuild lower u
                  (map snd (filter (\<lambda>(k, p). preserved_key cfg u k \<or> \<not> tracking_key cfg u k) pairs)))
              else Some (normalize_url lower raw))"

definition filter_and_normalize_raw ::
    "(string \<Rightarrow> string) \<Rightarrow> (string \<Rightarrow> parsed_link option) \<Rightarrow> string \<Rightarrow> url_filter_cfg \<Rightarrow> string option" where
  "filter_and_normalize_raw lower parse url cfg =
    (if uf_coarse_strip_all cfg \<or> uf_strip_tracking cfg \<or> uf_drop_actions cfg then
       if CHR ''?'' \<notin> set url then Some (normalize_url lower url)
       else (case parse url of
               None \<Rightarrow> Some (normalize_url lower url)
             | Some u \<Rightarrow> filter_and_normalize_parsed lower u url cfg)
     else Some (normalize_url lower url))"

subsection \<open>The tables\<close>

text \<open>
  What the tests of the tables check: keys are canonical, no key is in two tables where that would be
  ambiguous, and suffix patterns start with a dot.
\<close>

lemma tables_are_consistent:
  "list_all (\<lambda>k. canon_key k = k) (default_action_params @ default_tracking_params @ always_preserve)"
  "list_all (\<lambda>k. k \<notin> set default_tracking_params \<and> k \<notin> set always_preserve) default_action_params"
  "list_all (\<lambda>ov. case ho_pat ov of SuffixHost s \<Rightarrow> prefix ''.'' s | _ \<Rightarrow> True) default_host_overrides"
  "distinct default_action_params" "distinct default_tracking_params" "distinct always_preserve"
  by code_simp+

text \<open>A host is suppressed exactly when it is one of the domains or lies under one.\<close>

lemma tail_matches_iff:
  "tail_matches host suf \<longleftrightarrow> (\<exists>x. x \<noteq> [] \<and> to_ascii_lowercase host = x @ to_ascii_lowercase suf)"
proof
  assume t: "tail_matches host suf"
  let ?n = "length host - length suf"
  have "to_ascii_lowercase host = to_ascii_lowercase (take ?n host) @ to_ascii_lowercase (drop ?n host)"
    by (metis append_take_drop_id to_ascii_lowercase_append)
  moreover have "to_ascii_lowercase (drop ?n host) = to_ascii_lowercase suf"
    using t by (simp add: tail_matches_def eq_ignore_ascii_case_def)
  moreover have "to_ascii_lowercase (take ?n host) \<noteq> []"
    using t by (auto simp: tail_matches_def to_ascii_lowercase_def)
  ultimately show "\<exists>x. x \<noteq> [] \<and> to_ascii_lowercase host = x @ to_ascii_lowercase suf" by metis
next
  assume "\<exists>x. x \<noteq> [] \<and> to_ascii_lowercase host = x @ to_ascii_lowercase suf"
  then obtain x where x: "x \<noteq> []" "to_ascii_lowercase host = x @ to_ascii_lowercase suf" by blast
  then have n: "length host = length x + length suf" by (metis length_append length_to_ascii_lowercase)
  have "to_ascii_lowercase (drop (length x) host) = drop (length x) (to_ascii_lowercase host)"
    by (simp add: to_ascii_lowercase_def drop_map)
  then show "tail_matches host suf" using x n by (simp add: tail_matches_def eq_ignore_ascii_case_def)
qed

lemma gov_host_is_subdomain:
  "is_gov_host host \<longleftrightarrow>
    (\<exists>d \<in> {''gov'', ''gov.uk'', ''mil'', ''europa.eu''}.
       to_ascii_lowercase host = d \<or> (\<exists>x. x \<noteq> [] \<and> to_ascii_lowercase host = x @ ''.'' @ d))"
proof -
  have low: "to_ascii_lowercase ''gov'' = ''gov''" "to_ascii_lowercase ''gov.uk'' = ''gov.uk''"
    "to_ascii_lowercase ''mil'' = ''mil''" "to_ascii_lowercase ''europa.eu'' = ''europa.eu''"
    "to_ascii_lowercase ''.gov'' = ''.gov''" "to_ascii_lowercase ''.gov.uk'' = ''.gov.uk''"
    "to_ascii_lowercase ''.mil'' = ''.mil''" "to_ascii_lowercase ''.europa.eu'' = ''.europa.eu''"
    by code_simp+
  have strip: "strip_prefix ''.'' ''.gov'' = Some ''gov''" "strip_prefix ''.'' ''.gov.uk'' = Some ''gov.uk''"
    "strip_prefix ''.'' ''.mil'' = Some ''mil''" "strip_prefix ''.'' ''europa.eu'' = None"
    by (simp_all add: strip_prefix_def)
  show ?thesis
    unfolding is_gov_host_def gov_tld_suffixes_def
    by (simp add: strip tail_matches_iff eq_ignore_ascii_case_def low)
qed

subsection \<open>Filtering twice\<close>

lemma query_pair_parts:
  assumes "(k, p) \<in> set (query_pairs q)"
  shows "p \<noteq> [] \<and> CHR ''&'' \<notin> set p"
    "k = canon_key (case find_char (\<lambda>c. c = CHR ''='') p of Some i \<Rightarrow> take i p | None \<Rightarrow> p)"
  using assms split_char_parts [of _ "CHR ''&''" q] by (auto simp: query_pairs_def)

lemma pairs_of_kept:
  assumes "filter P (query_pairs q) \<noteq> []"
  shows "query_pairs (join_with ''&'' (map snd (filter P (query_pairs q)))) = filter P (query_pairs q)"
proof -
  let ?kept = "map snd (filter P (query_pairs q))"
  have parts: "\<forall>p \<in> set ?kept. p \<noteq> [] \<and> CHR ''&'' \<notin> set p"
    using query_pair_parts(1) [of _ _ q] by fastforce
  then have "split_char (CHR ''&'') (join_with ''&'' ?kept) = ?kept"
    using assms by (intro split_join_char) auto
  moreover have "filter (\<lambda>s. s \<noteq> []) ?kept = ?kept" using parts by (auto intro: filter_True)
  moreover have "map (\<lambda>p. (canon_key (case find_char (\<lambda>c. c = CHR ''='') p of Some i \<Rightarrow> take i p | None \<Rightarrow> p), p)) ?kept
      = filter P (query_pairs q)"
    unfolding map_map
  proof (rule map_idI)
    fix kp
    assume "kp \<in> set (filter P (query_pairs q))"
    then have "(fst kp, snd kp) \<in> set (query_pairs q)" by simp
    from query_pair_parts(2) [OF this]
    show "((\<lambda>p. (canon_key (case find_char (\<lambda>c. c = CHR ''='') p of Some i \<Rightarrow> take i p | None \<Rightarrow> p), p)) \<circ> snd) kp = kp"
      by (simp add: prod_eq_iff)
  qed
  ultimately show ?thesis by (simp add: query_pairs_def)
qed

text \<open>The parameters the configuration leaves in the query.\<close>

definition keeps_key :: "url_filter_cfg \<Rightarrow> parsed_link \<Rightarrow> string \<Rightarrow> bool" where
  "keeps_key cfg u k =
    (if uf_coarse_strip_all cfg then preserved_key cfg u k
     else preserved_key cfg u k \<or> \<not> tracking_key cfg u k)"

lemma filter_strips:
  assumes "pl_query u = Some q" "uf_coarse_strip_all cfg \<or> uf_strip_tracking cfg"
  shows "filter_and_normalize_parsed lower u raw cfg =
    (if uf_drop_actions cfg \<and> (uf_gov_tld_drop_actions cfg \<or> \<not> is_gov_host (link_host u))
        \<and> list_ex (\<lambda>(k, p). drops_on cfg u k) (query_pairs q)
     then None
     else Some (rebuild lower u (map snd (filter (\<lambda>(k, p). keeps_key cfg u k) (query_pairs q)))))"
proof (cases "uf_coarse_strip_all cfg")
  case True
  then show ?thesis using assms by (simp add: filter_and_normalize_parsed_def keeps_key_def Let_def)
next
  case False
  then show ?thesis using assms by (simp add: filter_and_normalize_parsed_def keeps_key_def Let_def)
qed

lemma same_link_sets [simp]:
  "link_host (u\<lparr> pl_query := q \<rparr>) = link_host u"
  "active_overrides cfg (u\<lparr> pl_query := q \<rparr>) = active_overrides cfg u"
  "preserved_key cfg (u\<lparr> pl_query := q \<rparr>) k = preserved_key cfg u k"
  "tracking_key cfg (u\<lparr> pl_query := q \<rparr>) k = tracking_key cfg u k"
  "drops_on cfg (u\<lparr> pl_query := q \<rparr>) k = drops_on cfg u k"
  "keeps_key cfg (u\<lparr> pl_query := q \<rparr>) k = keeps_key cfg u k"
  "rebuild lower (u\<lparr> pl_query := q \<rparr>) ps = rebuild lower u ps"
  by (simp_all add: link_host_def active_overrides_def preserved_key_def tracking_key_def drops_on_def keeps_key_def
      rebuild_def)

text \<open>
  C40. The filter settles: what it keeps of a query is a subsequence of the parameters, each with its
  text untouched and none of them one the configuration strips, and filtering the link it rebuilt
  changes nothing more and never drops it.
\<close>

theorem filter_settles:
  assumes "pl_query u = Some q" "uf_coarse_strip_all cfg \<or> uf_strip_tracking cfg"
    and "filter_and_normalize_parsed lower u raw cfg = Some t"
  shows "\<exists>kept. subseq kept (map snd (query_pairs q)) \<and> t = rebuild lower u kept
    \<and> list_all (\<lambda>(k, p). keeps_key cfg u k \<longleftrightarrow> p \<in> set kept) (query_pairs q)
    \<and> filter_and_normalize_parsed lower (u\<lparr> pl_query := (if kept = [] then None else Some (join_with ''&'' kept)) \<rparr>) t cfg
      = Some (if kept = [] then normalize_url lower t else t)"
proof -
  let ?pairs = "query_pairs q" and ?P = "\<lambda>(k, p). keeps_key cfg u k"
  let ?kept = "map snd (filter ?P ?pairs)"
  let ?drop = "uf_drop_actions cfg \<and> (uf_gov_tld_drop_actions cfg \<or> \<not> is_gov_host (link_host u))"
  have t: "t = rebuild lower u ?kept" "\<not> (?drop \<and> list_ex (\<lambda>(k, p). drops_on cfg u k) ?pairs)"
    using assms(3) filter_strips [OF assms(1,2), of lower raw] by (auto split: if_splits)
  have "list_all (\<lambda>(k, p). keeps_key cfg u k \<longleftrightarrow> p \<in> set ?kept) ?pairs"
  proof (unfold list_all_iff, safe)
    fix k p
    assume kp: "(k, p) \<in> set ?pairs"
    show "p \<in> set ?kept" if "keeps_key cfg u k" using kp that by force
    assume "p \<in> set ?kept"
    then obtain k' where "(k', p) \<in> set ?pairs" "keeps_key cfg u k'" by auto
    then show "keeps_key cfg u k" using query_pair_parts(2) [OF kp] query_pair_parts(2) [of k' p q] by simp
  qed
  moreover have "filter_and_normalize_parsed lower
      (u\<lparr> pl_query := (if ?kept = [] then None else Some (join_with ''&'' ?kept)) \<rparr>) t cfg
    = Some (if ?kept = [] then normalize_url lower t else t)"
  proof (cases "?kept = []")
    case True
    then show ?thesis by (simp add: filter_and_normalize_parsed_def)
  next
    case False
    let ?u = "u\<lparr> pl_query := Some (join_with ''&'' ?kept) \<rparr>"
    have pairs: "query_pairs (join_with ''&'' ?kept) = filter ?P ?pairs" using False by (intro pairs_of_kept) simp
    have "\<not> (?drop \<and> list_ex (\<lambda>(k, p). drops_on cfg u k) (filter ?P ?pairs))"
      using t(2) by (auto simp: list_ex_iff)
    then have "filter_and_normalize_parsed lower ?u t cfg = Some (rebuild lower u ?kept)"
      by (subst filter_strips [where q = "join_with ''&'' ?kept"]) (use assms(2) pairs in auto)
    then show ?thesis using False t(1) by simp
  qed
  moreover have "subseq ?kept (map snd ?pairs)" by (intro subseq_map subseq_filter_left)
  ultimately show ?thesis using t(1) by blast
qed

text \<open>
  A key that is always preserved is kept although the request asks to drop links that carry it,
  against the comment on \<open>ALWAYS_PRESERVE\<close>, by which the first tier still runs for it.
\<close>

lemma preserved_key_is_not_dropped:
  "\<not> drops_on (with_overrides defaults_on
      \<lparr> ro_strip_tracking = None, ro_drop_actions = None, ro_coarse_strip_all = None, ro_extra_tracking = None,
         ro_extra_action = Some [''category''], ro_preserve = None \<rparr>) u ''category''"
  by (simp add: drops_on_def preserved_key_def always_preserve_def)

definition demo_link :: parsed_link where
  "demo_link = \<lparr> pl_host = Some ''h'', pl_path = ''/'', pl_query = Some ''a=1&utm_source=x&p=2'',
     pl_text = (\<lambda>q. case q of Some s \<Rightarrow> ''http://h/?'' @ s | None \<Rightarrow> ''http://h/'') \<rparr>"

theorem filter_settles_witness:
  "\<exists>kept t. filter_and_normalize_parsed to_ascii_lowercase demo_link ''raw'' defaults_on = Some t
    \<and> t = ''http://h/?a=1&p=2'' \<and> subseq kept (map snd (query_pairs ''a=1&utm_source=x&p=2''))
    \<and> t = rebuild to_ascii_lowercase demo_link kept"
proof -
  have t: "filter_and_normalize_parsed to_ascii_lowercase demo_link ''raw'' defaults_on = Some ''http://h/?a=1&p=2''"
    by code_simp
  have "pl_query demo_link = Some ''a=1&utm_source=x&p=2''" "uf_strip_tracking defaults_on"
    by (simp_all add: demo_link_def defaults_on_def)
  then show ?thesis using filter_settles [OF _ _ t] t by blast
qed

end
