(* ===== verification/Verdict.thy ===== *)
theory Verdict
  imports Antibot Crawl Renderer
begin

section \<open>What a fetched page is: walls, parked domains, warnings\<close>

text \<open>
  The judgements of \<open>crates/crw-crawl/src/single.rs\<close> about a fetched page, shared by the single
  scrape and the crawl: \<open>classify_block\<close> and \<open>classify_error_page_wall\<close> name the wall a page is,
  \<open>looks_like_parked_domain\<close> a placeholder, \<open>derive_target_warning\<close> the warning of a response, and
  \<open>escalate_for_quality\<close> and \<open>accept_js_escalation\<close> decide on a second render. The URL parser, the
  captures of the placeholder pattern and the conversion of HTML to markdown are arguments.
\<close>

record page_url =
  pu_host :: "string option"
  pu_path :: string

text \<open>
  \<open>vd_tokens\<close> are the first groups of the matches of \<open>DOMAIN_PLACEHOLDER\<close>; \<open>vd_markdown\<close> is
  \<open>html_to_markdown\<close> of the cleaned HTML, or of the HTML itself where cleaning fails.
\<close>

record verdict_env =
  vd_lib :: text_lib
  vd_parse :: "string \<Rightarrow> page_url option"
  vd_tokens :: "string \<Rightarrow> string list"
  vd_markdown :: "string \<Rightarrow> string"

subsection \<open>Parked domains\<close>

definition parked_max_body_bytes :: nat where
  "parked_max_body_bytes = 16 * 1024"

definition strip_www :: "string \<Rightarrow> string" where
  "strip_www h = (case strip_prefix ''www.'' h of Some r \<Rightarrow> r | None \<Rightarrow> h)"

definition normalized_host :: "verdict_env \<Rightarrow> string \<Rightarrow> string option" where
  "normalized_host env url =
    (case vd_parse env url of
       None \<Rightarrow> None
     | Some u \<Rightarrow> map_option (\<lambda>h. strip_www (to_ascii_lowercase h)) (pu_host u))"

definition known_hosts :: "verdict_env \<Rightarrow> string \<Rightarrow> string option \<Rightarrow> string list" where
  "known_hosts env requested final_url =
    List.map_filter (normalized_host env) (requested # (case final_url of Some u \<Rightarrow> [u] | None \<Rightarrow> []))"

definition looks_like_parked_domain :: "verdict_env \<Rightarrow> string \<Rightarrow> string \<Rightarrow> string option \<Rightarrow> bool" where
  "looks_like_parked_domain env markdown requested final_url =
    (if parked_max_body_bytes < length markdown then False
     else
       let hosts = known_hosts env requested final_url
       in if hosts = [] then False
          else list_ex (\<lambda>token. strip_www token \<in> set hosts)
                 (vd_tokens env (to_lower (vd_lib env) (prefix_within markdown 40960))))"

subsection \<open>Walls\<close>

definition cf_strong_markers :: "string list" where
  "cf_strong_markers =
    [''_cf_chl_opt'', ''cf-challenge-running'', ''cf-browser-verification'', ''__cf_chl_managed_tk__'']"

definition quoted :: "string \<Rightarrow> string" where
  "quoted s = [CHR 0x22] @ s @ [CHR 0x22]"

definition cf_error_span :: string where
  "cf_error_span = ''<span class='' @ quoted ''cf-error-code'' @ ''>''"

definition cf_block_headline :: string where
  "cf_block_headline = ''data-translate='' @ quoted ''block_headline''"

text \<open>The markers that are looked for whatever else the page holds.\<close>

definition strong_marker :: "string \<Rightarrow> block_outcome option" where
  "strong_marker html =
    (if contains_any html cf_strong_markers then
       Some \<lparr> block_vendor = ''cloudflare'', block_reason = ''cloudflare challenge interstitial'' \<rparr>
     else if contains_str html ''report this error to the Wikimedia System Administrators'' then
       Some \<lparr> block_vendor = ''generic_block'', block_reason = ''wikimedia datacenter-ip block'' \<rparr>
     else if contains_str html ''blocked by network security'' \<and> contains_str html ''log in to your Reddit account'' then
       Some \<lparr> block_vendor = ''network_security'', block_reason = ''blocked by network security'' \<rparr>
     else if contains_str html cf_error_span \<and> contains_str html ''you have been blocked'' then
       Some \<lparr> block_vendor = ''cloudflare'', block_reason = ''cloudflare block page (cf-error-code)'' \<rparr>
     else if contains_str html ''cf-error-details'' \<and> contains_str html cf_block_headline then
       Some \<lparr> block_vendor = ''cloudflare'', block_reason = ''cloudflare block page (cf-error-details)'' \<rparr>
     else if contains_str html ''Vercel Security Checkpoint''
          \<and> (contains_str html ''verifying your browser'' \<or> contains_str html ''Failed to verify your browser'') then
       Some \<lparr> block_vendor = ''vercel'', block_reason = ''Vercel security checkpoint'' \<rparr>
     else None)"

definition outcome_of :: "antibot_result \<Rightarrow> block_outcome" where
  "outcome_of r = \<lparr> block_vendor = class_name (ab_signal r), block_reason = ab_reason r \<rparr>"

definition substantial :: "nat \<Rightarrow> string \<Rightarrow> bool" where
  "substantial threshold md = (threshold \<le> length (trim md))"

definition classified_wall ::
    "verdict_env \<Rightarrow> nat \<Rightarrow> string option \<Rightarrow> string \<Rightarrow> string option \<Rightarrow> nat \<Rightarrow> block_outcome option" where
  "classified_wall env status content_type html markdown threshold =
    (let r = classify (vd_lib env) (Some status) html
     in if \<not> is_blocked (ab_signal r) then None
        else if markdown = None \<and> substantial threshold (vd_markdown env html) then None
        else if ab_signal r = SigStructuralFailure \<and> \<not> is_html_like_content_type content_type then None
        else Some (outcome_of r))"

definition classify_block ::
    "verdict_env \<Rightarrow> nat \<Rightarrow> string option \<Rightarrow> string \<Rightarrow> string option \<Rightarrow> nat \<Rightarrow> string \<Rightarrow> string option
      \<Rightarrow> block_outcome option" where
  "classify_block env status content_type html markdown threshold requested final_url =
    (if (case content_type of Some c \<Rightarrow> contains_str c ''pdf'' | None \<Rightarrow> False) then None
     else if status = 407 \<and> html = [] then None
     else case strong_marker html of
       Some b \<Rightarrow> Some b
     | None \<Rightarrow>
         if (case markdown of Some md \<Rightarrow> looks_like_parked_domain env md requested final_url | None \<Rightarrow> False)
         then Some \<lparr> block_vendor = parked_domain_vendor, block_reason = ''parked domain / placeholder page'' \<rparr>
         else if (case markdown of Some md \<Rightarrow> substantial threshold md | None \<Rightarrow> False) then None
         else classified_wall env status content_type html markdown threshold)"

definition classify_error_page_wall :: "verdict_env \<Rightarrow> nat \<Rightarrow> string \<Rightarrow> block_outcome option" where
  "classify_error_page_wall env status html =
    (let r = classify (vd_lib env) (Some status) html
     in if \<not> is_blocked (ab_signal r) \<or> ab_signal r = SigStructuralFailure then None else Some (outcome_of r))"

subsection \<open>Warnings\<close>

definition block_interstitial_markers :: "string list" where
  "block_interstitial_markers =
    [''just a moment'', ''attention required'', ''cf-browser-verification'', ''cf-challenge'',
     ''captcha-delivery.com'', ''datadome captcha'', ''px-captcha'', ''_px3='', ''_abck='', ''ak-challenge'']"

text \<open>The scan limit of 128 KiB is above the size limit, so the whole page is lower-cased.\<close>

definition detect_block_interstitial :: "text_lib \<Rightarrow> string \<Rightarrow> string option" where
  "detect_block_interstitial lib html =
    (if 50000 < length html then None
     else if contains_any (to_lower lib (prefix_within html (128 * 1024))) block_interstitial_markers
     then Some ''Blocked by anti-bot protection''
     else None)"

definition canonical_status_text :: "nat \<Rightarrow> string" where
  "canonical_status_text s =
    (if s = 400 then ''Bad Request'' else if s = 401 then ''Unauthorized''
     else if s = 403 then ''Forbidden'' else if s = 404 then ''Not Found''
     else if s = 405 then ''Method Not Allowed'' else if s = 408 then ''Request Timeout''
     else if s = 410 then ''Gone'' else if s = 429 then ''Too Many Requests''
     else if s = 451 then ''Unavailable For Legal Reasons'' else if s = 500 then ''Internal Server Error''
     else if s = 502 then ''Bad Gateway'' else if s = 503 then ''Service Unavailable''
     else if s = 504 then ''Gateway Timeout'' else ''Error'')"

definition derive_target_warning :: "text_lib \<Rightarrow> 'm fetch_result \<Rightarrow> string option" where
  "derive_target_warning lib r =
    (case detect_block_interstitial lib (fr_html r) of
       Some block \<Rightarrow>
         Some (case fr_warning r of
                 Some w \<Rightarrow> if prefix js_escalation_failed w then block @ ''; '' @ w else block
               | None \<Rightarrow> block)
     | None \<Rightarrow>
         if fr_warning r \<noteq> None then fr_warning r
         else if 400 \<le> fr_status r then
           Some (''Target returned '' @ dec_digits (fr_status r) @ '' '' @ canonical_status_text (fr_status r))
         else None)"

subsection \<open>Redirects\<close>

definition redirect_is_material :: "verdict_env \<Rightarrow> string \<Rightarrow> string \<Rightarrow> bool" where
  "redirect_is_material env requested final_url =
    (case vd_parse env requested of
       None \<Rightarrow> False
     | Some req \<Rightarrow>
         (case vd_parse env final_url of
            None \<Rightarrow> False
          | Some fin \<Rightarrow>
              if pu_host req \<noteq> pu_host fin then True
              else trim_end_char (CHR ''/'') (pu_path req) \<noteq> [] \<and> trim_end_char (CHR ''/'') (pu_path fin) = []))"

definition is_empty_truncated_render :: "bool \<Rightarrow> output_format list \<Rightarrow> string option \<Rightarrow> bool" where
  "is_empty_truncated_render truncated formats markdown =
    (truncated \<and> FmtMarkdown \<in> set formats \<and> (case markdown of Some m \<Rightarrow> trim m = [] | None \<Rightarrow> True))"

subsection \<open>A second render\<close>

definition is_json_type :: "string option \<Rightarrow> bool" where
  "is_json_type content_type =
    (case content_type of
       Some ct \<Rightarrow> eq_ignore_ascii_case (trim (hd (split_char (CHR '';'') ct))) ''application/json''
     | None \<Rightarrow> False)"

definition escalate_for_quality ::
    "text_lib \<Rightarrow> bool \<Rightarrow> bool \<Rightarrow> nat \<Rightarrow> string \<Rightarrow> string option \<Rightarrow> bool" where
  "escalate_for_quality lib md_is_byte_thin md_is_low_quality status html content_type =
    (if md_is_byte_thin \<or> \<not> md_is_low_quality \<or> length html \<le> 5000 then False
     else if \<not> is_json_type content_type then True
     else is_blocked (ab_signal (classify lib (Some status) html)))"

text \<open>
  Scores are single-precision numbers, held as rationals; \<open>fadd\<close> is the addition of the type, and
  the literal 0.05 is the nearest such number.
\<close>

definition score_margin :: rat where
  "score_margin = 13421773 / 268435456"

definition accept_js_escalation ::
    "(rat \<Rightarrow> rat \<Rightarrow> rat) \<Rightarrow> nat \<Rightarrow> bool \<Rightarrow> rat \<Rightarrow> nat \<Rightarrow> rat \<Rightarrow> nat \<Rightarrow> bool" where
  "accept_js_escalation fadd prior_md_len prior_was_thin prior_score js_md_len js_score retry_threshold =
    (if prior_was_thin then prior_md_len < js_md_len
     else retry_threshold \<le> js_md_len \<and> fadd prior_score score_margin < js_score)"

end
