(* ===== verification/Scrape_Request.thy ===== *)
theory Scrape_Request
  imports Scrape_Data Diff Render_Types
begin

section \<open>Scrape requests and their configuration\<close>

text \<open>
  \<open>ScrapeRequest\<close> of \<open>crates/crw-core/src/types.rs\<close> with the types of its fields, and the parts of
  \<open>crates/crw-core/src/config.rs\<close> a scrape reads: \<open>LlmConfig\<close>, \<open>ExtractionConfig\<close>. Left out are the
  country of the proxy, which only the browser driver reads, the debug switch and the deadline in
  milliseconds, which arrives as a \<open>deadline\<close>. Header maps are association lists.
\<close>

datatype chunk_strategy =
    SentenceChunks "nat option" "nat option" "bool option"
  | RegexChunks string "nat option" "nat option" "bool option"
  | TopicChunks "nat option" "nat option" "bool option"

datatype filter_mode = Bm25 | Cosine

datatype requested_renderer =
    AutoRenderer
  | LightpandaRenderer
  | ChromeRenderer
  | ChromeProxyRenderer
  | PlaywrightRenderer
  | CamofoxRenderer
  | ImpersonatedHttpRenderer

fun pinned_name :: "requested_renderer \<Rightarrow> string option" where
  "pinned_name AutoRenderer = None"
| "pinned_name LightpandaRenderer = Some ''lightpanda''"
| "pinned_name ChromeRenderer = Some ''chrome''"
| "pinned_name ChromeProxyRenderer = Some ''chrome_proxy''"
| "pinned_name PlaywrightRenderer = Some ''playwright''"
| "pinned_name CamofoxRenderer = Some ''camofox''"
| "pinned_name ImpersonatedHttpRenderer = Some ''impersonated-http''"

definition implies_js :: "requested_renderer \<Rightarrow> bool" where
  "implies_js r = (r \<noteq> ImpersonatedHttpRenderer \<and> r \<noteq> AutoRenderer)"

definition resolve_pinned_renderer :: "requested_renderer option \<Rightarrow> string option" where
  "resolve_pinned_renderer req = (case req of Some r \<Rightarrow> pinned_name r | None \<Rightarrow> None)"

record parser_spec =
  prs_type :: string
  prs_mode :: "string option"
  prs_max_pages :: "nat option"

record scrape_request =
  sr_url :: string
  sr_formats :: "output_format list"
  sr_only_main_content :: "bool option"
  sr_render_js :: "bool option"
  sr_wait_for :: "nat option"
  sr_include_tags :: "string list"
  sr_exclude_tags :: "string list"
  sr_json_schema :: "json option"
  sr_headers :: "(string \<times> string) list"
  sr_css_selector :: "string option"
  sr_xpath :: "string option"
  sr_chunk_strategy :: "chunk_strategy option"
  sr_query :: "string option"
  sr_filter_mode :: "filter_mode option"
  sr_top_k :: "nat option"
  sr_proxy :: "string option"
  sr_stealth :: "bool option"
  sr_actions :: "json option"
  sr_extract_schema :: "json option option"
  sr_llm_api_key :: "string option"
  sr_llm_provider :: "string option"
  sr_llm_model :: "string option"
  sr_base_url :: "string option"
  sr_summary_prompt :: "string option"
  sr_max_content_chars :: "nat option"
  sr_renderer :: "requested_renderer option"
  sr_change_tracking :: "change_tracking_options option"
  sr_goal :: "string option"
  sr_judge_enabled :: "bool option"
  sr_parsers :: "parser_spec list option"
  sr_max_age :: "nat option"
  sr_store_in_cache :: "bool option"

subsection \<open>Configuration\<close>

record llm_settings =
  ls_provider :: string
  ls_api_key :: string
  ls_model :: string
  ls_base_url :: "string option"
  ls_max_tokens :: nat
  ls_azure_api_version :: "string option"
  ls_max_concurrency :: nat
  ls_max_html_bytes :: nat
  ls_require_byok_header :: "string option"
  ls_temperature :: "rat option"
  ls_reasoning_effort :: "string option"
  ls_timeout_ms :: nat

definition llm_settings_default :: llm_settings where
  "llm_settings_default =
    \<lparr> ls_provider = ''anthropic'', ls_api_key = [], ls_model = ''claude-sonnet-4-6'', ls_base_url = None,
      ls_max_tokens = 4096, ls_azure_api_version = None, ls_max_concurrency = 4, ls_max_html_bytes = 100000,
      ls_require_byok_header = None, ls_temperature = None, ls_reasoning_effort = None,
      ls_timeout_ms = 60000 \<rparr>"

record llm_fallback_config =
  lf_enable :: bool
  lf_quality_threshold :: rat
  lf_max_html_bytes :: nat
  lf_always_run :: bool

record extraction_config =
  ec_only_main_content :: bool
  ec_llm :: "llm_settings option"
  ec_domain_selectors :: "(string \<times> string) list"
  ec_llm_fallback :: llm_fallback_config
  ec_http_retry_threshold :: nat
  ec_lightpanda_retry_threshold :: nat

text \<open>The caller's own key, over the server's settings or the defaults.\<close>

definition build_byok_llm_config :: "scrape_request \<Rightarrow> llm_settings option \<Rightarrow> llm_settings option" where
  "build_byok_llm_config req server =
    (case sr_llm_api_key req of
       None \<Rightarrow> None
     | Some key \<Rightarrow>
         (let cfg0 = (case server of Some s \<Rightarrow> s | None \<Rightarrow> llm_settings_default);
              cfg1 = cfg0\<lparr> ls_api_key := key \<rparr>;
              cfg2 = (case sr_llm_provider req of Some p \<Rightarrow> cfg1\<lparr> ls_provider := p \<rparr> | None \<Rightarrow> cfg1);
              cfg3 = (case sr_llm_model req of Some m \<Rightarrow> cfg2\<lparr> ls_model := m \<rparr> | None \<Rightarrow> cfg2)
          in Some (case sr_base_url req of Some b \<Rightarrow> cfg3\<lparr> ls_base_url := Some b \<rparr> | None \<Rightarrow> cfg3)))"

text \<open>The schema of structured extraction: the request's own, or that of its \<open>extract\<close> object.\<close>

definition effective_schema :: "scrape_request \<Rightarrow> json option" where
  "effective_schema req =
    (case sr_json_schema req of
       Some s \<Rightarrow> Some s
     | None \<Rightarrow> (case sr_extract_schema req of Some s \<Rightarrow> s | None \<Rightarrow> None))"

subsection \<open>PDF parsers\<close>

definition pdf_parse_requested :: "scrape_request \<Rightarrow> bool" where
  "pdf_parse_requested req =
    (case sr_parsers req of
       None \<Rightarrow> True
     | Some [] \<Rightarrow> False
     | Some ps \<Rightarrow> list_ex (\<lambda>p. eq_ignore_ascii_case (prs_type p) ''pdf'') ps)"

definition pdf_spec :: "scrape_request \<Rightarrow> parser_spec option" where
  "pdf_spec req =
    (case sr_parsers req of
       None \<Rightarrow> None
     | Some ps \<Rightarrow> find (\<lambda>p. eq_ignore_ascii_case (prs_type p) ''pdf'') ps)"

definition pdf_max_pages :: "scrape_request \<Rightarrow> nat option" where
  "pdf_max_pages req = (case pdf_spec req of Some p \<Rightarrow> prs_max_pages p | None \<Rightarrow> None)"

definition pdf_mode :: "scrape_request \<Rightarrow> string option" where
  "pdf_mode req =
    (case pdf_spec req of Some p \<Rightarrow> map_option to_ascii_lowercase (prs_mode p) | None \<Rightarrow> None)"

text \<open>The own key of a caller never changes the server's limits.\<close>

lemma byok_keeps_server_limits:
  assumes "build_byok_llm_config req (Some s) = Some c"
  shows "ls_max_concurrency c = ls_max_concurrency s \<and> ls_max_tokens c = ls_max_tokens s
    \<and> ls_max_html_bytes c = ls_max_html_bytes s \<and> ls_require_byok_header c = ls_require_byok_header s
    \<and> ls_timeout_ms c = ls_timeout_ms s"
  using assms by (auto simp: build_byok_llm_config_def Let_def split: option.splits)

end
