(* ===== verification/Llm_Usage.thy ===== *)
theory Llm_Usage
  imports Prelude Rust_Str
begin

section \<open>The usage of model calls\<close>

text \<open>
  \<open>LlmUsage\<close> of \<open>crates/crw-core/src/types.rs\<close>: what a call of a language model consumed, folded over
  the calls of a request. Counters are 32 bits wide and saturate. Costs are double-precision numbers,
  held as rationals; \<open>fadd\<close> is the addition of the type.
\<close>

record llm_usage =
  lu_input :: nat
  lu_output :: nat
  lu_total :: nat
  lu_cost :: "rat option"
  lu_model :: string
  lu_provider :: string
  lu_cache_hit :: "nat option"
  lu_cache_miss :: "nat option"
  lu_truncated :: bool
  lu_calls :: nat
  lu_executed_summaries :: nat
  lu_answer_executed :: bool

definition sum_opt :: "nat option \<Rightarrow> nat option \<Rightarrow> nat option" where
  "sum_opt a b =
    (case a of
       Some x \<Rightarrow> Some (case b of Some y \<Rightarrow> sat_add_u32 x y | None \<Rightarrow> x)
     | None \<Rightarrow> b)"

definition or_zero :: "nat option \<Rightarrow> nat" where
  "or_zero x = (case x of Some n \<Rightarrow> n | None \<Rightarrow> 0)"

definition merge_usage :: "(rat \<Rightarrow> rat \<Rightarrow> rat) \<Rightarrow> llm_usage \<Rightarrow> llm_usage \<Rightarrow> llm_usage" where
  "merge_usage fadd a b =
    a\<lparr> lu_input := sat_add_u32 (lu_input a) (lu_input b),
       lu_output := sat_add_u32 (lu_output a) (lu_output b),
       lu_total := sat_add_u32 (lu_total a) (lu_total b),
       lu_calls := sat_add_u32 (lu_calls a) (max (lu_calls b) 1),
       lu_executed_summaries := sat_add_u32 (lu_executed_summaries a) (lu_executed_summaries b),
       lu_answer_executed := (lu_answer_executed a \<or> lu_answer_executed b),
       lu_truncated := (lu_truncated a \<or> lu_truncated b),
       lu_cache_hit := sum_opt (lu_cache_hit a) (lu_cache_hit b),
       lu_cache_miss :=
         (case lu_cache_miss a of
            Some x \<Rightarrow>
              (case lu_cache_miss b of
                 Some y \<Rightarrow> Some (sat_add_u32 x y)
               | None \<Rightarrow> Some (sat_add_u32 x (lu_input b - or_zero (lu_cache_hit b))))
          | None \<Rightarrow>
              (case lu_cache_miss b of
                 Some y \<Rightarrow> Some (sat_add_u32 (lu_input a - or_zero (lu_cache_hit a)) y)
               | None \<Rightarrow> None)),
       lu_cost :=
         (case lu_cost a of
            Some x \<Rightarrow> Some (case lu_cost b of Some y \<Rightarrow> fadd x y | None \<Rightarrow> x)
          | None \<Rightarrow> lu_cost b) \<rparr>"

definition accumulate_usage ::
    "(rat \<Rightarrow> rat \<Rightarrow> rat) \<Rightarrow> llm_usage option \<Rightarrow> llm_usage option \<Rightarrow> llm_usage option" where
  "accumulate_usage fadd slot other =
    (case other of
       None \<Rightarrow> slot
     | Some b \<Rightarrow> (case slot of Some a \<Rightarrow> Some (merge_usage fadd a b) | None \<Rightarrow> Some b))"

subsection \<open>Nothing is lost\<close>

text \<open>What a biller reads: the tokens that came from no cache, explicit or derived.\<close>

definition uncached_input :: "llm_usage \<Rightarrow> nat" where
  "uncached_input u = (case lu_cache_miss u of Some m \<Rightarrow> m | None \<Rightarrow> lu_input u - or_zero (lu_cache_hit u))"

lemma sat_add_u32_exact: "a + b \<le> u32_max \<Longrightarrow> sat_add_u32 a b = a + b"
  by (simp add: sat_add_u32_def)

lemma or_zero_sum_opt:
  "or_zero a + or_zero b \<le> u32_max \<Longrightarrow> or_zero (sum_opt a b) = or_zero a + or_zero b"
  by (auto simp: or_zero_def sum_opt_def sat_add_u32_exact split: option.splits)

text \<open>A merge bills each leg its uncached tokens, whichever of them reports its cache.\<close>

lemma merge_bills_each_leg:
  assumes "lu_input a + lu_input b \<le> u32_max" "uncached_input a + uncached_input b \<le> u32_max"
    and "or_zero (lu_cache_hit a) \<le> lu_input a" "or_zero (lu_cache_hit b) \<le> lu_input b"
  shows "lu_input (merge_usage fadd a b) = lu_input a + lu_input b
    \<and> uncached_input (merge_usage fadd a b) = uncached_input a + uncached_input b"
proof -
  have hits: "or_zero (sum_opt (lu_cache_hit a) (lu_cache_hit b)) = or_zero (lu_cache_hit a) + or_zero (lu_cache_hit b)"
    using assms by (intro or_zero_sum_opt) simp
  show ?thesis
  proof (cases "lu_cache_miss a")
    case ma: None
    show ?thesis
    proof (cases "lu_cache_miss b")
      case None
      then show ?thesis using assms hits ma by (simp add: merge_usage_def uncached_input_def sat_add_u32_exact)
    next
      case (Some y)
      then show ?thesis using assms ma by (simp add: merge_usage_def uncached_input_def sat_add_u32_exact)
    qed
  next
    case ma: (Some x)
    show ?thesis
    proof (cases "lu_cache_miss b")
      case None
      then show ?thesis using assms ma by (simp add: merge_usage_def uncached_input_def sat_add_u32_exact)
    next
      case (Some y)
      then show ?thesis using assms ma by (simp add: merge_usage_def uncached_input_def sat_add_u32_exact)
    qed
  qed
qed

text \<open>The number of model calls behind a usage: at least one, whatever a leg reports.\<close>

definition usage_calls :: "llm_usage option \<Rightarrow> nat" where
  "usage_calls u = (case u of Some x \<Rightarrow> lu_calls x | None \<Rightarrow> 0)"

definition leg_tokens :: "llm_usage option \<Rightarrow> nat" where
  "leg_tokens u = (case u of Some x \<Rightarrow> lu_input x | None \<Rightarrow> 0)"

lemma accumulate_tokens:
  "leg_tokens (accumulate_usage fadd s u) = min u32_max (leg_tokens s + leg_tokens u)"
  if "leg_tokens s \<le> u32_max" "leg_tokens u \<le> u32_max"
  using that by (auto simp: accumulate_usage_def leg_tokens_def merge_usage_def sat_add_u32_def split: option.splits)

text \<open>Folding the legs of a request in order adds their tokens up, to the width of the counter.\<close>

lemma fold_tokens:
  assumes "leg_tokens s \<le> u32_max" "\<forall>u \<in> set us. leg_tokens u \<le> u32_max"
  shows "leg_tokens (fold (\<lambda>u s. accumulate_usage fadd s u) us s)
    = min u32_max (leg_tokens s + sum_list (map leg_tokens us))"
  using assms
proof (induction us arbitrary: s)
  case (Cons u us)
  have s: "leg_tokens (accumulate_usage fadd s u) = min u32_max (leg_tokens s + leg_tokens u)"
    using Cons.prems by (intro accumulate_tokens) auto
  then show ?case using Cons.IH [of "accumulate_usage fadd s u"] Cons.prems(2) by simp
qed simp

end
