(* ===== verification/Pdf_Doc.thy ===== *)
theory Pdf_Doc
  imports Scrape_Request Llm_Usage
begin

section \<open>PDF documents\<close>

text \<open>
  \<open>crates/crw-crawl/src/pdf.rs\<close> and the error type of \<open>crates/crw-extract/src/pdf.rs\<close>: the outcome of
  a parse, in the process or in a sandboxed child, becomes a scraped document. The parser itself,
  the chunking of text and the ranking of chunks are arguments.
\<close>

record pdf_extract =
  px_markdown :: string
  px_plain_text :: string
  px_page_count :: nat
  px_title :: "string option"
  px_is_scanned :: bool
  px_warnings :: "string list"

definition pdf_extract_default :: pdf_extract where
  "pdf_extract_default =
    \<lparr> px_markdown = [], px_plain_text = [], px_page_count = 0, px_title = None, px_is_scanned = False,
      px_warnings = [] \<rparr>"

datatype pdf_error = Encrypted | NotAPdf | Corrupt string | Disabled | PdfTimeout | TooLarge

fun pdf_code :: "pdf_error \<Rightarrow> string" where
  "pdf_code Encrypted = ''pdf_encrypted''"
| "pdf_code NotAPdf = ''pdf_not_a_pdf''"
| "pdf_code (Corrupt d) = ''pdf_parse_failed''"
| "pdf_code Disabled = ''pdf_disabled''"
| "pdf_code PdfTimeout = ''pdf_timeout''"
| "pdf_code TooLarge = ''pdf_too_large''"

definition from_code :: "string \<Rightarrow> pdf_error" where
  "from_code code =
    (if code = ''pdf_encrypted'' then Encrypted
     else if code = ''pdf_not_a_pdf'' then NotAPdf
     else if code = ''pdf_disabled'' then Disabled
     else if code = ''pdf_timeout'' then PdfTimeout
     else if code = ''pdf_too_large'' then TooLarge
     else Corrupt ''sandbox worker reported failure'')"

fun pdf_text :: "pdf_error \<Rightarrow> string" where
  "pdf_text Encrypted = ''pdf_encrypted: password-protected PDFs are not supported''"
| "pdf_text NotAPdf = ''pdf_not_a_pdf: bytes are not a valid PDF''"
| "pdf_text (Corrupt d) = ''pdf_parse_failed: '' @ d"
| "pdf_text Disabled = ''pdf_disabled: PDF support not compiled in''"
| "pdf_text PdfTimeout = ''pdf_timeout: parse exceeded the time budget''"
| "pdf_text TooLarge =
    ''pdf_too_large: document decompresses beyond the allowed size (possible decompression bomb)''"

definition pdf_error_to_crw :: "pdf_error \<Rightarrow> crw_error" where
  "pdf_error_to_crw e = (if e = NotAPdf then InvalidRequest (pdf_text e) else ExtractionError (pdf_text e))"

subsection \<open>The parse\<close>

definition effective_max_pages :: "nat option \<Rightarrow> nat \<Rightarrow> nat option" where
  "effective_max_pages req_max cap =
    (case req_max of
       Some r \<Rightarrow> if cap = 0 then Some r else Some (min r cap)
     | None \<Rightarrow> if cap = 0 then None else Some cap)"

datatype worker_exit = ExitedOk | ExitedWith int | Signalled nat

definition classify_worker_exit :: "worker_exit \<Rightarrow> pdf_error" where
  "classify_worker_exit s =
    (if s = Signalled 6 \<or> s = Signalled 9 then TooLarge
     else if s = Signalled 24 then PdfTimeout
     else Corrupt ''sandbox worker exited abnormally'')"

text \<open>What a child process does: it is killed at the end of the budget, or it exits and leaves its
  output, already decoded by the JSON library.\<close>

datatype worker_output = NoJson string | Extracted "string + pdf_extract" | ReportedFailure "string option"

definition parse_worker_output :: "worker_output \<Rightarrow> pdf_error + pdf_extract" where
  "parse_worker_output out =
    (case out of
       NoJson e \<Rightarrow> Inl (Corrupt (''sandbox: bad worker output: '' @ e))
     | Extracted (Inl e) \<Rightarrow> Inl (Corrupt (''sandbox: decode extract: '' @ e))
     | Extracted (Inr x) \<Rightarrow> Inr x
     | ReportedFailure code \<Rightarrow> Inl (from_code (case code of Some c \<Rightarrow> c | None \<Rightarrow> [])))"

datatype worker_run = SpawnFailed string | OutOfTime | WaitFailed string | Finished worker_exit worker_output

definition parse_in_subprocess :: "worker_run \<Rightarrow> pdf_error + pdf_extract" where
  "parse_in_subprocess run =
    (case run of
       SpawnFailed e \<Rightarrow> Inl (Corrupt (''sandbox: spawn: '' @ e))
     | OutOfTime \<Rightarrow> Inl PdfTimeout
     | WaitFailed e \<Rightarrow> Inl (Corrupt (''sandbox: io: '' @ e))
     | Finished ExitedOk out \<Rightarrow> parse_worker_output out
     | Finished s out \<Rightarrow> Inl (classify_worker_exit s))"

record parse_limits =
  pl_timeout :: "duration option"
  pl_max_pages_cap :: nat
  pl_max_decompressed_bytes :: nat
  pl_sandbox :: bool

definition parse_limits_default :: parse_limits where
  "parse_limits_default =
    \<lparr> pl_timeout = Some (from_millis 30000), pl_max_pages_cap = 0, pl_max_decompressed_bytes = 104857600,
      pl_sandbox = False \<rparr>"

record document_config =
  dcf_max_concurrent_parses :: nat
  dcf_parse_timeout_ms :: nat
  dcf_max_pages :: nat
  dcf_max_decompressed_bytes :: nat
  dcf_sandbox :: bool

text \<open>The process-wide cell: the first configuration wins.\<close>

definition configure_limits :: "document_config \<Rightarrow> parse_limits option \<Rightarrow> parse_limits option" where
  "configure_limits cfg cell =
    (case cell of
       Some l \<Rightarrow> Some l
     | None \<Rightarrow> Some
         \<lparr> pl_timeout = (if 0 < dcf_parse_timeout_ms cfg then Some (from_millis (dcf_parse_timeout_ms cfg)) else None),
           pl_max_pages_cap = dcf_max_pages cfg,
           pl_max_decompressed_bytes = dcf_max_decompressed_bytes cfg, pl_sandbox = dcf_sandbox cfg \<rparr>)"

datatype blocking_run = BlockingOutOfTime | JoinFailed string | Parsed "pdf_error + pdf_extract"

text \<open>The parser on a thread of the process, or in a child, given the page and decompression caps and
  the budget.\<close>

record pdf_engine =
  pe_blocking :: "string \<Rightarrow> bool \<Rightarrow> nat option \<Rightarrow> nat \<Rightarrow> duration option \<Rightarrow> blocking_run"
  pe_child :: "string \<Rightarrow> bool \<Rightarrow> nat option \<Rightarrow> nat \<Rightarrow> duration option \<Rightarrow> worker_run"

definition run_parse ::
    "pdf_engine \<Rightarrow> parse_limits \<Rightarrow> string \<Rightarrow> bool \<Rightarrow> nat option \<Rightarrow> pdf_error + pdf_extract" where
  "run_parse eng lm bytes want_plaintext max_pages =
    (let pages = effective_max_pages max_pages (pl_max_pages_cap lm);
         bomb = pl_max_decompressed_bytes lm
     in if pl_sandbox lm then parse_in_subprocess (pe_child eng bytes want_plaintext pages bomb (pl_timeout lm))
        else case pe_blocking eng bytes want_plaintext pages bomb (pl_timeout lm) of
               Parsed r \<Rightarrow> r
             | JoinFailed e \<Rightarrow> Inl (Corrupt (''parse task failed: '' @ e))
             | BlockingOutOfTime \<Rightarrow> Inl PdfTimeout)"

subsection \<open>The document\<close>

record pdf_source =
  psrc_url :: string
  psrc_status :: nat
  psrc_elapsed_ms :: nat
  psrc_filename :: "string option"

record chunk_lib =
  cl_chunk_text :: "string \<Rightarrow> chunk_strategy \<Rightarrow> string list"
  cl_filter_scored :: "string list \<Rightarrow> string \<Rightarrow> filter_mode \<Rightarrow> nat \<Rightarrow> chunk_result list"

definition compute_chunks :: "chunk_lib \<Rightarrow> string \<Rightarrow> scrape_request \<Rightarrow> chunk_result list option" where
  "compute_chunks lib markdown req =
    (case sr_chunk_strategy req of
       None \<Rightarrow> None
     | Some strategy \<Rightarrow>
         if trim markdown = [] then None
         else
           (let raw = cl_chunk_text lib markdown strategy
            in if raw = [] then None
               else
                 (let plain = map (\<lambda>(i, c). \<lparr> chunk_content = c, chunk_score = None, chunk_index = i \<rparr>)
                                (enumerate 0 raw);
                      results =
                        (case (sr_query req, sr_filter_mode req) of
                           (Some q, Some mode) \<Rightarrow>
                             if trim q \<noteq> []
                             then cl_filter_scored lib raw q mode (case sr_top_k req of Some k \<Rightarrow> k | None \<Rightarrow> 5)
                             else (case sr_top_k req of Some k \<Rightarrow> take k plain | None \<Rightarrow> plain)
                         | _ \<Rightarrow> (case sr_top_k req of Some k \<Rightarrow> take k plain | None \<Rightarrow> plain))
                  in if results = [] then None else Some results)))"

definition wants_markdown :: "scrape_request \<Rightarrow> bool" where
  "wants_markdown req =
    (FmtMarkdown \<in> set (sr_formats req) \<or> FmtJson \<in> set (sr_formats req) \<or> FmtSummary \<in> set (sr_formats req))"

definition build_pdf_data ::
    "chunk_lib \<Rightarrow> pdf_extract \<Rightarrow> scrape_request \<Rightarrow> pdf_source \<Rightarrow> llm_usage scrape_data" where
  "build_pdf_data lib extract req source =
    (let w0 = px_warnings extract;
         w1 = (if pdf_mode req = Some ''ocr''
               then w0 @ [''pdf_ocr_unsupported: parsers mode 'ocr' requested but OCR is not available; '' @
                          ''returned text-layer extraction only'']
               else w0);
         chunks = (if wants_markdown req then compute_chunks lib (px_markdown extract) req else None);
         wants_links = (FmtLinks \<in> set (sr_formats req));
         w2 = (if wants_links
               then w1 @ [''pdf_links_unavailable: link extraction is not supported for PDF sources''] else w1)
     in scrape_data_default\<lparr>
          sd_markdown := (if wants_markdown req then Some (px_markdown extract) else None),
          sd_plain_text := (if FmtPlainText \<in> set (sr_formats req) then Some (px_plain_text extract) else None),
          sd_links := (if wants_links then Some [] else None),
          sd_chunks := chunks, sd_warnings := w2, sd_source_url := psrc_url source,
          sd_status := psrc_status source, sd_content_type := Some ''application/pdf'' \<rparr>)"

text \<open>A failed parse of a fetched page is a document without content and with a warning; an upload is
  refused.\<close>

definition convert_pdf_bytes ::
    "chunk_lib \<Rightarrow> pdf_engine \<Rightarrow> parse_limits \<Rightarrow> string \<Rightarrow> scrape_request \<Rightarrow> pdf_source
       \<Rightarrow> llm_usage scrape_data" where
  "convert_pdf_bytes lib eng lm bytes req source =
    (case run_parse eng lm bytes (FmtPlainText \<in> set (sr_formats req)) (pdf_max_pages req) of
       Inr extract \<Rightarrow> build_pdf_data lib extract req source
     | Inl err \<Rightarrow>
         (let data = build_pdf_data lib pdf_extract_default req source
          in data\<lparr> sd_warnings := sd_warnings data @ [pdf_text err], sd_warning := Some (pdf_text err) \<rparr>))"

definition convert_pdf_bytes_strict ::
    "chunk_lib \<Rightarrow> pdf_engine \<Rightarrow> parse_limits \<Rightarrow> string \<Rightarrow> scrape_request \<Rightarrow> pdf_source
       \<Rightarrow> (crw_error \<times> pdf_error) + llm_usage scrape_data" where
  "convert_pdf_bytes_strict lib eng lm bytes req source =
    (case run_parse eng lm bytes (FmtPlainText \<in> set (sr_formats req)) (pdf_max_pages req) of
       Inr extract \<Rightarrow> Inr (build_pdf_data lib extract req source)
     | Inl err \<Rightarrow> Inl (pdf_error_to_crw err, err))"

text \<open>An error survives the pipe of the sandbox, its detail apart.\<close>

lemma from_code_of_code: "from_code (pdf_code e) = e \<or> (\<exists>d. e = Corrupt d)"
  by (cases e) (simp_all add: from_code_def)

text \<open>A request cannot raise the page cap of the server.\<close>

lemma page_cap_holds: "cap \<noteq> 0 \<Longrightarrow> \<exists>n. effective_max_pages r cap = Some n \<and> n \<le> cap"
  by (auto simp: effective_max_pages_def split: option.split)

end
