(* ===== verification/Scrape_Single.thy ===== *)
theory Scrape_Single
  imports Verdict Pdf_Doc Page_Cache Http_Tier Url_Safety
begin

section \<open>Scraping a page\<close>

text \<open>
  \<open>scrape_url\<close> of \<open>crates/crw-crawl/src/single.rs\<close>: validation, the page cache, the fetch through the
  renderer or a client of its own, the conversion to a document, a second render where the first was
  too thin, the verdict, the commit to the cache, and the calls of the language model. The renderer
  is that of \<open>Renderer\<close>, the client that of \<open>Http_Tier\<close>, the cache that of \<open>Page_Cache\<close>, change
  tracking that of \<open>Diff\<close>. The extraction of HTML, the quality score, the PDF parser and the model
  calls are functions of the environment; a call of the model gets its number, so that it need not
  answer the same twice. Log lines, metrics and the debug trace are left out.
\<close>

subsection \<open>State and environment\<close>

text \<open>\<open>OwnedExtractInput\<close>: what the extraction of HTML is given.\<close>

record extract_input =
  xi_raw_html :: string
  xi_content_type :: "string option"
  xi_source_url :: string
  xi_status :: nat
  xi_rendered_with :: "string option"
  xi_elapsed_ms :: nat
  xi_render_decision :: "render_decision option"
  xi_credit_cost :: nat
  xi_warnings :: "string list"
  xi_formats :: "output_format list"
  xi_only_main_content :: bool
  xi_include_tags :: "string list"
  xi_exclude_tags :: "string list"
  xi_css_selector :: "string option"
  xi_xpath :: "string option"
  xi_chunk_strategy :: "chunk_strategy option"
  xi_query :: "string option"
  xi_filter_mode :: "filter_mode option"
  xi_top_k :: "nat option"
  xi_domain_selectors :: "(string \<times> string) list"
  xi_captured :: "captured_response list"

text \<open>The document with the fields of \<open>ScrapeData\<close> that only a single scrape fills.\<close>

record scraped =
  sx_data :: "llm_usage scrape_data"
  sx_final_url :: "string option"
  sx_cached :: bool
  sx_truncated :: bool
  sx_tracking :: "change_tracking_result option"

datatype model_leg = FallbackLeg | StructuredLeg | SummaryLeg | TrackingLeg | JudgeLeg

record model_call =
  ml_leg :: model_leg
  ml_usage :: "llm_usage option"

record dispatch =
  dp_temp :: bool
  dp_render_js :: "bool option"
  dp_requested :: "string option"

record scrape_world =
  zw_world :: world
  zw_http :: http_world
  zw_cache :: "render_decision option page_cache"
  zw_dispatches :: "dispatch list"
  zw_models :: "model_call list"

text \<open>\<open>se_meanwhile\<close> is what other requests do to the page cache during a fetch; \<open>se_client\<close> the
  client built for a user agent and a proxy; \<open>se_ua_index\<close> the random index into the pool.\<close>

record single_env =
  se_ladder :: ladder_env
  se_renderer :: renderer
  se_verdict :: verdict_env
  se_settings :: page_settings
  se_parse_url :: "string \<Rightarrow> url option"
  se_dns :: resolver
  se_allow_loopback :: bool
  se_base_url_error :: "llm_url_error \<Rightarrow> string"
  se_proxy_error :: "string \<Rightarrow> string option"
  se_env_var :: "string \<Rightarrow> string option"
  se_proxy_parses :: "string \<Rightarrow> bool"
  se_client :: "string \<Rightarrow> string option \<Rightarrow> http_env"
  se_ua_index :: nat
  se_meanwhile :: "nat \<Rightarrow> render_decision option page_cache \<Rightarrow> render_decision option page_cache"
  se_extract :: "extract_input \<Rightarrow> crw_error + llm_usage scrape_data"
  se_pdf :: pdf_engine
  se_pdf_limits :: parse_limits
  se_chunks :: chunk_lib
  se_quality :: "string \<Rightarrow> rat"
  se_low_quality :: "string \<Rightarrow> bool"
  se_fadd32 :: "rat \<Rightarrow> rat \<Rightarrow> rat"
  se_fadd64 :: "rat \<Rightarrow> rat \<Rightarrow> rat"
  se_llm_extract :: "nat \<Rightarrow> string \<Rightarrow> llm_settings \<Rightarrow> nat \<Rightarrow> string option"
  se_structured :: "nat \<Rightarrow> string \<Rightarrow> json \<Rightarrow> llm_settings \<Rightarrow> crw_error + (json \<times> llm_usage option)"
  se_summarize :: "nat \<Rightarrow> string \<Rightarrow> llm_settings \<Rightarrow> string option \<Rightarrow> nat option
    \<Rightarrow> crw_error + (string \<times> llm_usage option \<times> string option)"
  se_judge :: "nat \<Rightarrow> string \<Rightarrow> string option \<Rightarrow> json option \<Rightarrow> llm_settings
    \<Rightarrow> crw_error + (change_judgment \<times> llm_usage option)"
  se_diff :: diff_env

record server =
  sv_llm :: "llm_settings option"
  sv_extraction :: extraction_config
  sv_user_agent :: string
  sv_default_stealth :: bool
  sv_render_js_default :: "bool option"

definition read_time :: "single_env \<Rightarrow> scrape_world \<Rightarrow> instant \<times> scrape_world" where
  "read_time env w = (let (t, w1) = read_clock (se_ladder env) (zw_world w) in (t, w\<lparr> zw_world := w1 \<rparr>))"

definition budget_left :: "single_env \<Rightarrow> deadline \<Rightarrow> scrape_world \<Rightarrow> duration \<times> scrape_world" where
  "budget_left env d w = (let (t, w1) = read_time env w in (remaining d t, w1))"

text \<open>A call of the model, with the usage it reports.\<close>

definition note_call :: "model_leg \<Rightarrow> llm_usage option \<Rightarrow> scrape_world \<Rightarrow> scrape_world" where
  "note_call leg u w = w\<lparr> zw_models := zw_models w @ [\<lparr> ml_leg = leg, ml_usage = u \<rparr>] \<rparr>"

abbreviation calls_made :: "scrape_world \<Rightarrow> nat" where
  "calls_made w \<equiv> length (zw_models w)"

subsection \<open>The request\<close>

definition validate_scrape_template :: "scrape_request \<Rightarrow> crw_error option" where
  "validate_scrape_template req =
    (if sr_actions req \<noteq> None then
       Some (InvalidRequest
         ''The 'actions' parameter is not yet supported. Use cssSelector or xpath for element targeting.'')
     else if sr_renderer req = Some ImpersonatedHttpRenderer \<and> sr_render_js req = Some True then
       Some (InvalidRequest
         ''renderer 'impersonated-http' never executes JS; remove renderJs:true (or omit it)'')
     else None)"

definition validate_byok_base_url :: "single_env \<Rightarrow> scrape_request \<Rightarrow> crw_error option" where
  "validate_byok_base_url env req =
    (case (sr_base_url req, sr_llm_api_key req) of
       (Some base, Some key) \<Rightarrow>
         (case validate_llm_base_url (se_parse_url env) (se_dns env) (se_allow_loopback env) base of
            Inl e \<Rightarrow> Some (InvalidRequest (''baseUrl: '' @ se_base_url_error env e))
          | Inr _ \<Rightarrow> None)
     | _ \<Rightarrow> None)"

definition inject_stealth :: "server \<Rightarrow> scrape_request \<Rightarrow> bool" where
  "inject_stealth sv req = (case sr_stealth req of Some s \<Rightarrow> s | None \<Rightarrow> sv_default_stealth sv)"

definition pin_implies_js :: "scrape_request \<Rightarrow> bool" where
  "pin_implies_js req = (case sr_renderer req of Some r \<Rightarrow> implies_js r | None \<Rightarrow> False)"

definition pinned :: "scrape_request \<Rightarrow> string option" where
  "pinned req = resolve_pinned_renderer (sr_renderer req)"

definition js_asked :: "scrape_request \<Rightarrow> bool option" where
  "js_asked req = (if pin_implies_js req \<and> sr_render_js req = None then Some True else sr_render_js req)"

definition effective_js :: "server \<Rightarrow> scrape_request \<Rightarrow> bool option" where
  "effective_js sv req = resolve_render_js (js_asked req) (sv_render_js_default sv)"

definition js_renderer_names :: "renderer \<Rightarrow> string list" where
  "js_renderer_names rd = map tier_name (rd_js rd)"

definition available_renderer_names :: "renderer \<Rightarrow> string list" where
  "available_renderer_names rd =
    (if rd_impersonated rd \<noteq> None then [''impersonated-http''] else []) @ js_renderer_names rd"

definition lightpanda_escalation_target :: "renderer \<Rightarrow> string option" where
  "lightpanda_escalation_target rd = find (\<lambda>n. n \<noteq> ''lightpanda'') (js_renderer_names rd)"

definition check_pin :: "renderer \<Rightarrow> server \<Rightarrow> scrape_request \<Rightarrow> crw_error option" where
  "check_pin rd sv req =
    (case pinned req of
       None \<Rightarrow> None
     | Some name \<Rightarrow>
         if (effective_js sv req \<noteq> Some False \<or> \<not> pin_implies_js req)
            \<and> name \<notin> set (available_renderer_names rd)
         then Some (InvalidRequest
           (''renderer '' @ [CHR 0x27] @ name @ [CHR 0x27] @ '' not available; configured renderers: [''
            @ join_with '', '' (available_renderer_names rd)
            @ '']. Update server config or omit the 'renderer' field.''))
         else None)"

definition needs_temp_fetcher :: "server \<Rightarrow> scrape_request \<Rightarrow> bool" where
  "needs_temp_fetcher sv req =
    (sr_proxy req \<noteq> None \<or> (case sr_stealth req of Some s \<Rightarrow> s \<noteq> sv_default_stealth sv | None \<Rightarrow> False))"

definition check_proxy :: "single_env \<Rightarrow> scrape_request \<Rightarrow> crw_error option" where
  "check_proxy env req =
    (case sr_proxy req of
       Some p \<Rightarrow> if trim p \<noteq> [] then map_option InvalidRequest (se_proxy_error env p) else None
     | None \<Rightarrow> None)"

definition check_request :: "single_env \<Rightarrow> server \<Rightarrow> scrape_request \<Rightarrow> crw_error option" where
  "check_request env sv req =
    (case validate_scrape_template req of
       Some e \<Rightarrow> Some e
     | None \<Rightarrow>
         (case validate_byok_base_url env req of
            Some e \<Rightarrow> Some e
          | None \<Rightarrow>
              (case check_pin (se_renderer env) sv req of
                 Some e \<Rightarrow> Some e
               | None \<Rightarrow> check_proxy env req)))"

subsection \<open>The page cache\<close>

definition cacheable :: "single_env \<Rightarrow> server \<Rightarrow> scrape_request \<Rightarrow> bool" where
  "cacheable env sv req =
    (effective_max_age (se_settings env) (sr_max_age req) \<noteq> 0 \<and> FmtChangeTracking \<notin> set (sr_formats req)
     \<and> sr_headers req = [] \<and> \<not> needs_temp_fetcher sv req)"

definition may_escalate :: "single_env \<Rightarrow> server \<Rightarrow> scrape_request \<Rightarrow> bool" where
  "may_escalate env sv req =
    (effective_js sv req \<noteq> Some False \<and> \<not> needs_temp_fetcher sv req
     \<and> js_renderer_names (se_renderer env) \<noteq> [] \<and> FmtMarkdown \<in> set (sr_formats req))"

definition cache_key :: "single_env \<Rightarrow> server \<Rightarrow> scrape_request \<Rightarrow> string option" where
  "cache_key env sv req =
    (if cacheable env sv req then
       Some (build_key \<lparr> ki_url = sr_url req, ki_render_js = js_asked req, ki_wait_for = sr_wait_for req,
         ki_renderer_pin = pinned req, ki_user_agent = sv_user_agent sv,
         ki_may_escalate = may_escalate env sv req \<rparr>)
     else None)"

definition bucket_of :: "duration \<Rightarrow> nat" where
  "bucket_of left = budget_bucket (as_millis left mod 2 ^ 64)"

definition cached_fetch ::
    "single_env \<Rightarrow> server \<Rightarrow> scrape_request \<Rightarrow> nat \<Rightarrow> scrape_world \<Rightarrow> fetched option \<times> scrape_world" where
  "cached_fetch env sv req bucket w =
    (case cache_key env sv req of
       None \<Rightarrow> (None, w)
     | Some key \<Rightarrow>
         (let (started, w1) = read_time env w;
              (now, w2) = read_time env w1;
              (after, w3) = read_time env w2
          in (page_lookup now (as_millis (since after started) mod 2 ^ 64) key
                (effective_max_age (se_settings env) (sr_max_age req)) bucket (zw_cache w3), w3)))"

subsection \<open>The fetch\<close>

definition builtin_ua_pool :: "string list" where
  "builtin_ua_pool =
    [''Mozilla/5.0 (Windows NT 10.0; Win64; x64) AppleWebKit/537.36 (KHTML, like Gecko) Chrome/150.0.0.0 Safari/537.36'',
     ''Mozilla/5.0 (Macintosh; Intel Mac OS X 10_15_7) AppleWebKit/537.36 (KHTML, like Gecko) Chrome/150.0.0.0 Safari/537.36'',
     ''Mozilla/5.0 (X11; Linux x86_64) AppleWebKit/537.36 (KHTML, like Gecko) Chrome/150.0.0.0 Safari/537.36'',
     ''Mozilla/5.0 (Windows NT 10.0; Win64; x64; rv:140.0) Gecko/20100101 Firefox/140.0'',
     ''Mozilla/5.0 (Macintosh; Intel Mac OS X 15_5) AppleWebKit/605.1.15 (KHTML, like Gecko) Version/18.5 Safari/605.1.15'']"

definition effective_ua :: "single_env \<Rightarrow> server \<Rightarrow> scrape_request \<Rightarrow> string" where
  "effective_ua env sv req =
    (if inject_stealth sv req then builtin_ua_pool ! (se_ua_index env mod length builtin_ua_pool)
     else sv_user_agent sv)"

text \<open>What every fetch leaves behind: its mark in the log, and the cache as others left it.\<close>

definition note_dispatch :: "single_env \<Rightarrow> dispatch \<Rightarrow> scrape_world \<Rightarrow> scrape_world" where
  "note_dispatch env dp w =
    w\<lparr> zw_cache := se_meanwhile env (length (zw_dispatches w)) (zw_cache w),
       zw_dispatches := zw_dispatches w @ [dp] \<rparr>"

definition via_renderer ::
    "single_env \<Rightarrow> js_request \<Rightarrow> bool option \<Rightarrow> scrape_world \<Rightarrow> ((crw_error + fetched) \<times> scrape_world) option" where
  "via_renderer env jr js w =
    (case fetch (se_ladder env) (se_renderer env) jr js (zw_world w) of
       None \<Rightarrow> None
     | Some (res, w1) \<Rightarrow>
         Some (res, note_dispatch env \<lparr> dp_temp = False, dp_render_js = js, dp_requested = jr_requested jr \<rparr>
           (w\<lparr> zw_world := w1 \<rparr>)))"

text \<open>A client of the request's own shares the egress memory of the process.\<close>

definition fetch_temp ::
    "single_env \<Rightarrow> server \<Rightarrow> scrape_request \<Rightarrow> deadline \<Rightarrow> scrape_world \<Rightarrow> (crw_error + fetched) \<times> scrape_world" where
  "fetch_temp env sv req d w =
    (let hf = fetcher_with_timeout (se_env_var env) (se_proxy_parses env) (sr_proxy req) (inject_stealth sv req);
         h0 = (zw_http w)\<lparr> hw_egress := sh_egress (w_shared (zw_world w)) \<rparr>;
         (res, h1) = fetch_http (se_client env (effective_ua env sv req) (sr_proxy req)) hf (sr_url req)
                       (sr_headers req) d h0;
         w1 = with_shared ((w_shared (zw_world w))\<lparr> sh_egress := hw_egress h1 \<rparr>) (zw_world w)
     in (res, note_dispatch env \<lparr> dp_temp = True, dp_render_js = effective_js sv req, dp_requested = None \<rparr>
           (w\<lparr> zw_http := h1, zw_world := w1 \<rparr>)))"

definition merged_headers :: "single_env \<Rightarrow> server \<Rightarrow> scrape_request \<Rightarrow> (string \<times> string) list" where
  "merged_headers env sv req =
    (if needs_temp_fetcher sv req \<and> inject_stealth sv req \<and> ''User-Agent'' \<notin> fst ` set (sr_headers req)
     then sr_headers req @ [(''User-Agent'', effective_ua env sv req)] else sr_headers req)"

definition first_fetch ::
    "single_env \<Rightarrow> server \<Rightarrow> scrape_request \<Rightarrow> deadline \<Rightarrow> scrape_world
      \<Rightarrow> ((crw_error + fetched) \<times> scrape_world) option" where
  "first_fetch env sv req d w =
    (if needs_temp_fetcher sv req \<and> effective_js sv req = Some False \<and> pinned req \<noteq> Some ''impersonated-http''
     then Some (fetch_temp env sv req d w)
     else via_renderer env \<lparr> jr_url = sr_url req, jr_headers = merged_headers env sv req, jr_wait = sr_wait_for req,
            jr_requested = pinned req, jr_deadline = d \<rparr> (js_asked req) w)"


subsection \<open>The document\<close>

definition extract_input_of :: "scrape_request \<Rightarrow> extraction_config \<Rightarrow> fetched \<Rightarrow> extract_input" where
  "extract_input_of req cfg r =
    \<lparr> xi_raw_html = fr_html r, xi_content_type = fr_content_type r, xi_source_url = fr_url r,
      xi_status = fr_status r, xi_rendered_with = fr_rendered_with r, xi_elapsed_ms = fr_elapsed_ms r,
      xi_render_decision = fr_meta r, xi_credit_cost = fr_credit_cost r, xi_warnings = fr_warnings r,
      xi_formats = sr_formats req,
      xi_only_main_content = (case sr_only_main_content req of Some b \<Rightarrow> b | None \<Rightarrow> ec_only_main_content cfg),
      xi_include_tags = sr_include_tags req, xi_exclude_tags = sr_exclude_tags req,
      xi_css_selector = sr_css_selector req, xi_xpath = sr_xpath req,
      xi_chunk_strategy = sr_chunk_strategy req, xi_query = sr_query req, xi_filter_mode = sr_filter_mode req,
      xi_top_k = sr_top_k req, xi_domain_selectors = ec_domain_selectors cfg, xi_captured = fr_captured r \<rparr>"

definition retry_threshold :: "extraction_config \<Rightarrow> fetched \<Rightarrow> nat" where
  "retry_threshold cfg r =
    (if fr_rendered_with r = Some ''lightpanda'' then ec_lightpanda_retry_threshold cfg
     else ec_http_retry_threshold cfg)"

definition md_bytes :: "'u scrape_data \<Rightarrow> nat" where
  "md_bytes d = (case sd_markdown d of Some md \<Rightarrow> length (trim md) | None \<Rightarrow> 0)"

definition md_is_byte_thin :: "extraction_config \<Rightarrow> fetched \<Rightarrow> 'u scrape_data \<Rightarrow> bool" where
  "md_is_byte_thin cfg r d = (md_bytes d < retry_threshold cfg r)"

definition md_is_low_quality :: "single_env \<Rightarrow> 'u scrape_data \<Rightarrow> bool" where
  "md_is_low_quality env d = (case sd_markdown d of Some md \<Rightarrow> se_low_quality env md | None \<Rightarrow> False)"

definition md_score :: "single_env \<Rightarrow> 'u scrape_data \<Rightarrow> rat" where
  "md_score env d = (case sd_markdown d of Some md \<Rightarrow> se_quality env md | None \<Rightarrow> 0)"

text \<open>\<open>maybe_run_llm_fallback\<close> of \<open>crates/crw-extract/src/lib.rs\<close> under the operator's switch.\<close>

definition llm_fallback ::
    "single_env \<Rightarrow> server \<Rightarrow> fetched \<Rightarrow> llm_usage scrape_data \<Rightarrow> scrape_world
      \<Rightarrow> llm_usage scrape_data \<times> scrape_world" where
  "llm_fallback env sv r data w =
    (let fb = ec_llm_fallback (sv_extraction sv);
         llm = (case sv_llm sv of Some l \<Rightarrow> Some l | None \<Rightarrow> ec_llm (sv_extraction sv))
     in case (lf_enable fb, llm) of
          (True, Some llm) \<Rightarrow>
            (let current = (case sd_markdown data of Some md \<Rightarrow> if trim md \<noteq> [] then md else [] | None \<Rightarrow> []);
                 score = se_quality env current
             in if \<not> lf_always_run fb \<and> lf_quality_threshold fb \<le> score then (data, w)
                else
                  (let w1 = note_call FallbackLeg None w
                   in case se_llm_extract env (calls_made w) (fr_html r) llm (lf_max_html_bytes fb) of
                        Some md \<Rightarrow>
                          if score < se_quality env md
                          then (data\<lparr> sd_markdown := Some md, sd_warnings := sd_warnings data @ [''extracted_via=llm''] \<rparr>, w1)
                          else (data, w1)
                      | None \<Rightarrow> (data, w1)))
        | _ \<Rightarrow> (data, w))"

subsection \<open>A second render\<close>

definition used_low_tier :: "fetched \<Rightarrow> bool" where
  "used_low_tier r =
    (fr_rendered_with r \<in> {Some ''http'', Some ''http_only_fallback'', Some ''lightpanda''})"

definition escalation_eligible ::
    "single_env \<Rightarrow> server \<Rightarrow> scrape_request \<Rightarrow> fetched \<Rightarrow> llm_usage scrape_data \<Rightarrow> bool" where
  "escalation_eligible env sv req r data =
    (may_escalate env sv req \<and> \<not> selector_matched_nothing data \<and> fr_content_type r \<noteq> Some ''application/pdf'')"

definition too_thin :: "single_env \<Rightarrow> server \<Rightarrow> fetched \<Rightarrow> llm_usage scrape_data \<Rightarrow> bool" where
  "too_thin env sv r data =
    (md_is_byte_thin (sv_extraction sv) r data
     \<or> escalate_for_quality (vd_lib (se_verdict env)) (md_is_byte_thin (sv_extraction sv) r data)
         (md_is_low_quality env data) (fr_status r) (fr_html r) (fr_content_type r))"

definition escalation_target :: "single_env \<Rightarrow> scrape_request \<Rightarrow> fetched \<Rightarrow> string option" where
  "escalation_target env req r =
    (if fr_rendered_with r = Some ''lightpanda'' then lightpanda_escalation_target (se_renderer env) else pinned req)"

definition has_escalation_target :: "single_env \<Rightarrow> scrape_request \<Rightarrow> fetched \<Rightarrow> bool" where
  "has_escalation_target env req r =
    (escalation_target env req r \<noteq> None \<or> fr_rendered_with r \<noteq> Some ''lightpanda'')"

definition ladder_exhausted :: "fetched \<Rightarrow> bool" where
  "ladder_exhausted r = (case fr_warning r of Some w \<Rightarrow> contains_str w js_escalation_failed | None \<Rightarrow> False)"

text \<open>A wall the ladder recognised on a body no larger than an error page.\<close>

definition condemned :: "fetched \<Rightarrow> 'u scrape_data \<Rightarrow> bool" where
  "condemned r data = (fr_wall r \<noteq> None \<and> is_error_page_sized data)"

definition is_2xx_status :: "nat \<Rightarrow> bool" where
  "is_2xx_status s = (200 \<le> s \<and> s < 300)"

definition may_render_again ::
    "single_env \<Rightarrow> server \<Rightarrow> scrape_request \<Rightarrow> fetched \<Rightarrow> llm_usage scrape_data \<Rightarrow> bool" where
  "may_render_again env sv req r data =
    (too_thin env sv r data \<and> used_low_tier r \<and> is_2xx_status (fr_status r) \<and> escalation_eligible env sv req r data)"

definition should_escalate ::
    "single_env \<Rightarrow> server \<Rightarrow> scrape_request \<Rightarrow> fetched \<Rightarrow> llm_usage scrape_data \<Rightarrow> duration \<Rightarrow> bool" where
  "should_escalate env sv req r data left =
    (may_render_again env sv req r data \<and> \<not> ladder_exhausted r \<and> \<not> condemned r data
     \<and> has_escalation_target env req r \<and> min_tier_budget \<le> left)"

definition no_tier_above :: string where
  "no_tier_above =
    ''JS escalation skipped: no camofox tier is configured above lightpanda; add one for full SPA rendering''"

text \<open>What the fetch and its conversion settle on; \<open>st_render\<close> is an accepted second render.\<close>

record settled =
  st_fetch :: fetched
  st_data :: "llm_usage scrape_data"
  st_warning :: "string option"
  st_not_shell :: bool
  st_render :: "fetched option"

definition judge_render ::
    "single_env \<Rightarrow> server \<Rightarrow> scrape_request \<Rightarrow> fetched \<Rightarrow> settled \<Rightarrow> settled" where
  "judge_render env sv req js st =
    (let cfg = sv_extraction sv; r = st_fetch st; data = st_data st
     in case se_extract env (extract_input_of req cfg js) of
          Inl e \<Rightarrow> st
        | Inr js_data \<Rightarrow>
            if condemned js js_data then
              st\<lparr> st_warning := append_warning
                (js_escalation_failed @ '' '' @ (case fr_wall js of Some b \<Rightarrow> block_reason b | None \<Rightarrow> []))
                (st_warning st) \<rparr>
            else if accept_js_escalation (se_fadd32 env) (md_bytes data) (md_is_byte_thin cfg r data)
                      (md_score env data) (md_bytes js_data) (md_score env js_data) (retry_threshold cfg r)
            then \<lparr> st_fetch = r\<lparr> fr_html := fr_html js, fr_wall := fr_wall js, fr_truncated := fr_truncated js \<rparr>,
                   st_data = js_data, st_warning = derive_target_warning (vd_lib (se_verdict env)) js,
                   st_not_shell = True, st_render = Some js \<rparr>
            else st)"

definition escalate ::
    "single_env \<Rightarrow> server \<Rightarrow> scrape_request \<Rightarrow> deadline \<Rightarrow> settled \<Rightarrow> scrape_world
      \<Rightarrow> (settled \<times> scrape_world) option" where
  "escalate env sv req d st w =
    (case via_renderer env \<lparr> jr_url = sr_url req, jr_headers = sr_headers req, jr_wait = sr_wait_for req,
            jr_requested = escalation_target env req (st_fetch st), jr_deadline = d \<rparr> (Some True) w of
       None \<Rightarrow> None
     | Some (Inl e, w1) \<Rightarrow>
         Some (st\<lparr> st_warning := append_warning (js_escalation_failed @ '' '' @ error_text e) (st_warning st) \<rparr>, w1)
     | Some (Inr js, w1) \<Rightarrow> Some (judge_render env sv req js st, w1))"

definition pdf_bytes :: "scrape_request \<Rightarrow> fetched \<Rightarrow> string option" where
  "pdf_bytes req r =
    (if fr_content_type r = Some ''application/pdf'' \<and> pdf_parse_requested req then fr_raw_bytes r else None)"

definition read_page ::
    "single_env \<Rightarrow> server \<Rightarrow> scrape_request \<Rightarrow> deadline \<Rightarrow> fetched \<Rightarrow> scrape_world
      \<Rightarrow> ((crw_error + settled) \<times> scrape_world) option" where
  "read_page env sv req d r w =
    (let warning = derive_target_warning (vd_lib (se_verdict env)) r
     in case pdf_bytes req r of
          Some bytes \<Rightarrow>
            (let source = \<lparr> psrc_url = fr_url r, psrc_status = fr_status r, psrc_elapsed_ms = fr_elapsed_ms r,
                            psrc_filename = None \<rparr>
             in Some (Inr \<lparr> st_fetch = r\<lparr> fr_raw_bytes := None \<rparr>,
                   st_data = convert_pdf_bytes (se_chunks env) (se_pdf env) (se_pdf_limits env) bytes req source,
                   st_warning = warning, st_not_shell = True, st_render = None \<rparr>, w))
        | None \<Rightarrow>
            (case se_extract env (extract_input_of req (sv_extraction sv) r) of
               Inl e \<Rightarrow> Some (Inl e, w)
             | Inr data0 \<Rightarrow>
                 (let (data, w1) = llm_fallback env sv r data0 w;
                      (left, w2) = budget_left env d w1;
                      go = should_escalate env sv req r data left;
                      st = \<lparr> st_fetch = r, st_data = data,
                             st_warning =
                               (if may_render_again env sv req r data \<and> \<not> has_escalation_target env req r
                                then append_warning no_tier_above warning else warning),
                             st_not_shell = (\<not> (md_is_byte_thin (sv_extraction sv) r data \<or> go)),
                             st_render = None \<rparr>
                  in if go then map_option (\<lambda>(st', w3). (Inr st', w3)) (escalate env sv req d st w2)
                     else Some (Inr st, w2))))"

subsection \<open>The verdict\<close>

definition stamp_classified :: "single_env \<Rightarrow> nat \<Rightarrow> fetched \<Rightarrow> 'u scrape_data \<Rightarrow> 'u scrape_data" where
  "stamp_classified env threshold r d =
    d\<lparr> sd_block := classify_block (se_verdict env) (fr_status r) (fr_content_type r) (fr_html r)
         (sd_markdown d) threshold (fr_url r) (fr_final_url r) \<rparr>"

definition stamp_error_wall :: "single_env \<Rightarrow> fetched \<Rightarrow> 'u scrape_data \<Rightarrow> 'u scrape_data" where
  "stamp_error_wall env r d =
    (if sd_block d = None \<and> http_error d \<noteq> None
     then d\<lparr> sd_block := classify_error_page_wall (se_verdict env) (fr_status r) (fr_html r) \<rparr> else d)"

definition stamp_carried_wall :: "fetched \<Rightarrow> 'u scrape_data \<Rightarrow> 'u scrape_data" where
  "stamp_carried_wall r d =
    (if sd_block d = None \<and> is_error_page_sized d then d\<lparr> sd_block := fr_wall r \<rparr> else d)"

definition stamp_unclearable :: "single_env \<Rightarrow> fetched \<Rightarrow> 'u scrape_data \<Rightarrow> 'u scrape_data" where
  "stamp_unclearable env r d =
    (if is_unclearable (vd_lib (se_verdict env)) r
        \<and> (case sd_block d of Some b \<Rightarrow> block_vendor b = structural_failure_vendor | None \<Rightarrow> True)
     then d\<lparr> sd_block := fr_wall r \<rparr> else d)"

definition stamp_block :: "single_env \<Rightarrow> nat \<Rightarrow> fetched \<Rightarrow> 'u scrape_data \<Rightarrow> 'u scrape_data" where
  "stamp_block env threshold r d =
    stamp_unclearable env r (stamp_carried_wall r (stamp_error_wall env r (stamp_classified env threshold r d)))"

definition join_warnings :: "string option \<Rightarrow> string option \<Rightarrow> string option" where
  "join_warnings a b = (case a of Some w1 \<Rightarrow> Some (case b of Some w2 \<Rightarrow> w1 @ ''; '' @ w2 | None \<Rightarrow> w1) | None \<Rightarrow> b)"

definition redirect_warning :: "verdict_env \<Rightarrow> fetched \<Rightarrow> 'u scrape_data \<Rightarrow> 'u scrape_data" where
  "redirect_warning env r d =
    (case fr_final_url r of
       Some f \<Rightarrow>
         if redirect_is_material env (fr_url r) f \<and> (''redirected_to: '' @ f) \<notin> set (sd_warnings d)
         then d\<lparr> sd_warnings := sd_warnings d @ [''redirected_to: '' @ f] \<rparr> else d
     | None \<Rightarrow> d)"

definition stamped :: "single_env \<Rightarrow> server \<Rightarrow> settled \<Rightarrow> llm_usage scrape_data" where
  "stamped env sv st =
    (let d = redirect_warning (se_verdict env) (st_fetch st)
               (stamp_block env (ec_http_retry_threshold (sv_extraction sv)) (st_fetch st) (st_data st))
     in d\<lparr> sd_warning := join_warnings (st_warning st) (sd_warning d) \<rparr>)"

definition refusal :: "scrape_request \<Rightarrow> deadline \<Rightarrow> fetched \<Rightarrow> llm_usage scrape_data \<Rightarrow> crw_error option" where
  "refusal req d r data =
    (if is_cdn_origin_error (fr_status r) then
       Some (TargetUnreachable
         (''the site's own server did not respond (HTTP '' @ dec_digits (fr_status r) @ '' from its CDN)''))
     else if \<not> selector_matched_nothing data
       \<and> is_empty_truncated_render (fr_truncated r) (sr_formats req) (sd_markdown data)
     then Some (Timeout (dl_requested_ms d))
     else None)"

subsection \<open>The commit\<close>

definition worth_a_snapshot :: "fetched \<Rightarrow> bool" where
  "worth_a_snapshot r =
    (is_2xx_status (fr_status r) \<and> \<not> fr_truncated r \<and> \<not> fr_deadline_exceeded r \<and> fr_wall r = None)"

definition cache_candidate :: "bool \<Rightarrow> fetched \<Rightarrow> settled \<Rightarrow> fetched option" where
  "cache_candidate from_cache r st =
    (case st_render st of
       Some js \<Rightarrow>
         Some ((st_fetch st)\<lparr> fr_rendered_with := fr_rendered_with js, fr_meta := fr_meta js,
           fr_warnings := fr_warnings js, fr_credit_cost := fr_credit_cost js,
           fr_captured := fr_captured js, fr_raw_bytes := None \<rparr>)
     | None \<Rightarrow> if \<not> from_cache \<and> worth_a_snapshot r then Some r else None)"

definition worth_replaying :: "fetched \<Rightarrow> settled \<Rightarrow> llm_usage scrape_data \<Rightarrow> bool" where
  "worth_replaying c st data =
    (worth_a_snapshot c \<and> sd_block data = None \<and> http_error data = None
     \<and> \<not> (case sd_warning data of Some w \<Rightarrow> contains_str w js_escalation_failed | None \<Rightarrow> False)
     \<and> (case sd_markdown data of Some md \<Rightarrow> trim md \<noteq> [] | None \<Rightarrow> False) \<and> st_not_shell st)"

definition commit ::
    "single_env \<Rightarrow> server \<Rightarrow> scrape_request \<Rightarrow> deadline \<Rightarrow> bool \<Rightarrow> instant \<Rightarrow> fetched \<Rightarrow> settled
      \<Rightarrow> llm_usage scrape_data \<Rightarrow> scrape_world \<Rightarrow> scrape_world" where
  "commit env sv req d from_cache fetched_at r st data w =
    (case (cache_key env sv req, cache_candidate from_cache r st) of
       (Some key, Some c) \<Rightarrow>
         if worth_replaying c st data \<and> sr_store_in_cache req \<noteq> Some False then
           (let (left, w1) = budget_left env d w
            in w1\<lparr> zw_cache := page_store key c (bucket_of left) fetched_at (zw_cache w1) \<rparr>)
         else w
     | _ \<Rightarrow> w)"


subsection \<open>The model\<close>

definition effective_llm :: "server \<Rightarrow> scrape_request \<Rightarrow> llm_settings option" where
  "effective_llm sv req =
    (case build_byok_llm_config req (sv_llm sv) of Some l \<Rightarrow> Some l | None \<Rightarrow> sv_llm sv)"

definition unusable :: "'u scrape_data \<Rightarrow> bool" where
  "unusable d = (sd_block d \<noteq> None \<or> http_error d \<noteq> None)"

definition markdown_or_empty :: "'u scrape_data \<Rightarrow> string" where
  "markdown_or_empty d = (case sd_markdown d of Some md \<Rightarrow> md | None \<Rightarrow> [])"

definition add_usage :: "single_env \<Rightarrow> llm_usage option \<Rightarrow> llm_usage scrape_data \<Rightarrow> llm_usage scrape_data" where
  "add_usage env u d = d\<lparr> sd_llm_usage := accumulate_usage (se_fadd64 env) (sd_llm_usage d) u \<rparr>"

definition structured_leg ::
    "single_env \<Rightarrow> server \<Rightarrow> scrape_request \<Rightarrow> llm_usage scrape_data \<Rightarrow> scrape_world
      \<Rightarrow> (crw_error + llm_usage scrape_data) \<times> scrape_world" where
  "structured_leg env sv req d w =
    (case (effective_schema req, effective_llm sv req) of
       (Some schema, Some llm) \<Rightarrow>
         (case se_structured env (calls_made w) (markdown_or_empty d) schema llm of
            Inr (v, u) \<Rightarrow> (Inr (add_usage env u (d\<lparr> sd_json := Some v \<rparr>)), note_call StructuredLeg u w)
          | Inl e \<Rightarrow> (Inl e, note_call StructuredLeg None w))
     | (Some schema, None) \<Rightarrow>
         (Inl (ExtractionError (''JSON extraction requested but no LLM configured. Either set [extraction.llm] ''
            @ ''in server config, or pass 'llmApiKey' in the request body.'')), w)
     | (None, _) \<Rightarrow>
         (Inl (InvalidRequest (''Structured extraction (formats: json/extract) requires a 'jsonSchema' field. ''
            @ ''Provide a JSON Schema object.'')), w))"

definition summary_leg ::
    "single_env \<Rightarrow> server \<Rightarrow> scrape_request \<Rightarrow> llm_usage scrape_data \<Rightarrow> scrape_world
      \<Rightarrow> (crw_error + llm_usage scrape_data) \<times> scrape_world" where
  "summary_leg env sv req d w =
    (case effective_llm sv req of
       None \<Rightarrow>
         (Inl (ExtractionError (''Summary format requires an LLM config. Either set [extraction.llm] in server ''
            @ ''config, or pass 'llmApiKey' in the request body.'')), w)
     | Some llm \<Rightarrow>
         (let (d1, w1) =
            (case se_summarize env (calls_made w) (markdown_or_empty d) llm (sr_summary_prompt req)
                    (sr_max_content_chars req) of
               Inr (content, u, warning) \<Rightarrow>
                 (let d0 = add_usage env u (d\<lparr> sd_summary := Some content \<rparr>)
                  in (case warning of Some x \<Rightarrow> d0\<lparr> sd_warnings := sd_warnings d0 @ [x] \<rparr> | None \<Rightarrow> d0,
                      note_call SummaryLeg u w))
             | Inl e \<Rightarrow>
                 (d\<lparr> sd_warnings := sd_warnings d @ [''summary failed: '' @ error_text e] \<rparr>,
                  note_call SummaryLeg None w))
          in (Inr (if FmtMarkdown \<in> set (sr_formats req) then d1 else d1\<lparr> sd_markdown := None \<rparr>), w1)))"

text \<open>\<open>apply_llm_formats\<close> of \<open>pdf.rs\<close>: the same formats for an uploaded document, with the server's model.\<close>

definition upload_json ::
    "single_env \<Rightarrow> scrape_request \<Rightarrow> llm_settings option \<Rightarrow> llm_usage scrape_data \<Rightarrow> scrape_world
      \<Rightarrow> (crw_error + llm_usage scrape_data) \<times> scrape_world" where
  "upload_json env req llm d w =
    (case (effective_schema req, llm) of
       (Some schema, Some l) \<Rightarrow>
         (case se_structured env (calls_made w) (markdown_or_empty d) schema l of
            Inr (v, u) \<Rightarrow> (Inr (add_usage env u (d\<lparr> sd_json := Some v \<rparr>)), note_call StructuredLeg u w)
          | Inl e \<Rightarrow> (Inl e, note_call StructuredLeg None w))
     | (Some schema, None) \<Rightarrow>
         (Inl (ExtractionError (''JSON extraction requested but no LLM configured. Set [extraction.llm] in ''
            @ ''server config.'')), w)
     | (None, _) \<Rightarrow>
         (Inl (InvalidRequest ''Structured extraction (formats: json) requires a 'jsonSchema' field.''), w))"

definition upload_summary ::
    "single_env \<Rightarrow> scrape_request \<Rightarrow> llm_settings option \<Rightarrow> llm_usage scrape_data \<Rightarrow> scrape_world
      \<Rightarrow> (crw_error + llm_usage scrape_data) \<times> scrape_world" where
  "upload_summary env req llm d w =
    (case llm of
       None \<Rightarrow>
         (Inl (ExtractionError ''Summary format requires an LLM config. Set [extraction.llm] in server config.''), w)
     | Some l \<Rightarrow>
         (let (d1, w1) =
            (case se_summarize env (calls_made w) (markdown_or_empty d) l (sr_summary_prompt req)
                    (sr_max_content_chars req) of
               Inr (content, u, warning) \<Rightarrow>
                 (let d0 = add_usage env u (d\<lparr> sd_summary := Some content \<rparr>)
                  in (case warning of Some x \<Rightarrow> d0\<lparr> sd_warnings := sd_warnings d0 @ [x] \<rparr> | None \<Rightarrow> d0,
                      note_call SummaryLeg u w))
             | Inl e \<Rightarrow>
                 (d\<lparr> sd_warnings := sd_warnings d @ [''summary failed: '' @ error_text e] \<rparr>,
                  note_call SummaryLeg None w))
          in (Inr (if FmtMarkdown \<in> set (sr_formats req) then d1 else d1\<lparr> sd_markdown := None \<rparr>), w1)))"

definition apply_llm_formats ::
    "single_env \<Rightarrow> scrape_request \<Rightarrow> llm_settings option \<Rightarrow> llm_usage scrape_data \<Rightarrow> scrape_world
      \<Rightarrow> (crw_error + llm_usage scrape_data) \<times> scrape_world" where
  "apply_llm_formats env req llm d w =
    (case (if FmtJson \<in> set (sr_formats req) then upload_json env req llm d w else (Inr d, w)) of
       (Inl e, w1) \<Rightarrow> (Inl e, w1)
     | (Inr d1, w1) \<Rightarrow>
         if FmtSummary \<in> set (sr_formats req) then upload_summary env req llm d1 w1 else (Inr d1, w1))"

text \<open>The fields that json tracking compares.\<close>

definition tracked_json ::
    "single_env \<Rightarrow> server \<Rightarrow> scrape_request \<Rightarrow> change_tracking_options \<Rightarrow> llm_usage scrape_data \<Rightarrow> scrape_world
      \<Rightarrow> (crw_error + (json option \<times> llm_usage scrape_data)) \<times> scrape_world" where
  "tracked_json env sv req opts d w =
    (if Json \<notin> set (cto_modes opts) then (Inr (None, d), w)
     else case (cto_schema opts, effective_llm sv req) of
       (Some schema, Some llm) \<Rightarrow>
         (case se_structured env (calls_made w) (markdown_or_empty d) schema llm of
            Inr (v, u) \<Rightarrow> (Inr (Some v, add_usage env u d), note_call TrackingLeg u w)
          | Inl e \<Rightarrow> (Inl e, note_call TrackingLeg None w))
     | (None, _) \<Rightarrow>
         (Inl (InvalidRequest ''changeTracking json mode requires a 'schema' describing the fields to track.''), w)
     | (Some schema, None) \<Rightarrow>
         (Inl (ExtractionError
           ''changeTracking json mode requires an LLM config. Set [extraction.llm] or pass 'llmApiKey'.''), w))"

definition judged_goal :: "scrape_request \<Rightarrow> change_tracking_result \<Rightarrow> string option" where
  "judged_goal req res =
    (if ctr_status res = Changed \<and> ctr_diff res \<noteq> None \<and> sr_judge_enabled req = Some True then
       (case sr_goal req of Some g \<Rightarrow> if trim g \<noteq> [] then Some (trim g) else None | None \<Rightarrow> None)
     else None)"

definition judge_leg ::
    "single_env \<Rightarrow> server \<Rightarrow> scrape_request \<Rightarrow> change_tracking_options \<Rightarrow> change_tracking_result
      \<Rightarrow> llm_usage scrape_data \<Rightarrow> scrape_world
      \<Rightarrow> (change_tracking_result \<times> llm_usage scrape_data) \<times> scrape_world" where
  "judge_leg env sv req opts res d w =
    (case judged_goal req res of
       None \<Rightarrow> ((res, d), w)
     | Some goal \<Rightarrow>
         (case effective_llm sv req of
            None \<Rightarrow> ((res, d\<lparr> sd_warnings := sd_warnings d @ [''judge skipped: no LLM configured''] \<rparr>), w)
          | Some llm \<Rightarrow>
              (let diff_text = (case ctr_diff res of Some x \<Rightarrow> cd_text x | None \<Rightarrow> None);
                   diff_json = (if Json \<in> set (cto_modes opts)
                                then (case ctr_diff res of Some x \<Rightarrow> cd_json x | None \<Rightarrow> None) else None)
               in case se_judge env (calls_made w) goal diff_text diff_json llm of
                    Inr (verdict, u) \<Rightarrow>
                      ((res\<lparr> ctr_judgment := Some verdict \<rparr>, add_usage env u d), note_call JudgeLeg u w)
                  | Inl e \<Rightarrow>
                      ((res, d\<lparr> sd_warnings := sd_warnings d @ [''judge failed: '' @ error_text e] \<rparr>),
                       note_call JudgeLeg None w))))"

definition tracking_leg ::
    "single_env \<Rightarrow> server \<Rightarrow> scrape_request \<Rightarrow> llm_usage scrape_data \<Rightarrow> scrape_world
      \<Rightarrow> (crw_error + (change_tracking_result option \<times> llm_usage scrape_data)) \<times> scrape_world" where
  "tracking_leg env sv req d w =
    (if FmtChangeTracking \<notin> set (sr_formats req) \<or> sd_block d \<noteq> None then (Inr (None, d), w)
     else case sr_change_tracking req of
       None \<Rightarrow>
         (Inl (InvalidRequest
           ''formats includes 'changeTracking' but no 'changeTracking' options were provided.''), w)
     | Some opts \<Rightarrow>
         (case tracked_json env sv req opts d w of
            (Inl e, w1) \<Rightarrow> (Inl e, w1)
          | (Inr (current, d1), w1) \<Rightarrow>
              (let res = compute_change_tracking (se_diff env) opts (markdown_or_empty d1) current (sd_content_type d1);
                   ((res', d2), w2) = judge_leg env sv req opts res d1 w1
               in (Inr (Some res', d2\<lparr> sd_change_tracking := True \<rparr>), w2))))"

definition model_legs ::
    "single_env \<Rightarrow> server \<Rightarrow> scrape_request \<Rightarrow> settled \<Rightarrow> llm_usage scrape_data \<Rightarrow> scrape_world
      \<Rightarrow> (crw_error + (change_tracking_result option \<times> llm_usage scrape_data)) \<times> scrape_world" where
  "model_legs env sv req st d0 w0 =
    (let skip = unusable d0
     in case (if FmtJson \<in> set (sr_formats req) \<and> \<not> skip then structured_leg env sv req d0 w0 else (Inr d0, w0)) of
          (Inl e, w1) \<Rightarrow> (Inl e, w1)
        | (Inr d1, w1) \<Rightarrow>
            (case (if FmtSummary \<in> set (sr_formats req) \<and> \<not> skip then summary_leg env sv req d1 w1 else (Inr d1, w1)) of
               (Inl e, w2) \<Rightarrow> (Inl e, w2)
             | (Inr d2, w2) \<Rightarrow>
                 tracking_leg env sv req (d2\<lparr> sd_content_type := fr_content_type (st_fetch st) \<rparr>) w2))"

subsection \<open>The scrape\<close>

definition finish_scrape ::
    "single_env \<Rightarrow> server \<Rightarrow> scrape_request \<Rightarrow> deadline \<Rightarrow> bool \<Rightarrow> instant \<Rightarrow> fetched \<Rightarrow> settled \<Rightarrow> scrape_world
      \<Rightarrow> (crw_error + scraped) \<times> scrape_world" where
  "finish_scrape env sv req d from_cache fetched_at r st w =
    (let data = stamped env sv st
     in case refusal req d (st_fetch st) data of
          Some e \<Rightarrow> (Inl e, w)
        | None \<Rightarrow>
            (let w1 = commit env sv req d from_cache fetched_at r st data w
             in case model_legs env sv req st data w1 of
                  (Inl e, w2) \<Rightarrow> (Inl e, w2)
                | (Inr (tracking, data'), w2) \<Rightarrow>
                    (Inr \<lparr> sx_data = data', sx_final_url = fr_final_url (st_fetch st),
                           sx_cached = (from_cache \<and> st_render st = None),
                           sx_truncated = fr_truncated (st_fetch st), sx_tracking = tracking \<rparr>, w2)))"

definition scrape_page ::
    "single_env \<Rightarrow> server \<Rightarrow> scrape_request \<Rightarrow> deadline \<Rightarrow> bool \<Rightarrow> fetched \<Rightarrow> scrape_world
      \<Rightarrow> ((crw_error + scraped) \<times> scrape_world) option" where
  "scrape_page env sv req d from_cache r w =
    (let (fetched_at, w1) = read_time env w
     in case read_page env sv req d r w1 of
          None \<Rightarrow> None
        | Some (Inl e, w2) \<Rightarrow> Some (Inl e, w2)
        | Some (Inr st, w2) \<Rightarrow> Some (finish_scrape env sv req d from_cache fetched_at r st w2))"

definition scrape_url ::
    "single_env \<Rightarrow> server \<Rightarrow> scrape_request \<Rightarrow> deadline \<Rightarrow> scrape_world
      \<Rightarrow> ((crw_error + scraped) \<times> scrape_world) option" where
  "scrape_url env sv req d w =
    (case check_request env sv req of
       Some e \<Rightarrow> Some (Inl e, w)
     | None \<Rightarrow>
         (let (left, w1) = budget_left env d w
          in case cached_fetch env sv req (bucket_of left) w1 of
               (Some hit, w2) \<Rightarrow> scrape_page env sv req d True hit w2
             | (None, w2) \<Rightarrow>
                 (case first_fetch env sv req d w2 of
                    None \<Rightarrow> None
                  | Some (Inl e, w3) \<Rightarrow> Some (Inl e, w3)
                  | Some (Inr r, w3) \<Rightarrow> scrape_page env sv req d False r w3)))"

end
