(* ===== verification/Single_Props.thy ===== *)
theory Single_Props
  imports Scrape_Single Renderer_Props "HOL-Library.Code_Target_Nat"
begin

section \<open>What a scrape guarantees\<close>

text \<open>
  Of \<open>Scrape_Single\<close>: what may be in the page cache and who may see it, how often a page is
  rendered, what reaches the language model and what is billed for it, and what a verdict rests on.
\<close>

subsection \<open>What the steps of a scrape leave alone\<close>

lemma read_time_keeps:
  "zw_cache (snd (read_time env w)) = zw_cache w" "zw_dispatches (snd (read_time env w)) = zw_dispatches w"
  "zw_models (snd (read_time env w)) = zw_models w" "zw_http (snd (read_time env w)) = zw_http w"
  by (simp_all add: read_time_def split_beta Let_def)

lemma budget_left_keeps:
  "zw_cache (snd (budget_left env d w)) = zw_cache w" "zw_dispatches (snd (budget_left env d w)) = zw_dispatches w"
  "zw_models (snd (budget_left env d w)) = zw_models w"
  by (simp_all add: budget_left_def split_beta Let_def read_time_keeps)

lemma note_call_keeps [simp]:
  "zw_cache (note_call leg u w) = zw_cache w" "zw_dispatches (note_call leg u w) = zw_dispatches w"
  "zw_models (note_call leg u w) = zw_models w @ [\<lparr> ml_leg = leg, ml_usage = u \<rparr>]"
  by (simp_all add: note_call_def)

text \<open>A number of fetches went out, and the cache is as others left it.\<close>

definition fetched_on :: "single_env \<Rightarrow> dispatch list \<Rightarrow> scrape_world \<Rightarrow> scrape_world \<Rightarrow> bool" where
  "fetched_on env new w w' \<longleftrightarrow>
    zw_dispatches w' = zw_dispatches w @ new
    \<and> zw_cache w' = fold (se_meanwhile env) [length (zw_dispatches w) ..< length (zw_dispatches w')] (zw_cache w)"

lemma fetched_on_refl: "zw_cache w' = zw_cache w \<Longrightarrow> zw_dispatches w' = zw_dispatches w \<Longrightarrow> fetched_on env [] w w'"
  by (simp add: fetched_on_def)

lemma fetched_on_trans:
  assumes "fetched_on env a w1 w2" "fetched_on env b w2 w3"
  shows "fetched_on env (a @ b) w1 w3"
proof -
  have "[length (zw_dispatches w1) ..< length (zw_dispatches w3)]
      = [length (zw_dispatches w1) ..< length (zw_dispatches w2)] @ [length (zw_dispatches w2) ..< length (zw_dispatches w3)]"
    using assms upt_add_eq_append [of "length (zw_dispatches w1)" "length (zw_dispatches w2)" "length b"]
    by (simp add: fetched_on_def add.assoc)
  then show ?thesis using assms by (simp add: fetched_on_def)
qed

lemma note_dispatch_fetched: "fetched_on env [dp] w (note_dispatch env dp w)"
  by (simp add: fetched_on_def note_dispatch_def)

lemma note_dispatch_models [simp]: "zw_models (note_dispatch env dp w) = zw_models w"
  by (simp add: note_dispatch_def)

lemma via_renderer_fetched:
  assumes "via_renderer env jr js w = Some (res, w')"
  shows "fetched_on env [\<lparr> dp_temp = False, dp_render_js = js, dp_requested = jr_requested jr \<rparr>] w w'
    \<and> zw_models w' = zw_models w"
proof -
  obtain w1 where "w' = note_dispatch env \<lparr> dp_temp = False, dp_render_js = js, dp_requested = jr_requested jr \<rparr>
      (w\<lparr> zw_world := w1 \<rparr>)"
    using assms by (auto simp: via_renderer_def split: option.splits)
  then show ?thesis
    using note_dispatch_fetched [of env _ "w\<lparr> zw_world := w1 \<rparr>"] by (simp add: fetched_on_def)
qed

lemma fetch_temp_fetched:
  "fetched_on env [\<lparr> dp_temp = True, dp_render_js = effective_js sv req, dp_requested = None \<rparr>] w
      (snd (fetch_temp env sv req d w))
    \<and> zw_models (snd (fetch_temp env sv req d w)) = zw_models w"
  by (simp add: fetch_temp_def Let_def split_beta note_dispatch_def fetched_on_def)

lemma first_fetch_fetched:
  assumes "first_fetch env sv req d w = Some (res, w')"
  shows "\<exists>dp. fetched_on env [dp] w w' \<and> zw_models w' = zw_models w"
proof (cases "needs_temp_fetcher sv req \<and> effective_js sv req = Some False \<and> pinned req \<noteq> Some ''impersonated-http''")
  case True
  then have "w' = snd (fetch_temp env sv req d w)" using assms by (simp add: first_fetch_def)
  then show ?thesis using fetch_temp_fetched by blast
next
  case False
  have "first_fetch env sv req d w = via_renderer env \<lparr> jr_url = sr_url req, jr_headers = merged_headers env sv req,
      jr_wait = sr_wait_for req, jr_requested = pinned req, jr_deadline = d \<rparr> (js_asked req) w"
    unfolding first_fetch_def using False by (rule if_not_P)
  then show ?thesis using assms via_renderer_fetched by metis
qed

lemma cached_fetch_keeps:
  assumes "cached_fetch env sv req b w = (hit, w')"
  shows "zw_cache w' = zw_cache w \<and> zw_dispatches w' = zw_dispatches w \<and> zw_models w' = zw_models w"
proof (cases "cache_key env sv req")
  case (Some key)
  then show ?thesis using assms by (auto simp: cached_fetch_def Let_def split_beta read_time_keeps)
qed (use assms in \<open>auto simp: cached_fetch_def\<close>)

lemma llm_fallback_cases:
  "snd (llm_fallback env sv r data w) \<in> {w, note_call FallbackLeg None w}
    \<and> sd_llm_usage (fst (llm_fallback env sv r data w)) = sd_llm_usage data"
proof (cases "lf_enable (ec_llm_fallback (sv_extraction sv))")
  case on: True
  show ?thesis
  proof (cases "case sv_llm sv of Some l \<Rightarrow> Some l | None \<Rightarrow> ec_llm (sv_extraction sv)")
    case None
    then show ?thesis by (simp add: llm_fallback_def Let_def on)
  next
    case (Some llm)
    then show ?thesis
      by (cases "se_llm_extract env (calls_made w) (fr_html r) llm (lf_max_html_bytes (ec_llm_fallback (sv_extraction sv)))")
        (simp_all add: llm_fallback_def Let_def on Some)
  qed
qed (simp add: llm_fallback_def Let_def)

lemma llm_fallback_calls:
  "\<exists>n \<le> Suc 0. zw_models (snd (llm_fallback env sv r data w))
      = zw_models w @ replicate n \<lparr> ml_leg = FallbackLeg, ml_usage = None \<rparr>
    \<and> zw_cache (snd (llm_fallback env sv r data w)) = zw_cache w
    \<and> zw_dispatches (snd (llm_fallback env sv r data w)) = zw_dispatches w"
proof -
  let ?w = "snd (llm_fallback env sv r data w)"
  from llm_fallback_cases [of env sv r data w] have "?w = w \<or> ?w = note_call FallbackLeg None w" by simp
  then show ?thesis
  proof
    assume "?w = w"
    then show ?thesis by (intro exI [of _ 0]) simp
  next
    assume "?w = note_call FallbackLeg None w"
    then show ?thesis by (intro exI [of _ "Suc 0"]) simp
  qed
qed


text \<open>A second render asks for JavaScript through the shared renderer, and only where one may be asked for.\<close>

definition second_render :: "single_env \<Rightarrow> server \<Rightarrow> scrape_request \<Rightarrow> dispatch \<Rightarrow> bool" where
  "second_render env sv req dp \<longleftrightarrow>
    \<not> dp_temp dp \<and> dp_render_js dp = Some True \<and> may_escalate env sv req"

lemma escalate_fetched:
  assumes "escalate env sv req d st w = Some (st', w')"
  shows "\<exists>dp. fetched_on env [dp] w w' \<and> zw_models w' = zw_models w \<and> \<not> dp_temp dp \<and> dp_render_js dp = Some True"
proof -
  obtain res where "via_renderer env \<lparr> jr_url = sr_url req, jr_headers = sr_headers req, jr_wait = sr_wait_for req,
      jr_requested = escalation_target env req (st_fetch st), jr_deadline = d \<rparr> (Some True) w = Some (res, w')"
    using assms by (auto simp: escalate_def split: option.splits sum.splits)
  from via_renderer_fetched [OF this] show ?thesis by (metis dispatch.select_convs(1,2))
qed

lemma read_page_fetched:
  assumes "read_page env sv req d r w = Some (res, w')"
  shows "\<exists>new n. fetched_on env new w w' \<and> length new \<le> 1 \<and> list_all (second_render env sv req) new
    \<and> n \<le> Suc 0 \<and> zw_models w' = zw_models w @ replicate n \<lparr> ml_leg = FallbackLeg, ml_usage = None \<rparr>"
proof (cases "pdf_bytes req r")
  case (Some bytes)
  then have "w' = w" using assms by (simp add: read_page_def Let_def)
  then show ?thesis using fetched_on_refl [of w w env] by (intro exI [of _ "[]"] exI [of _ 0]) simp
next
  case None
  show ?thesis
  proof (cases "se_extract env (extract_input_of req (sv_extraction sv) r)")
    case (Inl e)
    then have "w' = w" using assms None by (simp add: read_page_def Let_def)
    then show ?thesis using fetched_on_refl [of w w env] by (intro exI [of _ "[]"] exI [of _ 0]) simp
  next
    case (Inr data0)
    obtain data w1 where f: "llm_fallback env sv r data0 w = (data, w1)" by fastforce
    obtain left w2 where b: "budget_left env d w1 = (left, w2)" by fastforce
    obtain n where n: "n \<le> Suc 0" "zw_cache w1 = zw_cache w" "zw_dispatches w1 = zw_dispatches w"
        "zw_models w1 = zw_models w @ replicate n \<lparr> ml_leg = FallbackLeg, ml_usage = None \<rparr>"
      using llm_fallback_calls [of env sv r data0 w] f by auto
    have w2: "zw_cache w2 = zw_cache w" "zw_dispatches w2 = zw_dispatches w" "zw_models w2 = zw_models w1"
      using budget_left_keeps [of env d w1] b n by simp_all
    show ?thesis
    proof (cases "should_escalate env sv req r data left")
      case False
      then have "w' = w2" using assms None Inr f b by (simp add: read_page_def Let_def)
      then show ?thesis using w2 n fetched_on_refl [of w2 w env] by (intro exI [of _ "[]"] exI [of _ n]) simp
    next
      case True
      then obtain st st' where "escalate env sv req d st w2 = Some (st', w')"
        using assms None Inr f b by (auto simp: read_page_def Let_def)
      then obtain dp where dp: "fetched_on env [dp] w2 w'" "zw_models w' = zw_models w2" "\<not> dp_temp dp"
          "dp_render_js dp = Some True"
        using escalate_fetched by blast
      have "may_escalate env sv req"
        using True by (simp add: should_escalate_def may_render_again_def escalation_eligible_def)
      then have "second_render env sv req dp" using dp by (simp add: second_render_def)
      moreover have "fetched_on env [dp] w w'" using dp(1) w2 by (simp add: fetched_on_def)
      ultimately show ?thesis using dp(2) w2(3) n by (intro exI [of _ "[dp]"] exI [of _ n]) simp
    qed
  qed
qed

subsection \<open>The model legs\<close>

text \<open>Calls were made, their usage went into the document, and its verdict stood.\<close>

definition billed :: "single_env \<Rightarrow> llm_usage scrape_data \<times> scrape_world \<Rightarrow> llm_usage scrape_data \<times> scrape_world \<Rightarrow> bool" where
  "billed env a b \<longleftrightarrow>
    (\<exists>new. zw_models (snd b) = zw_models (snd a) @ new
      \<and> sd_llm_usage (fst b) = fold (\<lambda>c s. accumulate_usage (se_fadd64 env) s (ml_usage c)) new (sd_llm_usage (fst a)))
    \<and> sd_block (fst b) = sd_block (fst a)
    \<and> zw_cache (snd b) = zw_cache (snd a) \<and> zw_dispatches (snd b) = zw_dispatches (snd a)"

lemma billed_refl: "sd_llm_usage d' = sd_llm_usage d \<Longrightarrow> sd_block d' = sd_block d \<Longrightarrow> billed env (d, w) (d', w)"
  by (auto simp: billed_def intro: exI [of _ "[]"])

lemma billed_trans: "billed env a b \<Longrightarrow> billed env b c \<Longrightarrow> billed env a c"
  unfolding billed_def by (metis append_assoc comp_apply fold_append)

lemma billed_call:
  assumes "sd_llm_usage d' = accumulate_usage (se_fadd64 env) (sd_llm_usage d) u" "sd_block d' = sd_block d"
  shows "billed env (d, w) (d', note_call leg u w)"
  unfolding billed_def using assms by (auto intro!: exI [of _ "[\<lparr> ml_leg = leg, ml_usage = u \<rparr>]"])

lemma accumulate_None [simp]: "accumulate_usage fadd s None = s"
  by (simp add: accumulate_usage_def)

lemma add_usage_fields [simp]:
  "sd_llm_usage (add_usage env u d) = accumulate_usage (se_fadd64 env) (sd_llm_usage d) u"
  "sd_block (add_usage env u d) = sd_block d"
  by (simp_all add: add_usage_def)

lemma structured_leg_billed: "structured_leg env sv req d w = (Inr d', w') \<Longrightarrow> billed env (d, w) (d', w')"
  by (auto simp: structured_leg_def intro!: billed_call split: option.splits sum.splits prod.splits)

lemma tracked_json_billed: "tracked_json env sv req o' d w = (Inr (j, d'), w') \<Longrightarrow> billed env (d, w) (d', w')"
  by (auto simp: tracked_json_def intro!: billed_call billed_refl split: option.splits sum.splits prod.splits if_splits)

lemma judge_leg_billed: "judge_leg env sv req o' r d w = ((r', d'), w') \<Longrightarrow> billed env (d, w) (d', w')"
  by (auto simp: judge_leg_def Let_def intro!: billed_call billed_refl split: option.splits sum.splits prod.splits)


lemma summary_leg_billed:
  assumes "summary_leg env sv req d w = (Inr d', w')"
  shows "billed env (d, w) (d', w')
    \<and> sd_markdown d' = (if FmtMarkdown \<in> set (sr_formats req) then sd_markdown d else None)"
proof (cases "effective_llm sv req")
  case (Some llm)
  let ?ask = "se_summarize env (calls_made w) (markdown_or_empty d) llm (sr_summary_prompt req) (sr_max_content_chars req)"
  show ?thesis
  proof (cases ?ask)
    case (Inl e)
    then show ?thesis using assms Some by (auto simp: summary_leg_def intro!: billed_call)
  next
    case (Inr r)
    obtain content u warning where r: "r = (content, u, warning)" by (cases r)
    show ?thesis using assms Some Inr r
      by (cases warning) (auto simp: summary_leg_def add_usage_def intro!: billed_call)
  qed
qed (use assms in \<open>simp add: summary_leg_def\<close>)

lemma tracking_leg_billed:
  assumes "tracking_leg env sv req d w = (Inr (t, d'), w')"
  shows "billed env (d, w) (d', w')"
proof (cases "FmtChangeTracking \<notin> set (sr_formats req) \<or> sd_block d \<noteq> None")
  case True
  then show ?thesis using assms by (auto simp: tracking_leg_def billed_refl)
next
  case False
  then obtain opts where o: "sr_change_tracking req = Some opts"
    using assms by (cases "sr_change_tracking req") (auto simp: tracking_leg_def)
  obtain current d1 w1 where j: "tracked_json env sv req opts d w = (Inr (current, d1), w1)"
    using assms False o by (auto simp: tracking_leg_def split: prod.splits sum.splits)
  let ?res = "compute_change_tracking (se_diff env) opts (markdown_or_empty d1) current (sd_content_type d1)"
  obtain res' d2 w2 where g: "judge_leg env sv req opts ?res d1 w1 = ((res', d2), w2)" by (metis prod.collapse)
  have "d' = d2\<lparr> sd_change_tracking := True \<rparr> \<and> w' = w2"
    using assms False o j g by (auto simp: tracking_leg_def Let_def)
  then have "billed env (d2, w2) (d', w')" by (simp add: billed_refl)
  with tracked_json_billed [OF j] judge_leg_billed [OF g] show ?thesis by (blast intro: billed_trans)
qed

lemma tracking_leg_blocked: "sd_block d \<noteq> None \<Longrightarrow> tracking_leg env sv req d w = (Inr (None, d), w)"
  by (simp add: tracking_leg_def)

lemma model_legs_billed:
  assumes "model_legs env sv req st d0 w0 = (Inr (t, d), w)"
  shows "billed env (d0, w0) (d, w)"
proof -
  obtain d1 w1 where s: "(if FmtJson \<in> set (sr_formats req) \<and> \<not> unusable d0 then structured_leg env sv req d0 w0
      else (Inr d0, w0)) = (Inr d1, w1)"
    using assms by (simp add: model_legs_def Let_def split: prod.splits sum.splits)
  then have b1: "billed env (d0, w0) (d1, w1)"
    using structured_leg_billed billed_refl by (auto split: if_splits)
  obtain d2 w2 where m: "(if FmtSummary \<in> set (sr_formats req) \<and> \<not> unusable d0 then summary_leg env sv req d1 w1
      else (Inr d1, w1)) = (Inr d2, w2)"
    using assms s by (simp add: model_legs_def Let_def split: prod.splits sum.splits)
  then have b2: "billed env (d1, w1) (d2, w2)"
    using summary_leg_billed billed_refl by (auto split: if_splits)
  have "tracking_leg env sv req (d2\<lparr> sd_content_type := fr_content_type (st_fetch st) \<rparr>) w2 = (Inr (t, d), w)"
    using assms s m by (simp add: model_legs_def Let_def)
  from tracking_leg_billed [OF this]
  have "billed env (d2, w2) (d, w)" by (simp add: billed_def)
  with b1 b2 show ?thesis by (blast intro: billed_trans)
qed

lemma model_legs_blocked:
  assumes "sd_block d0 \<noteq> None"
  shows "model_legs env sv req st d0 w0
    = (Inr (None, d0\<lparr> sd_content_type := fr_content_type (st_fetch st) \<rparr>), w0)"
  using assms by (simp add: model_legs_def unusable_def tracking_leg_blocked)

text \<open>Errors of the legs leave the cache and the fetches alone, too.\<close>

lemma legs_keep:
  "zw_cache (snd (structured_leg env sv req d w)) = zw_cache w"
  "zw_dispatches (snd (structured_leg env sv req d w)) = zw_dispatches w"
  "zw_cache (snd (tracked_json env sv req o' d w)) = zw_cache w"
  "zw_dispatches (snd (tracked_json env sv req o' d w)) = zw_dispatches w"
  "zw_cache (snd (judge_leg env sv req o' r d w)) = zw_cache w"
  "zw_dispatches (snd (judge_leg env sv req o' r d w)) = zw_dispatches w"
  "zw_cache (snd (summary_leg env sv req d w)) = zw_cache w"
  "zw_dispatches (snd (summary_leg env sv req d w)) = zw_dispatches w"
  by (auto simp: structured_leg_def tracked_json_def judge_leg_def summary_leg_def Let_def
      split: option.split sum.split prod.split)

lemma tracking_leg_keeps:
  "zw_cache (snd (tracking_leg env sv req d w)) = zw_cache w
    \<and> zw_dispatches (snd (tracking_leg env sv req d w)) = zw_dispatches w"
proof (cases "FmtChangeTracking \<notin> set (sr_formats req) \<or> sd_block d \<noteq> None \<or> sr_change_tracking req = None")
  case True
  then show ?thesis by (auto simp: tracking_leg_def)
next
  case False
  then obtain opts where o: "sr_change_tracking req = Some opts" by blast
  obtain out w1 where j: "tracked_json env sv req opts d w = (out, w1)" by fastforce
  then have w1: "zw_cache w1 = zw_cache w" "zw_dispatches w1 = zw_dispatches w"
    using legs_keep(3,4) [of env sv req opts d w] by simp_all
  show ?thesis
  proof (cases out)
    case (Inl e)
    then show ?thesis using False o j w1 by (simp add: tracking_leg_def)
  next
    case (Inr r)
    obtain current d1 where r: "r = (current, d1)" by fastforce
    show ?thesis
      using False o j Inr r w1 legs_keep(5,6) [of env sv req opts _ d1 w1]
      by (simp add: tracking_leg_def Let_def split_beta)
  qed
qed

lemma model_legs_keep:
  "zw_cache (snd (model_legs env sv req st d0 w0)) = zw_cache w0
    \<and> zw_dispatches (snd (model_legs env sv req st d0 w0)) = zw_dispatches w0"
proof -
  let ?json = "if FmtJson \<in> set (sr_formats req) \<and> \<not> unusable d0 then structured_leg env sv req d0 w0 else (Inr d0, w0)"
  obtain o1 w1 where s: "?json = (o1, w1)" by fastforce
  then have w1: "zw_cache w1 = zw_cache w0" "zw_dispatches w1 = zw_dispatches w0"
    using legs_keep(1,2) [of env sv req d0 w0] by (auto split: if_splits)
  show ?thesis
  proof (cases o1)
    case (Inl e)
    then show ?thesis using s w1 by (simp add: model_legs_def Let_def)
  next
    case (Inr d1)
    let ?sum = "if FmtSummary \<in> set (sr_formats req) \<and> \<not> unusable d0 then summary_leg env sv req d1 w1 else (Inr d1, w1)"
    obtain o2 w2 where m: "?sum = (o2, w2)" by fastforce
    then have w2: "zw_cache w2 = zw_cache w1" "zw_dispatches w2 = zw_dispatches w1"
      using legs_keep(7,8) [of env sv req d1 w1] by (auto split: if_splits)
    show ?thesis
    proof (cases o2)
      case (Inl e)
      then show ?thesis using s m Inr w1 w2 by (simp add: model_legs_def Let_def)
    next
      case (Inr d2)
      then show ?thesis using s m \<open>o1 = Inr d1\<close> w1 w2 tracking_leg_keeps
        by (simp add: model_legs_def Let_def)
    qed
  qed
qed


subsection \<open>A whole scrape\<close>

lemma commit_effect:
  "zw_dispatches (commit env sv req d fc t r st data w) = zw_dispatches w
    \<and> zw_models (commit env sv req d fc t r st data w) = zw_models w
    \<and> (zw_cache (commit env sv req d fc t r st data w) = zw_cache w
       \<or> (\<exists>key c b. cache_key env sv req = Some key \<and> cache_candidate fc r st = Some c
            \<and> worth_replaying c st data \<and> sr_store_in_cache req \<noteq> Some False
            \<and> zw_cache (commit env sv req d fc t r st data w) = page_store key c b t (zw_cache w)))"
proof (cases "cache_key env sv req")
  case (Some key)
  show ?thesis
  proof (cases "cache_candidate fc r st")
    case None
    then show ?thesis using Some by (simp add: commit_def)
  next
    case c: (Some c)
    show ?thesis
    proof (cases "worth_replaying c st data \<and> sr_store_in_cache req \<noteq> Some False")
      case True
      then show ?thesis
        using Some c budget_left_keeps [of env d w] by (simp add: commit_def Let_def split_beta) blast
    next
      case False
      then show ?thesis using Some c by (auto simp: commit_def)
    qed
  qed
qed (simp add: commit_def)

definition fetch_shape :: "single_env \<Rightarrow> server \<Rightarrow> scrape_request \<Rightarrow> bool \<Rightarrow> dispatch list \<Rightarrow> bool" where
  "fetch_shape env sv req from_cache new \<longleftrightarrow>
    (\<exists>a b. new = a @ b \<and> length a \<le> (if from_cache then 0 else 1) \<and> length b \<le> 1
      \<and> list_all (second_render env sv req) b)"

abbreviation fallback_call :: model_call where
  "fallback_call \<equiv> \<lparr> ml_leg = FallbackLeg, ml_usage = None \<rparr>"

lemma scrape_page_runs:
  assumes "scrape_page env sv req d fc r w = Some (res, w')"
  obtains (failed) e b n where "res = Inl e" "fetched_on env b w w'" "length b \<le> 1"
      "list_all (second_render env sv req) b" "n \<le> Suc 0" "zw_models w' = zw_models w @ replicate n fallback_call"
  | (settled) t st w0 w1 b n where "t = fst (read_time env w)" "w0 = snd (read_time env w)" "fetched_on env b w w1" "length b \<le> 1"
      "list_all (second_render env sv req) b" "n \<le> Suc 0" "zw_models w1 = zw_models w @ replicate n fallback_call"
      "read_page env sv req d r w0 = Some (Inr st, w1)" "finish_scrape env sv req d fc t r st w1 = (res, w')"
proof -
  obtain t w0 where tw: "read_time env w = (t, w0)" by fastforce
  then have w0: "zw_cache w0 = zw_cache w" "zw_dispatches w0 = zw_dispatches w" "zw_models w0 = zw_models w"
    using read_time_keeps [of env w] by simp_all
  obtain page w1 where p: "read_page env sv req d r w0 = Some (page, w1)"
    using assms tw by (auto simp: scrape_page_def Let_def split: option.splits)
  obtain b n where bn: "fetched_on env b w0 w1" "length b \<le> 1" "list_all (second_render env sv req) b" "n \<le> Suc 0"
      "zw_models w1 = zw_models w0 @ replicate n fallback_call"
    using read_page_fetched [OF p] by blast
  have b: "fetched_on env b w w1" using bn(1) w0 by (simp add: fetched_on_def)
  show thesis
  proof (cases page)
    case (Inl e)
    then have "res = Inl e" "w' = w1" using assms tw p by (auto simp: scrape_page_def Let_def)
    moreover have "zw_models w1 = zw_models w @ replicate n fallback_call" using bn(5) w0(3) by simp
    ultimately show thesis using failed b bn(2,3,4) by blast
  next
    case (Inr st)
    then have "finish_scrape env sv req d fc t r st w1 = (res, w')"
      using assms tw p by (simp add: scrape_page_def Let_def)
    moreover have "read_page env sv req d r w0 = Some (Inr st, w1)" using p Inr by simp
    moreover have "t = fst (read_time env w)" "w0 = snd (read_time env w)" using tw by simp_all
    moreover have "zw_models w1 = zw_models w @ replicate n fallback_call" using bn(5) w0(3) by simp
    ultimately show thesis using settled b bn(2,3,4) by blast
  qed
qed

lemma scrape_runs:
  assumes "scrape_url env sv req d w = Some (res, w')"
  obtains (early) e fc new n where "res = Inl e" "fetched_on env new w w'" "fetch_shape env sv req fc new"
      "n \<le> Suc 0" "zw_models w' = zw_models w @ replicate n fallback_call"
  | (settled) fc t r st w0 w1 new n where "fetched_on env new w w1" "fetch_shape env sv req fc new"
      "n \<le> Suc 0" "zw_models w1 = zw_models w @ replicate n fallback_call"
      "read_page env sv req d r w0 = Some (Inr st, w1)" "finish_scrape env sv req d fc t r st w1 = (res, w')"
proof (cases "check_request env sv req")
  case (Some e)
  then have "res = Inl e" "w' = w" using assms by (auto simp: scrape_url_def)
  then show thesis using early [of e "[]" True 0] fetched_on_refl [of w w env] by (simp add: fetch_shape_def)
next
  case None
  obtain left w1 where b: "budget_left env d w = (left, w1)" by fastforce
  obtain hit w2 where c: "cached_fetch env sv req (bucket_of left) w1 = (hit, w2)" by fastforce
  have w2: "zw_cache w2 = zw_cache w" "zw_dispatches w2 = zw_dispatches w" "zw_models w2 = zw_models w"
    using cached_fetch_keeps [OF c] budget_left_keeps [of env d w] b by simp_all
  show thesis
  proof (cases hit)
    case (Some page)
    then have "scrape_page env sv req d True page w2 = Some (res, w')"
      using assms None b c by (simp add: scrape_url_def)
    then show thesis
    proof (cases rule: scrape_page_runs)
      case (failed e b n)
      have "fetched_on env b w w'" using failed(2) w2 by (simp add: fetched_on_def)
      moreover have "fetch_shape env sv req True b"
        unfolding fetch_shape_def using failed(3,4) by (intro exI [of _ "[]"] exI [of _ b]) simp
      moreover have "zw_models w' = zw_models w @ replicate n fallback_call" using failed(6) w2 by simp
      ultimately show thesis using early failed(1,5) by blast
    next
      case (settled t st w0 w1 b n)
      have "fetched_on env b w w1" using settled(3) w2 by (simp add: fetched_on_def)
      moreover have "fetch_shape env sv req True b"
        unfolding fetch_shape_def using settled(4,5) by (intro exI [of _ "[]"] exI [of _ b]) simp
      moreover have "zw_models w1 = zw_models w @ replicate n fallback_call" using settled(7) w2 by simp
      ultimately show thesis using that(2) settled(6,8,9) by blast
    qed
  next
    case miss: None
    obtain got w3 where f: "first_fetch env sv req d w2 = Some (got, w3)"
      using assms None b c miss by (auto simp: scrape_url_def split: option.splits)
    obtain dp where dp: "fetched_on env [dp] w2 w3" "zw_models w3 = zw_models w2"
      using first_fetch_fetched [OF f] by blast
    have dpw: "fetched_on env [dp] w w3" using dp(1) w2 by (simp add: fetched_on_def)
    have shape: "fetch_shape env sv req False (dp # b)" if "length b \<le> 1" "list_all (second_render env sv req) b" for b
      unfolding fetch_shape_def using that by (intro exI [of _ "[dp]"] exI [of _ b]) simp
    show thesis
    proof (cases got)
      case (Inl e)
      then have "res = Inl e" "w' = w3" using assms None b c miss f by (auto simp: scrape_url_def)
      then show thesis using early [of e "[dp]" False 0] dpw dp w2 shape [of "[]"] by simp
    next
      case (Inr page)
      then have "scrape_page env sv req d False page w3 = Some (res, w')"
        using assms None b c miss f by (simp add: scrape_url_def)
      then show thesis
      proof (cases rule: scrape_page_runs)
        case (failed e b n)
        have "zw_models w' = zw_models w @ replicate n fallback_call" using failed(6) w2 dp by simp
        with early [OF failed(1) fetched_on_trans [OF dpw failed(2)]] shape [OF failed(3,4)] failed(5)
        show thesis by simp
      next
        case (settled t st w0 w1 b n)
        have "zw_models w1 = zw_models w @ replicate n fallback_call" using settled(7) w2 dp by simp
        with that(2) [OF fetched_on_trans [OF dpw settled(3)]] shape [OF settled(4,5)] settled(6,8,9)
        show thesis by simp
      qed
    qed
  qed
qed


lemma finish_effect:
  assumes "finish_scrape env sv req d fc t r st w = (res, w')"
  shows "zw_dispatches w' = zw_dispatches w
    \<and> (zw_cache w' = zw_cache w
       \<or> (\<exists>key c b. cache_key env sv req = Some key \<and> cache_candidate fc r st = Some c
            \<and> worth_replaying c st (stamped env sv st) \<and> sr_store_in_cache req \<noteq> Some False
            \<and> zw_cache w' = page_store key c b t (zw_cache w)))"
proof (cases "refusal req d (st_fetch st) (stamped env sv st)")
  case (Some e)
  then show ?thesis using assms by (simp add: finish_scrape_def Let_def)
next
  case None
  let ?w1 = "commit env sv req d fc t r st (stamped env sv st) w"
  obtain out w2 where m: "model_legs env sv req st (stamped env sv st) ?w1 = (out, w2)" by fastforce
  then have "zw_cache w2 = zw_cache ?w1" "zw_dispatches w2 = zw_dispatches ?w1"
    using model_legs_keep [of env sv req st "stamped env sv st" ?w1] by simp_all
  moreover have "w' = w2" using assms None m by (auto simp: finish_scrape_def Let_def split: sum.splits)
  ultimately show ?thesis using commit_effect [of env sv req d fc t r st "stamped env sv st" w] by metis
qed

lemma finish_succeeds:
  assumes "finish_scrape env sv req d fc t r st w = (Inr out, w')"
  shows "\<exists>w1. zw_models w1 = zw_models w \<and> zw_dispatches w1 = zw_dispatches w
    \<and> model_legs env sv req st (stamped env sv st) w1 = (Inr (sx_tracking out, sx_data out), w')
    \<and> refusal req d (st_fetch st) (stamped env sv st) = None
    \<and> sx_cached out = (fc \<and> st_render st = None)"
proof (cases "refusal req d (st_fetch st) (stamped env sv st)")
  case (Some e)
  then show ?thesis using assms by (simp add: finish_scrape_def Let_def)
next
  case None
  let ?w1 = "commit env sv req d fc t r st (stamped env sv st) w"
  have "model_legs env sv req st (stamped env sv st) ?w1 = (Inr (sx_tracking out, sx_data out), w')
      \<and> sx_cached out = (fc \<and> st_render st = None)"
    using assms None by (auto simp: finish_scrape_def Let_def split: sum.splits prod.splits)
  then show ?thesis using None commit_effect [of env sv req d fc t r st "stamped env sv st" w] by blast
qed

subsection \<open>The page cache\<close>

definition pages_only :: "render_decision option page_cache \<Rightarrow> bool" where
  "pages_only c \<longleftrightarrow> moka.all_cached (\<lambda>key e. worth_a_snapshot (cp_result e)) c"

lemma pages_only_store:
  "pages_only c \<Longrightarrow> worth_a_snapshot r \<Longrightarrow> pages_only (page_store key r b t c)"
  by (auto simp: pages_only_def page_store_def intro!: moka.all_cached_ins)

lemma pages_only_fold: "(\<And>n c. pages_only c \<Longrightarrow> pages_only (f n c)) \<Longrightarrow> pages_only c \<Longrightarrow> pages_only (fold f ns c)"
  by (induction ns arbitrary: c) auto

text \<open>
  C5. Only pages are cached: if whatever others do to the cache keeps it so, then after a scrape,
  too, every entry is an answer with a success status that is complete, was not cut off by its
  deadline and that no tier of the ladder took for a wall; and unless the request may use the cache and did not
  forbid to write, the scrape itself stores nothing.
\<close>

theorem cache_holds_pages:
  assumes "scrape_url env sv req d w = Some (res, w')" "pages_only (zw_cache w)"
    and "\<And>n c. pages_only c \<Longrightarrow> pages_only (se_meanwhile env n c)"
  shows "pages_only (zw_cache w')
    \<and> (cache_key env sv req = None \<or> sr_store_in_cache req = Some False \<longrightarrow>
        zw_cache w' = fold (se_meanwhile env) [length (zw_dispatches w) ..< length (zw_dispatches w')] (zw_cache w))"
  using assms(1)
proof (cases rule: scrape_runs)
  case (early e fc new n)
  then show ?thesis using pages_only_fold [of "se_meanwhile env", OF assms(3,2)] by (simp add: fetched_on_def)
next
  case (settled fc t r st w0 w1 new n)
  have before: "pages_only (zw_cache w1)"
    using settled(1) pages_only_fold [of "se_meanwhile env", OF assms(3,2)] by (simp add: fetched_on_def)
  from finish_effect [OF settled(6)]
  have disp: "zw_dispatches w' = zw_dispatches w1" by simp
  from finish_effect [OF settled(6)] consider "zw_cache w' = zw_cache w1"
    | key c b where "cache_key env sv req = Some key" "worth_replaying c st (stamped env sv st)"
        "sr_store_in_cache req \<noteq> Some False" "zw_cache w' = page_store key c b t (zw_cache w1)"
    by blast
  then show ?thesis
  proof cases
    case 1
    then show ?thesis using before disp settled(1) by (simp add: fetched_on_def)
  next
    case 2
    then have "worth_a_snapshot c" by (simp add: worth_replaying_def)
    then show ?thesis using 2 before pages_only_store by simp
  qed
qed

subsection \<open>How often a page is rendered\<close>

text \<open>
  C18. A scrape fetches at most twice. The first fetch is skipped on a cache hit; the second goes
  through the shared renderer with JavaScript forced, and only for a request that asks for
  markdown, does not turn JavaScript off and needs no client of its own. An answer called cached was
  not fetched first.
\<close>

theorem two_fetches_at_most:
  assumes "scrape_url env sv req d w = Some (res, w')"
  shows "\<exists>a b. zw_dispatches w' = zw_dispatches w @ a @ b \<and> length a \<le> 1 \<and> length b \<le> 1
    \<and> list_all (\<lambda>dp. \<not> dp_temp dp \<and> dp_render_js dp = Some True \<and> effective_js sv req \<noteq> Some False
        \<and> \<not> needs_temp_fetcher sv req \<and> FmtMarkdown \<in> set (sr_formats req)) b
    \<and> (case res of Inr out \<Rightarrow> \<not> sx_cached out \<or> a = [] | Inl e \<Rightarrow> True)"
proof -
  have shape: "\<exists>a b. new = a @ b \<and> length a \<le> (if fc then 0 else 1) \<and> length b \<le> 1
      \<and> list_all (\<lambda>dp. \<not> dp_temp dp \<and> dp_render_js dp = Some True \<and> effective_js sv req \<noteq> Some False
        \<and> \<not> needs_temp_fetcher sv req \<and> FmtMarkdown \<in> set (sr_formats req)) b"
    if "fetch_shape env sv req fc new" for fc new
  proof -
    obtain a b where "new = a @ b" "length a \<le> (if fc then 0 else 1)" "length b \<le> 1"
        "list_all (second_render env sv req) b"
      using \<open>fetch_shape env sv req fc new\<close> unfolding fetch_shape_def by blast
    moreover from this(4) have "list_all (\<lambda>dp. \<not> dp_temp dp \<and> dp_render_js dp = Some True
        \<and> effective_js sv req \<noteq> Some False \<and> \<not> needs_temp_fetcher sv req \<and> FmtMarkdown \<in> set (sr_formats req)) b"
      by (simp add: second_render_def may_escalate_def list_all_iff)
    ultimately show ?thesis by blast
  qed
  from assms show ?thesis
  proof (cases rule: scrape_runs)
    case (early e fc new n)
    obtain a b where "new = a @ b" "length a \<le> (if fc then 0 else 1)" "length b \<le> 1"
      and "list_all (\<lambda>dp. \<not> dp_temp dp \<and> dp_render_js dp = Some True \<and> effective_js sv req \<noteq> Some False
        \<and> \<not> needs_temp_fetcher sv req \<and> FmtMarkdown \<in> set (sr_formats req)) b"
      using shape [OF early(3)] by blast
    then show ?thesis using early(1,2)
      by (intro exI [of _ a] exI [of _ b]) (simp add: fetched_on_def split: if_splits)
  next
    case (settled fc t r st w0 w1 new n)
    obtain a b where ab: "new = a @ b" "length a \<le> (if fc then 0 else 1)" "length b \<le> 1"
      and js: "list_all (\<lambda>dp. \<not> dp_temp dp \<and> dp_render_js dp = Some True \<and> effective_js sv req \<noteq> Some False
        \<and> \<not> needs_temp_fetcher sv req \<and> FmtMarkdown \<in> set (sr_formats req)) b"
      using shape [OF settled(2)] by blast
    have "case res of Inr out \<Rightarrow> \<not> sx_cached out \<or> a = [] | Inl e \<Rightarrow> True"
    proof (cases res)
      case (Inr out)
      then show ?thesis using finish_succeeds [of env sv req d fc t r st w1 out w'] settled(6) ab(2)
        by (auto split: if_splits)
    qed simp
    moreover have "zw_dispatches w' = zw_dispatches w @ a @ b"
      using finish_effect [OF settled(6)] settled(1) ab(1) by (simp add: fetched_on_def)
    moreover have "length a \<le> 1" using ab(2) by (simp split: if_splits)
    ultimately show ?thesis using js ab(3) by blast
  qed
qed

subsection \<open>What reaches the model\<close>

text \<open>
  C6. A page with a verdict is never sent to the model by the legs of the request: if the document
  of a scrape carries a block, the only call there can have been is the operator's fallback extraction,
  at most once, and nothing was tracked.
\<close>

theorem blocked_pages_skip_the_model:
  assumes "scrape_url env sv req d w = Some (Inr out, w')" "sd_block (sx_data out) \<noteq> None"
  shows "\<exists>n \<le> 1. zw_models w' = zw_models w @ replicate n \<lparr> ml_leg = FallbackLeg, ml_usage = None \<rparr>
    \<and> sx_tracking out = None"
  using assms(1)
proof (cases rule: scrape_runs)
  case (settled fc t r st w0 w1 new n)
  obtain w2 where w2: "zw_models w2 = zw_models w1"
      "model_legs env sv req st (stamped env sv st) w2 = (Inr (sx_tracking out, sx_data out), w')"
    using finish_succeeds [OF settled(6)] by blast
  have "sd_block (stamped env sv st) \<noteq> None"
    using model_legs_billed [OF w2(2)] assms(2) by (simp add: billed_def)
  from model_legs_blocked [OF this, of env sv req st w2] w2
  have "w' = w2 \<and> sx_tracking out = None" by simp
  then show ?thesis using w2(1) settled(3,4) by auto
qed simp

lemma stamp_block_usage [simp]: "sd_llm_usage (stamp_block env th r d) = sd_llm_usage d"
  by (simp add: stamp_block_def stamp_unclearable_def stamp_carried_wall_def stamp_error_wall_def stamp_classified_def)

lemma redirect_warning_usage [simp]: "sd_llm_usage (redirect_warning ve r d) = sd_llm_usage d"
  by (simp add: redirect_warning_def split: option.split)

lemma stamped_usage [simp]: "sd_llm_usage (stamped env sv st) = sd_llm_usage (st_data st)"
  by (simp add: stamped_def Let_def)

text \<open>The extraction of HTML makes no model call of its own.\<close>

definition extract_is_free :: "single_env \<Rightarrow> bool" where
  "extract_is_free env \<longleftrightarrow> (\<forall>x data. se_extract env x = Inr data \<longrightarrow> sd_llm_usage data = None)"

lemma extract_is_freeD: "extract_is_free env \<Longrightarrow> se_extract env x = Inr data \<Longrightarrow> sd_llm_usage data = None"
  by (simp add: extract_is_free_def)

lemma pdf_reports_no_usage: "sd_llm_usage (convert_pdf_bytes lib eng lm bytes req source) = None"
  by (simp add: convert_pdf_bytes_def build_pdf_data_def scrape_data_default_def Let_def split: sum.split)

lemma judge_render_usage:
  assumes "extract_is_free env" "sd_llm_usage (st_data st) = None"
  shows "sd_llm_usage (st_data (judge_render env sv req js st)) = None"
  using assms by (auto simp: judge_render_def Let_def dest: extract_is_freeD split: sum.split)

lemma escalate_usage:
  assumes "extract_is_free env" "sd_llm_usage (st_data st) = None"
    and "escalate env sv req d st w = Some (st', w')"
  shows "sd_llm_usage (st_data st') = None"
  using assms(3) judge_render_usage [OF assms(1,2)] assms(2)
  by (auto simp: escalate_def split: option.splits sum.splits)

lemma read_page_usage:
  assumes "extract_is_free env"
    and "read_page env sv req d r w = Some (Inr st, w')"
  shows "sd_llm_usage (st_data st) = None"
proof (cases "pdf_bytes req r")
  case (Some bytes)
  then show ?thesis using assms(2) pdf_reports_no_usage by (auto simp: read_page_def Let_def)
next
  case None
  then obtain data0 where x: "se_extract env (extract_input_of req (sv_extraction sv) r) = Inr data0"
    using assms(2) by (cases "se_extract env (extract_input_of req (sv_extraction sv) r)") (auto simp: read_page_def Let_def)
  obtain data w1 where f: "llm_fallback env sv r data0 w = (data, w1)" by fastforce
  obtain left w2 where b: "budget_left env d w1 = (left, w2)" by fastforce
  have data: "sd_llm_usage data = None"
    using llm_fallback_cases [of env sv r data0 w] f extract_is_freeD [OF assms(1) x] by simp
  show ?thesis
  proof (cases "should_escalate env sv req r data left")
    case False
    then have "st_data st = data" using assms(2) None x f b by (auto simp: read_page_def Let_def)
    then show ?thesis using data by simp
  next
    case True
    then obtain st0 w3 where "escalate env sv req d st0 w2 = Some (st, w3)" "st_data st0 = data"
      using assms(2) None x f b by (auto simp: read_page_def Let_def)
    then show ?thesis using escalate_usage [OF assms(1)] data by metis
  qed
qed

lemma calls_tokens:
  assumes "list_all (\<lambda>c. leg_tokens (ml_usage c) \<le> u32_max) cs"
  shows "leg_tokens (fold (\<lambda>c s. accumulate_usage f s (ml_usage c)) cs None)
    = min u32_max (sum_list (map (\<lambda>c. leg_tokens (ml_usage c)) cs))"
proof -
  have "fold (\<lambda>c s. accumulate_usage f s (ml_usage c)) cs None = fold (\<lambda>u s. accumulate_usage f s u) (map ml_usage cs) None"
    by (simp add: fold_map comp_def)
  moreover have "leg_tokens None = 0" by (simp add: leg_tokens_def)
  moreover have "map leg_tokens (map ml_usage cs) = map (\<lambda>c. leg_tokens (ml_usage c)) cs" by simp
  moreover have "\<forall>u \<in> set (map ml_usage cs). leg_tokens u \<le> u32_max" using assms by (auto simp: list_all_iff)
  ultimately show ?thesis using fold_tokens [of None "map ml_usage cs" f] by (simp add: comp_def)
qed



subsection \<open>What a verdict rests on\<close>

lemma error_page_sized_block [simp]: "is_error_page_sized (d\<lparr> sd_block := b \<rparr>) = is_error_page_sized d"
  by (simp add: is_error_page_sized_def rendered_text_len_def cong: option.case_cong)

definition thin_markdown :: "nat \<Rightarrow> 'u scrape_data \<Rightarrow> bool" where
  "thin_markdown th d \<longleftrightarrow> (case sd_markdown d of Some md \<Rightarrow> \<not> substantial th md | None \<Rightarrow> True)"

lemma classify_block_reason:
  assumes "classify_block env status ct html md th requested final = Some b"
  shows "strong_marker html = Some b
    \<or> (\<exists>m. md = Some m \<and> looks_like_parked_domain env m requested final \<and> block_vendor b = parked_domain_vendor)
    \<or> ((case md of Some m \<Rightarrow> \<not> substantial th m | None \<Rightarrow> True)
        \<and> is_blocked (ab_signal (classify (vd_lib env) (Some status) html))
        \<and> b = outcome_of (classify (vd_lib env) (Some status) html))"
proof (cases "strong_marker html")
  case (Some m)
  then show ?thesis using assms by (simp add: classify_block_def split: if_splits)
next
  case None
  then show ?thesis using assms
    by (cases md) (auto simp: classify_block_def classified_wall_def Let_def split: if_splits)
qed

lemma error_page_wall_reason:
  "classify_error_page_wall env status html = Some b \<Longrightarrow>
    is_blocked (ab_signal (classify (vd_lib env) (Some status) html))
    \<and> ab_signal (classify (vd_lib env) (Some status) html) \<noteq> SigStructuralFailure
    \<and> b = outcome_of (classify (vd_lib env) (Some status) html)"
  by (auto simp: classify_error_page_wall_def Let_def split: if_splits)

definition seen_by_classifier :: "single_env \<Rightarrow> fetched \<Rightarrow> antibot_result" where
  "seen_by_classifier env r = classify (vd_lib (se_verdict env)) (Some (fr_status r)) (fr_html r)"

definition justified :: "single_env \<Rightarrow> nat \<Rightarrow> fetched \<Rightarrow> 'u scrape_data \<Rightarrow> block_outcome \<Rightarrow> bool" where
  "justified env th r d b \<longleftrightarrow>
    (let seen = seen_by_classifier env r;
         objects = (is_blocked (ab_signal seen) \<and> b = outcome_of seen)
     in strong_marker (fr_html r) = Some b
        \<or> (\<exists>md. sd_markdown d = Some md
             \<and> looks_like_parked_domain (se_verdict env) md (fr_url r) (fr_final_url r)
             \<and> block_vendor b = parked_domain_vendor)
        \<or> objects \<and> thin_markdown th d
        \<or> objects \<and> ab_signal seen \<noteq> SigStructuralFailure \<and> 400 \<le> sd_status d \<and> is_error_page_sized d
        \<or> fr_wall r = Some b \<and> (is_error_page_sized d \<or> is_unclearable (vd_lib (se_verdict env)) r))"

lemma justified_wall:
  "fr_wall r = Some b \<Longrightarrow> is_error_page_sized d \<or> is_unclearable (vd_lib (se_verdict env)) r \<Longrightarrow> justified env th r d b"
  by (simp add: justified_def Let_def)

lemma classified_is_justified:
  assumes "classify_block (se_verdict env) (fr_status r) ct (fr_html r) (sd_markdown d) th (fr_url r) (fr_final_url r) = Some b"
  shows "justified env th r d b"
  using classify_block_reason [OF assms]
  by (auto simp: justified_def Let_def seen_by_classifier_def thin_markdown_def)

lemma error_wall_is_justified:
  assumes "classify_error_page_wall (se_verdict env) (fr_status r) (fr_html r) = Some b" "http_error d \<noteq> None"
  shows "justified env th r d b"
  using error_page_wall_reason [OF assms(1)] http_error_needs_status [OF assms(2)]
  by (simp add: justified_def Let_def seen_by_classifier_def)

text \<open>A verdict is stamped by the document, whatever verdict that carries.\<close>

lemma justified_block [simp]: "justified env th r (d\<lparr> sd_block := x \<rparr>) b = justified env th r d b"
  by (simp add: justified_def thin_markdown_def)

definition well_judged :: "single_env \<Rightarrow> nat \<Rightarrow> fetched \<Rightarrow> 'u scrape_data \<Rightarrow> bool" where
  "well_judged env th r d \<longleftrightarrow> (case sd_block d of None \<Rightarrow> True | Some b \<Rightarrow> justified env th r d b)"

lemma well_judged_update:
  "(\<And>b. x = Some b \<Longrightarrow> justified env th r d b) \<Longrightarrow> well_judged env th r (d\<lparr> sd_block := x \<rparr>)"
  by (auto simp: well_judged_def split: option.split)

lemma stamps_are_justified:
  "well_judged env th r (stamp_classified env th r d)"
  "well_judged env th r d \<Longrightarrow> well_judged env th r (stamp_error_wall env r d)"
  "well_judged env th r d \<Longrightarrow> well_judged env th r (stamp_carried_wall r d)"
  "well_judged env th r d \<Longrightarrow> well_judged env th r (stamp_unclearable env r d)"
proof -
  show "well_judged env th r (stamp_classified env th r d)"
    unfolding stamp_classified_def by (intro well_judged_update classified_is_justified)
  assume d: "well_judged env th r d"
  have "well_judged env th r (d\<lparr> sd_block := classify_error_page_wall (se_verdict env) (fr_status r) (fr_html r) \<rparr>)"
    if "http_error d \<noteq> None"
    using that by (intro well_judged_update error_wall_is_justified)
  then show "well_judged env th r (stamp_error_wall env r d)" using d by (simp add: stamp_error_wall_def)
  have wall: "well_judged env th r (d\<lparr> sd_block := fr_wall r \<rparr>)"
    if "is_error_page_sized d \<or> is_unclearable (vd_lib (se_verdict env)) r"
    using that by (intro well_judged_update justified_wall)
  then show "well_judged env th r (stamp_carried_wall r d)" using d by (simp add: stamp_carried_wall_def)
  show "well_judged env th r (stamp_unclearable env r d)" using d wall by (simp add: stamp_unclearable_def)
qed

lemma stamps_justify_alike:
  "justified env th r (stamp_block env th' r' d) b = justified env th r d b"
  by (simp add: stamp_block_def stamp_unclearable_def stamp_carried_wall_def stamp_error_wall_def stamp_classified_def)

text \<open>
  C9. A verdict is justified. A page is called blocked only for one of five reasons: its HTML carries
  a marker that exists on interstitials alone; its text says that its own host is parked; the
  classifier objects and there is no substantial markdown; it is an error page, small and with an
  error status, on which the classifier names a vendor; or the ladder took it for a wall, and it is
  small or no tier could clear it. And what no tier could clear is always blocked, under a vendor's
  name or with the ladder's own verdict.
\<close>

theorem verdict_is_justified:
  "(case sd_block (stamp_block env th r d) of None \<Rightarrow> True | Some b \<Rightarrow> justified env th r d b)
   \<and> (if is_unclearable (vd_lib (se_verdict env)) r
      then \<exists>b. sd_block (stamp_block env th r d) = Some b
             \<and> (if block_vendor b = structural_failure_vendor then fr_wall r = Some b else True)
      else True)"
proof
  have "well_judged env th r (stamp_block env th r d)"
    unfolding stamp_block_def by (intro stamps_are_justified)
  then show "case sd_block (stamp_block env th r d) of None \<Rightarrow> True | Some b \<Rightarrow> justified env th r d b"
    by (simp add: well_judged_def stamps_justify_alike cong: option.case_cong)
next
  let ?d = "stamp_carried_wall r (stamp_error_wall env r (stamp_classified env th r d))"
  show "if is_unclearable (vd_lib (se_verdict env)) r
      then \<exists>b. sd_block (stamp_block env th r d) = Some b
             \<and> (if block_vendor b = structural_failure_vendor then fr_wall r = Some b else True)
      else True"
    by (cases "sd_block ?d") (auto simp: stamp_block_def stamp_unclearable_def is_unclearable_def)
qed


subsection \<open>Private pages\<close>

text \<open>Every step but the cache's own does the same whatever the cache holds.\<close>

abbreviation with_cache :: "render_decision option page_cache \<Rightarrow> scrape_world \<Rightarrow> scrape_world" where
  "with_cache c w \<equiv> w\<lparr> zw_cache := c \<rparr>"

lemma read_time_blind: "read_time env (with_cache c w) = (fst (read_time env w), with_cache c (snd (read_time env w)))"
  by (simp add: read_time_def Let_def split_beta)

lemma budget_left_blind:
  "budget_left env d (with_cache c w) = (fst (budget_left env d w), with_cache c (snd (budget_left env d w)))"
  by (simp add: budget_left_def Let_def split_beta read_time_blind)

lemma note_call_blind: "note_call leg u (with_cache c w) = with_cache c (note_call leg u w)"
  by (simp add: note_call_def)

lemma via_renderer_blind:
  "via_renderer env jr js (with_cache c w)
    = map_option (\<lambda>(res, w'). (res, with_cache (se_meanwhile env (length (zw_dispatches w)) c) w')) (via_renderer env jr js w)"
  by (simp add: via_renderer_def note_dispatch_def split: option.split)

lemma first_fetch_blind:
  "\<exists>c'. first_fetch env sv req d (with_cache c w)
    = map_option (\<lambda>(res, w'). (res, with_cache c' w')) (first_fetch env sv req d w)"
proof (cases "needs_temp_fetcher sv req \<and> effective_js sv req = Some False \<and> pinned req \<noteq> Some ''impersonated-http''")
  case True
  then show ?thesis
    by (intro exI [of _ "se_meanwhile env (length (zw_dispatches w)) c"])
      (simp add: first_fetch_def fetch_temp_def Let_def split_beta note_dispatch_def)
next
  case False
  then show ?thesis
    unfolding first_fetch_def if_not_P [OF False]
    by (intro exI [of _ "se_meanwhile env (length (zw_dispatches w)) c"] via_renderer_blind)
qed

lemma llm_fallback_blind:
  "llm_fallback env sv r data (with_cache c w)
    = (fst (llm_fallback env sv r data w), with_cache c (snd (llm_fallback env sv r data w)))"
proof (cases "lf_enable (ec_llm_fallback (sv_extraction sv))")
  case on: True
  show ?thesis
  proof (cases "case sv_llm sv of Some l \<Rightarrow> Some l | None \<Rightarrow> ec_llm (sv_extraction sv)")
    case None
    then show ?thesis by (simp add: llm_fallback_def Let_def on)
  next
    case (Some llm)
    then show ?thesis
      by (cases "se_llm_extract env (calls_made w) (fr_html r) llm (lf_max_html_bytes (ec_llm_fallback (sv_extraction sv)))")
        (simp_all add: llm_fallback_def Let_def on note_call_blind)
  qed
qed (simp add: llm_fallback_def Let_def)

lemma escalate_blind:
  "\<exists>c'. escalate env sv req d st (with_cache c w)
    = map_option (\<lambda>(st', w'). (st', with_cache c' w')) (escalate env sv req d st w)"
  by (intro exI [of _ "se_meanwhile env (length (zw_dispatches w)) c"])
    (auto simp: escalate_def via_renderer_blind split: option.split sum.split)

lemma read_page_blind:
  "\<exists>c'. read_page env sv req d r (with_cache c w)
    = map_option (\<lambda>(res, w'). (res, with_cache c' w')) (read_page env sv req d r w)"
proof (cases "pdf_bytes req r")
  case (Some bytes)
  then show ?thesis by (intro exI [of _ c]) (simp add: read_page_def Let_def)
next
  case None
  show ?thesis
  proof (cases "se_extract env (extract_input_of req (sv_extraction sv) r)")
    case (Inl e)
    then show ?thesis using None by (intro exI [of _ c]) (simp add: read_page_def Let_def)
  next
    case (Inr data0)
    obtain data w1 where f: "llm_fallback env sv r data0 w = (data, w1)" by fastforce
    obtain left w2 where b: "budget_left env d w1 = (left, w2)" by fastforce
    have f': "llm_fallback env sv r data0 (with_cache c w) = (data, with_cache c w1)"
      using llm_fallback_blind [of env sv r data0 c w] f by simp
    have b': "budget_left env d (with_cache c w1) = (left, with_cache c w2)"
      using budget_left_blind [of env d c w1] b by simp
    show ?thesis
    proof (cases "should_escalate env sv req r data left")
      case False
      then show ?thesis using None Inr f b f' b'
        by (intro exI [of _ c]) (simp add: read_page_def Let_def)
    next
      case True
      let ?st = "\<lparr> st_fetch = r, st_data = data,
        st_warning = (if may_render_again env sv req r data \<and> \<not> has_escalation_target env req r
          then append_warning no_tier_above (derive_target_warning (vd_lib (se_verdict env)) r)
          else derive_target_warning (vd_lib (se_verdict env)) r),
        st_not_shell = False, st_render = None \<rparr>"
      obtain c' where c': "escalate env sv req d ?st (with_cache c w2)
          = map_option (\<lambda>(st', w'). (st', with_cache c' w')) (escalate env sv req d ?st w2)"
        using escalate_blind by blast
      show ?thesis using None Inr f b f' b' True c'
        by (intro exI [of _ c']) (simp add: read_page_def Let_def option.map_comp comp_def split_beta)
    qed
  qed
qed

lemma legs_blind:
  "structured_leg env sv req data (with_cache c w)
    = (fst (structured_leg env sv req data w), with_cache c (snd (structured_leg env sv req data w)))"
  "summary_leg env sv req data (with_cache c w)
    = (fst (summary_leg env sv req data w), with_cache c (snd (summary_leg env sv req data w)))"
  "tracked_json env sv req o' data (with_cache c w)
    = (fst (tracked_json env sv req o' data w), with_cache c (snd (tracked_json env sv req o' data w)))"
  "judge_leg env sv req o' t data (with_cache c w)
    = (fst (judge_leg env sv req o' t data w), with_cache c (snd (judge_leg env sv req o' t data w)))"
  by (auto simp: structured_leg_def summary_leg_def tracked_json_def judge_leg_def Let_def note_call_blind
      split: option.split sum.split prod.split)


lemma tracking_leg_blind:
  "tracking_leg env sv req data (with_cache c w)
    = (fst (tracking_leg env sv req data w), with_cache c (snd (tracking_leg env sv req data w)))"
proof (cases "FmtChangeTracking \<notin> set (sr_formats req) \<or> sd_block data \<noteq> None \<or> sr_change_tracking req = None")
  case True
  then show ?thesis by (auto simp: tracking_leg_def)
next
  case False
  then obtain opts where o: "sr_change_tracking req = Some opts" by blast
  obtain out w1 where j: "tracked_json env sv req opts data w = (out, w1)" by fastforce
  have j': "tracked_json env sv req opts data (with_cache c w) = (out, with_cache c w1)"
    using legs_blind(3) [of env sv req opts data c w] j by simp
  show ?thesis
  proof (cases out)
    case (Inl e)
    then show ?thesis using False o j j' by (simp add: tracking_leg_def)
  next
    case (Inr r)
    obtain current d1 where r: "r = (current, d1)" by fastforce
    show ?thesis using False o j j' Inr r legs_blind(4) [of env sv req opts _ d1 c w1]
      by (simp add: tracking_leg_def Let_def split_beta)
  qed
qed

lemma model_legs_blind:
  "model_legs env sv req st d0 (with_cache c w0)
    = (fst (model_legs env sv req st d0 w0), with_cache c (snd (model_legs env sv req st d0 w0)))"
proof -
  let ?json = "\<lambda>w0. if FmtJson \<in> set (sr_formats req) \<and> \<not> unusable d0 then structured_leg env sv req d0 w0 else (Inr d0, w0)"
  obtain o1 w1 where s: "?json w0 = (o1, w1)" by fastforce
  then have s': "?json (with_cache c w0) = (o1, with_cache c w1)"
    using legs_blind(1) [of env sv req d0 c w0] by (auto split: if_splits)
  show ?thesis
  proof (cases o1)
    case (Inl e)
    then show ?thesis using s s' by (simp add: model_legs_def Let_def)
  next
    case o1: (Inr d1)
    let ?sum = "\<lambda>w1. if FmtSummary \<in> set (sr_formats req) \<and> \<not> unusable d0 then summary_leg env sv req d1 w1 else (Inr d1, w1)"
    obtain o2 w2 where m: "?sum w1 = (o2, w2)" by fastforce
    then have m': "?sum (with_cache c w1) = (o2, with_cache c w2)"
      using legs_blind(2) [of env sv req d1 c w1] by (auto split: if_splits)
    show ?thesis
    proof (cases o2)
      case (Inl e)
      then show ?thesis using s s' m m' o1 by (simp add: model_legs_def Let_def)
    next
      case (Inr d2)
      then show ?thesis using s s' m m' o1 tracking_leg_blind by (simp add: model_legs_def Let_def)
    qed
  qed
qed

lemma commit_without_key: "cache_key env sv req = None \<Longrightarrow> commit env sv req d fc t r st data w = w"
  by (simp add: commit_def)

lemma finish_blind:
  assumes "cache_key env sv req = None"
  shows "finish_scrape env sv req d fc t r st (with_cache c w)
    = (fst (finish_scrape env sv req d fc t r st w), with_cache c (snd (finish_scrape env sv req d fc t r st w)))"
proof (cases "refusal req d (st_fetch st) (stamped env sv st)")
  case (Some e)
  then show ?thesis by (simp add: finish_scrape_def Let_def)
next
  case None
  obtain out w1 where m: "model_legs env sv req st (stamped env sv st) w = (out, w1)" by fastforce
  then have "model_legs env sv req st (stamped env sv st) (with_cache c w) = (out, with_cache c w1)"
    using model_legs_blind [of env sv req st "stamped env sv st" c w] by simp
  then show ?thesis using None m
    by (cases out) (simp_all add: finish_scrape_def Let_def commit_without_key [OF assms] split_beta)
qed

lemma scrape_page_blind:
  assumes "cache_key env sv req = None"
  shows "\<exists>c'. scrape_page env sv req d fc r (with_cache c w)
    = map_option (\<lambda>(res, w'). (res, with_cache c' w')) (scrape_page env sv req d fc r w)"
proof -
  obtain t w1 where t: "read_time env w = (t, w1)" by fastforce
  have t': "read_time env (with_cache c w) = (t, with_cache c w1)" using read_time_blind [of env c w] t by simp
  obtain c' where c': "read_page env sv req d r (with_cache c w1)
      = map_option (\<lambda>(res, w'). (res, with_cache c' w')) (read_page env sv req d r w1)"
    using read_page_blind by blast
  show ?thesis
  proof (cases "read_page env sv req d r w1")
    case None
    then show ?thesis using t t' c' by (simp add: scrape_page_def Let_def)
  next
    case (Some p)
    obtain page w2 where p: "p = (page, w2)" by fastforce
    show ?thesis using t t' c' Some p finish_blind [OF assms]
      by (intro exI [of _ c'], cases page) (simp_all add: scrape_page_def Let_def split_beta)
  qed
qed

text \<open>Without a key the page cache is neither read nor written.\<close>

lemma uncached_scrape_is_blind:
  assumes key: "cache_key env sv req = None"
    and "scrape_url env sv req d w = Some (res, w')"
  shows "zw_cache w' = fold (se_meanwhile env) [length (zw_dispatches w) ..< length (zw_dispatches w')] (zw_cache w)
    \<and> (\<exists>c'. scrape_url env sv req d (w\<lparr> zw_cache := c \<rparr>) = Some (res, w'\<lparr> zw_cache := c' \<rparr>))"
proof
  from assms(2) show "zw_cache w' = fold (se_meanwhile env) [length (zw_dispatches w) ..< length (zw_dispatches w')] (zw_cache w)"
  proof (cases rule: scrape_runs)
    case (settled fc t r st w0 w1 new n)
    then show ?thesis using finish_effect [OF settled(6)] key by (simp add: fetched_on_def)
  qed (simp add: fetched_on_def)
  have cached: "cached_fetch env sv req b w = (None, w)" for b w by (simp add: cached_fetch_def key)
  show "\<exists>c'. scrape_url env sv req d (w\<lparr> zw_cache := c \<rparr>) = Some (res, w'\<lparr> zw_cache := c' \<rparr>)"
  proof (cases "check_request env sv req")
    case (Some e)
    then show ?thesis using assms(2) by (auto simp: scrape_url_def)
  next
    case None
    obtain left w1 where b: "budget_left env d w = (left, w1)" by fastforce
    have b': "budget_left env d (with_cache c w) = (left, with_cache c w1)"
      using budget_left_blind [of env d c w] b by simp
    obtain c1 where f: "first_fetch env sv req d (with_cache c w1)
        = map_option (\<lambda>(res, w'). (res, with_cache c1 w')) (first_fetch env sv req d w1)"
      using first_fetch_blind by blast
    obtain got w2 where g: "first_fetch env sv req d w1 = Some (got, w2)"
      using assms(2) None b cached by (auto simp: scrape_url_def split: option.splits)
    show ?thesis
    proof (cases got)
      case (Inl e)
      then show ?thesis using assms(2) None b b' f g cached
        by (intro exI [of _ c1]) (auto simp: scrape_url_def)
    next
      case (Inr r)
      obtain c2 where "scrape_page env sv req d False r (with_cache c1 w2)
          = map_option (\<lambda>(res, w'). (res, with_cache c2 w')) (scrape_page env sv req d False r w2)"
        using scrape_page_blind [OF key] by blast
      then show ?thesis using assms(2) None b b' f g cached Inr
        by (intro exI [of _ c2]) (simp add: scrape_url_def)
    qed
  qed
qed

text \<open>
  C4. Private pages stay private. A request with headers of its own, with a proxy or a stealth setting
  that differs from the server's, or with change tracking is answered as if there were no cache: whatever the cache
  holds, the answer, the fetches and the model calls are the same, and the scrape stores nothing.
\<close>

theorem private_pages_stay_private:
  assumes "sr_headers req \<noteq> [] \<or> needs_temp_fetcher sv req \<or> FmtChangeTracking \<in> set (sr_formats req)"
    and "scrape_url env sv req d w = Some (res, w')"
  shows "zw_cache w' = fold (se_meanwhile env) [length (zw_dispatches w) ..< length (zw_dispatches w')] (zw_cache w)
    \<and> (\<exists>c'. scrape_url env sv req d (w\<lparr> zw_cache := c \<rparr>) = Some (res, w'\<lparr> zw_cache := c' \<rparr>))"
  using uncached_scrape_is_blind [OF _ assms(2)] assms(1) by (auto simp: cache_key_def cacheable_def)

subsection \<open>What goes wrong\<close>

text \<open>
  A request for a summary and for change tracking, without markdown, loses the markdown before it is
  compared: the comparison is with the empty page, whatever was scraped.
\<close>

lemma tracking_without_markdown_is_blind:
  assumes "model_legs env sv req st d0 w0 = (Inr (Some t, d), w)" "\<not> unusable d0"
    and "FmtSummary \<in> set (sr_formats req)" "FmtMarkdown \<notin> set (sr_formats req)"
    and "sr_change_tracking req = Some opts" "Json \<notin> set (cto_modes opts)"
  shows "t\<lparr> ctr_judgment := None \<rparr>
    = (compute_change_tracking (se_diff env) opts [] None (fr_content_type (st_fetch st)))\<lparr> ctr_judgment := None \<rparr>"
proof -
  obtain d1 w1 where s: "(if FmtJson \<in> set (sr_formats req) \<and> \<not> unusable d0 then structured_leg env sv req d0 w0
      else (Inr d0, w0)) = (Inr d1, w1)"
    using assms(1) by (simp add: model_legs_def Let_def split: prod.splits sum.splits)
  obtain d2 w2 where m: "summary_leg env sv req d1 w1 = (Inr d2, w2)"
    using assms(1-3) s by (simp add: model_legs_def Let_def split: prod.splits sum.splits)
  have md: "sd_markdown d2 = None" using summary_leg_billed [OF m] assms(4) by simp
  let ?d = "d2\<lparr> sd_content_type := fr_content_type (st_fetch st) \<rparr>"
  have t: "tracking_leg env sv req ?d w2 = (Inr (Some t, d), w)"
    using assms(1-3) s m by (simp add: model_legs_def Let_def)
  let ?res = "compute_change_tracking (se_diff env) opts [] None (fr_content_type (st_fetch st))"
  have "tracked_json env sv req opts ?d w2 = (Inr (None, ?d), w2)" using assms(6) by (simp add: tracked_json_def)
  then have "fst (fst (judge_leg env sv req opts ?res ?d w2)) = t"
    using t assms(5) md by (auto simp: tracking_leg_def markdown_or_empty_def Let_def split: prod.splits if_splits)
  moreover have "(fst (fst (judge_leg env sv req opts ?res ?d w2)))\<lparr> ctr_judgment := None \<rparr> = ?res\<lparr> ctr_judgment := None \<rparr>"
    by (auto simp: judge_leg_def Let_def split: option.split sum.split prod.split)
  ultimately show ?thesis by simp
qed

text \<open>
  An error page without a verdict is kept from the json and summary calls, but not from the model call of
  json tracking.
\<close>

lemma error_page_reaches_the_model:
  assumes "sd_block d0 = None" "http_error d0 \<noteq> None" "FmtChangeTracking \<in> set (sr_formats req)"
    and "sr_change_tracking req = Some opts" "Json \<in> set (cto_modes opts)" "cto_schema opts = Some schema"
    and "effective_llm sv req = Some llm"
    and "se_structured env (calls_made w0) (markdown_or_empty d0) schema llm = Inl e"
  shows "zw_models (snd (model_legs env sv req st d0 w0)) = zw_models w0 @ [\<lparr> ml_leg = TrackingLeg, ml_usage = None \<rparr>]"
  using assms
  by (simp add: model_legs_def unusable_def tracking_leg_def tracked_json_def markdown_or_empty_def)


subsection \<open>Examples\<close>

definition demo_llm :: llm_settings where
  "demo_llm = llm_settings_default\<lparr> ls_api_key := ''k'' \<rparr>"

definition demo_usage :: llm_usage where
  "demo_usage =
    \<lparr> lu_input = 7, lu_output = 1, lu_total = 8, lu_cost = None, lu_model = ''m'', lu_provider = ''p'',
      lu_cache_hit = None, lu_cache_miss = None, lu_truncated = False, lu_calls = 1,
      lu_executed_summaries = 0, lu_answer_executed = False \<rparr>"

definition demo_single :: "string \<Rightarrow> single_env" where
  "demo_single html =
    \<lparr> se_ladder = demo_env,
      se_renderer = (demo_renderer [])\<lparr> rd_http := demo_tier ''http'' (Inr (demo_page 200 html)) \<rparr>,
      se_verdict = \<lparr> vd_lib = demo_lib, vd_parse = (\<lambda>_. None), vd_tokens = (\<lambda>_. []), vd_markdown = id \<rparr>,
      se_settings = settings_from_config page_cache_config_default, se_parse_url = (\<lambda>_. None),
      se_dns = (\<lambda>_ _. DnsFailed), se_allow_loopback = False, se_base_url_error = (\<lambda>_. []),
      se_proxy_error = (\<lambda>_. None), se_env_var = (\<lambda>_. None), se_proxy_parses = (\<lambda>_. True),
      se_client = undefined, se_ua_index = 0, se_meanwhile = (\<lambda>_ c. c),
      se_extract = (\<lambda>x. Inr (scrape_data_default\<lparr> sd_markdown := Some (xi_raw_html x), sd_status := xi_status x \<rparr>)),
      se_pdf = \<lparr> pe_blocking = (\<lambda>_ _ _ _ _. BlockingOutOfTime), pe_child = (\<lambda>_ _ _ _ _. OutOfTime) \<rparr>,
      se_pdf_limits = parse_limits_default,
      se_chunks = \<lparr> cl_chunk_text = (\<lambda>_ _. []), cl_filter_scored = (\<lambda>_ _ _ _. []) \<rparr>,
      se_quality = (\<lambda>_. 1), se_low_quality = (\<lambda>_. False), se_fadd32 = (+), se_fadd64 = (+),
      se_llm_extract = (\<lambda>_ _ _ _. None),
      se_structured = (\<lambda>_ md _ _. Inr (JString md, Some demo_usage)),
      se_summarize = (\<lambda>_ md _ _ _. Inr (md, Some demo_usage, None)),
      se_judge = (\<lambda>_ _ _ _ _. Inl RateLimited),
      se_diff = \<lparr> de_sha256_hex = id, de_json_string = (\<lambda>_. []), de_unified = (\<lambda>_ _ _. []),
        de_grouped_ops = (\<lambda>_ _ _. []) \<rparr> \<rparr>"

definition demo_server :: server where
  "demo_server =
    \<lparr> sv_llm = Some demo_llm,
      sv_extraction = \<lparr> ec_only_main_content = True, ec_llm = None, ec_domain_selectors = [],
        ec_llm_fallback = \<lparr> lf_enable = False, lf_quality_threshold = 0, lf_max_html_bytes = 0, lf_always_run = False \<rparr>,
        ec_http_retry_threshold = 1, ec_lightpanda_retry_threshold = 1 \<rparr>,
      sv_user_agent = ''crw'', sv_default_stealth = False, sv_render_js_default = Some False \<rparr>"

definition demo_scrape_request :: "output_format list \<Rightarrow> (string \<times> string) list \<Rightarrow> scrape_request" where
  "demo_scrape_request formats headers =
    \<lparr> sr_url = ''u'', sr_formats = formats, sr_only_main_content = None, sr_render_js = None, sr_wait_for = None,
      sr_include_tags = [], sr_exclude_tags = [], sr_json_schema = Some JNull, sr_headers = headers,
      sr_css_selector = None, sr_xpath = None, sr_chunk_strategy = None, sr_query = None, sr_filter_mode = None,
      sr_top_k = None, sr_proxy = None, sr_stealth = None, sr_actions = None, sr_extract_schema = None,
      sr_llm_api_key = None, sr_llm_provider = None, sr_llm_model = None, sr_base_url = None,
      sr_summary_prompt = None, sr_max_content_chars = None, sr_renderer = None, sr_change_tracking = None,
      sr_goal = None, sr_judge_enabled = None, sr_parsers = None, sr_max_age = None, sr_store_in_cache = None \<rparr>"

definition demo_scrape_world :: scrape_world where
  "demo_scrape_world =
    \<lparr> zw_world = demo_world, zw_http = \<lparr> hw_reads = 0, hw_sends = [], hw_pauses = [], hw_egress = cache_new \<rparr>,
      zw_cache = cache_new, zw_dispatches = [], zw_models = [] \<rparr>"

definition demo_scrape ::
    "string \<Rightarrow> output_format list \<Rightarrow> (string \<times> string) list \<Rightarrow> ((crw_error + scraped) \<times> scrape_world) option" where
  "demo_scrape html formats headers =
    scrape_url (demo_single html) demo_server (demo_scrape_request formats headers) (from_request_ms 0 60000)
      demo_scrape_world"

text \<open>What is looked at of an outcome.\<close>

definition outcome_view ::
    "((crw_error + scraped) \<times> scrape_world) option \<Rightarrow> (bool \<times> block_outcome option \<times> nat \<times> nat \<times> bool) option" where
  "outcome_view o' =
    map_option (\<lambda>(res, w).
      (case res of Inr out \<Rightarrow> True | Inl e \<Rightarrow> False,
       case res of Inr out \<Rightarrow> sd_block (sx_data out) | Inl e \<Rightarrow> None,
       length (zw_dispatches w), calls_made w,
       zw_cache w (the (cache_key (demo_single []) demo_server (demo_scrape_request [FmtMarkdown] []))) \<noteq> None)) o'"

lemma demo_stored: "outcome_view (demo_scrape ''hello'' [FmtMarkdown] []) = Some (True, None, 1, 0, True)"
  by code_simp


lemma outcome_view_parts:
  assumes "outcome_view o' = Some (ok, b, f, m, stored)"
  obtains res w where "o' = Some (res, w)" "ok = (\<exists>out. res = Inr out)"
    "b = (case res of Inr out \<Rightarrow> sd_block (sx_data out) | Inl e \<Rightarrow> None)"
    "length (zw_dispatches w) = f" "calls_made w = m" "stored \<longrightarrow> zw_cache w \<noteq> cache_new"
proof -
  obtain res w where o: "o' = Some (res, w)" using assms by (cases o') (auto simp: outcome_view_def)
  have "stored \<longrightarrow> zw_cache w \<noteq> cache_new" using assms o by (auto simp: outcome_view_def cache_new_def)
  then show thesis using that [of res w] assms o by (cases res) (simp_all add: outcome_view_def)
qed

lemma demo_settings:
  "zw_cache demo_scrape_world = cache_new" "zw_dispatches demo_scrape_world = []" "zw_models demo_scrape_world = []"
  "se_meanwhile (demo_single html) n c = c"
  by (simp_all add: demo_scrape_world_def demo_single_def)

theorem cache_holds_pages_witness:
  "\<exists>res w'. demo_scrape ''hello'' [FmtMarkdown] [] = Some (res, w') \<and> pages_only (zw_cache w') \<and> zw_cache w' \<noteq> cache_new"
proof -
  obtain res w' where r: "demo_scrape ''hello'' [FmtMarkdown] [] = Some (res, w')" "zw_cache w' \<noteq> cache_new"
    using outcome_view_parts [OF demo_stored] by metis
  have start: "pages_only (zw_cache demo_scrape_world)" by (simp add: demo_settings pages_only_def)
  have "pages_only (zw_cache w')"
    using cache_holds_pages [OF r(1) [unfolded demo_scrape_def] start] by (simp add: demo_settings)
  with r show ?thesis by blast
qed

theorem two_fetches_at_most_witness:
  "\<exists>res w'. demo_scrape ''hello'' [FmtMarkdown] [] = Some (res, w') \<and> length (zw_dispatches w') = 1
    \<and> length (zw_dispatches w') \<le> length (zw_dispatches demo_scrape_world) + 2"
proof -
  obtain res w' where r: "demo_scrape ''hello'' [FmtMarkdown] [] = Some (res, w')" "length (zw_dispatches w') = 1"
    using outcome_view_parts [OF demo_stored] by metis
  have "length (zw_dispatches w') \<le> length (zw_dispatches demo_scrape_world) + 2"
    using two_fetches_at_most [OF r(1) [unfolded demo_scrape_def]] by auto
  with r show ?thesis by blast
qed

lemma demo_blocked:
  "outcome_view (demo_scrape ''_cf_chl_opt'' [FmtJson] [])
    = Some (True, Some \<lparr> block_vendor = ''cloudflare'', block_reason = ''cloudflare challenge interstitial'' \<rparr>, 1, 0, False)"
  by code_simp

theorem blocked_pages_skip_the_model_witness:
  "\<exists>out w' n. demo_scrape ''_cf_chl_opt'' [FmtJson] [] = Some (Inr out, w') \<and> sd_block (sx_data out) \<noteq> None
    \<and> zw_models w' = replicate n \<lparr> ml_leg = FallbackLeg, ml_usage = None \<rparr> \<and> n \<le> 1"
proof -
  obtain out w' where r: "demo_scrape ''_cf_chl_opt'' [FmtJson] [] = Some (Inr out, w')" "sd_block (sx_data out) \<noteq> None"
  proof (rule outcome_view_parts [OF demo_blocked])
    fix res w
    assume "demo_scrape ''_cf_chl_opt'' [FmtJson] [] = Some (res, w)" "True = (\<exists>out. res = Inr out)"
      "Some \<lparr> block_vendor = ''cloudflare'', block_reason = ''cloudflare challenge interstitial'' \<rparr>
        = (case res of Inr out \<Rightarrow> sd_block (sx_data out) | Inl e \<Rightarrow> None)"
    then show thesis using that by (cases res) (simp_all, metis option.distinct(1))
  qed
  from blocked_pages_skip_the_model [OF r(1) [unfolded demo_scrape_def] r(2)] r show ?thesis
    by (auto simp: demo_settings)
qed

lemma demo_called: "outcome_view (demo_scrape ''hello'' [FmtMarkdown, FmtJson] []) = Some (True, None, 1, 1, True)"
  by code_simp


lemma demo_private: "outcome_view (demo_scrape ''hello'' [FmtMarkdown] [(''Cookie'', ''x'')]) = Some (True, None, 1, 0, False)"
  by code_simp

theorem private_pages_stay_private_witness:
  "\<exists>res w'. demo_scrape ''hello'' [FmtMarkdown] [(''Cookie'', ''x'')] = Some (res, w') \<and> zw_cache w' = cache_new"
proof -
  obtain res w' where r: "demo_scrape ''hello'' [FmtMarkdown] [(''Cookie'', ''x'')] = Some (res, w')"
    using outcome_view_parts [OF demo_private] by metis
  have "sr_headers (demo_scrape_request [FmtMarkdown] [(''Cookie'', ''x'')]) \<noteq> []" by (simp add: demo_scrape_request_def)
  then have "zw_cache w' = fold (se_meanwhile (demo_single ''hello'')) [length (zw_dispatches demo_scrape_world)
      ..< length (zw_dispatches w')] (zw_cache demo_scrape_world)"
    using private_pages_stay_private [OF disjI1 r [unfolded demo_scrape_def]] by blast
  moreover have "fold (se_meanwhile (demo_single ''hello'')) ns c = c" for ns c
    by (induction ns) (simp_all add: demo_settings)
  ultimately show ?thesis using r by (auto simp: demo_settings)
qed

end
