(* ===== verification/Sitemap.thy ===== *)
theory Sitemap
  imports Url_Safety Robots Text_Lib
begin

section \<open>Sitemaps\<close>

text \<open>
  \<open>crates/crw-crawl/src/sitemap.rs\<close>: reading one sitemap and walking the tree of a site's sitemaps.
  The URL parser, DNS, the HTTP client, the gzip decoder, UTF-8 decoding, Unicode lower-casing, the
  HTML parser with its selectors, the JavaScript renderer and the clock are the record
  \<open>sitemap_env\<close>. A walk asks for each URL once, so the answers are functions of the URL.

  The documents of one level are fetched in parallel. The tasks share the budget of the renderer
  alone, so a level is described by the order in which they come to claim it (\<open>sm_claims\<close>) and the
  order in which they finish (\<open>sm_lands\<close>). A \<open>HashSet\<close> is a list without duplicates; the order in
  which it is read is \<open>sm_hash_order\<close>. The world counts readings of the clock and records the
  requests, which the code does not keep. Log lines are left out.
\<close>

definition max_sitemap_bytes :: nat where
  "max_sitemap_bytes = 50 * 1024 * 1024"

record sitemap_result =
  sr_page_urls :: "string list"
  sr_child_sitemaps :: "string list"

definition sitemap_result_default :: sitemap_result where
  "sitemap_result_default = \<lparr> sr_page_urls = [], sr_child_sitemaps = [] \<rparr>"

definition sitemap_is_empty :: "sitemap_result \<Rightarrow> bool" where
  "sitemap_is_empty r = (sr_page_urls r = [] \<and> sr_child_sitemaps r = [])"

datatype sitemap_outcome = SitemapParsed sitemap_result | SitemapChallenged | SitemapEmpty

record sitemap_reply =
  sy_final_url :: url
  sy_status :: nat
  sy_body :: "(string + string) list"

type_synonym sitemap_visit = "string \<times> sitemap_result \<times> bool"

record sitemap_env =
  sm_parse :: "string \<Rightarrow> url option"
  sm_dns :: resolver
  sm_test_allow :: bool
  sm_lower :: "string \<Rightarrow> string"
  sm_get :: "string \<Rightarrow> sitemap_reply option"
  sm_head :: "string \<Rightarrow> nat option"
  sm_gunzip :: "string \<Rightarrow> (string + string) list"
  sm_lossy :: "string \<Rightarrow> string"
  sm_select :: "string \<Rightarrow> string \<Rightarrow> string list"
  sm_render :: "string \<Rightarrow> string option"
  sm_claims :: "string list \<Rightarrow> string list"
  sm_lands :: "sitemap_visit list \<Rightarrow> sitemap_visit list"
  sm_hash_order :: "string list \<Rightarrow> string list"
  sm_clock :: "nat \<Rightarrow> instant"

subsection \<open>Sites\<close>

text \<open>
  \<open>Url::port\<close> is absent for the default port of the scheme; \<open>url_port\<close> has the default there, so
  comparing with it is the same.
\<close>

definition site_key :: "('a sitemap_env_scheme) \<Rightarrow> url \<Rightarrow> string option" where
  "site_key env u =
    (if url_scheme u \<noteq> ''http'' \<and> url_scheme u \<noteq> ''https'' then None
     else
       (case url_host u of
          None \<Rightarrow> None
        | Some h \<Rightarrow>
            (let low = sm_lower env h;
                 host = (case strip_prefix ''www.'' low of Some r \<Rightarrow> r | None \<Rightarrow> low);
                 default_port = (if url_scheme u = ''https'' then 443 else 80)
             in Some (case url_port u of
                        Some p \<Rightarrow> if p \<noteq> default_port then host @ '':'' @ dec_digits p else host
                      | None \<Rightarrow> host))))"

definition same_site :: "('a sitemap_env_scheme) \<Rightarrow> string \<Rightarrow> string \<Rightarrow> bool" where
  "same_site env u target =
    (case sm_parse env u of
       None \<Rightarrow> False
     | Some p \<Rightarrow> site_key env p = Some target)"

subsection \<open>One document\<close>

definition sniff_head :: "('a sitemap_env_scheme) \<Rightarrow> string \<Rightarrow> string" where
  "sniff_head env xml =
    (let trimmed = trim_start xml
     in sm_lower env (take (boundary_below trimmed (min (length trimmed) 2048)) trimmed))"

definition has_challenge_markers :: "string \<Rightarrow> bool" where
  "has_challenge_markers head =
    (contains_str head ''just a moment'' \<or> contains_str head ''cf-mitigated''
     \<or> contains_str head ''cf-chl-'' \<or> contains_str head ''attention required''
     \<or> contains_str head ''/cdn-cgi/challenge-platform'')"

definition looks_like_html :: "string \<Rightarrow> bool" where
  "looks_like_html head = (prefix ''<!doctype html'' head \<or> prefix ''<html'' head)"

definition declares_sitemap_root :: "string \<Rightarrow> bool" where
  "declares_sitemap_root head = (contains_str head ''<urlset'' \<or> contains_str head ''<sitemapindex'')"

definition loc_texts :: "('a sitemap_env_scheme) \<Rightarrow> string \<Rightarrow> string \<Rightarrow> string list" where
  "loc_texts env xml selector = filter (\<lambda>t. t \<noteq> []) (map trim (sm_select env xml selector))"

definition parse_sitemap :: "('a sitemap_env_scheme) \<Rightarrow> string \<Rightarrow> sitemap_result" where
  "parse_sitemap env xml =
    (let r = \<lparr> sr_page_urls = loc_texts env xml ''url > loc'',
               sr_child_sitemaps = loc_texts env xml ''sitemap > loc'' \<rparr>
     in if sr_page_urls r = [] \<and> sr_child_sitemaps r = []
        then r\<lparr> sr_page_urls := loc_texts env xml ''loc'' \<rparr> else r)"

definition parse_rendered_sitemap :: "('a sitemap_env_scheme) \<Rightarrow> string \<Rightarrow> sitemap_result" where
  "parse_rendered_sitemap env html =
    (if has_challenge_markers (sniff_head env html) then sitemap_result_default
     else parse_sitemap env html)"

text \<open>\<open>take(n).read_to_end\<close> on a reader that yields chunks and may fail.\<close>

fun read_to_limit :: "nat \<Rightarrow> ('e + string) list \<Rightarrow> 'e + string" where
  "read_to_limit n [] = Inr []"
| "read_to_limit n (Inl e # rest) = (if n = 0 then Inr [] else Inl e)"
| "read_to_limit n (Inr chunk # rest) =
    (if n \<le> length chunk then Inr (take n chunk)
     else (case read_to_limit (n - length chunk) rest of
             Inl e \<Rightarrow> Inl e | Inr out \<Rightarrow> Inr (chunk @ out)))"

definition decode_gzip_capped ::
    "(string \<Rightarrow> (string + string) list) \<Rightarrow> string \<Rightarrow> nat \<Rightarrow> string + string" where
  "decode_gzip_capped gunzip data maxv =
    (case read_to_limit (maxv + 1) (gunzip data) of
       Inl e \<Rightarrow> Inl e
     | Inr out \<Rightarrow>
         if maxv < length out
         then Inl (''decoded body exceeds '' @ dec_digits maxv @ '' bytes cap'') else Inr out)"

definition sitemap_read_capped :: "(string + string) list \<Rightarrow> nat \<Rightarrow> string + string" where
  "sitemap_read_capped body maxv =
    (case read_capped maxv body of
       Inl e \<Rightarrow> Inl e
     | Inr (buf, truncated) \<Rightarrow>
         if truncated then Inl (''body exceeds '' @ dec_digits maxv @ '' bytes cap'') else Inr buf)"

text \<open>What the text of a document says about it.\<close>

definition sitemap_text_outcome :: "('a sitemap_env_scheme) \<Rightarrow> string \<Rightarrow> sitemap_outcome" where
  "sitemap_text_outcome env text =
    (let head = sniff_head env text
     in if has_challenge_markers head then SitemapChallenged
        else if looks_like_html head then SitemapEmpty
        else
          (let parsed = parse_sitemap env text
           in if sitemap_is_empty parsed \<and> \<not> declares_sitemap_root head then SitemapEmpty
              else SitemapParsed parsed))"

definition sitemap_body_outcome :: "('a sitemap_env_scheme) \<Rightarrow> (string + string) list \<Rightarrow> sitemap_outcome" where
  "sitemap_body_outcome env body =
    (case sitemap_read_capped body max_sitemap_bytes of
       Inl e \<Rightarrow> SitemapEmpty
     | Inr bytes \<Rightarrow>
         if 2 \<le> length bytes \<and> bytes ! 0 = CHR 0x1F \<and> bytes ! 1 = CHR 0x8B
         then (case decode_gzip_capped (sm_gunzip env) bytes max_sitemap_bytes of
                 Inl e \<Rightarrow> SitemapEmpty
               | Inr xml \<Rightarrow> sitemap_text_outcome env (sm_lossy env xml))
         else sitemap_text_outcome env (sm_lossy env bytes))"

definition sitemap_reply_outcome :: "('a sitemap_env_scheme) \<Rightarrow> string \<Rightarrow> sitemap_reply \<Rightarrow> sitemap_outcome" where
  "sitemap_reply_outcome env requested_site reply =
    (if site_key env (sy_final_url reply) \<noteq> Some requested_site then SitemapEmpty
     else if \<not> (200 \<le> sy_status reply \<and> sy_status reply < 300)
     then (if sy_status reply \<in> {403, 429, 503} then SitemapChallenged else SitemapEmpty)
     else sitemap_body_outcome env (sy_body reply))"

text \<open>The URL a request goes out for, when one does.\<close>

definition sitemap_request :: "('a sitemap_env_scheme) \<Rightarrow> string \<Rightarrow> string option" where
  "sitemap_request env u =
    (case sm_parse env u of
       None \<Rightarrow> None
     | Some parsed \<Rightarrow>
         (case site_key env parsed of
            None \<Rightarrow> None
          | Some requested_site \<Rightarrow>
              (case validate_safe_url_resolved (sm_dns env) (sm_test_allow env) parsed of
                 Inl e \<Rightarrow> None
               | Inr _ \<Rightarrow> Some requested_site)))"

record walk_world =
  ww_sent :: "string list"
  ww_rendered :: "string list"
  ww_budget :: nat
  ww_ticks :: nat

definition fetch_sitemap_raw ::
    "('a sitemap_env_scheme) \<Rightarrow> string \<Rightarrow> walk_world \<Rightarrow> sitemap_outcome \<times> walk_world" where
  "fetch_sitemap_raw env u w =
    (case sitemap_request env u of
       None \<Rightarrow> (SitemapEmpty, w)
     | Some requested_site \<Rightarrow>
         (case sm_get env u of
            None \<Rightarrow> SitemapEmpty
          | Some reply \<Rightarrow> sitemap_reply_outcome env requested_site reply,
          w\<lparr> ww_sent := ww_sent w @ [u] \<rparr>))"

definition fetch_sitemap ::
    "('a sitemap_env_scheme) \<Rightarrow> string \<Rightarrow> walk_world \<Rightarrow> sitemap_result \<times> walk_world" where
  "fetch_sitemap env u w =
    (case fetch_sitemap_raw env u w of
       (SitemapParsed r, w') \<Rightarrow> (r, w')
     | (_, w') \<Rightarrow> (sitemap_result_default, w'))"

definition head_probe :: "('a sitemap_env_scheme) \<Rightarrow> string \<Rightarrow> bool" where
  "head_probe env u = (case sm_head env u of Some status \<Rightarrow> 200 \<le> status \<and> status < 300 | None \<Rightarrow> False)"

subsection \<open>The renderer's arm\<close>

definition try_render ::
    "('a sitemap_env_scheme) \<Rightarrow> string \<Rightarrow> walk_world \<Rightarrow> sitemap_result \<times> walk_world" where
  "try_render env u w =
    (if ww_budget w = 0 then (sitemap_result_default, w)
     else
       (case sm_render env u of
          Some html \<Rightarrow> parse_rendered_sitemap env html
        | None \<Rightarrow> sitemap_result_default,
        w\<lparr> ww_budget := ww_budget w - 1, ww_rendered := ww_rendered w @ [u] \<rparr>))"

text \<open>A reading of the clock, which only a deadline asks for.\<close>

definition past_deadline :: "('a sitemap_env_scheme) \<Rightarrow> instant option \<Rightarrow> walk_world \<Rightarrow> bool \<times> walk_world" where
  "past_deadline env deadline w =
    (case deadline of
       None \<Rightarrow> (False, w)
     | Some d \<Rightarrow> (d \<le> sm_clock env (ww_ticks w), w\<lparr> ww_ticks := ww_ticks w + 1 \<rparr>))"

definition visit_sitemap ::
    "('a sitemap_env_scheme) \<Rightarrow> bool \<Rightarrow> instant option \<Rightarrow> string \<Rightarrow> walk_world \<Rightarrow> sitemap_visit \<times> walk_world" where
  "visit_sitemap env escalator deadline u w =
    (case fetch_sitemap_raw env u w of
       (SitemapParsed r, w1) \<Rightarrow> ((u, r, True), w1)
     | (SitemapEmpty, w1) \<Rightarrow> ((u, sitemap_result_default, False), w1)
     | (SitemapChallenged, w1) \<Rightarrow>
         if escalator then
           (case past_deadline env deadline w1 of
              (True, w2) \<Rightarrow> ((u, sitemap_result_default, False), w2)
            | (False, w2) \<Rightarrow>
                (case try_render env u w2 of
                   (r, w3) \<Rightarrow> ((u, r, \<not> sitemap_is_empty r), w3)))
         else ((u, sitemap_result_default, False), w1))"

fun visit_batch ::
    "('a sitemap_env_scheme) \<Rightarrow> bool \<Rightarrow> instant option \<Rightarrow> string list \<Rightarrow> walk_world \<Rightarrow> sitemap_visit list \<times> walk_world" where
  "visit_batch env escalator deadline [] w = ([], w)"
| "visit_batch env escalator deadline (u # us) w =
    (case visit_sitemap env escalator deadline u w of
       (v, w1) \<Rightarrow> (case visit_batch env escalator deadline us w1 of (vs, w2) \<Rightarrow> (v # vs, w2)))"

subsection \<open>The walk\<close>

text \<open>\<open>drain(..).filter(|u| visited.insert(u)).take(n)\<close>: what comes after the n-th new URL is lost.\<close>

fun claim_batch :: "nat \<Rightarrow> string list \<Rightarrow> string list \<Rightarrow> string list \<times> string list" where
  "claim_batch 0 current visited = ([], visited)"
| "claim_batch (Suc n) [] visited = ([], visited)"
| "claim_batch (Suc n) (u # us) visited =
    (if u \<in> set visited then claim_batch (Suc n) us visited
     else (case claim_batch n us (u # visited) of (batch, visited') \<Rightarrow> (u # batch, visited')))"

lemma claim_batch_code [code]:
  "claim_batch n current visited =
    (if n = 0 then ([], visited)
     else (case current of
             [] \<Rightarrow> ([], visited)
           | u # us \<Rightarrow>
               if u \<in> set visited then claim_batch n us visited
               else (case claim_batch (n - 1) us (u # visited) of (batch, visited') \<Rightarrow> (u # batch, visited'))))"
  by (cases n; cases current) (simp_all del: claim_batch.simps(1) add: claim_batch.simps(1) split: prod.split)

definition insert_page :: "string \<Rightarrow> string list \<Rightarrow> string list" where
  "insert_page p pages = (if p \<in> set pages then pages else pages @ [p])"

text \<open>One pass over the page lists of a level, one page from each; it may fill the result.\<close>

fun fill_pass ::
    "('a sitemap_env_scheme) \<Rightarrow> string \<Rightarrow> nat \<Rightarrow> string list list \<Rightarrow> string list
      \<Rightarrow> string list list \<times> string list \<times> bool \<times> bool" where
  "fill_pass env target max_urls [] pages = ([], pages, False, False)"
| "fill_pass env target max_urls ([] # ls) pages =
    (case fill_pass env target max_urls ls pages of (ls', pages', progressed, full) \<Rightarrow> ([] # ls', pages', progressed, full))"
| "fill_pass env target max_urls ((p # l) # ls) pages =
    (if same_site env p target \<and> max_urls \<le> length (insert_page p pages)
     then (l # ls, insert_page p pages, True, True)
     else
       (case fill_pass env target max_urls ls (if same_site env p target then insert_page p pages else pages) of
          (ls', pages', progressed, full) \<Rightarrow> (l # ls', pages', True, full)))"

lemma fill_pass_shrinks:
  assumes "fill_pass env target n ls pages = (ls', pages', progressed, full)"
  shows "sum_list (map length ls') + of_bool progressed \<le> sum_list (map length ls)"
  using assms
proof (induction env target n ls pages arbitrary: ls' pages' progressed full rule: fill_pass.induct)
  case (2 env target n ls pages)
  then show ?case by (auto split: prod.splits)
next
  case (3 env target n p l ls pages)
  show ?case
  proof (cases "same_site env p target \<and> n \<le> length (insert_page p pages)")
    case True
    then show ?thesis using "3.prems" by auto
  next
    case False
    obtain a b c d where r:
      "fill_pass env target n ls (if same_site env p target then insert_page p pages else pages) = (a, b, c, d)"
      by (metis prod_cases4)
    show ?thesis using "3.prems" "3.IH" [OF False r] r False by auto
  qed
qed simp

lemma fill_pass_less:
  "(ls', pages', True, full) = fill_pass env target n ls pages
    \<Longrightarrow> sum_list (map length ls') < sum_list (map length ls)"
  using fill_pass_shrinks [of env target n ls pages ls' pages' True full] by simp

function fill_pages ::
    "('a sitemap_env_scheme) \<Rightarrow> string \<Rightarrow> nat \<Rightarrow> string list list \<Rightarrow> string list \<Rightarrow> string list" where
  "fill_pages env target max_urls ls pages =
    (case fill_pass env target max_urls ls pages of
       (ls', pages', progressed, full) \<Rightarrow>
         if full \<or> \<not> progressed then pages' else fill_pages env target max_urls ls' pages')"
  by pat_completeness auto
termination
  by (relation "measure (\<lambda>(env, target, n, ls, pages). sum_list (map length ls))")
    (auto dest!: fill_pass_less)

declare fill_pages.simps [simp del]

definition child_frontier :: "('a sitemap_env_scheme) \<Rightarrow> string \<Rightarrow> string list \<Rightarrow> sitemap_visit list \<Rightarrow> string list" where
  "child_frontier env target visited visits =
    concat (map (\<lambda>(u, r, parsed). filter (\<lambda>c. same_site env c target \<and> c \<notin> set visited) (sr_child_sitemaps r)) visits)"

record walk_state =
  wk_visited :: "string list"
  wk_pages :: "string list"
  wk_sitemaps :: "string list"
  wk_current :: "string list"
  wk_fetched :: nat
  wk_world :: walk_world

record walk_limits =
  wl_max_depth :: nat
  wl_max_sitemaps :: nat
  wl_max_urls :: nat
  wl_escalator :: bool
  wl_deadline :: "instant option"

text \<open>One level: the documents that are new, what they declare, and the level below.\<close>

definition walk_level ::
    "('a sitemap_env_scheme) \<Rightarrow> walk_limits \<Rightarrow> string \<Rightarrow> string list \<Rightarrow> walk_state \<Rightarrow> walk_state" where
  "walk_level env lm target batch st =
    (case visit_batch env (wl_escalator lm) (wl_deadline lm) (sm_claims env batch) (wk_world st) of
       (visits, w) \<Rightarrow>
         (let landed = sm_lands env visits
          in st\<lparr> wk_sitemaps := wk_sitemaps st @ map fst (filter (\<lambda>(u, r, parsed). parsed) landed),
                 wk_pages := fill_pages env target (wl_max_urls lm) (map (\<lambda>(u, r, parsed). sr_page_urls r) landed) (wk_pages st),
                 wk_current := child_frontier env target (wk_visited st) landed,
                 wk_world := w \<rparr>))"

function walk_loop ::
    "('a sitemap_env_scheme) \<Rightarrow> walk_limits \<Rightarrow> string \<Rightarrow> nat \<Rightarrow> walk_state \<Rightarrow> walk_state" where
  "walk_loop env lm target depth st =
    (if wk_current st = [] \<or> wl_max_depth lm < depth \<or> wl_max_sitemaps lm \<le> wk_fetched st then st
     else
       (case past_deadline env (wl_deadline lm) (wk_world st) of
          (True, w) \<Rightarrow> st\<lparr> wk_world := w \<rparr>
        | (False, w) \<Rightarrow>
            (case claim_batch (wl_max_sitemaps lm - wk_fetched st) (wk_current st) (wk_visited st) of
               (batch, visited) \<Rightarrow>
                 if batch = [] then st\<lparr> wk_visited := visited, wk_current := [], wk_world := w \<rparr>
                 else
                   (let st' = walk_level env lm target batch
                          (st\<lparr> wk_visited := visited, wk_current := [],
                               wk_fetched := wk_fetched st + length batch, wk_world := w \<rparr>)
                    in if wl_max_urls lm \<le> length (wk_pages st') then st'
                       else walk_loop env lm target (depth + 1) st'))))"
  by pat_completeness auto
termination
  by (relation "measure (\<lambda>(env, lm, target, depth, st). Suc (wl_max_depth lm) - depth)") auto

declare walk_loop.simps [simp del]

record sitemap_walk =
  sk_pages :: "string list"
  sk_sitemaps :: "string list"

definition sitemap_walk_default :: sitemap_walk where
  "sitemap_walk_default = \<lparr> sk_pages = [], sk_sitemaps = [] \<rparr>"

definition fetch_sitemap_tree ::
    "('a sitemap_env_scheme) \<Rightarrow> walk_limits \<Rightarrow> string list \<Rightarrow> url \<Rightarrow> walk_world \<Rightarrow> sitemap_walk \<times> walk_world" where
  "fetch_sitemap_tree env lm seeds target_origin w =
    (case site_key env target_origin of
       None \<Rightarrow> (sitemap_walk_default, w)
     | Some target \<Rightarrow>
         (let st = walk_loop env lm target 0
                \<lparr> wk_visited = [], wk_pages = [], wk_sitemaps = [],
                  wk_current = filter (\<lambda>u. same_site env u target) seeds, wk_fetched = 0, wk_world = w \<rparr>
          in (\<lparr> sk_pages = sm_hash_order env (wk_pages st), sk_sitemaps = wk_sitemaps st \<rparr>, wk_world st)))"

end
