(* ===== verification/Discover.thy ===== *)
theory Discover
  imports Crawl Sitemap Url_Filter Render_Types "HOL-Library.List_Lexorder" "HOL-Library.Char_ord"
begin

section \<open>Discovery of a site's URLs\<close>

text \<open>
  \<open>discover_urls\<close> of \<open>crates/crw-crawl/src/crawl.rs\<close>, the work of the map endpoint: the robots file,
  the walk of the sitemaps, then a breadth-first crawl for links, all within one deadline.
  \<open>discover_env\<close> adds to the environment of the sitemap walk what the crawl takes from outside: the
  parser with the parts of a URL the filter reads, the client for robots.txt, the renderer (its n-th
  fetch, with the budget it is given), link extraction and the two effects of time, the clock and
  whether a wait with a limit runs out (\<open>de_elapses\<close>). The HTTP client and its proxy, the rate
  limits and log lines are left out.

  Pages of a level are fetched in parallel and merged as they land; \<open>de_lands\<close> is the order in which
  they do. A page of a level that is abandoned may have been fetched too; the record \<open>dw_offered\<close>
  holds every URL that was offered to a level, fetched or not. A walk of the sitemaps that is cut
  short by its limit gives nothing.
\<close>

definition max_discovered_urls_ceiling :: nat where
  "max_discovered_urls_ceiling = 5000000"

definition sitemap_sufficient_threshold :: nat where
  "sitemap_sufficient_threshold = 50"

definition bfs_short_budget_secs :: nat where
  "bfs_short_budget_secs = 30"

definition sitemap_max_depth :: nat where
  "sitemap_max_depth = 3"

definition sitemap_escalate_deadline_ms :: nat where
  "sitemap_escalate_deadline_ms = 30000"

definition sitemap_escalate_budget :: nat where
  "sitemap_escalate_budget = 64"

definition sitemap_phase_budget_secs :: nat where
  "sitemap_phase_budget_secs = 75"

definition discovery_backstop_margin :: duration where
  "discovery_backstop_margin = from_secs 2"

record discover_options =
  do_base_url :: string
  do_max_depth :: nat
  do_use_sitemap :: bool
  do_crawl_fallback :: bool
  do_deadline_ms_per_page :: nat
  do_url_filter :: "url_filter_cfg option"
  do_max_urls :: nat
  do_overall_deadline :: instant
  do_respect_robots :: bool

record discover_result =
  dr_urls :: "string list"
  dr_dropped_action_count :: nat
  dr_stripped_tracking_count :: nat
  dr_sitemaps :: "string list"

record 'm discover_env = sitemap_env +
  de_parse :: "string \<Rightarrow> web_url option"
  de_parse_error :: "string \<Rightarrow> string"
  de_error_text :: "url_error \<Rightarrow> string"
  de_link :: "web_url \<Rightarrow> parsed_link"
  de_robots_client :: "string \<Rightarrow> http_reply"
  de_fetch :: "nat \<Rightarrow> string \<Rightarrow> bool option \<Rightarrow> nat \<Rightarrow> 'm fetch_result option"
  de_generic_wall :: "string \<Rightarrow> bool"
  de_js_capable :: bool
  de_links :: "string \<Rightarrow> string \<Rightarrow> string list"
  de_lands :: "nat \<Rightarrow> string list \<Rightarrow> string list"
  de_elapses :: "nat \<Rightarrow> bool"

subsection \<open>Time\<close>

text \<open>The deadline callers set inside their own timeout.\<close>

definition discovery_deadline :: "duration \<Rightarrow> instant \<Rightarrow> instant" where
  "discovery_deadline request_timeout now =
    now + max (request_timeout - discovery_backstop_margin) (from_millis 500)"

record discover_world =
  dw_ticks :: nat
  dw_waits :: nat
  dw_offered :: "string list"
  dw_fetched :: "string list"

definition now_of :: "('m, 'z) discover_env_scheme \<Rightarrow> discover_world \<Rightarrow> instant \<times> discover_world" where
  "now_of env w = (sm_clock env (dw_ticks w), w\<lparr> dw_ticks := dw_ticks w + 1 \<rparr>)"

definition wait_elapses :: "('m, 'z) discover_env_scheme \<Rightarrow> discover_world \<Rightarrow> bool \<times> discover_world" where
  "wait_elapses env w = (de_elapses env (dw_waits w), w\<lparr> dw_waits := dw_waits w + 1 \<rparr>)"

definition remaining_budget ::
    "('m, 'z) discover_env_scheme \<Rightarrow> instant \<Rightarrow> discover_world \<Rightarrow> duration option \<times> discover_world" where
  "remaining_budget env deadline w =
    (case now_of env w of
       (now, w') \<Rightarrow> (if deadline \<le> now then None else Some (deadline - now), w'))"

subsection \<open>Filtering\<close>

record discover_state =
  ds_urls :: "string list"
  ds_dropped :: nat
  ds_stripped :: nat
  ds_visited :: "string list"
  ds_next :: "string list"

definition effective_max_urls :: "nat \<Rightarrow> nat" where
  "effective_max_urls n =
    (if n = 0 then max_discovered_urls_ceiling else max 1 (min n max_discovered_urls_ceiling))"

definition sitemap_max_fetches :: "nat \<Rightarrow> nat" where
  "sitemap_max_fetches max_urls = max 200 (min (max_urls div 1000) 50000)"

definition parse_link :: "('m, 'z) discover_env_scheme \<Rightarrow> string \<Rightarrow> parsed_link option" where
  "parse_link env raw = map_option (de_link env) (de_parse env raw)"

definition filter_raw ::
    "('m, 'z) discover_env_scheme \<Rightarrow> url_filter_cfg option \<Rightarrow> string \<Rightarrow> discover_state \<Rightarrow> string option \<times> discover_state" where
  "filter_raw env url_filter raw st =
    (case url_filter of
       None \<Rightarrow> (Some (normalize_url (sm_lower env) raw), st)
     | Some cfg \<Rightarrow>
         (case filter_and_normalize_raw (sm_lower env) (parse_link env) raw cfg of
            None \<Rightarrow> (None, st\<lparr> ds_dropped := ds_dropped st + 1 \<rparr>)
          | Some s \<Rightarrow>
              (Some s,
               if CHR ''?'' \<in> set raw
                  \<and> (case parse_link env raw of
                       None \<Rightarrow> False
                     | Some p \<Rightarrow> s \<noteq> normalize_url (sm_lower env) raw \<and> pl_query p \<noteq> None)
               then st\<lparr> ds_stripped := ds_stripped st + 1 \<rparr> else st)))"

definition filter_parsed ::
    "('m, 'z) discover_env_scheme \<Rightarrow> url_filter_cfg option \<Rightarrow> web_url \<Rightarrow> string \<Rightarrow> discover_state
      \<Rightarrow> string option \<times> discover_state" where
  "filter_parsed env url_filter parsed raw st =
    (case url_filter of
       None \<Rightarrow> (Some (normalize_url (sm_lower env) raw), st)
     | Some cfg \<Rightarrow>
         (case filter_and_normalize_parsed (sm_lower env) (de_link env parsed) raw cfg of
            None \<Rightarrow> (None, st\<lparr> ds_dropped := ds_dropped st + 1 \<rparr>)
          | Some s \<Rightarrow>
              (Some s,
               if pl_query (de_link env parsed) \<noteq> None \<and> s \<noteq> normalize_url (sm_lower env) raw
               then st\<lparr> ds_stripped := ds_stripped st + 1 \<rparr> else st)))"

definition insert_url :: "string \<Rightarrow> string list \<Rightarrow> string list" where
  "insert_url u urls = (if u \<in> set urls then urls else u # urls)"

subsection \<open>The sitemap phase\<close>

definition discovered_robots ::
    "('m, 'z) discover_env_scheme \<Rightarrow> discover_options \<Rightarrow> string \<Rightarrow> discover_world \<Rightarrow> robots_txt \<times> discover_world" where
  "discovered_robots env opts origin w =
    (case remaining_budget env (do_overall_deadline opts) w of
       (None, w1) \<Rightarrow> (robots_empty, w1)
     | (Some _, w1) \<Rightarrow>
         (case wait_elapses env w1 of
            (True, w2) \<Rightarrow> (robots_empty, w2)
          | (False, w2) \<Rightarrow>
              (case robots_fetch (de_robots_client env) (sm_lossy env) origin of
                 Inr robots \<Rightarrow> (robots, w2)
               | Inl _ \<Rightarrow> (robots_empty, w2))))"

definition probe_candidates :: "string \<Rightarrow> string list" where
  "probe_candidates origin =
    [origin @ ''/wp-sitemap.xml'', origin @ ''/sitemap_index.xml'', origin @ ''/sitemap-index.xml'']"

definition sitemap_seeds ::
    "('m, 'z) discover_env_scheme \<Rightarrow> discover_options \<Rightarrow> string \<Rightarrow> robots_txt \<Rightarrow> discover_world
      \<Rightarrow> string list \<times> discover_world" where
  "sitemap_seeds env opts origin robots w =
    (if robots_sitemaps robots \<noteq> [] then (robots_sitemaps robots, w)
     else
       (let canonical = origin @ ''/sitemap.xml''
        in case remaining_budget env (do_overall_deadline opts) w of
             (None, w1) \<Rightarrow> ([canonical], w1)
           | (Some _, w1) \<Rightarrow>
               (case wait_elapses env w1 of
                  (elapsed, w2) \<Rightarrow>
                    (canonical # (if elapsed then [] else filter (head_probe env) (probe_candidates origin)), w2))))"

text \<open>A wall no tier could clear is not the sitemap.\<close>

definition escalate_render :: "('m, 'z) discover_env_scheme \<Rightarrow> string \<Rightarrow> string option" where
  "escalate_render env u =
    (case de_fetch env 0 u (Some True) sitemap_escalate_deadline_ms of
       None \<Rightarrow> None
     | Some r \<Rightarrow> if fr_wall r \<noteq> None \<and> de_generic_wall env (fr_html r) then None else Some (fr_html r))"

definition walk_limits_of :: "('m, 'z) discover_env_scheme \<Rightarrow> discover_options \<Rightarrow> instant \<Rightarrow> walk_limits" where
  "walk_limits_of env opts now =
    (let max_urls = effective_max_urls (do_max_urls opts)
     in \<lparr> wl_max_depth = sitemap_max_depth, wl_max_sitemaps = sitemap_max_fetches max_urls,
          wl_max_urls = max_urls, wl_escalator = de_js_capable env,
          wl_deadline = Some (min (now + from_secs sitemap_phase_budget_secs) (do_overall_deadline opts)) \<rparr>)"

definition sitemap_walk_of ::
    "('m, 'z) discover_env_scheme \<Rightarrow> discover_options \<Rightarrow> web_url \<Rightarrow> string list \<Rightarrow> discover_world
      \<Rightarrow> sitemap_walk \<times> discover_world" where
  "sitemap_walk_of env opts base seeds w =
    (case now_of env w of
       (now, w1) \<Rightarrow>
         (case remaining_budget env (do_overall_deadline opts) w1 of
            (None, w2) \<Rightarrow> (sitemap_walk_default, w2)
          | (Some _, w2) \<Rightarrow>
              (case wait_elapses env w2 of
                 (True, w3) \<Rightarrow> (sitemap_walk_default, w3)
               | (False, w3) \<Rightarrow>
                   (case fetch_sitemap_tree (env\<lparr> sm_render := escalate_render env \<rparr>) (walk_limits_of env opts now)
                           seeds (url.truncate base)
                           \<lparr> ww_sent = [], ww_rendered = [], ww_budget = sitemap_escalate_budget, ww_ticks = dw_ticks w3 \<rparr> of
                      (walk, ww) \<Rightarrow> (walk, w3\<lparr> dw_ticks := ww_ticks ww \<rparr>)))))"

fun take_pages ::
    "('m, 'z) discover_env_scheme \<Rightarrow> discover_options \<Rightarrow> string list \<Rightarrow> discover_state \<Rightarrow> discover_state" where
  "take_pages env opts [] st = st"
| "take_pages env opts (u # us) st =
    (if effective_max_urls (do_max_urls opts) \<le> length (ds_urls st) then st
     else
       (case filter_raw env (do_url_filter opts) u st of
          (None, st') \<Rightarrow> take_pages env opts us st'
        | (Some n, st') \<Rightarrow> take_pages env opts us (st'\<lparr> ds_urls := insert_url n (ds_urls st') \<rparr>)))"

subsection \<open>The crawl phase\<close>

definition link_is_safe :: "('m, 'z) discover_env_scheme \<Rightarrow> web_url \<Rightarrow> bool" where
  "link_is_safe env u = (validate_safe_url (sm_test_allow env) (url.truncate u) = Accepted)"

text \<open>
  The links of a page. A link is listed whatever robots.txt says of it; only its own fetch depends
  on that. The loop ends when the result is full.
\<close>

fun merge_links ::
    "('m, 'z) discover_env_scheme \<Rightarrow> discover_options \<Rightarrow> robots_txt \<Rightarrow> string \<Rightarrow> nat \<Rightarrow> nat \<Rightarrow> string list
      \<Rightarrow> discover_state \<Rightarrow> discover_state" where
  "merge_links env opts robots origin max_depth depth [] st = st"
| "merge_links env opts robots origin max_depth depth (link # links) st =
    (let continue = merge_links env opts robots origin max_depth depth links
     in case de_parse env link of
          None \<Rightarrow> continue st
        | Some link_url \<Rightarrow>
            if \<not> link_is_safe env link_url then continue st
            else if wu_origin link_url \<noteq> origin then continue st
            else
              (case filter_parsed env (do_url_filter opts) link_url link st of
                 (None, st1) \<Rightarrow> continue st1
               | (Some normalized, st1) \<Rightarrow>
                   if normalized \<in> set (ds_visited st1) then continue st1
                   else
                     (let st2 = st1\<lparr> ds_visited := normalized # ds_visited st1,
                                     ds_urls := insert_url normalized (ds_urls st1) \<rparr>
                      in if effective_max_urls (do_max_urls opts) \<le> length (ds_urls st2) then st2
                         else if max_depth \<le> depth \<or> is_static_asset link_url then continue st2
                         else if do_respect_robots opts
                                 \<and> (case de_parse env normalized of
                                      None \<Rightarrow> False
                                    | Some next_url \<Rightarrow>
                                        \<not> is_url_allowed (robots_rules robots) (wu_path next_url) (wu_query next_url))
                              then continue st2
                         else continue (st2\<lparr> ds_next := ds_next st2 @ [normalized] \<rparr>))))"

text \<open>The task of one page: its HTML, unless time, the guard, the fetch or a wall stops it.\<close>

definition page_task ::
    "('m, 'z) discover_env_scheme \<Rightarrow> discover_options \<Rightarrow> instant \<Rightarrow> string \<Rightarrow> discover_world
      \<Rightarrow> string option \<times> discover_world" where
  "page_task env opts bfs_deadline_at u w =
    (case remaining_budget env bfs_deadline_at w of
       (None, w1) \<Rightarrow> (None, w1)
     | (Some _, w1) \<Rightarrow>
         (case de_parse env u of
            None \<Rightarrow> (None, w1)
          | Some parsed \<Rightarrow>
              (case wait_elapses env w1 of
                 (elapsed, w2) \<Rightarrow>
                   if elapsed
                      \<or> validate_safe_url_resolved (sm_dns env) (sm_test_allow env) (url.truncate parsed) \<noteq> Accepted
                   then (None, w2)
                   else
                     (case remaining_budget env bfs_deadline_at w2 of
                        (None, w3) \<Rightarrow> (None, w3)
                      | (Some budget, w3) \<Rightarrow>
                          (case de_fetch env (length (dw_fetched w3)) u None
                                  (min (as_millis budget) (do_deadline_ms_per_page opts)) of
                             None \<Rightarrow> (None, w3\<lparr> dw_fetched := dw_fetched w3 @ [u] \<rparr>)
                           | Some r \<Rightarrow>
                               (if fr_wall r \<noteq> None \<and> de_generic_wall env (fr_html r) then None
                                else Some (fr_html r),
                                w3\<lparr> dw_fetched := dw_fetched w3 @ [u] \<rparr>))))))"

definition full_or_late ::
    "('m, 'z) discover_env_scheme \<Rightarrow> discover_options \<Rightarrow> instant \<Rightarrow> discover_state \<Rightarrow> discover_world
      \<Rightarrow> bool \<times> discover_world" where
  "full_or_late env opts bfs_deadline_at st w =
    (if effective_max_urls (do_max_urls opts) \<le> length (ds_urls st) then (True, w)
     else (case now_of env w of (now, w') \<Rightarrow> (bfs_deadline_at \<le> now, w')))"

text \<open>The pages of a level, in the order they land.\<close>

fun merge_pages ::
    "('m, 'z) discover_env_scheme \<Rightarrow> discover_options \<Rightarrow> robots_txt \<Rightarrow> string \<Rightarrow> nat \<Rightarrow> instant \<Rightarrow> nat \<Rightarrow> string list
      \<Rightarrow> discover_state \<Rightarrow> discover_world \<Rightarrow> discover_state \<times> discover_world" where
  "merge_pages env opts robots origin max_depth bfs_deadline_at depth [] st w = (st, w)"
| "merge_pages env opts robots origin max_depth bfs_deadline_at depth (u # us) st w =
    (case page_task env opts bfs_deadline_at u w of
       (page, w1) \<Rightarrow>
         (case wait_elapses env w1 of
            (True, w2) \<Rightarrow> (st, w2)
          | (False, w2) \<Rightarrow>
              (case full_or_late env opts bfs_deadline_at st w2 of
                 (True, w3) \<Rightarrow> (st, w3)
               | (False, w3) \<Rightarrow>
                   merge_pages env opts robots origin max_depth bfs_deadline_at depth us
                     (case page of
                        None \<Rightarrow> st
                      | Some html \<Rightarrow> merge_links env opts robots origin max_depth depth (de_links env html u) st) w3)))"

function discover_levels ::
    "('m, 'z) discover_env_scheme \<Rightarrow> discover_options \<Rightarrow> robots_txt \<Rightarrow> string \<Rightarrow> nat \<Rightarrow> instant \<Rightarrow> nat
      \<Rightarrow> string list \<Rightarrow> discover_state \<Rightarrow> discover_world \<Rightarrow> discover_state \<times> discover_world" where
  "discover_levels env opts robots origin max_depth bfs_deadline_at depth frontier st w =
    (if max_depth < depth \<or> frontier = [] then (st, w)
     else
       (case merge_pages env opts robots origin max_depth bfs_deadline_at depth (de_lands env depth frontier)
               (st\<lparr> ds_next := [] \<rparr>) (w\<lparr> dw_offered := dw_offered w @ frontier \<rparr>) of
          (st1, w1) \<Rightarrow>
            (case full_or_late env opts bfs_deadline_at st1 w1 of
               (True, w2) \<Rightarrow> (st1, w2)
             | (False, w2) \<Rightarrow>
                 discover_levels env opts robots origin max_depth bfs_deadline_at (depth + 1) (ds_next st1) st1 w2)))"
  by pat_completeness auto
termination
  by (relation "measure (\<lambda>(env, opts, robots, origin, max_depth, dl, depth, frontier, st, w). Suc max_depth - depth)") auto

declare discover_levels.simps [simp del]

subsection \<open>The call\<close>

definition discover_start :: "discover_options \<Rightarrow> discover_state" where
  "discover_start opts =
    \<lparr> ds_urls = [do_base_url opts], ds_dropped = 0, ds_stripped = 0, ds_visited = [], ds_next = [] \<rparr>"

definition discovered :: "discover_state \<Rightarrow> string list \<Rightarrow> discover_result" where
  "discovered st sitemaps =
    \<lparr> dr_urls = sort (ds_urls st), dr_dropped_action_count = ds_dropped st,
      dr_stripped_tracking_count = ds_stripped st, dr_sitemaps = sitemaps \<rparr>"

definition sitemap_phase ::
    "('m, 'z) discover_env_scheme \<Rightarrow> discover_options \<Rightarrow> web_url \<Rightarrow> robots_txt \<Rightarrow> discover_world
      \<Rightarrow> (discover_state \<times> string list) \<times> discover_world" where
  "sitemap_phase env opts base robots w =
    (if do_use_sitemap opts then
       (case sitemap_seeds env opts (wu_origin base) robots w of
          (seeds, w1) \<Rightarrow>
            (case sitemap_walk_of env opts base seeds w1 of
               (walk, w2) \<Rightarrow> ((take_pages env opts (sk_pages walk) (discover_start opts), sk_sitemaps walk), w2)))
     else ((discover_start opts, []), w))"

definition crawl_phase ::
    "('m, 'z) discover_env_scheme \<Rightarrow> discover_options \<Rightarrow> web_url \<Rightarrow> robots_txt \<Rightarrow> discover_state \<Rightarrow> discover_world
      \<Rightarrow> discover_state \<times> discover_world" where
  "crawl_phase env opts base robots st w =
    (case (if sitemap_sufficient_threshold \<le> length (ds_urls st)
           then (case now_of env w of
                   (now, w1) \<Rightarrow> (min (now + from_secs bfs_short_budget_secs) (do_overall_deadline opts), w1))
           else (do_overall_deadline opts, w)) of
       (bfs_deadline_at, w1) \<Rightarrow>
         discover_levels env opts robots (wu_origin base) (min (do_max_depth opts) 10) bfs_deadline_at 0
           [do_base_url opts] (st\<lparr> ds_visited := [normalize_url (sm_lower env) (do_base_url opts)] \<rparr>) w1)"

text \<open>The phases after the seed has been accepted.\<close>

definition discover_from ::
    "('m, 'z) discover_env_scheme \<Rightarrow> discover_options \<Rightarrow> web_url \<Rightarrow> discover_world \<Rightarrow> discover_result \<times> discover_world" where
  "discover_from env opts base w =
    (case discovered_robots env opts (wu_origin base) w of
       (robots, w1) \<Rightarrow>
         (case sitemap_phase env opts base robots w1 of
            ((st, sitemaps), w2) \<Rightarrow>
              if \<not> do_crawl_fallback opts then (discovered st sitemaps, w2)
              else (case crawl_phase env opts base robots st w2 of (st', w3) \<Rightarrow> (discovered st' sitemaps, w3))))"

definition discover_urls ::
    "('m, 'z) discover_env_scheme \<Rightarrow> discover_options \<Rightarrow> discover_world
      \<Rightarrow> (crw_error + discover_result) \<times> discover_world" where
  "discover_urls env opts w =
    (case de_parse env (do_base_url opts) of
       None \<Rightarrow> (Inl (InvalidRequest (''Invalid URL: '' @ de_parse_error env (do_base_url opts))), w)
     | Some base \<Rightarrow>
         (case remaining_budget env (do_overall_deadline opts) w of
            (None, w1) \<Rightarrow> (Inl (Timeout 0), w1)
          | (Some seed_budget, w1) \<Rightarrow>
              (case wait_elapses env w1 of
                 (True, w2) \<Rightarrow> (Inl (Timeout (as_millis seed_budget)), w2)
               | (False, w2) \<Rightarrow>
                   (case validate_safe_url_resolved (sm_dns env) (sm_test_allow env) (url.truncate base) of
                      Inl e \<Rightarrow> (Inl (InvalidRequest (de_error_text env e)), w2)
                    | Inr _ \<Rightarrow>
                        if url_host base = None then (Inl (InvalidRequest ''URL has no host''), w2)
                        else (case discover_from env opts base w2 of (r, w3) \<Rightarrow> (Inr r, w3))))))"

end
