(* ===== verification/Sitemap_Props.thy ===== *)
theory Sitemap_Props
  imports Sitemap "HOL-Library.Multiset" "HOL-Library.Code_Target_Nat"
begin

section \<open>Properties of the sitemap walk\<close>

text \<open>
  The requests of a walk are followed through its stages: one document, a batch, a level, the loop.
  A stage appends to the record of requests, and what it appends comes from the documents it was
  given, in their order.
\<close>

text \<open>Requests \<open>s\<close> and renders \<open>r\<close> went out, for documents of \<open>us\<close>; those of \<open>found\<close> were sitemaps.\<close>

definition walked :: "('a sitemap_env_scheme) \<Rightarrow> string list \<Rightarrow> string list \<Rightarrow> walk_world \<Rightarrow> walk_world \<Rightarrow> bool" where
  "walked env us found w w' \<longleftrightarrow>
    (\<exists>s r. ww_sent w' = ww_sent w @ s \<and> ww_rendered w' = ww_rendered w @ r \<and> subseq s us \<and> subseq r s
      \<and> length r + ww_budget w' = ww_budget w \<and> set found \<subseteq> set s \<and> list_all (\<lambda>u. sitemap_request env u \<noteq> None) s)"

lemma past_deadline_keeps [simp]:
  "past_deadline env d w = (b, w') \<Longrightarrow>
    ww_sent w' = ww_sent w \<and> ww_rendered w' = ww_rendered w \<and> ww_budget w' = ww_budget w"
  by (auto simp: past_deadline_def split: option.splits)

lemma walked_refl: "ww_sent w' = ww_sent w \<Longrightarrow> ww_rendered w' = ww_rendered w \<Longrightarrow> ww_budget w' = ww_budget w
    \<Longrightarrow> walked env us [] w w'"
  by (auto simp: walked_def)

lemma walked_append:
  assumes "walked env us f w w1" "walked env vs g w1 w2"
  shows "walked env (us @ vs) (f @ g) w w2"
proof -
  obtain s r where sr: "ww_sent w1 = ww_sent w @ s" "ww_rendered w1 = ww_rendered w @ r" "subseq s us"
    "subseq r s" "length r + ww_budget w1 = ww_budget w" "set f \<subseteq> set s"
    "list_all (\<lambda>u. sitemap_request env u \<noteq> None) s"
    using assms(1) unfolding walked_def by blast
  obtain s' r' where sr': "ww_sent w2 = ww_sent w1 @ s'" "ww_rendered w2 = ww_rendered w1 @ r'" "subseq s' vs"
    "subseq r' s'" "length r' + ww_budget w2 = ww_budget w1" "set g \<subseteq> set s'"
    "list_all (\<lambda>u. sitemap_request env u \<noteq> None) s'"
    using assms(2) unfolding walked_def by blast
  show ?thesis
    unfolding walked_def using sr sr'
    by (intro exI [of _ "s @ s'"] exI [of _ "r @ r'"]) (auto intro: list_emb_append_mono)
qed

lemma fetch_raw_walked:
  assumes "fetch_sitemap_raw env u w = (out, w')"
  shows "walked env [u] (if out = SitemapEmpty then [] else [u]) w w'
    \<and> ww_rendered w' = ww_rendered w \<and> (out \<noteq> SitemapEmpty \<longrightarrow> ww_sent w' = ww_sent w @ [u] \<and> sitemap_request env u \<noteq> None)
    \<and> ww_budget w' = ww_budget w"
  using assms
proof (cases "sitemap_request env u")
  case None
  then show ?thesis using assms by (simp add: fetch_sitemap_raw_def walked_refl)
next
  case (Some site)
  then have "ww_sent w' = ww_sent w @ [u]" "ww_rendered w' = ww_rendered w" "ww_budget w' = ww_budget w"
    using assms by (auto simp: fetch_sitemap_raw_def)
  then show ?thesis using Some by (auto simp: walked_def intro!: exI [of _ "[u]"])
qed

definition parsed_urls :: "sitemap_visit list \<Rightarrow> string list" where
  "parsed_urls vs = map fst (filter (\<lambda>(u, r, parsed). parsed) vs)"

lemma parsed_urls_simps [simp]:
  "parsed_urls [] = []"
  "parsed_urls ((u, r, p) # vs) = (if p then u # parsed_urls vs else parsed_urls vs)"
  by (simp_all add: parsed_urls_def)

lemma try_render_effect:
  assumes "try_render env u w = (r, w')"
  shows "ww_sent w' = ww_sent w \<and>
    (ww_rendered w' = ww_rendered w \<and> ww_budget w' = ww_budget w
     \<or> ww_rendered w' = ww_rendered w @ [u] \<and> Suc (ww_budget w') = ww_budget w)"
  using assms by (auto simp: try_render_def split: if_splits)

lemma visit_walked:
  assumes "visit_sitemap env esc dl u w = ((u', r, parsed), w')"
  shows "u' = u \<and> walked env [u] (if parsed then [u] else []) w w'"
proof -
  obtain out w1 where f: "fetch_sitemap_raw env u w = (out, w1)" by (cases "fetch_sitemap_raw env u w")
  note f1 = fetch_raw_walked [OF f]
  show ?thesis
  proof (cases out)
    case (SitemapParsed x)
    then show ?thesis using assms f f1 by (auto simp: visit_sitemap_def)
  next
    case SitemapEmpty
    then show ?thesis using assms f f1 by (auto simp: visit_sitemap_def)
  next
    case SitemapChallenged
    then have sent: "ww_sent w1 = ww_sent w @ [u]" "sitemap_request env u \<noteq> None" "ww_rendered w1 = ww_rendered w"
      "ww_budget w1 = ww_budget w"
      using f1 by auto
    show ?thesis
    proof (cases esc)
      case False
      then show ?thesis
        using assms f sent SitemapChallenged by (auto simp: visit_sitemap_def walked_def intro!: exI [of _ "[u]"])
    next
      case True
      obtain b w2 where b: "past_deadline env dl w1 = (b, w2)" by (cases "past_deadline env dl w1")
      note keep = past_deadline_keeps [OF b]
      show ?thesis
      proof (cases b)
        case True
        then show ?thesis
          using assms f sent SitemapChallenged \<open>esc\<close> b keep
          by (auto simp: visit_sitemap_def walked_def intro!: exI [of _ "[u]"])
      next
        case False
        obtain x w3 where t: "try_render env u w2 = (x, w3)" by (cases "try_render env u w2")
        have "u' = u" "w' = w3" using assms f SitemapChallenged \<open>esc\<close> b False t by (auto simp: visit_sitemap_def)
        moreover have "walked env [u] [u] w w3"
        proof -
          have "ww_sent w3 = ww_sent w @ [u]" using try_render_effect [OF t] sent keep by simp
          moreover consider "ww_rendered w3 = ww_rendered w @ []" "length [] + ww_budget w3 = ww_budget w"
            | "ww_rendered w3 = ww_rendered w @ [u]" "length [u] + ww_budget w3 = ww_budget w"
            using try_render_effect [OF t] sent keep by auto
          ultimately show ?thesis using sent(2) unfolding walked_def by cases (rule exI [of _ "[u]"], force)+
        qed
        ultimately show ?thesis by (auto simp: walked_def)
      qed
    qed
  qed
qed

lemma visit_batch_walked:
  "visit_batch env esc dl us w = (vs, w') \<Longrightarrow> map fst vs = us \<and> walked env us (parsed_urls vs) w w'"
proof (induction us arbitrary: w vs w')
  case Nil
  then show ?case by (simp add: walked_refl)
next
  case (Cons u us)
  obtain u' r p w1 where v: "visit_sitemap env esc dl u w = ((u', r, p), w1)" by (metis prod_cases3 surj_pair)
  obtain vs' w2 where b: "visit_batch env esc dl us w1 = (vs', w2)" by (cases "visit_batch env esc dl us w1")
  have eq: "vs = (u', r, p) # vs'" "w' = w2" using Cons.prems v b by auto
  show ?case
    using walked_append [OF conjunct2 [OF visit_walked [OF v]] conjunct2 [OF Cons.IH [OF b]]] visit_walked [OF v]
      Cons.IH [OF b] eq by (auto split: if_splits)
qed

lemma claim_batch_effect:
  "claim_batch n us visited = (batch, visited') \<Longrightarrow>
    length batch \<le> n \<and> distinct batch \<and> set batch \<inter> set visited = {} \<and> set batch \<subseteq> set us
    \<and> set visited' = set visited \<union> set batch"
proof (induction n us visited arbitrary: batch visited' rule: claim_batch.induct)
  case (3 n u us visited)
  show ?case
  proof (cases "u \<in> set visited")
    case True
    then show ?thesis using "3.IH"(1) [OF True, of batch visited'] "3.prems" by auto
  next
    case False
    obtain b v where c: "claim_batch n us (u # visited) = (b, v)" by (metis surj_pair)
    then have "batch = u # b" "visited' = v" using "3.prems" False by auto
    then show ?thesis using "3.IH"(2) [OF False c] False by auto
  qed
qed auto

subsection \<open>Pages\<close>

definition pages_ok :: "('a sitemap_env_scheme) \<Rightarrow> string \<Rightarrow> string list \<Rightarrow> bool" where
  "pages_ok env target pages \<longleftrightarrow> distinct pages \<and> list_all (\<lambda>p. same_site env p target) pages"

lemma pages_ok_insert: "pages_ok env target pages \<Longrightarrow> same_site env p target \<Longrightarrow> pages_ok env target (insert_page p pages)"
  by (simp add: pages_ok_def insert_page_def)

lemma length_insert_page: "length (insert_page p pages) \<le> Suc (length pages)" "insert_page p pages \<noteq> []"
  by (auto simp: insert_page_def)

lemma fill_pass_ok:
  assumes "fill_pass env target n ls pages = (ls', pages', progressed, full)"
    "pages_ok env target pages" "length pages < max 1 n"
  shows "pages_ok env target pages' \<and> length pages' \<le> max 1 n \<and> (\<not> full \<longrightarrow> length pages' < max 1 n)"
  using assms
proof (induction env target n ls pages arbitrary: ls' pages' progressed full rule: fill_pass.induct)
  case (2 env target n ls pages)
  then show ?case by (auto split: prod.splits)
next
  case (3 env target n p l ls pages)
  let ?next = "if same_site env p target then insert_page p pages else pages"
  show ?case
  proof (cases "same_site env p target \<and> n \<le> length (insert_page p pages)")
    case True
    then show ?thesis
      using "3.prems" length_insert_page(1) [of p pages] by (auto simp: pages_ok_insert)
  next
    case False
    obtain a b c d where r: "fill_pass env target n ls ?next = (a, b, c, d)" by (metis prod_cases4)
    have "pages_ok env target ?next" "length ?next < max 1 n"
      using "3.prems" False by (auto simp: pages_ok_insert)
    then show ?thesis using "3.prems"(1) "3.IH" [OF False r] r False by (auto simp: if_bool_eq_conj)
  qed
qed simp

lemma fill_pages_ok:
  assumes "pages_ok env target pages" "length pages < max 1 n"
  shows "pages_ok env target (fill_pages env target n ls pages) \<and> length (fill_pages env target n ls pages) \<le> max 1 n"
  using assms
proof (induction env target n ls pages rule: fill_pages.induct)
  case (1 env target n ls pages)
  obtain ls' pages' progressed full where
    r: "fill_pass env target n ls pages = (ls', pages', progressed, full)" by (metis prod_cases4)
  note ok = fill_pass_ok [OF r "1.prems"]
  show ?case
  proof (cases "full \<or> \<not> progressed")
    case True
    then show ?thesis using ok by (simp add: fill_pages.simps [of env target n ls pages] r)
  next
    case False
    then show ?thesis
      using ok "1.IH" [OF r [symmetric] refl refl False] by (simp add: fill_pages.simps [of env target n ls pages] r)
  qed
qed

subsection \<open>The loop\<close>

text \<open>Completion orders only reorder.\<close>

definition orders_permute :: "('a sitemap_env_scheme) \<Rightarrow> bool" where
  "orders_permute env \<longleftrightarrow>
    (\<forall>us. mset (sm_claims env us) = mset us) \<and> (\<forall>vs. mset (sm_lands env vs) = mset vs)
    \<and> (\<forall>ps. mset (sm_hash_order env ps) = mset ps)"

text \<open>What a walk from \<open>w0\<close> has done so far.\<close>

definition walk_ok :: "('a sitemap_env_scheme) \<Rightarrow> walk_limits \<Rightarrow> string \<Rightarrow> walk_world \<Rightarrow> walk_state \<Rightarrow> bool" where
  "walk_ok env lm target w0 st \<longleftrightarrow>
    (\<exists>s r. ww_sent (wk_world st) = ww_sent w0 @ s \<and> ww_rendered (wk_world st) = ww_rendered w0 @ r
      \<and> distinct s \<and> distinct r \<and> set r \<subseteq> set s \<and> set s \<subseteq> set (wk_visited st)
      \<and> length s \<le> wl_max_sitemaps lm \<and> length s \<le> wk_fetched st
      \<and> length r + ww_budget (wk_world st) = ww_budget w0
      \<and> list_all (\<lambda>u. sitemap_request env u = Some target) s
      \<and> distinct (wk_sitemaps st) \<and> set (wk_sitemaps st) \<subseteq> set s)
    \<and> list_all (\<lambda>u. same_site env u target) (wk_current st)
    \<and> pages_ok env target (wk_pages st) \<and> length (wk_pages st) \<le> max 1 (wl_max_urls lm)"

lemma same_site_request: "same_site env u target \<Longrightarrow> sitemap_request env u \<noteq> None \<Longrightarrow> sitemap_request env u = Some target"
  by (auto simp: same_site_def sitemap_request_def split: option.splits sum.splits)

lemma walk_ok_cong:
  "walk_ok env lm target w0 st \<Longrightarrow> ww_sent w = ww_sent (wk_world st) \<Longrightarrow> ww_rendered w = ww_rendered (wk_world st)
    \<Longrightarrow> ww_budget w = ww_budget (wk_world st) \<Longrightarrow> set (wk_visited st) \<subseteq> set v \<Longrightarrow> wk_fetched st \<le> f
    \<Longrightarrow> walk_ok env lm target w0 (st\<lparr> wk_visited := v, wk_current := [], wk_fetched := f, wk_world := w \<rparr>)"
  by (fastforce simp: walk_ok_def)

lemma walk_level_ok:
  assumes perm: "orders_permute env" and ok: "walk_ok env lm target w0 st"
    and batch: "distinct batch" "set batch \<inter> set (wk_visited st) = {}" "set batch \<subseteq> set (wk_visited st')"
      "list_all (\<lambda>u. same_site env u target) batch"
    and st': "st' = st\<lparr> wk_visited := visited, wk_current := [], wk_fetched := wk_fetched st + length batch, wk_world := w \<rparr>"
      "set (wk_visited st) \<subseteq> set visited" "ww_sent w = ww_sent (wk_world st)"
      "ww_rendered w = ww_rendered (wk_world st)" "ww_budget w = ww_budget (wk_world st)"
    and room: "wk_fetched st + length batch \<le> wl_max_sitemaps lm" "length (wk_pages st) < max 1 (wl_max_urls lm)"
  shows "walk_ok env lm target w0 (walk_level env lm target batch st')
    \<and> wk_fetched (walk_level env lm target batch st') = wk_fetched st + length batch"
proof -
  obtain visits w2 where v:
    "visit_batch env (wl_escalator lm) (wl_deadline lm) (sm_claims env batch) w = (visits, w2)"
    by (metis surj_pair)
  let ?lvl = "walk_level env lm target batch st'"
  have lvl: "wk_world ?lvl = w2" "wk_visited ?lvl = visited" "wk_fetched ?lvl = wk_fetched st + length batch"
    "wk_sitemaps ?lvl = wk_sitemaps st @ parsed_urls (sm_lands env visits)"
    "wk_pages ?lvl = fill_pages env target (wl_max_urls lm) (map (\<lambda>(u, r, parsed). sr_page_urls r) (sm_lands env visits)) (wk_pages st)"
    "wk_current ?lvl = child_frontier env target visited (sm_lands env visits)"
    using v st'(1) by (simp_all add: walk_level_def parsed_urls_def Let_def)
  obtain s r where sr: "ww_sent (wk_world st) = ww_sent w0 @ s" "ww_rendered (wk_world st) = ww_rendered w0 @ r"
    "distinct s" "distinct r" "set r \<subseteq> set s" "set s \<subseteq> set (wk_visited st)" "length s \<le> wl_max_sitemaps lm"
    "length s \<le> wk_fetched st" "length r + ww_budget (wk_world st) = ww_budget w0"
    "list_all (\<lambda>u. sitemap_request env u = Some target) s" "distinct (wk_sitemaps st)" "set (wk_sitemaps st) \<subseteq> set s"
    using ok unfolding walk_ok_def by blast
  note vb = visit_batch_walked [OF v]
  then obtain s' r' where sr': "ww_sent w2 = ww_sent w @ s'" "ww_rendered w2 = ww_rendered w @ r'"
    "subseq s' (sm_claims env batch)" "subseq r' s'" "length r' + ww_budget w2 = ww_budget w"
    "set (parsed_urls visits) \<subseteq> set s'" "list_all (\<lambda>u. sitemap_request env u \<noteq> None) s'"
    unfolding walked_def by blast
  have perms: "mset (sm_claims env batch) = mset batch" "mset (sm_lands env visits) = mset visits"
    using perm by (simp_all add: orders_permute_def)
  have claims: "set (sm_claims env batch) = set batch" "distinct (sm_claims env batch)"
    "length (sm_claims env batch) = length batch"
    using perms(1) batch(1) by (metis set_mset_mset, metis distinct_count_atmost_1 set_mset_mset, metis size_mset)
  have new: "set s' \<subseteq> set batch" "distinct s'" "distinct r'" "set r' \<subseteq> set s'" "length s' \<le> length batch"
    using claims subseq_set [OF sr'(3)] subseq_set [OF sr'(4)] subseq_distinct' [OF sr'(3)]
      subseq_distinct' [OF sr'(4)] list_emb_length [OF sr'(3)] by auto
  have found: "mset (parsed_urls (sm_lands env visits)) = mset (parsed_urls visits)"
    unfolding parsed_urls_def using perms(2) by (metis mset_filter mset_map)
  then have found': "set (parsed_urls (sm_lands env visits)) = set (parsed_urls visits)"
    "distinct (parsed_urls (sm_lands env visits)) = distinct (parsed_urls visits)"
    by (metis set_mset_mset, metis mset_eq_imp_distinct_iff)
  have "subseq (parsed_urls visits) (sm_claims env batch)"
    using vb unfolding parsed_urls_def by (metis subseq_filter_left subseq_map)
  then have dist: "distinct (parsed_urls visits)" using claims(2) subseq_distinct' by blast
  have "list_all (\<lambda>u. sitemap_request env u = Some target) s'"
    using sr'(7) new(1) batch(4) same_site_request unfolding list_all_iff by blast
  moreover have "set s' \<inter> set s = {}" using new(1) sr(6) batch(2) by blast
  moreover have "set s' \<subseteq> set visited" using new(1) batch(3) st'(1) by auto
  moreover have "length s + length s' \<le> wk_fetched st + length batch" using new(5) sr(8) by linarith
  moreover have "list_all (\<lambda>u. same_site env u target) (wk_current ?lvl)"
    using lvl(6) by (auto simp: child_frontier_def list_all_iff)
  moreover have "pages_ok env target (wk_pages ?lvl) \<and> length (wk_pages ?lvl) \<le> max 1 (wl_max_urls lm)"
    unfolding lvl(5) using ok room(2) by (intro fill_pages_ok) (simp_all add: walk_ok_def)
  moreover have "set (wk_sitemaps st) \<inter> set (parsed_urls visits) = {}"
    using sr(12) sr'(6) \<open>set s' \<inter> set s = {}\<close> by blast
  ultimately have "walk_ok env lm target w0 ?lvl"
    unfolding walk_ok_def lvl(1-4) using sr sr' st' new found' dist room(1)
    by (intro conjI exI [of _ "s @ s'"] exI [of _ "r @ r'"]) auto
  then show ?thesis using lvl(3) by simp
qed

lemma walk_loop_ok:
  assumes "orders_permute env" "walk_ok env lm target w0 st" "length (wk_pages st) < max 1 (wl_max_urls lm)"
  shows "walk_ok env lm target w0 (walk_loop env lm target depth st)"
  using assms
proof (induction env lm target depth st rule: walk_loop.induct)
  case (1 env lm target depth st)
  note ok = "1.prems"(2)
  obtain b w where b: "past_deadline env (wl_deadline lm) (wk_world st) = (b, w)" by (metis surj_pair)
  note keep = past_deadline_keeps [OF b]
  obtain batch visited where c:
    "claim_batch (wl_max_sitemaps lm - wk_fetched st) (wk_current st) (wk_visited st) = (batch, visited)"
    by (metis surj_pair)
  note claim = claim_batch_effect [OF c]
  let ?stop = "wk_current st = [] \<or> wl_max_depth lm < depth \<or> wl_max_sitemaps lm \<le> wk_fetched st"
  let ?st' = "st\<lparr> wk_visited := visited, wk_current := [], wk_fetched := wk_fetched st + length batch, wk_world := w \<rparr>"
  let ?lvl = "walk_level env lm target batch ?st'"
  show ?case
  proof (cases "?stop \<or> b \<or> batch = []")
    case True
    have "walk_ok env lm target w0 (st\<lparr> wk_world := w \<rparr>)" using ok keep by (simp add: walk_ok_def)
    moreover have "walk_ok env lm target w0 (st\<lparr> wk_visited := visited, wk_current := [], wk_world := w \<rparr>)"
      using walk_ok_cong [OF ok, of w visited "wk_fetched st"] keep claim by simp
    ultimately show ?thesis
      using True ok b c by (auto simp: walk_loop.simps [of env lm target depth st] split: bool.splits)
  next
    case False
    have "list_all (\<lambda>u. same_site env u target) batch"
      using claim ok unfolding walk_ok_def list_all_iff by blast
    then have lvl: "walk_ok env lm target w0 ?lvl"
      using walk_level_ok [OF "1.prems"(1) ok, of batch ?st' w visited] claim keep False "1.prems"(3) by auto
    show ?thesis
    proof (cases "wl_max_urls lm \<le> length (wk_pages ?lvl)")
      case True
      then show ?thesis using False lvl b c by (simp add: walk_loop.simps [of env lm target depth st] Let_def)
    next
      case more: False
      have "walk_ok env lm target w0 (walk_loop env lm target (depth + 1) ?lvl)"
        using "1.IH" [of False w batch visited ?lvl] False b c more lvl "1.prems"(1) by auto
      then show ?thesis using False more b c by (simp add: walk_loop.simps [of env lm target depth st] Let_def)
    qed
  qed
qed

lemma walk_starts_ok:
  "walk_ok env lm target w
    \<lparr> wk_visited = [], wk_pages = [], wk_sitemaps = [], wk_current = filter (\<lambda>u. same_site env u target) seeds,
      wk_fetched = 0, wk_world = w \<rparr>"
  by (auto simp: walk_ok_def pages_ok_def list_all_iff)

lemma tree_pages_home:
  assumes "orders_permute env" "fetch_sitemap_tree env lm seeds origin w = (walk, w')" "p \<in> set (sk_pages walk)"
  shows "\<exists>target. site_key env origin = Some target \<and> same_site env p target"
proof (cases "site_key env origin")
  case None
  then show ?thesis using assms(2,3) by (auto simp: fetch_sitemap_tree_def sitemap_walk_default_def)
next
  case (Some target)
  define st where "st = walk_loop env lm target 0
    \<lparr> wk_visited = [], wk_pages = [], wk_sitemaps = [], wk_current = filter (\<lambda>u. same_site env u target) seeds,
      wk_fetched = 0, wk_world = w \<rparr>"
  have "walk_ok env lm target w st" unfolding st_def by (intro walk_loop_ok walk_starts_ok assms(1)) simp
  moreover have "set (sk_pages walk) = set (wk_pages st)"
    using assms(1,2) Some by (auto simp: st_def fetch_sitemap_tree_def Let_def orders_permute_def) (metis set_mset_mset)+
  ultimately show ?thesis using Some assms(3) by (auto simp: walk_ok_def pages_ok_def list_all_iff)
qed

lemma sitemap_request_Some:
  assumes "sitemap_request env u = Some t"
  shows "case sm_parse env u of
      Some p \<Rightarrow> site_key env p = Some t \<and> validate_safe_url_resolved (sm_dns env) (sm_test_allow env) p = Accepted
    | None \<Rightarrow> False"
  using assms by (auto simp: sitemap_request_def split: option.splits sum.splits)

text \<open>
  C17. A walk stays at home and within its limits. Every request goes out once, at most as many as
  allowed, for a document of the target site that the guard on addresses accepts; only a requested
  document is rendered, within the renderer's budget. The pages and the sitemaps of the result are
  free of duplicates, the pages belong to the site and are no more than asked for, and a sitemap of
  the result is a document that was requested.
\<close>

theorem sitemap_walk_stays_home:
  assumes "orders_permute env" "site_key env origin = Some target"
    and "fetch_sitemap_tree env lm seeds origin w = (walk, w')"
  shows "\<exists>sent rendered. ww_sent w' = ww_sent w @ sent \<and> ww_rendered w' = ww_rendered w @ rendered
    \<and> distinct sent \<and> length sent \<le> wl_max_sitemaps lm
    \<and> list_all (\<lambda>u. case sm_parse env u of
          Some p \<Rightarrow> site_key env p = Some target
            \<and> validate_safe_url_resolved (sm_dns env) (sm_test_allow env) p = Accepted
        | None \<Rightarrow> False) sent
    \<and> distinct rendered \<and> set rendered \<subseteq> set sent \<and> length rendered \<le> ww_budget w
    \<and> distinct (sk_pages walk) \<and> list_all (\<lambda>p. same_site env p target) (sk_pages walk)
    \<and> length (sk_pages walk) \<le> max 1 (wl_max_urls lm)
    \<and> distinct (sk_sitemaps walk) \<and> set (sk_sitemaps walk) \<subseteq> set sent"
proof -
  let ?st0 = "\<lparr> wk_visited = [], wk_pages = [], wk_sitemaps = [], wk_current = filter (\<lambda>u. same_site env u target) seeds,
    wk_fetched = 0, wk_world = w \<rparr>"
  define st where "st = walk_loop env lm target 0 ?st0"
  have "walk_ok env lm target w st"
    unfolding st_def by (intro walk_loop_ok walk_starts_ok assms(1)) simp
  then obtain s r where sr: "ww_sent (wk_world st) = ww_sent w @ s" "ww_rendered (wk_world st) = ww_rendered w @ r"
    "distinct s" "distinct r" "set r \<subseteq> set s" "length s \<le> wl_max_sitemaps lm"
    "length r + ww_budget (wk_world st) = ww_budget w" "list_all (\<lambda>u. sitemap_request env u = Some target) s"
    "distinct (wk_sitemaps st)" "set (wk_sitemaps st) \<subseteq> set s"
    and pages: "pages_ok env target (wk_pages st)" "length (wk_pages st) \<le> max 1 (wl_max_urls lm)"
    unfolding walk_ok_def by blast
  have eq: "w' = wk_world st" "sk_sitemaps walk = wk_sitemaps st" "sk_pages walk = sm_hash_order env (wk_pages st)"
    using assms(2,3) by (auto simp: st_def fetch_sitemap_tree_def Let_def)
  have hash: "mset (sk_pages walk) = mset (wk_pages st)" using assms(1) eq(3) by (simp add: orders_permute_def)
  then have same: "set (sk_pages walk) = set (wk_pages st)" "length (sk_pages walk) = length (wk_pages st)"
    "distinct (sk_pages walk) = distinct (wk_pages st)"
    by (metis set_mset_mset, metis size_mset, metis mset_eq_imp_distinct_iff)
  have "distinct (sk_pages walk)" "list_all (\<lambda>p. same_site env p target) (sk_pages walk)"
    "length (sk_pages walk) \<le> max 1 (wl_max_urls lm)"
    using pages same unfolding pages_ok_def list.pred_set by simp_all
  moreover have "list_all (\<lambda>u. case sm_parse env u of
      Some p \<Rightarrow> site_key env p = Some target
        \<and> validate_safe_url_resolved (sm_dns env) (sm_test_allow env) p = Accepted
    | None \<Rightarrow> False) s"
    using sr(8) sitemap_request_Some unfolding list_all_iff by blast
  moreover have "length r \<le> ww_budget w" using sr(7) by linarith
  ultimately show ?thesis
    using sr(1-6,9,10) unfolding eq(1) [symmetric] eq(2) [symmetric] by blast
qed

definition demo_sitemap_url :: "string \<Rightarrow> url option" where
  "demo_sitemap_url s =
    (if prefix ''https://a.com/'' s
     then Some \<lparr> url_text = s, url_scheme = ''https'', url_host = Some ''a.com'', url_port = Some 443 \<rparr>
     else if prefix ''https://b.com/'' s
     then Some \<lparr> url_text = s, url_scheme = ''https'', url_host = Some ''b.com'', url_port = Some 443 \<rparr>
     else None)"

definition demo_sitemap_env :: sitemap_env where
  "demo_sitemap_env =
    \<lparr> sm_parse = demo_sitemap_url, sm_dns = (\<lambda>_ _. DnsFailed), sm_test_allow = True, sm_lower = to_ascii_lowercase,
      sm_get = (\<lambda>u. map_option (\<lambda>p. \<lparr> sy_final_url = p, sy_status = (if u = ''https://a.com/p.xml'' then 403 else 200),
          sy_body = [Inr ''<sitemapindex>''] \<rparr>) (demo_sitemap_url u)),
      sm_head = (\<lambda>_. None), sm_gunzip = (\<lambda>_. []), sm_lossy = id,
      sm_select = (\<lambda>text sel.
        if text = ''<sitemapindex>'' \<and> sel = ''sitemap > loc'' then [''https://a.com/p.xml'', ''https://b.com/q.xml'']
        else if text = ''<urlset>'' \<and> sel = ''url > loc'' then [''https://a.com/1'', ''https://b.com/2'', '' https://a.com/1'']
        else []),
      sm_render = (\<lambda>_. Some ''<urlset>''), sm_claims = id, sm_lands = id, sm_hash_order = id, sm_clock = (\<lambda>n. n) \<rparr>"

definition demo_walk :: "sitemap_walk \<times> walk_world" where
  "demo_walk =
    fetch_sitemap_tree demo_sitemap_env
      \<lparr> wl_max_depth = 3, wl_max_sitemaps = 5, wl_max_urls = 2, wl_escalator = True, wl_deadline = Some 100 \<rparr>
      [''https://a.com/sitemap.xml'', ''https://b.com/sitemap.xml''] (the (demo_sitemap_url ''https://a.com/''))
      \<lparr> ww_sent = [], ww_rendered = [], ww_budget = 1, ww_ticks = 0 \<rparr>"

lemma demo_walk_value:
  "demo_walk =
    (\<lparr> sk_pages = [''https://a.com/1''], sk_sitemaps = [''https://a.com/sitemap.xml'', ''https://a.com/p.xml''] \<rparr>,
     \<lparr> ww_sent = [''https://a.com/sitemap.xml'', ''https://a.com/p.xml''], ww_rendered = [''https://a.com/p.xml''],
       ww_budget = 0, ww_ticks = 3 \<rparr>)"
  by code_simp

theorem sitemap_walk_stays_home_witness:
  "\<exists>sent. ww_sent (snd demo_walk) = sent \<and> distinct sent \<and> length sent \<le> 5
    \<and> length (sk_pages (fst demo_walk)) \<le> 2 \<and> sk_pages (fst demo_walk) = [''https://a.com/1'']"
proof -
  have perm: "orders_permute demo_sitemap_env" by (simp add: orders_permute_def demo_sitemap_env_def)
  have key: "site_key demo_sitemap_env (the (demo_sitemap_url ''https://a.com/'')) = Some ''a.com''" by code_simp
  have run: "fetch_sitemap_tree demo_sitemap_env
      \<lparr> wl_max_depth = 3, wl_max_sitemaps = 5, wl_max_urls = 2, wl_escalator = True, wl_deadline = Some 100 \<rparr>
      [''https://a.com/sitemap.xml'', ''https://b.com/sitemap.xml''] (the (demo_sitemap_url ''https://a.com/''))
      \<lparr> ww_sent = [], ww_rendered = [], ww_budget = 1, ww_ticks = 0 \<rparr> = (fst demo_walk, snd demo_walk)"
    by (simp add: demo_walk_def)
  have "\<exists>sent. ww_sent (snd demo_walk) = sent \<and> distinct sent \<and> length sent \<le> 5
    \<and> length (sk_pages (fst demo_walk)) \<le> 2"
    using sitemap_walk_stays_home [OF perm key run] by auto
  moreover have "sk_pages (fst demo_walk) = [''https://a.com/1'']" by (simp add: demo_walk_value)
  ultimately show ?thesis by blast
qed

end
