(* ===== verification/Discover_Props.thy ===== *)
theory Discover_Props
  imports Discover Sitemap_Props "HOL-Library.Code_Target_Nat"
begin

section \<open>Properties of the discovery of URLs\<close>

text \<open>
  One invariant carries the state of a discovery: what is listed, and what may be fetched next. It
  is kept by the pages of the sitemaps, by the links of a page and by a level of the crawl.
\<close>

subsection \<open>Where a listed URL comes from\<close>

definition passes_filter :: "('m, 'z) discover_env_scheme \<Rightarrow> discover_options \<Rightarrow> web_url \<Rightarrow> string \<Rightarrow> string \<Rightarrow> bool" where
  "passes_filter env opts p raw u \<longleftrightarrow>
    fst (filter_parsed env (do_url_filter opts) p raw (discover_start opts)) = Some u"

definition raw_passes_filter :: "('m, 'z) discover_env_scheme \<Rightarrow> discover_options \<Rightarrow> string \<Rightarrow> string \<Rightarrow> bool" where
  "raw_passes_filter env opts raw u \<longleftrightarrow>
    fst (filter_raw env (do_url_filter opts) raw (discover_start opts)) = Some u"

text \<open>A link of the same origin that the guard accepts, and the URL the filter makes of it.\<close>

definition home_link :: "('m, 'z) discover_env_scheme \<Rightarrow> discover_options \<Rightarrow> web_url \<Rightarrow> web_url \<Rightarrow> string \<Rightarrow> bool" where
  "home_link env opts base p u \<longleftrightarrow>
    link_is_safe env p \<and> wu_origin p = wu_origin base
    \<and> (\<exists>raw. de_parse env raw = Some p \<and> passes_filter env opts p raw u)"

definition listable :: "('m, 'z) discover_env_scheme \<Rightarrow> discover_options \<Rightarrow> web_url \<Rightarrow> string \<Rightarrow> bool" where
  "listable env opts base u \<longleftrightarrow>
    u = do_base_url opts
    \<or> (\<exists>raw site. site_key env (url.truncate base) = Some site \<and> same_site env raw site
        \<and> raw_passes_filter env opts raw u)
    \<or> (\<exists>p. home_link env opts base p u)"

text \<open>What the crawl may fetch: a page, not an asset, that robots.txt allows.\<close>

definition fetchable :: "('m, 'z) discover_env_scheme \<Rightarrow> discover_options \<Rightarrow> web_url \<Rightarrow> robots_txt \<Rightarrow> string \<Rightarrow> bool" where
  "fetchable env opts base robots u \<longleftrightarrow>
    (\<exists>p. home_link env opts base p u \<and> \<not> is_static_asset p)
    \<and> (do_respect_robots opts \<longrightarrow>
        (case de_parse env u of None \<Rightarrow> True
         | Some next \<Rightarrow> is_url_allowed (robots_rules robots) (wu_path next) (wu_query next)))"

lemma filter_parsed_state:
  assumes "filter_parsed env flt p raw st = (t, st')"
  shows "t = fst (filter_parsed env flt p raw st0)
    \<and> ds_urls st' = ds_urls st \<and> ds_visited st' = ds_visited st \<and> ds_next st' = ds_next st"
  using assms by (auto simp: filter_parsed_def split: option.splits if_splits)

lemma filter_raw_state:
  assumes "filter_raw env flt raw st = (t, st')"
  shows "t = fst (filter_raw env flt raw st0)
    \<and> ds_urls st' = ds_urls st \<and> ds_visited st' = ds_visited st \<and> ds_next st' = ds_next st"
  using assms by (auto simp: filter_raw_def split: option.splits if_splits)

subsection \<open>The invariant\<close>

text \<open>\<open>offered\<close> are the URLs offered to the levels so far, without the seed.\<close>

definition disc_inv ::
    "('m, 'z) discover_env_scheme \<Rightarrow> discover_options \<Rightarrow> web_url \<Rightarrow> robots_txt \<Rightarrow> string list \<Rightarrow> discover_state \<Rightarrow> bool" where
  "disc_inv env opts base robots offered st \<longleftrightarrow>
    distinct (ds_urls st) \<and> do_base_url opts \<in> set (ds_urls st)
    \<and> length (ds_urls st) \<le> effective_max_urls (do_max_urls opts)
    \<and> (\<forall>u \<in> set (ds_urls st). listable env opts base u)
    \<and> (\<forall>u \<in> set (ds_next st). fetchable env opts base robots u)
    \<and> distinct (offered @ ds_next st)
    \<and> set (offered @ ds_next st) \<subseteq> set (ds_visited st) \<inter> set (ds_urls st)"

lemma effective_max_urls_pos [simp]: "0 < effective_max_urls n"
  by (simp add: effective_max_urls_def max_discovered_urls_ceiling_def)

lemma disc_inv_cong:
  "ds_urls st' = ds_urls st \<Longrightarrow> ds_visited st' = ds_visited st \<Longrightarrow> ds_next st' = ds_next st
    \<Longrightarrow> disc_inv env opts base robots offered st' = disc_inv env opts base robots offered st"
  by (simp add: disc_inv_def)

lemma set_insert_url [simp]: "set (insert_url u urls) = insert u (set urls)"
  by (auto simp: insert_url_def)

lemma distinct_insert_url [simp]: "distinct urls \<Longrightarrow> distinct (insert_url u urls)"
  by (simp add: insert_url_def)

lemma length_insert_url: "length (insert_url u urls) \<le> Suc (length urls)"
  by (simp add: insert_url_def)

text \<open>A link that was listed, and that may be fetched.\<close>

lemma disc_inv_list:
  assumes "disc_inv env opts base robots offered st" "length (ds_urls st) < effective_max_urls (do_max_urls opts)"
    and "listable env opts base u"
  shows "disc_inv env opts base robots offered
    (st\<lparr> ds_visited := u # ds_visited st, ds_urls := insert_url u (ds_urls st) \<rparr>)"
  using assms length_insert_url [of u "ds_urls st"] by (auto simp: disc_inv_def)

lemma disc_inv_push:
  assumes "disc_inv env opts base robots offered st" "fetchable env opts base robots u"
    and "u \<in> set (ds_visited st)" "u \<in> set (ds_urls st)" "u \<notin> set (offered @ ds_next st)"
  shows "disc_inv env opts base robots offered (st\<lparr> ds_next := ds_next st @ [u] \<rparr>)"
  using assms by (auto simp: disc_inv_def)

lemma merge_links_inv:
  assumes "disc_inv env opts base robots offered st" "length (ds_urls st) < effective_max_urls (do_max_urls opts)"
  shows "disc_inv env opts base robots offered
    (merge_links env opts robots (wu_origin base) max_depth depth links st)"
  using assms
proof (induction links arbitrary: st)
  case (Cons link links)
  let ?go = "merge_links env opts robots (wu_origin base) max_depth depth links"
  note go = Cons.IH [OF Cons.prems]
  show ?case
  proof (cases "\<exists>p. de_parse env link = Some p \<and> link_is_safe env p \<and> wu_origin p = wu_origin base")
    case False
    then show ?thesis using go by (auto simp: Let_def split: option.split)
  next
    case True
    then obtain p where p: "de_parse env link = Some p" "link_is_safe env p" "wu_origin p = wu_origin base" by blast
    obtain t st1 where f: "filter_parsed env (do_url_filter opts) p link st = (t, st1)" by (metis surj_pair)
    note fs = filter_parsed_state [OF f, of "discover_start opts"]
    have inv1: "disc_inv env opts base robots offered st1" "length (ds_urls st1) < effective_max_urls (do_max_urls opts)"
      using Cons.prems fs disc_inv_cong [of st1 st env opts base robots offered] by auto
    show ?thesis
    proof (cases "\<exists>u. t = Some u \<and> u \<notin> set (ds_visited st1)")
      case False
      then show ?thesis using p f Cons.IH [OF inv1] by (auto simp: Let_def split: option.split)
    next
      case True
      then obtain u where u: "t = Some u" "u \<notin> set (ds_visited st1)" by blast
      let ?st2 = "st1\<lparr> ds_visited := u # ds_visited st1, ds_urls := insert_url u (ds_urls st1) \<rparr>"
      have home: "home_link env opts base p u"
        using p f fs u(1) by (auto simp: home_link_def passes_filter_def)
      then have inv2: "disc_inv env opts base robots offered ?st2"
        by (intro disc_inv_list [OF inv1]) (auto simp: listable_def)
      have fresh: "u \<notin> set (offered @ ds_next ?st2)" using inv1(1) u(2) by (auto simp: disc_inv_def)
      let ?full = "effective_max_urls (do_max_urls opts) \<le> length (insert_url u (ds_urls st1))"
      let ?listed = "max_depth \<le> depth \<or> is_static_asset p"
      let ?barred = "do_respect_robots opts \<and> (case de_parse env u of None \<Rightarrow> False
        | Some next_url \<Rightarrow> \<not> is_url_allowed (robots_rules robots) (wu_path next_url) (wu_query next_url))"
      have step: "merge_links env opts robots (wu_origin base) max_depth depth (link # links) st =
        (if ?full then ?st2 else if ?listed then ?go ?st2 else if ?barred then ?go ?st2
         else ?go (?st2\<lparr> ds_next := ds_next ?st2 @ [u] \<rparr>))"
        using p f u by (simp add: Let_def)
      have go2: "disc_inv env opts base robots offered (?go ?st2)" if "\<not> ?full"
        using that inv2 by (intro Cons.IH) simp_all
      have go3: "disc_inv env opts base robots offered (?go (?st2\<lparr> ds_next := ds_next ?st2 @ [u] \<rparr>))"
        if "\<not> ?full" "\<not> ?listed" "\<not> ?barred"
      proof (intro Cons.IH disc_inv_push inv2 fresh)
        show "fetchable env opts base robots u"
          using home that(2,3) by (auto simp: fetchable_def split: option.splits)
      qed (use that(1) in simp_all)
      show ?thesis unfolding step using inv2 go2 go3 by (simp split del: if_split add: if_splits)
    qed
  qed
qed simp

lemma take_pages_inv:
  assumes "disc_inv env opts base robots offered st" "site_key env (url.truncate base) = Some site"
    and "\<forall>p \<in> set pages. same_site env p site"
  shows "disc_inv env opts base robots offered (take_pages env opts pages st)"
  using assms
proof (induction pages arbitrary: st)
  case (Cons p pages)
  obtain t st1 where f: "filter_raw env (do_url_filter opts) p st = (t, st1)" by (metis surj_pair)
  note fs = filter_raw_state [OF f, of "discover_start opts"]
  have inv1: "disc_inv env opts base robots offered st1" using Cons.prems fs disc_inv_cong [of st1 st env opts base robots offered] by auto
  show ?case
  proof (cases "effective_max_urls (do_max_urls opts) \<le> length (ds_urls st) \<or> t = None")
    case True
    then show ?thesis using Cons.prems f Cons.IH [OF inv1] by (auto split: option.split)
  next
    case False
    then obtain u where u: "t = Some u" by blast
    have "listable env opts base u"
      using f fs u Cons.prems(2,3) unfolding listable_def raw_passes_filter_def by auto
    then have "disc_inv env opts base robots offered (st1\<lparr> ds_urls := insert_url u (ds_urls st1) \<rparr>)"
      using inv1 fs False length_insert_url [of u "ds_urls st1"] by (auto simp: disc_inv_def)
    then show ?thesis using False f u Cons.IH Cons.prems(2,3) by simp
  qed
qed simp

lemma same_site_render [simp]:
  "same_site (env\<lparr> sm_render := f \<rparr>) u t = same_site env u t"
  "site_key (env\<lparr> sm_render := f \<rparr>) p = site_key env p"
  "orders_permute (env\<lparr> sm_render := f \<rparr>) = orders_permute env"
  by (simp_all add: same_site_def site_key_def orders_permute_def split: option.split)

subsection \<open>Pages and levels\<close>

definition guard_accepts :: "('m, 'z) discover_env_scheme \<Rightarrow> string \<Rightarrow> bool" where
  "guard_accepts env u \<longleftrightarrow>
    (case de_parse env u of
       None \<Rightarrow> False
     | Some p \<Rightarrow> validate_safe_url_resolved (sm_dns env) (sm_test_allow env) (url.truncate p) = Accepted)"

lemma now_of_keeps: "now_of env w = (t, w') \<Longrightarrow> dw_fetched w' = dw_fetched w \<and> dw_offered w' = dw_offered w"
  by (auto simp: now_of_def)

lemma wait_elapses_keeps: "wait_elapses env w = (b, w') \<Longrightarrow> dw_fetched w' = dw_fetched w \<and> dw_offered w' = dw_offered w"
  by (auto simp: wait_elapses_def)

lemma remaining_budget_keeps:
  "remaining_budget env dl w = (b, w') \<Longrightarrow> dw_fetched w' = dw_fetched w \<and> dw_offered w' = dw_offered w"
  by (auto simp: remaining_budget_def now_of_def)

lemma full_or_late_keeps:
  "full_or_late env opts dl st w = (b, w') \<Longrightarrow>
    dw_fetched w' = dw_fetched w \<and> dw_offered w' = dw_offered w
    \<and> (b \<or> length (ds_urls st) < effective_max_urls (do_max_urls opts))"
  by (auto simp: full_or_late_def now_of_def split: if_splits)

lemmas clock_keeps = now_of_keeps wait_elapses_keeps remaining_budget_keeps full_or_late_keeps

lemma page_task_fetches:
  assumes "page_task env opts dl u w = (page, w')"
  shows "dw_offered w' = dw_offered w \<and>
    (dw_fetched w' = dw_fetched w @ [] \<or> dw_fetched w' = dw_fetched w @ [u] \<and> guard_accepts env u)"
  using assms
  by (auto simp: page_task_def guard_accepts_def split: prod.splits option.splits if_splits dest!: clock_keeps)

lemma merge_pages_inv:
  assumes "disc_inv env opts base robots offered st"
    and "merge_pages env opts robots (wu_origin base) max_depth dl depth us st w = (st', w')"
  shows "disc_inv env opts base robots offered st' \<and> dw_offered w' = dw_offered w
    \<and> (\<exists>f. dw_fetched w' = dw_fetched w @ f \<and> subseq f us \<and> list_all (guard_accepts env) f)"
  using assms
proof (induction us arbitrary: st w)
  case (Cons u us)
  obtain page w1 where t: "page_task env opts dl u w = (page, w1)" by (metis surj_pair)
  obtain e w2 where e: "wait_elapses env w1 = (e, w2)" by (metis surj_pair)
  obtain b w3 where b: "full_or_late env opts dl st w2 = (b, w3)" by (metis surj_pair)
  obtain f1 where f1: "dw_fetched w1 = dw_fetched w @ f1" "subseq f1 [u]" "list_all (guard_accepts env) f1"
    "dw_offered w1 = dw_offered w"
    using page_task_fetches [OF t] by auto
  note keep = wait_elapses_keeps [OF e] full_or_late_keeps [OF b]
  show ?case
  proof (cases "e \<or> b")
    case True
    then have "st' = st" "dw_fetched w' = dw_fetched w1" "dw_offered w' = dw_offered w1"
      using Cons.prems(2) t e b keep by (auto split: bool.splits)
    moreover have "subseq f1 (u # us)" using list_emb_append_mono [OF f1(2), of "[]" us] by simp
    ultimately show ?thesis using Cons.prems(1) f1 by auto
  next
    case False
    let ?st1 = "case page of None \<Rightarrow> st
      | Some html \<Rightarrow> merge_links env opts robots (wu_origin base) max_depth depth (de_links env html u) st"
    have "disc_inv env opts base robots offered ?st1"
      using Cons.prems(1) merge_links_inv [OF Cons.prems(1)] keep False by (auto split: option.split)
    moreover have "merge_pages env opts robots (wu_origin base) max_depth dl depth us ?st1 w3 = (st', w')"
      using Cons.prems(2) t e b False by simp
    ultimately have ih: "disc_inv env opts base robots offered st' \<and> dw_offered w' = dw_offered w3
      \<and> (\<exists>f. dw_fetched w' = dw_fetched w3 @ f \<and> subseq f us \<and> list_all (guard_accepts env) f)"
      by (rule Cons.IH)
    then obtain f where f: "dw_fetched w' = dw_fetched w3 @ f" "subseq f us" "list_all (guard_accepts env) f" by blast
    have "subseq (f1 @ f) (u # us)" using list_emb_append_mono [OF f1(2) f(2)] by simp
    then show ?thesis using ih f f1 keep by (intro conjI exI [of _ "f1 @ f"]) auto
  qed
qed auto

text \<open>What the levels from \<open>frontier\<close> on offered and fetched.\<close>

definition levels_ran ::
    "('m, 'z) discover_env_scheme \<Rightarrow> discover_options \<Rightarrow> web_url \<Rightarrow> robots_txt \<Rightarrow> string list \<Rightarrow> string list
      \<Rightarrow> discover_world \<Rightarrow> discover_state \<Rightarrow> discover_world \<Rightarrow> bool" where
  "levels_ran env opts base robots offered frontier w st' w' \<longleftrightarrow>
    (\<exists>offered' off f. disc_inv env opts base robots offered' (st'\<lparr> ds_next := [] \<rparr>)
      \<and> dw_offered w' = dw_offered w @ off \<and> dw_fetched w' = dw_fetched w @ f
      \<and> length f \<le> length off \<and> set f \<subseteq> set off \<and> list_all (guard_accepts env) f
      \<and> (\<forall>u \<in> set off. u = do_base_url opts \<or> fetchable env opts base robots u)
      \<and> length off + length offered \<le> length frontier + length offered')"

lemma levels_ran_stop:
  "disc_inv env opts base robots offered (st\<lparr> ds_next := [] \<rparr>) \<Longrightarrow> levels_ran env opts base robots offered frontier w st w"
  unfolding levels_ran_def by (intro exI [of _ offered] exI [of _ "[]"]) simp

lemma disc_inv_next:
  assumes "disc_inv env opts base robots offered st"
  shows "disc_inv env opts base robots (offered @ ds_next st) (st\<lparr> ds_next := [] \<rparr>)"
    "disc_inv env opts base robots offered (st\<lparr> ds_next := [] \<rparr>)"
  using assms by (auto simp: disc_inv_def)

lemma discover_levels_inv:
  assumes lands: "\<And>d us. mset (de_lands env d us) = mset us"
    and "disc_inv env opts base robots offered (st\<lparr> ds_next := [] \<rparr>)"
    and "\<forall>u \<in> set frontier. u = do_base_url opts \<or> fetchable env opts base robots u"
    and "discover_levels env opts robots (wu_origin base) max_depth dl depth frontier st w = (st', w')"
  shows "levels_ran env opts base robots offered frontier w st' w'"
  using assms(2-)
proof (induction "Suc max_depth - depth" arbitrary: depth frontier offered st w rule: less_induct)
  case less
  note inv = less.prems(1) and frontier = less.prems(2) and run = less.prems(3)
  show ?case
  proof (cases "max_depth < depth \<or> frontier = []")
    case True
    then have "st' = st" "w' = w" using run by (auto simp: discover_levels.simps [of env opts])
    then show ?thesis using levels_ran_stop [OF inv] by simp
  next
    case False
    let ?w0 = "w\<lparr> dw_offered := dw_offered w @ frontier \<rparr>"
    obtain st1 w1 where m: "merge_pages env opts robots (wu_origin base) max_depth dl depth (de_lands env depth frontier)
        (st\<lparr> ds_next := [] \<rparr>) ?w0 = (st1, w1)" by (metis surj_pair)
    obtain b w2 where b: "full_or_late env opts dl st1 w1 = (b, w2)" by (metis surj_pair)
    note keep = full_or_late_keeps [OF b]
    obtain f where f: "disc_inv env opts base robots offered st1" "dw_offered w1 = dw_offered w @ frontier"
      "dw_fetched w1 = dw_fetched w @ f" "subseq f (de_lands env depth frontier)" "list_all (guard_accepts env) f"
      using merge_pages_inv [OF inv m] by auto
    have landed: "set (de_lands env depth frontier) = set frontier" "length (de_lands env depth frontier) = length frontier"
      using lands by (metis set_mset_mset, metis size_mset)
    have f': "length f \<le> length frontier" "set f \<subseteq> set frontier"
      using landed list_emb_length [OF f(4)] subseq_set [OF f(4)] by auto
    show ?thesis
    proof (cases b)
      case True
      then have "st' = st1" "w' = w2" using run False m b by (auto simp: discover_levels.simps [of env opts])
      then show ?thesis
        unfolding levels_ran_def using f f' keep frontier disc_inv_next(2) [OF f(1)]
        by (intro exI [of _ offered] exI [of _ frontier] exI [of _ f]) auto
    next
      case go: False
      have rest: "discover_levels env opts robots (wu_origin base) max_depth dl (depth + 1) (ds_next st1) st1 w2 = (st', w')"
        using run False m b go by (simp add: discover_levels.simps [of env opts _ _ _ _ depth])
      have "levels_ran env opts base robots (offered @ ds_next st1) (ds_next st1) w2 st' w'"
        using f(1) False by (intro less.hyps [OF _ _ _ rest] disc_inv_next(1)) (auto simp: disc_inv_def)
      then obtain offered' off g where g: "disc_inv env opts base robots offered' (st'\<lparr> ds_next := [] \<rparr>)"
        "dw_offered w' = dw_offered w2 @ off" "dw_fetched w' = dw_fetched w2 @ g" "length g \<le> length off"
        "set g \<subseteq> set off" "list_all (guard_accepts env) g"
        "\<forall>u \<in> set off. u = do_base_url opts \<or> fetchable env opts base robots u"
        "length off + length (offered @ ds_next st1) \<le> length (ds_next st1) + length offered'"
        unfolding levels_ran_def by blast
      show ?thesis
        unfolding levels_ran_def using f f' g keep frontier
        by (intro exI [of _ offered'] exI [of _ "frontier @ off"] exI [of _ "f @ g"]) auto
    qed
  qed
qed

subsection \<open>The whole call\<close>

lemma take_pages_next: "ds_next (take_pages env opts pages st) = ds_next st"
proof (induction pages arbitrary: st)
  case (Cons p pages)
  obtain t st1 where f: "filter_raw env (do_url_filter opts) p st = (t, st1)" by (metis surj_pair)
  have "ds_next st1 = ds_next st" using filter_raw_state [OF f, of st] by simp
  then show ?case using f Cons by (cases t) simp_all
qed simp

lemma sitemap_walk_of_home:
  assumes "orders_permute env" "sitemap_walk_of env opts base seeds w = (walk, w')"
  shows "dw_fetched w' = dw_fetched w
    \<and> (\<forall>p \<in> set (sk_pages walk). \<exists>site. site_key env (url.truncate base) = Some site \<and> same_site env p site)"
proof -
  obtain now w1 where n: "now_of env w = (now, w1)" by (metis surj_pair)
  obtain b w2 where b: "remaining_budget env (do_overall_deadline opts) w1 = (b, w2)" by (metis surj_pair)
  obtain e w3 where e: "wait_elapses env w2 = (e, w3)" by (metis surj_pair)
  note keep = now_of_keeps [OF n] remaining_budget_keeps [OF b] wait_elapses_keeps [OF e]
  show ?thesis
  proof (cases "b = None \<or> e")
    case True
    then show ?thesis
      using assms(2) n b e keep by (auto simp: sitemap_walk_of_def sitemap_walk_default_def split: option.splits bool.splits)
  next
    case False
    let ?env = "env\<lparr> sm_render := escalate_render env \<rparr>"
    obtain walk' ww where t: "fetch_sitemap_tree ?env (walk_limits_of env opts now) seeds (url.truncate base)
        \<lparr> ww_sent = [], ww_rendered = [], ww_budget = sitemap_escalate_budget, ww_ticks = dw_ticks w3 \<rparr> = (walk', ww)"
      by (metis surj_pair)
    have eq: "walk = walk'" "dw_fetched w' = dw_fetched w3"
      using assms(2) n b e False t by (auto simp: sitemap_walk_of_def)
    then show ?thesis using tree_pages_home [OF _ t] assms(1) keep by auto
  qed
qed

lemma sitemap_phase_inv:
  assumes "orders_permute env" "sitemap_phase env opts base robots w = ((st, sitemaps), w')"
  shows "disc_inv env opts base rb [] st \<and> ds_next st = [] \<and> dw_fetched w' = dw_fetched w"
proof -
  have start: "disc_inv env opts base rb [] (discover_start opts)"
    using effective_max_urls_pos [of "do_max_urls opts"] unfolding disc_inv_def discover_start_def listable_def
    by (simp add: Suc_le_eq)
  show ?thesis
  proof (cases "do_use_sitemap opts")
    case False
    then show ?thesis using assms(2) start by (auto simp: sitemap_phase_def discover_start_def)
  next
    case True
    obtain seeds w1 where s: "sitemap_seeds env opts (wu_origin base) robots w = (seeds, w1)" by (metis surj_pair)
    obtain walk w2 where k: "sitemap_walk_of env opts base seeds w1 = (walk, w2)" by (metis surj_pair)
    note home = sitemap_walk_of_home [OF assms(1) k]
    have st: "st = take_pages env opts (sk_pages walk) (discover_start opts)" "w' = w2"
      using assms(2) True s k by (auto simp: sitemap_phase_def)
    have "disc_inv env opts base rb [] st"
    proof (cases "sk_pages walk")
      case Nil
      then show ?thesis using start st(1) by simp
    next
      case (Cons p ps)
      then obtain site where "site_key env (url.truncate base) = Some site" using home by auto
      then show ?thesis unfolding st(1) using home start by (intro take_pages_inv) auto
    qed
    moreover have "dw_fetched w1 = dw_fetched w"
      using s by (auto simp: sitemap_seeds_def Let_def split: if_splits option.splits prod.splits dest!: clock_keeps)
    ultimately show ?thesis using st home by (simp add: take_pages_next discover_start_def)
  qed
qed

text \<open>The rules a discovery goes by: those of robots.txt where it could be read in time.\<close>

definition robots_seen :: "('m, 'z) discover_env_scheme \<Rightarrow> web_url \<Rightarrow> robots_txt \<Rightarrow> bool" where
  "robots_seen env base robots \<longleftrightarrow>
    robots = robots_empty \<or> robots_fetch (de_robots_client env) (sm_lossy env) (wu_origin base) = Inr robots"

lemma discovered_robots_seen:
  assumes "discovered_robots env opts (wu_origin base) w = (robots, w')"
  shows "robots_seen env base robots \<and> dw_fetched w' = dw_fetched w"
  using assms
  by (auto simp: discovered_robots_def robots_seen_def split: option.splits prod.splits sum.splits bool.splits
      dest!: clock_keeps)

lemma crawl_phase_inv:
  assumes "\<And>d us. mset (de_lands env d us) = mset us" "disc_inv env opts base robots [] st" "ds_next st = []"
    and "crawl_phase env opts base robots st w = (st', w')"
  shows "levels_ran env opts base robots [] [do_base_url opts] w st' w'"
proof -
  let ?st = "st\<lparr> ds_visited := [normalize_url (sm_lower env) (do_base_url opts)] \<rparr>"
  obtain dl w1 where w1: "discover_levels env opts robots (wu_origin base) (min (do_max_depth opts) 10) dl 0
      [do_base_url opts] ?st w1 = (st', w')" "dw_fetched w1 = dw_fetched w" "dw_offered w1 = dw_offered w"
    using assms(4) by (auto simp: crawl_phase_def split: prod.splits if_splits dest!: clock_keeps)
  have "disc_inv env opts base robots [] (?st\<lparr> ds_next := [] \<rparr>)" using assms(2,3) by (simp add: disc_inv_def)
  then have "levels_ran env opts base robots [] [do_base_url opts] w1 st' w'"
    by (intro discover_levels_inv [OF assms(1) _ _ w1(1)]) auto
  then show ?thesis using w1(2,3) by (simp add: levels_ran_def)
qed

text \<open>A successful call, as its parts.\<close>

lemma discovery_ran:
  assumes "orders_permute env" "\<And>d us. mset (de_lands env d us) = mset us"
    and "discover_urls env opts w = (Inr r, w')"
  obtains base robots st offered f where
    "de_parse env (do_base_url opts) = Some base" "guard_accepts env (do_base_url opts)"
    "dr_urls r = sort (ds_urls st)" "robots_seen env base robots"
    "disc_inv env opts base robots offered (st\<lparr> ds_next := [] \<rparr>)"
    "dw_fetched w' = dw_fetched w @ f" "length f \<le> Suc (length offered)" "list_all (guard_accepts env) f"
    "\<forall>u \<in> set f. u = do_base_url opts \<or> fetchable env opts base robots u"
proof -
  obtain base where base: "de_parse env (do_base_url opts) = Some base"
    using assms(3) by (auto simp: discover_urls_def split: option.splits)
  obtain b w1 where b: "remaining_budget env (do_overall_deadline opts) w = (b, w1)" by (metis surj_pair)
  obtain e w2 where e: "wait_elapses env w1 = (e, w2)" by (metis surj_pair)
  note keep = remaining_budget_keeps [OF b] wait_elapses_keeps [OF e]
  have seed: "guard_accepts env (do_base_url opts)" "discover_from env opts base w2 = (r, w')"
    using assms(3) base b e
    by (auto simp: discover_urls_def guard_accepts_def split: option.splits bool.splits sum.splits if_splits prod.splits)
  obtain robots w3 where r: "discovered_robots env opts (wu_origin base) w2 = (robots, w3)" by (metis surj_pair)
  obtain st sitemaps w4 where p: "sitemap_phase env opts base robots w3 = ((st, sitemaps), w4)" by (metis surj_pair)
  note inv = sitemap_phase_inv [OF assms(1) p, of robots]
  note seen = discovered_robots_seen [OF r]
  show thesis
  proof (cases "do_crawl_fallback opts")
    case False
    then have "r = discovered st sitemaps" "w' = w4" using seed(2) r p by (auto simp: discover_from_def)
    then show thesis
      using that [of base st robots "[]" "[]"] base seed(1) seen inv keep by (simp add: discovered_def disc_inv_next(2))
  next
    case True
    obtain st' w5 where c: "crawl_phase env opts base robots st w4 = (st', w5)" by (metis surj_pair)
    have eq: "r = discovered st' sitemaps" "w' = w5" using seed(2) r p c True by (auto simp: discover_from_def)
    have "levels_ran env opts base robots [] [do_base_url opts] w4 st' w5"
      using crawl_phase_inv [OF assms(2) _ _ c] inv by blast
    then obtain offered off f where o: "disc_inv env opts base robots offered (st'\<lparr> ds_next := [] \<rparr>)"
      "dw_fetched w5 = dw_fetched w4 @ f" "length f \<le> length off" "set f \<subseteq> set off" "list_all (guard_accepts env) f"
      "\<forall>u \<in> set off. u = do_base_url opts \<or> fetchable env opts base robots u" "length off \<le> Suc (length offered)"
      unfolding levels_ran_def by auto
    then have "length f \<le> Suc (length offered)" "\<forall>u \<in> set f. u = do_base_url opts \<or> fetchable env opts base robots u"
      by auto
    then show thesis
      using that [of base st' robots offered f] base seed(1) seen inv keep o eq by (simp add: discovered_def)
  qed
qed

subsection \<open>A discovery\<close>

definition demo_web_url :: "string \<Rightarrow> web_url option" where
  "demo_web_url s =
    (case demo_sitemap_url s of
       None \<Rightarrow> None
     | Some u \<Rightarrow>
         Some \<lparr> url_text = url_text u, url_scheme = url_scheme u, url_host = url_host u, url_port = url_port u,
                wu_origin = take 13 s, wu_path = hd (split_char (CHR ''?'') (drop 13 s)),
                wu_query = map_option snd (split_once (CHR ''?'') s), wu_no_fragment = s \<rparr>)"

definition demo_parsed_link :: "web_url \<Rightarrow> parsed_link" where
  "demo_parsed_link u =
    \<lparr> pl_host = url_host u, pl_path = wu_path u, pl_query = wu_query u,
      pl_text = (\<lambda>q. wu_origin u @ wu_path u @ (case q of None \<Rightarrow> [] | Some t \<Rightarrow> ''?'' @ t)) \<rparr>"

definition demo_home_page :: "string \<Rightarrow> unit fetch_result" where
  "demo_home_page u =
    \<lparr> fr_url = u, fr_final_url = None, fr_status = 200, fr_html = ''home'', fr_content_type = None,
      fr_raw_bytes = None, fr_rendered_with = None, fr_elapsed_ms = 0, fr_warning = None, fr_credit_cost = 1,
      fr_warnings = [], fr_truncated = False, fr_deadline_exceeded = False, fr_captured = [], fr_wall = None,
      fr_meta = () \<rparr>"

definition demo_discover_env :: "unit discover_env" where
  "demo_discover_env =
    \<lparr> sm_parse = demo_sitemap_url, sm_dns = (\<lambda>_ _. DnsFailed), sm_test_allow = True, sm_lower = to_ascii_lowercase,
      sm_get = (\<lambda>u. map_option (\<lambda>p. \<lparr> sy_final_url = p, sy_status = 200, sy_body = [Inr ''<urlset>''] \<rparr>) (demo_sitemap_url u)),
      sm_head = (\<lambda>_. None), sm_gunzip = (\<lambda>_. []), sm_lossy = id,
      sm_select = (\<lambda>text sel. if sel = ''url > loc'' then [''https://a.com/'', ''https://b.com/2''] else []),
      sm_render = (\<lambda>_. None), sm_claims = id, sm_lands = id, sm_hash_order = id, sm_clock = id,
      de_parse = demo_web_url, de_parse_error = id, de_error_text = (\<lambda>_. []), de_link = demo_parsed_link,
      de_robots_client = (\<lambda>_. Reply 200 [Inr ''User-agent: *'', Inr [CHR 0x0A], Inr ''Disallow: /secret'']),
      de_fetch = (\<lambda>_ u _ _. Some (demo_home_page u)), de_generic_wall = (\<lambda>_. False), de_js_capable = False,
      de_links = (\<lambda>_ _. [''https://a.com/x?utm_source=1'', ''https://b.com/y'', ''https://a.com/p.png'',
                        ''https://a.com/secret'']),
      de_lands = (\<lambda>_. id), de_elapses = (\<lambda>_. False) \<rparr>"

definition demo_discover_opts :: discover_options where
  "demo_discover_opts =
    \<lparr> do_base_url = ''https://a.com/'', do_max_depth = 2, do_use_sitemap = True, do_crawl_fallback = True,
      do_deadline_ms_per_page = 1000, do_url_filter = Some defaults_on, do_max_urls = 10,
      do_overall_deadline = 1000, do_respect_robots = True \<rparr>"

definition demo_discover_world :: discover_world where
  "demo_discover_world = \<lparr> dw_ticks = 0, dw_waits = 0, dw_offered = [], dw_fetched = [] \<rparr>"

definition demo_discovery :: "(crw_error + discover_result) \<times> discover_world" where
  "demo_discovery = discover_urls demo_discover_env demo_discover_opts demo_discover_world"

text \<open>
  The seed is inserted as given and every other URL normalized, so a sitemap that lists the seed makes
  the result contain the page twice.
\<close>

lemma seed_is_listed_twice:
  "fst demo_discovery = Inr \<lparr> dr_urls = [''https://a.com'', ''https://a.com/'', ''https://a.com/p.png'',
      ''https://a.com/secret'', ''https://a.com/x''],
    dr_dropped_action_count = 0, dr_stripped_tracking_count = 2, dr_sitemaps = [''https://a.com/sitemap.xml''] \<rparr>"
  by code_simp

lemma demo_fetches: "dw_fetched (snd demo_discovery) = [''https://a.com/'', ''https://a.com/x'']"
  by code_simp

lemma demo_orders:
  "orders_permute demo_discover_env" "\<And>d us. mset (de_lands demo_discover_env d us) = mset us"
  by (simp_all add: orders_permute_def demo_discover_env_def)

lemma demo_discovery_run:
  "discover_urls demo_discover_env demo_discover_opts demo_discover_world
    = (Inr (projr (fst demo_discovery)), snd demo_discovery)"
  using seed_is_listed_twice by (simp add: demo_discovery_def prod_eq_iff)





end
