(* ===== verification/Chunking.thy ===== *)
theory Chunking
  imports Text_Lib Scrape_Request
begin

section \<open>Chunking\<close>

text \<open>
  \<open>crates/crw-extract/src/chunking.rs\<close>: cutting a text into chunks at sentences, at the matches of a
  caller's pattern or at headings, and what is done to the chunks afterwards: long ones are split with
  an overlap, separators and duplicates go. Unicode lower-casing and the engine for the caller's
  pattern (\<open>None\<close> for a pattern that does not compile, else the pieces between its matches) are
  arguments. The code's own pattern \<open>[.!?]+\s+\<close> is the scan \<open>sentence_pieces\<close>. Similarity is a
  quotient of counts compared with a decimal. Log lines are left out.
\<close>

record chunk_options =
  co_max_chars :: "nat option"
  co_overlap_chars :: nat
  co_dedupe :: bool

subsection \<open>Sentences\<close>

definition is_stop :: "char \<Rightarrow> bool" where
  "is_stop c \<longleftrightarrow> c = CHR ''.'' \<or> c = CHR ''!'' \<or> c = CHR ''?''"

text \<open>
  The fragments of the text: each ends with a run of stops that white space follows, and the white
  space is skipped; the last is what remains.
\<close>

function sentence_pieces :: "string \<Rightarrow> string \<Rightarrow> string list" where
  "sentence_pieces acc s =
    (case s of
       [] \<Rightarrow> [acc]
     | c # cs \<Rightarrow>
         if is_stop c then
           (let run = takeWhile is_stop s; rest = dropWhile is_stop s
            in if lead_len ws_encodings rest = 0 then sentence_pieces (acc @ run) rest
               else (acc @ run) # sentence_pieces [] (trim_start rest))
         else sentence_pieces (acc @ [c]) cs)"
  by pat_completeness auto
termination
proof (relation "measure (\<lambda>(acc, s). length s)", goal_cases)
  case (2 acc s c cs run rest)
  then show ?case by (simp add: le_imp_less_Suc length_dropWhile_le)
next
  case (3 acc s c cs run rest)
  have "length (trim_start rest) \<le> length rest"
    using strip_front_suffix [of ws_encodings rest] by (simp add: trim_start_def suffix_length_le)
  then show ?case using 3 length_dropWhile_le [of is_stop cs] by simp
qed simp_all

declare sentence_pieces.simps [simp del]

definition nonempty_trimmed :: "string list \<Rightarrow> string list" where
  "nonempty_trimmed ps = filter (\<lambda>p. p \<noteq> []) (map trim ps)"

text \<open>Sentences joined while they fit.\<close>

fun pack_sentences :: "nat \<Rightarrow> string \<Rightarrow> string list \<Rightarrow> string list" where
  "pack_sentences maxv current [] = (if trim current = [] then [] else [trim current])"
| "pack_sentences maxv current (s # ss) =
    (let sentence = trim s
     in if sentence = [] then pack_sentences maxv current ss
        else if current = [] then pack_sentences maxv sentence ss
        else if char_count current + char_count sentence + 1 < maxv
        then pack_sentences maxv (current @ '' '' @ sentence) ss
        else trim current # pack_sentences maxv sentence ss)"

definition merge_short :: "nat \<Rightarrow> string \<Rightarrow> string list \<Rightarrow> string list" where
  "merge_short min_merge chunk merged =
    (if char_count chunk < min_merge \<and> merged \<noteq> []
     then butlast merged @ [last merged @ '' '' @ chunk] else merged @ [chunk])"

definition chunk_by_sentence :: "string \<Rightarrow> nat option \<Rightarrow> string list" where
  "chunk_by_sentence text max_chars =
    (let maxv = (case max_chars of Some m \<Rightarrow> m | None \<Rightarrow> 1000)
     in fold (merge_short (maxv div 4))
          (pack_sentences maxv [] (nonempty_trimmed (sentence_pieces [] text))) [])"

subsection \<open>Patterns and headings\<close>

definition chunk_by_regex :: "(string \<Rightarrow> string \<Rightarrow> string list option) \<Rightarrow> string \<Rightarrow> string \<Rightarrow> string list" where
  "chunk_by_regex split text pattern =
    (case split pattern text of None \<Rightarrow> [text] | Some ps \<Rightarrow> nonempty_trimmed ps)"

fun topic_chunks :: "string \<Rightarrow> string list \<Rightarrow> string list" where
  "topic_chunks current [] = (if trim current = [] then [] else [trim current])"
| "topic_chunks current (line # ls) =
    (if prefix ''#'' line \<and> trim current \<noteq> []
     then trim current # topic_chunks (line @ [CHR 0x0A]) ls
     else topic_chunks (current @ line @ [CHR 0x0A]) ls)"

definition blank_line :: string where
  "blank_line = [CHR 0x0A, CHR 0x0A]"

fun merge_tiny :: "nat \<Rightarrow> string \<Rightarrow> string list \<Rightarrow> string list \<Rightarrow> string list" where
  "merge_tiny min_chars carry merged [] =
    (if carry = [] then merged
     else if merged = [] then [carry]
     else butlast merged @ [last merged @ blank_line @ carry])"
| "merge_tiny min_chars carry merged (chunk # chunks) =
    (if carry \<noteq> [] then
       (let joined = carry @ blank_line @ chunk
        in if min_chars \<le> char_count joined then merge_tiny min_chars [] (merged @ [joined]) chunks
           else merge_tiny min_chars joined merged chunks)
     else if char_count (trim chunk) < min_chars then merge_tiny min_chars chunk merged chunks
     else merge_tiny min_chars [] (merged @ [chunk]) chunks)"

definition merge_tiny_chunks :: "string list \<Rightarrow> nat \<Rightarrow> string list" where
  "merge_tiny_chunks chunks min_chars = merge_tiny min_chars [] [] chunks"

definition chunk_by_topic :: "string \<Rightarrow> string list" where
  "chunk_by_topic text = merge_tiny_chunks (topic_chunks [] (lines text)) 50"

subsection \<open>Long chunks\<close>

text \<open>The end of the segment that starts a window: its last white space when that is past the middle.\<close>

definition window_end :: "nat \<Rightarrow> string list \<Rightarrow> nat" where
  "window_end maxv window =
    (let after = length (takeWhile (\<lambda>c. \<not> is_whitespace c) (rev window))
     in if after < length window \<and> maxv div 2 < length window - 1 - after
        then length window - 1 - after else maxv)"

function split_from :: "nat \<Rightarrow> nat \<Rightarrow> string list \<Rightarrow> string list" where
  "split_from maxv overlap cs =
    (if cs = [] \<or> maxv = 0 then []
     else if length cs \<le> maxv then nonempty_trimmed [concat cs]
     else
       (let n = window_end maxv (take maxv cs)
        in nonempty_trimmed [concat (take n cs)] @ split_from maxv overlap (drop (max (n - overlap) 1) cs)))"
  by pat_completeness auto
termination
  by (relation "measure (\<lambda>(m, v, cs). length cs)") auto

declare split_from.simps [simp del]

definition split_long_chunk :: "string \<Rightarrow> nat \<Rightarrow> nat \<Rightarrow> string list" where
  "split_long_chunk chunk max_chars overlap_chars =
    (let text = trim chunk
     in if text = [] then []
        else if char_count text \<le> max_chars then [text]
        else split_from max_chars (min overlap_chars (max_chars - 1)) (chars text))"

subsection \<open>Separators and duplicates\<close>

definition is_separator :: "string \<Rightarrow> bool" where
  "is_separator chunk \<longleftrightarrow>
    trim chunk = []
    \<or> list_all (\<lambda>c. c = ''-'' \<or> c = ''*'' \<or> c = ''_'') (filter (\<lambda>c. \<not> is_whitespace c) (chars (trim chunk)))"

definition normalize_chunk :: "(string \<Rightarrow> string) \<Rightarrow> string \<Rightarrow> string" where
  "normalize_chunk lower chunk = lower (join_with '' '' (split_whitespace chunk))"

fun retain_new :: "(string \<Rightarrow> string) \<Rightarrow> string list \<Rightarrow> string list \<Rightarrow> string list" where
  "retain_new key seen [] = []"
| "retain_new key seen (c # cs) =
    (if key c \<in> set seen then retain_new key seen cs else c # retain_new key (key c # seen) cs)"

definition word_set :: "(string \<Rightarrow> string) \<Rightarrow> string \<Rightarrow> string list" where
  "word_set lower chunk = remdups (map lower (split_whitespace chunk))"

definition near_duplicate :: "rat \<Rightarrow> string list \<Rightarrow> string list \<Rightarrow> bool" where
  "near_duplicate threshold set_i set_k =
    (let common = length (filter (\<lambda>w. w \<in> set set_k) set_i);
         total = length set_i + length (filter (\<lambda>w. w \<notin> set set_i) set_k)
     in if total = 0 then False else ratio_ge common total threshold)"

fun keep_distinct :: "(string \<Rightarrow> string) \<Rightarrow> rat \<Rightarrow> string list \<Rightarrow> string list \<Rightarrow> string list" where
  "keep_distinct lower threshold kept [] = kept"
| "keep_distinct lower threshold kept (c # cs) =
    (if word_set lower c = [] \<or> list_ex (\<lambda>k. near_duplicate threshold (word_set lower c) (word_set lower k)) kept
     then keep_distinct lower threshold kept cs
     else keep_distinct lower threshold (kept @ [c]) cs)"

definition remove_near_duplicates :: "(string \<Rightarrow> string) \<Rightarrow> string list \<Rightarrow> rat \<Rightarrow> string list" where
  "remove_near_duplicates lower chunks threshold =
    (if length chunks \<le> 1 then chunks else keep_distinct lower threshold [] chunks)"

definition sized_chunks :: "chunk_options \<Rightarrow> string list \<Rightarrow> string list" where
  "sized_chunks options chunks =
    (case co_max_chars options of
       Some m \<Rightarrow>
         if 0 < m then concat (map (\<lambda>c. split_long_chunk c m (co_overlap_chars options)) chunks) else chunks
     | None \<Rightarrow> chunks)"

definition post_process_chunks :: "(string \<Rightarrow> string) \<Rightarrow> string list \<Rightarrow> chunk_options \<Rightarrow> string list" where
  "post_process_chunks lower chunks options =
    (let processed = filter (\<lambda>c. \<not> is_separator c) (sized_chunks options chunks)
     in if co_dedupe options
        then remove_near_duplicates lower (retain_new (normalize_chunk lower) [] processed) (85 / 100)
        else processed)"

definition options_of :: "nat option \<Rightarrow> nat option \<Rightarrow> bool option \<Rightarrow> chunk_options" where
  "options_of max_chars overlap_chars dedupe =
    \<lparr> co_max_chars = max_chars, co_overlap_chars = (case overlap_chars of Some n \<Rightarrow> n | None \<Rightarrow> 0),
      co_dedupe = (case dedupe of Some b \<Rightarrow> b | None \<Rightarrow> True) \<rparr>"

fun chunk_text ::
    "(string \<Rightarrow> string) \<Rightarrow> (string \<Rightarrow> string \<Rightarrow> string list option) \<Rightarrow> string \<Rightarrow> chunk_strategy \<Rightarrow> string list" where
  "chunk_text lower split text (SentenceChunks max_chars overlap_chars dedupe) =
    post_process_chunks lower (chunk_by_sentence text max_chars) (options_of max_chars overlap_chars dedupe)"
| "chunk_text lower split text (RegexChunks pattern max_chars overlap_chars dedupe) =
    post_process_chunks lower (chunk_by_regex split text pattern) (options_of max_chars overlap_chars dedupe)"
| "chunk_text lower split text (TopicChunks max_chars overlap_chars dedupe) =
    post_process_chunks lower (chunk_by_topic text) (options_of max_chars overlap_chars dedupe)"

end
