(* ===== verification/Char_Count.thy ===== *)
theory Char_Count
  imports Text_Lib
begin

section \<open>Counting code points\<close>

text \<open>How counting and splitting into code points go with concatenation, prefixes and trimming.\<close>

lemma suffix_trim_start: "suffix (trim_start s) s"
  by (simp add: trim_start_def strip_front_suffix)

lemma char_count_prefix: "prefix a b \<Longrightarrow> char_count a \<le> char_count b"
  by (auto simp: prefix_def char_count_append)

lemma char_count_suffix: "suffix a b \<Longrightarrow> char_count a \<le> char_count b"
  by (auto simp: suffix_def char_count_append)

lemma char_count_trim: "char_count (trim s) \<le> char_count s"
  using char_count_prefix [OF trim_end_prefix] char_count_suffix [OF suffix_trim_start] le_trans
  unfolding trim_def by blast

lemma char_count_Nil [simp]: "char_count [] = 0"
  by (simp add: char_count_def)

lemma char_count_Cons: "char_count (c # s) = of_bool (is_char_start c) + char_count s"
  by (simp add: char_count_def)

lemma chars_from_count: "ch \<in> set (chars_from acc s) \<Longrightarrow> char_count acc \<le> 1 \<Longrightarrow> char_count ch \<le> 1"
proof (induction s arbitrary: acc)
  case (Cons c cs)
  then show ?case by (auto simp: char_count_append char_count_Cons split: if_splits)
qed simp

lemma chars_count:
  assumes "ch \<in> set (chars s)"
  shows "char_count ch \<le> 1"
proof (cases s)
  case (Cons c cs)
  moreover have "char_count [c] \<le> 1" by (simp add: char_count_Cons)
  ultimately show ?thesis using assms chars_from_count [of ch "[c]" cs] by (simp add: chars_def)
qed (use assms in simp)

lemma char_count_concat: "\<forall>c \<in> set cs. char_count c \<le> 1 \<Longrightarrow> char_count (concat cs) \<le> length cs"
  by (induction cs) (auto simp: char_count_append)

lemma char_count_take_chars: "char_count (concat (take n (chars s))) \<le> n"
proof -
  have "\<forall>c \<in> set (take n (chars s)). char_count c \<le> 1" using chars_count in_set_takeD by fastforce
  then have "char_count (concat (take n (chars s))) \<le> length (take n (chars s))" by (rule char_count_concat)
  then show ?thesis by simp
qed

subsection \<open>Splitting a concatenation\<close>

lemma chars_from_append:
  "is_char_start c \<Longrightarrow> chars_from acc (a @ c # b) = chars_from acc a @ chars_from [c] b"
  by (induction acc a rule: chars_from.induct) auto

lemma chars_append: "is_char_start (hd b) \<Longrightarrow> chars (a @ b) = chars a @ chars b"
proof (cases b)
  case (Cons c cs)
  assume "is_char_start (hd b)"
  then show ?thesis using Cons chars_from_append [of c _ _ cs] by (cases a) (simp_all add: chars_def)
qed simp

lemma chars_from_not_Nil: "chars_from acc s \<noteq> []"
  by (induction acc s rule: chars_from.induct) auto

text \<open>The first code points of a text are code points again.\<close>

lemma chars_from_take:
  "acc \<noteq> [] \<Longrightarrow> n \<le> length (chars_from acc s) \<Longrightarrow> 0 < n
    \<Longrightarrow> concat (take n (chars_from acc s)) = acc @ drop (length acc) (concat (take n (chars_from acc s)))
      \<and> chars_from acc (drop (length acc) (concat (take n (chars_from acc s)))) = take n (chars_from acc s)"
proof (induction s arbitrary: acc n)
  case (Cons c cs)
  show ?case
  proof (cases "is_char_start c")
    case True
    then obtain m where m: "n = Suc m" using Cons.prems(3) by (cases n) auto
    show ?thesis
    proof (cases "m = 0")
      case False
      have "concat (take m (chars_from [c] cs)) = [c] @ drop 1 (concat (take m (chars_from [c] cs)))
          \<and> chars_from [c] (drop 1 (concat (take m (chars_from [c] cs)))) = take m (chars_from [c] cs)"
        using Cons.IH [of "[c]" m] Cons.prems(2) True m False by simp
      then obtain r where r: "concat (take m (chars_from [c] cs)) = c # r" "chars_from [c] r = take m (chars_from [c] cs)"
        by auto
      show ?thesis using True m r by simp
    qed (use True m in simp)
  next
    case False
    have "concat (take n (chars_from (acc @ [c]) cs)) = (acc @ [c]) @ drop (length (acc @ [c])) (concat (take n (chars_from (acc @ [c]) cs)))
        \<and> chars_from (acc @ [c]) (drop (length (acc @ [c])) (concat (take n (chars_from (acc @ [c]) cs))))
          = take n (chars_from (acc @ [c]) cs)"
      using Cons.IH [of "acc @ [c]" n] Cons.prems False by simp
    then obtain r where r: "concat (take n (chars_from (acc @ [c]) cs)) = acc @ c # r"
      "chars_from (acc @ [c]) r = take n (chars_from (acc @ [c]) cs)" by (metis append_Cons append_assoc append_Nil)
    show ?thesis using False r by simp
  qed
next
  case Nil
  then have "n = 1" by simp
  then show ?case by simp
qed

lemma chars_take_chars: "chars (concat (take n (chars s))) = take n (chars s)"
proof (cases s)
  case (Cons c cs)
  define k where "k = min n (length (chars_from [c] cs))"
  have k: "take n (chars_from [c] cs) = take k (chars_from [c] cs)" by (simp add: k_def min_def)
  show ?thesis
  proof (cases "k = 0")
    case False
    then have "concat (take k (chars_from [c] cs)) = [c] @ drop 1 (concat (take k (chars_from [c] cs)))
        \<and> chars_from [c] (drop 1 (concat (take k (chars_from [c] cs)))) = take k (chars_from [c] cs)"
      using chars_from_take [of "[c]" k cs] by (simp add: k_def)
    then obtain r where r: "concat (take k (chars_from [c] cs)) = c # r" "chars_from [c] r = take k (chars_from [c] cs)"
      by auto
    then show ?thesis using Cons k by (simp add: chars_def)
  next
    case True
    then have "n = 0" using chars_from_not_Nil [of "[c]" cs] by (simp add: k_def min_def split: if_splits)
    then show ?thesis by simp
  qed
qed simp

end
