(* ===== verification/Chunking_Props.thy ===== *)
theory Chunking_Props
  imports Chunking Char_Count "HOL-Library.Code_Target_Nat"
begin

section \<open>Properties of chunking\<close>

subsection \<open>Sizes\<close>

lemma nonempty_trimmed_parts: "p \<in> set (nonempty_trimmed ps) \<Longrightarrow> \<exists>q \<in> set ps. p = trim q \<and> p \<noteq> []"
  by (auto simp: nonempty_trimmed_def)

lemma window_end_le: "window_end maxv window \<le> max maxv (length window)"
  by (auto simp: window_end_def Let_def)

lemma split_from_fits:
  assumes "p \<in> set (split_from maxv overlap cs)" "\<forall>c \<in> set cs. char_count c \<le> 1"
  shows "char_count p \<le> maxv"
  using assms
proof (induction maxv overlap cs rule: split_from.induct)
  case (1 maxv overlap cs)
  show ?case
  proof (cases "cs = [] \<or> maxv = 0 \<or> length cs \<le> maxv")
    case True
    then obtain q where "q = concat cs" "p = trim q" "length cs \<le> maxv"
      using "1.prems"(1) by (auto simp: split_from.simps [of maxv overlap cs] dest!: nonempty_trimmed_parts split: if_splits)
    then show ?thesis using char_count_trim [of q] char_count_concat [OF "1.prems"(2)] by (metis le_trans)
  next
    case False
    define n where "n = window_end maxv (take maxv cs)"
    have n: "n \<le> maxv" using window_end_le [of maxv "take maxv cs"] by (simp add: n_def)
    have "p \<in> set (nonempty_trimmed [concat (take n cs)]) \<or> p \<in> set (split_from maxv overlap (drop (max (n - overlap) 1) cs))"
      using "1.prems"(1) False by (simp add: split_from.simps [of maxv overlap cs] n_def Let_def)
    then show ?thesis
    proof
      assume "p \<in> set (nonempty_trimmed [concat (take n cs)])"
      then have p: "p = trim (concat (take n cs))" by (auto dest: nonempty_trimmed_parts)
      have "\<forall>c \<in> set (take n cs). char_count c \<le> 1" using "1.prems"(2) set_take_subset by fastforce
      then show ?thesis
        using char_count_concat [of "take n cs"] char_count_trim [of "concat (take n cs)"] n p by simp
    next
      assume "p \<in> set (split_from maxv overlap (drop (max (n - overlap) 1) cs))"
      then show ?thesis
        using "1.IH" [OF _ _ n_def] False "1.prems"(2) by (meson in_set_dropD)
    qed
  qed
qed

lemma split_long_fits: "0 < m \<Longrightarrow> p \<in> set (split_long_chunk c m v) \<Longrightarrow> char_count p \<le> m"
  using split_from_fits [of p m "min v (m - 1)" "chars (trim c)"] chars_count
  by (auto simp: split_long_chunk_def Let_def split: if_splits)

lemma set_retain_new: "set (retain_new key seen cs) \<subseteq> set cs"
  by (induction key seen cs rule: retain_new.induct) auto

lemma set_keep_distinct: "set (keep_distinct lower t kept cs) \<subseteq> set kept \<union> set cs"
  by (induction lower t kept cs rule: keep_distinct.induct) auto

lemma set_post_process:
  "set (post_process_chunks lower chunks options) \<subseteq> {c \<in> set (sized_chunks options chunks). \<not> is_separator c}"
proof -
  have "set (remove_near_duplicates lower cs t) \<subseteq> set cs" for cs t
    using set_keep_distinct [of lower t "[]" cs] by (auto simp: remove_near_duplicates_def)
  then have "set (remove_near_duplicates lower (retain_new key seen cs) t) \<subseteq> set cs" for key seen cs t
    using set_retain_new by (meson subset_trans)
  then have "set (post_process_chunks lower chunks options) \<subseteq> set (filter (\<lambda>c. \<not> is_separator c) (sized_chunks options chunks))"
    by (cases "co_dedupe options") (simp_all add: post_process_chunks_def Let_def del: set_filter)
  then show ?thesis by simp
qed

subsection \<open>Nothing is lost\<close>

text \<open>Bytes that are part of no white-space character; trimming leaves them alone.\<close>

definition visible :: "char \<Rightarrow> bool" where
  "visible c \<longleftrightarrow> c \<notin> set (concat ws_encodings)"

abbreviation seen_of :: "string \<Rightarrow> string" where
  "seen_of s \<equiv> filter visible s"

lemma lead_len_take: "lead_len es s \<noteq> 0 \<Longrightarrow> take (lead_len es s) s \<in> set es"
  by (induction es) (auto simp: prefix_def)

lemma seen_of_strip_front:
  assumes "\<forall>e \<in> set es. \<forall>c \<in> set e. \<not> visible c"
  shows "seen_of (strip_front es s) = seen_of s"
  using assms
proof (induction es s rule: strip_front.induct)
  case (1 es s)
  show ?case
  proof (cases "lead_len es s = 0")
    case True
    then show ?thesis by (simp add: strip_front.simps [of es s])
  next
    case False
    have "seen_of (take (lead_len es s) s) = []"
      using "1.prems" lead_len_take [OF False] by (simp add: filter_empty_conv)
    then have "seen_of s = seen_of (drop (lead_len es s) s)"
      by (metis append_Nil append_take_drop_id filter_append)
    then show ?thesis using 1 False by (simp add: strip_front.simps [of es s])
  qed
qed

lemma seen_of_trim_start [simp]: "seen_of (trim_start s) = seen_of s"
  unfolding trim_start_def by (rule seen_of_strip_front) (auto simp: visible_def)

lemma seen_of_trim [simp]: "seen_of (trim s) = seen_of s"
proof -
  have "seen_of (strip_front (map rev ws_encodings) (rev t)) = seen_of (rev t)" for t
    by (rule seen_of_strip_front) (auto simp: visible_def)
  then show ?thesis by (simp add: trim_def trim_end_def rev_filter [symmetric])
qed

lemma space_not_visible [simp]: "\<not> visible (CHR '' '')" "\<not> visible (CHR 0x0A)" "\<not> visible (CHR 0x0D)"
  by (simp_all add: visible_def ws_encodings_def)

lemma seen_of_trimmed_Nil: "trim s = [] \<Longrightarrow> seen_of s = []"
  using seen_of_trim [of s] by simp

text \<open>What is seen of several pieces.\<close>

definition seen_all :: "string list \<Rightarrow> string" where
  "seen_all ps = seen_of (concat ps)"

lemma seen_all_simps [simp]:
  "seen_all [] = []" "seen_all (p # ps) = seen_of p @ seen_all ps" "seen_all (ps @ qs) = seen_all ps @ seen_all qs"
  by (simp_all add: seen_all_def)

lemma seen_all_trimmed [simp]: "seen_all (nonempty_trimmed ps) = seen_all ps"
  by (induction ps) (auto simp: nonempty_trimmed_def dest: seen_of_trimmed_Nil)

lemma seen_all_butlast: "ps \<noteq> [] \<Longrightarrow> seen_all (butlast ps) @ seen_of (last ps) = seen_all ps"
  by (metis append_Nil2 append_butlast_last_id seen_all_simps)

lemma seen_sentence_pieces: "seen_all (sentence_pieces acc s) = seen_of acc @ seen_of s"
proof (induction acc s rule: sentence_pieces.induct)
  case (1 acc s)
  show ?case
  proof (cases s)
    case Nil
    then show ?thesis by (simp add: sentence_pieces.simps [of acc "[]"])
  next
    case (Cons c cs)
    let ?run = "takeWhile is_stop s" and ?rest = "dropWhile is_stop s"
    have split: "seen_of s = seen_of ?run @ seen_of ?rest" by (metis filter_append takeWhile_dropWhile_id)
    show ?thesis
    proof (cases "is_stop c")
      case False
      then show ?thesis using "1.IH"(3) [OF Cons False] Cons by (simp add: sentence_pieces.simps [of acc "c # cs"])
    next
      case True
      have step: "sentence_pieces acc s = (if lead_len ws_encodings ?rest = 0 then sentence_pieces (acc @ ?run) ?rest
          else (acc @ ?run) # sentence_pieces [] (trim_start ?rest))"
        unfolding sentence_pieces.simps [of acc s] using True by (simp add: Cons Let_def)
      show ?thesis
        unfolding step split using "1.IH"(1) [OF Cons True refl refl] "1.IH"(2) [OF Cons True refl refl]
        by (simp del: takeWhile.simps dropWhile.simps)
    qed
  qed
qed

lemma seen_pack_sentences: "seen_all (pack_sentences maxv current ss) = seen_of current @ seen_all ss"
proof (induction maxv current ss rule: pack_sentences.induct)
  case (1 maxv current)
  then show ?case by (auto dest: seen_of_trimmed_Nil)
next
  case (2 maxv current s ss)
  then show ?case by (auto simp: Let_def dest: seen_of_trimmed_Nil)
qed

lemma seen_merge_short: "seen_all (fold (merge_short n) chunks merged) = seen_all merged @ seen_all chunks"
proof (induction chunks arbitrary: merged)
  case (Cons c cs)
  have "seen_all (merge_short n c merged) = seen_all merged @ seen_of c"
    using seen_all_butlast [of merged] by (simp add: merge_short_def flip: append.assoc)
  then show ?case using Cons by simp
qed simp

lemma seen_chunk_by_sentence: "seen_all (chunk_by_sentence text max_chars) = seen_of text"
  by (simp add: chunk_by_sentence_def Let_def seen_merge_short seen_pack_sentences seen_sentence_pieces)

lemma seen_strip_cr [simp]: "seen_of (strip_cr s) = seen_of s"
proof (cases "s \<noteq> [] \<and> last s = CHR 0x0D")
  case True
  then have "s = butlast s @ [CHR 0x0D]" by (metis append_butlast_last_id)
  then have "seen_of s = seen_of (butlast s)" by (metis append_Nil2 filter.simps filter_append space_not_visible(3))
  then show ?thesis using True by (simp add: strip_cr_def)
qed (auto simp: strip_cr_def)

lemma seen_join: "seen_of (join_with [CHR 0x0A] ps) = seen_all ps"
  by (induction "[CHR 0x0A]" ps rule: join_with.induct) simp_all

lemma seen_lines: "seen_all (lines s) = seen_of s"
proof -
  let ?ps = "split_char (CHR 0x0A) s"
  have cr: "seen_all (map strip_cr ps) = seen_all ps" for ps by (induction ps) simp_all
  have "seen_all (lines s) = seen_all (butlast ?ps) @ seen_of (last ?ps)" by (simp add: lines_def Let_def cr)
  also have "\<dots> = seen_all ?ps" by (simp add: seen_all_butlast)
  also have "\<dots> = seen_of s" by (metis seen_join join_split_char)
  finally show ?thesis .
qed

lemma seen_topic_chunks: "seen_all (topic_chunks current ls) = seen_of current @ seen_all ls"
  by (induction current ls rule: topic_chunks.induct) (auto dest: seen_of_trimmed_Nil)

lemma seen_merge_tiny: "seen_all (merge_tiny n carry merged chunks) = seen_all merged @ seen_of carry @ seen_all chunks"
proof (induction n carry merged chunks rule: merge_tiny.induct)
  case (1 n carry merged)
  then show ?case using seen_all_butlast [of merged] by (simp add: blank_line_def flip: append.assoc)
next
  case (2 n carry merged chunk chunks)
  then show ?case by (auto simp: Let_def blank_line_def)
qed

lemma seen_chunk_by_topic: "seen_all (chunk_by_topic text) = seen_of text"
  by (simp add: chunk_by_topic_def merge_tiny_chunks_def seen_merge_tiny seen_topic_chunks seen_lines)

lemma seen_split_from: "0 < maxv \<Longrightarrow> subseq (seen_of (concat cs)) (seen_all (split_from maxv overlap cs))"
proof (induction maxv overlap cs rule: split_from.induct)
  case (1 maxv overlap cs)
  show ?case
  proof (cases "cs = [] \<or> length cs \<le> maxv")
    case True
    then show ?thesis using "1.prems" by (auto simp: split_from.simps [of maxv overlap cs])
  next
    case False
    define n where "n = window_end maxv (take maxv cs)"
    let ?step = "max (n - overlap) 1"
    have "maxv div 2 < n \<or> n = maxv" by (auto simp: n_def window_end_def Let_def)
    then have "?step \<le> n" using "1.prems" by auto
    have split: "seen_of (concat cs) = seen_of (concat (take n cs)) @ seen_of (concat (drop n cs))"
      by (metis append_take_drop_id concat_append filter_append)
    have "suffix (drop n cs) (drop ?step cs)"
      using \<open>?step \<le> n\<close> by (metis drop_drop le_add_diff_inverse2 suffix_drop)
    then have "subseq (seen_of (concat (drop n cs))) (seen_of (concat (drop ?step cs)))"
      by (auto simp: suffix_def intro: list_emb_append2)
    moreover have "subseq (seen_of (concat (drop ?step cs))) (seen_all (split_from maxv overlap (drop ?step cs)))"
      using "1.IH" [OF _ _ n_def] False "1.prems" by auto
    ultimately have "subseq (seen_of (concat (drop n cs))) (seen_all (split_from maxv overlap (drop ?step cs)))"
      by (rule subseq_order.trans)
    then show ?thesis
      using False "1.prems" unfolding split
      by (simp add: split_from.simps [of maxv overlap cs] n_def [symmetric] Let_def list_emb_append_mono)
  qed
qed

lemma seen_split_long: "0 < m \<Longrightarrow> subseq (seen_of c) (seen_all (split_long_chunk c m v))"
  using seen_split_from [of m "chars (trim c)" "min v (m - 1)"]
  by (auto simp: split_long_chunk_def Let_def dest: seen_of_trimmed_Nil)

lemma seen_sized: "subseq (seen_all chunks) (seen_all (sized_chunks options chunks))"
proof -
  have "0 < m \<Longrightarrow> subseq (seen_all chunks) (seen_all (concat (map (\<lambda>c. split_long_chunk c m v) chunks)))" for m v
    by (induction chunks) (auto intro: list_emb_append_mono seen_split_long)
  then show ?thesis by (auto simp: sized_chunks_def split: option.split)
qed

subsection \<open>Duplicates\<close>

lemma split_ws_Nil: "split_ws acc s = [] \<Longrightarrow> acc = [] \<and> strip_front ws_encodings s = []"
proof (induction acc s rule: split_ws.induct)
  case (2 acc x xs)
  show ?case
  proof (cases "lead_len ws_encodings (x # xs) = 0")
    case True
    then show ?thesis using 2 by simp
  next
    case False
    then have "split_ws acc (x # xs) =
        (if acc = [] then [] else [acc]) @ split_ws [] (drop (lead_len ws_encodings (x # xs)) (x # xs))"
      by (simp add: Let_def)
    then show ?thesis
      using 2 False by (auto simp: strip_front.simps [of ws_encodings "x # xs"] split: if_splits)
  qed
qed (simp split: if_splits)

lemma word_set_Nil: "word_set lower c = [] \<Longrightarrow> is_separator c"
  using split_ws_Nil [of "[]" c]
  by (auto simp: word_set_def split_whitespace_def is_separator_def trim_def trim_start_def)

lemma retain_new_covers:
  "c \<in> set cs \<Longrightarrow> key c \<in> set seen \<or> (\<exists>d \<in> set (retain_new key seen cs). key d = key c)"
  by (induction key seen cs rule: retain_new.induct) auto

lemma keep_distinct_covers:
  "set kept \<subseteq> set (keep_distinct lower t kept cs) \<and>
   (\<forall>c \<in> set cs. word_set lower c = [] \<or> c \<in> set (keep_distinct lower t kept cs)
     \<or> (\<exists>k \<in> set (keep_distinct lower t kept cs). near_duplicate t (word_set lower c) (word_set lower k)))"
proof (induction lower t kept cs rule: keep_distinct.induct)
  case (2 lower t kept c cs)
  show ?case
  proof (cases "word_set lower c = [] \<or> list_ex (\<lambda>k. near_duplicate t (word_set lower c) (word_set lower k)) kept")
    case True
    then show ?thesis using "2.IH"(1) [OF True] by (auto simp: list_ex_iff)
  next
    case False
    then show ?thesis using "2.IH"(2) [OF False] by auto
  qed
qed simp

text \<open>A chunk of the result stands for a piece: it is the piece, or a duplicate of it where duplicates go.\<close>

definition stands_for :: "(string \<Rightarrow> string) \<Rightarrow> bool \<Rightarrow> string \<Rightarrow> string \<Rightarrow> bool" where
  "stands_for lower dedupe p c \<longleftrightarrow>
    p = c \<or> (dedupe \<and> (\<exists>q. normalize_chunk lower q = normalize_chunk lower p
      \<and> (q = c \<or> near_duplicate (85 / 100) (word_set lower q) (word_set lower c))))"

lemma post_process_covers:
  assumes "p \<in> set (sized_chunks options chunks)" "\<not> is_separator p"
  shows "\<exists>c \<in> set (post_process_chunks lower chunks options). stands_for lower (co_dedupe options) p c"
proof (cases "co_dedupe options")
  case False
  then show ?thesis using assms by (auto simp: post_process_chunks_def stands_for_def)
next
  case True
  let ?kept = "filter (\<lambda>c. \<not> is_separator c) (sized_chunks options chunks)"
  let ?new = "retain_new (normalize_chunk lower) [] ?kept"
  obtain q where q: "q \<in> set ?new" "normalize_chunk lower q = normalize_chunk lower p"
    using retain_new_covers [of p ?kept "normalize_chunk lower" "[]"] assms by auto
  have "\<not> is_separator q" using q(1) set_retain_new [of "normalize_chunk lower" "[]" ?kept] by auto
  then have "word_set lower q \<noteq> []" using word_set_Nil by blast
  then have "\<exists>c \<in> set (remove_near_duplicates lower ?new (85 / 100)).
      q = c \<or> near_duplicate (85 / 100) (word_set lower q) (word_set lower c)"
    using keep_distinct_covers [of "[]" lower "85 / 100" ?new] q(1) unfolding remove_near_duplicates_def by auto
  then show ?thesis using True q(2) unfolding post_process_chunks_def stands_for_def Let_def by auto
qed

subsection \<open>The two promises\<close>

fun options_in :: "chunk_strategy \<Rightarrow> chunk_options" where
  "options_in (SentenceChunks m v d) = options_of m v d"
| "options_in (RegexChunks p m v d) = options_of m v d"
| "options_in (TopicChunks m v d) = options_of m v d"

fun cut :: "(string \<Rightarrow> string \<Rightarrow> string list option) \<Rightarrow> string \<Rightarrow> chunk_strategy \<Rightarrow> string list" where
  "cut split text (SentenceChunks m v d) = chunk_by_sentence text m"
| "cut split text (RegexChunks p m v d) = chunk_by_regex split text p"
| "cut split text (TopicChunks m v d) = chunk_by_topic text"

text \<open>The text a strategy keeps: a pattern's matches go.\<close>

fun chunked_text :: "(string \<Rightarrow> string \<Rightarrow> string list option) \<Rightarrow> string \<Rightarrow> chunk_strategy \<Rightarrow> string" where
  "chunked_text split text (RegexChunks p m v d) =
    (case split p text of None \<Rightarrow> text | Some ps \<Rightarrow> concat ps)"
| "chunked_text split text strategy = text"

lemma chunk_text_cut:
  "chunk_text lower split text strategy = post_process_chunks lower (cut split text strategy) (options_in strategy)"
  by (cases strategy) simp_all

lemma seen_cut: "seen_all (cut split text strategy) = seen_of (chunked_text split text strategy)"
proof (cases strategy)
  case (RegexChunks p m v d)
  then show ?thesis by (auto simp: chunk_by_regex_def simp flip: seen_all_def split: option.split)
qed (simp_all add: seen_chunk_by_sentence seen_chunk_by_topic)

text \<open>
  C27. Chunks fit. With a limit on the size of chunks, no chunk has more code points than that, and
  whatever the strategy none is blank or a mere separator.
\<close>

theorem chunks_fit:
  assumes "co_max_chars (options_in strategy) = Some m" "0 < m"
  shows "list_all (\<lambda>c. char_count c \<le> m \<and> trim c \<noteq> [] \<and> \<not> is_separator c) (chunk_text lower split text strategy)"
proof -
  have "char_count c \<le> m" if "c \<in> set (sized_chunks (options_in strategy) chunks)" for c chunks
    using that assms split_long_fits [OF assms(2)] by (auto simp: sized_chunks_def)
  moreover have "trim c \<noteq> []" if "\<not> is_separator c" for c using that by (auto simp: is_separator_def)
  ultimately show ?thesis
    using set_post_process [of lower "cut split text strategy" "options_in strategy"]
    unfolding chunk_text_cut list_all_iff by blast
qed

theorem chunks_fit_witness:
  "list_all (\<lambda>c. char_count c \<le> 10) (chunk_text id (\<lambda>_ _. None) ''One two three. --- Four five.'' (SentenceChunks (Some 10) (Some 3) None))
   \<and> chunk_text id (\<lambda>_ _. None) ''One two three. --- Four five.'' (SentenceChunks (Some 10) (Some 3) None)
     = [''One two'', ''two three.'', ''--- Four'', ''our five.'']"
proof -
  have "list_all (\<lambda>c. char_count c \<le> 10 \<and> trim c \<noteq> [] \<and> \<not> is_separator c)
      (chunk_text id (\<lambda>_ _. None) ''One two three. --- Four five.'' (SentenceChunks (Some 10) (Some 3) None))"
    by (rule chunks_fit) (simp_all add: options_of_def)
  moreover have "chunk_text id (\<lambda>_ _. None) ''One two three. --- Four five.'' (SentenceChunks (Some 10) (Some 3) None)
     = [''One two'', ''two three.'', ''--- Four'', ''our five.'']"
    by code_simp
  ultimately show ?thesis by (auto simp: list_all_iff)
qed


end
