(* ===== verification/Jobs.thy ===== *)
theory Jobs
  imports Crawl Render_Types Json_Map
begin

section \<open>Jobs\<close>

text \<open>
  The asynchronous jobs of \<open>crates/crw-server/src/state.rs\<close>: crawls and batches of scrapes, which
  share a table, a semaphore of ten permits and the clean-up of old results, with the cancellation of
  \<open>routes/crawl.rs\<close>; and the extraction jobs. A watch channel is the state it holds (\<open>jb_state\<close>).
  A spawned task is what it has still to publish. The operations of the runtime are steps of their
  own, so a sequence of actions is an interleaving: a task that is polled may publish until it
  suspends, \<open>AbortHandle::abort\<close> sets a flag that takes effect between two polls. A fresh UUID is a
  number not used so far. Whether a job is a batch and whether it was cancelled (\<open>jb_batch\<close>,
  \<open>jb_cancelled\<close>) is recorded, which the code does not. Counters of type \<open>u32\<close> are natural numbers:
  a batch has fewer than \<open>2 ^ 32\<close> URLs. Log lines are left out.
\<close>

subsection \<open>Tasks and jobs\<close>

definition max_concurrent_crawls :: nat where
  "max_concurrent_crawls = 10"

text \<open>What a task has still to do: states to send one after the other, or pages of a batch that land
  in any order, the first \<open>width\<close> of them being in flight.\<close>

datatype 'u work =
    Sends "'u crawl_state list"
  | Pages nat nat "(string \<times> (string + 'u scrape_data)) list"

record 'u job_task =
  tk_work :: "'u work"
  tk_polled :: bool
  tk_aborted :: bool

record 'u job =
  jb_state :: "'u crawl_state"
  jb_created :: instant
  jb_handle :: bool
  jb_known :: bool
  jb_batch :: bool
  jb_cancelled :: bool

record 'u job_registry =
  rg_jobs :: "nat \<Rightarrow> 'u job option"
  rg_tasks :: "nat \<Rightarrow> 'u job_task option"
  rg_permits :: nat
  rg_running :: "nat list"
  rg_used :: "nat list"

definition registry_init :: "'u job_registry" where
  "registry_init =
    \<lparr> rg_jobs = (\<lambda>_. None), rg_tasks = (\<lambda>_. None), rg_permits = max_concurrent_crawls, rg_running = [],
      rg_used = [] \<rparr>"

definition initial_state :: "nat \<Rightarrow> 'u crawl_state" where
  "initial_state urls =
    \<lparr> cs_success = True, cs_status = InProgress, cs_total = urls, cs_completed = 0, cs_blocked = 0,
      cs_data = [], cs_error = None \<rparr>"

definition is_terminal :: "crawl_status \<Rightarrow> bool" where
  "is_terminal s \<longleftrightarrow> s = Completed \<or> s = Failed \<or> s = Cancelled"

subsection \<open>Batches\<close>

text \<open>One document of a batch, and whether it counts as blocked.\<close>

definition batch_document :: "string \<Rightarrow> string + 'u scrape_data \<Rightarrow> 'u scrape_data" where
  "batch_document url scraped =
    (let d = (case scraped of Inr x \<Rightarrow> x | Inl err \<Rightarrow> failed_page url 0 err);
         is_wall = (sd_block d \<noteq> None);
         d1 = (if \<not> is_wall
               then (case http_error d of
                       Some reason \<Rightarrow>
                         d\<lparr> sd_block := Some \<lparr> block_vendor = http_error_vendor, block_reason = reason \<rparr> \<rparr>
                     | None \<Rightarrow> d)
               else d)
     in if sd_block d1 \<noteq> None \<and> is_wall then clear_body d1 else d1)"

definition batch_page :: "nat \<Rightarrow> string \<times> (string + 'u scrape_data) \<Rightarrow> 'u crawl_state \<Rightarrow> 'u crawl_state" where
  "batch_page urls page st =
    (let d = batch_document (fst page) (snd page);
         st1 = st\<lparr> cs_blocked := cs_blocked st + (if sd_block d \<noteq> None then 1 else 0),
                   cs_data := cs_data st @ [d], cs_completed := cs_completed st + 1 \<rparr>
     in if urls \<le> cs_completed st1 \<and> cs_status st1 = InProgress
        then st1\<lparr> cs_status := Completed \<rparr> else st1)"

definition batch_work :: "nat \<Rightarrow> (string \<times> (string + 'u scrape_data)) list \<Rightarrow> 'u work" where
  "batch_work max_concurrency pages =
    (if pages = [] then Sends [(initial_state 0)\<lparr> cs_status := Completed \<rparr>]
     else Pages (length pages) (max max_concurrency 1) pages)"

subsection \<open>The registry\<close>

definition spawn_job ::
    "nat \<Rightarrow> instant \<Rightarrow> 'u crawl_state \<Rightarrow> bool \<Rightarrow> 'u work \<Rightarrow> 'u job_registry \<Rightarrow> 'u job_registry" where
  "spawn_job i now st batch work r =
    (if i \<in> set (rg_used r) then r
     else r\<lparr> rg_used := i # rg_used r,
             rg_jobs := (rg_jobs r)(i \<mapsto>
               \<lparr> jb_state = st, jb_created = now, jb_handle = False, jb_known = False, jb_batch = batch,
                 jb_cancelled = False \<rparr>),
             rg_tasks := (rg_tasks r)(i \<mapsto> \<lparr> tk_work = work, tk_polled = False, tk_aborted = False \<rparr>) \<rparr>)"

definition start_crawl_job ::
    "('m, 'u) crawl_env \<Rightarrow> nat \<Rightarrow> instant \<Rightarrow> crawl_request \<Rightarrow> 'u job_registry \<Rightarrow> 'u job_registry" where
  "start_crawl_job env i now req r = spawn_job i now (initial_state 0) False (Sends (fst (run_crawl env req))) r"

definition start_batch_job ::
    "nat \<Rightarrow> nat \<Rightarrow> instant \<Rightarrow> (string \<times> (string + 'u scrape_data)) list \<Rightarrow> 'u job_registry \<Rightarrow> 'u job_registry" where
  "start_batch_job max_concurrency i now pages r =
    spawn_job i now (initial_state (length pages)) True (batch_work max_concurrency pages) r"

text \<open>The handle is stored and the id is returned.\<close>

definition store_handle :: "nat \<Rightarrow> 'u job_registry \<Rightarrow> 'u job_registry" where
  "store_handle i r =
    (case rg_jobs r i of
       Some j \<Rightarrow> if jb_known j then r else r\<lparr> rg_jobs := (rg_jobs r)(i \<mapsto> j\<lparr> jb_handle := True, jb_known := True \<rparr>) \<rparr>
     | None \<Rightarrow> r)"

definition acquire_permit :: "nat \<Rightarrow> 'u job_registry \<Rightarrow> 'u job_registry" where
  "acquire_permit i r =
    (case rg_tasks r i of
       Some t \<Rightarrow>
         if 0 < rg_permits r \<and> i \<notin> set (rg_running r) \<and> \<not> tk_aborted t
         then r\<lparr> rg_permits := rg_permits r - 1, rg_running := i # rg_running r \<rparr> else r
     | None \<Rightarrow> r)"

definition poll_task :: "nat \<Rightarrow> 'u job_registry \<Rightarrow> 'u job_registry" where
  "poll_task i r =
    (case rg_tasks r i of
       Some t \<Rightarrow>
         if i \<in> set (rg_running r) \<and> \<not> tk_aborted t
         then r\<lparr> rg_tasks := (rg_tasks r)(i \<mapsto> t\<lparr> tk_polled := True \<rparr>) \<rparr> else r
     | None \<Rightarrow> r)"

definition end_task :: "nat \<Rightarrow> 'u job_registry \<Rightarrow> 'u job_registry" where
  "end_task i r =
    r\<lparr> rg_tasks := (rg_tasks r)(i := None),
       rg_permits := rg_permits r + (if i \<in> set (rg_running r) then 1 else 0),
       rg_running := remove1 i (rg_running r) \<rparr>"

fun work_done :: "'u work \<Rightarrow> bool" where
  "work_done (Sends ss) = (ss = [])"
| "work_done (Pages urls width ps) = (ps = [])"

definition suspend_task :: "nat \<Rightarrow> 'u job_registry \<Rightarrow> 'u job_registry" where
  "suspend_task i r =
    (case rg_tasks r i of
       Some t \<Rightarrow>
         if \<not> tk_polled t then r
         else if work_done (tk_work t) \<or> tk_aborted t then end_task i r
         else r\<lparr> rg_tasks := (rg_tasks r)(i \<mapsto> t\<lparr> tk_polled := False \<rparr>) \<rparr>
     | None \<Rightarrow> r)"

definition reap_task :: "nat \<Rightarrow> 'u job_registry \<Rightarrow> 'u job_registry" where
  "reap_task i r =
    (case rg_tasks r i of
       Some t \<Rightarrow> if tk_aborted t \<and> \<not> tk_polled t then end_task i r else r
     | None \<Rightarrow> r)"

definition modify_state :: "nat \<Rightarrow> ('u crawl_state \<Rightarrow> 'u crawl_state) \<Rightarrow> 'u job_registry \<Rightarrow> 'u job_registry" where
  "modify_state i f r =
    (case rg_jobs r i of
       Some j \<Rightarrow> r\<lparr> rg_jobs := (rg_jobs r)(i \<mapsto> j\<lparr> jb_state := f (jb_state j) \<rparr>) \<rparr>
     | None \<Rightarrow> r)"

text \<open>A polled task sends its next state, or lands the page with index \<open>n\<close>.\<close>

definition publish_step :: "nat \<Rightarrow> nat \<Rightarrow> 'u job_registry \<Rightarrow> 'u job_registry" where
  "publish_step i n r =
    (case rg_tasks r i of
       Some t \<Rightarrow>
         if \<not> tk_polled t then r
         else
           (case tk_work t of
              Sends [] \<Rightarrow> r
            | Sends (s # ss) \<Rightarrow>
                modify_state i (\<lambda>_. s) (r\<lparr> rg_tasks := (rg_tasks r)(i \<mapsto> t\<lparr> tk_work := Sends ss \<rparr>) \<rparr>)
            | Pages urls width ps \<Rightarrow>
                if n < length ps \<and> n < width
                then modify_state i (batch_page urls (ps ! n))
                       (r\<lparr> rg_tasks := (rg_tasks r)(i \<mapsto>
                            t\<lparr> tk_work := Pages urls width (take n ps @ drop (Suc n) ps) \<rparr>) \<rparr>)
                else r)
     | None \<Rightarrow> r)"

text \<open>\<open>DELETE /v1/crawl/:id\<close>. \<open>show_id\<close> prints the id.\<close>

definition abort_task :: "nat \<Rightarrow> 'u job_registry \<Rightarrow> 'u job_registry" where
  "abort_task i r =
    (case rg_tasks r i of
       Some t \<Rightarrow> r\<lparr> rg_tasks := (rg_tasks r)(i \<mapsto> t\<lparr> tk_aborted := True \<rparr>) \<rparr>
     | None \<Rightarrow> r)"

definition cancel_crawl :: "(nat \<Rightarrow> string) \<Rightarrow> nat \<Rightarrow> 'u job_registry \<Rightarrow> (crw_error + string) \<times> 'u job_registry" where
  "cancel_crawl show_id i r =
    (case rg_jobs r i of
       None \<Rightarrow> (Inl (NotFound (''Crawl job '' @ show_id i @ '' not found'')), r)
     | Some j \<Rightarrow>
         if is_terminal (cs_status (jb_state j)) then (Inl (InvalidRequest ''Crawl job already finished''), r)
         else
           (let r1 = (if jb_handle j then abort_task i r else r)
            in (Inr (''Crawl job '' @ show_id i @ '' cancelled''),
                r1\<lparr> rg_jobs := (rg_jobs r1)(i \<mapsto>
                      j\<lparr> jb_handle := False, jb_cancelled := True,
                         jb_state := (jb_state j)\<lparr> cs_status := Cancelled \<rparr> \<rparr>) \<rparr>)))"

definition get_crawl :: "(nat \<Rightarrow> string) \<Rightarrow> nat \<Rightarrow> 'u job_registry \<Rightarrow> crw_error + 'u crawl_state" where
  "get_crawl show_id i r =
    (case rg_jobs r i of
       None \<Rightarrow> Inl (NotFound (''Crawl job '' @ show_id i @ '' not found''))
     | Some j \<Rightarrow> Inr (jb_state j))"

text \<open>The clean-up drops finished jobs past their time.\<close>

definition keeps_job :: "duration \<Rightarrow> instant \<Rightarrow> 'u job \<Rightarrow> bool" where
  "keeps_job ttl now j \<longleftrightarrow> \<not> is_terminal (cs_status (jb_state j)) \<or> now - jb_created j < ttl"

definition clean_up :: "duration \<Rightarrow> instant \<Rightarrow> 'u job_registry \<Rightarrow> 'u job_registry" where
  "clean_up ttl now r =
    r\<lparr> rg_jobs := (\<lambda>i. case rg_jobs r i of Some j \<Rightarrow> if keeps_job ttl now j then Some j else None | None \<Rightarrow> None) \<rparr>"

subsection \<open>Interleavings\<close>

datatype 'u job_action =
    StartCrawl nat instant crawl_request
  | StartBatch nat instant "(string \<times> (string + 'u scrape_data)) list"
  | StoreHandle nat
  | Acquire nat
  | Poll nat
  | Publish nat nat
  | Suspend nat
  | Reap nat
  | Cancel nat
  | CleanUp instant

record ('m, 'u) job_env =
  je_crawl :: "('m, 'u) crawl_env"
  je_max_concurrency :: nat
  je_ttl :: duration
  je_show :: "nat \<Rightarrow> string"

text \<open>A client knows the id of a job once it has been returned.\<close>

definition knows :: "nat \<Rightarrow> 'u job_registry \<Rightarrow> bool" where
  "knows i r = (case rg_jobs r i of Some j \<Rightarrow> jb_known j | None \<Rightarrow> False)"

fun job_step :: "('m, 'u) job_env \<Rightarrow> 'u job_action \<Rightarrow> 'u job_registry \<Rightarrow> 'u job_registry" where
  "job_step env (StartCrawl i now req) r = start_crawl_job (je_crawl env) i now req r"
| "job_step env (StartBatch i now pages) r = start_batch_job (je_max_concurrency env) i now pages r"
| "job_step env (StoreHandle i) r = store_handle i r"
| "job_step env (Acquire i) r = acquire_permit i r"
| "job_step env (Poll i) r = poll_task i r"
| "job_step env (Publish i n) r = publish_step i n r"
| "job_step env (Suspend i) r = suspend_task i r"
| "job_step env (Reap i) r = reap_task i r"
| "job_step env (Cancel i) r = (if knows i r then snd (cancel_crawl (je_show env) i r) else r)"
| "job_step env (CleanUp now) r = clean_up (je_ttl env) now r"

subsection \<open>Extraction jobs\<close>

datatype extract_status = Processing | Extracted | ExtractFailed

fun extract_status_str :: "extract_status \<Rightarrow> string" where
  "extract_status_str Processing = ''processing''"
| "extract_status_str Extracted = ''completed''"
| "extract_status_str ExtractFailed = ''failed''"

record extract_record =
  er_status :: extract_status
  er_data :: "json option"
  er_tokens :: nat
  er_credits :: nat
  er_error :: "string option"
  er_created :: instant

text \<open>What the task accumulates over the URLs; the two sums are of type \<open>u32\<close> and wrap in the
  release build.\<close>

record extract_sum =
  es_merged :: members
  es_tokens :: nat
  es_credits :: nat
  es_last_err :: "string option"
  es_any_ok :: bool

definition extract_start :: extract_sum where
  "extract_start = \<lparr> es_merged = [], es_tokens = 0, es_credits = 0, es_last_err = None, es_any_ok = False \<rparr>"

definition refused_page :: "'u scrape_data \<Rightarrow> string option" where
  "refused_page d =
    (if sd_block d \<noteq> None \<or> http_error d \<noteq> None
     then Some (case sd_block d of
                  Some b \<Rightarrow> block_message b
                | None \<Rightarrow> (case http_error d of Some e \<Rightarrow> e | None \<Rightarrow> ''Blocked''))
     else None)"

definition merge_members :: "json option \<Rightarrow> members \<Rightarrow> members" where
  "merge_members v merged = (case v of Some (JObject m) \<Rightarrow> btree.ins_all m merged | _ \<Rightarrow> merged)"

definition extract_page :: "('u \<Rightarrow> nat) \<Rightarrow> crw_error + 'u scrape_data \<times> nat \<Rightarrow> extract_sum \<Rightarrow> extract_sum" where
  "extract_page tokens_of scraped s =
    (case scraped of
       Inl e \<Rightarrow> s\<lparr> es_last_err := Some (error_text e) \<rparr>
     | Inr (d, cost) \<Rightarrow>
         (case refused_page d of
            Some reason \<Rightarrow> s\<lparr> es_last_err := Some reason \<rparr>
          | None \<Rightarrow>
              s\<lparr> es_any_ok := True, es_merged := merge_members (sd_json d) (es_merged s),
                 es_tokens := (es_tokens s + (case sd_llm_usage d of Some u \<Rightarrow> tokens_of u | None \<Rightarrow> 0)) mod 2 ^ 32,
                 es_credits := (es_credits s + (if cost = 0 then 1 else cost)) mod 2 ^ 32 \<rparr>))"

definition extract_finish :: "extract_sum \<Rightarrow> extract_record \<Rightarrow> extract_record" where
  "extract_finish s r =
    (if \<not> es_any_ok s \<and> es_last_err s \<noteq> None
     then r\<lparr> er_status := ExtractFailed, er_error := es_last_err s, er_credits := es_credits s, er_tokens := es_tokens s \<rparr>
     else r\<lparr> er_status := Extracted, er_data := Some (JObject (es_merged s)), er_credits := max (es_credits s) 1,
             er_tokens := es_tokens s \<rparr>)"

definition extract_new :: "instant \<Rightarrow> extract_record" where
  "extract_new now =
    \<lparr> er_status = Processing, er_data = None, er_tokens = 0, er_credits = 0, er_error = None, er_created = now \<rparr>"

text \<open>The job, over the results of its pages in the order of the URLs: an error, or a document with
  the credits it costs.\<close>

definition extract_job :: "('u \<Rightarrow> nat) \<Rightarrow> instant \<Rightarrow> (crw_error + 'u scrape_data \<times> nat) list \<Rightarrow> extract_record" where
  "extract_job tokens_of now pages = extract_finish (fold (extract_page tokens_of) pages extract_start) (extract_new now)"

definition keeps_extract :: "duration \<Rightarrow> instant \<Rightarrow> extract_record \<Rightarrow> bool" where
  "keeps_extract ttl now r \<longleftrightarrow> er_status r = Processing \<or> now - er_created r < ttl"

end
