(* ===== verification/Mcp_Proto.thy ===== *)
theory Mcp_Proto
  imports Json_Map Text_Lib
begin

section \<open>The tool protocol\<close>

text \<open>
  \<open>crates/crw-mcp-proto/src/lib.rs\<close>: the types of JSON-RPC, the declarations of the tools, the
  protocol methods and what bounds the size of a result before it reaches a model's context. A
  \<open>serde_json::Value\<close> is a \<open>json\<close>, an object the ordered list of its members; indexing with an
  absent key reads null. The printer of JSON is an argument. Lengths are in code points.
\<close>

subsection \<open>JSON values\<close>

abbreviation obj :: "members \<Rightarrow> json" where
  "obj kvs \<equiv> json_object kvs"

lemma ins_all_code [code_unfold]: "btree.ins_all kvs m = fold (\<lambda>(k, v). btree_insert k v) kvs m"
  by (simp add: btree.ins_all_def)

abbreviation strs :: "string list \<Rightarrow> json" where
  "strs xs \<equiv> JArray (map JString xs)"

text \<open>\<open>Value::get\<close>, the indexed reading with its null, and the conversions.\<close>

fun jget :: "string \<Rightarrow> json \<Rightarrow> json option" where
  "jget k (JObject m) = map_of m k"
| "jget k _ = None"

definition jindex :: "json \<Rightarrow> string \<Rightarrow> json" where
  "jindex v k = (case jget k v of Some x \<Rightarrow> x | None \<Rightarrow> JNull)"

fun as_array :: "json \<Rightarrow> json list option" where
  "as_array (JArray xs) = Some xs"
| "as_array _ = None"

fun as_str :: "json \<Rightarrow> string option" where
  "as_str (JString s) = Some s"
| "as_str _ = None"

fun as_bool :: "json \<Rightarrow> bool option" where
  "as_bool (JBool b) = Some b"
| "as_bool _ = None"

fun as_u64 :: "json \<Rightarrow> nat option" where
  "as_u64 (JInt i) = (if 0 \<le> i \<and> i < 2 ^ 64 then Some (nat i) else None)"
| "as_u64 _ = None"

fun is_object :: "json \<Rightarrow> bool" where
  "is_object (JObject m) = True"
| "is_object _ = False"

text \<open>Writing a member of an object; a value that is no object stays.\<close>

fun jset :: "string \<Rightarrow> json \<Rightarrow> json \<Rightarrow> json" where
  "jset k v (JObject m) = JObject (btree_insert k v m)"
| "jset k v other = other"

text \<open>Changing a member that is there.\<close>

definition jmap :: "string \<Rightarrow> (json \<Rightarrow> json) \<Rightarrow> json \<Rightarrow> json" where
  "jmap k f v = (case jget k v of Some x \<Rightarrow> jset k (f x) v | None \<Rightarrow> v)"

fun jremove :: "string \<Rightarrow> json \<Rightarrow> json" where
  "jremove k (JObject m) = JObject (filter (\<lambda>kv. fst kv \<noteq> k) m)"
| "jremove k other = other"

subsection \<open>JSON-RPC\<close>

definition protocol_version :: string where
  "protocol_version = ''2025-06-18''"

definition server_instructions_text :: string where
  "server_instructions_text =
    ''CRW gives you live web access. Prefer these tools whenever a task needs information from the internet rather than answering from memory: crw_search for web search and current or real-time facts, crw_scrape to read a specific URL as clean markdown, crw_map to discover a site's URLs, crw_crawl to gather many pages across a site (poll it with crw_check_crawl_status), and crw_parse_file to convert a PDF you already have into markdown. When the user asks about recent, live, or source-specific information, reach for these instead of guessing.''"

definition server_instructions_no_search :: string where
  "server_instructions_no_search =
    ''CRW gives you live web access. Prefer these tools whenever a task needs information from the internet rather than answering from memory: crw_scrape to read a specific URL as clean markdown, crw_map to discover a site's URLs, crw_crawl to gather many pages across a site (poll it with crw_check_crawl_status), and crw_parse_file to convert a PDF you already have into markdown. When the user asks about recent, live, or source-specific information, reach for these instead of guessing.''"

definition server_instructions :: "bool \<Rightarrow> string" where
  "server_instructions search_available =
    (if search_available then server_instructions_text else server_instructions_no_search)"

record json_rpc_request =
  jr_jsonrpc :: string
  jr_id :: "json option"
  jr_method :: string
  jr_params :: json

record json_rpc_response =
  js_jsonrpc :: string
  js_id :: json
  js_result :: "json option"
  js_error :: "(int \<times> string) option"

definition rpc_success :: "json \<Rightarrow> json \<Rightarrow> json_rpc_response" where
  "rpc_success i r = \<lparr> js_jsonrpc = ''2.0'', js_id = i, js_result = Some r, js_error = None \<rparr>"

definition rpc_error :: "json \<Rightarrow> int \<Rightarrow> string \<Rightarrow> json_rpc_response" where
  "rpc_error i code message = \<lparr> js_jsonrpc = ''2.0'', js_id = i, js_result = None, js_error = Some (code, message) \<rparr>"

subsection \<open>The tools\<close>

definition scrape_tool :: json where
  "scrape_tool =
    obj [(''name'', JString ''crw_scrape''),
      (''title'', JString ''Scrape URL''),
      (''description'', JString ''Scrape one URL to markdown, HTML, or links.''),
      (''annotations'', obj [(''readOnlyHint'', JBool True),
        (''destructiveHint'', JBool False),
        (''idempotentHint'', JBool True),
        (''openWorldHint'', JBool True)]),
      (''inputSchema'', obj [(''type'', JString ''object''),
        (''properties'', obj [(''url'', obj [(''type'', JString ''string''), (''description'', JString ''URL to scrape'')]),
          (''formats'', obj [(''type'', JString ''array''),
            (''items'', obj [(''type'', JString ''string''),
              (''enum'', strs [''markdown'', ''html'', ''links'', ''images''])]),
            (''description'', JString ''Output formats (default [\"markdown\"])'')]),
          (''onlyMainContent'', obj [(''type'', JString ''boolean''),
            (''description'', JString ''Strip nav/footer; main content only (default true)'')]),
          (''includeTags'', obj [(''type'', JString ''array''),
            (''items'', obj [(''type'', JString ''string'')]),
            (''description'', JString ''CSS selectors to include'')]),
          (''excludeTags'', obj [(''type'', JString ''array''),
            (''items'', obj [(''type'', JString ''string'')]),
            (''description'', JString ''CSS selectors to exclude'')]),
          (''renderJs'', obj [(''type'', JString ''boolean''),
            (''description'', JString ''Force JS render (true), HTTP-only (false), omit = auto'')]),
          (''waitFor'', obj [(''type'', JString ''integer''),
            (''description'', JString ''Ms to wait after JS render for late content'')]),
          (''maxLength'', obj [(''type'', JString ''integer''),
            (''minimum'', JInt 0),
            (''description'', JString ''Max chars per content field; 0 = unbounded (default ~15000)'')]),
          (''renderer'', obj [(''type'', JString ''string''),
            (''enum'', strs [''auto'', ''lightpanda'', ''camofox'', ''impersonated-http'']),
            (''description'', JString ''Pin renderer (default auto); browser tiers hard-pin and imply renderJs:true. 'impersonated-http' is Chrome-TLS HTTP, no JS.'')])]),
        (''required'', strs [''url''])])]"

definition crawl_tool :: json where
  "crawl_tool =
    obj [(''name'', JString ''crw_crawl''),
      (''title'', JString ''Crawl site''),
      (''description'', JString ''Start an async site crawl; returns a job id to poll with crw_check_crawl_status.''),
      (''annotations'', obj [(''readOnlyHint'', JBool False),
        (''destructiveHint'', JBool False),
        (''idempotentHint'', JBool False),
        (''openWorldHint'', JBool True)]),
      (''inputSchema'', obj [(''type'', JString ''object''),
        (''properties'', obj [(''url'', obj [(''type'', JString ''string''), (''description'', JString ''Starting URL'')]),
          (''maxDepth'', obj [(''type'', JString ''integer''),
            (''description'', JString ''Max crawl depth (default 2)'')]),
          (''maxPages'', obj [(''type'', JString ''integer''),
            (''description'', JString ''Max pages to crawl (default 10)'')]),
          (''jsonSchema'', obj [(''type'', JString ''object''),
            (''additionalProperties'', JBool True),
            (''description'', JString ''JSON Schema (draft 2020-12) of fields to extract from each page via an LLM, e.g. {\"type\":\"object\",\"properties\":{\"title\":{\"type\":\"string\"}}}. Omit to crawl without extraction.'')]),
          (''renderJs'', obj [(''type'', JString ''boolean''),
            (''description'', JString ''Force JS render (true), HTTP-only (false), omit = auto'')]),
          (''waitFor'', obj [(''type'', JString ''integer''),
            (''description'', JString ''Ms to wait after JS render per page'')]),
          (''renderer'', obj [(''type'', JString ''string''),
            (''enum'', strs [''auto'', ''lightpanda'', ''camofox'', ''impersonated-http'']),
            (''description'', JString ''Pin renderer (default auto); browser tiers hard-pin and imply renderJs:true. 'impersonated-http' is Chrome-TLS HTTP, no JS.'')])]),
        (''required'', strs [''url''])])]"

definition check_crawl_status_tool :: json where
  "check_crawl_status_tool =
    obj [(''name'', JString ''crw_check_crawl_status''),
      (''title'', JString ''Check crawl status''),
      (''description'', JString ''Poll an async crawl job and retrieve its pages.''),
      (''annotations'', obj [(''readOnlyHint'', JBool True),
        (''destructiveHint'', JBool False),
        (''idempotentHint'', JBool True),
        (''openWorldHint'', JBool True)]),
      (''inputSchema'', obj [(''type'', JString ''object''),
        (''properties'', obj [(''id'', obj [(''type'', JString ''string''),
            (''description'', JString ''Crawl job id from crw_crawl'')]),
          (''maxLength'', obj [(''type'', JString ''integer''),
            (''minimum'', JInt 0),
            (''description'', JString ''Max chars per page content field; 0 = unbounded (default ~15000)'')])]),
        (''required'', strs [''id''])])]"

definition map_tool :: json where
  "map_tool =
    obj [(''name'', JString ''crw_map''),
      (''title'', JString ''Map site URLs''),
      (''description'', JString ''Discover URLs on a site via sitemap and/or a short crawl. Returns a URL list only, no page content.''),
      (''annotations'', obj [(''readOnlyHint'', JBool True),
        (''destructiveHint'', JBool False),
        (''idempotentHint'', JBool True),
        (''openWorldHint'', JBool True)]),
      (''inputSchema'', obj [(''type'', JString ''object''),
        (''properties'', obj [(''url'', obj [(''type'', JString ''string''), (''description'', JString ''URL to map'')]),
          (''maxDepth'', obj [(''type'', JString ''integer''),
            (''description'', JString ''Max discovery depth (default 2)'')]),
          (''useSitemap'', obj [(''type'', JString ''boolean''),
            (''description'', JString ''Use sitemap.xml (default true)'')]),
          (''crawlFallback'', obj [(''type'', JString ''boolean''),
            (''description'', JString ''Supplement sitemap with a short BFS crawl (default true; false = sitemap-only)'')]),
          (''limit'', obj [(''type'', JString ''integer''),
            (''minimum'', JInt 0),
            (''description'', JString ''Max URLs to discover AND return; 0 = unbounded (default 100). Raise it (e.g. 50000) to pull deep/large sitemaps.'')])]),
        (''required'', strs [''url''])])]"

definition search_tool :: json where
  "search_tool =
    obj [(''name'', JString ''crw_search''),
      (''title'', JString ''Web search''),
      (''description'', JString ''Search the web through configured Camofox renderer.''),
      (''annotations'', obj [(''readOnlyHint'', JBool True),
        (''destructiveHint'', JBool False),
        (''idempotentHint'', JBool True),
        (''openWorldHint'', JBool True)]),
      (''inputSchema'', obj [(''type'', JString ''object''),
        (''properties'', obj [(''query'', obj [(''type'', JString ''string''), (''description'', JString ''Search query'')]),
          (''limit'', obj [(''type'', JString ''integer''),
            (''description'', JString ''Max results (default 5, max 20)'')]),
          (''lang'', obj [(''type'', JString ''string''),
            (''description'', JString ''Language code, e.g. \"en\", \"tr\"'')]),
          (''tbs'', obj [(''type'', JString ''string''),
            (''enum'', strs [''qdr:h'', ''qdr:d'', ''qdr:w'', ''qdr:m'', ''qdr:y'']),
            (''description'', JString ''Time filter: past hour/day/week/month/year'')]),
          (''sources'', obj [(''type'', JString ''array''),
            (''items'', obj [(''type'', JString ''string''), (''enum'', strs [''web'', ''news'', ''images''])]),
            (''description'', JString ''If set, group results by source instead of a flat list'')]),
          (''categories'', obj [(''type'', JString ''array''),
            (''items'', obj [(''type'', JString ''string'')]),
            (''description'', JString ''Category bias; \"pdf\" restricts to PDFs. For GitHub, use engines'')]),
          (''engines'', obj [(''type'', JString ''array''),
            (''items'', obj [(''type'', JString ''string''),
              (''enum'', strs [''google'', ''bing'', ''duckduckgo'', ''wikipedia'', ''youtube'', ''reddit'', ''amazon'', ''github''])]),
            (''maxItems'', JInt 4),
            (''description'', JString ''Engine(s) to query (omit for Google). Multiple are merged/deduped. Max 4.'')]),
          (''scrapeOptions'', obj [(''type'', JString ''object''),
            (''description'', JString ''If set, scrape each web result and inline the requested formats''),
            (''properties'', obj [(''formats'', obj [(''type'', JString ''array''),
                (''items'', obj [(''type'', JString ''string''),
                  (''enum'', strs [''markdown'', ''html'', ''rawHtml'', ''links'', ''images''])])]),
              (''onlyMainContent'', obj [(''type'', JString ''boolean''),
                (''description'', JString ''Strip nav/footer/ads (default true)'')]),
              (''timeout'', obj [(''type'', JString ''integer''), (''description'', JString ''ms, max 60000'')])])]),
          (''maxLength'', obj [(''type'', JString ''integer''),
            (''minimum'', JInt 0),
            (''description'', JString ''Total inline scrape chars; 0 = unlimited (default 15000)'')])]),
        (''required'', strs [''query''])]),
      (''outputSchema'', obj [(''type'', JString ''object''),
        (''properties'', obj [(''success'', obj [(''type'', JString ''boolean'')]),
          (''data'', obj [(''type'', JString ''object''),
            (''properties'', obj [(''results'', obj [(''oneOf'', JArray [obj [(''type'', JString ''array''),
                    (''items'', obj [(''type'', JString ''object'')])], obj [(''type'', JString ''object'')]])])]),
            (''required'', strs [''results''])])]),
        (''required'', strs [''success'', ''data''])])]"

definition parse_file_tool :: json where
  "parse_file_tool =
    obj [(''name'', JString ''crw_parse_file''),
      (''title'', JString ''Parse PDF''),
      (''description'', JString ''Parse a local PDF (base64 in contentBase64) to markdown. No OCR: scanned PDFs return empty markdown with a warning.''),
      (''annotations'', obj [(''readOnlyHint'', JBool True),
        (''destructiveHint'', JBool False),
        (''idempotentHint'', JBool True),
        (''openWorldHint'', JBool False)]),
      (''inputSchema'', obj [(''type'', JString ''object''),
        (''properties'', obj [(''contentBase64'', obj [(''type'', JString ''string''),
            (''description'', JString ''Base64-encoded PDF bytes'')]),
          (''filename'', obj [(''type'', JString ''string''),
            (''description'', JString ''Original filename (optional)'')]),
          (''formats'', obj [(''type'', JString ''array''),
            (''items'', obj [(''type'', JString ''string''),
              (''enum'', strs [''markdown'', ''plainText'', ''links'', ''images'', ''json'', ''summary''])]),
            (''description'', JString ''Output formats (default [\"markdown\"]); json/summary need a server LLM'')]),
          (''jsonSchema'', obj [(''type'', JString ''object''),
            (''additionalProperties'', JBool True),
            (''description'', JString ''JSON Schema (draft 2020-12) of fields to extract when formats includes \"json\", e.g. {\"type\":\"object\",\"properties\":{\"title\":{\"type\":\"string\"}}}.'')]),
          (''parsers'', obj [(''type'', JString ''array''),
            (''items'', obj [(''type'', JString ''string''), (''enum'', strs [''pdf''])]),
            (''description'', JString ''Parsers to apply (default [\"pdf\"])'')]),
          (''maxLength'', obj [(''type'', JString ''integer''),
            (''minimum'', JInt 0),
            (''description'', JString ''Max chars per content field; 0 = unbounded (default ~15000)'')])]),
        (''required'', strs [''contentBase64''])])]"

definition max_age_property :: json where
  "max_age_property =
    obj [(''type'', JString ''integer''),
      (''minimum'', JInt 0),
      (''description'', JString ''Max cache age in ms (default 3600000; 0 = always fetch; cap 24h)'')]"

definition with_max_age :: "json \<Rightarrow> json" where
  "with_max_age tool = jmap ''inputSchema'' (jmap ''properties'' (jset ''maxAge'' max_age_property)) tool"

definition tool_list :: "bool \<Rightarrow> json list" where
  "tool_list proxy_mode =
    (let tools = [scrape_tool, crawl_tool, check_crawl_status_tool, map_tool, search_tool, parse_file_tool]
     in if proxy_mode
        then map (\<lambda>t. if jindex t ''name'' = JString ''crw_scrape'' then with_max_age t else t) tools
        else tools)"

definition tool_definitions :: "bool \<Rightarrow> json" where
  "tool_definitions proxy_mode = obj [(''tools'', JArray (tool_list proxy_mode))]"

definition tools_of :: "json \<Rightarrow> json list" where
  "tools_of defs = (case as_array (jindex defs ''tools'') of Some ts \<Rightarrow> ts | None \<Rightarrow> [])"

definition named_tool :: "string \<Rightarrow> json \<Rightarrow> bool" where
  "named_tool name t = (jindex t ''name'' = JString name)"

definition tool_output_schema :: "string \<Rightarrow> json option" where
  "tool_output_schema name =
    (case find (named_tool name) (tools_of (tool_definitions False)) of
       None \<Rightarrow> None
     | Some t \<Rightarrow> jget ''outputSchema'' t)"

definition is_known_tool :: "string \<Rightarrow> bool" where
  "is_known_tool name = list_ex (named_tool name) (tools_of (tool_definitions False))"

subsection \<open>Protocol methods\<close>

datatype protocol_result = Respond json_rpc_response | Notification | NotHandled

definition id_or_null :: "json_rpc_request \<Rightarrow> json" where
  "id_or_null req = (case jr_id req of Some i \<Rightarrow> i | None \<Rightarrow> JNull)"

definition initialize_result :: "string \<Rightarrow> string \<Rightarrow> bool \<Rightarrow> json" where
  "initialize_result server_name server_version search_available =
    obj [(''protocolVersion'', JString protocol_version),
      (''capabilities'', obj [(''tools'', obj [(''listChanged'', JBool False)])]),
      (''serverInfo'', obj [(''name'', JString server_name), (''version'', JString server_version)]),
      (''instructions'', JString (server_instructions search_available))]"

definition tools_list_result :: "bool \<Rightarrow> bool \<Rightarrow> json" where
  "tools_list_result proxy_mode search_available =
    (let defs = tool_definitions proxy_mode
     in if search_available then defs
        else jmap ''tools'' (\<lambda>v. case as_array v of
                 Some ts \<Rightarrow> JArray (filter (\<lambda>t. \<not> named_tool ''crw_search'' t) ts) | None \<Rightarrow> v) defs)"

definition handle_protocol_method ::
    "string \<Rightarrow> string \<Rightarrow> json_rpc_request \<Rightarrow> bool \<Rightarrow> bool \<Rightarrow> protocol_result" where
  "handle_protocol_method server_name server_version req proxy_mode search_available =
    (if jr_jsonrpc req \<noteq> ''2.0'' then Respond (rpc_error (id_or_null req) (-32600) ''invalid jsonrpc version'')
     else if jr_method req \<in> {''notifications/initialized'', ''notifications/cancelled''} then Notification
     else if jr_method req = ''initialize''
     then Respond (rpc_success (id_or_null req) (initialize_result server_name server_version search_available))
     else if jr_method req = ''tools/list''
     then Respond (rpc_success (id_or_null req) (tools_list_result proxy_mode search_available))
     else if jr_method req = ''ping'' then Respond (rpc_success (id_or_null req) (obj []))
     else NotHandled)"

definition text_content :: "string \<Rightarrow> json" where
  "text_content text = JArray [obj [(''type'', JString ''text''), (''text'', JString text)]]"

definition tool_result_response :: "(json \<Rightarrow> string) \<Rightarrow> json \<Rightarrow> string \<Rightarrow> string + json \<Rightarrow> json_rpc_response" where
  "tool_result_response print i tool_name r =
    (case r of
       Inr v \<Rightarrow>
         (let payload = obj [(''content'', text_content (print v))]
          in rpc_success i (if is_object v \<and> tool_output_schema tool_name \<noteq> None
                            then jset ''structuredContent'' v payload else payload))
     | Inl e \<Rightarrow> rpc_success i (obj [(''content'', text_content e), (''isError'', JBool True)]))"

subsection \<open>Bounds\<close>

definition default_max_length :: nat where
  "default_max_length = 15000"

definition default_map_limit :: nat where
  "default_map_limit = 100"

definition scrape_text_fields :: "string list" where
  "scrape_text_fields = [''markdown'', ''html'', ''rawHtml'', ''plainText'', ''summary'']"

definition resolve_bound :: "json \<Rightarrow> string \<Rightarrow> nat \<Rightarrow> nat option" where
  "resolve_bound args key dflt =
    (case (case jget key args of None \<Rightarrow> None | Some v \<Rightarrow> as_u64 v) of
       None \<Rightarrow> Some dflt
     | Some n \<Rightarrow> if n = 0 then None else Some n)"

text \<open>The horizontal ellipsis of the markers is three bytes.\<close>

definition ellipsis :: string where
  "ellipsis = [CHR 0xE2, CHR 0x80, CHR 0xA6]"

definition cut_marker :: string where
  "cut_marker = CHR 0x0A # ellipsis @ ''[truncated by crw-mcp maxLength]''"

definition truncate_to_chars :: "string \<Rightarrow> nat \<Rightarrow> string option" where
  "truncate_to_chars s max_chars =
    (if length (chars s) \<le> max_chars then None else Some (concat (take max_chars (chars s)) @ cut_marker))"

text \<open>One field: whether anything was cut, and the object.\<close>

definition truncate_field :: "nat \<Rightarrow> string \<Rightarrow> json \<times> bool \<Rightarrow> json \<times> bool" where
  "truncate_field maxv field st =
    (case st of (v, anyc) \<Rightarrow>
      (case jget field v of
         Some (JString s) \<Rightarrow>
           (case truncate_to_chars s maxv of
              Some t \<Rightarrow> (jset field (JString t) v, True)
            | None \<Rightarrow> (v, anyc))
       | _ \<Rightarrow> (v, anyc)))"

definition truncate_scrape_obj :: "nat \<Rightarrow> json \<Rightarrow> json" where
  "truncate_scrape_obj maxv v =
    (case fold (truncate_field maxv) scrape_text_fields (v, False) of
       (v', anyc) \<Rightarrow> if anyc then jset ''truncated'' (JBool True) v' else v')"

text \<open>The scraped object: in the envelope of the REST API or bare.\<close>

definition bound_scrape :: "nat \<Rightarrow> json \<Rightarrow> json" where
  "bound_scrape maxv v =
    (if (case jget ''data'' v of Some d \<Rightarrow> is_object d | None \<Rightarrow> False)
     then jmap ''data'' (truncate_scrape_obj maxv) v
     else if is_object v then truncate_scrape_obj maxv v else v)"

definition bound_list :: "nat \<Rightarrow> string \<Rightarrow> string \<Rightarrow> json \<Rightarrow> json" where
  "bound_list limit key total_key v =
    (case (case jget key v of Some x \<Rightarrow> as_array x | None \<Rightarrow> None) of
       None \<Rightarrow> v
     | Some xs \<Rightarrow>
         if limit < length xs
         then jset total_key (JInt (int (length xs))) (jset key (JArray (take limit xs)) v) else v)"

definition list_over :: "nat \<Rightarrow> string \<Rightarrow> json \<Rightarrow> bool" where
  "list_over limit key v =
    (case (case jget key v of Some x \<Rightarrow> as_array x | None \<Rightarrow> None) of
       None \<Rightarrow> False | Some xs \<Rightarrow> limit < length xs)"

definition bound_container :: "nat \<Rightarrow> json \<Rightarrow> json" where
  "bound_container limit v =
    (if list_over limit ''links'' v \<or> list_over limit ''sitemaps'' v
     then jset ''truncated'' (JBool True)
            (bound_list limit ''sitemaps'' ''totalSitemaps'' (bound_list limit ''links'' ''totalDiscovered'' v))
     else v)"

definition bound_map_links :: "nat \<Rightarrow> json \<Rightarrow> json" where
  "bound_map_links limit v =
    (if (case jget ''data'' v of Some d \<Rightarrow> jget ''links'' d \<noteq> None | None \<Rightarrow> False)
     then jmap ''data'' (bound_container limit) v else bound_container limit v)"

definition budget_marker :: "nat \<Rightarrow> string" where
  "budget_marker n =
    CHR 0x0A # ellipsis @ ''[truncated '' @ [CHR 0xE2, CHR 0x80, CHR 0x94] @ '' original '' @ dec_digits n @ '' chars]''"

definition budget_text :: "nat \<Rightarrow> string \<Rightarrow> string" where
  "budget_text remaining content =
    (let marker = budget_marker (char_count content)
     in if char_count marker \<le> remaining
        then concat (take (remaining - char_count marker) (chars content)) @ marker else [])"

definition budget_field :: "string \<Rightarrow> (json \<times> nat) \<times> bool \<Rightarrow> (json \<times> nat) \<times> bool" where
  "budget_field field st =
    (case st of ((v, remaining), anyc) \<Rightarrow>
      (case jget field v of
         Some (JString content) \<Rightarrow>
           if char_count content \<le> remaining then ((v, remaining - char_count content), anyc)
           else ((jset field (JString (budget_text remaining content)) v, 0), True)
       | _ \<Rightarrow> ((v, remaining), anyc)))"

definition truncate_scrape_obj_to_budget :: "json \<Rightarrow> nat \<Rightarrow> json \<times> nat" where
  "truncate_scrape_obj_to_budget v remaining =
    (if \<not> is_object v then (v, remaining)
     else
       (case fold budget_field scrape_text_fields ((v, remaining), False) of
          ((v', r), anyc) \<Rightarrow> (if anyc then jset ''truncated'' (JBool True) v' else v', r)))"

fun budget_items :: "json list \<Rightarrow> nat \<Rightarrow> json list \<times> nat" where
  "budget_items [] remaining = ([], remaining)"
| "budget_items (v # vs) remaining =
    (case truncate_scrape_obj_to_budget v remaining of
       (v', r) \<Rightarrow> (case budget_items vs r of (vs', r') \<Rightarrow> (v' # vs', r')))"

definition budget_group :: "string \<Rightarrow> json \<times> nat \<Rightarrow> json \<times> nat" where
  "budget_group g st =
    (case st of (v, remaining) \<Rightarrow>
      (case (case jget g v of Some x \<Rightarrow> as_array x | None \<Rightarrow> None) of
         None \<Rightarrow> (v, remaining)
       | Some items \<Rightarrow> (case budget_items items remaining of (items', r) \<Rightarrow> (jset g (JArray items') v, r))))"

definition result_groups :: "string list" where
  "result_groups = [''web'', ''news'', ''images'']"

fun budget_results :: "nat \<Rightarrow> json \<Rightarrow> json" where
  "budget_results maxv (JArray items) = JArray (fst (budget_items items maxv))"
| "budget_results maxv (JObject m) = fst (fold budget_group result_groups (JObject m, maxv))"
| "budget_results maxv v = v"

definition bound_search_results :: "nat \<Rightarrow> json \<Rightarrow> json" where
  "bound_search_results maxv v = jmap ''data'' (jmap ''results'' (budget_results maxv)) v"

definition bound_pages :: "nat \<Rightarrow> json \<Rightarrow> json" where
  "bound_pages maxv v =
    jmap ''data'' (\<lambda>d. case as_array d of Some ps \<Rightarrow> JArray (map (truncate_scrape_obj maxv) ps) | None \<Rightarrow> d) v"

definition with_bound :: "nat option \<Rightarrow> (nat \<Rightarrow> json \<Rightarrow> json) \<Rightarrow> json \<Rightarrow> json" where
  "with_bound b f v = (case b of Some n \<Rightarrow> f n v | None \<Rightarrow> v)"

definition apply_bounds :: "string \<Rightarrow> json \<Rightarrow> json \<Rightarrow> json" where
  "apply_bounds tool_name args v =
    (if tool_name = ''crw_scrape'' \<or> tool_name = ''crw_parse_file''
     then with_bound (resolve_bound args ''maxLength'' default_max_length) bound_scrape v
     else if tool_name = ''crw_check_crawl_status''
     then with_bound (resolve_bound args ''maxLength'' default_max_length) bound_pages v
     else if tool_name = ''crw_map''
     then with_bound (resolve_bound args ''limit'' default_map_limit) bound_map_links v
     else if tool_name = ''crw_search''
     then with_bound (resolve_bound args ''maxLength'' default_max_length) bound_search_results v
     else v)"

definition strip_mcp_only_args :: "string \<Rightarrow> json \<Rightarrow> json" where
  "strip_mcp_only_args tool_name args =
    (if tool_name \<in> {''crw_scrape'', ''crw_parse_file'', ''crw_check_crawl_status'', ''crw_search''}
     then jremove ''maxLength'' args else args)"

end
