(* ===== verification/Budgets.thy ===== *)
theory Budgets
  imports Rust_Str
begin

section \<open>Time budgets\<close>

text \<open>
  The part of \<open>crates/crw-core/src/config.rs\<close> that turns the configuration of the renderers into the
  deadline of a request and the outer timeout of the server. Budgets are \<open>u64\<close> milliseconds with
  saturating sums; an endpoint is given by its presence. The features of the build are an argument.
\<close>

datatype renderer_mode = ModeAuto | ModeNone | ModeLightpanda | ModeChrome | ModePlaywright | ModeCamofox

record build_features =
  bf_cdp :: bool
  bf_impersonated :: bool

record renderer_config =
  rc_mode :: renderer_mode
  rc_page_timeout_ms :: nat
  rc_http_timeout_ms :: "nat option"
  rc_lightpanda_timeout_ms :: "nat option"
  rc_chrome_timeout_ms :: "nat option"
  rc_chrome_proxy_timeout_ms :: "nat option"
  rc_lightpanda :: bool
  rc_playwright :: bool
  rc_chrome :: bool
  rc_camofox :: bool
  rc_byparr_timeout_ms :: "nat option"
  rc_impersonated_enabled :: bool
  rc_impersonated_timeout_ms :: nat
  rc_proxy_base_user :: "string option"
  rc_proxy_base_pass :: "string option"
  rc_proxy_default_country :: "string option"

record app_budgets =
  ab_renderer :: renderer_config
  ab_features :: build_features
  ab_deadline_ms_default :: nat
  ab_auto_extend :: bool
  ab_request_timeout_secs :: nat
  ab_max_concurrency :: nat
  ab_search_max_limit :: nat
  ab_search_timeout_ms :: nat

definition cdp_tier_overhead_ms :: nat where
  "cdp_tier_overhead_ms = 28000"

definition max_wait_for_ms :: nat where
  "max_wait_for_ms = 60000"

text \<open>Arithmetic of \<open>u64\<close>.\<close>

definition sat_add_u64 :: "nat \<Rightarrow> nat \<Rightarrow> nat" where
  "sat_add_u64 a b = min (a + b) u64_max"

definition sat_mul_u64 :: "nat \<Rightarrow> nat \<Rightarrow> nat" where
  "sat_mul_u64 a b = min (a * b) u64_max"

definition div_ceil :: "nat \<Rightarrow> nat \<Rightarrow> nat" where
  "div_ceil a b = (a + b - 1) div b"

subsection \<open>Tiers\<close>

definition or_else :: "nat option \<Rightarrow> nat \<Rightarrow> nat" where
  "or_else x d = (case x of Some n \<Rightarrow> n | None \<Rightarrow> d)"

definition http_timeout :: "renderer_config \<Rightarrow> nat" where
  "http_timeout c = or_else (rc_http_timeout_ms c) (rc_page_timeout_ms c)"

definition lightpanda_timeout :: "renderer_config \<Rightarrow> nat" where
  "lightpanda_timeout c = or_else (rc_lightpanda_timeout_ms c) (rc_page_timeout_ms c)"

definition chrome_timeout :: "renderer_config \<Rightarrow> nat" where
  "chrome_timeout c = or_else (rc_chrome_timeout_ms c) (rc_page_timeout_ms c)"

definition chrome_proxy_timeout :: "renderer_config \<Rightarrow> nat" where
  "chrome_proxy_timeout c = or_else (rc_chrome_proxy_timeout_ms c) (sat_add_u64 (chrome_timeout c) 15000)"

definition impersonated_in_chain :: "build_features \<Rightarrow> renderer_config \<Rightarrow> bool" where
  "impersonated_in_chain f c = (bf_impersonated f \<and> rc_impersonated_enabled c)"

definition want :: "renderer_config \<Rightarrow> renderer_mode \<Rightarrow> bool" where
  "want c m = (rc_mode c = ModeAuto \<or> rc_mode c = m)"

definition challenge_wait_ms :: "nat option \<Rightarrow> bool \<Rightarrow> nat" where
  "challenge_wait_ms configured byparr = or_else configured (if byparr then 5000 else 20000)"

definition cdp_tier_count :: "build_features \<Rightarrow> renderer_config \<Rightarrow> nat" where
  "cdp_tier_count f c =
    (if \<not> bf_cdp f then 0
     else (if want c ModeLightpanda \<and> rc_lightpanda c then 1 else 0)
       + (if want c ModePlaywright \<and> rc_playwright c then 1 else 0)
       + (if want c ModeChrome \<and> rc_chrome c then 1 else 0)
       + (if want c ModeCamofox \<and> rc_camofox c then 1 else 0))"

text \<open>One CDP tier: its budget joins the sum, and the count goes up.\<close>

definition add_cdp_tier :: "bool \<Rightarrow> nat \<Rightarrow> nat \<times> nat \<Rightarrow> nat \<times> nat" where
  "add_cdp_tier active budget st = (if active then (sat_add_u64 (fst st) budget, snd st + 1) else st)"

definition min_deadline_for_full_ladder_ms :: "build_features \<Rightarrow> renderer_config \<Rightarrow> nat" where
  "min_deadline_for_full_ladder_ms f c =
    (let s1 = (if rc_mode c \<noteq> ModeNone
               then (let h = sat_add_u64 0 (http_timeout c)
                     in case rc_byparr_timeout_ms c of Some b \<Rightarrow> sat_add_u64 h b | None \<Rightarrow> h)
               else 0);
         s2 = (if impersonated_in_chain f c then sat_add_u64 s1 (rc_impersonated_timeout_ms c) else s1)
     in if \<not> bf_cdp f then s2
        else
          (let st1 = add_cdp_tier (want c ModeLightpanda \<and> rc_lightpanda c) (lightpanda_timeout c) (s2, 0);
               st2 = add_cdp_tier (want c ModePlaywright \<and> rc_playwright c) (chrome_timeout c) st1;
               st3 = add_cdp_tier (want c ModeChrome \<and> rc_chrome c) (chrome_timeout c) st2;
               st4 = add_cdp_tier (want c ModeCamofox \<and> rc_camofox c) (chrome_timeout c) st3
           in sat_add_u64 (fst st4) (sat_mul_u64 (snd st4) cdp_tier_overhead_ms)))"

text \<open>The credentials of the residential proxy. \<open>lower\<close> is Unicode lower-casing.\<close>

definition effective_proxy_credentials ::
    "(string \<Rightarrow> string) \<Rightarrow> renderer_config \<Rightarrow> string option \<Rightarrow> (string \<times> string) option" where
  "effective_proxy_credentials lower c country =
    (case (rc_proxy_base_user c, rc_proxy_base_pass c) of
       (Some user, Some pass) \<Rightarrow>
         (let asked = (case country of Some x \<Rightarrow> Some x | None \<Rightarrow> rc_proxy_default_country c)
          in case map_option (\<lambda>s. lower (trim s)) asked of
               None \<Rightarrow> Some (user, pass)
             | Some cc \<Rightarrow>
                 if length cc = 2 \<and> list_all (\<lambda>x. 97 \<le> byte x \<and> byte x \<le> 122 \<or> 65 \<le> byte x \<and> byte x \<le> 90) cc
                 then Some (user @ ''__cr.'' @ cc, pass) else Some (user, pass))
     | _ \<Rightarrow> None)"

subsection \<open>Deadlines\<close>

definition effective_deadline_ms :: "app_budgets \<Rightarrow> nat option \<Rightarrow> nat option \<Rightarrow> nat" where
  "effective_deadline_ms a requested wait_for =
    (case requested of
       Some explicit \<Rightarrow> explicit
     | None \<Rightarrow>
         (let tiers = cdp_tier_count (ab_features a) (ab_renderer a)
          in if \<not> ab_auto_extend a then ab_deadline_ms_default a
             else if tiers = 0 then ab_deadline_ms_default a
             else
               (let extra = (case wait_for of
                               Some w \<Rightarrow> sat_mul_u64 (min w max_wait_for_ms - 8000) tiers
                             | None \<Rightarrow> 0)
                in max (ab_deadline_ms_default a)
                     (sat_add_u64 (min_deadline_for_full_ladder_ms (ab_features a) (ab_renderer a)) extra))))"

definition scrape_envelope_ms :: "app_budgets \<Rightarrow> nat" where
  "scrape_envelope_ms a = effective_deadline_ms a None (Some max_wait_for_ms)"

definition search_envelope_ms :: "app_budgets \<Rightarrow> nat" where
  "search_envelope_ms a =
    sat_add_u64 (ab_search_timeout_ms a)
      (sat_mul_u64 (div_ceil (ab_search_max_limit a) (max (ab_max_concurrency a) 1)) (scrape_envelope_ms a))"

definition effective_request_timeout_secs :: "app_budgets \<Rightarrow> nat" where
  "effective_request_timeout_secs a =
    (if \<not> ab_auto_extend a then ab_request_timeout_secs a
     else max (ab_request_timeout_secs a)
            (sat_add_u64 (div_ceil (max (max (scrape_envelope_ms a) (search_envelope_ms a)) 300000) 1000) 5))"

subsection \<open>Properties\<close>

text \<open>What each tier that can run is allowed.\<close>

definition tier_allowances :: "build_features \<Rightarrow> renderer_config \<Rightarrow> nat list" where
  "tier_allowances f c =
    (if rc_mode c \<noteq> ModeNone then [http_timeout c] @ (case rc_byparr_timeout_ms c of Some b \<Rightarrow> [b] | None \<Rightarrow> []) else [])
    @ (if impersonated_in_chain f c then [rc_impersonated_timeout_ms c] else [])
    @ (if bf_cdp f \<and> want c ModeLightpanda \<and> rc_lightpanda c then [lightpanda_timeout c + cdp_tier_overhead_ms] else [])
    @ (if bf_cdp f \<and> want c ModePlaywright \<and> rc_playwright c then [chrome_timeout c + cdp_tier_overhead_ms] else [])
    @ (if bf_cdp f \<and> want c ModeChrome \<and> rc_chrome c then [chrome_timeout c + cdp_tier_overhead_ms] else [])
    @ (if bf_cdp f \<and> want c ModeCamofox \<and> rc_camofox c then [chrome_timeout c + cdp_tier_overhead_ms] else [])"

lemma sat_add_twice: "sat_add_u64 (min x u64_max) b = min (x + b) u64_max"
  by (simp add: sat_add_u64_def min_def)

lemma add_tier_sum:
  "add_cdp_tier act b (min x u64_max, n) = (min (x + (if act then b else 0)) u64_max, n + (if act then 1 else 0))"
  by (simp add: add_cdp_tier_def sat_add_twice)

lemma sum_if: "sum_list (if P then [x] else []) = (if P then x else (0::nat))"
  by simp

lemma four_tiers:
  "base + (if l then x else 0) + (if p then y else 0) + (if q then y else 0) + (if r then y else 0)
      + ((if l then 1 else 0) + (if p then 1 else 0) + (if q then 1 else 0) + (if r then 1 else 0)) * k
    = base + (if l then x + k else 0) + (if p then y + k else 0) + (if q then y + k else 0) + (if r then y + k else (0::nat))"
  by (cases l; cases p; cases q; cases r) (simp_all add: algebra_simps)

lemma ladder_budget_is_sum:
  "min_deadline_for_full_ladder_ms f c = min (sum_list (tier_allowances f c)) u64_max"
proof -
  define base where "base = (if rc_mode c \<noteq> ModeNone then http_timeout c + or_else (rc_byparr_timeout_ms c) 0 else 0)
    + (if impersonated_in_chain f c then rc_impersonated_timeout_ms c else 0)"
  define s1 where "s1 = (if rc_mode c \<noteq> ModeNone
      then (case rc_byparr_timeout_ms c of
              Some b \<Rightarrow> sat_add_u64 (sat_add_u64 0 (http_timeout c)) b | None \<Rightarrow> sat_add_u64 0 (http_timeout c))
      else 0)"
  have "s1 = min (if rc_mode c \<noteq> ModeNone then http_timeout c + or_else (rc_byparr_timeout_ms c) 0 else 0) u64_max"
    by (simp add: s1_def or_else_def sat_add_u64_def [of 0] sat_add_twice split: option.split)
  then have s2: "(if impersonated_in_chain f c then sat_add_u64 s1 (rc_impersonated_timeout_ms c) else s1) = min base u64_max"
    by (simp add: base_def sat_add_twice)
  have mul: "n \<le> 4 \<Longrightarrow> sat_mul_u64 n cdp_tier_overhead_ms = n * cdp_tier_overhead_ms" for n
    by (simp add: sat_mul_u64_def cdp_tier_overhead_ms_def u64_max_def)
  let ?l = "want c ModeLightpanda \<and> rc_lightpanda c" and ?p = "want c ModePlaywright \<and> rc_playwright c"
  let ?c = "want c ModeChrome \<and> rc_chrome c" and ?f = "want c ModeCamofox \<and> rc_camofox c"
  have sum: "sum_list (tier_allowances f c) = base
      + (if bf_cdp f \<and> ?l then lightpanda_timeout c + cdp_tier_overhead_ms else 0)
      + (if bf_cdp f \<and> ?p then chrome_timeout c + cdp_tier_overhead_ms else 0)
      + (if bf_cdp f \<and> ?c then chrome_timeout c + cdp_tier_overhead_ms else 0)
      + (if bf_cdp f \<and> ?f then chrome_timeout c + cdp_tier_overhead_ms else 0)"
    unfolding tier_allowances_def base_def sum_list_append sum_if by (simp add: or_else_def split: option.split)
  have "min_deadline_for_full_ladder_ms f c = (if \<not> bf_cdp f then min base u64_max
      else min (base + (if ?l then lightpanda_timeout c else 0) + (if ?p then chrome_timeout c else 0)
        + (if ?c then chrome_timeout c else 0) + (if ?f then chrome_timeout c else 0)
        + ((if ?l then 1 else 0) + (if ?p then 1 else 0) + (if ?c then 1 else 0) + (if ?f then 1 else 0)) * cdp_tier_overhead_ms)
        u64_max)"
    unfolding min_deadline_for_full_ladder_ms_def Let_def s1_def [symmetric] s2 add_tier_sum fst_conv snd_conv
    by (simp only: sat_add_twice) (subst mul, simp, simp only: sat_add_twice add_0)
  then show ?thesis
    unfolding sum by (cases "bf_cdp f") (simp_all only: four_tiers simp_thms if_True if_False add_0_right not_True_eq_False not_False_eq_True)
qed

lemma le_div_ceil: "a \<le> 1000 * div_ceil a 1000"
proof -
  have "a + 999 = 1000 * ((a + 999) div 1000) + (a + 999) mod 1000" by simp
  moreover have "(a + 999) mod 1000 \<le> 999" using mod_less_divisor [of 1000 "a + 999"] by linarith
  ultimately show ?thesis by (simp add: div_ceil_def)
qed

lemma deadline_mono: "effective_deadline_ms a None w \<le> scrape_envelope_ms a"
proof -
  have "sat_mul_u64 x n \<le> sat_mul_u64 y n" if "x \<le> y" for x y n
    unfolding sat_mul_u64_def by (intro min.mono mult_le_mono1 that order.refl)
  moreover have "sat_add_u64 m x \<le> sat_add_u64 m y" if "x \<le> y" for m x y
    using that by (auto simp: sat_add_u64_def min_def)
  ultimately have "sat_add_u64 m (sat_mul_u64 (min v max_wait_for_ms - 8000) n)
      \<le> sat_add_u64 m (sat_mul_u64 (max_wait_for_ms - 8000) n)" for m v n
    by (simp add: diff_le_mono)
  moreover have "sat_add_u64 m 0 \<le> sat_add_u64 m x" for m x by (auto simp: sat_add_u64_def min_def)
  ultimately show ?thesis
    by (auto simp: scrape_envelope_ms_def effective_deadline_ms_def Let_def split: option.split intro: max.coboundedI2)
qed

lemma deadline_u64:
  "ab_deadline_ms_default a \<le> u64_max \<Longrightarrow> effective_deadline_ms a None w \<le> u64_max"
  by (auto simp: effective_deadline_ms_def Let_def sat_add_u64_def)


definition demo_budgets :: app_budgets where
  "demo_budgets =
    \<lparr> ab_renderer =
        \<lparr> rc_mode = ModeAuto, rc_page_timeout_ms = 30000, rc_http_timeout_ms = Some 15000,
          rc_lightpanda_timeout_ms = Some 20000, rc_chrome_timeout_ms = Some 45000, rc_chrome_proxy_timeout_ms = None,
          rc_lightpanda = True, rc_playwright = False, rc_chrome = False, rc_camofox = True,
          rc_byparr_timeout_ms = None, rc_impersonated_enabled = True, rc_impersonated_timeout_ms = 15000,
          rc_proxy_base_user = None, rc_proxy_base_pass = None, rc_proxy_default_country = None \<rparr>,
      ab_features = \<lparr> bf_cdp = True, bf_impersonated = False \<rparr>, ab_deadline_ms_default = 8000, ab_auto_extend = True,
      ab_request_timeout_secs = 60, ab_max_concurrency = 10, ab_search_max_limit = 20, ab_search_timeout_ms = 10000 \<rparr>"

lemmas budgets_eval =
  demo_budgets_def effective_deadline_ms_def cdp_tier_count_def want_def min_deadline_for_full_ladder_ms_def
  add_cdp_tier_def impersonated_in_chain_def sat_add_u64_def sat_mul_u64_def u64_max_def cdp_tier_overhead_ms_def
  max_wait_for_ms_def http_timeout_def lightpanda_timeout_def chrome_timeout_def or_else_def Let_def


end
