(* ===== verification/Routes.thy ===== *)
theory Routes
  imports Scrape_Single Discover Jobs Mcp_Proto Budgets
begin

section \<open>Routes\<close>

text \<open>
  The handlers of \<open>crates/crw-server/src/routes/\<close> for a scrape, a map and a crawl, the check of a
  pinned renderer (\<open>state.rs\<close>) and the statuses of errors (\<open>error.rs\<close>). A handler takes the request
  already read from its body and the state of the server: what a scrape keeps, the clock of a
  discovery and the table of jobs. Reading a request from JSON is derived code and an argument; the
  texts of URL errors are arguments too. Compatibility codes of \<open>/v2\<close> are left out.
\<close>

record ('m) route_env =
  re_single :: single_env
  re_server :: server
  re_budgets :: app_budgets
  re_discover :: "'m discover_env"
  re_crawl :: "('m, llm_usage) crawl_env"
  re_url_filter :: "url_filter_cfg option"
  re_default_max_depth :: nat
  re_respect_robots :: bool
  re_parse_error :: "string \<Rightarrow> string"
  re_url_error :: "url_error \<Rightarrow> string"
  re_show_id :: "nat \<Rightarrow> string"

record route_world =
  rw_scrape :: scrape_world
  rw_discover :: discover_world
  rw_jobs :: "llm_usage job_registry"

subsection \<open>Errors\<close>

fun status_of :: "crw_error \<Rightarrow> nat" where
  "status_of (InvalidRequest m) = 400"
| "status_of (NotFound m) = 404"
| "status_of (Timeout ms) = 504"
| "status_of (HttpError m) = 502"
| "status_of (TargetUnreachable m) = 422"
| "status_of (ExtractionError m) = 422"
| "status_of (UnsupportedContentType m) = 422"
| "status_of RateLimited = 429"
| "status_of (SearchDisabled m) = 503"
| "status_of _ = 500"

record 'd api_response =
  ap_success :: bool
  ap_data :: "'d option"
  ap_error :: "string option"
  ap_error_code :: "string option"
  ap_warning :: "string option"

definition api_ok :: "'d \<Rightarrow> 'd api_response" where
  "api_ok d = \<lparr> ap_success = True, ap_data = Some d, ap_error = None, ap_error_code = None, ap_warning = None \<rparr>"

definition err_with_code :: "string \<Rightarrow> string \<Rightarrow> 'd api_response" where
  "err_with_code msg code =
    \<lparr> ap_success = False, ap_data = None, ap_error = Some msg, ap_error_code = Some code, ap_warning = None \<rparr>"

text \<open>The answer on the wire, with the names of the fields as they are. \<open>data_json\<close> writes the data.\<close>

definition answer_json :: "('d \<Rightarrow> json) \<Rightarrow> 'd api_response \<Rightarrow> json" where
  "answer_json data_json a =
    obj ([(''success'', JBool (ap_success a))]
      @ (case ap_data a of Some d \<Rightarrow> [(''data'', data_json d)] | None \<Rightarrow> [])
      @ (case ap_error a of Some e \<Rightarrow> [(''error'', JString e)] | None \<Rightarrow> [])
      @ (case ap_error_code a of Some c \<Rightarrow> [(''error_code'', JString c)] | None \<Rightarrow> [])
      @ (case ap_warning a of Some w \<Rightarrow> [(''warning'', JString w)] | None \<Rightarrow> []))"

definition error_response :: "crw_error \<Rightarrow> nat \<times> 'd api_response" where
  "error_response e = (status_of e, err_with_code (error_text e) (error_code e))"

text \<open>A body that is no request. \<open>JsonDataError\<close> carries the text of the rejection.\<close>

datatype json_rejection = JsonDataError string | JsonSyntaxError | MissingJsonContentType | OtherRejection

definition rejection_error :: "json_rejection \<Rightarrow> crw_error" where
  "rejection_error r =
    (case r of
       JsonDataError raw \<Rightarrow>
         (case find_sub '': '' raw of
            Some pos \<Rightarrow> InvalidRequest (''Invalid request body: '' @ drop (pos + 2) raw)
          | None \<Rightarrow> InvalidRequest (''Invalid request body: '' @ raw))
     | JsonSyntaxError \<Rightarrow> InvalidRequest ''Invalid JSON syntax in request body''
     | MissingJsonContentType \<Rightarrow> InvalidRequest ''Missing Content-Type: application/json header''
     | OtherRejection \<Rightarrow> InvalidRequest ''Invalid request body'')"

definition check_url :: "'m route_env \<Rightarrow> string \<Rightarrow> crw_error option" where
  "check_url env u =
    (case se_parse_url (re_single env) u of
       None \<Rightarrow> Some (InvalidRequest (''Invalid URL: '' @ re_parse_error env u))
     | Some parsed \<Rightarrow>
         (case validate_safe_url_resolved (se_dns (re_single env)) (se_allow_loopback (re_single env)) parsed of
            Inl e \<Rightarrow> Some (InvalidRequest (re_url_error env e))
          | Inr _ \<Rightarrow> None))"

definition validate_renderer_pin ::
    "renderer \<Rightarrow> server \<Rightarrow> requested_renderer option \<Rightarrow> bool option \<Rightarrow> crw_error option" where
  "validate_renderer_pin rd sv pin render_js =
    (case resolve_pinned_renderer pin of
       None \<Rightarrow> None
     | Some name \<Rightarrow>
         if pin = Some ImpersonatedHttpRenderer \<and> render_js = Some True
         then Some (InvalidRequest
           ''renderer 'impersonated-http' never executes JS; remove renderJs:true (or omit it)'')
         else
           (let implies = (case pin of Some r \<Rightarrow> implies_js r | None \<Rightarrow> False);
                effective = resolve_render_js (if render_js = None \<and> implies then Some True else render_js)
                              (sv_render_js_default sv)
            in if effective = Some False \<and> implies then None
               else if name \<notin> set (available_renderer_names rd)
               then Some (InvalidRequest
                 (''renderer '' @ [CHR 0x27] @ name @ [CHR 0x27] @ '' not available; configured renderers: [''
                  @ join_with '', '' (available_renderer_names rd)
                  @ '']. Update server config or omit the 'renderer' field.''))
               else None))"

subsection \<open>Scrape\<close>

definition check_llm_formats :: "server \<Rightarrow> scrape_request \<Rightarrow> crw_error option" where
  "check_llm_formats sv req =
    (if FmtSummary \<in> set (sr_formats req) \<and> sv_llm sv = None \<and> sr_llm_api_key req = None
     then Some (InvalidRequest
       ''summary format requires LLM config: set CRW_EXTRACTION__LLM__API_KEY in server config or pass llm_api_key in the request body'')
     else if (case sv_llm sv of Some cfg \<Rightarrow> ls_require_byok_header cfg \<noteq> None | None \<Rightarrow> False)
       \<and> (FmtSummary \<in> set (sr_formats req) \<or> FmtJson \<in> set (sr_formats req)) \<and> sr_llm_api_key req = None
     then Some (InvalidRequest ''LLM features require a per-request llm_api_key (BYOK header guard active)'')
     else None)"

text \<open>The envelope of a page that was scraped.\<close>

definition scrape_answer :: "output_format list \<Rightarrow> 'u scrape_data \<Rightarrow> 'u scrape_data api_response" where
  "scrape_answer formats d =
    (case http_error d of
       Some msg \<Rightarrow>
         \<lparr> ap_success = False, ap_data = Some d, ap_error = Some msg, ap_error_code = Some ''http_error'', ap_warning = None \<rparr>
     | None \<Rightarrow>
         (case sd_block d of
            Some b \<Rightarrow>
              \<lparr> ap_success = False, ap_data = Some (clear_body d), ap_error = Some (block_message b),
                ap_error_code = Some (if block_vendor b = structural_failure_vendor \<or> block_vendor b = parked_domain_vendor
                                      then ''no_usable_content'' else ''anti_bot''),
                ap_warning = None \<rparr>
          | None \<Rightarrow>
              if has_no_content d formats then
                \<lparr> ap_success = False, ap_data = Some d,
                  ap_error = Some (case sd_warning d of
                                     Some w \<Rightarrow> w
                                   | None \<Rightarrow> (case sd_warnings d of
                                                w # ws \<Rightarrow> w
                                              | [] \<Rightarrow> ''No content could be extracted from the page'')),
                  ap_error_code = Some ''no_usable_content'', ap_warning = None \<rparr>
              else (api_ok d)\<lparr> ap_warning := sd_warning d \<rparr>))"

text \<open>The deadline of a request, from the clock.\<close>

definition request_deadline ::
    "'m route_env \<Rightarrow> nat option \<Rightarrow> nat option \<Rightarrow> scrape_world \<Rightarrow> deadline \<times> scrape_world" where
  "request_deadline env requested wait_for w =
    (case read_time (re_single env) w of
       (t, w1) \<Rightarrow> (from_request_ms t (effective_deadline_ms (re_budgets env) requested wait_for), w1))"

definition scrape_within ::
    "'m route_env \<Rightarrow> scrape_request \<Rightarrow> nat option \<Rightarrow> scrape_world \<Rightarrow> ((crw_error + scraped) \<times> scrape_world) option" where
  "scrape_within env req requested w =
    (case request_deadline env requested (sr_wait_for req) w of
       (d, w1) \<Rightarrow> scrape_url (re_single env) (re_server env) req d w1)"

text \<open>The request comes with its \<open>deadlineMs\<close>.\<close>

definition scrape_route ::
    "'m route_env \<Rightarrow> json_rejection + (scrape_request \<times> nat option) \<Rightarrow> scrape_world
      \<Rightarrow> ((crw_error + llm_usage scrape_data api_response) \<times> scrape_world) option" where
  "scrape_route env body w =
    (case body of
       Inl r \<Rightarrow> Some (Inl (rejection_error r), w)
     | Inr (req, requested) \<Rightarrow>
         (case check_url env (sr_url req) of
            Some e \<Rightarrow> Some (Inl e, w)
          | None \<Rightarrow>
              (case validate_renderer_pin (se_renderer (re_single env)) (re_server env) (sr_renderer req) (sr_render_js req) of
                 Some e \<Rightarrow> Some (Inl e, w)
               | None \<Rightarrow>
                   (case check_llm_formats (re_server env) req of
                      Some e \<Rightarrow> Some (Inl e, w)
                    | None \<Rightarrow>
                        (case scrape_within env req requested w of
                           None \<Rightarrow> None
                         | Some (Inl e, w1) \<Rightarrow> Some (Inl e, w1)
                         | Some (Inr x, w1) \<Rightarrow> Some (Inr (scrape_answer (sr_formats req) (sx_data x)), w1))))))"

subsection \<open>Map\<close>

record map_request =
  mr_url :: string
  mr_max_depth :: "nat option"
  mr_use_sitemap :: bool
  mr_crawl_fallback :: bool
  mr_limit :: "nat option"
  mr_timeout :: "nat option"
  mr_overrides :: request_overrides

definition extra_params_cap :: nat where
  "extra_params_cap = 64"

definition default_max_discovered_urls :: nat where
  "default_max_discovered_urls = 5000"

definition check_cap :: "string \<Rightarrow> string list option \<Rightarrow> crw_error option" where
  "check_cap name ks =
    (case ks of
       Some v \<Rightarrow>
         if extra_params_cap < length v
         then Some (InvalidRequest (name @ '' exceeds '' @ dec_digits extra_params_cap @ ''-key cap'')) else None
     | None \<Rightarrow> None)"

definition touches_filter :: "request_overrides \<Rightarrow> bool" where
  "touches_filter ov =
    (ro_strip_tracking ov \<noteq> None \<or> ro_drop_actions ov \<noteq> None \<or> ro_coarse_strip_all ov \<noteq> None
     \<or> ro_extra_tracking ov \<noteq> None \<or> ro_extra_action ov \<noteq> None \<or> ro_preserve ov \<noteq> None)"

definition resolve_filter_cfg :: "url_filter_cfg option \<Rightarrow> request_overrides \<Rightarrow> url_filter_cfg option" where
  "resolve_filter_cfg base ov =
    (if \<not> touches_filter ov then base
     else Some (with_overrides (case base of Some cfg \<Rightarrow> cfg | None \<Rightarrow> defaults_on) ov))"

definition discover_options_of ::
    "'m route_env \<Rightarrow> map_request \<Rightarrow> url_filter_cfg option \<Rightarrow> nat \<Rightarrow> instant \<Rightarrow> discover_options" where
  "discover_options_of env req cfg timeout_secs now =
    \<lparr> do_base_url = mr_url req,
      do_max_depth = (case mr_max_depth req of Some d \<Rightarrow> d | None \<Rightarrow> re_default_max_depth env),
      do_use_sitemap = mr_use_sitemap req, do_crawl_fallback = mr_crawl_fallback req,
      do_deadline_ms_per_page = effective_deadline_ms (re_budgets env) None None,
      do_url_filter = cfg,
      do_max_urls = (case mr_limit req of Some n \<Rightarrow> n | None \<Rightarrow> default_max_discovered_urls),
      do_overall_deadline = discovery_deadline (from_secs timeout_secs) now,
      do_respect_robots = re_respect_robots env \<rparr>"

definition map_timeout_secs :: "map_request \<Rightarrow> nat" where
  "map_timeout_secs req = min (case mr_timeout req of Some n \<Rightarrow> n | None \<Rightarrow> 120) 300"

text \<open>\<open>late\<close> says that the timeout of the handler ran out before the discovery ended.\<close>

definition map_route ::
    "'m route_env \<Rightarrow> bool \<Rightarrow> json_rejection + map_request \<Rightarrow> discover_world
      \<Rightarrow> (crw_error + discover_result) \<times> discover_world" where
  "map_route env late body w =
    (case body of
       Inl r \<Rightarrow> (Inl (rejection_error r), w)
     | Inr req \<Rightarrow>
         (case check_url env (mr_url req) of
            Some e \<Rightarrow> (Inl e, w)
          | None \<Rightarrow>
              (case (check_cap ''extra_tracking_params'' (ro_extra_tracking (mr_overrides req)),
                     check_cap ''extra_action_params'' (ro_extra_action (mr_overrides req)),
                     check_cap ''preserve_params'' (ro_preserve (mr_overrides req))) of
                 (Some e, _, _) \<Rightarrow> (Inl e, w)
               | (None, Some e, _) \<Rightarrow> (Inl e, w)
               | (None, None, Some e) \<Rightarrow> (Inl e, w)
               | (None, None, None) \<Rightarrow>
                   (case now_of (re_discover env) w of
                      (now, w1) \<Rightarrow>
                        (case discover_urls (re_discover env)
                                (discover_options_of env req (resolve_filter_cfg (re_url_filter env) (mr_overrides req))
                                  (map_timeout_secs req) now) w1 of
                           (r, w2) \<Rightarrow> (if late then Inl (Timeout (map_timeout_secs req * 1000)) else r, w2))))))"

subsection \<open>Crawl\<close>

text \<open>The nested options that fill in what the top level leaves out.\<close>

fun lift_member :: "string \<times> json \<Rightarrow> members \<Rightarrow> members" where
  "lift_member (k, v) m = (if map_of m k = None then btree_insert k v m else m)"

definition lift_scrape_options :: "json \<Rightarrow> json" where
  "lift_scrape_options body =
    (case body of
       JObject m \<Rightarrow>
         (let without = (\<lambda>k m. filter (\<lambda>kv. fst kv \<noteq> k) m);
              (nested, m1) =
                (case map_of m ''scrapeOptions'' of
                   Some v \<Rightarrow> (Some v, without ''scrapeOptions'' m)
                 | None \<Rightarrow> (map_of m ''scrape_options'', without ''scrape_options'' m))
          in case nested of
               Some (JObject inner) \<Rightarrow> JObject (fold lift_member inner m1)
             | _ \<Rightarrow> JObject m1)
     | _ \<Rightarrow> body)"

text \<open>
  \<open>POST /v1/crawl\<close>. \<open>read\<close> reads the request, with the renderer it pins and its \<open>renderJs\<close>, and
  \<open>fresh\<close> is the new id.
\<close>

definition start_crawl ::
    "'m route_env \<Rightarrow> (json \<Rightarrow> string + (crawl_request \<times> requested_renderer option \<times> bool option)) \<Rightarrow> nat
      \<Rightarrow> instant \<Rightarrow> json_rejection + json \<Rightarrow> llm_usage job_registry \<Rightarrow> (crw_error + nat) \<times> llm_usage job_registry" where
  "start_crawl env read fresh now body jobs =
    (case body of
       Inl r \<Rightarrow> (Inl (rejection_error r), jobs)
     | Inr raw \<Rightarrow>
         (case read (lift_scrape_options raw) of
            Inl e \<Rightarrow> (Inl (InvalidRequest (''Invalid crawl request: '' @ e)), jobs)
          | Inr (req, pin, js) \<Rightarrow>
              (case check_url env (cr_url req) of
                 Some e \<Rightarrow> (Inl e, jobs)
               | None \<Rightarrow>
                   (case validate_renderer_pin (se_renderer (re_single env)) (re_server env) pin js of
                      Some e \<Rightarrow> (Inl e, jobs)
                    | None \<Rightarrow>
                        (Inr fresh, store_handle fresh (start_crawl_job (re_crawl env) fresh now req jobs))))))"

end
