(* ===== verification/Mcp_Server.thy ===== *)
theory Mcp_Server
  imports Routes
begin

section \<open>Tool servers\<close>

text \<open>
  The two servers that speak the protocol of \<open>Mcp_Proto\<close>: the one inside the HTTP server
  (\<open>crates/crw-server/src/routes/mcp.rs\<close>), which calls the components itself, and the proxy
  (\<open>crates/crw-mcp/src/main.rs\<close>), which forwards calls to a remote server. Reading arguments and
  writing results are derived code and arguments (\<open>tool_lib\<close>), as are the parser and the printer of
  JSON, the base64 decoder, the HTTP client of the proxy, and the search. Log lines are left out.
\<close>

subsection \<open>The embedded tools\<close>

record tool_lib =
  tl_scrape_request :: "json \<Rightarrow> string + scrape_request \<times> nat option"
  tl_crawl_request :: "json \<Rightarrow> string + (crawl_request \<times> requested_renderer option \<times> bool option)"
  tl_map_request :: "json \<Rightarrow> string + map_request"
  tl_search :: "json \<Rightarrow> string + json"
  tl_scraped_json :: "scraped \<Rightarrow> json"
  tl_document_json :: "llm_usage scrape_data \<Rightarrow> json"
  tl_state_json :: "llm_usage crawl_state \<Rightarrow> json"
  tl_parse_id :: "string \<Rightarrow> nat option"
  tl_base64 :: "string \<Rightarrow> string + string"
  tl_fresh_id :: nat
  tl_now :: instant

definition mcp_map_timeout_secs :: nat where
  "mcp_map_timeout_secs = 120"

definition wall_error :: "'u scrape_data \<Rightarrow> string option" where
  "wall_error d =
    (case sd_block d of Some b \<Rightarrow> if is_wall b then Some (block_message b) else None | None \<Rightarrow> None)"

definition scrape_request_default :: scrape_request where
  "scrape_request_default =
    \<lparr> sr_url = [], sr_formats = [FmtMarkdown], sr_only_main_content = None, sr_render_js = None, sr_wait_for = None,
      sr_include_tags = [], sr_exclude_tags = [], sr_json_schema = None, sr_headers = [], sr_css_selector = None,
      sr_xpath = None, sr_chunk_strategy = None, sr_query = None, sr_filter_mode = None, sr_top_k = None,
      sr_proxy = None, sr_stealth = None, sr_actions = None, sr_extract_schema = None, sr_llm_api_key = None,
      sr_llm_provider = None, sr_llm_model = None, sr_base_url = None, sr_summary_prompt = None,
      sr_max_content_chars = None, sr_renderer = None, sr_change_tracking = None, sr_goal = None,
      sr_judge_enabled = None, sr_parsers = None, sr_max_age = None, sr_store_in_cache = None \<rparr>"

text \<open>\<open>validate_url\<close>: the check of the routes, with a text for the error.\<close>

definition validate_url :: "'m route_env \<Rightarrow> string \<Rightarrow> string option" where
  "validate_url env u =
    (case se_parse_url (re_single env) u of
       None \<Rightarrow> Some (''Invalid URL: '' @ re_parse_error env u)
     | Some parsed \<Rightarrow>
         (case validate_safe_url_resolved (se_dns (re_single env)) (se_allow_loopback (re_single env)) parsed of
            Inl e \<Rightarrow> Some (re_url_error env e)
          | Inr _ \<Rightarrow> None))"

definition invalid_arguments :: "string \<Rightarrow> string" where
  "invalid_arguments e = ''invalid arguments: '' @ e"

text \<open>A tool call never reads or fills the page cache.\<close>

definition uncached :: "scrape_request \<Rightarrow> scrape_request" where
  "uncached req = req\<lparr> sr_max_age := Some 0, sr_store_in_cache := Some False \<rparr>"

definition call_scrape ::
    "'m route_env \<Rightarrow> tool_lib \<Rightarrow> json \<Rightarrow> scrape_world \<Rightarrow> ((string + json) \<times> scrape_world) option" where
  "call_scrape env lib args w =
    (case tl_scrape_request lib args of
       Inl e \<Rightarrow> Some (Inl (invalid_arguments e), w)
     | Inr (req0, requested) \<Rightarrow>
         (let req = uncached req0
          in case validate_url env (sr_url req) of
               Some e \<Rightarrow> Some (Inl e, w)
             | None \<Rightarrow>
                 (case scrape_within env req requested w of
                    None \<Rightarrow> None
                  | Some (Inl e, w1) \<Rightarrow> Some (Inl (error_text e), w1)
                  | Some (Inr x, w1) \<Rightarrow>
                      (case wall_error (sx_data x) of
                         Some reason \<Rightarrow> Some (Inl reason, w1)
                       | None \<Rightarrow> Some (Inr (tl_scraped_json lib x), w1)))))"

definition call_crawl ::
    "'m route_env \<Rightarrow> tool_lib \<Rightarrow> json \<Rightarrow> llm_usage job_registry \<Rightarrow> (string + json) \<times> llm_usage job_registry" where
  "call_crawl env lib args jobs =
    (case tl_crawl_request lib args of
       Inl e \<Rightarrow> (Inl (invalid_arguments e), jobs)
     | Inr (req, pin, js) \<Rightarrow>
         (case validate_url env (cr_url req) of
            Some e \<Rightarrow> (Inl e, jobs)
          | None \<Rightarrow>
              (case validate_renderer_pin (se_renderer (re_single env)) (re_server env) pin js of
                 Some e \<Rightarrow> (Inl (error_text e), jobs)
               | None \<Rightarrow>
                   (Inr (obj [(''success'', JBool True), (''id'', JString (re_show_id env (tl_fresh_id lib)))]),
                    store_handle (tl_fresh_id lib)
                      (start_crawl_job (re_crawl env) (tl_fresh_id lib) (tl_now lib) req jobs)))))"

definition missing_parameter :: "string \<Rightarrow> string" where
  "missing_parameter k = ''missing required parameter: '' @ k"

definition str_arg :: "string \<Rightarrow> json \<Rightarrow> string option" where
  "str_arg k args = (case jget k args of Some v \<Rightarrow> as_str v | None \<Rightarrow> None)"

definition call_status :: "'m route_env \<Rightarrow> tool_lib \<Rightarrow> json \<Rightarrow> llm_usage job_registry \<Rightarrow> string + json" where
  "call_status env lib args jobs =
    (case str_arg ''id'' args of
       None \<Rightarrow> Inl (missing_parameter ''id'')
     | Some s \<Rightarrow>
         (case tl_parse_id lib s of
            None \<Rightarrow> Inl (''invalid crawl id: '' @ s)
          | Some i \<Rightarrow>
              (case rg_jobs jobs i of
                 None \<Rightarrow> Inl (''crawl job '' @ re_show_id env i @ '' not found'')
               | Some j \<Rightarrow> Inr (tl_state_json lib (jb_state j)))))"

definition call_map ::
    "'m route_env \<Rightarrow> tool_lib \<Rightarrow> json \<Rightarrow> discover_world \<Rightarrow> (string + json) \<times> discover_world" where
  "call_map env lib args w =
    (case tl_map_request lib args of
       Inl e \<Rightarrow> (Inl (invalid_arguments e), w)
     | Inr req \<Rightarrow>
         (case validate_url env (mr_url req) of
            Some e \<Rightarrow> (Inl e, w)
          | None \<Rightarrow>
              (case now_of (re_discover env) w of
                 (now, w1) \<Rightarrow>
                   (case discover_urls (re_discover env)
                           (discover_options_of env req (re_url_filter env) mcp_map_timeout_secs now) w1 of
                      (Inl e, w2) \<Rightarrow> (Inl (error_text e), w2)
                    | (Inr r, w2) \<Rightarrow>
                        (Inr (obj [(''success'', JBool True), (''links'', strs (dr_urls r)),
                           (''droppedActionCount'', JInt (int (dr_dropped_action_count r))),
                           (''strippedTrackingCount'', JInt (int (dr_stripped_tracking_count r))),
                           (''sitemaps'', strs (dr_sitemaps r))]), w2)))))"

definition call_parse_file ::
    "'m route_env \<Rightarrow> tool_lib \<Rightarrow> json \<Rightarrow> scrape_world \<Rightarrow> (string + json) \<times> scrape_world" where
  "call_parse_file env lib args w =
    (case str_arg ''contentBase64'' args of
       None \<Rightarrow> (Inl (missing_parameter ''contentBase64''), w)
     | Some b64 \<Rightarrow>
         (case tl_base64 lib (trim b64) of
            Inl e \<Rightarrow> (Inl (''invalid base64 in contentBase64: '' @ e), w)
          | Inr bytes \<Rightarrow>
              (let req = (case tl_scrape_request lib args of Inr (r, d) \<Rightarrow> r | Inl e \<Rightarrow> scrape_request_default);
                   filename = str_arg ''filename'' args;
                   source = \<lparr> psrc_url = ''upload://'' @ (case filename of Some n \<Rightarrow> n | None \<Rightarrow> ''document.pdf''),
                     psrc_status = 200, psrc_elapsed_ms = 0, psrc_filename = filename \<rparr>;
                   single = re_single env
               in case convert_pdf_bytes_strict (se_chunks single) (se_pdf single) (se_pdf_limits single) bytes req source of
                    Inl (e, _) \<Rightarrow> (Inl (error_text e), w)
                  | Inr d \<Rightarrow>
                      (case apply_llm_formats single req (sv_llm (re_server env)) d w of
                         (Inl e, w1) \<Rightarrow> (Inl (error_text e), w1)
                       | (Inr d1, w1) \<Rightarrow> (Inr (tl_document_json lib d1), w1)))))"

definition call_tool ::
    "'m route_env \<Rightarrow> tool_lib \<Rightarrow> string \<Rightarrow> json \<Rightarrow> route_world \<Rightarrow> ((string + json) \<times> route_world) option" where
  "call_tool env lib tool args w =
    (if tool = ''crw_scrape'' then
       map_option (\<lambda>(r, s). (r, w\<lparr> rw_scrape := s \<rparr>)) (call_scrape env lib args (rw_scrape w))
     else if tool = ''crw_crawl'' then
       (case call_crawl env lib args (rw_jobs w) of (r, jobs) \<Rightarrow> Some (r, w\<lparr> rw_jobs := jobs \<rparr>))
     else if tool = ''crw_check_crawl_status'' then Some (call_status env lib args (rw_jobs w), w)
     else if tool = ''crw_map'' then
       (case call_map env lib args (rw_discover w) of (r, s) \<Rightarrow> Some (r, w\<lparr> rw_discover := s \<rparr>))
     else if tool = ''crw_search'' then Some (tl_search lib args, w)
     else if tool = ''crw_parse_file'' then
       (case call_parse_file env lib args (rw_scrape w) of (r, s) \<Rightarrow> Some (r, w\<lparr> rw_scrape := s \<rparr>))
     else Some (Inl (''unknown tool: '' @ tool), w))"

subsection \<open>The proxy\<close>

datatype proxy_body =
    NoBody
  | JsonBody json
  | FileBody string string string

record proxy_request =
  px_url :: string
  px_bearer :: "string option"
  px_timeout_secs :: nat
  px_body :: proxy_body

text \<open>What comes back: the status with the body, either of which may fail. \<open>px_send\<close> is the client,
  \<open>px_key\<close> says why a key makes no header value, \<open>px_status\<close> prints a status.\<close>

record proxy_lib =
  pl_send :: "proxy_request \<Rightarrow> string + nat \<times> (string + string)"
  pl_key_error :: "string \<Rightarrow> string option"
  pl_status_text :: "nat \<Rightarrow> string"
  pl_parse_json :: "string \<Rightarrow> string + json"
  pl_print :: "json \<Rightarrow> string"
  pl_base64 :: "string \<Rightarrow> string + string"

definition timeout_scrape :: nat where "timeout_scrape = 120"
definition timeout_crawl_kickoff :: nat where "timeout_crawl_kickoff = 120"
definition timeout_crawl_status :: nat where "timeout_crawl_status = 30"
definition timeout_map :: nat where "timeout_map = 180"
definition timeout_search :: nat where "timeout_search = 120"

text \<open>\<open>truncate\<close>: at most so many bytes, down to a code point.\<close>

fun floor_char_boundary :: "string \<Rightarrow> nat \<Rightarrow> nat" where
  "floor_char_boundary s 0 = 0"
| "floor_char_boundary s (Suc n) =
    (if length s \<le> Suc n then length s
     else if is_char_start (s ! Suc n) then Suc n else floor_char_boundary s n)"

definition truncate_bytes :: "string \<Rightarrow> nat \<Rightarrow> string" where
  "truncate_bytes s m = (if length s \<le> m then s else take (floor_char_boundary s m) s)"

definition parse_response :: "proxy_lib \<Rightarrow> string + nat \<times> (string + string) \<Rightarrow> string + json" where
  "parse_response lib reply =
    (case reply of
       Inl e \<Rightarrow> Inl (''HTTP request failed: '' @ e)
     | Inr (status, Inl e) \<Rightarrow> Inl (''failed to read response: '' @ e)
     | Inr (status, Inr body) \<Rightarrow>
         if \<not> is_2xx_status status
         then Inl (''API error ('' @ pl_status_text lib status @ ''): '' @ truncate_bytes body 500)
         else (case pl_parse_json lib body of
                 Inl e \<Rightarrow> Inl (''invalid JSON response: '' @ e)
               | Inr v \<Rightarrow> Inr v))"

definition failed_envelope :: "json \<Rightarrow> string option" where
  "failed_envelope parsed =
    (let failed = ((case jget ''success'' parsed of Some v \<Rightarrow> as_bool v | None \<Rightarrow> None) = Some False);
         code = str_arg ''errorCode'' parsed
     in if \<not> failed \<or> (case code of Some c \<Rightarrow> c \<noteq> ''anti_bot'' | None \<Rightarrow> False) then None
        else
          (let reason = (case str_arg ''error'' parsed of Some r \<Rightarrow> r | None \<Rightarrow> ''the request did not succeed'')
           in Some (case code of Some c \<Rightarrow> reason @ '' ['' @ c @ '']'' | None \<Rightarrow> reason)))"

definition post_json ::
    "proxy_lib \<Rightarrow> string \<Rightarrow> string option \<Rightarrow> string \<Rightarrow> nat \<Rightarrow> json \<Rightarrow> string + json" where
  "post_json lib base key path secs args =
    parse_response lib (pl_send lib
      \<lparr> px_url = base @ path, px_bearer = key, px_timeout_secs = secs, px_body = JsonBody args \<rparr>)"

definition proxy_call_tool ::
    "proxy_lib \<Rightarrow> string \<Rightarrow> string option \<Rightarrow> string \<Rightarrow> json \<Rightarrow> string + json" where
  "proxy_call_tool lib base key tool args0 =
    (let args = strip_mcp_only_args tool args0
     in case (case key of Some k \<Rightarrow> pl_key_error lib k | None \<Rightarrow> None) of
          Some e \<Rightarrow> Inl (''invalid api key: '' @ e)
        | None \<Rightarrow>
            if tool = ''crw_scrape'' then
              (case post_json lib base key ''/v1/scrape'' timeout_scrape args of
                 Inl e \<Rightarrow> Inl e
               | Inr v \<Rightarrow> (case failed_envelope v of Some reason \<Rightarrow> Inl reason | None \<Rightarrow> Inr v))
            else if tool = ''crw_crawl'' then post_json lib base key ''/v1/crawl'' timeout_crawl_kickoff args
            else if tool = ''crw_check_crawl_status'' then
              (case str_arg ''id'' args of
                 None \<Rightarrow> Inl (missing_parameter ''id'')
               | Some i \<Rightarrow>
                   parse_response lib (pl_send lib
                     \<lparr> px_url = base @ ''/v1/crawl/'' @ i, px_bearer = key, px_timeout_secs = timeout_crawl_status,
                       px_body = NoBody \<rparr>))
            else if tool = ''crw_map'' then post_json lib base key ''/v1/map'' timeout_map args
            else if tool = ''crw_search'' then post_json lib base key ''/v1/search'' timeout_search args
            else if tool = ''crw_parse_file'' then
              (case str_arg ''contentBase64'' args of
                 None \<Rightarrow> Inl (missing_parameter ''contentBase64'')
               | Some b64 \<Rightarrow>
                   (case pl_base64 lib (trim b64) of
                      Inl e \<Rightarrow> Inl (''invalid base64 in contentBase64: '' @ e)
                    | Inr bytes \<Rightarrow>
                        (let filename = (case str_arg ''filename'' args of Some n \<Rightarrow> n | None \<Rightarrow> ''document.pdf'');
                             options = jremove ''filename'' (jremove ''contentBase64'' args)
                         in parse_response lib (pl_send lib
                              \<lparr> px_url = base @ ''/v2/parse'', px_bearer = key, px_timeout_secs = timeout_scrape,
                                px_body = FileBody bytes filename (pl_print lib options) \<rparr>))))
            else Inl (''unknown tool: '' @ tool))"

subsection \<open>Requests\<close>

text \<open>\<open>handle_request\<close> of either server: \<open>call\<close> is its way to call a tool, over its state.\<close>

record 's rpc_server =
  rs_name :: string
  rs_version :: string
  rs_proxy :: bool
  rs_search :: bool
  rs_call :: "string \<Rightarrow> json \<Rightarrow> 's \<Rightarrow> ((string + json) \<times> 's) option"
  rs_print :: "json \<Rightarrow> string"

definition tool_name_of :: "json_rpc_request \<Rightarrow> string" where
  "tool_name_of req = (case str_arg ''name'' (jr_params req) of Some n \<Rightarrow> n | None \<Rightarrow> [])"

definition arguments_of :: "json_rpc_request \<Rightarrow> json" where
  "arguments_of req = (case jget ''arguments'' (jr_params req) of Some a \<Rightarrow> a | None \<Rightarrow> obj [])"

definition handle_request ::
    "'s rpc_server \<Rightarrow> json_rpc_request \<Rightarrow> 's \<Rightarrow> (json_rpc_response option \<times> 's) option" where
  "handle_request srv req s =
    (case handle_protocol_method (rs_name srv) (rs_version srv) req (rs_proxy srv) (rs_search srv) of
       Respond resp \<Rightarrow> Some (Some resp, s)
     | Notification \<Rightarrow> Some (None, s)
     | NotHandled \<Rightarrow>
         if jr_method req = ''tools/call'' then
           (let tool = tool_name_of req
            in if \<not> is_known_tool tool
               then Some (Some (rpc_error (id_or_null req) (-32602) (''unknown tool: '' @ tool)), s)
               else
                 (case rs_call srv tool (arguments_of req) s of
                    None \<Rightarrow> None
                  | Some (r, s1) \<Rightarrow>
                      Some (Some (tool_result_response (rs_print srv) (id_or_null req) tool
                                    (map_sum id (apply_bounds tool (arguments_of req)) r)), s1)))
         else
           (case jr_id req of
              Some i \<Rightarrow> Some (Some (rpc_error i (-32601) (''method not found: '' @ jr_method req)), s)
            | None \<Rightarrow> Some (None, s)))"

definition embedded_server ::
    "string \<Rightarrow> string \<Rightarrow> 'm route_env \<Rightarrow> tool_lib \<Rightarrow> bool \<Rightarrow> (json \<Rightarrow> string) \<Rightarrow> route_world rpc_server" where
  "embedded_server name version env lib search print =
    \<lparr> rs_name = name, rs_version = version, rs_proxy = False, rs_search = search, rs_call = call_tool env lib,
      rs_print = print \<rparr>"

definition proxy_server :: "string \<Rightarrow> proxy_lib \<Rightarrow> string \<Rightarrow> string option \<Rightarrow> unit rpc_server" where
  "proxy_server version lib base key =
    \<lparr> rs_name = ''crw-mcp'', rs_version = version, rs_proxy = True, rs_search = True,
      rs_call = (\<lambda>tool args s. Some (proxy_call_tool lib base key tool args, s)), rs_print = pl_print lib \<rparr>"

text \<open>\<open>POST /mcp\<close>: status and response, if one is written.\<close>

definition mcp_handler ::
    "'s rpc_server \<Rightarrow> (string \<Rightarrow> string + json_rpc_request) \<Rightarrow> string option \<Rightarrow> string \<Rightarrow> 's
      \<Rightarrow> ((nat \<times> json_rpc_response option) \<times> 's) option" where
  "mcp_handler srv parse content_type body s =
    (if \<not> contains_str (case content_type of Some c \<Rightarrow> c | None \<Rightarrow> []) ''application/json''
     then Some ((400, Some (rpc_error JNull (-32700) ''Content-Type must be application/json'')), s)
     else
       (case parse body of
          Inl e \<Rightarrow> Some ((200, Some (rpc_error JNull (-32700) (''parse error: '' @ e))), s)
        | Inr req \<Rightarrow>
            (case handle_request srv req s of
               None \<Rightarrow> None
             | Some (Some resp, s1) \<Rightarrow> Some ((200, Some resp), s1)
             | Some (None, s1) \<Rightarrow> Some ((202, None), s1))))"

text \<open>The loop over the lines of the standard input, with the responses it writes.\<close>

fun stdio_loop ::
    "'s rpc_server \<Rightarrow> (string \<Rightarrow> string + json_rpc_request) \<Rightarrow> string list \<Rightarrow> 's
      \<Rightarrow> (json_rpc_response list \<times> 's) option" where
  "stdio_loop srv parse [] s = Some ([], s)"
| "stdio_loop srv parse (line # ls) s =
    (if trim line = [] then stdio_loop srv parse ls s
     else
       (case parse (trim line) of
          Inl e \<Rightarrow>
            map_option (\<lambda>(out, s1). (rpc_error JNull (-32700) (''parse error: '' @ e) # out, s1)) (stdio_loop srv parse ls s)
        | Inr req \<Rightarrow>
            (case handle_request srv req s of
               None \<Rightarrow> None
             | Some (resp, s1) \<Rightarrow>
                 map_option (\<lambda>(out, s2). ((case resp of Some r \<Rightarrow> [r] | None \<Rightarrow> []) @ out, s2)) (stdio_loop srv parse ls s1))))"

text \<open>Where the remote server and its key come from.\<close>

definition resolve_client_credentials ::
    "(string option \<times> string option) option \<Rightarrow> string option \<Rightarrow> string option \<Rightarrow> string option \<times> string option" where
  "resolve_client_credentials config cli_url cli_key =
    (if cli_url \<noteq> None then (cli_url, cli_key)
     else
       (case config of
          Some (file_url, file_key) \<Rightarrow> (file_url, case cli_key of Some k \<Rightarrow> Some k | None \<Rightarrow> file_key)
        | None \<Rightarrow> (None, cli_key)))"

end
