(* ===== verification/Mcp_Props.thy ===== *)
theory Mcp_Props
  imports Mcp_Proto Char_Count "HOL-Library.Code_Target_Nat"
begin

section \<open>Properties of the tool protocol\<close>

subsection \<open>Members\<close>

lemma jget_jset: "is_object v \<Longrightarrow> jget k (jset k' x v) = (if k = k' then Some x else jget k v)"
  by (cases v) (simp_all add: btree.get_ins)

lemma is_object_jset [simp]: "is_object (jset k x v) = is_object v"
  by (cases v) simp_all

lemma jget_is_object: "jget k v = Some x \<Longrightarrow> is_object v"
  by (cases v) simp_all

lemma btree_insert_again: "btree_insert k x (btree_insert k y m) = btree_insert k x m"
  by (induction k y m rule: btree_insert.induct) auto

lemma jset_again [simp]: "jset k x (jset k y v) = jset k x v"
  by (cases v) (simp_all add: btree_insert_again)

lemma is_object_jmap [simp]: "is_object (jmap k f v) = is_object v"
  by (simp add: jmap_def split: option.split)

lemma jget_jmap: "jget k (jmap k' f v) = (if k = k' then map_option f (jget k v) else jget k v)"
  by (auto simp: jmap_def jget_jset jget_is_object split: option.split)

text \<open>Objects whose members are in order are equal when their members are.\<close>

fun in_order :: "json \<Rightarrow> bool" where
  "in_order (JObject m) = ordered m"
| "in_order _ = True"

lemma in_order_jset: "in_order v \<Longrightarrow> in_order (jset k x v)"
  by (cases v) (simp_all add: ordered_btree_insert)

lemma jget_ext:
  assumes "is_object v" "is_object w" "in_order v" "in_order w" "\<And>k. jget k v = jget k w"
  shows "v = w"
proof -
  obtain m n where "v = JObject m" "w = JObject n" using assms(1,2) by (cases v; cases w) auto
  moreover have "map_of m = map_of n" using assms(5) calculation by auto
  ultimately show ?thesis using assms(3,4) ordered_ext by auto
qed

lemma jset_same: "in_order v \<Longrightarrow> jget k v = Some x \<Longrightarrow> jset k x v = v"
  by (rule jget_ext) (auto simp: in_order_jset jget_jset jget_is_object)

lemma jmap_twice: "(\<And>x. jget k v = Some x \<Longrightarrow> f (f x) = f x) \<Longrightarrow> jmap k f (jmap k f v) = jmap k f v"
  by (auto simp: jmap_def jget_jset jget_is_object split: option.split)

lemma json_wf_in_order: "json_wf v \<Longrightarrow> in_order v"
  by (cases v) simp_all

lemma json_wf_jget: "json_wf v \<Longrightarrow> jget k v = Some x \<Longrightarrow> json_wf x"
  by (cases v) (auto dest!: map_of_SomeD)

subsection \<open>Cutting one field\<close>

lemma marker_start: "is_char_start (hd cut_marker)" "cut_marker \<noteq> []"
  by (simp_all add: cut_marker_def is_char_start_def byte_def)

lemma marker_chars: "chars cut_marker \<noteq> []"
  using marker_start(2) chars_from_not_Nil by (auto simp: chars_def split: list.split)

lemma length_chars_truncated:
  "truncate_to_chars s n = Some t \<Longrightarrow> length (chars t) = n + length (chars cut_marker)"
  by (auto simp: truncate_to_chars_def chars_append marker_start marker_chars chars_take_chars split: if_splits)

lemma truncate_again: "truncate_to_chars s n = Some t \<Longrightarrow> truncate_to_chars t n = Some t"
  by (auto simp: truncate_to_chars_def chars_append marker_start marker_chars chars_take_chars split: if_splits)

definition cut_value :: "nat \<Rightarrow> json option \<Rightarrow> json option" where
  "cut_value n x =
    (case x of
       Some (JString s) \<Rightarrow> (case truncate_to_chars s n of Some t \<Rightarrow> Some (JString t) | None \<Rightarrow> x)
     | _ \<Rightarrow> x)"

definition long_value :: "nat \<Rightarrow> json option \<Rightarrow> bool" where
  "long_value n x = (case x of Some (JString s) \<Rightarrow> truncate_to_chars s n \<noteq> None | _ \<Rightarrow> False)"

lemma cut_value_again [simp]: "cut_value n (cut_value n x) = cut_value n x"
  by (auto simp: cut_value_def truncate_again split: option.split json.split)

lemma long_value_cut [simp]: "long_value n (cut_value n x) = long_value n x"
  by (auto simp: cut_value_def long_value_def truncate_again split: option.split json.split)

lemma cut_value_short: "\<not> long_value n x \<Longrightarrow> cut_value n x = x"
  by (auto simp: cut_value_def long_value_def split: option.split json.split)

lemma truncate_field_eq:
  "truncate_field n k (v, b) =
    (if long_value n (jget k v) then (jset k (the (cut_value n (jget k v))) v, True) else (v, b))"
  by (auto simp: truncate_field_def long_value_def cut_value_def split: option.split json.split)

lemma cut_value_Some: "long_value n x \<Longrightarrow> \<exists>y. cut_value n x = Some y"
  by (auto simp: cut_value_def long_value_def split: option.splits json.splits)

lemma truncate_fields:
  assumes "is_object v" "in_order v" "distinct ks" "fold (truncate_field n) ks (v, b) = (w, c)"
  shows "is_object w \<and> in_order w \<and> (c \<longleftrightarrow> b \<or> (\<exists>k \<in> set ks. long_value n (jget k v)))
    \<and> (\<forall>k. jget k w = (if k \<in> set ks then cut_value n (jget k v) else jget k v))"
  using assms
proof (induction ks arbitrary: v b)
  case (Cons k ks)
  show ?case
  proof (cases "long_value n (jget k v)")
    case True
    let ?v = "jset k (the (cut_value n (jget k v))) v"
    have other: "jget k' ?v = (if k' = k then cut_value n (jget k v) else jget k' v)" for k'
      using cut_value_Some [OF True] Cons.prems(1) by (auto simp: jget_jset)
    have "fold (truncate_field n) ks (?v, True) = (w, c)"
      using Cons.prems(4) True by (simp add: truncate_field_eq)
    then show ?thesis
      using Cons.IH [of ?v True] Cons.prems(1-3) True by (auto simp: other in_order_jset)
  next
    case False
    then show ?thesis
      using Cons.IH [of v b] Cons.prems by (auto simp: truncate_field_eq cut_value_short)
  qed
qed simp

lemma text_fields_distinct: "distinct scrape_text_fields" "''truncated'' \<notin> set scrape_text_fields"
  "''data'' \<notin> set scrape_text_fields"
  by (simp_all add: scrape_text_fields_def)

definition some_long :: "nat \<Rightarrow> json \<Rightarrow> bool" where
  "some_long n v = (\<exists>k \<in> set scrape_text_fields. long_value n (jget k v))"

lemma truncate_obj_keeps:
  assumes "is_object v" "in_order v"
  shows "is_object (truncate_scrape_obj n v)" "in_order (truncate_scrape_obj n v)"
    "jget k (truncate_scrape_obj n v) =
      (if k \<in> set scrape_text_fields then cut_value n (jget k v)
       else if k = ''truncated'' \<and> some_long n v then Some (JBool True) else jget k v)"
proof -
  obtain w c where w: "fold (truncate_field n) scrape_text_fields (v, False) = (w, c)" by fastforce
  have facts: "is_object w" "in_order w" "c \<longleftrightarrow> some_long n v"
    "\<And>k. jget k w = (if k \<in> set scrape_text_fields then cut_value n (jget k v) else jget k v)"
    using truncate_fields [OF assms text_fields_distinct(1) w] unfolding some_long_def by auto
  show "is_object (truncate_scrape_obj n v)" "in_order (truncate_scrape_obj n v)"
    using facts(1,2) by (auto simp: truncate_scrape_obj_def w in_order_jset)
  show "jget k (truncate_scrape_obj n v) =
      (if k \<in> set scrape_text_fields then cut_value n (jget k v)
       else if k = ''truncated'' \<and> some_long n v then Some (JBool True) else jget k v)"
    using facts text_fields_distinct(2) by (auto simp: truncate_scrape_obj_def w jget_jset)
qed

lemma truncate_obj_other: "\<not> is_object v \<Longrightarrow> truncate_scrape_obj n v = v"
proof -
  assume "\<not> is_object v"
  then have "jget k v = None" for k by (cases v) simp_all
  then have "fold (truncate_field n) ks (v, False) = (v, False)" for ks
    by (induction ks) (simp_all add: truncate_field_eq long_value_def)
  then show ?thesis by (simp add: truncate_scrape_obj_def)
qed

lemma truncate_obj_again: "in_order v \<Longrightarrow> truncate_scrape_obj n (truncate_scrape_obj n v) = truncate_scrape_obj n v"
proof (cases "is_object v")
  case True
  assume v: "in_order v"
  let ?w = "truncate_scrape_obj n v"
  note w = truncate_obj_keeps [OF True v, where n = n]
  have long: "some_long n ?w = some_long n v" unfolding some_long_def by (simp add: w(3))
  show ?thesis
    by (rule jget_ext) (use truncate_obj_keeps [OF w(1,2), where n = n] w long in auto)
qed (simp add: truncate_obj_other)

subsection \<open>A budget for several texts\<close>

definition text_of :: "json option \<Rightarrow> nat" where
  "text_of x = (case x of Some (JString s) \<Rightarrow> char_count s | _ \<Rightarrow> 0)"

definition text_size :: "json \<Rightarrow> nat" where
  "text_size v = sum_list (map (\<lambda>k. text_of (jget k v)) scrape_text_fields)"

lemma budget_text_fits: "char_count (budget_text r s) \<le> r"
  using char_count_take_chars [of "r - char_count (budget_marker (char_count s))" s]
  by (auto simp: budget_text_def Let_def char_count_append)

lemma budget_field_facts:
  assumes "budget_field k ((v, r), b) = ((w, r'), b')" "in_order v"
  shows "in_order w \<and> is_object w = is_object v \<and> (\<forall>k'. k' \<noteq> k \<longrightarrow> jget k' w = jget k' v)
    \<and> text_of (jget k w) + r' \<le> r \<and> (b \<longrightarrow> b')"
proof (cases "\<exists>s. jget k v = Some (JString s)")
  case True
  then obtain s where s: "jget k v = Some (JString s)" by blast
  then have "is_object v" by (rule jget_is_object)
  then show ?thesis
    using assms s budget_text_fits [of r s]
    by (auto simp: budget_field_def text_of_def jget_jset in_order_jset split: if_splits)
next
  case False
  then show ?thesis
    using assms by (auto simp: budget_field_def text_of_def split: option.splits json.splits)
qed

lemma budget_fields:
  assumes "fold budget_field ks ((v, r), b) = ((w, r'), b')" "in_order v" "distinct ks"
  shows "in_order w \<and> is_object w = is_object v \<and> (\<forall>k. k \<notin> set ks \<longrightarrow> jget k w = jget k v)
    \<and> sum_list (map (\<lambda>k. text_of (jget k w)) ks) + r' \<le> r"
  using assms
proof (induction ks arbitrary: v r b)
  case (Cons k ks)
  obtain v1 r1 b1 where one: "budget_field k ((v, r), b) = ((v1, r1), b1)" by (metis prod.exhaust)
  have one_facts: "in_order v1" "is_object v1 = is_object v" "\<forall>k'. k' \<noteq> k \<longrightarrow> jget k' v1 = jget k' v"
    "text_of (jget k v1) + r1 \<le> r"
    using budget_field_facts [OF one Cons.prems(2)] by simp_all
  have rest: "in_order w" "is_object w = is_object v1" "\<forall>k'. k' \<notin> set ks \<longrightarrow> jget k' w = jget k' v1"
    "sum_list (map (\<lambda>k. text_of (jget k w)) ks) + r' \<le> r1"
    using Cons.IH [of v1 r1 b1] Cons.prems one one_facts(1) by auto
  have "jget k w = jget k v1" using rest(3) Cons.prems(3) by simp
  then show ?case using one_facts rest by auto
qed simp

lemma budget_obj_facts:
  assumes "truncate_scrape_obj_to_budget v r = (w, r')" "in_order v"
  shows "in_order w \<and> text_size w + r' \<le> r"
proof (cases "is_object v")
  case True
  obtain u q c where u: "fold budget_field scrape_text_fields ((v, r), False) = ((u, q), c)" by (metis prod.exhaust)
  have f: "in_order u" "is_object u" "text_size u + q \<le> r"
    using budget_fields [OF u assms(2) text_fields_distinct(1)] True by (simp_all add: text_size_def)
  have "text_size (jset ''truncated'' x u) = text_size u" for x
    using f(2) by (simp add: text_size_def scrape_text_fields_def jget_jset)
  moreover have "w = (if c then jset ''truncated'' (JBool True) u else u)" "r' = q"
    using assms(1) True by (simp_all add: truncate_scrape_obj_to_budget_def u)
  ultimately show ?thesis using f by (simp add: in_order_jset)
next
  case False
  then have "jget k v = None" for k by (cases v) simp_all
  then show ?thesis using assms False by (auto simp: truncate_scrape_obj_to_budget_def text_size_def text_of_def)
qed

lemma budget_fields_fit:
  "sum_list (map (\<lambda>k. text_of (jget k v)) ks) \<le> r
    \<Longrightarrow> fold budget_field ks ((v, r), b) = ((v, r - sum_list (map (\<lambda>k. text_of (jget k v)) ks)), b)"
proof (induction ks arbitrary: r)
  case (Cons k ks)
  have "budget_field k ((v, r), b) = ((v, r - text_of (jget k v)), b)"
    using Cons.prems by (auto simp: budget_field_def text_of_def split: option.split json.split)
  then show ?case using Cons by simp
qed simp

lemma budget_obj_fit: "text_size v \<le> r \<Longrightarrow> truncate_scrape_obj_to_budget v r = (v, r - text_size v)"
proof (cases "is_object v")
  case False
  then have "jget k v = None" for k by (cases v) simp_all
  then show ?thesis using False by (simp add: truncate_scrape_obj_to_budget_def text_size_def text_of_def)
qed (simp add: truncate_scrape_obj_to_budget_def budget_fields_fit text_size_def)

definition total_text :: "json list \<Rightarrow> nat" where
  "total_text vs = sum_list (map text_size vs)"

lemma total_text_simps [simp]:
  "total_text [] = 0" "total_text (v # vs) = text_size v + total_text vs"
  "total_text (vs @ ws) = total_text vs + total_text ws"
  by (simp_all add: total_text_def)

lemma budget_items_facts:
  "budget_items vs r = (ws, r') \<Longrightarrow> \<forall>v \<in> set vs. in_order v
    \<Longrightarrow> total_text ws + r' \<le> r \<and> length ws = length vs"
proof (induction vs r arbitrary: ws r' rule: budget_items.induct)
  case (2 v vs r)
  obtain v1 r1 where v1: "truncate_scrape_obj_to_budget v r = (v1, r1)" by fastforce
  obtain us q where us: "budget_items vs r1 = (us, q)" by fastforce
  have "ws = v1 # us" "r' = q" using "2.prems"(1) by (simp_all add: v1 us)
  moreover have "total_text us + q \<le> r1 \<and> length us = length vs"
    using "2.IH" [OF v1 [symmetric] us] "2.prems"(2) by simp
  moreover have "text_size v1 + r1 \<le> r" using budget_obj_facts [OF v1] "2.prems"(2) by simp
  ultimately show ?case by simp
qed simp

lemma budget_items_fit: "total_text vs \<le> r \<Longrightarrow> budget_items vs r = (vs, r - total_text vs)"
  by (induction vs r rule: budget_items.induct) (auto simp: budget_obj_fit)

definition group_items :: "string \<Rightarrow> json \<Rightarrow> json list" where
  "group_items g v = (case (case jget g v of Some x \<Rightarrow> as_array x | None \<Rightarrow> None) of Some xs \<Rightarrow> xs | None \<Rightarrow> [])"

lemma as_array_Some: "as_array x = Some xs \<longleftrightarrow> x = JArray xs"
  by (cases x) auto

lemma group_items_array: "jget g v = Some (JArray xs) \<Longrightarrow> group_items g v = xs"
  by (simp add: group_items_def)

lemma no_group: "\<nexists>xs. jget g v = Some (JArray xs) \<Longrightarrow>
    (case jget g v of Some x \<Rightarrow> as_array x | None \<Rightarrow> None) = None \<and> group_items g v = []"
proof -
  assume no: "\<nexists>xs. jget g v = Some (JArray xs)"
  have "as_array x = None" if "jget g v = Some x" for x using no that by (cases x) auto
  then show ?thesis by (auto simp: group_items_def split: option.split)
qed

lemma budget_group_facts:
  assumes "budget_group g (v, r) = (w, r')" "in_order v" "\<forall>x \<in> set (group_items g v). in_order x"
  shows "total_text (group_items g w) + r' \<le> r \<and> (\<forall>k. k \<noteq> g \<longrightarrow> jget k w = jget k v)
    \<and> in_order w \<and> is_object w = is_object v"
proof (cases "\<exists>xs. jget g v = Some (JArray xs)")
  case True
  then obtain xs where xs: "jget g v = Some (JArray xs)" by blast
  obtain ys q where ys: "budget_items xs r = (ys, q)" by fastforce
  have "total_text ys + q \<le> r" using budget_items_facts [OF ys] assms(3) by (simp add: group_items_array [OF xs])
  moreover have "w = jset g (JArray ys) v" "r' = q" using assms(1) xs ys by (simp_all add: budget_group_def)
  ultimately show ?thesis
    using jget_is_object [OF xs] assms(2) by (simp add: group_items_def jget_jset in_order_jset)
next
  case False
  then show ?thesis using assms no_group [OF False] by (simp add: budget_group_def)
qed

lemma budget_groups_facts:
  assumes "fold budget_group gs (v, r) = (w, r')" "in_order v" "distinct gs"
    "\<forall>g \<in> set gs. \<forall>x \<in> set (group_items g v). in_order x"
  shows "total_text (concat (map (\<lambda>g. group_items g w) gs)) + r' \<le> r \<and> (\<forall>k. k \<notin> set gs \<longrightarrow> jget k w = jget k v)
    \<and> in_order w \<and> is_object w = is_object v"
  using assms
proof (induction gs arbitrary: v r)
  case (Cons g gs)
  obtain v1 r1 where one: "budget_group g (v, r) = (v1, r1)" by fastforce
  have f: "total_text (group_items g v1) + r1 \<le> r" "\<forall>k. k \<noteq> g \<longrightarrow> jget k v1 = jget k v" "in_order v1"
    "is_object v1 = is_object v"
    using budget_group_facts [OF one Cons.prems(2)] Cons.prems(4) by simp_all
  have "group_items g' v1 = group_items g' v" if "g' \<in> set gs" for g'
    using f(2) Cons.prems(3) that by (auto simp: group_items_def)
  then have rest: "total_text (concat (map (\<lambda>g. group_items g w) gs)) + r' \<le> r1"
    "\<forall>k. k \<notin> set gs \<longrightarrow> jget k w = jget k v1" "in_order w" "is_object w = is_object v1"
    using Cons.IH [of v1 r1] Cons.prems one f(3) by auto
  have "group_items g w = group_items g v1" using rest(2) Cons.prems(3) by (simp add: group_items_def)
  then show ?case using f rest by auto
qed simp

lemma budget_groups_fit:
  assumes "in_order v" "total_text (concat (map (\<lambda>g. group_items g v) gs)) \<le> r"
  shows "fold budget_group gs (v, r) = (v, r - total_text (concat (map (\<lambda>g. group_items g v) gs)))"
  using assms(2)
proof (induction gs arbitrary: r)
  case (Cons g gs)
  have "budget_group g (v, r) = (v, r - total_text (group_items g v))"
  proof (cases "\<exists>xs. jget g v = Some (JArray xs)")
    case True
    then obtain xs where xs: "jget g v = Some (JArray xs)" by blast
    then show ?thesis
      using budget_items_fit [of xs r] Cons.prems jset_same [OF assms(1) xs]
      by (simp add: budget_group_def group_items_def)
  next
    case False
    then show ?thesis using no_group [OF False] by (simp add: budget_group_def)
  qed
  then show ?case using Cons by simp
qed simp

text \<open>The items of a result of a search.\<close>

definition result_items :: "json \<Rightarrow> json list" where
  "result_items v = (case v of JArray xs \<Rightarrow> xs | _ \<Rightarrow> concat (map (\<lambda>g. group_items g v) result_groups))"

lemma groups_distinct: "distinct result_groups"
  by (simp add: result_groups_def)

lemma group_items_wf: "json_wf v \<Longrightarrow> x \<in> set (group_items g v) \<Longrightarrow> json_wf x"
proof (cases "\<exists>xs. jget g v = Some (JArray xs)")
  case True
  moreover assume "json_wf v" "x \<in> set (group_items g v)"
  ultimately show ?thesis using json_wf_jget [of v g] by (auto simp: group_items_array)
qed (use no_group in auto)

lemma budget_results_facts:
  assumes "json_wf v"
  shows "total_text (result_items (budget_results n v)) \<le> n \<and> in_order (budget_results n v)"
proof (cases v)
  case (JArray xs)
  obtain ys q where ys: "budget_items xs n = (ys, q)" by fastforce
  then show ?thesis
    using budget_items_facts [OF ys] assms json_wf_in_order JArray by (simp add: result_items_def)
next
  case (JObject m)
  obtain w q where w: "fold budget_group result_groups (v, n) = (w, q)" by fastforce
  have "total_text (concat (map (\<lambda>g. group_items g w) result_groups)) + q \<le> n \<and> in_order w \<and> is_object w"
    using budget_groups_facts [OF w json_wf_in_order groups_distinct] assms group_items_wf json_wf_in_order JObject
    by auto
  moreover have "result_items w = concat (map (\<lambda>g. group_items g w) result_groups)" if "is_object w"
    using that by (cases w) (simp_all add: result_items_def)
  ultimately show ?thesis using w JObject by simp
qed (simp_all add: result_items_def result_groups_def group_items_def)

lemma budget_results_fit: "in_order v \<Longrightarrow> total_text (result_items v) \<le> n \<Longrightarrow> budget_results n v = v"
  by (cases v) (simp_all add: result_items_def budget_items_fit budget_groups_fit)

subsection \<open>Lists of URLs\<close>

lemma list_over_items: "list_over n k v \<longleftrightarrow> n < length (group_items k v)"
  by (auto simp: list_over_def group_items_def split: option.split)

lemma bound_list_facts:
  assumes "k \<noteq> t"
  shows "is_object (bound_list n k t v) = is_object v" "length (group_items k (bound_list n k t v)) \<le> n"
    "k' \<noteq> k \<Longrightarrow> k' \<noteq> t \<Longrightarrow> jget k' (bound_list n k t v) = jget k' v"
    "jget k (bound_list n k t v) = None \<longleftrightarrow> jget k v = None"
proof -
  have "is_object (bound_list n k t v) = is_object v \<and> length (group_items k (bound_list n k t v)) \<le> n
    \<and> (\<forall>k'. k' \<noteq> k \<longrightarrow> k' \<noteq> t \<longrightarrow> jget k' (bound_list n k t v) = jget k' v)
    \<and> (jget k (bound_list n k t v) = None \<longleftrightarrow> jget k v = None)"
  proof (cases "\<exists>xs. jget k v = Some (JArray xs)")
    case True
    then obtain xs where xs: "jget k v = Some (JArray xs)" by blast
    show ?thesis
      using assms jget_is_object [OF xs] xs by (simp add: bound_list_def group_items_def jget_jset)
  next
    case False
    then show ?thesis using no_group [OF False] by (simp add: bound_list_def)
  qed
  then show "is_object (bound_list n k t v) = is_object v" "length (group_items k (bound_list n k t v)) \<le> n"
    "k' \<noteq> k \<Longrightarrow> k' \<noteq> t \<Longrightarrow> jget k' (bound_list n k t v) = jget k' v"
    "jget k (bound_list n k t v) = None \<longleftrightarrow> jget k v = None" by auto
qed

lemma group_items_cong: "jget g v = jget g w \<Longrightarrow> group_items g v = group_items g w"
  by (simp add: group_items_def)

lemma bound_container_facts:
  "is_object (bound_container n v) = is_object v \<and> length (group_items ''links'' (bound_container n v)) \<le> n
   \<and> length (group_items ''sitemaps'' (bound_container n v)) \<le> n
   \<and> (\<forall>k. k \<notin> {''links'', ''sitemaps'', ''totalDiscovered'', ''totalSitemaps'', ''truncated''}
        \<longrightarrow> jget k (bound_container n v) = jget k v)
   \<and> (jget ''links'' (bound_container n v) = None \<longleftrightarrow> jget ''links'' v = None)"
proof (cases "list_over n ''links'' v \<or> list_over n ''sitemaps'' v")
  case True
  let ?a = "bound_list n ''links'' ''totalDiscovered'' v"
  let ?b = "bound_list n ''sitemaps'' ''totalSitemaps'' ?a"
  have obj: "is_object v" using True jget_is_object by (auto simp: list_over_def split: option.splits)
  have b: "is_object ?b" "length (group_items ''sitemaps'' ?b) \<le> n" "length (group_items ''links'' ?b) \<le> n"
    "jget ''links'' ?b = None \<longleftrightarrow> jget ''links'' v = None"
    using obj group_items_cong [of "''links''" ?b ?a] by (simp_all add: bound_list_facts)
  have "group_items k (jset ''truncated'' x ?b) = group_items k ?b" if "k \<noteq> ''truncated''" for k x
    using that b(1) by (simp add: group_items_def jget_jset)
  then show ?thesis using True b obj by (simp add: bound_container_def jget_jset bound_list_facts)
qed (auto simp: bound_container_def list_over_items)

lemma bound_container_again: "bound_container n (bound_container n v) = bound_container n v"
  using bound_container_facts [of n v] by (simp add: bound_container_def [of n "bound_container n v"] list_over_items)

subsection \<open>Results fit\<close>

text \<open>Where the contents of a result are.\<close>

definition scrape_target :: "json \<Rightarrow> json" where
  "scrape_target v = (if is_object (jindex v ''data'') then jindex v ''data'' else v)"

definition map_container :: "json \<Rightarrow> json" where
  "map_container v = (if jget ''links'' (jindex v ''data'') \<noteq> None then jindex v ''data'' else v)"

definition limited :: "nat option \<Rightarrow> (nat \<Rightarrow> bool) \<Rightarrow> bool" where
  "limited b P = (case b of Some n \<Rightarrow> P n | None \<Rightarrow> True)"

definition fields_within :: "nat \<Rightarrow> json \<Rightarrow> bool" where
  "fields_within n v = list_all (\<lambda>k. text_of (jget k v) \<le> n) scrape_text_fields"

definition within_bounds :: "string \<Rightarrow> json \<Rightarrow> json \<Rightarrow> bool" where
  "within_bounds tool args v =
    (if tool = ''crw_scrape'' \<or> tool = ''crw_parse_file''
     then limited (resolve_bound args ''maxLength'' default_max_length)
       (\<lambda>n. fields_within (n + char_count cut_marker) (scrape_target v))
     else if tool = ''crw_check_crawl_status''
     then limited (resolve_bound args ''maxLength'' default_max_length)
       (\<lambda>n. list_all (fields_within (n + char_count cut_marker)) (group_items ''data'' v))
     else if tool = ''crw_map''
     then limited (resolve_bound args ''limit'' default_map_limit)
       (\<lambda>n. length (group_items ''links'' (map_container v)) \<le> n
          \<and> length (group_items ''sitemaps'' (map_container v)) \<le> n)
     else if tool = ''crw_search''
     then limited (resolve_bound args ''maxLength'' default_max_length)
       (\<lambda>n. total_text (result_items (jindex (jindex v ''data'') ''results'')) \<le> n)
     else True)"

lemma concat_chars_from: "concat (chars_from acc s) = acc @ s"
  by (induction acc s rule: chars_from.induct) auto

lemma char_count_le_chars: "char_count s \<le> length (chars s)"
proof -
  have "concat (chars s) = s" by (cases s) (simp_all add: chars_def concat_chars_from)
  then show ?thesis using char_count_concat [of "chars s"] chars_count by auto
qed

lemma cut_value_size: "text_of (cut_value n x) \<le> n + char_count cut_marker"
proof (cases "\<exists>s. x = Some (JString s)")
  case True
  then obtain s where x: "x = Some (JString s)" by blast
  show ?thesis
    using char_count_take_chars [of n s] char_count_le_chars [of s]
    by (auto simp: x cut_value_def text_of_def truncate_to_chars_def char_count_append)
next
  case False
  then have "cut_value n x = x" "text_of x = 0"
    by (auto simp: cut_value_def text_of_def split: option.split json.split)
  then show ?thesis by simp
qed

lemma truncated_fields_within: "in_order v \<Longrightarrow> fields_within (n + char_count cut_marker) (truncate_scrape_obj n v)"
proof (cases "is_object v")
  case True
  assume "in_order v"
  then show ?thesis
    unfolding fields_within_def list_all_iff by (simp add: truncate_obj_keeps(3) [OF True] cut_value_size)
next
  case False
  then have "jget k v = None" for k by (cases v) simp_all
  then show ?thesis using False by (simp add: truncate_obj_other fields_within_def text_of_def list_all_iff)
qed

lemma jindex_jmap: "jindex (jmap k f v) k = (if jget k v = None then JNull else f (jindex v k))"
  by (auto simp: jindex_def jget_jmap)

lemma is_object_truncate: "in_order v \<Longrightarrow> is_object (truncate_scrape_obj n v) = is_object v"
  using truncate_obj_keeps(1) truncate_obj_other by metis

lemma truncate_obj_data:
  "in_order v \<Longrightarrow> jget ''data'' (truncate_scrape_obj n v) = jget ''data'' v"
proof (cases "is_object v")
  case True
  assume "in_order v"
  then show ?thesis using text_fields_distinct(3) by (simp add: truncate_obj_keeps(3) [OF True])
qed (simp add: truncate_obj_other)

lemma data_object: "(case jget ''data'' v of Some d \<Rightarrow> is_object d | None \<Rightarrow> False) = is_object (jindex v ''data'')"
  by (simp add: jindex_def split: option.split)

lemma bound_scrape_eq:
  "bound_scrape n v = (if is_object (jindex v ''data'') then jmap ''data'' (truncate_scrape_obj n) v
    else truncate_scrape_obj n v)"
  by (simp add: bound_scrape_def data_object truncate_obj_other)

lemma bound_scrape_facts:
  assumes "json_wf v"
  shows "fields_within (n + char_count cut_marker) (scrape_target (bound_scrape n v))"
    "bound_scrape n (bound_scrape n v) = bound_scrape n v"
proof -
  have v: "in_order v" using assms by (rule json_wf_in_order)
  show "fields_within (n + char_count cut_marker) (scrape_target (bound_scrape n v))"
  proof (cases "is_object (jindex v ''data'')")
    case True
    then obtain d where d: "jget ''data'' v = Some d" "is_object d" by (auto simp: jindex_def split: option.splits)
    then have "in_order d" using json_wf_jget [OF assms] json_wf_in_order by blast
    then show ?thesis
      using True d by (simp add: bound_scrape_eq scrape_target_def jindex_jmap is_object_truncate truncated_fields_within)
        (simp add: jindex_def is_object_truncate truncated_fields_within)
  next
    case False
    then have "\<not> is_object (jindex (truncate_scrape_obj n v) ''data'')"
      using v by (simp add: jindex_def truncate_obj_data)
    then show ?thesis using False v by (simp add: bound_scrape_eq scrape_target_def truncated_fields_within)
  qed
  show "bound_scrape n (bound_scrape n v) = bound_scrape n v"
  proof (cases "is_object (jindex v ''data'')")
    case True
    then obtain d where d: "jget ''data'' v = Some d" "is_object d" by (auto simp: jindex_def split: option.splits)
    then have "in_order d" using json_wf_jget [OF assms] json_wf_in_order by blast
    moreover have "jmap ''data'' (truncate_scrape_obj n) (jmap ''data'' (truncate_scrape_obj n) v) = jmap ''data'' (truncate_scrape_obj n) v"
      by (rule jmap_twice) (use d \<open>in_order d\<close> truncate_obj_again in auto)
    ultimately show ?thesis
      using True d by (simp add: bound_scrape_eq jindex_jmap) (simp add: jindex_def is_object_truncate)
  next
    case False
    then have "\<not> is_object (jindex (truncate_scrape_obj n v) ''data'')"
      using v by (simp add: jindex_def truncate_obj_data)
    then show ?thesis using False v by (simp add: bound_scrape_eq truncate_obj_again)
  qed
qed

lemma bound_pages_facts:
  assumes "json_wf v"
  shows "list_all (fields_within (n + char_count cut_marker)) (group_items ''data'' (bound_pages n v))"
    "bound_pages n (bound_pages n v) = bound_pages n v"
proof -
  have page: "in_order x" if "jget ''data'' v = Some (JArray xs)" "x \<in> set xs" for xs x
    using json_wf_jget [OF assms that(1)] that(2) json_wf_in_order by auto
  show "list_all (fields_within (n + char_count cut_marker)) (group_items ''data'' (bound_pages n v))"
  proof (cases "\<exists>xs. jget ''data'' v = Some (JArray xs)")
    case True
    then obtain xs where xs: "jget ''data'' v = Some (JArray xs)" by blast
    then have "group_items ''data'' (bound_pages n v) = map (truncate_scrape_obj n) xs"
      by (simp add: bound_pages_def group_items_def jget_jmap)
    then show ?thesis using page [OF xs] by (simp add: list_all_iff truncated_fields_within)
  next
    case False
    have "bound_pages n v = v \<or> group_items ''data'' (bound_pages n v) = []"
      using False by (auto simp: bound_pages_def group_items_def jget_jmap as_array_Some split: option.split)
    then show ?thesis using no_group [OF False] by auto
  qed
  show "bound_pages n (bound_pages n v) = bound_pages n v"
    unfolding bound_pages_def
  proof (rule jmap_twice)
    fix d
    assume d: "jget ''data'' v = Some d"
    show "(case as_array (case as_array d of Some ps \<Rightarrow> JArray (map (truncate_scrape_obj n) ps) | None \<Rightarrow> d) of
          Some ps \<Rightarrow> JArray (map (truncate_scrape_obj n) ps)
        | None \<Rightarrow> (case as_array d of Some ps \<Rightarrow> JArray (map (truncate_scrape_obj n) ps) | None \<Rightarrow> d))
      = (case as_array d of Some ps \<Rightarrow> JArray (map (truncate_scrape_obj n) ps) | None \<Rightarrow> d)"
      using page d by (auto simp: as_array_Some truncate_obj_again split: option.split)
  qed
qed

lemma links_in_data:
  "(case jget ''data'' v of Some d \<Rightarrow> jget ''links'' d \<noteq> None | None \<Rightarrow> False) = (jget ''links'' (jindex v ''data'') \<noteq> None)"
  by (simp add: jindex_def split: option.split)

lemma bound_map_eq:
  "bound_map_links n v = (if jget ''links'' (jindex v ''data'') \<noteq> None then jmap ''data'' (bound_container n) v
    else bound_container n v)"
  by (simp add: bound_map_links_def links_in_data)

lemma bound_container_data: "jget ''data'' (bound_container n v) = jget ''data'' v"
  using bound_container_facts [of n v] by simp

lemma links_kept: "jget ''links'' (bound_container n v) = None \<longleftrightarrow> jget ''links'' v = None"
  using bound_container_facts [of n v] by simp

lemma bound_map_container:
  "map_container (bound_map_links n v) = bound_container n (map_container v)"
proof (cases "jget ''links'' (jindex v ''data'') = None")
  case True
  then show ?thesis
    by (simp add: bound_map_eq map_container_def jindex_def bound_container_data)
next
  case False
  then obtain d l where "jget ''data'' v = Some d" "jget ''links'' d = Some l"
    by (auto simp: jindex_def split: option.splits)
  then show ?thesis by (simp add: bound_map_eq map_container_def jindex_jmap links_kept) (simp add: jindex_def)
qed

lemma bound_map_again: "bound_map_links n (bound_map_links n v) = bound_map_links n v"
proof (cases "jget ''links'' (jindex v ''data'') = None")
  case True
  then have "jget ''links'' (jindex (bound_container n v) ''data'') = None"
    by (simp add: jindex_def bound_container_data)
  then show ?thesis using True by (simp add: bound_map_eq bound_container_again)
next
  case False
  then obtain d l where "jget ''data'' v = Some d" "jget ''links'' d = Some l"
    by (auto simp: jindex_def split: option.splits)
  then show ?thesis
    by (simp add: bound_map_eq jindex_jmap links_kept)
      (simp add: jindex_def jmap_twice [of _ _ "bound_container n"] bound_container_again)
qed

lemma bound_search_facts:
  assumes "json_wf v"
  shows "total_text (result_items (jindex (jindex (bound_search_results n v) ''data'') ''results'')) \<le> n"
    "bound_search_results n (bound_search_results n v) = bound_search_results n v"
proof -
  have results: "total_text (result_items (budget_results n r)) \<le> n \<and> budget_results n (budget_results n r) = budget_results n r"
    if "jget ''data'' v = Some d" "jget ''results'' d = Some r" for d r
    using budget_results_facts [of r n] budget_results_fit json_wf_jget [OF json_wf_jget [OF assms that(1)] that(2)]
    by blast
  have none: "total_text (result_items JNull) = 0"
    by (simp add: result_items_def result_groups_def group_items_def)
  show "total_text (result_items (jindex (jindex (bound_search_results n v) ''data'') ''results'')) \<le> n"
  proof (cases "jget ''data'' v")
    case None
    then show ?thesis by (simp add: bound_search_results_def jindex_jmap) (simp add: jindex_def none)
  next
    case (Some d)
    show ?thesis
    proof (cases "jget ''results'' d")
      case None
      then show ?thesis using Some
        by (simp add: bound_search_results_def jindex_jmap) (simp add: jindex_def jmap_def none)
    next
      case (Some r)
      then show ?thesis using \<open>jget ''data'' v = Some d\<close> results
        by (simp add: bound_search_results_def jindex_jmap) (simp add: jindex_def jget_jmap)
    qed
  qed
  show "bound_search_results n (bound_search_results n v) = bound_search_results n v"
    unfolding bound_search_results_def by (intro jmap_twice) (use results in blast)
qed


definition demo_results :: json where
  "demo_results =
    obj [(''data'', obj [(''results'', JArray
      [obj [(''title'', JString ''one''), (''markdown'', JString (replicate 80 (CHR ''a'')))],
       obj [(''markdown'', JString ''more'')]])])]"

definition demo_bounded :: json where
  "demo_bounded = apply_bounds ''crw_search'' (obj [(''maxLength'', JInt 50)]) demo_results"

lemma demo_results_facts:
  "json_wf demo_results"
  "total_text (result_items (jindex (jindex demo_results ''data'') ''results'')) = 84"
  "total_text (result_items (jindex (jindex demo_bounded ''data'') ''results'')) = 50"
  by code_simp+


end
