(* ===== verification/Jobs_Props.thy ===== *)
theory Jobs_Props
  imports Jobs Crawl_Props
begin

section \<open>Properties of jobs\<close>

subsection \<open>What a crawl sends\<close>

definition counts_ok :: "'u crawl_state \<Rightarrow> bool" where
  "counts_ok st \<longleftrightarrow> cs_blocked st \<le> cs_completed st"

lemma run_crawl_sends:
  "\<exists>ss s. fst (run_crawl env req) = ss @ [s] \<and> is_terminal (cs_status s)
    \<and> (\<forall>x \<in> set ss. cs_status x = InProgress) \<and> (\<forall>x \<in> set (ss @ [s]). counts_ok x)"
proof (cases rule: run_crawl_cases [of env req])
  case (refused e)
  then have "fst (run_crawl env req) = [] @ [send_failed e]" by simp
  moreover have "is_terminal (cs_status (send_failed e)) \<and> counts_ok (send_failed e)"
    by (simp add: send_failed_def is_terminal_def counts_ok_def)
  ultimately show ?thesis by fastforce
next
  case (ran base job)
  have "list_all2 (progress_report (max (crawl_max_pages req) 1)) [0..<length (cj_results job)] (cj_sent job)"
    "cj_blocked job = blocked_pages (cj_results job)"
    using ran(2) unfolding crawl_inv_def by auto
  then have sent: "\<forall>x \<in> set (cj_sent job). cs_status x = InProgress \<and> counts_ok x"
    by (auto simp: list_all2_conv_all_nth in_set_conv_nth progress_report_def counts_ok_def)
  have "blocked_pages (cj_results job) \<le> length (cj_results job)" by (simp add: blocked_pages_def)
  then have "is_terminal (cs_status (completed_state job)) \<and> counts_ok (completed_state job)"
    using \<open>cj_blocked job = _\<close> by (simp add: completed_state_def is_terminal_def counts_ok_def)
  then show ?thesis using sent ran(3) by fastforce
qed

subsection \<open>The invariant\<close>

fun crawl_sound :: "'u work option \<Rightarrow> bool \<Rightarrow> 'u crawl_state \<Rightarrow> bool" where
  "crawl_sound None c st \<longleftrightarrow> counts_ok st \<and> (c \<or> is_terminal (cs_status st))"
| "crawl_sound (Some (Sends ss)) c st \<longleftrightarrow>
    (\<forall>x \<in> set (st # ss). counts_ok x)
    \<and> (c \<or> (is_terminal (cs_status (last (st # ss)))
            \<and> (\<forall>x \<in> set (butlast (st # ss)). cs_status x = InProgress)))"
| "crawl_sound (Some (Pages urls width ps)) c st \<longleftrightarrow> False"

definition batch_counts :: "'u crawl_state \<Rightarrow> bool" where
  "batch_counts st \<longleftrightarrow>
    cs_completed st = length (cs_data st) \<and> cs_blocked st = blocked_pages (cs_data st)
    \<and> cs_success st \<and> cs_error st = None"

fun batch_sound :: "'u work option \<Rightarrow> bool \<Rightarrow> 'u crawl_state \<Rightarrow> bool" where
  "batch_sound None c st \<longleftrightarrow>
    batch_counts st \<and> cs_completed st \<le> cs_total st
    \<and> (cs_status st = Cancelled \<and> c \<or> cs_status st = Completed \<and> cs_completed st = cs_total st \<and> (c \<longrightarrow> cs_total st = 0))"
| "batch_sound (Some (Sends ss)) c st \<longleftrightarrow>
    batch_counts st \<and> cs_total st = 0 \<and> cs_completed st = 0
    \<and> set ss \<subseteq> {(initial_state 0)\<lparr> cs_status := Completed \<rparr>}
    \<and> (cs_status st = Completed \<or> cs_status st = Cancelled \<and> c \<or> cs_status st = InProgress \<and> \<not> c \<and> ss \<noteq> [])"
| "batch_sound (Some (Pages urls width ps)) c st \<longleftrightarrow>
    batch_counts st \<and> cs_total st = urls \<and> cs_completed st + length ps = urls \<and> 0 < urls \<and> 0 < width
    \<and> cs_status st = (if c then Cancelled else if ps = [] then Completed else InProgress)"

definition job_sound :: "'u job_task option \<Rightarrow> 'u job \<Rightarrow> bool" where
  "job_sound tk j \<longleftrightarrow>
    (\<forall>t. tk = Some t \<longrightarrow> tk_aborted t \<longrightarrow> jb_cancelled j)
    \<and> (if jb_batch j then batch_sound else crawl_sound) (map_option tk_work tk) (jb_cancelled j) (jb_state j)"

definition slots_ok :: "'u job_registry \<Rightarrow> bool" where
  "slots_ok r \<longleftrightarrow>
    rg_permits r + length (rg_running r) = max_concurrent_crawls \<and> distinct (rg_running r)
    \<and> (\<forall>i \<in> set (rg_running r). rg_tasks r i \<noteq> None)"

definition registry_ok :: "'u job_registry \<Rightarrow> bool" where
  "registry_ok r \<longleftrightarrow>
    slots_ok r \<and> (\<forall>i. i \<notin> set (rg_used r) \<longrightarrow> rg_jobs r i = None \<and> rg_tasks r i = None)
    \<and> (\<forall>i j. rg_jobs r i = Some j \<longrightarrow> job_sound (rg_tasks r i) j)"

lemma registry_sound: "registry_ok r \<Longrightarrow> rg_jobs r i = Some j \<Longrightarrow> rg_tasks r i = tk \<Longrightarrow> job_sound tk j"
  by (auto simp: registry_ok_def)

lemma registry_init_ok: "registry_ok registry_init"
  by (simp add: registry_ok_def slots_ok_def registry_init_def)

subsection \<open>Each step keeps it\<close>

lemma new_crawl_sound:
  "job_sound (Some \<lparr> tk_work = Sends (fst (run_crawl env req)), tk_polled = False, tk_aborted = False \<rparr>)
    \<lparr> jb_state = initial_state 0, jb_created = now, jb_handle = False, jb_known = False, jb_batch = False, jb_cancelled = False \<rparr>"
proof -
  obtain ss s where sends: "fst (run_crawl env req) = ss @ [s]" "is_terminal (cs_status s)"
    "\<forall>x \<in> set ss. cs_status x = InProgress" "\<forall>x \<in> set (ss @ [s]). counts_ok x"
    using run_crawl_sends by blast
  have "butlast (initial_state 0 # ss @ [s]) = initial_state 0 # ss" by (simp add: butlast_append)
  then show ?thesis
    using sends by (auto simp: job_sound_def initial_state_def counts_ok_def butlast_append)
qed

lemma new_batch_sound:
  "job_sound (Some \<lparr> tk_work = batch_work width pages, tk_polled = False, tk_aborted = False \<rparr>)
    \<lparr> jb_state = initial_state (length pages), jb_created = now, jb_handle = False, jb_known = False, jb_batch = True,
      jb_cancelled = False \<rparr>"
  by (simp add: job_sound_def batch_work_def initial_state_def batch_counts_def blocked_pages_def less_max_iff_disj)

lemma spawn_ok:
  assumes "registry_ok r"
    "job_sound (Some \<lparr> tk_work = w, tk_polled = False, tk_aborted = False \<rparr>)
      \<lparr> jb_state = st, jb_created = now, jb_handle = False, jb_known = False, jb_batch = b, jb_cancelled = False \<rparr>"
  shows "registry_ok (spawn_job i now st b w r)"
  using assms by (auto simp: registry_ok_def slots_ok_def spawn_job_def)

lemma job_sound_handle [simp]: "job_sound tk (j\<lparr> jb_handle := b, jb_known := c \<rparr>) = job_sound tk j"
  by (simp add: job_sound_def)

lemma job_sound_polled [simp]: "job_sound (Some (t\<lparr> tk_polled := b \<rparr>)) j = job_sound (Some t) j"
  by (simp add: job_sound_def)

lemma ended_sound:
  assumes "job_sound (Some t) j" "work_done (tk_work t) \<or> tk_aborted t"
  shows "job_sound None j"
  using assms by (cases "tk_work t") (auto simp: job_sound_def split: if_splits)

lemma end_task_ok:
  assumes "registry_ok r" "rg_tasks r i = Some t" "work_done (tk_work t) \<or> tk_aborted t"
  shows "registry_ok (end_task i r)"
proof -
  have "job_sound None j" if "rg_jobs r i = Some j" for j
    using ended_sound assms that unfolding registry_ok_def by fastforce
  moreover have "slots_ok (end_task i r)"
  proof -
    have "length (rg_running r) = Suc (length (remove1 i (rg_running r)))" if "i \<in> set (rg_running r)"
      using length_pos_if_in_set [OF that] that by (simp add: length_remove1)
    then show ?thesis
      using assms(1) by (auto simp: registry_ok_def slots_ok_def end_task_def remove1_idem)
  qed
  ultimately show ?thesis using assms(1) by (auto simp: registry_ok_def end_task_def)
qed

lemma batch_page_counts: "batch_counts st \<Longrightarrow> batch_counts (batch_page urls p st)"
  by (simp add: batch_page_def batch_counts_def blocked_pages_def Let_def)

lemma batch_page_fields:
  "cs_total (batch_page urls p st) = cs_total st" "cs_completed (batch_page urls p st) = cs_completed st + 1"
  "cs_status (batch_page urls p st) =
    (if urls \<le> cs_completed st + 1 \<and> cs_status st = InProgress then Completed else cs_status st)"
  by (simp_all add: batch_page_def Let_def)

lemma landed_sound:
  assumes "job_sound (Some t) j" "tk_work t = Pages urls width ps" "n < length ps"
  shows "job_sound (Some (t\<lparr> tk_work := Pages urls width (take n ps @ drop (Suc n) ps) \<rparr>))
    (j\<lparr> jb_state := batch_page urls (ps ! n) (jb_state j) \<rparr>)"
proof -
  have len: "length (take n ps @ drop (Suc n) ps) = length ps - 1" using assms(3) by simp
  have "(take n ps @ drop (Suc n) ps = []) = (length ps = 1)"
    using len assms(3) by (metis One_nat_def Suc_pred diff_is_0_eq' le_refl length_0_conv less_imp_Suc_add zero_less_Suc)
  then show ?thesis
    using assms len by (auto simp: job_sound_def batch_page_counts batch_page_fields split: if_splits)
qed

lemma sent_sound:
  assumes "job_sound (Some t) j" "tk_work t = Sends (s # ss)"
  shows "job_sound (Some (t\<lparr> tk_work := Sends ss \<rparr>)) (j\<lparr> jb_state := s \<rparr>)"
  using assms
  by (auto simp: job_sound_def batch_counts_def blocked_pages_def initial_state_def split: if_splits)

lemma publish_ok: "registry_ok r \<Longrightarrow> registry_ok (publish_step i n r)"
proof (cases "rg_tasks r i")
  case (Some t)
  assume r: "registry_ok r"
  have upd: "registry_ok (modify_state i f (r\<lparr> rg_tasks := (rg_tasks r)(i \<mapsto> t') \<rparr>))"
    if "\<And>j. job_sound (Some t) j \<Longrightarrow> job_sound (Some t') (j\<lparr> jb_state := f (jb_state j) \<rparr>)" for f t'
    using r that [OF registry_sound [OF r _ Some]] Some
    by (auto simp: registry_ok_def slots_ok_def modify_state_def split: option.split)
  show ?thesis
    using r Some upd [of "t\<lparr> tk_work := Sends _ \<rparr>" "\<lambda>_. _"] landed_sound [of t] sent_sound [of t]
    by (auto simp: publish_step_def split: work.split list.split intro!: upd)
qed (simp add: publish_step_def)

lemma cancelled_sound:
  assumes "job_sound tk j" "\<not> is_terminal (cs_status (jb_state j))"
  shows "job_sound tk (j\<lparr> jb_handle := False, jb_cancelled := True, jb_state := (jb_state j)\<lparr> cs_status := Cancelled \<rparr> \<rparr>)"
    and "job_sound (map_option (\<lambda>t. t\<lparr> tk_aborted := True \<rparr>) tk)
      (j\<lparr> jb_handle := False, jb_cancelled := True, jb_state := (jb_state j)\<lparr> cs_status := Cancelled \<rparr> \<rparr>)"
proof -
  show "job_sound tk (j\<lparr> jb_handle := False, jb_cancelled := True, jb_state := (jb_state j)\<lparr> cs_status := Cancelled \<rparr> \<rparr>)"
  proof (cases tk)
    case None
    then show ?thesis using assms by (auto simp: job_sound_def is_terminal_def counts_ok_def split: if_splits)
  next
    case (Some t)
    then show ?thesis
      using assms by (cases "tk_work t")
        (auto simp: job_sound_def is_terminal_def counts_ok_def batch_counts_def split: if_splits)
  qed
  then show "job_sound (map_option (\<lambda>t. t\<lparr> tk_aborted := True \<rparr>) tk)
      (j\<lparr> jb_handle := False, jb_cancelled := True, jb_state := (jb_state j)\<lparr> cs_status := Cancelled \<rparr> \<rparr>)"
    by (cases tk) (auto simp: job_sound_def)
qed

lemma cancel_ok: "registry_ok r \<Longrightarrow> registry_ok (snd (cancel_crawl sh i r))"
proof (cases "rg_jobs r i")
  case (Some j)
  assume r: "registry_ok r"
  show ?thesis
  proof (cases "is_terminal (cs_status (jb_state j))")
    case False
    have j: "job_sound (rg_tasks r i) j" using r Some by (simp add: registry_ok_def)
    show ?thesis
      using r Some False cancelled_sound [OF j False]
      by (auto simp: cancel_crawl_def abort_task_def registry_ok_def slots_ok_def Let_def split: option.split)
  qed (use r Some in \<open>simp add: cancel_crawl_def\<close>)
qed (simp add: cancel_crawl_def)

interpretation jobs: machine "job_step env" registry_ok for env
proof
  fix r :: "'b job_registry" and a :: "'b job_action"
  assume r: "registry_ok r"
  show "registry_ok (job_step env a r)"
  proof (cases a)
    case (StartCrawl i now req)
    then show ?thesis using r by (simp add: start_crawl_job_def spawn_ok new_crawl_sound)
  next
    case (StartBatch i now pages)
    then show ?thesis using r by (simp add: start_batch_job_def spawn_ok new_batch_sound)
  next
    case (StoreHandle i)
    then show ?thesis using r by (auto simp: store_handle_def registry_ok_def slots_ok_def split: option.split)
  next
    case (Acquire i)
    then show ?thesis using r by (auto simp: acquire_permit_def registry_ok_def slots_ok_def split: option.split)
  next
    case (Poll i)
    then show ?thesis
      using r registry_sound [OF r] by (auto simp: poll_task_def registry_ok_def slots_ok_def split: option.split)
  next
    case (Publish i n)
    then show ?thesis using r by (simp add: publish_ok)
  next
    case (Suspend i)
    then show ?thesis
      using r end_task_ok [OF r]
      by (auto simp: suspend_task_def split: option.split)
        (use registry_sound [OF r] in \<open>auto simp: registry_ok_def slots_ok_def\<close>)
  next
    case (Reap i)
    then show ?thesis using r end_task_ok [OF r] by (auto simp: reap_task_def split: option.split)
  next
    case (Cancel i)
    then show ?thesis using r by (simp add: cancel_ok)
  next
    case (CleanUp now)
    then show ?thesis
      using r by (auto simp: clean_up_def registry_ok_def slots_ok_def split: option.splits if_splits)
  qed
qed

subsection \<open>What a client sees\<close>

definition job_accounted :: "bool \<Rightarrow> 'u job \<Rightarrow> bool" where
  "job_accounted ended j \<longleftrightarrow>
    (let st = jb_state j
     in cs_blocked st \<le> cs_completed st
       \<and> (ended \<longrightarrow> is_terminal (cs_status st) \<or> (jb_cancelled j \<and> \<not> jb_batch j))
       \<and> (jb_batch j \<longrightarrow>
            cs_completed st = length (cs_data st) \<and> cs_blocked st = blocked_pages (cs_data st)
            \<and> cs_completed st \<le> cs_total st \<and> cs_status st \<noteq> Failed
            \<and> (cs_status st = Completed \<longrightarrow> cs_completed st = cs_total st)
            \<and> (0 < cs_total st \<longrightarrow> (cs_status st = Cancelled \<longleftrightarrow> jb_cancelled j))))"

lemma sound_accounted: "job_sound tk j \<Longrightarrow> job_accounted (tk = None) j"
proof (cases tk)
  case None
  assume "job_sound tk j"
  then show ?thesis
    using None by (auto simp: job_sound_def job_accounted_def is_terminal_def counts_ok_def batch_counts_def blocked_pages_def
        split: if_splits)
next
  case (Some t)
  assume "job_sound tk j"
  then show ?thesis
    using Some by (cases "tk_work t")
      (auto simp: job_sound_def job_accounted_def counts_ok_def batch_counts_def blocked_pages_def split: if_splits)
qed


text \<open>
  Ten crawls at a time. In every state of the server the permits that are left and the tasks that
  hold one are ten together, no task holds two, and a task that ended holds none.
\<close>

theorem job_slots_conserved:
  "let r = run_ops (job_step env) acts registry_init
   in rg_permits r + length (rg_running r) = 10 \<and> distinct (rg_running r)
    \<and> list_all (\<lambda>i. rg_tasks r i \<noteq> None) (rg_running r)"
  using jobs.run_inv [OF registry_init_ok, of env acts]
  by (auto simp: Let_def registry_ok_def slots_ok_def max_concurrent_crawls_def list_all_iff)

definition keeps_result :: "duration \<Rightarrow> 'u job_action \<Rightarrow> nat \<Rightarrow> 'u job \<Rightarrow> 'u job option \<Rightarrow> bool" where
  "keeps_result ttl a i j j' =
    (case j' of
       None \<Rightarrow> (case a of CleanUp now \<Rightarrow> is_terminal (cs_status (jb_state j)) \<and> ttl \<le> now - jb_created j | _ \<Rightarrow> False)
     | Some k \<Rightarrow> jb_created k = jb_created j
         \<and> (jb_state k = jb_state j \<or> (case a of Cancel n \<Rightarrow> n = i | Publish n p \<Rightarrow> n = i | _ \<Rightarrow> False)))"

lemma end_task_jobs [simp]: "rg_jobs (end_task i r) = rg_jobs r"
  by (simp add: end_task_def)

lemma abort_task_jobs [simp]: "rg_jobs (abort_task i r) = rg_jobs r"
  by (simp add: abort_task_def split: option.split)

lemma publish_jobs:
  assumes "rg_jobs r i = Some j"
  shows "\<exists>k. rg_jobs (publish_step n p r) i = Some k \<and> jb_created k = jb_created j \<and> (n \<noteq> i \<longrightarrow> jb_state k = jb_state j)"
proof (cases "rg_tasks r n")
  case None
  then show ?thesis using assms by (simp add: publish_step_def)
next
  case (Some t)
  then show ?thesis
    using assms by (auto simp: publish_step_def modify_state_def split: work.split list.split option.split)
qed

text \<open>
  Results stay. No action of a client, of a task or of the clean-up removes a job before it is
  finished and its time is over, and only what its own task publishes or its own cancellation
  changes its state, provided that a new job gets an id of its own.
\<close>

theorem results_stay_readable:
  assumes "rg_jobs r i = Some j" "i \<in> set (rg_used r)"
  shows "keeps_result (je_ttl env) a i j (rg_jobs (job_step env a r) i)"
proof (cases a)
  case (Publish n p)
  then show ?thesis using publish_jobs [OF assms(1), of n p] by (auto simp: keeps_result_def)
qed (use assms in \<open>auto simp: keeps_result_def start_crawl_job_def start_batch_job_def spawn_job_def store_handle_def
    acquire_permit_def poll_task_def suspend_task_def reap_task_def cancel_crawl_def clean_up_def keeps_job_def Let_def
    split: option.splits\<close>)

definition demo_job_env :: "(unit, unit) job_env" where
  "demo_job_env = \<lparr> je_crawl = demo_env, je_max_concurrency = 4, je_ttl = 5, je_show = (\<lambda>_. []) \<rparr>"

definition demo_registry :: "unit job_registry" where
  "demo_registry =
    run_ops (job_step demo_job_env)
      [StartBatch 3 0 [(''http://a/'', Inl ''no''), (''http://b/'', Inr scrape_data_default)], StoreHandle 3, Acquire 3, Poll 3,
       Publish 3 1, Publish 3 0, Suspend 3] registry_init"

lemma demo_registry_job:
  "rg_jobs demo_registry 3 = Some (the (rg_jobs demo_registry 3))"
  "3 \<in> set (rg_used demo_registry)"
  "map_option (\<lambda>j. (cs_status (jb_state j), cs_completed (jb_state j), cs_blocked (jb_state j))) (rg_jobs demo_registry 3)
    = Some (Completed, 2, 1)"
  "rg_jobs (job_step demo_job_env (CleanUp 10) demo_registry) 3 = None"
  by code_simp+

theorem results_stay_readable_witness:
  "keeps_result 5 (CleanUp 10) 3 (the (rg_jobs demo_registry 3)) (rg_jobs (job_step demo_job_env (CleanUp 10) demo_registry) 3)
   \<and> cs_status (jb_state (the (rg_jobs demo_registry 3))) = Completed
   \<and> rg_jobs (job_step demo_job_env (CleanUp 10) demo_registry) 3 = None"
  using results_stay_readable [OF demo_registry_job(1,2), of demo_job_env "CleanUp 10"] demo_registry_job(3,4)
  by (auto simp: demo_job_env_def)

subsection \<open>A cancellation that is lost\<close>

text \<open>The task sends between the cancellation and its next await: its state stays that of a crawl in
  progress, and no clean-up removes the job.\<close>

lemma cancellation_can_be_lost:
  assumes "fst (run_crawl (je_crawl env) req) = s # ss" "cs_status s = InProgress"
  shows "let r = run_ops (job_step env) [StartCrawl 0 0 req, StoreHandle 0, Acquire 0, Poll 0, Cancel 0, Publish 0 0, Suspend 0]
      registry_init
    in rg_tasks r 0 = None
      \<and> (\<exists>j. rg_jobs r 0 = Some j \<and> jb_cancelled j \<and> cs_status (jb_state j) = InProgress \<and> (\<forall>now. keeps_job ttl now j))"
  using assms
  by (simp add: run_ops_def registry_init_def start_crawl_job_def spawn_job_def store_handle_def acquire_permit_def
      max_concurrent_crawls_def poll_task_def knows_def cancel_crawl_def initial_state_def is_terminal_def abort_task_def
      publish_step_def modify_state_def suspend_task_def end_task_def keeps_job_def Let_def)

subsection \<open>Extraction jobs\<close>

text \<open>The pages that were extracted, and the members they contribute.\<close>

fun usable :: "crw_error + 'u scrape_data \<times> nat \<Rightarrow> bool" where
  "usable (Inl e) = False"
| "usable (Inr (d, cost)) = (refused_page d = None)"

fun members_of :: "crw_error + 'u scrape_data \<times> nat \<Rightarrow> members" where
  "members_of (Inr (d, cost)) = (case sd_json d of Some (JObject m) \<Rightarrow> m | _ \<Rightarrow> [])"
| "members_of (Inl e) = []"

fun tokens_of_page :: "('u \<Rightarrow> nat) \<Rightarrow> crw_error + 'u scrape_data \<times> nat \<Rightarrow> nat" where
  "tokens_of_page f (Inr (d, cost)) = (case sd_llm_usage d of Some u \<Rightarrow> f u | None \<Rightarrow> 0)"
| "tokens_of_page f (Inl e) = 0"

fun credits_of_page :: "crw_error + 'u scrape_data \<times> nat \<Rightarrow> nat" where
  "credits_of_page (Inr (d, cost)) = (if cost = 0 then 1 else cost)"
| "credits_of_page (Inl e) = 0"

lemma merge_members_eq: "merge_members (sd_json d) merged = btree.ins_all (members_of (Inr (d, cost))) merged"
  by (simp add: merge_members_def btree.ins_all_def split: option.split json.split)

lemma ins_all_append: "btree.ins_all (xs @ ys) m = btree.ins_all ys (btree.ins_all xs m)"
  by (simp add: btree.ins_all_def)

lemma extract_fold:
  "fold (extract_page f) pages s =
    \<lparr> es_merged = btree.ins_all (concat (map members_of (filter usable pages))) (es_merged s),
      es_tokens = (if filter usable pages = [] then es_tokens s
                   else (es_tokens s + sum_list (map (tokens_of_page f) (filter usable pages))) mod 2 ^ 32),
      es_credits = (if filter usable pages = [] then es_credits s
                    else (es_credits s + sum_list (map credits_of_page (filter usable pages))) mod 2 ^ 32),
      es_last_err = es_last_err (fold (extract_page f) pages s),
      es_any_ok = (es_any_ok s \<or> filter usable pages \<noteq> []) \<rparr>"
proof (induction pages arbitrary: s)
  case Nil
  then show ?case by (simp add: btree.ins_all_def)
next
  case (Cons p pages)
  have split: "fold (extract_page f) (p # pages) s = fold (extract_page f) pages (extract_page f p s)" by simp
  show ?case
  proof (cases "usable p")
    case False
    then have "es_merged (extract_page f p s) = es_merged s" "es_tokens (extract_page f p s) = es_tokens s"
      "es_credits (extract_page f p s) = es_credits s" "es_any_ok (extract_page f p s) = es_any_ok s"
      by (auto simp: extract_page_def split: sum.split option.split)
    then show ?thesis unfolding split using False by (subst Cons.IH) simp
  next
    case True
    then obtain d cost where p: "p = Inr (d, cost)" "refused_page d = None"
      by (cases p rule: usable.cases) auto
    then have "es_merged (extract_page f p s) = btree.ins_all (members_of p) (es_merged s)"
      "es_tokens (extract_page f p s) = (es_tokens s + tokens_of_page f p) mod 2 ^ 32"
      "es_credits (extract_page f p s) = (es_credits s + credits_of_page p) mod 2 ^ 32"
      "es_any_ok (extract_page f p s)"
      by (simp_all add: extract_page_def merge_members_eq [of d _ cost])
    then show ?thesis
      unfolding split using True by (subst Cons.IH) (auto simp: ins_all_append mod_simps add.assoc)
  qed
qed

lemma extract_error:
  "filter usable pages = [] \<Longrightarrow> es_last_err (fold (extract_page f) pages s) \<noteq> None \<longleftrightarrow> es_last_err s \<noteq> None \<or> pages \<noteq> []"
proof (induction pages arbitrary: s)
  case (Cons p pages)
  then have "es_last_err (extract_page f p s) \<noteq> None"
    by (cases p rule: usable.cases) (auto simp: extract_page_def split: if_splits)
  then show ?case using Cons by (auto split: if_splits)
qed simp

text \<open>
  C24. An extraction job charges for what it extracted. When every page failed, was blocked or
  answered with an error, the job fails with a reason, without data, tokens or credits. Otherwise it
  completes with the members of the extracted pages, those of later pages winning, the tokens of
  those pages and at least one credit for each.
\<close>

theorem extraction_is_charged_fairly:
  "let good = filter usable pages; rec = extract_job f now pages
   in if good = [] \<and> pages \<noteq> []
      then er_status rec = ExtractFailed \<and> er_error rec \<noteq> None \<and> er_data rec = None \<and> er_tokens rec = 0 \<and> er_credits rec = 0
      else er_status rec = Extracted \<and> er_error rec = None
        \<and> er_data rec = Some (JObject (btree.ins_all (concat (map members_of good)) []))
        \<and> er_tokens rec = sum_list (map (tokens_of_page f) good) mod 2 ^ 32
        \<and> er_credits rec = max (sum_list (map credits_of_page good) mod 2 ^ 32) 1"
proof -
  let ?s = "fold (extract_page f) pages extract_start"
  note s = extract_fold [of f pages extract_start]
  have fields: "es_merged ?s = btree.ins_all (concat (map members_of (filter usable pages))) []"
    "es_tokens ?s = (if filter usable pages = [] then 0 else sum_list (map (tokens_of_page f) (filter usable pages)) mod 2 ^ 32)"
    "es_credits ?s = (if filter usable pages = [] then 0 else sum_list (map credits_of_page (filter usable pages)) mod 2 ^ 32)"
    "es_any_ok ?s = (filter usable pages \<noteq> [])"
    by (subst s, simp add: extract_start_def)+
  show ?thesis
    using fields extract_error [of pages f extract_start]
    by (auto simp: extract_job_def extract_finish_def extract_new_def extract_start_def Let_def split: if_splits)
qed

end
