(* ===== verification/Server_Props.thy ===== *)
theory Server_Props
  imports Mcp_Server Mcp_Props Jobs_Props Single_Props
begin

section \<open>Properties of the routes and the tool servers\<close>

subsection \<open>The pin of a renderer\<close>

text \<open>What the routes check about a pinned renderer before a request is accepted is what the scrape
  itself checks, for every request, configuration and ladder.\<close>

lemma pin_checks_agree:
  "validate_renderer_pin rd sv (sr_renderer req) (sr_render_js req) =
    (if sr_renderer req = Some ImpersonatedHttpRenderer \<and> sr_render_js req = Some True
     then Some (InvalidRequest ''renderer 'impersonated-http' never executes JS; remove renderJs:true (or omit it)'')
     else check_pin rd sv req)"
proof (cases "resolve_pinned_renderer (sr_renderer req)")
  case None
  then have "sr_renderer req \<noteq> Some ImpersonatedHttpRenderer" by (auto simp: resolve_pinned_renderer_def)
  then show ?thesis using None by (simp add: validate_renderer_pin_def check_pin_def pinned_def)
next
  case (Some name)
  then show ?thesis
    by (auto simp: validate_renderer_pin_def check_pin_def pinned_def effective_js_def js_asked_def pin_implies_js_def
        Let_def conj_commute)
qed

subsection \<open>Answers\<close>

definition answer_codes :: "string list" where
  "answer_codes = [''http_error'', ''no_usable_content'', ''anti_bot'']"


lemma jget_obj: "jget k (obj kvs) = map_of (rev kvs) k"
  by (simp add: json_object_def btree.get_ins_all split: option.split)

lemma jget_answer:
  "jget ''success'' (answer_json f a) = Some (JBool (ap_success a))"
  "jget ''error'' (answer_json f a) = map_option JString (ap_error a)"
  "jget ''errorCode'' (answer_json f a) = None"
  by (auto simp: answer_json_def jget_obj map_of_append map_add_def split: option.split)

lemma str_arg_answer:
  "str_arg ''error'' (answer_json f a) = ap_error a" "str_arg ''errorCode'' (answer_json f a) = None"
  by (auto simp: str_arg_def jget_answer split: option.split)

text \<open>The proxy looks for the code under a name that the answer does not have, so it takes any failure
  for a wall.\<close>

lemma every_failure_is_a_wall:
  "ap_error a \<noteq> None \<Longrightarrow> failed_envelope (answer_json f a) = (if ap_success a then None else ap_error a)"
  by (auto simp: failed_envelope_def jget_answer str_arg_answer)

lemma walled_page_is_no_error_page: "sd_block d = Some b \<Longrightarrow> is_wall b \<Longrightarrow> http_error d = None"
  by (simp add: http_error_def is_wall_def)


subsection \<open>Requests\<close>

lemma protocol_answers:
  assumes "handle_protocol_method name version req proxy search = Respond resp"
  shows "js_jsonrpc resp = ''2.0'' \<and> js_id resp = id_or_null req \<and> (js_result resp = None) \<noteq> (js_error resp = None)"
  using assms by (auto simp: handle_protocol_method_def rpc_error_def rpc_success_def split: if_splits)

lemma tool_answers:
  "js_jsonrpc (tool_result_response print i tool r) = ''2.0'' \<and> js_id (tool_result_response print i tool r) = i
    \<and> js_result (tool_result_response print i tool r) \<noteq> None \<and> js_error (tool_result_response print i tool r) = None"
  by (simp add: tool_result_response_def rpc_success_def Let_def split: sum.split)

definition silent :: "json_rpc_request \<Rightarrow> bool" where
  "silent req \<longleftrightarrow> jr_jsonrpc req = ''2.0''
    \<and> (jr_method req \<in> {''notifications/initialized'', ''notifications/cancelled''}
       \<or> jr_id req = None \<and> jr_method req \<notin> {''initialize'', ''tools/list'', ''ping'', ''tools/call''})"

definition calls_tool :: "json_rpc_request \<Rightarrow> bool" where
  "calls_tool req \<longleftrightarrow> jr_jsonrpc req = ''2.0'' \<and> jr_method req = ''tools/call'' \<and> is_known_tool (tool_name_of req)"


subsection \<open>Fresh pages\<close>

lemma uncached_has_no_key: "cache_key env sv (uncached req) = None"
  by (simp add: cache_key_def cacheable_def uncached_def effective_max_age_def)

abbreviation caching :: "render_decision option page_cache \<Rightarrow> route_world \<Rightarrow> route_world" where
  "caching c w \<equiv> w\<lparr> rw_scrape := (rw_scrape w)\<lparr> zw_cache := c \<rparr> \<rparr>"


definition demo_route :: "unit route_env" where
  "demo_route =
    \<lparr> re_single = (demo_single ''hello'')\<lparr>
        se_parse_url := (\<lambda>u. Some \<lparr> url_text = u, url_scheme = ''http'', url_host = Some ''a'', url_port = Some 80 \<rparr>),
        se_dns := (\<lambda>_ _. DnsAnswer [V4 8 8 8 8]) \<rparr>,
      re_server = demo_server, re_budgets = demo_budgets, re_discover = undefined, re_crawl = undefined,
      re_url_filter = None, re_default_max_depth = 2, re_respect_robots = True, re_parse_error = (\<lambda>_. []),
      re_url_error = (\<lambda>_. []), re_show_id = (\<lambda>_. []) \<rparr>"

definition demo_tools :: tool_lib where
  "demo_tools =
    \<lparr> tl_scrape_request = (\<lambda>a. case str_arg ''url'' a of
         Some u \<Rightarrow> Inr ((demo_scrape_request [FmtMarkdown] [])\<lparr> sr_url := u, sr_max_age := Some 60000 \<rparr>, None)
       | None \<Rightarrow> Inl ''missing url''),
      tl_crawl_request = (\<lambda>_. Inl []), tl_map_request = (\<lambda>_. Inl []), tl_search = (\<lambda>_. Inl []),
      tl_scraped_json = (\<lambda>x. JString (markdown_or_empty (sx_data x))), tl_document_json = (\<lambda>d. JNull),
      tl_state_json = (\<lambda>_. JNull), tl_parse_id = (\<lambda>_. None), tl_base64 = Inr, tl_fresh_id = 0, tl_now = 0 \<rparr>"

definition demo_route_world :: route_world where
  "demo_route_world =
    \<lparr> rw_scrape = demo_scrape_world, rw_discover = \<lparr> dw_ticks = 0, dw_waits = 0, dw_offered = [], dw_fetched = [] \<rparr>,
      rw_jobs = registry_init \<rparr>"

definition demo_tool_scrape :: "((string + json) \<times> route_world) option" where
  "demo_tool_scrape = call_tool demo_route demo_tools ''crw_scrape'' (obj [(''url'', JString ''http://a/'')]) demo_route_world"

lemma demo_tool_scrape_result:
  "map_option (\<lambda>(r, w). (r, length (zw_dispatches (rw_scrape w)))) demo_tool_scrape = Some (Inr (JString ''hello''), 1)"
  by code_simp


subsection \<open>The advertised tools\<close>

text \<open>The instructions name every tool that is advertised, and the search exactly when it is.\<close>

definition advertised :: "bool \<Rightarrow> bool \<Rightarrow> string option list" where
  "advertised proxy search = map (\<lambda>t. as_str (jindex t ''name'')) (tools_of (tools_list_result proxy search))"

definition tool_names :: "bool \<Rightarrow> string list" where
  "tool_names search =
    [''crw_scrape'', ''crw_crawl'', ''crw_check_crawl_status'', ''crw_map''] @ (if search then [''crw_search''] else [])
    @ [''crw_parse_file'']"

lemma advertised_names: "advertised proxy search = map Some (tool_names search)"
proof -
  have "advertised True True = map Some (tool_names True)" "advertised True False = map Some (tool_names False)"
    "advertised False True = map Some (tool_names True)" "advertised False False = map Some (tool_names False)"
    by code_simp+
  then show ?thesis by (cases proxy; cases search) simp_all
qed

lemma instructions_mention:
  "list_all (contains_str (server_instructions True)) (tool_names True)"
  "list_all (contains_str (server_instructions False)) (tool_names False)"
  "\<not> contains_str (server_instructions False) ''crw_search''"
  by code_simp+

lemma instructions_name_the_tools:
  "list_all (\<lambda>n. case n of Some k \<Rightarrow> contains_str (server_instructions search) k | None \<Rightarrow> False) (advertised proxy search)
   \<and> (Some ''crw_search'' \<in> set (advertised proxy search)) = search
   \<and> contains_str (server_instructions search) ''crw_search'' = search"
  using instructions_mention by (cases search) (auto simp: advertised_names list_all_iff tool_names_def)

subsection \<open>Options that are dropped\<close>

text \<open>
  The arguments of the file tool are read as a scrape request, which has to have a URL; the declaration
  of the tool has none. Without one the formats, the schema and the parsers are those of the default.
\<close>

lemma parse_file_ignores_options:
  assumes "\<And>a. jget ''url'' a = None \<Longrightarrow> \<exists>e. tl_scrape_request lib a = Inl e"
    and "jget ''url'' args = None" "jget ''url'' bare = None"
    and "str_arg ''contentBase64'' args = str_arg ''contentBase64'' bare" "str_arg ''filename'' args = str_arg ''filename'' bare"
  shows "call_parse_file env lib args w = call_parse_file env lib bare w"
proof -
  obtain e e' where "tl_scrape_request lib args = Inl e" "tl_scrape_request lib bare = Inl e'"
    using assms(1) [OF assms(2)] assms(1) [OF assms(3)] by blast
  then show ?thesis using assms(4,5) by (simp add: call_parse_file_def cong: option.case_cong sum.case_cong)
qed

end
