(* ===== verification/Spec2Isabelle.thy ===== *)
theory Spec2Isabelle
  imports Breaker_Registry_Props Preference Url_Safety_Props Robots_Props Page_Cache Crawl_Props
    Schedule Diff_Props Monitor_Props Renderer_Props Http_Props Browser_Pool_Props Url_Filter
    Single_Props Discover_Props Chunking_Props Server_Props
begin

text \<open>
  A verification library for CRW, a web scraper and crawler written in Rust. Every definition is
  translated from the code under \<open>src/crates/\<close>; the files and functions are named where the
  definitions stand.

  \<^bold>\<open>The program.\<close> A scrape request goes through a ladder of renderers: plain HTTP,
  headless browsers, anti-detect browsers. A crawl (\<open>crw-crawl/src/crawl.rs\<close>) walks a site
  breadth first over such scrapes, within the limits of robots.txt (\<open>robots.rs\<close>) and of the URL
  guard against server-side request forgery (\<open>crw-core/src/url_safety.rs\<close>). The ladder keeps a
  circuit breaker for each renderer and host (\<open>crw-renderer/src/breaker.rs\<close>) and statistics of
  which renderer a host needs (\<open>preference.rs\<close>). Fetched pages are cached under a key of the request
  (\<open>page_cache.rs\<close>). A monitor repeats scrapes on a schedule (\<open>crw-monitor/src/schedule.rs\<close>,
  \<open>scheduler.rs\<close>, \<open>runner.rs\<close>), compares every page with the snapshot of the run before
  (\<open>crw-diff/src/\<close>) and keeps its checks, results and snapshots in a store (\<open>store.rs\<close>). The server
  (\<open>crw-server/src/\<close>) offers scrapes, maps and crawls over HTTP and as tools for language models; a
  crawl is a job that runs in the background. The proxy (\<open>crw-mcp/src/main.rs\<close>) speaks the same tool
  protocol (\<open>crw-mcp-proto/src/lib.rs\<close>) and forwards the calls.

  \<^bold>\<open>The theories.\<close>
  \<^item> \<open>Prelude\<close>: errors as sums, saturating and truncating arithmetic of \<open>u64\<close> and \<open>i64\<close>, time, and
    the locale \<open>machine\<close>, the contract of a state whose operations keep an invariant, with the
    induction over operation sequences done once.
  \<^item> \<open>Rust_Str\<close>: the operations of Rust's \<open>str\<close> the code uses. A string is the list of its UTF-8
    bytes.
  \<^item> \<open>Net_Addr\<close>: IP addresses as words, with the classification predicates of \<open>std::net\<close>.
  \<^item> \<open>Core_Types\<close>, \<open>Host_Key\<close>: the renderer names and the registrable-domain key of a host
    (\<open>crw-core/src/types.rs\<close>, \<open>preference.rs\<close>).
  \<^item> \<open>Breaker\<close>, \<open>Breaker_Props\<close>: one circuit breaker, its failure window as a ring buffer with a
    cursor, its phases and its probes. The abstract specification is the list of recent outcomes;
    the lemmas are the invariant, the refinement of the window to that list, the trip and recovery
    rules, and that the number of probes in flight stays within its bound.
  \<^item> \<open>Breaker_Registry\<close>, \<open>Breaker_Registry_Props\<close>: the registry of breakers with the host and
    the renderer tier, the guards that hold a probe, and steps of interleaved calls. The lemmas are
    conservation of probes, isolation of keys and absence of panics; the registry interprets
    \<open>machine\<close>.
  \<^item> \<open>Keyed_Cache\<close>: the locales of a keyed map (\<open>keyed_map\<close>) and of a cache that may evict as well
    (\<open>keyed_cache\<close>, the contract of \<open>moka\<close>), with the interpretation of the cache on maps.
  \<^item> \<open>Preference\<close>: failure counting and promotion of a renderer for a host.
  \<^item> \<open>Url_Safety\<close>, \<open>Url_Safety_Props\<close>: the guard on URLs, addresses and redirects, against a list of
    CIDR blocks as the specification of the predicates, including IPv4 addresses embedded in IPv6.
  \<^item> \<open>Robots\<close>, \<open>Robots_Props\<close>: the capped read, the parser and the matcher of robots.txt. The
    specification of the matcher is a glob relation over the whole path.
  \<^item> \<open>Scrape_Data\<close>: the scraped document with its verdict methods, and the states of a crawl.
  \<^item> \<open>Page_Cache\<close>: key, age and budget of a cached page; \<open>lookup\<close> and \<open>store\<close> over the interface of
    \<open>Keyed_Cache\<close>.
  \<^item> \<open>Url_Key\<close>: the key under which discovered URLs are deduplicated. \<open>Url_Filter\<close>: the filter of the
    map endpoint, with its tables, that drops action links and strips tracking parameters.
  \<^item> \<open>Crawl\<close>, \<open>Crawl_Props\<close>: the crawl as a loop over an explicit queue, the verdict on each page
    and the progress states it publishes; an invariant of the loop gives the three theorems.
  \<^item> \<open>Schedule\<close>: intervals, cron expressions, the civil calendar and the search for the next run.
  \<^item> \<open>Json_Map\<close>: JSON values with objects as sorted association lists, the \<open>BTreeMap\<close> that
    \<open>serde_json\<close> uses; it interprets \<open>keyed_map\<close>.
  \<^item> \<open>Diff\<close>, \<open>Diff_Props\<close>: normalization of markdown, the field-by-field JSON diff, the capped
    git-style hunks, snapshots and the change status of a page. The lemmas are a normal form and
    its idempotence, exactness of the JSON diff over the paths of two values, the cap on hunks,
    and that a page compared with its own snapshot is the same.
  \<^item> \<open>Monitor_Types\<close>, \<open>Monitor_Store\<close>, \<open>Monitor_Store_Props\<close>: monitors, checks, page results and
    snapshots, and the tables of the store with one definition for each query. The store
    interprets \<open>machine\<close> with its foreign-key invariant, and its snapshot table interprets
    \<open>keyed_cache\<close>.
  \<^item> \<open>Monitor_Runner\<close>, \<open>Monitor_Props\<close>: a check from target to verdict, over the crawl loop and the
    diff, the judge loop, the notification and the scheduler's tick. The lemmas say how each page
    is classified and when the next run is due.
  \<^item> \<open>Text_Lib\<close>: code points, byte offsets and the syntax of the regular expressions the
    detectors use, with the record \<open>text_lib\<close> of what Unicode and the regex engine contribute.
  \<^item> \<open>Detector\<close>, \<open>Antibot\<close>: the page detectors (\<open>crw-renderer/src/detector.rs\<close>) and the layered block
    classifier (\<open>crw-extract/src/antibot.rs\<close>) with its pattern tables.
  \<^item> \<open>Render_Types\<close>, \<open>Body_Checks\<close>: the error type, the routing metadata of a render and the checks on
    the body a tier returns (\<open>JsBodyChecks\<close> of \<open>crw-renderer/src/lib.rs\<close>).
  \<^item> \<open>Host_Limiter\<close>: deadlines, the minimum interval between requests to a host and the cap on
    requests in flight. The lemmas are the spacing of callers that take turns and the conservation
    of permits; simultaneous callers share a start, which is a finding.
  \<^item> \<open>Clearance\<close>: the cookies of passed challenges and the memory of hosts that block the direct
    egress.
  \<^item> \<open>Ladder\<close>, \<open>Ladder_Props\<close>, \<open>Ladder_Breakers\<close>: the browser tiers of one request
    (\<open>fetch_with_js\<close>): order, budgets, breakers, leak-through. The specification is a relation
    without clocks and breakers; the lemmas say which tiers are called and what becomes of pages,
    and, through the locale \<open>ladder_registry\<close>, what a ladder does to the breakers.
  \<^item> \<open>Renderer\<close>, \<open>Renderer_Props\<close>: \<open>FallbackRenderer::fetch\<close> with the permit, the HTTP arm, the
    impersonating hop and the automatic and forced arms.
  \<^item> \<open>Log_Url\<close>: URLs in log lines and error texts (\<open>crw-core/src/log_url.rs\<close>, \<open>proxy.rs\<close>), with an
    inductive specification of the replacement of every URL of a text.
  \<^item> \<open>Http_Tier\<close>, \<open>Http_Props\<close>: \<open>HttpFetcher::fetch\<close> (\<open>crw-renderer/src/http_only.rs\<close>). One turn of
    its retry loop is \<open>fetch_turn\<close>, with an arm for each arm of the source's match; the lemmas rest
    on one invariant over the requests sent so far.
  \<^item> \<open>Browser_Pool\<close>, \<open>Browser_Pool_Props\<close>: the pool of browser contexts
    (\<open>crw-renderer/src/browser_pool.rs\<close>) as parallel tasks. Each invariant is a sum over the tasks
    that every step keeps: permits, owners of a slot, uses of a connection and of a context, and
    the in-flight count; the last lemmas are interleavings that break the post-condition of
    \<open>shutdown\<close>.
  \<^item> \<open>Llm_Usage\<close>, \<open>Scrape_Request\<close>: the usage record of model calls with its saturating sums, and
    the request of a scrape with the configuration it is read against (\<open>types.rs\<close>, \<open>config.rs\<close>).
  \<^item> \<open>Pdf_Doc\<close>: limits, outcome and document of a PDF (\<open>crw-crawl/src/pdf.rs\<close>,
    \<open>crw-extract/src/pdf.rs\<close>).
  \<^item> \<open>Verdict\<close>, \<open>Scrape_Single\<close>, \<open>Single_Props\<close>: the verdict on a page and \<open>scrape_url\<close>
    (\<open>crw-crawl/src/single.rs\<close>), which composes the page cache, the renderer, the HTTP tier, the PDF
    route, the verdicts and change tracking over one state, with a record of the fetches and of the
    model calls. The lemmas follow that record through the stages.
  \<^item> \<open>Sitemap\<close>, \<open>Sitemap_Props\<close>: reading one sitemap, and the walk of the tree of sitemaps level by
    level (\<open>crw-crawl/src/sitemap.rs\<close>). The lemmas are an invariant of the walk: every document is
    asked for once and belongs to the site, and what is collected are the pages it lists.
  \<^item> \<open>Discover\<close>, \<open>Discover_Props\<close>: \<open>discover_urls\<close> (\<open>crw-crawl/src/crawl.rs\<close>), which composes the guard on
    URLs, the robots file, the sitemap walk, the URL filter and a breadth-first crawl. The lemmas
    say where every listed URL comes from and what is fetched.
  \<^item> \<open>Char_Count\<close>, \<open>Chunking\<close>, \<open>Chunking_Props\<close>: cutting a text into chunks
    (\<open>crw-extract/src/chunking.rs\<close>). The lemmas follow what is visible of the text through each stage,
    and bound the chunks.
  \<^item> \<open>Mcp_Proto\<close>, \<open>Mcp_Props\<close>: the tool protocol with the declarations of the tools, and what bounds
    the size of a result. The lemmas count the code points of the fields and lists of a result
    before and after, object by object.
  \<^item> \<open>Jobs\<close>, \<open>Jobs_Props\<close>: the table of jobs (\<open>crw-server/src/state.rs\<close>), crawls and batches as tasks that
    take permits, publish, and are cancelled and cleaned up, as steps of an interleaving. One invariant over the
    registry, kept by every step through the interpretation \<open>jobs\<close> of \<open>machine\<close>, gives the theorems;
    the last lemma is the interleaving in which a cancellation is lost. Extraction jobs are a fold over their pages.
  \<^item> \<open>Budgets\<close>: deadlines and timeouts from the configuration (\<open>crw-core/src/config.rs\<close>), against
    the sum of what each tier is allowed.
  \<^item> \<open>Routes\<close>, \<open>Mcp_Server\<close>, \<open>Server_Props\<close>: the handlers of the routes, the tool server and the
    proxy, composed of \<open>Scrape_Single\<close>, \<open>Discover\<close>, \<open>Jobs\<close> and \<open>Mcp_Proto\<close> over one state of the server. The
    lemmas say what is answered, and compare the two tool servers through the answer on the wire.

  \<^bold>\<open>State and effects.\<close> Mutable state is a record passed explicitly. Time is an argument of
  each operation. A mutex makes each call on the registry atomic, so concurrent callers are
  sequences of steps. Errors are values of a sum type. A poisoned lock, an out-of-range index
  or an overflow that panics is a branch of the model where the code can reach it.

  \<^bold>\<open>Parameters.\<close> What is not under \<open>src/\<close> is an argument of the definitions: the public
  suffix list lookup, the URL parser, the DNS resolver, the HTTP fetch, the HTML link extractor and
  the hash of the cache key; for the diff and the monitor, SHA-256, the printer of JSON numbers
  and values, the line diff of the \<open>similar\<close> crate, the goal judge, the webhook and the
  generator of check ids; for the renderer, Unicode lower-casing and the regex engine, the
  roundings of floating-point seconds, the fetch of each tier and, in the HTTP tier, the client
  library, the character decoder and the URL parser; for the browser pool, the answers of the
  browser; for the single scrape, the extraction of HTML with its quality score, the calls to
  language models, the PDF parser, the chunker and the addition of floating-point costs; for
  sitemaps and URL discovery, gzip, the selectors of the HTML parser, the renderer and the order in
  which parallel fetches land; for chunking, the engine for a caller's pattern; for the server, the
  reading and writing of requests and documents as JSON, base64, fresh ids, the HTTP client of the
  proxy and the answer of a search. Every
  reading of a clock is an argument or the next value of a stream of readings.
  Components the program calls but that are not modelled (extraction, the model call) are
  parameters of \<open>Crawl\<close> and \<open>Monitor_Runner\<close> as well, which also take the scrape of one page as a
  function of its request: \<open>Scrape_Single\<close> passes the state of the page cache and of the renderer
  along, and two pages of a crawl share that state. The chunker of \<open>Scrape_Single\<close> is likewise an
  argument, which \<open>chunk_text\<close> of \<open>Chunking\<close> instantiates.

  \<^bold>\<open>Bounds and fuel.\<close> \<open>crawl_loop\<close> ends because a round either shortens the queue or
  adds to the visited set, which its limit bounds; its termination proof needs no fuel. \<open>mark_steps\<close>
  in \<open>Schedule\<close> has fuel \<open>hi + 1\<close>, one round for each value up to the upper bound. \<open>cron_search\<close>
  has the bound of the code's own loop, \<open>366 * 4 * 24 * 60\<close> minutes. \<open>fetch_loop\<close> of the HTTP tier
  ends because each turn uses up a retry, the relaxed client, the proxy or the rescue
  (\<open>flags_rank\<close>). \<open>walk_loop\<close> of the sitemap walk and \<open>discover_levels\<close> recurse on the depth that is
  left, \<open>fill_pages\<close> on the lists of pages; \<open>split_from\<close> of the chunker advances by a code point at
  least. The browser pool is a step relation and needs no bound.

  \<^bold>\<open>Not modelled.\<close> The browser drivers (\<open>cdp.rs\<close>, \<open>camofox.rs\<close>, \<open>byparr.rs\<close>), extraction, the
  model calls and their prompts, webhooks, search, the set-up of the server with its
  authentication, the \<open>/v2\<close> adapters and the command line. Most of it is I/O, calls
  into parsers outside the repository, or heuristics over tables. Within the modelled parts, counters, gauges and log lines
  are left out, and so are the case of a browser pool dropped before its guards, the
  configuration of the client library, and a request or a job that is dropped half-way through a
  scrape.
\<close>

end
